(* ===== verification/Prelude.thy ===== *)
theory Prelude
  imports Main "HOL-Library.Word" "HOL-Library.AList" "HOL-Library.Multiset"
begin

text \<open>
  Shared vocabulary of the development: machine integers with Rust's saturating
  operations, the big-endian and little-endian byte views of integers, the two map
  types of the standard library the crates use (an unordered \<open>HashMap\<close> and an ordered
  \<open>BTreeMap\<close>) behind one interface, iteration orders of hash maps, and results.

  Conventions.  A \<open>u64\<close> (\<open>u32\<close>, \<open>u8\<close>, \<open>u128\<close>, \<open>U256\<close>) of the source is a word of that
  width.  A byte array \<open>[u8; 32]\<close>, \<open>B256\<close> or \<open>[u8; 20]\<close>, \<open>Address\<close> is the word whose
  big-endian bytes it is: the type fixes the length, equality is equality of the
  bytes, and the order of the words is the lexicographic order of the byte arrays
  (\<open>less_than_loop_of_be\<close> in theory \<open>Authorization\<close>).  A \<open>usize\<close> that counts elements of a collection is a \<open>nat\<close>.
  \<open>Result<T, E>\<close> is \<open>E + T\<close>.
\<close>

section \<open>Types\<close>

type_synonym u8 = "8 word"
type_synonym u32 = "32 word"
type_synonym u64 = "64 word"
type_synonym u128 = "128 word"
type_synonym U256 = "256 word"
type_synonym B256 = "256 word"
type_synonym Address = "160 word"
type_synonym bytes = "u8 list"

named_theorems sat_simps \<open>unsigned readings of the saturating operations\<close>
named_theorems map_specs \<open>lookups after updates and deletions\<close>

section \<open>Saturating arithmetic\<close>

definition sat_add :: "'a::len word \<Rightarrow> 'a word \<Rightarrow> 'a word" where
  "sat_add a b = (if unat a + unat b < 2 ^ LENGTH('a) then a + b else - 1)"

definition sat_sub :: "'a::len word \<Rightarrow> 'a word \<Rightarrow> 'a word" where
  "sat_sub a b = (if b \<le> a then a - b else 0)"

definition sat_mul :: "'a::len word \<Rightarrow> 'a word \<Rightarrow> 'a word" where
  "sat_mul a b = (if unat a * unat b < 2 ^ LENGTH('a) then a * b else - 1)"

lemma unat_minus_one_word_max: "unat (- 1 :: 'a::len word) = 2 ^ LENGTH('a) - 1"
  by (simp add: unsigned_minus_1_eq_mask mask_eq_exp_minus_1)

lemma unat_sat_add [sat_simps]:
  "unat (sat_add a b) = min (unat a + unat b) (2 ^ LENGTH('a) - 1)"
  for a b :: "'a::len word"
  by (auto simp: sat_add_def unat_minus_one_word_max unat_add_lem [THEN iffD1])

lemma unat_sat_sub [sat_simps]: "unat (sat_sub a b) = unat a - unat b"
  by (auto simp: sat_sub_def word_le_nat_alt unat_sub)

lemma unat_sat_mul [sat_simps]:
  "unat (sat_mul a b) = min (unat a * unat b) (2 ^ LENGTH('a) - 1)"
  for a b :: "'a::len word"
  by (auto simp: sat_mul_def unat_minus_one_word_max unat_mult_lem [THEN iffD1])

lemma sat_add_commute: "sat_add a b = sat_add b a"
  by (rule word_unat_eq_iff [THEN iffD2]) (simp add: sat_simps add.commute)

lemma sat_add_assoc: "sat_add (sat_add a b) c = sat_add a (sat_add b c)"
  by (rule word_unat_eq_iff [THEN iffD2]) (simp add: sat_simps)

lemma sat_add_left_commute: "sat_add a (sat_add b c) = sat_add b (sat_add a c)"
  by (rule word_unat_eq_iff [THEN iffD2]) (simp add: sat_simps)

lemma sat_add_0 [simp]: "sat_add 0 a = a" "sat_add a 0 = a"
  by (simp_all add: sat_add_def)

lemma unat_le_max: "unat (a :: 'a::len word) \<le> 2 ^ LENGTH('a) - 1"
proof -
  have "unat a < 2 ^ LENGTH('a)" by simp
  then show ?thesis by linarith
qed

lemma sat_add_ge: "a \<le> sat_add a b"
  using unat_le_max [of a] by (simp add: word_le_nat_alt sat_simps)

text \<open>Sums that saturate.\<close>

lemma unat_fold_sat_add:
  "unat (fold (\<lambda>x g. sat_add g (f x)) xs g) = min (unat g + sum_list (map (unat \<circ> f) xs)) (2 ^ LENGTH('a) - 1)"
  for g :: "'a::len word"
proof (induction xs arbitrary: g)
  case Nil
  show ?case using unat_le_max [of g] by simp
next
  case (Cons x xs)
  then show ?case by (simp add: sat_simps)
qed

lemma unat_ucast_u64_u128 [simp]: "unat (ucast (x :: u64) :: u128) = unat x"
proof -
  have "unat x < 2 ^ 128" using unat_le_max [of x] by simp
  then show ?thesis by (simp add: unsigned_ucast_eq take_bit_nat_eq_self)
qed

section \<open>Bytes\<close>

text \<open>\<open>be_nat n v\<close> is the big-endian representation of \<open>v\<close> on \<open>n\<close> bytes.\<close>

fun be_nat :: "nat \<Rightarrow> nat \<Rightarrow> bytes" where
  "be_nat 0 v = []"
| "be_nat (Suc n) v = be_nat n (v div 256) @ [of_nat v]"

definition of_be :: "bytes \<Rightarrow> nat" where
  "of_be bs = foldl (\<lambda>acc b. acc * 256 + unat b) 0 bs"

definition be_bytes :: "'a::len word \<Rightarrow> bytes" where
  "be_bytes w = be_nat (LENGTH('a) div 8) (unat w)"

definition le_bytes :: "'a::len word \<Rightarrow> bytes" where
  "le_bytes w = rev (be_bytes w)"

lemma length_be_nat [simp]: "length (be_nat n v) = n"
  by (induction n arbitrary: v) auto

lemma length_be_bytes [simp]: "length (be_bytes (w :: 'a::len word)) = LENGTH('a) div 8"
  by (simp add: be_bytes_def)

lemma length_le_bytes [simp]: "length (le_bytes (w :: 'a::len word)) = LENGTH('a) div 8"
  by (simp add: le_bytes_def)

lemma of_be_Nil [simp]: "of_be [] = 0"
  by (simp add: of_be_def)

lemma of_be_snoc [simp]: "of_be (bs @ [b]) = of_be bs * 256 + unat b"
  by (simp add: of_be_def)

lemma of_be_Cons: "of_be (b # bs) = unat b * 256 ^ length bs + of_be bs"
proof (induction bs rule: rev_induct)
  case (snoc c bs)
  have "of_be (b # bs @ [c]) = of_be (b # bs) * 256 + unat c"
    by (metis append_Cons of_be_snoc)
  with snoc show ?case by (simp add: algebra_simps)
qed (simp add: of_be_def)

lemma unat_of_nat_u8: "unat (of_nat v :: u8) = v mod 256"
  by (simp add: unsigned_of_nat take_bit_eq_mod)

lemma of_be_be_nat: "of_be (be_nat n v) = v mod 256 ^ n"
proof (induction n arbitrary: v)
  case 0
  then show ?case by simp
next
  case (Suc n)
  have "of_be (be_nat (Suc n) v) = (v div 256 mod 256 ^ n) * 256 + v mod 256"
    by (simp add: Suc.IH unat_of_nat_u8)
  also have "\<dots> = v mod (256 * 256 ^ n)"
    by (simp add: mod_mult2_eq)
  finally show ?case by simp
qed

lemma of_be_less: "of_be bs < 256 ^ length bs"
proof (induction bs rule: rev_induct)
  case Nil
  then show ?case by simp
next
  case (snoc b bs)
  have "unat b < 256"
    using unsigned_less [of b] by simp
  with snoc.IH have "of_be bs * 256 + unat b < (of_be bs + 1) * 256" and "of_be bs + 1 \<le> 256 ^ length bs"
    by simp_all
  moreover have "(of_be bs + 1) * 256 \<le> 256 ^ length bs * 256"
    using snoc.IH by (intro mult_le_mono1) simp
  ultimately show ?case by simp
qed

lemma be_nat_of_be: "be_nat (length bs) (of_be bs) = bs"
proof (induction bs rule: rev_induct)
  case Nil
  then show ?case by simp
next
  case (snoc b bs)
  have "unat b < 256"
    using unsigned_less [of b] by simp
  then have "(of_be bs * 256 + unat b) div 256 = of_be bs" and "(of_nat (of_be bs * 256 + unat b) :: u8) = b"
    by (simp_all add: word_unat_eq_iff unat_of_nat_u8 del: of_nat_add of_nat_mult)
  with snoc.IH show ?case by simp
qed

lemma be_nat_inj:
  assumes "be_nat n v = be_nat n w" and "v < 256 ^ n" and "w < 256 ^ n"
  shows "v = w"
proof -
  from assms(1) have "of_be (be_nat n v) = of_be (be_nat n w)" by simp
  with assms(2,3) show ?thesis by (simp add: of_be_be_nat)
qed

lemma power_256: "(256::nat) ^ n = 2 ^ (8 * n)"
  by (simp add: power_mult)

lemma be_bytes_inj:
  assumes "be_bytes (v :: 'a::len word) = be_bytes w" and "8 dvd LENGTH('a)"
  shows "v = w"
proof -
  have "(256::nat) ^ (LENGTH('a) div 8) = 2 ^ LENGTH('a)"
    using assms(2) by (simp add: power_256)
  then have "unat v < 256 ^ (LENGTH('a) div 8)" and "unat w < 256 ^ (LENGTH('a) div 8)"
    by simp_all
  with assms(1) have "unat v = unat w"
    unfolding be_bytes_def by (blast intro: be_nat_inj)
  then show ?thesis by (simp add: word_unat_eq_iff)
qed

lemma of_be_be_bytes: "8 dvd LENGTH('a) \<Longrightarrow> of_be (be_bytes (w :: 'a::len word)) = unat w"
  by (simp add: be_bytes_def of_be_be_nat power_256)

lemma be_bytes_eq_iff [simp]:
  "be_bytes (v :: u64) = be_bytes v' \<longleftrightarrow> v = v'"
  "be_bytes (b :: B256) = be_bytes b' \<longleftrightarrow> b = b'"
  "be_bytes (a :: Address) = be_bytes a' \<longleftrightarrow> a = a'"
  "be_bytes (c :: u128) = be_bytes c' \<longleftrightarrow> c = c'"
  by (auto intro: be_bytes_inj)

text \<open>The word whose bytes a list is, and \<open>b"..."\<close> literals.\<close>

definition word_of_be :: "bytes \<Rightarrow> 'a::len word" where
  "word_of_be bs = of_nat (of_be bs)"

definition ascii :: "string \<Rightarrow> bytes" where
  "ascii s = map of_char s"

lemma be_bytes_word_of_be:
  assumes "length bs = LENGTH('a) div 8" and "8 dvd LENGTH('a)"
  shows "be_bytes (word_of_be bs :: 'a::len word) = bs"
proof -
  have "of_be bs < 2 ^ LENGTH('a)"
    using of_be_less [of bs] assms by (simp add: power_256)
  then have "unat (word_of_be bs :: 'a word) = of_be bs"
    by (simp add: word_of_be_def unsigned_of_nat take_bit_eq_mod)
  then show ?thesis
    using be_nat_of_be [of bs] assms(1) by (simp add: be_bytes_def)
qed

text \<open>Prefixes of equal length split an equation between byte strings.\<close>

lemma append_eq_split: "length xs = length ys \<Longrightarrow> xs @ us = ys @ vs \<longleftrightarrow> xs = ys \<and> us = vs"
  by simp

section \<open>Maps\<close>

text \<open>
  The contract of a map type: what a lookup returns after each operation, and that the
  representation invariant is kept.  The clients of a map (the state database, the
  mempool, the vote tables, the peer table) are proved against this contract.
\<close>

locale map_contract =
  fixes empty :: "'m"
    and get :: "'m \<Rightarrow> 'k \<Rightarrow> 'v option"
    and insert :: "'k \<Rightarrow> 'v \<Rightarrow> 'm \<Rightarrow> 'm"
    and remove :: "'k \<Rightarrow> 'm \<Rightarrow> 'm"
    and invar :: "'m \<Rightarrow> bool"
  assumes get_empty: "get empty k = None"
    and get_insert: "invar m \<Longrightarrow> get (insert k v m) k' = (if k' = k then Some v else get m k')"
    and get_remove: "invar m \<Longrightarrow> get (remove k m) k' = (if k' = k then None else get m k')"
    and invar_empty: "invar empty"
    and invar_insert: "invar m \<Longrightarrow> invar (insert k v m)"
    and invar_remove: "invar m \<Longrightarrow> invar (remove k m)"
begin

lemma get_insert_same: "invar m \<Longrightarrow> get (insert k v m) k = Some v"
  by (simp add: get_insert)

lemma get_insert_other: "invar m \<Longrightarrow> k' \<noteq> k \<Longrightarrow> get (insert k v m) k' = get m k'"
  by (simp add: get_insert)

lemma invar_fold_insert: "invar m \<Longrightarrow> invar (fold (\<lambda>(k, v). insert k v) kvs m)"
  by (induction kvs arbitrary: m) (auto simp: invar_insert)

lemma get_fold_insert:
  "invar m \<Longrightarrow> get (fold (\<lambda>(k, v). insert k v) kvs m) k =
     (case map_of (rev kvs) k of None \<Rightarrow> get m k | Some v \<Rightarrow> Some v)"
proof (induction kvs arbitrary: m)
  case Nil
  then show ?case by simp
next
  case (Cons kv kvs)
  then show ?case
    by (cases kv) (auto simp: invar_insert get_insert map_add_def split: option.splits)
qed

text \<open>Two insertions at different keys commute, as far as lookups can tell.\<close>

lemma get_insert_commute:
  "invar m \<Longrightarrow> k1 \<noteq> k2 \<Longrightarrow>
     get (insert k1 v1 (insert k2 v2 m)) k = get (insert k2 v2 (insert k1 v1 m)) k"
  by (simp add: get_insert invar_insert)

lemma get_remove_insert: "invar m \<Longrightarrow> get m k = None \<Longrightarrow> get (remove k (insert k v m)) = get m"
  by (rule ext) (simp add: get_remove get_insert invar_insert)

end

subsection \<open>HashMap\<close>

text \<open>
  A \<open>HashMap\<close> is a list of entries with distinct keys.  The order of the list has no
  meaning: where the source iterates over a hash map and the order can be observed, the
  definition takes the order as a parameter \<open>it\<close>, a function that permutes the entries.
\<close>

type_synonym ('k, 'v) hashmap = "('k \<times> 'v) list"

definition hm_insert :: "'k \<Rightarrow> 'v \<Rightarrow> ('k, 'v) hashmap \<Rightarrow> ('k, 'v) hashmap" where
  "hm_insert k v m = AList.update k v m"

definition hm_remove :: "'k \<Rightarrow> ('k, 'v) hashmap \<Rightarrow> ('k, 'v) hashmap" where
  "hm_remove k m = AList.delete k m"

definition hm_inv :: "('k, 'v) hashmap \<Rightarrow> bool" where
  "hm_inv m \<longleftrightarrow> distinct (map fst m)"

definition hash_order :: "('a list \<Rightarrow> 'a list) \<Rightarrow> bool" where
  "hash_order it \<longleftrightarrow> (\<forall>xs. mset (it xs) = mset xs)"

lemma hm_insert_Nil [simp]: "hm_insert k v [] = [(k, v)]"
  by (simp add: hm_insert_def)

lemma hm_insert_Cons [simp]:
  "hm_insert k v ((k', v') # m) = (if k' = k then (k, v) # m else (k', v') # hm_insert k v m)"
  by (simp add: hm_insert_def)

lemma hm_remove_filter: "hm_remove k m = filter (\<lambda>e. fst e \<noteq> k) m"
  by (auto simp: hm_remove_def AList.delete_eq case_prod_unfold intro: filter_cong)

interpretation hm: map_contract "[]" map_of hm_insert hm_remove hm_inv
proof unfold_locales
  fix m :: "('a, 'b) hashmap" and k k' :: 'a and v :: 'b
  show "map_of [] k = None" by simp
  show "map_of (hm_insert k v m) k' = (if k' = k then Some v else map_of m k')"
    by (simp add: hm_insert_def update_conv')
  show "map_of (hm_remove k m) k' = (if k' = k then None else map_of m k')"
    by (simp add: hm_remove_def delete_conv')
  show "hm_inv []" by (simp add: hm_inv_def)
  show "hm_inv m \<Longrightarrow> hm_inv (hm_insert k v m)"
    by (simp add: hm_inv_def hm_insert_def distinct_update)
  show "hm_inv m \<Longrightarrow> hm_inv (hm_remove k m)"
    by (simp add: hm_inv_def hm_remove_def distinct_delete)
qed

lemma map_of_hm_insert [simp, map_specs]: "map_of (hm_insert k v m) = (map_of m)(k \<mapsto> v)"
  by (simp add: hm_insert_def update_conv')

lemma map_of_hm_remove [simp, map_specs]: "map_of (hm_remove k m) = (map_of m)(k := None)"
  by (simp add: hm_remove_def delete_conv')

lemma hm_inv_simps [simp]: "hm_inv []" "hm_inv m \<Longrightarrow> hm_inv (hm_insert k v m)"
  "hm_inv m \<Longrightarrow> hm_inv (hm_remove k m)"
  by (simp_all add: hm.invar_empty hm.invar_insert hm.invar_remove)

lemma hm_mem_iff: "hm_inv m \<Longrightarrow> (k, v) \<in> set m \<longleftrightarrow> map_of m k = Some v"
  by (auto simp: hm_inv_def)

lemma hash_order_set: "hash_order it \<Longrightarrow> set (it xs) = set xs"
  by (metis hash_order_def set_mset_mset)

lemma hm_perm:
  assumes "hm_inv m" and "mset m' = mset m"
  shows "hm_inv m'" and "map_of m' = map_of m"
proof -
  from assms(2) have "mset (map fst m') = mset (map fst m)" by simp
  then have "distinct (map fst m') \<longleftrightarrow> distinct (map fst m)"
    by (rule mset_eq_imp_distinct_iff)
  with assms(1) show inv: "hm_inv m'" by (simp add: hm_inv_def)
  from assms(2) have "set m' = set m" by (metis set_mset_mset)
  then have "map_of m' k = Some v \<longleftrightarrow> map_of m k = Some v" for k v
    using hm_mem_iff [OF inv] hm_mem_iff [OF assms(1)] by blast
  then show "map_of m' = map_of m" by (metis ext not_None_eq)
qed

lemma hash_order_hm:
  assumes "hash_order it" and "hm_inv m"
  shows "hm_inv (it m)" and "map_of (it m) = map_of m"
  using hm_perm [OF assms(2), of "it m"] assms(1) by (simp_all add: hash_order_def)

lemma hash_order_id [simp]: "hash_order (\<lambda>xs. xs)"
  by (simp add: hash_order_def)

subsection \<open>BTreeMap\<close>

text \<open>
  A \<open>BTreeMap\<close> is a list of entries whose keys are strictly increasing: its iteration
  order is the key order.
\<close>

fun bt_insert :: "'k::linorder \<Rightarrow> 'v \<Rightarrow> ('k \<times> 'v) list \<Rightarrow> ('k \<times> 'v) list" where
  "bt_insert k v [] = [(k, v)]"
| "bt_insert k v ((k', v') # m) =
     (if k < k' then (k, v) # (k', v') # m
      else if k = k' then (k, v) # m
      else (k', v') # bt_insert k v m)"

definition bt_remove :: "'k \<Rightarrow> ('k \<times> 'v) list \<Rightarrow> ('k \<times> 'v) list" where
  "bt_remove k m = filter (\<lambda>e. fst e \<noteq> k) m"

definition bt_inv :: "('k::linorder \<times> 'v) list \<Rightarrow> bool" where
  "bt_inv m \<longleftrightarrow> sorted_wrt (<) (map fst m)"

lemma map_of_bt_insert [simp, map_specs]: "map_of (bt_insert k v m) = (map_of m)(k \<mapsto> v)"
  by (induction m) (auto simp: fun_eq_iff)

lemma map_of_bt_remove [simp, map_specs]: "map_of (bt_remove k m) = (map_of m)(k := None)"
  by (induction m) (auto simp: bt_remove_def fun_eq_iff)

lemma keys_bt_insert [simp]: "fst ` set (bt_insert k v m) = Set.insert k (fst ` set m)"
  by (induction k v m rule: bt_insert.induct) auto

lemma bt_inv_insert: "bt_inv m \<Longrightarrow> bt_inv (bt_insert k v m)"
proof (induction m)
  case Nil
  then show ?case by (simp add: bt_inv_def)
next
  case (Cons e m)
  obtain k' v' where e: "e = (k', v')" by (cases e)
  have "x \<in> fst ` set (bt_insert k v m) \<Longrightarrow> x = k \<or> x \<in> fst ` set m" for x
    by simp
  with Cons show ?case
    by (fastforce simp: e bt_inv_def image_iff)
qed

lemma bt_inv_remove: "bt_inv m \<Longrightarrow> bt_inv (bt_remove k m)"
  by (induction m) (auto simp: bt_inv_def bt_remove_def)

interpretation bt: map_contract "[]" map_of bt_insert bt_remove bt_inv
  by unfold_locales (simp_all add: bt_inv_insert bt_inv_remove, simp add: bt_inv_def)

lemma bt_inv_simps [simp]: "bt_inv []" "bt_inv m \<Longrightarrow> bt_inv (bt_insert k v m)"
  "bt_inv m \<Longrightarrow> bt_inv (bt_remove k m)"
  by (simp_all add: bt.invar_empty bt.invar_insert bt.invar_remove)

lemma bt_inv_distinct: "bt_inv m \<Longrightarrow> distinct (map fst m)"
  by (simp add: bt_inv_def strict_sorted_iff)

lemma bt_mem_iff: "bt_inv m \<Longrightarrow> (k, v) \<in> set m \<longleftrightarrow> map_of m k = Some v"
  by (auto simp: bt_inv_distinct)

lemma mset_bt_insert_fresh:
  "map_of m k = None \<Longrightarrow> mset (bt_insert k v m) = add_mset (k, v) (mset m)"
  by (induction m) (auto split: if_splits)

lemma mset_bt_remove: 
  "bt_inv m \<Longrightarrow> map_of m k = Some v \<Longrightarrow> mset m = add_mset (k, v) (mset (bt_remove k m))"
proof (induction m)
  case Nil
  then show ?case by simp
next
  case (Cons e m)
  obtain k' v' where e: "e = (k', v')" by (cases e)
  show ?case
  proof (cases "k' = k")
    case True
    with Cons.prems(1) have "\<forall>e \<in> set m. fst e \<noteq> k"
      by (auto simp: e bt_inv_def)
    then have "bt_remove k m = m"
      by (simp add: bt_remove_def)
    with True Cons.prems(2) show ?thesis
      by (simp add: e bt_remove_def)
  next
    case False
    with Cons.prems have "mset m = add_mset (k, v) (mset (bt_remove k m))"
      by (intro Cons.IH) (auto simp: e bt_inv_def)
    with False show ?thesis
      by (simp add: e bt_remove_def)
  qed
qed

section \<open>Iteration and sorting\<close>

fun find_map :: "('a \<Rightarrow> 'b option) \<Rightarrow> 'a list \<Rightarrow> 'b option" where
  "find_map f [] = None"
| "find_map f (x # xs) = (case f x of Some y \<Rightarrow> Some y | None \<Rightarrow> find_map f xs)"

lemma find_map_Some: "find_map f xs = Some y \<Longrightarrow> \<exists>x \<in> set xs. f x = Some y"
  by (induction xs) (auto split: option.splits)

lemma find_map_None: "find_map f xs = None \<longleftrightarrow> (\<forall>x \<in> set xs. f x = None)"
  by (induction xs) (auto split: option.splits)

text \<open>
  The contract of \<open>sort_unstable_by\<close>: a permutation in which no element is followed by
  one the comparison puts strictly before it.  The order of equal elements is open.
\<close>

definition unstable_sort :: "('a \<Rightarrow> 'a \<Rightarrow> bool) \<Rightarrow> ('a list \<Rightarrow> 'a list) \<Rightarrow> bool" where
  "unstable_sort le srt \<longleftrightarrow> (\<forall>xs. mset (srt xs) = mset xs \<and> sorted_wrt le (srt xs))"

lemma unstable_sort_mset: "unstable_sort le srt \<Longrightarrow> mset (srt xs) = mset xs"
  by (simp add: unstable_sort_def)

lemma unstable_sort_set: "unstable_sort le srt \<Longrightarrow> set (srt xs) = set xs"
  by (metis set_mset_mset unstable_sort_mset)

lemma unstable_sort_sorted: "unstable_sort le srt \<Longrightarrow> sorted_wrt le (srt xs)"
  by (simp add: unstable_sort_def)

text \<open>An executable sort by a comparison, which meets that contract for a total preorder.\<close>

fun insort_by :: "('a \<Rightarrow> 'a \<Rightarrow> bool) \<Rightarrow> 'a \<Rightarrow> 'a list \<Rightarrow> 'a list" where
  "insort_by le x [] = [x]"
| "insort_by le x (y # ys) = (if le x y then x # y # ys else y # insort_by le x ys)"

definition sort_by :: "('a \<Rightarrow> 'a \<Rightarrow> bool) \<Rightarrow> 'a list \<Rightarrow> 'a list" where
  "sort_by le xs = foldr (insort_by le) xs []"

lemma mset_insort_by [simp]: "mset (insort_by le x xs) = add_mset x (mset xs)"
  by (induction xs) auto

lemma mset_sort_by [simp]: "mset (sort_by le xs) = mset xs"
  by (induction xs) (auto simp: sort_by_def)

lemma set_insort_by [simp]: "set (insort_by le x xs) = Set.insert x (set xs)"
  by (metis mset_insort_by set_mset_add_mset_insert set_mset_mset)

lemma set_sort_by [simp]: "set (sort_by le xs) = set xs"
  by (metis mset_sort_by set_mset_mset)

lemma length_sort_by [simp]: "length (sort_by le xs) = length xs"
  by (metis mset_sort_by size_mset)

lemma sorted_insort_by:
  assumes "\<And>x y. le x y \<or> le y x" and "\<And>x y z. le x y \<Longrightarrow> le y z \<Longrightarrow> le x z"
  shows "sorted_wrt le xs \<Longrightarrow> sorted_wrt le (insort_by le x xs)"
proof (induction xs)
  case Nil
  then show ?case by simp
next
  case (Cons y ys)
  then show ?case using assms by auto
qed

lemma unstable_sort_sort_by:
  assumes "\<And>x y. le x y \<or> le y x" and "\<And>x y z. le x y \<Longrightarrow> le y z \<Longrightarrow> le x z"
  shows "unstable_sort le (sort_by le)"
proof -
  have "sorted_wrt le (sort_by le xs)" for xs
    by (induction xs) (simp_all add: sort_by_def sorted_insort_by [OF assms])
  then show ?thesis by (simp add: unstable_sort_def)
qed

end
