(* ===== verification/Validator_Set.thy ===== *)
theory Validator_Set
  imports Prelude
begin

text \<open>
  The validator set of \<open>crates/eth2077-oob-consensus/src/validator.rs\<close>: voting weights, the
  quorum threshold and the rotation of the round leader.  The facts the consensus proofs
  rest on are the weight of a set of validators and how two quorums overlap.
\<close>

record Validator =
  val_index :: u64
  val_weight :: u64
  public_key :: B256

record ValidatorSet =
  validators :: "Validator list"
  vs_total_weight :: u64

definition ValidatorSet_new :: "Validator list \<Rightarrow> ValidatorSet" where
  "ValidatorSet_new vs =
     \<lparr>validators = vs, vs_total_weight = foldl (\<lambda>acc v. sat_add acc (val_weight v)) 0 vs\<rparr>"

definition vs_get :: "ValidatorSet \<Rightarrow> u64 \<Rightarrow> Validator option" where
  "vs_get s i = find (\<lambda>v. val_index v = i) (validators s)"

definition total_weight :: "ValidatorSet \<Rightarrow> u64" where
  "total_weight s = vs_total_weight s"

definition quorum_weight :: "ValidatorSet \<Rightarrow> u64" where
  "quorum_weight s = (let f = sat_sub (vs_total_weight s) 1 div 3 in sat_add (2 * f) 1)"

definition leader_for_round :: "ValidatorSet \<Rightarrow> u64 \<Rightarrow> u32 \<Rightarrow> u64" where
  "leader_for_round s height round =
     (if validators s = [] then 0
      else let leader_position =
             unat (sat_add height (ucast round) mod of_nat (length (validators s)))
           in val_index (validators s ! leader_position))"

definition vs_len :: "ValidatorSet \<Rightarrow> nat" where
  "vs_len s = length (validators s)"

definition weight_of :: "ValidatorSet \<Rightarrow> u64 \<Rightarrow> u64" where
  "weight_of s i = (case vs_get s i of None \<Rightarrow> 0 | Some v \<Rightarrow> val_weight v)"

section \<open>Weights\<close>

text \<open>
  \<open>voting_weight s A\<close> is the weight of the validators whose index is in \<open>A\<close>, without
  saturation; \<open>weight_sum\<close> is the sum of all entries of the list.
\<close>

definition voting_weight :: "ValidatorSet \<Rightarrow> u64 set \<Rightarrow> nat" where
  "voting_weight s A = (\<Sum>i\<in>A. unat (weight_of s i))"

definition weight_sum :: "Validator list \<Rightarrow> nat" where
  "weight_sum vs = (\<Sum>v\<leftarrow>vs. unat (val_weight v))"

lemma foldl_sat_add:
  "unat (foldl (\<lambda>acc v. sat_add acc (val_weight v)) a vs) = min (unat a + weight_sum vs) (2 ^ 64 - 1)"
proof (induction vs arbitrary: a)
  case Nil
  then show ?case using unat_le_max [of a] by (simp add: weight_sum_def)
next
  case (Cons v vs)
  then show ?case by (simp add: sat_simps weight_sum_def min_def)
qed

lemma total_weight_new:
  "unat (total_weight (ValidatorSet_new vs)) = min (weight_sum vs) (2 ^ 64 - 1)"
  by (simp add: total_weight_def ValidatorSet_new_def foldl_sat_add)

lemma validators_new [simp]: "validators (ValidatorSet_new vs) = vs"
  by (simp add: ValidatorSet_new_def)

lemma unat_quorum_weight:
  "unat (quorum_weight s) = 2 * ((unat (total_weight s) - 1) div 3) + 1"
proof -
  define f where "f = sat_sub (vs_total_weight s) 1 div 3"
  have f: "unat f = (unat (vs_total_weight s) - 1) div 3"
    by (simp add: f_def unat_div_distrib sat_simps)
  moreover have "unat (vs_total_weight s) \<le> 2 ^ 64 - 1"
    using unat_le_max [of "vs_total_weight s"] by simp
  ultimately have le: "2 * unat f + 1 \<le> 2 ^ 64 - 1"
    by simp
  then have "unat (2 * f) = 2 * unat f"
    by (subst unat_mult_lem [THEN iffD1]) simp_all
  with f le show ?thesis
    by (simp add: quorum_weight_def Let_def f_def [symmetric] sat_simps total_weight_def)
qed

lemma quorum_weight_pos: "quorum_weight s \<noteq> 0"
  using unat_quorum_weight [of s] by (metis add_is_0 one_neq_zero unat_0)

lemma weight_of_outside: "i \<notin> val_index ` set (validators s) \<Longrightarrow> weight_of s i = 0"
  by (auto simp: weight_of_def vs_get_def find_Some_iff split: option.splits)

text \<open>The indexes that hold weight lie in the list, and each counts once.\<close>

lemma voting_weight_le_sum: "voting_weight s A \<le> weight_sum (validators s)"
proof -
  have step: "(\<Sum>i\<in>A. unat (case find (\<lambda>v. val_index v = i) vs of None \<Rightarrow> 0 | Some v \<Rightarrow> val_weight v))
      \<le> weight_sum vs" for vs
  proof (induction vs)
    case Nil
    then show ?case by (simp add: weight_sum_def)
  next
    case (Cons v vs)
    let ?w = "\<lambda>vs i. unat (case find (\<lambda>v. val_index v = i) vs of None \<Rightarrow> 0 | Some v \<Rightarrow> val_weight v)"
    have "(\<Sum>i\<in>A. ?w (v # vs) i) \<le> (\<Sum>i\<in>A. (if i = val_index v then unat (val_weight v) else 0) + ?w vs i)"
      by (intro sum_mono) auto
    also have "\<dots> \<le> unat (val_weight v) + (\<Sum>i\<in>A. ?w vs i)"
      by (simp add: sum.distrib sum.delta')
    also have "\<dots> \<le> weight_sum (v # vs)"
      using Cons.IH by (simp add: weight_sum_def)
    finally show ?case .
  qed
  show ?thesis
    unfolding voting_weight_def weight_of_def vs_get_def by (rule step)
qed

lemma voting_weight_mono: "A \<subseteq> B \<Longrightarrow> voting_weight s A \<le> voting_weight s B"
  unfolding voting_weight_def by (intro sum_mono2) auto

lemma voting_weight_Un_Int:
  "voting_weight s A + voting_weight s B = voting_weight s (A \<union> B) + voting_weight s (A \<inter> B)"
  unfolding voting_weight_def by (intro sum.union_inter [symmetric]) simp_all

lemma voting_weight_Diff: "voting_weight s A \<le> voting_weight s (A - B) + voting_weight s B"
proof -
  have "voting_weight s A \<le> voting_weight s ((A - B) \<union> B)"
    by (rule voting_weight_mono) blast
  also have "\<dots> \<le> voting_weight s (A - B) + voting_weight s B"
    using voting_weight_Un_Int [of s "A - B" B] by simp
  finally show ?thesis .
qed

lemma voting_weight_empty [simp]: "voting_weight s {} = 0"
  by (simp add: voting_weight_def)

lemma voting_weight_pos: "0 < voting_weight s A \<Longrightarrow> A \<noteq> {}"
  by auto

text \<open>Two sets of validators overlap in what their weights exceed the total by.\<close>

lemma voting_weight_overlap:
  "voting_weight s A + voting_weight s B \<le> weight_sum (validators s) + voting_weight s (A \<inter> B)"
  using voting_weight_Un_Int [of s A B] voting_weight_le_sum [of s "A \<union> B"] by simp

section \<open>Quorums\<close>

definition is_quorum :: "ValidatorSet \<Rightarrow> u64 set \<Rightarrow> bool" where
  "is_quorum s A \<longleftrightarrow> unat (quorum_weight s) \<le> voting_weight s A"

text \<open>C28.  With total weight \<open>3 f + 1\<close> the threshold is \<open>2 f + 1\<close>, and any two quorums share
  validators of weight more than \<open>f\<close>: at least one of them is honest when the faulty ones
  weigh at most \<open>f\<close>.\<close>

theorem quorum_intersection:
  assumes "s = ValidatorSet_new vs" and "weight_sum vs = 3 * f + 1" and "weight_sum vs < 2 ^ 64"
    and "is_quorum s A" and "is_quorum s B"
  shows "unat (quorum_weight s) = 2 * f + 1 \<and> f < voting_weight s (A \<inter> B)"
proof -
  have "unat (total_weight s) = 3 * f + 1"
    using assms(1-3) total_weight_new [of vs] by simp
  then have q: "unat (quorum_weight s) = 2 * f + 1"
    by (simp add: unat_quorum_weight)
  then show ?thesis
    using assms voting_weight_overlap [of s A B] by (simp add: is_quorum_def)
qed

lemma voting_weight_insert:
  "i \<notin> A \<Longrightarrow> voting_weight s (insert i A) = unat (weight_of s i) + voting_weight s A"
  by (simp add: voting_weight_def)

text \<open>The threshold rounds the wrong way when the total weight is a multiple of three:
  for three validators of weight one it is one, so that every single validator is a
  quorum and two quorums can be disjoint.\<close>

theorem three_validators_disjoint_quorums:
  fixes s :: ValidatorSet
  assumes "s = ValidatorSet_new
    [\<lparr>val_index = 0, val_weight = 1, public_key = k0\<rparr>,
     \<lparr>val_index = 1, val_weight = 1, public_key = k1\<rparr>,
     \<lparr>val_index = 2, val_weight = 1, public_key = k2\<rparr>]"
  shows "unat (total_weight s) = 3 \<and> unat (quorum_weight s) = 1 \<and>
    is_quorum s {0} \<and> is_quorum s {1} \<and> {0} \<inter> {1 :: u64} = {}"
proof -
  have "unat (total_weight s) = 3"
    by (simp add: assms total_weight_new weight_sum_def)
  moreover from this have "unat (quorum_weight s) = 1"
    by (simp add: unat_quorum_weight)
  moreover from this have "is_quorum s {0}" and "is_quorum s {1}"
    by (simp_all add: is_quorum_def voting_weight_insert assms weight_of_def vs_get_def)
  ultimately show ?thesis by simp
qed

section \<open>Leaders\<close>

lemma leader_position:
  assumes "validators s \<noteq> []" and "length (validators s) < 2 ^ 64"
    and "unat height + unat round < 2 ^ 64"
  shows "leader_for_round s height round =
    val_index (validators s ! ((unat height + unat round) mod length (validators s)))"
proof -
  have "unat (ucast round :: u64) = unat round"
    by (simp add: unsigned_ucast_eq take_bit_nat_eq_self_iff)
       (rule less_trans [OF unsigned_less], simp)
  then have "unat (sat_add height (ucast round :: u64)) = unat height + unat round"
    using assms(3) by (simp add: sat_simps)
  moreover have "unat (of_nat (length (validators s)) :: u64) = length (validators s)"
    using assms(2) by (simp add: unsigned_of_nat take_bit_nat_eq_self_iff)
  ultimately show ?thesis
    using assms(1) by (simp add: leader_for_round_def unat_mod_distrib Let_def)
qed

text \<open>Leaders rotate: over as many consecutive rounds of a height as there are validators,
  each validator leads exactly once, in the order of the list.\<close>

theorem leaders_rotate:
  assumes "validators s \<noteq> []" and "n = length (validators s)" and "n < 2 ^ 64"
    and "unat round + n \<le> 2 ^ 32" and "unat height + 2 ^ 32 \<le> 2 ^ 64"
  shows "map (\<lambda>k. leader_for_round s height (round + of_nat k)) [0..<n] =
    rotate ((unat height + unat round) mod n) (map val_index (validators s))"
proof (rule nth_equalityI)
  show "length (map (\<lambda>k. leader_for_round s height (round + of_nat k)) [0..<n]) =
      length (rotate ((unat height + unat round) mod n) (map val_index (validators s)))"
    using assms(2) by simp
  fix k
  assume "k < length (map (\<lambda>k. leader_for_round s height (round + of_nat k)) [0..<n])"
  then have k: "k < n" by simp
  then have "unat (of_nat k :: u32) = k" and sum: "unat round + k < 2 ^ 32"
    using assms(4) by (simp_all add: unsigned_of_nat take_bit_nat_eq_self_iff)
  then have r: "unat (round + of_nat k) = unat round + k"
    using unat_add_lem [of round "of_nat k"] by simp
  have "leader_for_round s height (round + of_nat k) =
      val_index (validators s ! ((unat height + (unat round + k)) mod n))"
    using leader_position [of s height "round + of_nat k"] assms r sum by simp
  also have "\<dots> = map val_index (validators s) ! ((unat height + (unat round + k)) mod n)"
    using assms(1,2) by simp
  also have "\<dots> = rotate ((unat height + unat round) mod n) (map val_index (validators s)) ! k"
    using k assms(2) by (simp add: nth_rotate ac_simps mod_simps)
  finally show "map (\<lambda>k. leader_for_round s height (round + of_nat k)) [0..<n] ! k =
      rotate ((unat height + unat round) mod n) (map val_index (validators s)) ! k"
    using k by simp
qed

section \<open>The theorems on small sets\<close>

definition equal_validators :: "nat \<Rightarrow> Validator list" where
  "equal_validators n = map (\<lambda>i. \<lparr>val_index = of_nat i, val_weight = 1, public_key = 0\<rparr>) [0..<n]"

lemma equal_validators_4:
  "equal_validators 4 =
     [\<lparr>val_index = 0, val_weight = 1, public_key = 0\<rparr>, \<lparr>val_index = 1, val_weight = 1, public_key = 0\<rparr>,
      \<lparr>val_index = 2, val_weight = 1, public_key = 0\<rparr>, \<lparr>val_index = 3, val_weight = 1, public_key = 0\<rparr>]"
  by (simp add: equal_validators_def upt_rec)

theorem quorum_intersection_witness:
  "unat (quorum_weight (ValidatorSet_new (equal_validators 4))) = 3 \<and>
   1 < voting_weight (ValidatorSet_new (equal_validators 4)) ({0, 1, 2} \<inter> {1, 2, 3})"
proof -
  let ?s = "ValidatorSet_new (equal_validators 4)"
  have w: "weight_of ?s i = 1" if "i \<in> {0, 1, 2, 3}" for i
    using that by (auto simp: weight_of_def vs_get_def ValidatorSet_new_def equal_validators_4)
  have sum: "weight_sum (equal_validators 4) = 3 * 1 + 1"
    by (simp add: weight_sum_def equal_validators_4)
  have q: "unat (quorum_weight ?s) = 3"
    by (simp add: unat_quorum_weight ValidatorSet_new_def equal_validators_4 sat_simps total_weight_def)
  have "is_quorum ?s {0, 1, 2}" and "is_quorum ?s {1, 2, 3}"
    unfolding is_quorum_def q voting_weight_def by (simp_all add: w)
  from quorum_intersection [OF refl sum _ this] show ?thesis using sum by simp
qed

theorem three_validators_disjoint_quorums_witness:
  "is_quorum (ValidatorSet_new
     [\<lparr>val_index = 0, val_weight = 1, public_key = 5\<rparr>, \<lparr>val_index = 1, val_weight = 1, public_key = 6\<rparr>,
      \<lparr>val_index = 2, val_weight = 1, public_key = 7\<rparr>]) {1}"
  using three_validators_disjoint_quorums [OF refl, of 5 6 7] by simp

theorem leaders_rotate_witness:
  "map (\<lambda>k. leader_for_round (ValidatorSet_new (equal_validators 4)) 5 (0 + of_nat k)) [0..<4] = [1, 2, 3, 0]"
proof -
  have "validators (ValidatorSet_new (equal_validators 4)) = equal_validators 4" by simp
  moreover have "equal_validators 4 \<noteq> []" "4 = length (equal_validators 4)"
    by (simp_all add: equal_validators_4)
  moreover have "(4 :: nat) < 2 ^ 64" "unat (0 :: u32) + 4 \<le> 2 ^ 32" "unat (5 :: u64) + 2 ^ 32 \<le> 2 ^ 64"
    by simp_all
  ultimately have "map (\<lambda>k. leader_for_round (ValidatorSet_new (equal_validators 4)) 5 (0 + of_nat k)) [0..<4] =
      rotate ((unat (5 :: u64) + unat (0 :: u32)) mod 4) (map val_index (equal_validators 4))"
    using leaders_rotate [of "ValidatorSet_new (equal_validators 4)" 4 0 5] by metis
  also have "(unat (5 :: u64) + unat (0 :: u32)) mod 4 = Suc 0" by simp
  also have "rotate (Suc 0) (map val_index (equal_validators 4)) = [1, 2, 3, 0]"
    by (simp add: equal_validators_4)
  finally show ?thesis .
qed

end
