(* ===== verification/Canonical.thy ===== *)
theory Canonical
  imports Prelude
begin

text \<open>
  The canonical Ethereum types of \<open>crates/eth2077-types/src/canonical.rs\<close>: header,
  transaction, block, receipt and log, with the two hash functions of the file.
  The keccak hash (\<open>alloy_primitives\<close>), the RLP encoding of a header (\<open>alloy_rlp\<close>'s
  derive) and the two bloom-filter operations (\<open>alloy_primitives\<close>) are not part of the
  repository: they are the fields of the parameter \<open>ext\<close>, and no law about them is
  assumed.
\<close>

type_synonym Bloom = "2048 word"

record Header =
  parent_hash :: B256
  ommers_hash :: B256
  beneficiary :: Address
  state_root :: B256
  transactions_root :: B256
  receipts_root :: B256
  logs_bloom :: Bloom
  difficulty :: U256
  number :: u64
  gas_limit :: u64
  gas_used :: u64
  timestamp :: u64
  extra_data :: bytes
  mix_hash :: B256
  header_nonce :: u64
  base_fee_per_gas :: "u64 option"
  blob_gas_used :: "u64 option"
  excess_blob_gas :: "u64 option"
  parent_beacon_block_root :: "B256 option"

record Transaction =
  tx_hash :: B256
  tx_nonce :: u64
  tx_from :: Address
  tx_to :: "Address option"
  tx_value :: U256
  tx_gas_limit :: u64
  max_fee_per_gas :: u64
  max_priority_fee_per_gas :: u64
  tx_input :: bytes
  tx_chain_id :: u64
  signature_r :: U256
  signature_s :: U256
  signature_v :: u64

record Block =
  header :: Header
  transactions :: "Transaction list"
  ommers :: "Header list"

record Log =
  log_address :: Address
  log_topics :: "B256 list"
  log_data :: bytes

record Receipt =
  receipt_tx_hash :: B256
  receipt_status :: bool
  cumulative_gas_used :: u64
  receipt_logs_bloom :: Bloom
  receipt_logs :: "Log list"

text \<open>The functions of \<open>alloy_primitives\<close> and \<open>alloy_rlp\<close> the crates call.\<close>

record ext =
  keccak256 :: "bytes \<Rightarrow> B256"
  rlp_encode_header :: "Header \<Rightarrow> bytes"
  accrue_bloom :: "Bloom \<Rightarrow> Bloom \<Rightarrow> Bloom"
  alloy_logs_bloom :: "Log list \<Rightarrow> Bloom"

definition header_hash :: "ext \<Rightarrow> Header \<Rightarrow> B256" where
  "header_hash x h = keccak256 x (rlp_encode_header x h)"

definition block_hash :: "ext \<Rightarrow> Block \<Rightarrow> B256" where
  "block_hash x b = header_hash x (header b)"

definition block_number :: "Block \<Rightarrow> u64" where
  "block_number b = number (header b)"

section \<open>Sample values\<close>

text \<open>A block and hash functions on which the theorems are applied to concrete inputs.\<close>

definition sample_header :: "u64 \<Rightarrow> Header" where
  "sample_header n =
     \<lparr>parent_hash = 0, ommers_hash = 0, beneficiary = 0, state_root = 0, transactions_root = 0,
      receipts_root = 0, logs_bloom = 0, difficulty = 0, number = n, gas_limit = 30000000,
      gas_used = 0, timestamp = 0, extra_data = [], mix_hash = 0, header_nonce = 0,
      base_fee_per_gas = Some 7, blob_gas_used = None, excess_blob_gas = None,
      parent_beacon_block_root = None\<rparr>"

definition sample_block :: "u64 \<Rightarrow> Block" where
  "sample_block n = \<lparr>header = sample_header n, transactions = [], ommers = []\<rparr>"

definition sample_ext :: ext where
  "sample_ext = \<lparr>keccak256 = \<lambda>bs. of_nat (of_be bs), rlp_encode_header = \<lambda>h. be_bytes (number h),
     accrue_bloom = (\<lambda>a b. or a b), alloy_logs_bloom = (\<lambda>_. 0)\<rparr>"

lemma block_number_sample [simp]: "block_number (sample_block n) = n"
  by (simp add: block_number_def sample_block_def sample_header_def)

end
