(* ===== verification/Oob.thy ===== *)
theory Oob
  imports Canonical
begin

text \<open>
  The out-of-band finality interface of \<open>crates/eth2077-oob-consensus/src\<close>: its data
  (\<open>types.rs\<close>), the in-memory backend and verifier of \<open>mock.rs\<close> and the mock execution
  bridge of \<open>consensus_execution.rs\<close>.  The backend's lock is a flag that says whether it is
  poisoned, the one way in which taking it can fail.
\<close>

record CommitmentEnvelope =
  ce_block_hash :: B256
  ce_block_number :: u64
  ce_state_root :: B256
  ce_timestamp :: u64
  ce_signature :: bytes
  ce_proposer_index :: u64

record FinalityProof =
  commitment :: CommitmentEnvelope
  proof_data :: bytes
  finalized_at :: u64

datatype OobError =
    NetworkError
  | InvalidCommitment
  | VerificationFailed
  | OobTimeout
  | BackendUnavailable

datatype FinalityStatus =
    Pending
  | Finalized FinalityProof
  | Failed OobError

record MockState =
  commitments :: "CommitmentEnvelope list"
  finalized_block_hashes :: "B256 set"
  poll_counts :: "(B256, nat) hashmap"
  finality_delay :: nat
  latest_finalized :: "FinalityProof option"

record MockOobBackend =
  mock_state :: MockState
  poisoned :: bool

definition MockOobBackend_new :: "nat \<Rightarrow> MockOobBackend" where
  "MockOobBackend_new delay =
     \<lparr>mock_state = \<lparr>commitments = [], finalized_block_hashes = {}, poll_counts = [],
        finality_delay = delay, latest_finalized = None\<rparr>,
      poisoned = False\<rparr>"

definition submit_commitment ::
    "MockOobBackend \<Rightarrow> CommitmentEnvelope \<Rightarrow> (OobError + unit) \<times> MockOobBackend" where
  "submit_commitment b c =
     (if poisoned b then (Inl BackendUnavailable, b)
      else (Inr (), b\<lparr>mock_state := (mock_state b)\<lparr>commitments := commitments (mock_state b) @ [c]\<rparr>\<rparr>))"

definition poll_finality :: "MockOobBackend \<Rightarrow> B256 \<Rightarrow> (OobError + FinalityStatus) \<times> MockOobBackend" where
  "poll_finality b h =
     (if poisoned b then (Inl BackendUnavailable, b)
      else let st = mock_state b in
        case find (\<lambda>c. ce_block_hash c = h) (rev (commitments st)) of
          None \<Rightarrow> (Inl InvalidCommitment, b)
        | Some c \<Rightarrow>
            let n = (case map_of (poll_counts st) h of Some n \<Rightarrow> n | None \<Rightarrow> 0) + 1;
                st1 = st\<lparr>poll_counts := hm_insert h n (poll_counts st)\<rparr>
            in if n < finality_delay st then (Inr Pending, b\<lparr>mock_state := st1\<rparr>)
               else
                 let proof = \<lparr>commitment = c, proof_data = [0x4D, 0x4F, 0x43, 0x4B],
                       finalized_at = of_nat (finality_delay st)\<rparr>
                 in (Inr (Finalized proof),
                     b\<lparr>mock_state := st1\<lparr>finalized_block_hashes := insert h (finalized_block_hashes st1),
                         latest_finalized := Some proof\<rparr>\<rparr>))"

definition get_latest_finalized :: "MockOobBackend \<Rightarrow> OobError + FinalityProof option" where
  "get_latest_finalized b =
     (if poisoned b then Inl BackendUnavailable else Inr (latest_finalized (mock_state b)))"

definition verify_commitment :: "CommitmentEnvelope \<Rightarrow> OobError + unit" where
  "verify_commitment c =
     (if list_all (\<lambda>b. b = 0) (ce_signature c) then Inl VerificationFailed else Inr ())"

text \<open>The mock execution bridge answers with a fixed block and checks nothing.\<close>

record MockConsensusExecutionBridge =
  proposed_block :: "Block option"

definition propose_block :: "MockConsensusExecutionBridge \<Rightarrow> Header \<Rightarrow> u64 \<Rightarrow> string + Block" where
  "propose_block m parent height =
     (case proposed_block m of
        Some b \<Rightarrow> Inr b | None \<Rightarrow> Inl ''mock propose_block: no block configured'')"

definition validate_proposed_block ::
    "ext \<Rightarrow> MockConsensusExecutionBridge \<Rightarrow> Block \<Rightarrow> bytes \<Rightarrow> string + B256" where
  "validate_proposed_block e m block hint = Inr (block_hash e block)"

definition finalize_block :: "MockConsensusExecutionBridge \<Rightarrow> B256 \<Rightarrow> u64 \<Rightarrow> string + unit" where
  "finalize_block m h height = Inr ()"

section \<open>Finality after the configured number of polls\<close>

fun poll_times :: "nat \<Rightarrow> MockOobBackend \<Rightarrow> B256 \<Rightarrow> MockOobBackend" where
  "poll_times 0 b h = b"
| "poll_times (Suc n) b h = snd (poll_finality (poll_times n b h) h)"

lemma poll_times_counts:
  assumes "\<not> poisoned b" and "find (\<lambda>c. ce_block_hash c = h) (rev (commitments (mock_state b))) = Some c"
    and "map_of (poll_counts (mock_state b)) h = None"
  shows "\<not> poisoned (poll_times n b h) \<and>
    commitments (mock_state (poll_times n b h)) = commitments (mock_state b) \<and>
    finality_delay (mock_state (poll_times n b h)) = finality_delay (mock_state b) \<and>
    (case map_of (poll_counts (mock_state (poll_times n b h))) h of Some k \<Rightarrow> k | None \<Rightarrow> 0) = n"
proof (induction n)
  case 0
  then show ?case using assms by simp
next
  case (Suc n)
  then show ?case
    using assms(2) by (simp add: poll_finality_def Let_def split: option.splits)
qed

text \<open>A committed block that has not been polled before is reported pending for the first
  \<open>finality_delay - 1\<close> polls and final from then on, with the commitment that was submitted
  last for its hash; a block that was never committed is refused, and polling it changes
  nothing.\<close>

theorem mock_finality_delay:
  assumes "\<not> poisoned b" and "map_of (poll_counts (mock_state b)) h = None"
  shows "case find (\<lambda>c. ce_block_hash c = h) (rev (commitments (mock_state b))) of
      None \<Rightarrow> poll_finality b h = (Inl InvalidCommitment, b)
    | Some c \<Rightarrow> fst (poll_finality (poll_times n b h) h) =
        Inr (if n + 1 < finality_delay (mock_state b) then Pending
             else Finalized \<lparr>commitment = c, proof_data = [0x4D, 0x4F, 0x43, 0x4B],
               finalized_at = of_nat (finality_delay (mock_state b))\<rparr>)"
proof (cases "find (\<lambda>c. ce_block_hash c = h) (rev (commitments (mock_state b)))")
  case None
  with assms show ?thesis by (simp add: poll_finality_def Let_def)
next
  case (Some c)
  from poll_times_counts [OF assms(1) Some assms(2), of n] Some show ?thesis
    by (auto simp: poll_finality_def Let_def)
qed

theorem mock_finality_delay_witness:
  "fst (poll_finality (poll_times 1
      (snd (submit_commitment (MockOobBackend_new 2)
         \<lparr>ce_block_hash = 7, ce_block_number = 1, ce_state_root = 0, ce_timestamp = 0,
          ce_signature = [1], ce_proposer_index = 0\<rparr>)) 7) 7) =
   Inr (Finalized \<lparr>commitment = \<lparr>ce_block_hash = 7, ce_block_number = 1, ce_state_root = 0,
      ce_timestamp = 0, ce_signature = [1], ce_proposer_index = 0\<rparr>,
      proof_data = [0x4D, 0x4F, 0x43, 0x4B], finalized_at = 2\<rparr>)"
  using mock_finality_delay [of "snd (submit_commitment (MockOobBackend_new 2)
         \<lparr>ce_block_hash = 7, ce_block_number = 1, ce_state_root = 0, ce_timestamp = 0,
          ce_signature = [1], ce_proposer_index = 0\<rparr>)" 7 1]
  by (simp add: submit_commitment_def MockOobBackend_new_def)

end
