(* ===== verification/Fast_Path.thy ===== *)
theory Fast_Path
  imports Oob
begin

text \<open>
  The optimistic finality accumulator of \<open>crates/eth2077-oob-consensus/src/fast_path.rs\<close>,
  which counts attestations of one round and reports finality, a fallback to the slow
  path, a timeout or a conflict.
\<close>

record FastPathConfig =
  quorum_threshold :: nat
  timeout_ms :: u64
  optimistic_threshold :: nat

record FastPathAttestation =
  att_block_hash :: B256
  attester_index :: u64
  att_signature :: bytes
  received_at_ms :: u64

datatype FastPathOutcome =
    FastFinalized FinalityProof
  | SlowPath
  | Timeout
  | ConflictDetected

record FastPathAccumulator =
  fp_config :: FastPathConfig
  attestations :: "FastPathAttestation list"
  round_block_hash :: "B256 option"
  round_start_ms :: "u64 option"
  conflict_detected :: bool

definition FastPathAccumulator_new :: "FastPathConfig \<Rightarrow> FastPathAccumulator" where
  "FastPathAccumulator_new config =
     \<lparr>fp_config = config, attestations = [], round_block_hash = None, round_start_ms = None,
      conflict_detected = False\<rparr>"

definition agreement_count :: "FastPathAccumulator \<Rightarrow> nat" where
  "agreement_count acc =
     (case round_block_hash acc of
        None \<Rightarrow> 0
      | Some h \<Rightarrow> length (filter (\<lambda>a. att_block_hash a = h) (attestations acc)))"

definition has_quorum :: "FastPathAccumulator \<Rightarrow> bool" where
  "has_quorum acc \<longleftrightarrow>
     \<not> conflict_detected acc \<and> quorum_threshold (fp_config acc) \<le> agreement_count acc"

definition is_timed_out :: "FastPathAccumulator \<Rightarrow> u64 \<Rightarrow> bool" where
  "is_timed_out acc now =
     (case round_start_ms acc of
        Some start \<Rightarrow> timeout_ms (fp_config acc) < sat_sub now start | None \<Rightarrow> False)"

definition first_signature :: "FastPathAttestation list \<Rightarrow> bytes" where
  "first_signature as = foldl (\<lambda>sig a. if sig = [] then att_signature a else sig) [] as"

definition build_fast_proof :: "FastPathAccumulator \<Rightarrow> B256 \<Rightarrow> u64 \<Rightarrow> FinalityProof" where
  "build_fast_proof acc h at =
     (let matching = filter (\<lambda>a. att_block_hash a = h) (attestations acc) in
      \<lparr>commitment = \<lparr>ce_block_hash = h, ce_block_number = 0, ce_state_root = 0, ce_timestamp = at,
         ce_signature = first_signature matching, ce_proposer_index = 0\<rparr>,
       proof_data = concat (map (\<lambda>a. le_bytes (attester_index a)) matching),
       finalized_at = at\<rparr>)"

text \<open>\<open>*existing = attestation.clone()\<close> on the first entry of the attester.\<close>

fun replace_attestation ::
    "FastPathAttestation \<Rightarrow> FastPathAttestation list \<Rightarrow> FastPathAttestation list" where
  "replace_attestation a [] = []"
| "replace_attestation a (b # bs) =
     (if attester_index b = attester_index a then a # bs else b # replace_attestation a bs)"

text \<open>The end of \<open>add_attestation\<close>, once the attestation is recorded.\<close>

definition fp_conclude ::
    "FastPathAttestation \<Rightarrow> FastPathAccumulator \<Rightarrow> FastPathOutcome option \<times> FastPathAccumulator" where
  "fp_conclude a acc =
     (if 0 < optimistic_threshold (fp_config acc) \<and>
         optimistic_threshold (fp_config acc) \<le> agreement_count acc then
        let h = (case round_block_hash acc of Some h \<Rightarrow> h | None \<Rightarrow> att_block_hash a)
        in (Some (FastFinalized (build_fast_proof acc h (received_at_ms a))), acc)
      else if has_quorum acc then (Some SlowPath, acc)
      else (None, acc))"

definition add_attestation ::
    "FastPathAccumulator \<Rightarrow> FastPathAttestation \<Rightarrow> FastPathOutcome option \<times> FastPathAccumulator" where
  "add_attestation acc0 a =
     (if conflict_detected acc0 then (Some ConflictDetected, acc0)
      else
        let acc = (if round_start_ms acc0 = None
                   then acc0\<lparr>round_start_ms := Some (received_at_ms a)\<rparr> else acc0);
            conflicting = acc\<lparr>conflict_detected := True, attestations := attestations acc @ [a]\<rparr>
        in if is_timed_out acc (received_at_ms a) then (Some Timeout, acc)
           else
             case find (\<lambda>b. attester_index b = attester_index a) (attestations acc) of
               Some existing \<Rightarrow>
                 if att_block_hash existing \<noteq> att_block_hash a
                 then (Some ConflictDetected, conflicting)
                 else fp_conclude a (acc\<lparr>attestations := replace_attestation a (attestations acc)\<rparr>)
             | None \<Rightarrow>
                 (case round_block_hash acc of
                    Some h \<Rightarrow>
                      if h \<noteq> att_block_hash a then (Some ConflictDetected, conflicting)
                      else fp_conclude a (acc\<lparr>attestations := attestations acc @ [a]\<rparr>)
                  | None \<Rightarrow>
                      fp_conclude a (acc\<lparr>round_block_hash := Some (att_block_hash a),
                                  attestations := attestations acc @ [a]\<rparr>)))"

definition has_conflict :: "FastPathAccumulator \<Rightarrow> bool" where
  "has_conflict acc = conflict_detected acc"

definition attestation_count :: "FastPathAccumulator \<Rightarrow> nat" where
  "attestation_count acc = length (attestations acc)"

definition fp_reset :: "FastPathAccumulator \<Rightarrow> FastPathAccumulator" where
  "fp_reset acc =
     acc\<lparr>attestations := [], round_block_hash := None, round_start_ms := None,
         conflict_detected := False\<rparr>"

section \<open>The accumulator's invariant\<close>

text \<open>
  Until a conflict is seen, all recorded attestations are for the hash of the round and
  come from different attesters.
\<close>

definition attesters :: "FastPathAccumulator \<Rightarrow> u64 set" where
  "attesters acc = attester_index ` set (attestations acc)"

definition fp_inv :: "FastPathAccumulator \<Rightarrow> bool" where
  "fp_inv acc \<longleftrightarrow>
     \<not> conflict_detected acc \<longrightarrow>
       (\<forall>a \<in> set (attestations acc). round_block_hash acc = Some (att_block_hash a)) \<and>
       (round_block_hash acc = None \<longleftrightarrow> attestations acc = []) \<and>
       distinct (map attester_index (attestations acc))"

lemma fp_inv_new [simp]: "fp_inv (FastPathAccumulator_new config)"
  by (simp add: fp_inv_def FastPathAccumulator_new_def)

lemma fp_inv_reset [simp]: "fp_inv (fp_reset acc)"
  by (simp add: fp_inv_def fp_reset_def)

lemma replace_attestation_split:
  assumes "find (\<lambda>b. attester_index b = attester_index a) as = Some b"
  obtains us vs where "as = us @ b # vs" and "replace_attestation a as = us @ a # vs"
    and "attester_index b = attester_index a"
  using assms
proof (induction as arbitrary: thesis)
  case (Cons c as)
  show ?case
  proof (cases "attester_index c = attester_index a")
    case True
    with Cons.prems(2) show ?thesis by (auto intro: Cons.prems(1) [of "[]"])
  next
    case False
    with Cons.prems(2) obtain us vs where "as = us @ b # vs" "replace_attestation a as = us @ a # vs"
      "attester_index b = attester_index a"
      using Cons.IH by auto
    with False show ?thesis by (intro Cons.prems(1) [of "c # us"]) simp_all
  qed
qed simp

lemma agreement_all:
  assumes "fp_inv acc" and "\<not> conflict_detected acc"
  shows "agreement_count acc = card (attesters acc)"
proof -
  have "distinct (map attester_index (attestations acc))"
    using assms by (simp add: fp_inv_def)
  then have "card (attesters acc) = length (attestations acc)"
    unfolding attesters_def using distinct_card by fastforce
  moreover have "agreement_count acc = length (attestations acc)"
    using assms by (auto simp: agreement_count_def fp_inv_def split: option.splits intro!: arg_cong [of _ _ length] filter_True)
  ultimately show ?thesis by simp
qed

text \<open>What recording an attestation for the round's hash leaves.\<close>

definition recorded :: "FastPathAccumulator \<Rightarrow> FastPathAttestation \<Rightarrow> FastPathAccumulator" where
  "recorded acc a =
     acc\<lparr>round_start_ms := Some (case round_start_ms acc of Some t \<Rightarrow> t | None \<Rightarrow> received_at_ms a),
         round_block_hash := Some (att_block_hash a),
         attestations :=
           (if attester_index a \<in> attesters acc then replace_attestation a (attestations acc)
            else attestations acc @ [a])\<rparr>"

lemma recorded_inv:
  assumes "fp_inv acc" and "\<not> conflict_detected acc"
    and "round_block_hash acc \<in> {None, Some (att_block_hash a)}"
  shows "fp_inv (recorded acc a)" and "attesters (recorded acc a) = insert (attester_index a) (attesters acc)"
proof -
  have inv: "\<forall>b \<in> set (attestations acc). round_block_hash acc = Some (att_block_hash b)"
    "distinct (map attester_index (attestations acc))"
    using assms by (simp_all add: fp_inv_def)
  have "fp_inv (recorded acc a) \<and> attesters (recorded acc a) = insert (attester_index a) (attesters acc)"
  proof (cases "find (\<lambda>b. attester_index b = attester_index a) (attestations acc)")
    case None
    then have "attester_index a \<notin> attesters acc"
      by (auto simp: attesters_def find_None_iff)
    with inv assms show ?thesis
      by (auto simp: recorded_def fp_inv_def attesters_def)
  next
    case (Some b)
    then obtain us vs where b: "attestations acc = us @ b # vs"
      "replace_attestation a (attestations acc) = us @ a # vs" "attester_index b = attester_index a"
      by (rule replace_attestation_split)
    then have "attester_index a \<in> attesters acc" by (simp add: attesters_def)
    with inv assms b show ?thesis
      by (auto simp: recorded_def fp_inv_def attesters_def)
  qed
  then show "fp_inv (recorded acc a)"
    and "attesters (recorded acc a) = insert (attester_index a) (attesters acc)" by auto
qed

lemma agreement_recorded:
  assumes "fp_inv acc" and "\<not> conflict_detected acc"
    and "round_block_hash acc \<in> {None, Some (att_block_hash a)}"
  shows "agreement_count (recorded acc a) = card (insert (attester_index a) (attesters acc))"
  using agreement_all [OF recorded_inv(1) [OF assms]] recorded_inv(2) [OF assms] assms(2)
  by (simp add: recorded_def)

definition round_start :: "FastPathAccumulator \<Rightarrow> FastPathAttestation \<Rightarrow> u64" where
  "round_start acc a = (case round_start_ms acc of Some t \<Rightarrow> t | None \<Rightarrow> received_at_ms a)"

text \<open>The verdict on an attestation that agrees with the round, by the number of attesters.\<close>

definition verdict :: "FastPathConfig \<Rightarrow> nat \<Rightarrow> FinalityProof \<Rightarrow> FastPathOutcome option" where
  "verdict config n proof =
     (if 0 < optimistic_threshold config \<and> optimistic_threshold config \<le> n then
        Some (FastFinalized proof)
      else if quorum_threshold config \<le> n then Some SlowPath else None)"

lemma existing_hash:
  assumes "fp_inv acc" and "\<not> conflict_detected acc"
    and "find (\<lambda>b. attester_index b = i) (attestations acc) = Some b"
  shows "round_block_hash acc = Some (att_block_hash b)"
  using assms by (auto simp: fp_inv_def find_Some_iff)

lemma fp_conclude_recorded:
  assumes "fp_inv acc" and "\<not> conflict_detected acc"
    and "round_block_hash acc \<in> {None, Some (att_block_hash a)}"
  shows "fp_conclude a (recorded acc a) =
    (verdict (fp_config acc) (card (insert (attester_index a) (attesters acc)))
       (build_fast_proof (recorded acc a) (att_block_hash a) (received_at_ms a)), recorded acc a)"
  using agreement_recorded [OF assms] assms(2)
  by (simp add: fp_conclude_def verdict_def has_quorum_def) (simp add: recorded_def)

lemma find_attester:
  "find (\<lambda>b. attester_index b = i) (attestations acc) = None \<longleftrightarrow> i \<notin> attesters acc"
  by (auto simp: attesters_def find_None_iff image_iff)

lemma add_attestation_agree:
  assumes "fp_inv acc" and "\<not> conflict_detected acc"
    and "\<not> timeout_ms (fp_config acc) < sat_sub (received_at_ms a) (round_start acc a)"
    and agree: "round_block_hash acc \<in> {None, Some (att_block_hash a)}"
  shows "add_attestation acc a = fp_conclude a (recorded acc a)"
proof -
  define acc1 where
    "acc1 = (if round_start_ms acc = None then acc\<lparr>round_start_ms := Some (received_at_ms a)\<rparr> else acc)"
  have time: "\<not> is_timed_out acc1 (received_at_ms a)"
    using assms(3) by (auto simp: is_timed_out_def acc1_def round_start_def)
  have same: "attestations acc1 = attestations acc" "round_block_hash acc1 = round_block_hash acc"
    by (simp_all add: acc1_def)
  have rec: "recorded acc a = acc1\<lparr>round_block_hash := Some (att_block_hash a),
      attestations := (if attester_index a \<in> attesters acc then replace_attestation a (attestations acc)
            else attestations acc @ [a])\<rparr>"
    by (auto simp: recorded_def acc1_def)
  show ?thesis
  proof (cases "find (\<lambda>b. attester_index b = attester_index a) (attestations acc)")
    case None
    then have new: "attester_index a \<notin> attesters acc" by (simp add: find_attester)
    have "acc1\<lparr>attestations := as\<rparr> = acc1\<lparr>round_block_hash := Some (att_block_hash a), attestations := as\<rparr>"
      if "round_block_hash acc = Some (att_block_hash a)" for as
      using that same(2) by simp
    with None new agree time assms(2) show ?thesis
      unfolding add_attestation_def Let_def acc1_def [symmetric] same rec by auto
  next
    case (Some b)
    then have old: "attester_index a \<in> attesters acc" by (metis find_attester option.distinct(1))
    have rh: "round_block_hash acc = Some (att_block_hash b)"
      by (rule existing_hash [OF assms(1,2) Some])
    have "acc1\<lparr>attestations := as\<rparr> = acc1\<lparr>round_block_hash := Some (att_block_hash b), attestations := as\<rparr>" for as
      using rh same(2) by simp
    with Some old rh agree time assms(2) show ?thesis
      unfolding add_attestation_def Let_def acc1_def [symmetric] same rec by auto
  qed
qed

lemma add_attestation_disagree:
  assumes "fp_inv acc" and "\<not> conflict_detected acc"
    and "\<not> timeout_ms (fp_config acc) < sat_sub (received_at_ms a) (round_start acc a)"
    and "round_block_hash acc \<notin> {None, Some (att_block_hash a)}"
  shows "add_attestation acc a =
    (Some ConflictDetected, acc\<lparr>round_start_ms := Some (round_start acc a), conflict_detected := True,
       attestations := attestations acc @ [a]\<rparr>)"
proof -
  have "att_block_hash b \<noteq> att_block_hash a"
    if "find (\<lambda>b. attester_index b = attester_index a) (attestations acc) = Some b" for b
    using existing_hash [OF assms(1,2) that] assms(4) by auto
  with assms(2-4) show ?thesis
    by (auto simp: add_attestation_def Let_def is_timed_out_def round_start_def split: option.splits)
qed

lemma add_attestation_cases:
  assumes "fp_inv acc"
  shows "add_attestation acc a =
    (if conflict_detected acc then (Some ConflictDetected, acc)
     else if timeout_ms (fp_config acc) < sat_sub (received_at_ms a) (round_start acc a) then
       (Some Timeout, acc\<lparr>round_start_ms := Some (round_start acc a)\<rparr>)
     else if round_block_hash acc \<notin> {None, Some (att_block_hash a)} then
       (Some ConflictDetected, acc\<lparr>round_start_ms := Some (round_start acc a),
          conflict_detected := True, attestations := attestations acc @ [a]\<rparr>)
     else
       (verdict (fp_config acc) (card (insert (attester_index a) (attesters acc)))
          (build_fast_proof (recorded acc a) (att_block_hash a) (received_at_ms a)), recorded acc a))"
proof -
  consider "conflict_detected acc"
    | "\<not> conflict_detected acc" "timeout_ms (fp_config acc) < sat_sub (received_at_ms a) (round_start acc a)"
    | "\<not> conflict_detected acc" "\<not> timeout_ms (fp_config acc) < sat_sub (received_at_ms a) (round_start acc a)"
    by blast
  then show ?thesis
  proof cases
    case 1
    then show ?thesis by (simp add: add_attestation_def)
  next
    case 2
    then show ?thesis
      by (auto simp: add_attestation_def Let_def is_timed_out_def round_start_def split: option.splits)
  next
    case 3
    then show ?thesis
      using add_attestation_agree [OF assms 3] fp_conclude_recorded [OF assms 3(1)]
        add_attestation_disagree [OF assms 3] by auto
  qed
qed

text \<open>What \<open>add_attestation\<close> answers, on every branch.  A conflict is permanent; a late
  attestation only fixes the start of the round; one for another hash than the round's
  raises the conflict; any other is recorded, once per attester, and the answer depends on
  the number of distinct attesters: finality at the optimistic threshold (never if that is
  zero), else the slow path at the quorum, else nothing.\<close>

theorem add_attestation_outcome:
  assumes "fp_inv acc"
  shows "add_attestation acc a =
    (if conflict_detected acc then (Some ConflictDetected, acc)
     else if timeout_ms (fp_config acc) < sat_sub (received_at_ms a) (round_start acc a) then
       (Some Timeout, acc\<lparr>round_start_ms := Some (round_start acc a)\<rparr>)
     else if round_block_hash acc \<notin> {None, Some (att_block_hash a)} then
       (Some ConflictDetected, acc\<lparr>round_start_ms := Some (round_start acc a),
          conflict_detected := True, attestations := attestations acc @ [a]\<rparr>)
     else
       (verdict (fp_config acc) (card (insert (attester_index a) (attesters acc)))
          (build_fast_proof (recorded acc a) (att_block_hash a) (received_at_ms a)), recorded acc a))"
  using assms by (rule add_attestation_cases)

lemma fp_inv_add:
  assumes "fp_inv acc"
  shows "fp_inv (snd (add_attestation acc a))"
  using recorded_inv(1) [OF assms, of a] assms
  unfolding add_attestation_cases [OF assms] by (auto simp: fp_inv_def)

lemma fp_config_add [simp]: "fp_config (snd (add_attestation acc a)) = fp_config acc"
  by (auto simp: add_attestation_def Let_def fp_conclude_def split: option.splits)

lemma fp_config_reset [simp]: "fp_config (fp_reset acc) = fp_config acc"
  by (simp add: fp_reset_def)

lemma fast_path_off:
  "optimistic_threshold (fp_config acc) = 0 \<Longrightarrow> fst (add_attestation acc a) \<noteq> Some (FastFinalized p)"
  by (auto simp: add_attestation_def Let_def fp_conclude_def split: option.splits)

inductive fp_reachable :: "FastPathConfig \<Rightarrow> FastPathAccumulator \<Rightarrow> bool" for config :: FastPathConfig where
  start: "fp_reachable config (FastPathAccumulator_new config)"
| add: "fp_reachable config acc \<Longrightarrow> fp_reachable config (snd (add_attestation acc a))"
| reset: "fp_reachable config acc \<Longrightarrow> fp_reachable config (fp_reset acc)"

lemma fp_reachable_inv: "fp_reachable config acc \<Longrightarrow> fp_inv acc \<and> fp_config acc = config"
  by (induction rule: fp_reachable.induct) (auto simp: fp_inv_add FastPathAccumulator_new_def [THEN arg_cong [of _ _ fp_config]])

text \<open>C20.  A fast finality proof is sound: it is issued only while no conflict has been seen, by
  at least \<open>optimistic_threshold\<close> distinct attesters, every one of whom attested the hash in
  the proof, and the proof's data are the little-endian indexes of exactly those attesters.\<close>

theorem fast_finalized_sound:
  assumes "fp_reachable config acc" and "add_attestation acc a = (Some (FastFinalized proof), acc')"
  shows "\<exists>ids. distinct ids \<and> 0 < optimistic_threshold config \<and> optimistic_threshold config \<le> length ids \<and>
    set ids = attesters acc' \<and> proof_data proof = concat (map le_bytes ids) \<and>
    ce_block_hash (commitment proof) = att_block_hash a \<and> \<not> conflict_detected acc' \<and>
    (\<forall>b \<in> set (attestations acc'). att_block_hash b = ce_block_hash (commitment proof))"
proof -
  have inv: "fp_inv acc" and config: "fp_config acc = config"
    using fp_reachable_inv [OF assms(1)] by auto
  have nc: "\<not> conflict_detected acc" and agree: "round_block_hash acc \<in> {None, Some (att_block_hash a)}"
    and acc': "acc' = recorded acc a"
    and pf: "proof = build_fast_proof acc' (att_block_hash a) (received_at_ms a)"
    and enough: "0 < optimistic_threshold config"
      "optimistic_threshold config \<le> card (insert (attester_index a) (attesters acc))"
    using assms(2) unfolding add_attestation_cases [OF inv] config
    by (auto simp: verdict_def split: if_splits)
  have inv': "fp_inv acc'" and ids: "attesters acc' = insert (attester_index a) (attesters acc)"
    using recorded_inv [OF inv nc agree] acc' by auto
  have nc': "\<not> conflict_detected acc'" and "round_block_hash acc' = Some (att_block_hash a)"
    using nc by (simp_all add: acc' recorded_def)
  with inv' have all: "\<forall>b \<in> set (attestations acc'). att_block_hash b = att_block_hash a"
    and dist: "distinct (map attester_index (attestations acc'))"
    by (auto simp: fp_inv_def)
  have "filter (\<lambda>b. att_block_hash b = att_block_hash a) (attestations acc') = attestations acc'"
    using all by simp
  then have data: "proof_data proof = concat (map le_bytes (map attester_index (attestations acc')))"
    and "ce_block_hash (commitment proof) = att_block_hash a"
    by (simp_all add: pf build_fast_proof_def Let_def comp_def)
  moreover have "card (attesters acc') = length (map attester_index (attestations acc'))"
    using distinct_card [OF dist] by (simp add: attesters_def)
  ultimately show ?thesis
    using dist enough nc' all ids
    by (intro exI [of _ "map attester_index (attestations acc')"]) (simp add: attesters_def)
qed

section \<open>The theorems on one attestation\<close>

definition sample_attestation :: FastPathAttestation where
  "sample_attestation =
     \<lparr>att_block_hash = 7, attester_index = 3, att_signature = [1], received_at_ms = 1000\<rparr>"

definition sample_fp_config :: FastPathConfig where
  "sample_fp_config = \<lparr>quorum_threshold = 1, timeout_ms = 5000, optimistic_threshold = 1\<rparr>"

lemma sample_fast_finality:
  "\<exists>pf acc'. add_attestation (FastPathAccumulator_new sample_fp_config) sample_attestation =
     (Some (FastFinalized pf), acc')"
  by (simp add: add_attestation_def FastPathAccumulator_new_def sample_fp_config_def is_timed_out_def
      fp_conclude_def agreement_count_def sat_sub_def Let_def)

theorem add_attestation_outcome_witness:
  "snd (add_attestation (FastPathAccumulator_new sample_fp_config) sample_attestation) =
     recorded (FastPathAccumulator_new sample_fp_config) sample_attestation"
  using add_attestation_outcome [of "FastPathAccumulator_new sample_fp_config" sample_attestation]
  by (simp add: FastPathAccumulator_new_def [of sample_fp_config, THEN arg_cong [of _ _ conflict_detected]]
      FastPathAccumulator_new_def [of sample_fp_config, THEN arg_cong [of _ _ round_block_hash]]
      FastPathAccumulator_new_def [of sample_fp_config, THEN arg_cong [of _ _ round_start_ms]]
      round_start_def sat_sub_def)

theorem fast_finalized_sound_witness:
  "\<exists>pf acc'. add_attestation (FastPathAccumulator_new sample_fp_config) sample_attestation =
       (Some (FastFinalized pf), acc') \<and>
     ce_block_hash (commitment pf) = 7"
proof -
  obtain pf acc' where a: "add_attestation (FastPathAccumulator_new sample_fp_config) sample_attestation =
      (Some (FastFinalized pf), acc')"
    using sample_fast_finality by blast
  from fast_finalized_sound [OF fp_reachable.start a] a show ?thesis
    by (auto simp: sample_attestation_def)
qed

end
