(* ===== verification/Consensus_Engine.thy ===== *)
theory Consensus_Engine
  imports Validator_Set Fast_Path
begin

text \<open>
  The round-based voting engine of \<open>crates/eth2077-oob-consensus/src/consensus.rs\<close>.  Each
  handler returns the events for its driver and the new engine.  The iteration orders of
  the vote tables and of the tally, which \<open>quorum_hash\<close> can observe when two hashes pass
  the threshold, are a parameter of the handlers that use them.
\<close>

datatype Step = Propose | PrevoteStep | PrecommitStep | Committed

datatype ConsensusMessage =
    Proposal (msg_height: u64) (msg_round: u32) (msg_hash: B256) (msg_proposer: u64)
  | Prevote (msg_height: u64) (msg_round: u32) (msg_vote: "B256 option") (msg_voter: u64)
  | Precommit (msg_height: u64) (msg_round: u32) (msg_vote: "B256 option") (msg_voter: u64)

datatype ConsensusEvent =
    BlockFinalized u64 B256 u32
  | RoundTimeout u64 u32
  | NeedProposal u64 u32 u64
  | SendPrevote u64 u32 "B256 option"
  | SendPrecommit u64 u32 "B256 option"

type_synonym vote_table = "(u32 \<times> u64, B256 option) hashmap"

record RoundState =
  rs_height :: u64
  rs_round :: u32
  rs_step :: Step
  proposals :: "(u32, B256) hashmap"
  prevotes :: vote_table
  precommits :: vote_table
  locked_round :: "u32 option"
  locked_hash :: "B256 option"

record hash_orders =
  ord_votes :: "((u32 \<times> u64) \<times> B256 option) list \<Rightarrow> ((u32 \<times> u64) \<times> B256 option) list"
  ord_tally :: "(B256 \<times> u64) list \<Rightarrow> (B256 \<times> u64) list"

definition orders_ok :: "hash_orders \<Rightarrow> bool" where
  "orders_ok ho \<longleftrightarrow> hash_order (ord_votes ho) \<and> hash_order (ord_tally ho)"

definition RoundState_new :: RoundState where
  "RoundState_new =
     \<lparr>rs_height = 0, rs_round = 0, rs_step = Propose, proposals = [], prevotes = [],
      precommits = [], locked_round = None, locked_hash = None\<rparr>"

definition reset_for_height :: "RoundState \<Rightarrow> u64 \<Rightarrow> RoundState" where
  "reset_for_height st height =
     st\<lparr>rs_height := height, rs_round := 0, rs_step := Propose, proposals := [], prevotes := [],
        precommits := [], locked_round := None, locked_hash := None\<rparr>"

definition advance_round :: "RoundState \<Rightarrow> RoundState" where
  "advance_round st = st\<lparr>rs_round := sat_add (rs_round st) 1, rs_step := Propose\<rparr>"

definition insert_prevote :: "RoundState \<Rightarrow> u32 \<Rightarrow> u64 \<Rightarrow> B256 option \<Rightarrow> bool \<times> RoundState" where
  "insert_prevote st round voter h =
     (if map_of (prevotes st) (round, voter) \<noteq> None then (False, st)
      else (True, st\<lparr>prevotes := hm_insert (round, voter) h (prevotes st)\<rparr>))"

definition insert_precommit :: "RoundState \<Rightarrow> u32 \<Rightarrow> u64 \<Rightarrow> B256 option \<Rightarrow> bool \<times> RoundState" where
  "insert_precommit st round voter h =
     (if map_of (precommits st) (round, voter) \<noteq> None then (False, st)
      else (True, st\<lparr>precommits := hm_insert (round, voter) h (precommits st)\<rparr>))"

text \<open>The body of the two tally loops.\<close>

definition tally_vote ::
    "ValidatorSet \<Rightarrow> u32 \<Rightarrow> (u32 \<times> u64) \<times> B256 option \<Rightarrow> (B256, u64) hashmap \<Rightarrow> (B256, u64) hashmap" where
  "tally_vote s round entry tally =
     (case entry of ((vote_round, voter), bh) \<Rightarrow>
        if vote_round \<noteq> round then tally
        else case bh of
          None \<Rightarrow> tally
        | Some h \<Rightarrow>
            if weight_of s voter = 0 then tally
            else hm_insert h
              (sat_add (case map_of tally h of Some w \<Rightarrow> w | None \<Rightarrow> 0) (weight_of s voter)) tally)"

definition tally_prevotes :: "hash_orders \<Rightarrow> RoundState \<Rightarrow> u32 \<Rightarrow> ValidatorSet \<Rightarrow> (B256, u64) hashmap" where
  "tally_prevotes ho st round s = fold (tally_vote s round) (ord_votes ho (prevotes st)) []"

definition tally_precommits :: "hash_orders \<Rightarrow> RoundState \<Rightarrow> u32 \<Rightarrow> ValidatorSet \<Rightarrow> (B256, u64) hashmap" where
  "tally_precommits ho st round s = fold (tally_vote s round) (ord_votes ho (precommits st)) []"

definition quorum_hash :: "hash_orders \<Rightarrow> (B256, u64) hashmap \<Rightarrow> u64 \<Rightarrow> B256 option" where
  "quorum_hash ho tally quorum =
     find_map (\<lambda>(h, weight). if quorum \<le> weight then Some h else None) (ord_tally ho tally)"

record ConsensusEngine =
  validator_set :: ValidatorSet
  state :: RoundState
  fast_path :: FastPathAccumulator

definition ConsensusEngine_new :: "ValidatorSet \<Rightarrow> FastPathConfig \<Rightarrow> ConsensusEngine" where
  "ConsensusEngine_new s config =
     \<lparr>validator_set = s, state = RoundState_new, fast_path = FastPathAccumulator_new config\<rparr>"

definition start_height :: "ConsensusEngine \<Rightarrow> u64 \<Rightarrow> ConsensusEvent list \<times> ConsensusEngine" where
  "start_height e height =
     ([NeedProposal height 0 (leader_for_round (validator_set e) height 0)],
      e\<lparr>state := reset_for_height (state e) height, fast_path := fp_reset (fast_path e)\<rparr>)"

definition on_proposal ::
    "ConsensusEngine \<Rightarrow> u64 \<Rightarrow> u32 \<Rightarrow> B256 \<Rightarrow> u64 \<Rightarrow> ConsensusEvent list \<times> ConsensusEngine" where
  "on_proposal e height round bh proposer =
     (if height \<noteq> rs_height (state e) \<or> round \<noteq> rs_round (state e) then ([], e)
      else if proposer \<noteq> leader_for_round (validator_set e) height round then ([], e)
      else
        let st = (state e)\<lparr>proposals := hm_insert round bh (proposals (state e)),
                           rs_step := PrevoteStep\<rparr>;
            vote_hash = (case locked_hash st of Some h \<Rightarrow> Some h | None \<Rightarrow> Some bh)
        in ([SendPrevote height round vote_hash], e\<lparr>state := st\<rparr>))"

text \<open>The rest of \<open>on_prevote\<close>, once the vote is recorded and the fast path has not finalised.\<close>

definition prevote_quorum ::
    "hash_orders \<Rightarrow> ConsensusEngine \<Rightarrow> u64 \<Rightarrow> u32 \<Rightarrow> ConsensusEvent list \<times> ConsensusEngine" where
  "prevote_quorum ho e height round =
     (case quorum_hash ho (tally_prevotes ho (state e) round (validator_set e))
             (quorum_weight (validator_set e)) of
        None \<Rightarrow> ([], e)
      | Some h \<Rightarrow>
          let st = state e;
              should_emit = (rs_step st \<noteq> PrecommitStep \<or> locked_hash st \<noteq> Some h \<or>
                             locked_round st \<noteq> Some round)
          in (if should_emit then [SendPrecommit height round (Some h)] else [],
              e\<lparr>state := st\<lparr>locked_round := Some round, locked_hash := Some h,
                             rs_step := PrecommitStep\<rparr>\<rparr>))"

definition on_prevote ::
    "hash_orders \<Rightarrow> ConsensusEngine \<Rightarrow> u64 \<Rightarrow> u32 \<Rightarrow> B256 option \<Rightarrow> u64 \<Rightarrow>
      ConsensusEvent list \<times> ConsensusEngine" where
  "on_prevote ho e height round bh voter =
     (if height \<noteq> rs_height (state e) \<or> round \<noteq> rs_round (state e) then ([], e)
      else case insert_prevote (state e) round voter bh of
        (False, _) \<Rightarrow> ([], e)
      | (True, st) \<Rightarrow>
          let e1 = e\<lparr>state := st\<rparr> in
          (case bh of
             None \<Rightarrow> prevote_quorum ho e1 height round
           | Some h \<Rightarrow>
               let attestation =
                     \<lparr>att_block_hash = h, attester_index = voter, att_signature = [],
                      received_at_ms = sat_add (sat_mul (rs_height st) 1000) (ucast (rs_round st))\<rparr>
               in case add_attestation (fast_path e1) attestation of
                    (outcome, fp) \<Rightarrow>
                      let e2 = e1\<lparr>fast_path := fp\<rparr> in
                      (case outcome of
                         Some (FastFinalized _) \<Rightarrow>
                           ([BlockFinalized height h round],
                            e2\<lparr>state := (state e2)\<lparr>rs_step := Committed\<rparr>\<rparr>)
                       | _ \<Rightarrow> prevote_quorum ho e2 height round)))"

definition on_precommit ::
    "hash_orders \<Rightarrow> ConsensusEngine \<Rightarrow> u64 \<Rightarrow> u32 \<Rightarrow> B256 option \<Rightarrow> u64 \<Rightarrow>
      ConsensusEvent list \<times> ConsensusEngine" where
  "on_precommit ho e height round bh voter =
     (if height \<noteq> rs_height (state e) \<or> round \<noteq> rs_round (state e) then ([], e)
      else case insert_precommit (state e) round voter bh of
        (False, _) \<Rightarrow> ([], e)
      | (True, st) \<Rightarrow>
          let e1 = e\<lparr>state := st\<rparr> in
          (case quorum_hash ho (tally_precommits ho st round (validator_set e))
                  (quorum_weight (validator_set e)) of
             None \<Rightarrow> ([], e1)
           | Some h \<Rightarrow>
               ([BlockFinalized height h round],
                e1\<lparr>state := st\<lparr>rs_step := Committed\<rparr>\<rparr>)))"

definition on_message ::
    "hash_orders \<Rightarrow> ConsensusEngine \<Rightarrow> ConsensusMessage \<Rightarrow> ConsensusEvent list \<times> ConsensusEngine" where
  "on_message ho e msg =
     (if rs_step (state e) = Committed then ([], e)
      else case msg of
        Proposal height round bh proposer \<Rightarrow> on_proposal e height round bh proposer
      | Prevote height round bh voter \<Rightarrow> on_prevote ho e height round bh voter
      | Precommit height round bh voter \<Rightarrow> on_precommit ho e height round bh voter)"

definition on_timeout :: "ConsensusEngine \<Rightarrow> ConsensusEvent list \<times> ConsensusEngine" where
  "on_timeout e =
     (if rs_step (state e) = Committed then ([], e)
      else
        let timed_out_round = rs_round (state e);
            st = advance_round (state e)
        in ([RoundTimeout (rs_height st) timed_out_round,
             NeedProposal (rs_height st) (rs_round st)
               (leader_for_round (validator_set e) (rs_height st) (rs_round st))],
            e\<lparr>state := st, fast_path := fp_reset (fast_path e)\<rparr>))"

definition current_height :: "ConsensusEngine \<Rightarrow> u64" where
  "current_height e = rs_height (state e)"

definition current_round :: "ConsensusEngine \<Rightarrow> u32" where
  "current_round e = rs_round (state e)"

section \<open>Vote tables\<close>

text \<open>The validators recorded as having voted for a hash in a round.\<close>

definition voters :: "vote_table \<Rightarrow> u32 \<Rightarrow> B256 \<Rightarrow> u64 set" where
  "voters t round h = {v. map_of t (round, v) = Some (Some h)}"

definition tally_at :: "(B256, u64) hashmap \<Rightarrow> B256 \<Rightarrow> u64" where
  "tally_at tally h = (case map_of tally h of Some w \<Rightarrow> w | None \<Rightarrow> 0)"

definition share :: "ValidatorSet \<Rightarrow> u32 \<Rightarrow> B256 \<Rightarrow> (u32 \<times> u64) \<times> B256 option \<Rightarrow> nat" where
  "share s round h e =
     (if fst (fst e) = round \<and> snd e = Some h then unat (weight_of s (snd (fst e))) else 0)"

lemma hm_inv_tally_vote: "hm_inv t \<Longrightarrow> hm_inv (tally_vote s round e t)"
  by (auto simp: tally_vote_def split: prod.splits option.splits)

lemma tally_at_vote:
  "unat (tally_at (tally_vote s round e t) h) = min (unat (tally_at t h) + share s round h e) (2 ^ 64 - 1)"
  using unat_le_max [of "tally_at t h"]
  by (auto simp: tally_vote_def tally_at_def share_def sat_simps split: prod.splits option.splits)

lemma hm_inv_tally: "hm_inv t \<Longrightarrow> hm_inv (fold (tally_vote s round) es t)"
  by (induction es arbitrary: t) (simp_all add: hm_inv_tally_vote)

lemma tally_at_fold:
  "unat (tally_at (fold (tally_vote s round) es t) h) =
     min (unat (tally_at t h) + (\<Sum>e\<leftarrow>es. share s round h e)) (2 ^ 64 - 1)"
proof (induction es arbitrary: t)
  case Nil
  then show ?case using unat_le_max [of "tally_at t h"] by simp
next
  case (Cons e es)
  then show ?case by (simp add: tally_at_vote)
qed

text \<open>The shares of the entries of a table add up to the weight of its voters.\<close>

lemma sum_shares:
  assumes "hm_inv t"
  shows "(\<Sum>e\<leftarrow>t. share s round h e) = voting_weight s (voters t round h)"
proof -
  let ?entry = "\<lambda>v. ((round, v), Some h)"
  have "distinct t" using assms by (auto simp: hm_inv_def distinct_map)
  then have "(\<Sum>e\<leftarrow>t. share s round h e) = (\<Sum>e\<in>set t. share s round h e)"
    by (simp add: sum_list_distinct_conv_sum_set)
  also have "\<dots> = (\<Sum>e\<in>?entry ` voters t round h. share s round h e)"
  proof (rule sum.mono_neutral_right)
    show "?entry ` voters t round h \<subseteq> set t"
      using hm_mem_iff [OF assms] by (auto simp: voters_def)
    show "\<forall>e \<in> set t - ?entry ` voters t round h. share s round h e = 0"
      using hm_mem_iff [OF assms] by (auto simp: voters_def share_def image_iff)
  qed simp
  also have "\<dots> = voting_weight s (voters t round h)"
    by (subst sum.reindex) (simp_all add: inj_on_def share_def voting_weight_def)
  finally show ?thesis .
qed

text \<open>Two hashes with a quorum in one table and round are equal, where quorums must meet.\<close>

lemma quorums_same_hash:
  assumes "is_quorum s (voters t r x)" and "is_quorum s (voters t r y)"
    and "weight_sum (validators s) < 2 * unat (quorum_weight s)"
  shows "x = y"
proof -
  have "0 < voting_weight s (voters t r x \<inter> voters t r y)"
    using assms voting_weight_overlap [of s "voters t r x" "voters t r y"]
    by (simp add: is_quorum_def)
  then have "voters t r x \<inter> voters t r y \<noteq> {}" by (rule voting_weight_pos)
  then show ?thesis by (auto simp: voters_def)
qed

text \<open>
  The contract of a vote table: what the engine may rely on when it counts votes.  A
  quorum is reported only for a hash whose recorded voters are one, and one is reported
  whenever there is such a hash.
\<close>

locale vote_counting =
  fixes tbl :: "RoundState \<Rightarrow> vote_table"
    and tally :: "hash_orders \<Rightarrow> RoundState \<Rightarrow> u32 \<Rightarrow> ValidatorSet \<Rightarrow> (B256, u64) hashmap"
  assumes tally_weight: "orders_ok ho \<Longrightarrow> hm_inv (tbl st) \<Longrightarrow>
      unat (tally_at (tally ho st round s) h) =
        min (voting_weight s (voters (tbl st) round h)) (2 ^ 64 - 1)"
    and tally_inv: "hm_inv (tally ho st round s)"
begin

lemma quorum_tally:
  assumes "orders_ok ho" and "hm_inv (tbl st)"
  shows "quorum_weight s \<le> tally_at (tally ho st round s) h \<longleftrightarrow> is_quorum s (voters (tbl st) round h)"
  using tally_weight [OF assms, of round s h] unat_le_max [of "quorum_weight s"]
  by (auto simp: word_le_nat_alt is_quorum_def)

lemma quorum_hash_sound:
  assumes "orders_ok ho" and "hm_inv (tbl st)"
    and "quorum_hash ho (tally ho st round s) (quorum_weight s) = Some h"
  shows "is_quorum s (voters (tbl st) round h)"
proof -
  obtain w where "(h, w) \<in> set (ord_tally ho (tally ho st round s))" and "quorum_weight s \<le> w"
    using find_map_Some [OF assms(3) [unfolded quorum_hash_def]] by (auto split: if_splits)
  then have "tally_at (tally ho st round s) h = w"
    using assms(1) hash_order_set [of "ord_tally ho"] hm_mem_iff [OF tally_inv]
    by (auto simp: orders_ok_def tally_at_def)
  with \<open>quorum_weight s \<le> w\<close> show ?thesis
    using quorum_tally [OF assms(1,2)] by blast
qed

lemma quorum_hash_complete:
  assumes "orders_ok ho" and "hm_inv (tbl st)" and "is_quorum s (voters (tbl st) round h)"
  shows "quorum_hash ho (tally ho st round s) (quorum_weight s) \<noteq> None"
proof -
  have q: "quorum_weight s \<le> tally_at (tally ho st round s) h"
    using quorum_tally [OF assms(1,2)] assms(3) by blast
  then obtain w where w: "map_of (tally ho st round s) h = Some w" and "quorum_weight s \<le> w"
    using quorum_weight_pos [of s] by (auto simp: tally_at_def split: option.splits)
  have "(h, w) \<in> set (ord_tally ho (tally ho st round s))"
    using assms(1) hash_order_set [of "ord_tally ho"] w hm_mem_iff [OF tally_inv]
    by (auto simp: orders_ok_def)
  with \<open>quorum_weight s \<le> w\<close> show ?thesis
    unfolding quorum_hash_def find_map_None by fastforce
qed

text \<open>Where two quorums must meet, the reported hash does not depend on any iteration order.\<close>

lemma quorum_hash_unique:
  assumes "orders_ok ho" and "hm_inv (tbl st)" and "is_quorum s (voters (tbl st) round h)"
    and "weight_sum (validators s) < 2 * unat (quorum_weight s)"
  shows "quorum_hash ho (tally ho st round s) (quorum_weight s) = Some h"
proof -
  obtain h' where h': "quorum_hash ho (tally ho st round s) (quorum_weight s) = Some h'"
    using quorum_hash_complete [OF assms(1-3)] by blast
  then have "h' = h"
    using quorums_same_hash [OF quorum_hash_sound [OF assms(1,2)] assms(3,4)] by blast
  with h' show ?thesis by simp
qed

end

lemma tally_table:
  assumes "orders_ok ho" and "hm_inv t"
  shows "unat (tally_at (fold (tally_vote s round) (ord_votes ho t) []) h) =
    min (voting_weight s (voters t round h)) (2 ^ 64 - 1)"
proof -
  have it: "hm_inv (ord_votes ho t)" "map_of (ord_votes ho t) = map_of t"
    using hash_order_hm [OF _ assms(2)] assms(1) by (simp_all add: orders_ok_def)
  then have "voters (ord_votes ho t) round h = voters t round h" by (simp add: voters_def)
  then show ?thesis
    using sum_shares [OF it(1), of s round h] by (simp add: tally_at_fold) (simp add: tally_at_def)
qed

interpretation prevote: vote_counting prevotes tally_prevotes
  by unfold_locales (simp_all add: tally_prevotes_def tally_table hm_inv_tally)

interpretation precommit: vote_counting precommits tally_precommits
  by unfold_locales (simp_all add: tally_precommits_def tally_table hm_inv_tally)

section \<open>What a handler can do\<close>

text \<open>
  With the optimistic threshold at zero the fast path never finalises.  The cases of a
  message are then the ones below; every later proof about the engine uses them, and none
  opens the handlers again.
\<close>

definition slow_path :: "ConsensusEngine \<Rightarrow> bool" where
  "slow_path e \<longleftrightarrow> optimistic_threshold (fp_config (fast_path e)) = 0"

definition tables_inv :: "RoundState \<Rightarrow> bool" where
  "tables_inv st \<longleftrightarrow> hm_inv (prevotes st) \<and> hm_inv (precommits st)"

definition current_position :: "ConsensusEngine \<Rightarrow> u64 \<Rightarrow> u32 \<Rightarrow> bool" where
  "current_position e height round \<longleftrightarrow> height = rs_height (state e) \<and> round = rs_round (state e)"

inductive message_effect ::
    "ConsensusEngine \<Rightarrow> ConsensusMessage \<Rightarrow> ConsensusEvent list \<Rightarrow> RoundState \<Rightarrow> bool"
  for e :: ConsensusEngine where
  ignored: "message_effect e msg [] (state e)"
| proposed: "current_position e h r \<Longrightarrow> x = (case locked_hash (state e) of Some z \<Rightarrow> z | None \<Rightarrow> bh) \<Longrightarrow>
    p = leader_for_round (validator_set e) h r \<Longrightarrow>
    message_effect e (Proposal h r bh p) [SendPrevote h r (Some x)]
      ((state e)\<lparr>proposals := hm_insert r bh (proposals (state e)), rs_step := PrevoteStep\<rparr>)"
| prevoted: "current_position e h r \<Longrightarrow> map_of (prevotes (state e)) (r, v) = None \<Longrightarrow>
    message_effect e (Prevote h r b v) []
      ((state e)\<lparr>prevotes := hm_insert (r, v) b (prevotes (state e))\<rparr>)"
| locked: "current_position e h r \<Longrightarrow> map_of (prevotes (state e)) (r, v) = None \<Longrightarrow>
    is_quorum (validator_set e) (voters (hm_insert (r, v) b (prevotes (state e))) r x) \<Longrightarrow>
    evs = [SendPrecommit h r (Some x)] \<or>
      evs = [] \<and> locked_round (state e) = Some r \<and> locked_hash (state e) = Some x \<Longrightarrow>
    message_effect e (Prevote h r b v) evs
      ((state e)\<lparr>prevotes := hm_insert (r, v) b (prevotes (state e)), locked_round := Some r,
        locked_hash := Some x, rs_step := PrecommitStep\<rparr>)"
| precommitted: "current_position e h r \<Longrightarrow> map_of (precommits (state e)) (r, v) = None \<Longrightarrow>
    message_effect e (Precommit h r b v) []
      ((state e)\<lparr>precommits := hm_insert (r, v) b (precommits (state e))\<rparr>)"
| decided: "current_position e h r \<Longrightarrow> map_of (precommits (state e)) (r, v) = None \<Longrightarrow>
    is_quorum (validator_set e) (voters (hm_insert (r, v) b (precommits (state e))) r x) \<Longrightarrow>
    message_effect e (Precommit h r b v) [BlockFinalized h x r]
      ((state e)\<lparr>precommits := hm_insert (r, v) b (precommits (state e)), rs_step := Committed\<rparr>)"

lemma prevote_quorum_effect:
  assumes "orders_ok ho" and "tables_inv (state e)" and "current_position e h r"
    and "map_of (prevotes (state e)) (r, v) = None"
    and "state e1 = (state e)\<lparr>prevotes := hm_insert (r, v) b (prevotes (state e))\<rparr>"
    and "validator_set e1 = validator_set e"
    and "prevote_quorum ho e1 h r = (evs, e')"
  shows "message_effect e (Prevote h r b v) evs (state e')"
proof (cases "quorum_hash ho (tally_prevotes ho (state e1) r (validator_set e1))
    (quorum_weight (validator_set e1))")
  case None
  with assms show ?thesis by (auto simp: prevote_quorum_def intro: prevoted)
next
  case (Some x)
  have "hm_inv (prevotes (state e1))"
    using assms(2,5) by (simp add: tables_inv_def)
  from prevote.quorum_hash_sound [OF assms(1) this Some]
  have "is_quorum (validator_set e) (voters (hm_insert (r, v) b (prevotes (state e))) r x)"
    by (simp add: assms(5,6))
  moreover have "evs = [SendPrecommit h r (Some x)] \<or>
      evs = [] \<and> locked_round (state e) = Some r \<and> locked_hash (state e) = Some x"
    using assms(5,7) Some by (auto simp: prevote_quorum_def Let_def split: if_splits)
  moreover have "state e' = (state e)\<lparr>prevotes := hm_insert (r, v) b (prevotes (state e)),
      locked_round := Some r, locked_hash := Some x, rs_step := PrecommitStep\<rparr>"
    using assms(5,7) Some by (auto simp: prevote_quorum_def Let_def)
  ultimately show ?thesis using assms(3,4) by (auto intro: locked)
qed

lemma on_prevote_effect:
  assumes "orders_ok ho" and "tables_inv (state e)" and "slow_path e"
    and "on_prevote ho e h r b v = (evs, e')"
  shows "message_effect e (Prevote h r b v) evs (state e')"
proof (cases "current_position e h r \<and> map_of (prevotes (state e)) (r, v) = None")
  case False
  then show ?thesis
    using assms(4)
    by (auto simp: on_prevote_def insert_prevote_def current_position_def split: if_splits intro: ignored)
next
  case True
  define st where "st = (state e)\<lparr>prevotes := hm_insert (r, v) b (prevotes (state e))\<rparr>"
  have ins: "insert_prevote (state e) r v b = (True, st)"
    using True by (simp add: insert_prevote_def st_def)
  obtain e1 where "state e1 = st" and "validator_set e1 = validator_set e"
    and "prevote_quorum ho e1 h r = (evs, e')"
  proof (cases b)
    case None
    with assms(4) True ins show ?thesis
      by (intro that [of "e\<lparr>state := st\<rparr>"]) (simp_all add: on_prevote_def current_position_def)
  next
    case (Some x)
    let ?a = "\<lparr>att_block_hash = x, attester_index = v, att_signature = [],
        received_at_ms = sat_add (sat_mul (rs_height st) 1000) (ucast (rs_round st))\<rparr>"
    obtain out fp where add: "add_attestation (fast_path e) ?a = (out, fp)" by fastforce
    then have "\<And>p. out \<noteq> Some (FastFinalized p)"
      using fast_path_off [of "fast_path e" ?a] assms(3) by (simp add: slow_path_def)
    then show ?thesis
      using assms(4) True ins Some add
      by (intro that [of "e\<lparr>state := st, fast_path := fp\<rparr>"])
        (auto simp: on_prevote_def current_position_def Let_def split: option.splits FastPathOutcome.splits)
  qed
  then show ?thesis
    using prevote_quorum_effect [OF assms(1,2)] True by (simp add: st_def)
qed

lemma on_precommit_effect:
  assumes "orders_ok ho" and "tables_inv (state e)" and "on_precommit ho e h r b v = (evs, e')"
  shows "message_effect e (Precommit h r b v) evs (state e')"
proof (cases "current_position e h r \<and> map_of (precommits (state e)) (r, v) = None")
  case False
  then show ?thesis
    using assms(3)
    by (auto simp: on_precommit_def insert_precommit_def current_position_def split: if_splits intro: ignored)
next
  case True
  define st where "st = (state e)\<lparr>precommits := hm_insert (r, v) b (precommits (state e))\<rparr>"
  have inv: "hm_inv (precommits st)" using assms(2) by (simp add: tables_inv_def st_def)
  show ?thesis
  proof (cases "quorum_hash ho (tally_precommits ho st r (validator_set e)) (quorum_weight (validator_set e))")
    case None
    with assms(3) True show ?thesis
      by (auto simp: on_precommit_def insert_precommit_def current_position_def st_def
          intro!: precommitted)
  next
    case (Some x)
    from precommit.quorum_hash_sound [OF assms(1) inv Some] assms(3) True Some show ?thesis
      by (auto simp: on_precommit_def insert_precommit_def current_position_def st_def
          intro!: decided)
  qed
qed

lemma on_message_effect:
  assumes "orders_ok ho" and "tables_inv (state e)" and "slow_path e"
    and "on_message ho e msg = (evs, e')"
  shows "message_effect e msg evs (state e')"
proof (cases "rs_step (state e) = Committed")
  case True
  with assms(4) show ?thesis by (auto simp: on_message_def intro: ignored)
next
  case active: False
  show ?thesis
  proof (cases msg)
    case (Proposal h r bh p)
    with assms(4) active show ?thesis
      by (auto simp: on_message_def on_proposal_def current_position_def Let_def
          split: if_splits option.splits intro: ignored intro!: proposed)
  next
    case (Prevote h r b v)
    with assms active show ?thesis
      by (auto simp: on_message_def intro: on_prevote_effect)
  next
    case (Precommit h r b v)
    with assms active show ?thesis
      by (auto simp: on_message_def intro: on_precommit_effect)
  qed
qed

definition same_config :: "ConsensusEngine \<Rightarrow> ConsensusEngine \<Rightarrow> bool" where
  "same_config e e' \<longleftrightarrow> validator_set e' = validator_set e \<and>
     fp_config (fast_path e') = fp_config (fast_path e)"

lemma prevote_quorum_config: "same_config e1 (snd (prevote_quorum ho e1 h r))"
  by (simp add: prevote_quorum_def same_config_def Let_def split: option.splits)

lemma on_prevote_config: "same_config e (snd (on_prevote ho e h r b v))"
proof (cases b)
  case None
  then show ?thesis
    using prevote_quorum_config [of "e\<lparr>state := st\<rparr>" ho h r for st]
    by (auto simp: on_prevote_def insert_prevote_def same_config_def)
next
  case (Some x)
  have "same_config e (snd (prevote_quorum ho (e\<lparr>state := st, fast_path := snd (add_attestation (fast_path e) a)\<rparr>) h r))"
    for st a
    using prevote_quorum_config [of "e\<lparr>state := st, fast_path := snd (add_attestation (fast_path e) a)\<rparr>" ho h r]
    by (simp add: same_config_def)
  then show ?thesis
    using Some
    by (simp add: on_prevote_def insert_prevote_def case_prod_unfold Let_def
        split: option.splits FastPathOutcome.splits) (auto simp: same_config_def)
qed

lemma on_message_config: "same_config e (snd (on_message ho e msg))"
  using on_prevote_config [of e ho]
  by (cases msg)
    (auto simp: on_message_def on_proposal_def on_precommit_def insert_precommit_def same_config_def
      Let_def split: option.splits)

lemma message_effect_tables:
  "message_effect e msg evs st \<Longrightarrow> tables_inv (state e) \<Longrightarrow> tables_inv st"
  by (cases rule: message_effect.cases) (auto simp: tables_inv_def)

lemma message_effect_position:
  "message_effect e msg evs st \<Longrightarrow> rs_height st = rs_height (state e) \<and> rs_round st = rs_round (state e)"
  by (cases rule: message_effect.cases) auto

section \<open>A round that goes well\<close>

fun deliver ::
    "hash_orders \<Rightarrow> ConsensusEngine \<Rightarrow> ConsensusMessage list \<Rightarrow> ConsensusEvent list \<times> ConsensusEngine" where
  "deliver ho e [] = ([], e)"
| "deliver ho e (m # ms) =
     (case on_message ho e m of (evs, e1) \<Rightarrow> case deliver ho e1 ms of (rest, e2) \<Rightarrow> (evs @ rest, e2))"

lemma deliver_append:
  "deliver ho e (ms @ ms') =
     (fst (deliver ho e ms) @ fst (deliver ho (snd (deliver ho e ms)) ms'),
      snd (deliver ho (snd (deliver ho e ms)) ms'))"
  by (induction ms arbitrary: e) (simp_all add: case_prod_unfold)

text \<open>All votes of a round recorded so far are for one hash.\<close>

definition uniform :: "vote_table \<Rightarrow> u32 \<Rightarrow> B256 \<Rightarrow> bool" where
  "uniform t r x \<longleftrightarrow> (\<forall>v b. map_of t (r, v) = Some b \<longrightarrow> b = Some x)"

lemma voters_insert:
  "map_of t (r, v) = None \<Longrightarrow> voters (hm_insert (r, v) (Some x) t) r x = insert v (voters t r x)"
  by (auto simp: voters_def)

lemma uniform_insert: "uniform t r x \<Longrightarrow> uniform (hm_insert (r, v) (Some x) t) r x"
  by (auto simp: uniform_def)

lemma uniform_quorum:
  assumes "uniform t r x" and "is_quorum s (voters t r y)"
  shows "y = x"
proof -
  have "0 < voting_weight s (voters t r y)"
    using assms(2) unat_quorum_weight [of s] by (simp add: is_quorum_def)
  then have "voters t r y \<noteq> {}" by (rule voting_weight_pos)
  then show ?thesis using assms(1) by (auto simp: voters_def uniform_def)
qed

context vote_counting
begin

lemma uniform_quorum_hash:
  assumes "orders_ok ho" and "hm_inv (tbl st)" and "uniform (tbl st) r x"
  shows "quorum_hash ho (tally ho st r s) (quorum_weight s) =
    (if is_quorum s (voters (tbl st) r x) then Some x else None)"
proof (cases "quorum_hash ho (tally ho st r s) (quorum_weight s)")
  case None
  with quorum_hash_complete [OF assms(1,2), of s r x] show ?thesis by auto
next
  case (Some y)
  then have "is_quorum s (voters (tbl st) r y)" by (rule quorum_hash_sound [OF assms(1,2)])
  with uniform_quorum [OF assms(3) this] Some show ?thesis by simp
qed

end

definition locked_on :: "RoundState \<Rightarrow> u32 \<Rightarrow> B256 \<Rightarrow> bool" where
  "locked_on st r x \<longleftrightarrow> rs_step st = PrecommitStep \<and> locked_hash st = Some x \<and> locked_round st = Some r"

lemma on_message_prevote:
  assumes "orders_ok ho" and "tables_inv (state e)" and "slow_path e" and "rs_step (state e) \<noteq> Committed"
    and "current_position e h r" and "map_of (prevotes (state e)) (r, v) = None"
    and "uniform (prevotes (state e)) r x"
  shows "\<exists>fp. optimistic_threshold (fp_config fp) = 0 \<and>
    on_message ho e (Prevote h r (Some x) v) =
      (let st = (state e)\<lparr>prevotes := hm_insert (r, v) (Some x) (prevotes (state e))\<rparr> in
       if is_quorum (validator_set e) (insert v (voters (prevotes (state e)) r x)) then
         (if locked_on (state e) r x then [] else [SendPrecommit h r (Some x)],
          e\<lparr>state := st\<lparr>locked_round := Some r, locked_hash := Some x, rs_step := PrecommitStep\<rparr>,
            fast_path := fp\<rparr>)
       else ([], e\<lparr>state := st, fast_path := fp\<rparr>))"
proof -
  define st where "st = (state e)\<lparr>prevotes := hm_insert (r, v) (Some x) (prevotes (state e))\<rparr>"
  let ?a = "\<lparr>att_block_hash = x, attester_index = v, att_signature = [],
      received_at_ms = sat_add (sat_mul (rs_height st) 1000) (ucast (rs_round st))\<rparr>"
  obtain out fp where add: "add_attestation (fast_path e) ?a = (out, fp)" by fastforce
  then have off: "\<And>p. out \<noteq> Some (FastFinalized p)" and cfg: "optimistic_threshold (fp_config fp) = 0"
    using fast_path_off [of "fast_path e" ?a] fp_config_add [of "fast_path e" ?a] assms(3)
    by (simp_all add: slow_path_def)
  have ins: "insert_prevote (state e) r v (Some x) = (True, st)"
    using assms(6) by (simp add: insert_prevote_def st_def)
  have "on_prevote ho e h r (Some x) v = prevote_quorum ho (e\<lparr>state := st, fast_path := fp\<rparr>) h r"
    using assms(5) add off ins
    by (simp add: on_prevote_def current_position_def Let_def split: option.split FastPathOutcome.split)
  then have msg: "on_message ho e (Prevote h r (Some x) v) =
      prevote_quorum ho (e\<lparr>state := st, fast_path := fp\<rparr>) h r"
    using assms(4) by (simp add: on_message_def)
  have "hm_inv (prevotes st)" and "uniform (prevotes st) r x"
    using assms(2,7) by (simp_all add: st_def tables_inv_def uniform_insert)
  note uq = prevote.uniform_quorum_hash [OF assms(1) this]
  have "voters (prevotes st) r x = insert v (voters (prevotes (state e)) r x)"
    using assms(6) by (simp add: st_def voters_insert)
  with uq have q: "quorum_hash ho (tally_prevotes ho st r (validator_set e)) (quorum_weight (validator_set e)) =
      (if is_quorum (validator_set e) (insert v (voters (prevotes (state e)) r x)) then Some x else None)"
    by simp
  have same: "locked_on (state e) r x \<longleftrightarrow>
      \<not> (rs_step st \<noteq> PrecommitStep \<or> locked_hash st \<noteq> Some x \<or> locked_round st \<noteq> Some r)"
    by (auto simp: locked_on_def st_def)
  show ?thesis
    unfolding Let_def st_def [symmetric] msg
    by (rule exI [of _ fp]) (simp add: cfg prevote_quorum_def q Let_def same)
qed

lemma on_message_precommit:
  assumes "orders_ok ho" and "tables_inv (state e)" and "rs_step (state e) \<noteq> Committed"
    and "current_position e h r" and "map_of (precommits (state e)) (r, v) = None"
    and "uniform (precommits (state e)) r x"
  shows "on_message ho e (Precommit h r (Some x) v) =
      (let st = (state e)\<lparr>precommits := hm_insert (r, v) (Some x) (precommits (state e))\<rparr> in
       if is_quorum (validator_set e) (insert v (voters (precommits (state e)) r x)) then
         ([BlockFinalized h x r], e\<lparr>state := st\<lparr>rs_step := Committed\<rparr>\<rparr>)
       else ([], e\<lparr>state := st\<rparr>))"
proof -
  define st where "st = (state e)\<lparr>precommits := hm_insert (r, v) (Some x) (precommits (state e))\<rparr>"
  have "hm_inv (precommits st)" and "uniform (precommits st) r x"
    using assms(2,6) by (simp_all add: st_def tables_inv_def uniform_insert)
  note uq = precommit.uniform_quorum_hash [OF assms(1) this]
  have "voters (precommits st) r x = insert v (voters (precommits (state e)) r x)"
    using assms(5) by (simp add: st_def voters_insert)
  with uq have "quorum_hash ho (tally_precommits ho st r (validator_set e)) (quorum_weight (validator_set e)) =
      (if is_quorum (validator_set e) (insert v (voters (precommits (state e)) r x)) then Some x else None)"
    by simp
  then show ?thesis
    using assms(3-5)
    by (auto simp: on_message_def on_precommit_def insert_precommit_def current_position_def
        st_def Let_def)
qed

text \<open>The two voting phases, one vote at a time.\<close>

definition prevoting :: "ConsensusEngine \<Rightarrow> u64 \<Rightarrow> u32 \<Rightarrow> B256 \<Rightarrow> bool" where
  "prevoting e h r x \<longleftrightarrow> tables_inv (state e) \<and> slow_path e \<and> rs_step (state e) \<noteq> Committed \<and>
     current_position e h r \<and> uniform (prevotes (state e)) r x \<and>
     (locked_on (state e) r x \<longleftrightarrow> is_quorum (validator_set e) (voters (prevotes (state e)) r x))"

lemma is_quorum_mono: "is_quorum s A \<Longrightarrow> A \<subseteq> B \<Longrightarrow> is_quorum s B"
  using voting_weight_mono [of A B s] by (simp add: is_quorum_def)

lemma prevoting_step:
  assumes "orders_ok ho" and "prevoting e h r x" and fresh: "map_of (prevotes (state e)) (r, v) = None"
  obtains e' where "on_message ho e (Prevote h r (Some x) v) =
      (if \<not> locked_on (state e) r x \<and> locked_on (state e') r x then [SendPrecommit h r (Some x)] else [], e')"
    and "prevoting e' h r x" and "validator_set e' = validator_set e"
    and "prevotes (state e') = hm_insert (r, v) (Some x) (prevotes (state e))"
    and "precommits (state e') = precommits (state e)"
proof -
  note pv = assms(2) [unfolded prevoting_def]
  let ?st = "(state e)\<lparr>prevotes := hm_insert (r, v) (Some x) (prevotes (state e))\<rparr>"
  let ?q = "is_quorum (validator_set e) (insert v (voters (prevotes (state e)) r x))"
  obtain fp where off: "optimistic_threshold (fp_config fp) = 0"
    and msg: "on_message ho e (Prevote h r (Some x) v) =
      (if ?q then
         (if locked_on (state e) r x then [] else [SendPrecommit h r (Some x)],
          e\<lparr>state := ?st\<lparr>locked_round := Some r, locked_hash := Some x, rs_step := PrecommitStep\<rparr>,
            fast_path := fp\<rparr>)
       else ([], e\<lparr>state := ?st, fast_path := fp\<rparr>))"
    using on_message_prevote [OF assms(1) _ _ _ _ fresh] pv unfolding Let_def by blast
  define e' where "e' = (if ?q then e\<lparr>state := ?st\<lparr>locked_round := Some r, locked_hash := Some x,
      rs_step := PrecommitStep\<rparr>, fast_path := fp\<rparr> else e\<lparr>state := ?st, fast_path := fp\<rparr>)"
  have "voters (prevotes (state e')) r x = insert v (voters (prevotes (state e)) r x)"
    using fresh by (simp add: e'_def voters_insert)
  moreover have mono: "?q" if "is_quorum (validator_set e) (voters (prevotes (state e)) r x)"
    using is_quorum_mono [OF that] by blast
  moreover have "locked_on (state e') r x \<longleftrightarrow> ?q"
    using pv mono by (auto simp: e'_def locked_on_def)
  ultimately have "prevoting e' h r x"
    using pv off by (auto simp: prevoting_def e'_def tables_inv_def slow_path_def current_position_def uniform_insert)
  moreover have "on_message ho e (Prevote h r (Some x) v) =
      (if \<not> locked_on (state e) r x \<and> locked_on (state e') r x then [SendPrecommit h r (Some x)] else [], e')"
    using msg \<open>locked_on (state e') r x \<longleftrightarrow> ?q\<close> by (simp add: e'_def)
  ultimately show ?thesis by (intro that [of e']) (simp_all add: e'_def)
qed

lemma prevoting_phase:
  assumes "orders_ok ho" and "prevoting e h r x" and "distinct vs"
    and "\<forall>v \<in> set vs. map_of (prevotes (state e)) (r, v) = None"
  shows "\<exists>e'. deliver ho e (map (Prevote h r (Some x)) vs) =
      (if \<not> locked_on (state e) r x \<and> locked_on (state e') r x then [SendPrecommit h r (Some x)] else [], e')
    \<and> prevoting e' h r x \<and> validator_set e' = validator_set e
    \<and> voters (prevotes (state e')) r x = voters (prevotes (state e)) r x \<union> set vs
    \<and> precommits (state e') = precommits (state e)"
  using assms(2-)
proof (induction vs arbitrary: e)
  case Nil
  then show ?case by auto
next
  case (Cons v vs)
  from Cons.prems(3) have fresh: "map_of (prevotes (state e)) (r, v) = None" by simp
  from prevoting_step [OF assms(1) Cons.prems(1) fresh] obtain e1
    where msg: "on_message ho e (Prevote h r (Some x) v) =
      (if \<not> locked_on (state e) r x \<and> locked_on (state e1) r x then [SendPrecommit h r (Some x)] else [], e1)"
      and e1: "prevoting e1 h r x" "validator_set e1 = validator_set e"
        "prevotes (state e1) = hm_insert (r, v) (Some x) (prevotes (state e))"
        "precommits (state e1) = precommits (state e)" .
  have grow: "voters (prevotes (state e1)) r x = insert v (voters (prevotes (state e)) r x)"
    using fresh by (simp add: e1(3) voters_insert)
  have "\<forall>w \<in> set vs. map_of (prevotes (state e1)) (r, w) = None"
    using Cons.prems(2,3) by (auto simp: e1(3))
  with Cons.prems(2) obtain e2 where rest: "deliver ho e1 (map (Prevote h r (Some x)) vs) =
      (if \<not> locked_on (state e1) r x \<and> locked_on (state e2) r x then [SendPrecommit h r (Some x)] else [], e2)"
    and e2: "prevoting e2 h r x" "validator_set e2 = validator_set e1"
      "voters (prevotes (state e2)) r x = voters (prevotes (state e1)) r x \<union> set vs"
      "precommits (state e2) = precommits (state e1)"
    using Cons.IH [OF e1(1)] by (metis distinct.simps(2))
  have "locked_on (state e) r x \<Longrightarrow> locked_on (state e1) r x"
    and "locked_on (state e1) r x \<Longrightarrow> locked_on (state e2) r x"
    using Cons.prems(1) e1 e2 grow is_quorum_mono unfolding prevoting_def
    by (metis subset_insertI, metis Un_upper1)
  then show ?case
    using msg rest e1 e2 grow by (intro exI [of _ e2]) auto
qed

lemma precommit_phase:
  assumes "orders_ok ho" and "tables_inv (state e)" and "rs_step (state e) \<noteq> Committed"
    and "current_position e h r" and "uniform (precommits (state e)) r x" and "distinct vs"
    and "\<forall>v \<in> set vs. map_of (precommits (state e)) (r, v) = None"
    and "\<not> is_quorum (validator_set e) (voters (precommits (state e)) r x)"
  shows "fst (deliver ho e (map (Precommit h r (Some x)) vs)) =
      (if is_quorum (validator_set e) (voters (precommits (state e)) r x \<union> set vs)
       then [BlockFinalized h x r] else [])"
  using assms(2-)
proof (induction vs arbitrary: e)
  case Nil
  then show ?case by simp
next
  case (Cons v vs)
  from Cons.prems(6) have fresh: "map_of (precommits (state e)) (r, v) = None" by simp
  let ?st = "(state e)\<lparr>precommits := hm_insert (r, v) (Some x) (precommits (state e))\<rparr>"
  note msg = on_message_precommit [OF assms(1) Cons.prems(1-3) fresh Cons.prems(4)]
  show ?case
  proof (cases "is_quorum (validator_set e) (insert v (voters (precommits (state e)) r x))")
    case True
    have ignore: "fst (deliver ho e1 ms) = []" if "rs_step (state e1) = Committed" for e1 ms
      using that by (induction ms) (simp_all add: on_message_def case_prod_unfold)
    have "is_quorum (validator_set e) (voters (precommits (state e)) r x \<union> set (v # vs))"
      using is_quorum_mono [OF True] by auto
    with True msg ignore show ?thesis
      by (simp add: case_prod_unfold)
  next
    case False
    let ?e = "e\<lparr>state := ?st\<rparr>"
    have "fst (deliver ho ?e (map (Precommit h r (Some x)) vs)) =
      (if is_quorum (validator_set ?e) (voters (precommits (state ?e)) r x \<union> set vs)
       then [BlockFinalized h x r] else [])"
      using Cons.prems False fresh
      by (intro Cons.IH)
        (auto simp: tables_inv_def current_position_def uniform_insert voters_insert)
    with False msg fresh show ?thesis
      by (simp add: case_prod_unfold voters_insert)
  qed
qed

text \<open>C6.  A round that goes well finalises.  After \<open>start_height h\<close>, with the fast path off, the
  leader's proposal, the prevotes of a quorum and their precommits make the engine ask
  for exactly one prevote and one precommit, both for the proposed block, and then report
  exactly that block final, whatever the order of the voters and of the hash tables.\<close>

theorem round_finalises:
  assumes "orders_ok ho" and "optimistic_threshold config = 0"
    and "is_quorum s (set vs)" and "distinct vs"
    and "e = snd (start_height (ConsensusEngine_new s config) h)"
  shows "fst (deliver ho e
      (Proposal h 0 x (leader_for_round s h 0) # map (Prevote h 0 (Some x)) vs @
       map (Precommit h 0 (Some x)) vs)) =
    [SendPrevote h 0 (Some x), SendPrecommit h 0 (Some x), BlockFinalized h x 0]"
proof -
  let ?e1 = "snd (on_message ho e (Proposal h 0 x (leader_for_round s h 0)))"
  have msg: "on_message ho e (Proposal h 0 x (leader_for_round s h 0)) = ([SendPrevote h 0 (Some x)], ?e1)"
    and s1: "validator_set ?e1 = s" and t1: "prevotes (state ?e1) = []" "precommits (state ?e1) = []"
    by (simp_all add: assms(5) start_height_def ConsensusEngine_new_def RoundState_new_def
        reset_for_height_def on_message_def on_proposal_def Let_def)
  have none: "\<not> is_quorum s {}"
    by (simp add: is_quorum_def unat_quorum_weight)
  have pv: "prevoting ?e1 h 0 x" and un: "\<not> locked_on (state ?e1) 0 x"
    using assms(2) none
    by (auto simp: assms(5) start_height_def ConsensusEngine_new_def RoundState_new_def
        reset_for_height_def on_message_def on_proposal_def Let_def prevoting_def tables_inv_def
        slow_path_def current_position_def uniform_def locked_on_def voters_def fp_reset_def
        FastPathAccumulator_new_def)
  obtain e2 where d2: "deliver ho ?e1 (map (Prevote h 0 (Some x)) vs) =
      (if \<not> locked_on (state ?e1) 0 x \<and> locked_on (state e2) 0 x then [SendPrecommit h 0 (Some x)] else [], e2)"
    and p2: "prevoting e2 h 0 x" "validator_set e2 = s" "voters (prevotes (state e2)) 0 x = set vs"
      "precommits (state e2) = []"
    using prevoting_phase [OF assms(1) pv assms(4)] s1 t1 by (auto simp: voters_def)
  have l2: "locked_on (state e2) 0 x"
    using p2 assms(3) by (simp add: prevoting_def)
  have "fst (deliver ho e2 (map (Precommit h 0 (Some x)) vs)) = [BlockFinalized h x 0]"
    using precommit_phase [OF assms(1), of e2 h 0 x vs] p2 assms(3,4) none
    by (simp add: prevoting_def uniform_def voters_def)
  moreover have "fst (on_message ho e (Proposal h 0 x (leader_for_round s h 0))) = [SendPrevote h 0 (Some x)]"
    by (metis msg fst_conv)
  ultimately show ?thesis
    using d2 un l2 by (simp add: deliver_append case_prod_unfold)
qed

text \<open>The fast path does not ask who votes: with an optimistic threshold of one, a single
  prevote under an index that is no validator's finalises any hash, though such a vote
  weighs nothing in the tallies.\<close>

theorem fast_path_accepts_strangers:
  assumes "optimistic_threshold config = 1" and "weight_of s v = 0"
    and "e = snd (start_height (ConsensusEngine_new s config) h)"
  shows "fst (on_message ho e (Prevote h 0 (Some x) v)) = [BlockFinalized h x 0]"
proof -
  have "fst (add_attestation (fast_path e) a) = Some (FastFinalized (build_fast_proof
      (recorded (fast_path e) a) (att_block_hash a) (received_at_ms a)))" for a
    using add_attestation_cases [of "fast_path e" a] assms(1)
    by (simp add: assms(3) start_height_def ConsensusEngine_new_def fp_reset_def
        FastPathAccumulator_new_def fp_inv_def round_start_def verdict_def attesters_def sat_sub_def)
  moreover have "rs_step (state e) = Propose" "rs_height (state e) = h" "rs_round (state e) = 0"
    "prevotes (state e) = []"
    by (simp_all add: assms(3) start_height_def reset_for_height_def)
  ultimately show ?thesis
    by (simp add: on_message_def on_prevote_def insert_prevote_def Let_def case_prod_unfold)
qed

section \<open>A validator on its own\<close>

text \<open>One validator of weight one, the setting of the concrete runs below.\<close>

definition solo_set :: ValidatorSet where
  "solo_set = ValidatorSet_new [\<lparr>val_index = 0, val_weight = 1, public_key = 0\<rparr>]"

definition solo_config :: FastPathConfig where
  "solo_config = \<lparr>quorum_threshold = 1, timeout_ms = 0, optimistic_threshold = 0\<rparr>"

definition plain_orders :: hash_orders where
  "plain_orders = \<lparr>ord_votes = (\<lambda>xs. xs), ord_tally = (\<lambda>xs. xs)\<rparr>"

lemma plain_orders_ok [simp]: "orders_ok plain_orders"
  by (simp add: orders_ok_def plain_orders_def)

lemma solo_facts [simp]:
  "weight_of solo_set 0 = 1" "quorum_weight solo_set = 1" "leader_for_round solo_set h r = 0"
  "weight_of solo_set 9 = 0" "is_quorum solo_set {0}" "optimistic_threshold solo_config = 0"
proof -
  show w: "weight_of solo_set 0 = 1" and "weight_of solo_set 9 = 0"
    by (simp_all add: solo_set_def weight_of_def vs_get_def)
  show q: "quorum_weight solo_set = 1"
    by (simp add: solo_set_def quorum_weight_def ValidatorSet_new_def sat_add_def sat_sub_def)
  show "leader_for_round solo_set h r = 0"
    by (simp add: solo_set_def leader_for_round_def)
  show "is_quorum solo_set {0}"
    by (simp add: is_quorum_def voting_weight_def w q)
  show "optimistic_threshold solo_config = 0" by (simp add: solo_config_def)
qed

theorem round_finalises_witness:
  "fst (deliver plain_orders (snd (start_height (ConsensusEngine_new solo_set solo_config) 1))
      [Proposal 1 0 7 0, Prevote 1 0 (Some 7) 0, Precommit 1 0 (Some 7) 0]) =
    [SendPrevote 1 0 (Some 7), SendPrecommit 1 0 (Some 7), BlockFinalized 1 7 0]"
  using round_finalises [of plain_orders solo_config solo_set "[0]" _ 1 7] by simp

theorem fast_path_accepts_strangers_witness:
  "weight_of solo_set 9 = 0 \<and>
   fst (on_message plain_orders
     (snd (start_height (ConsensusEngine_new solo_set (solo_config\<lparr>optimistic_threshold := 1\<rparr>)) 1))
     (Prevote 1 0 (Some 7) 9)) = [BlockFinalized 1 7 0]"
  using fast_path_accepts_strangers [of "solo_config\<lparr>optimistic_threshold := 1\<rparr>" solo_set 9] by simp

end
