(* ===== verification/Event_Loop.thy ===== *)
theory Event_Loop
  imports Consensus_Engine
begin

text \<open>
  What the node's event loop (\<open>process_consensus_events\<close> in
  \<open>crates/eth2077-node/src/bin/devnet.rs\<close>) does with the engine for one event: the
  message it broadcasts and feeds back to its own engine, the block it reports final, the
  events that follow.  The effects on the node's block store are in theory \<open>Devnet\<close>;
  they do not influence the engine.
\<close>

record event_effect =
  broadcasts :: "ConsensusMessage list"
  finalised :: "(u64 \<times> B256 \<times> u32) option"
  next_events :: "ConsensusEvent list"
  next_engine :: ConsensusEngine

definition cast_vote :: "hash_orders \<Rightarrow> ConsensusEngine \<Rightarrow> ConsensusMessage \<Rightarrow> event_effect" where
  "cast_vote ho e msg =
     (case on_message ho e msg of (evs, e') \<Rightarrow>
        \<lparr>broadcasts = [msg], finalised = None, next_events = evs, next_engine = e'\<rparr>)"

definition handle_event ::
    "hash_orders \<Rightarrow> u64 \<Rightarrow> ConsensusEngine \<Rightarrow> ConsensusEvent \<Rightarrow> event_effect" where
  "handle_event ho local_validator e ev =
     (case ev of
        NeedProposal height round leader \<Rightarrow>
          \<lparr>broadcasts = [], finalised = None, next_events = [], next_engine = e\<rparr>
      | RoundTimeout height round \<Rightarrow>
          \<lparr>broadcasts = [], finalised = None, next_events = [], next_engine = e\<rparr>
      | SendPrevote height round bh \<Rightarrow> cast_vote ho e (Prevote height round bh local_validator)
      | SendPrecommit height round bh \<Rightarrow> cast_vote ho e (Precommit height round bh local_validator)
      | BlockFinalized height bh round \<Rightarrow>
          (case start_height e (sat_add height 1) of (evs, e') \<Rightarrow>
             \<lparr>broadcasts = [], finalised = Some (height, bh, round), next_events = evs,
              next_engine = e'\<rparr>))"

section \<open>The loop ends\<close>

text \<open>
  Every event leads only to events later in the life of a round: a prevote to a precommit
  or a finalisation, a precommit to a finalisation, a finalisation to a request for a
  proposal.
\<close>

fun event_rank :: "ConsensusEvent \<Rightarrow> nat" where
  "event_rank (SendPrevote _ _ _) = 4"
| "event_rank (SendPrecommit _ _ _) = 3"
| "event_rank (BlockFinalized _ _ _) = 2"
| "event_rank (NeedProposal _ _ _) = 1"
| "event_rank (RoundTimeout _ _) = 1"

definition queue_rank :: "ConsensusEvent list \<Rightarrow> nat" where
  "queue_rank evs = (\<Sum>ev\<leftarrow>evs. event_rank ev)"

lemma queue_rank_simps [simp]:
  "queue_rank [] = 0" "queue_rank (ev # evs) = event_rank ev + queue_rank evs"
  "queue_rank (evs @ evs') = queue_rank evs + queue_rank evs'"
  by (simp_all add: queue_rank_def)

lemma prevote_quorum_rank: "queue_rank (fst (prevote_quorum ho e h r)) < 4"
  by (auto simp: prevote_quorum_def Let_def split: option.splits)

lemma on_prevote_rank: "queue_rank (fst (on_message ho e (Prevote h r b v))) < 4"
  using prevote_quorum_rank [of ho]
  by (simp add: on_message_def on_prevote_def insert_prevote_def case_prod_unfold Let_def
      split: option.split FastPathOutcome.split)

lemma on_precommit_rank: "queue_rank (fst (on_message ho e (Precommit h r b v))) < 3"
  by (simp add: on_message_def on_precommit_def insert_precommit_def Let_def split: option.split)

lemma handle_event_rank: "queue_rank (next_events (handle_event ho n e ev)) < event_rank ev"
  using on_prevote_rank [of ho e] on_precommit_rank [of ho e]
  by (cases ev) (simp_all add: handle_event_def cast_vote_def start_height_def case_prod_unfold)

text \<open>
  The loop pops the last event and appends what follows from it.  Its trace is the list
  of the messages it broadcasts and of the blocks it finalises, in order.
\<close>

function run_events ::
    "hash_orders \<Rightarrow> u64 \<Rightarrow> ConsensusEngine \<Rightarrow> ConsensusEvent list \<Rightarrow>
      ConsensusMessage list \<times> (u64 \<times> B256 \<times> u32) list \<times> ConsensusEngine" where
  "run_events ho n e evs =
     (if evs = [] then ([], [], e)
      else
        let eff = handle_event ho n e (last evs) in
        (case run_events ho n (next_engine eff) (butlast evs @ next_events eff) of
           (msgs, fins, e') \<Rightarrow>
             (broadcasts eff @ msgs,
              (case finalised eff of None \<Rightarrow> fins | Some f \<Rightarrow> f # fins), e')))"
  by pat_completeness auto

lemma queue_rank_pop:
  "evs \<noteq> [] \<Longrightarrow> queue_rank (butlast evs @ next_events (handle_event ho n e (last evs))) < queue_rank evs"
  using handle_event_rank [of ho n e "last evs"] queue_rank_simps(3) [of "butlast evs" "[last evs]"]
  by simp

termination run_events
  by (relation "measure (\<lambda>(ho, n, e, evs). queue_rank evs)") (simp_all add: queue_rank_pop del: queue_rank_simps)

declare run_events.simps [simp del]

end
