(* ===== verification/Consensus_Agreement.thy ===== *)
theory Consensus_Agreement
  imports Event_Loop
begin

text \<open>
  A network of engines.  Every honest validator runs the event loop of the node over its
  engine; messages may be lost, delayed, repeated and reordered, rounds may time out at
  any moment, and validators outside the honest set may say anything to anyone.  Which messages reach an
  engine is a parameter \<open>accepts\<close> of the network.  The node accepts everything: it takes the
  voter of a vote from the message and checks no signature.  The agreement theorem is about a network that is
  \<open>authentic\<close>, in which nobody votes under the name of an honest validator: there two honest validators never
  finalise different blocks at one height, in the same round or in different ones.  Without authentication they can,
  with no faulty validator at all (\<open>forged_votes_break_agreement\<close>).
\<close>

record node =
  engine :: ConsensusEngine
  queue :: "ConsensusEvent list"

record network =
  nodes :: "u64 \<Rightarrow> node"
  soup :: "ConsensusMessage set"
  decisions :: "(u64 \<times> u64 \<times> u32 \<times> B256) set"

text \<open>A network whose messages are authenticated: a vote under the name of an honest validator was sent by it.\<close>

definition authentic :: "u64 set \<Rightarrow> ConsensusMessage set \<Rightarrow> ConsensusMessage \<Rightarrow> bool" where
  "authentic honest sent m =
     (case m of
        Proposal h r bh p \<Rightarrow> True
      | Prevote h r b v \<Rightarrow> v \<in> honest \<longrightarrow> m \<in> sent
      | Precommit h r b v \<Rightarrow> v \<in> honest \<longrightarrow> m \<in> sent)"

definition net_start :: "ValidatorSet \<Rightarrow> FastPathConfig \<Rightarrow> (u64 \<Rightarrow> u64) \<Rightarrow> network" where
  "net_start s config h0 =
     \<lparr>nodes = (\<lambda>n. case start_height (ConsensusEngine_new s config) (h0 n) of
                     (evs, e) \<Rightarrow> \<lparr>engine = e, queue = evs\<rparr>),
      soup = {}, decisions = {}\<rparr>"

inductive net_step ::
    "u64 set \<Rightarrow> (ConsensusMessage set \<Rightarrow> ConsensusMessage \<Rightarrow> bool) \<Rightarrow> network \<Rightarrow> network \<Rightarrow> bool"
  for honest :: "u64 set" and accepts :: "ConsensusMessage set \<Rightarrow> ConsensusMessage \<Rightarrow> bool" where
  deliver: "n \<in> honest \<Longrightarrow> queue (nodes N n) = [] \<Longrightarrow> accepts (soup N) m \<Longrightarrow> orders_ok ho \<Longrightarrow>
    on_message ho (engine (nodes N n)) m = (evs, e') \<Longrightarrow>
    net_step honest accepts N (N\<lparr>nodes := (nodes N)(n := \<lparr>engine = e', queue = evs\<rparr>)\<rparr>)"
| timeout: "n \<in> honest \<Longrightarrow> queue (nodes N n) = [] \<Longrightarrow>
    on_timeout (engine (nodes N n)) = (evs, e') \<Longrightarrow>
    net_step honest accepts N (N\<lparr>nodes := (nodes N)(n := \<lparr>engine = e', queue = evs\<rparr>)\<rparr>)"
| process: "n \<in> honest \<Longrightarrow> queue (nodes N n) = evs @ [ev] \<Longrightarrow> orders_ok ho \<Longrightarrow>
    eff = handle_event ho n (engine (nodes N n)) ev \<Longrightarrow>
    net_step honest accepts N
      (N\<lparr>nodes := (nodes N)(n := \<lparr>engine = next_engine eff, queue = evs @ next_events eff\<rparr>),
         soup := soup N \<union> set (broadcasts eff),
         decisions := decisions N \<union> {(n, h, r, x) | h r x. finalised eff = Some (h, x, r)}\<rparr>)"

inductive net_reachable ::
    "ValidatorSet \<Rightarrow> FastPathConfig \<Rightarrow> (u64 \<Rightarrow> u64) \<Rightarrow> u64 set \<Rightarrow>
      (ConsensusMessage set \<Rightarrow> ConsensusMessage \<Rightarrow> bool) \<Rightarrow> network \<Rightarrow> bool"
  for s :: ValidatorSet and config :: FastPathConfig and h0 :: "u64 \<Rightarrow> u64" and honest :: "u64 set"
    and accepts :: "ConsensusMessage set \<Rightarrow> ConsensusMessage \<Rightarrow> bool" where
  init: "net_reachable s config h0 honest accepts (net_start s config h0)"
| step: "net_reachable s config h0 honest accepts N \<Longrightarrow> net_step honest accepts N N' \<Longrightarrow>
    net_reachable s config h0 honest accepts N'"

section \<open>What an honest validator has said\<close>

text \<open>
  The votes of a validator are the ones it has sent and the ones its loop is about to
  send; its claims are the blocks it has finalised or is about to.
\<close>

fun event_votes :: "u64 \<Rightarrow> ConsensusEvent \<Rightarrow> ConsensusMessage set" where
  "event_votes n (SendPrevote h r b) = {Prevote h r b n}"
| "event_votes n (SendPrecommit h r b) = {Precommit h r b n}"
| "event_votes n _ = {}"

definition queue_votes :: "u64 \<Rightarrow> ConsensusEvent list \<Rightarrow> ConsensusMessage set" where
  "queue_votes n evs = (\<Union>ev \<in> set evs. event_votes n ev)"

definition queue_claims :: "ConsensusEvent list \<Rightarrow> (u64 \<times> u32 \<times> B256) set" where
  "queue_claims evs = {(h, r, x). BlockFinalized h x r \<in> set evs}"

definition votes_by :: "u64 \<Rightarrow> ConsensusMessage set \<Rightarrow> ConsensusMessage set" where
  "votes_by n sent = {m \<in> sent. \<exists>h r b. m = Prevote h r b n \<or> m = Precommit h r b n}"

definition cast :: "network \<Rightarrow> u64 \<Rightarrow> ConsensusMessage set" where
  "cast N n = votes_by n (soup N) \<union> queue_votes n (queue (nodes N n))"

definition claims :: "network \<Rightarrow> u64 \<Rightarrow> (u64 \<times> u32 \<times> B256) set" where
  "claims N n = {(h, r, x). (n, h, r, x) \<in> decisions N} \<union> queue_claims (queue (nodes N n))"

definition passed :: "RoundState \<Rightarrow> u64 \<Rightarrow> u32 \<Rightarrow> bool" where
  "passed st h r \<longleftrightarrow> h < rs_height st \<or> h = rs_height st \<and> r < rs_round st"

section \<open>The invariant of one validator\<close>

text \<open>
  The last height is left out: \<open>start_height (height.saturating_add(1))\<close> starts it again
  and clears its lock.
\<close>

abbreviation (input) last_height :: u64 where
  "last_height \<equiv> - 1"

text \<open>A quorum whose honest members have all said \<open>mk\<close>.\<close>

definition certified :: "ValidatorSet \<Rightarrow> u64 set \<Rightarrow> ConsensusMessage set \<Rightarrow> (u64 \<Rightarrow> ConsensusMessage) \<Rightarrow> bool" where
  "certified s honest sent mk \<longleftrightarrow> (\<exists>Q. is_quorum s Q \<and> (\<forall>v \<in> Q \<inter> honest. mk v \<in> sent))"

definition backed_tables :: "u64 set \<Rightarrow> ConsensusMessage set \<Rightarrow> RoundState \<Rightarrow> bool" where
  "backed_tables honest sent st \<longleftrightarrow>
     (\<forall>r v b. v \<in> honest \<longrightarrow> map_of (prevotes st) (r, v) = Some b \<longrightarrow> Prevote (rs_height st) r b v \<in> sent) \<and>
     (\<forall>r v b. v \<in> honest \<longrightarrow> map_of (precommits st) (r, v) = Some b \<longrightarrow> Precommit (rs_height st) r b v \<in> sent)"

definition cast_bounded :: "ConsensusMessage set \<Rightarrow> RoundState \<Rightarrow> bool" where
  "cast_bounded C st \<longleftrightarrow> (\<forall>m \<in> C. msg_height m \<noteq> last_height \<longrightarrow>
     msg_height m < rs_height st \<or> msg_height m = rs_height st \<and> msg_round m \<le> rs_round st)"

definition lock_ok :: "ValidatorSet \<Rightarrow> RoundState \<Rightarrow> bool" where
  "lock_ok s st \<longleftrightarrow> (locked_round st = None \<longleftrightarrow> locked_hash st = None) \<and>
     (\<forall>r x. locked_round st = Some r \<longrightarrow> locked_hash st = Some x \<longrightarrow>
        r \<le> rs_round st \<and> is_quorum s (voters (prevotes st) r x))"

definition precommit_locked :: "ConsensusMessage set \<Rightarrow> RoundState \<Rightarrow> bool" where
  "precommit_locked C st \<longleftrightarrow> (\<forall>r b n. Precommit (rs_height st) r b n \<in> C \<longrightarrow> rs_height st \<noteq> last_height \<longrightarrow>
     (\<exists>lr x. locked_round st = Some lr \<and> locked_hash st = Some x \<and> r \<le> lr \<and> (r = lr \<longrightarrow> b = Some x)))"

definition precommit_unique :: "ConsensusMessage set \<Rightarrow> bool" where
  "precommit_unique C \<longleftrightarrow> (\<forall>h r b b' n. h \<noteq> last_height \<longrightarrow> Precommit h r b n \<in> C \<longrightarrow> Precommit h r b' n \<in> C \<longrightarrow> b = b')"

definition precommit_certified :: "ValidatorSet \<Rightarrow> u64 set \<Rightarrow> ConsensusMessage set \<Rightarrow> ConsensusMessage set \<Rightarrow> bool" where
  "precommit_certified s honest sent C \<longleftrightarrow> (\<forall>h r b n. Precommit h r b n \<in> C \<longrightarrow>
     (\<exists>x. b = Some x \<and> certified s honest sent (Prevote h r (Some x))))"

definition claims_certified :: "ValidatorSet \<Rightarrow> u64 set \<Rightarrow> ConsensusMessage set \<Rightarrow> (u64 \<times> u32 \<times> B256) set \<Rightarrow> bool" where
  "claims_certified s honest sent D \<longleftrightarrow>
     (\<forall>h r x. (h, r, x) \<in> D \<longrightarrow> certified s honest sent (Precommit h r (Some x)))"

definition engine_ok :: "ValidatorSet \<Rightarrow> ConsensusEngine \<Rightarrow> bool" where
  "engine_ok s e \<longleftrightarrow> validator_set e = s \<and> slow_path e \<and> tables_inv (state e) \<and> lock_ok s (state e)"

definition node_ok ::
    "ValidatorSet \<Rightarrow> u64 set \<Rightarrow> ConsensusMessage set \<Rightarrow> ConsensusMessage set \<Rightarrow>
      (u64 \<times> u32 \<times> B256) set \<Rightarrow> ConsensusEngine \<Rightarrow> bool" where
  "node_ok s honest sent C D e \<longleftrightarrow>
     engine_ok s e \<and> backed_tables honest sent (state e) \<and> cast_bounded C (state e) \<and>
     precommit_locked C (state e) \<and> precommit_unique C \<and> precommit_certified s honest sent C \<and>
     claims_certified s honest sent D"

lemma certified_mono: "certified s honest sent mk \<Longrightarrow> sent \<subseteq> sent' \<Longrightarrow> certified s honest sent' mk"
  by (auto simp: certified_def)

lemma node_ok_mono:
  assumes "node_ok s honest sent C D e" and "sent \<subseteq> sent'"
  shows "node_ok s honest sent' C D e"
proof -
  have "backed_tables honest sent' (state e)"
    using assms by (auto simp: node_ok_def backed_tables_def)
  moreover have "precommit_certified s honest sent' C" and "claims_certified s honest sent' D"
    using assms(1) certified_mono [OF _ assms(2)]
    unfolding node_ok_def precommit_certified_def claims_certified_def by blast+
  ultimately show ?thesis using assms(1) by (simp add: node_ok_def)
qed

lemma precommit_lockedD:
  assumes "precommit_locked C st" and "Precommit h r b n \<in> C" and "h = rs_height st" and "h \<noteq> last_height"
  obtains lr x where "locked_round st = Some lr" and "locked_hash st = Some x" and "r \<le> lr"
    and "r = lr \<longrightarrow> b = Some x"
  using assms unfolding precommit_locked_def by blast

lemma lock_okD:
  assumes "lock_ok s st" and "locked_round st = Some r" and "locked_hash st = Some x"
  shows "r \<le> rs_round st" and "is_quorum s (voters (prevotes st) r x)"
  using assms by (simp_all add: lock_ok_def)

lemma voters_insert_mono:
  "map_of t (r, v) = None \<Longrightarrow> voters t r' x \<subseteq> voters (hm_insert (r, v) b t) r' x"
  by (auto simp: voters_def)

text \<open>A quorum recorded in a backed table is certified.\<close>

lemma prevotes_certified:
  "backed_tables honest sent st \<Longrightarrow> is_quorum s (voters (prevotes st) r x) \<Longrightarrow>
     certified s honest sent (Prevote (rs_height st) r (Some x))"
  unfolding certified_def backed_tables_def voters_def by blast

lemma precommits_certified:
  "backed_tables honest sent st \<Longrightarrow> is_quorum s (voters (precommits st) r x) \<Longrightarrow>
     certified s honest sent (Precommit (rs_height st) r (Some x))"
  unfolding certified_def backed_tables_def voters_def by blast

lemma backed_effect:
  assumes "message_effect e m evs st'" and "authentic honest sent m" and "backed_tables honest sent (state e)"
  shows "backed_tables honest sent st'"
  using assms
  by (cases rule: message_effect.cases) (auto simp: backed_tables_def authentic_def current_position_def)

lemma lock_effect:
  assumes "message_effect e m evs st'" and "lock_ok s (state e)" and "validator_set e = s"
  shows "lock_ok s st'"
  using assms
proof (cases rule: message_effect.cases)
  case (prevoted h r v b)
  have "is_quorum s (voters (hm_insert (r, v) b (prevotes (state e))) r' x)"
    if "is_quorum s (voters (prevotes (state e)) r' x)" for r' x
    using is_quorum_mono [OF that voters_insert_mono] prevoted(5) by blast
  with prevoted assms(2) show ?thesis by (auto simp: lock_ok_def)
next
  case (locked h r v b x)
  with assms(3) show ?thesis by (auto simp: lock_ok_def current_position_def)
qed (auto simp: lock_ok_def)

text \<open>A new lock in the round of an old one is on the same hash.\<close>

lemma relock_same:
  assumes "lock_ok s (state e)" and "locked_round (state e) = Some r" and "locked_hash (state e) = Some x"
    and "map_of (prevotes (state e)) (r, v) = None"
    and "is_quorum s (voters (hm_insert (r, v) b (prevotes (state e))) r y)"
    and "weight_sum (validators s) < 2 * unat (quorum_weight s)"
  shows "x = y"
proof -
  have "is_quorum s (voters (hm_insert (r, v) b (prevotes (state e))) r x)"
    using lock_okD(2) [OF assms(1-3)] voters_insert_mono [OF assms(4)] by (rule is_quorum_mono)
  then show ?thesis using assms(5,6) by (rule quorums_same_hash)
qed

lemma precommit_locked_effect:
  assumes "message_effect e m evs st'" and "engine_ok s e" and "precommit_locked C (state e)"
    and "weight_sum (validators s) < 2 * unat (quorum_weight s)"
  shows "precommit_locked (C \<union> queue_votes n evs) st'"
  using assms(1)
proof (cases rule: message_effect.cases)
  case (locked h r v b x)
  have s: "validator_set e = s" and lk: "lock_ok s (state e)"
    using assms(2) by (simp_all add: engine_ok_def)
  have old: "r' \<le> r \<and> (r' = r \<longrightarrow> b' = Some x)"
    if "Precommit (rs_height (state e)) r' b' n' \<in> C" and "rs_height (state e) \<noteq> last_height" for r' b' n'
  proof -
    from precommit_lockedD [OF assms(3) that(1) refl that(2)] obtain lr y
      where l: "locked_round (state e) = Some lr" "locked_hash (state e) = Some y"
        "r' \<le> lr" "r' = lr \<longrightarrow> b' = Some y" .
    have "lr \<le> r" using lock_okD(1) [OF lk l(1,2)] locked(3) by (simp add: current_position_def)
    moreover have "b' = Some x" if "r' = r"
    proof -
      have "lr = r" using that l(3) \<open>lr \<le> r\<close> by simp
      with relock_same [OF lk _ l(2) locked(4)] l locked(5) assms(4) s that show ?thesis by simp
    qed
    ultimately show ?thesis using l(3) by auto
  qed
  have "queue_votes n evs \<subseteq> {Precommit h r (Some x) n}"
    using locked(6) by (auto simp: queue_votes_def)
  with locked old show ?thesis
    by (auto simp: precommit_locked_def current_position_def)
qed (use assms(3) in \<open>auto simp: precommit_locked_def queue_votes_def\<close>)

lemma effect_precommit:
  assumes "message_effect e m evs st'" and "Precommit h r b n' \<in> queue_votes n evs"
  shows "current_position e h r \<and> h = rs_height st' \<and> n' = n \<and> locked_round st' = Some r \<and>
    (\<exists>x. b = Some x \<and> is_quorum (validator_set e) (voters (prevotes st') r x))"
  using assms
  by (cases rule: message_effect.cases) (auto simp: queue_votes_def current_position_def)

lemma effect_prevote:
  assumes "message_effect e m evs st'" and "Prevote h r b n' \<in> queue_votes n evs"
  shows "current_position e h r \<and> n' = n \<and>
    (\<forall>z. locked_hash (state e) = Some z \<longrightarrow> b = Some z)"
  using assms
  by (cases rule: message_effect.cases) (auto simp: queue_votes_def current_position_def)

lemma effect_claim:
  assumes "message_effect e m evs st'" and "(h, r, x) \<in> queue_claims evs"
  shows "h = rs_height st' \<and> is_quorum (validator_set e) (voters (precommits st') r x)"
  using assms
  by (cases rule: message_effect.cases) (auto simp: queue_claims_def current_position_def)

lemma effect_cast_bounded:
  assumes "message_effect e m evs st'" and "cast_bounded C (state e)"
  shows "cast_bounded (C \<union> queue_votes n evs) st'"
proof -
  have "msg_height v = rs_height st' \<and> msg_round v = rs_round st'" if "v \<in> queue_votes n evs" for v
    using assms(1) that
    by (cases rule: message_effect.cases) (auto simp: queue_votes_def current_position_def)
  then show ?thesis
    using assms(2) message_effect_position [OF assms(1)] by (auto simp: cast_bounded_def)
qed

lemma precommit_unique_effect:
  assumes "message_effect e m evs st'" and "precommit_locked (C \<union> queue_votes n evs) st'"
    and "precommit_unique C"
  shows "precommit_unique (C \<union> queue_votes n evs)"
proof -
  let ?C = "C \<union> queue_votes n evs"
  have new: "b' = b" if h: "h \<noteq> last_height" and v: "Precommit h r b n' \<in> queue_votes n evs"
    and w: "Precommit h r b' n' \<in> ?C" for h r b b' n'
  proof -
    have eff: "h = rs_height st'" "locked_round st' = Some r"
      using effect_precommit [OF assms(1) v] by auto
    have "v' = locked_hash st'" if "Precommit h r v' n' \<in> ?C" for v'
      using precommit_lockedD [OF assms(2) that eff(1) h] eff(2)
      by (metis option.inject)
    with v w show ?thesis by blast
  qed
  show ?thesis
    unfolding precommit_unique_def
  proof (intro allI impI)
    fix h r b b' n'
    assume h: "h \<noteq> last_height" and m: "Precommit h r b n' \<in> ?C" "Precommit h r b' n' \<in> ?C"
    show "b = b'"
    proof (cases "Precommit h r b n' \<in> C \<and> Precommit h r b' n' \<in> C")
      case True
      with assms(3) h show ?thesis unfolding precommit_unique_def by blast
    next
      case False
      with m new [OF h] show ?thesis by (metis Un_iff)
    qed
  qed
qed

lemma node_ok_message:
  assumes "node_ok s honest sent C D e" and "authentic honest sent m" and "orders_ok ho"
    and "on_message ho e m = (evs, e')" and "weight_sum (validators s) < 2 * unat (quorum_weight s)"
  shows "node_ok s honest sent (C \<union> queue_votes n evs) (D \<union> queue_claims evs) e'"
proof -
  note ok = assms(1) [unfolded node_ok_def engine_ok_def]
  have eff: "message_effect e m evs (state e')"
    using on_message_effect [OF assms(3) _ _ assms(4)] ok by blast
  have cfg: "validator_set e' = s" "slow_path e'"
    using on_message_config [of e ho m] assms(4) ok by (simp_all add: same_config_def slow_path_def)
  have bt: "backed_tables honest sent (state e')"
    using backed_effect [OF eff assms(2)] ok by blast
  have "engine_ok s e'"
    using cfg message_effect_tables [OF eff] lock_effect [OF eff] ok by (simp add: engine_ok_def)
  moreover have "precommit_locked (C \<union> queue_votes n evs) (state e')"
    using assms(1,5) by (intro precommit_locked_effect [OF eff]) (simp_all add: node_ok_def)
  moreover from this have "precommit_unique (C \<union> queue_votes n evs)"
    using precommit_unique_effect [OF eff] ok by blast
  moreover have "precommit_certified s honest sent (C \<union> queue_votes n evs)"
    using ok effect_precommit [OF eff] prevotes_certified [OF bt, of s]
    unfolding precommit_certified_def by (metis Un_iff)
  moreover have "claims_certified s honest sent (D \<union> queue_claims evs)"
    using ok effect_claim [OF eff] precommits_certified [OF bt, of s]
    unfolding claims_certified_def by (metis Un_iff)
  moreover have "cast_bounded (C \<union> queue_votes n evs) (state e')"
    using effect_cast_bounded [OF eff] ok by blast
  ultimately show ?thesis
    using bt by (simp add: node_ok_def)
qed

lemma node_ok_timeout:
  assumes "node_ok s honest sent C D e" and "on_timeout e = (evs, e')"
  shows "node_ok s honest sent C D e'"
proof (cases "rs_step (state e) = Committed")
  case True
  with assms show ?thesis by (simp add: on_timeout_def)
next
  case False
  then have st: "state e' = advance_round (state e)" and "validator_set e' = validator_set e"
    and "fast_path e' = fp_reset (fast_path e)"
    using assms(2) by (auto simp: on_timeout_def Let_def)
  moreover have "rs_round (state e) \<le> rs_round (state e')"
    by (simp add: st advance_round_def sat_add_ge)
  ultimately show ?thesis
    using assms(1)
    by (auto simp: node_ok_def engine_ok_def slow_path_def tables_inv_def lock_ok_def advance_round_def
        backed_tables_def cast_bounded_def precommit_locked_def intro: order_trans)
qed

lemma sat_Suc_height:
  fixes h :: u64
  shows "h \<noteq> last_height \<Longrightarrow> h < sat_add h 1" and "sat_add last_height (1 :: u64) = last_height"
proof -
  have "unat h \<noteq> 2 ^ 64 - 1" if "h \<noteq> last_height"
    using that unat_minus_one_word_max [where 'a = 64] by (auto simp: word_unat_eq_iff)
  then show "h \<noteq> last_height \<Longrightarrow> h < sat_add h 1"
    using unat_le_max [of h] by (simp add: word_less_nat_alt sat_simps)
  show "sat_add last_height (1 :: u64) = last_height"
    by (simp add: word_unat_eq_iff sat_simps unat_minus_one_word_max)
qed

lemma height_bound_next:
  fixes h k :: u64
  assumes "k \<noteq> last_height" and "k \<le> h"
  shows "k < sat_add h 1"
proof (cases "h = last_height")
  case True
  with assms show ?thesis by (simp add: sat_Suc_height(2) le_less)
next
  case False
  with sat_Suc_height(1) [of h] assms show ?thesis by simp
qed

lemma node_ok_start:
  assumes "node_ok s honest sent C D e" and "start_height e (sat_add (rs_height (state e)) 1) = (evs, e')"
  shows "node_ok s honest sent C D e'"
proof -
  let ?h = "sat_add (rs_height (state e)) 1"
  have st: "state e' = reset_for_height (state e) ?h" and "validator_set e' = validator_set e"
    and "fast_path e' = fp_reset (fast_path e)"
    using assms(2) by (auto simp: start_height_def)
  moreover have below: "msg_height m < ?h" if "m \<in> C" and "msg_height m \<noteq> last_height" for m
    using assms(1) that height_bound_next by (force simp: node_ok_def cast_bounded_def)
  moreover from this have "precommit_locked C (state e')"
    unfolding precommit_locked_def st reset_for_height_def by fastforce
  ultimately show ?thesis
    using assms(1)
    by (auto simp: node_ok_def engine_ok_def slow_path_def tables_inv_def lock_ok_def
        reset_for_height_def backed_tables_def cast_bounded_def)
qed

section \<open>The invariant of the network\<close>

text \<open>
  Later votes follow an earlier finalisation.  Let \<open>S\<close> be honest validators who meet
  every quorum, and let each of them have precommitted \<open>x\<close> in round \<open>r0\<close> or not have passed
  that round yet.  Then none of them has prevoted anything but \<open>x\<close> in a later round.  The
  second alternative makes the statement an invariant.
\<close>

definition meets_quorums :: "ValidatorSet \<Rightarrow> u64 set \<Rightarrow> bool" where
  "meets_quorums s S \<longleftrightarrow> weight_sum (validators s) < voting_weight s S + unat (quorum_weight s)"

definition bound_to :: "network \<Rightarrow> u64 set \<Rightarrow> u64 \<Rightarrow> u32 \<Rightarrow> B256 \<Rightarrow> bool" where
  "bound_to N S h r x \<longleftrightarrow>
     (\<forall>n \<in> S. Precommit h r (Some x) n \<in> cast N n \<or> \<not> passed (state (engine (nodes N n))) h r)"

definition later_prevotes :: "network \<Rightarrow> u64 set \<Rightarrow> u64 \<Rightarrow> u32 \<Rightarrow> B256 \<Rightarrow> bool" where
  "later_prevotes N S h r0 x \<longleftrightarrow>
     (\<forall>n \<in> S. \<forall>r y. r0 < r \<longrightarrow> Prevote h r y n \<in> cast N n \<longrightarrow> y = Some x)"

definition follow :: "ValidatorSet \<Rightarrow> u64 set \<Rightarrow> network \<Rightarrow> bool" where
  "follow s honest N \<longleftrightarrow>
     (\<forall>h r0 x S. h \<noteq> last_height \<longrightarrow> S \<subseteq> honest \<longrightarrow> meets_quorums s S \<longrightarrow> bound_to N S h r0 x \<longrightarrow>
        later_prevotes N S h r0 x)"

text \<open>An event loop holds one event that matters, or only ones that do not.\<close>

definition queue_ok :: "ConsensusEvent list \<Rightarrow> RoundState \<Rightarrow> bool" where
  "queue_ok q st \<longleftrightarrow>
     (\<forall>ev \<in> set q. event_rank ev = 1) \<or>
     (\<exists>ev. q = [ev] \<and> (\<forall>h x r. ev = BlockFinalized h x r \<longrightarrow> h = rs_height st))"

definition net_inv :: "ValidatorSet \<Rightarrow> u64 set \<Rightarrow> network \<Rightarrow> bool" where
  "net_inv s honest N \<longleftrightarrow>
     (\<forall>n \<in> honest. node_ok s honest (soup N) (cast N n) (claims N n) (engine (nodes N n)) \<and>
        queue_ok (queue (nodes N n)) (state (engine (nodes N n)))) \<and>
     follow s honest N"

lemma meets_quorumsD:
  assumes "meets_quorums s S" and "is_quorum s Q"
  obtains n where "n \<in> S" and "n \<in> Q"
proof -
  have "0 < voting_weight s (S \<inter> Q)"
    using assms voting_weight_overlap [of s S Q] by (simp add: meets_quorums_def is_quorum_def)
  then have "S \<inter> Q \<noteq> {}" by (rule voting_weight_pos)
  then show ?thesis using that by blast
qed

lemma cast_sent: "m \<in> soup N \<Longrightarrow> m = Prevote h r b n \<or> m = Precommit h r b n \<Longrightarrow> m \<in> cast N n"
  by (auto simp: cast_def votes_by_def)

text \<open>What locks a bound validator is the hash it is bound to.\<close>

lemma bound_lock:
  assumes inv: "net_inv s honest N" and "S \<subseteq> honest" and meets: "meets_quorums s S"
    and bound: "bound_to N S h r0 x" and "h \<noteq> last_height" and n: "n \<in> S"
    and st: "st = state (engine (nodes N n))" and h: "h = rs_height st"
    and cast: "Precommit h r0 (Some x) n \<in> cast N n"
  shows "locked_hash st = Some x"
proof -
  have ok: "node_ok s honest (soup N) (cast N n) (claims N n) (engine (nodes N n))"
    using inv n assms(2) by (auto simp: net_inv_def)
  then have "precommit_locked (cast N n) st" and lk: "lock_ok s st" and bt: "backed_tables honest (soup N) st"
    by (simp_all add: node_ok_def engine_ok_def st)
  from precommit_lockedD [OF this(1) cast h assms(5)] obtain lr y
    where l: "locked_round st = Some lr" "locked_hash st = Some y" "r0 \<le> lr" "r0 = lr \<longrightarrow> Some x = Some y" .
  have "y = x" if "r0 < lr"
  proof -
    from meets_quorumsD [OF meets lock_okD(2) [OF lk l(1,2)]] obtain m
      where m: "m \<in> S" "m \<in> voters (prevotes st) lr y" .
    then have "Prevote h lr (Some y) m \<in> soup N"
      using bt assms(2) h by (auto simp: backed_tables_def voters_def)
    then have "Prevote h lr (Some y) m \<in> Consensus_Agreement.cast N m" by (rule cast_sent) simp
    moreover have "later_prevotes N S h r0 x"
      using inv assms(2,5) meets bound by (simp add: net_inv_def follow_def)
    ultimately show ?thesis using m(1) that unfolding later_prevotes_def by blast
  qed
  with l show ?thesis by (cases "r0 = lr") auto
qed

text \<open>What the votes a validator adds in one step may be.\<close>

definition new_votes_ok :: "ConsensusEngine \<Rightarrow> ConsensusMessage set \<Rightarrow> bool" where
  "new_votes_ok e V \<longleftrightarrow>
     (\<forall>h r b n. Precommit h r b n \<in> V \<longrightarrow> current_position e h r) \<and>
     (\<forall>h r b n. Prevote h r b n \<in> V \<longrightarrow> current_position e h r \<and>
        (\<forall>z. locked_hash (state e) = Some z \<longrightarrow> b = Some z))"

lemma follow_update:
  assumes inv: "net_inv s honest N" and "n \<in> honest" and e: "e = engine (nodes N n)"
    and others: "\<And>m. m \<noteq> n \<Longrightarrow> cast N' m = cast N m \<and> nodes N' m = nodes N m"
    and new: "cast N' n = cast N n \<union> V" "new_votes_ok e V"
    and mono: "\<And>h r. h \<noteq> last_height \<Longrightarrow> passed (state e) h r \<Longrightarrow> passed (state (engine (nodes N' n))) h r"
  shows "follow s honest N'"
  unfolding follow_def
proof (intro allI impI)
  fix h r0 x S
  assume h: "h \<noteq> last_height" and S: "S \<subseteq> honest" and meets: "meets_quorums s S" and bound': "bound_to N' S h r0 x"
  have "Precommit h r0 (Some x) n \<in> cast N n \<or> \<not> passed (state e) h r0" if "n \<in> S"
  proof (cases "Precommit h r0 (Some x) n \<in> V")
    case True
    with new(2) show ?thesis by (auto simp: new_votes_ok_def current_position_def passed_def)
  next
    case False
    with bound' that mono [OF h] new(1) show ?thesis unfolding bound_to_def by blast
  qed
  with bound' others have bound: "bound_to N S h r0 x"
    unfolding bound_to_def e by metis
  then have old: "later_prevotes N S h r0 x"
    using inv h S meets by (simp add: net_inv_def follow_def)
  have "y = Some x" if "n \<in> S" and r: "r0 < r" and v: "Prevote h r y n \<in> V" for r y
  proof -
    have pos: "current_position e h r" and follows: "\<forall>z. locked_hash (state e) = Some z \<longrightarrow> y = Some z"
      using new(2) v unfolding new_votes_ok_def by blast+
    then have "passed (state e) h r0" using r by (simp add: passed_def current_position_def)
    then have "Precommit h r0 (Some x) n \<in> cast N n"
      using bound that(1) unfolding bound_to_def e by blast
    then have "locked_hash (state e) = Some x"
      using pos by (intro bound_lock [OF inv S meets bound h that(1)]) (simp_all add: e current_position_def)
    with follows show ?thesis by blast
  qed
  with old others new(1) show "later_prevotes N' S h r0 x"
    unfolding later_prevotes_def by (metis Un_iff)
qed

lemma event_votes_by: "m \<in> event_votes n ev \<Longrightarrow> \<exists>h r b. m = Prevote h r b n \<or> m = Precommit h r b n"
  by (cases ev) auto

lemma cast_by: "m \<in> cast N n \<Longrightarrow> \<exists>h r b. m = Prevote h r b n \<or> m = Precommit h r b n"
  using event_votes_by unfolding cast_def votes_by_def queue_votes_def by blast

lemma net_inv_update:
  assumes inv: "net_inv s honest N" and n: "n \<in> honest" and e: "e = engine (nodes N n)"
    and N': "N' = N\<lparr>nodes := (nodes N)(n := \<lparr>engine = e', queue = q\<rparr>), soup := soup N \<union> B,
                    decisions := decisions N \<union> F\<rparr>"
    and B: "B \<subseteq> cast N n" and F: "fst ` F \<subseteq> {n}"
    and new: "cast N' n = cast N n \<union> V" "new_votes_ok e V"
    and mono: "\<And>h r. h \<noteq> last_height \<Longrightarrow> passed (state e) h r \<Longrightarrow> passed (state e') h r"
    and ok: "node_ok s honest (soup N \<union> B) (cast N' n) (claims N' n) e'" and q: "queue_ok q (state e')"
  shows "net_inv s honest N'"
proof -
  have "\<exists>h r b. m = Prevote h r b n \<or> m = Precommit h r b n" if "m \<in> B" for m
    using B that cast_by by blast
  then have others: "cast N' m = cast N m \<and> nodes N' m = nodes N m" if "m \<noteq> n" for m
    using that by (auto simp: cast_def votes_by_def N')
  have "claims N' m = claims N m" if "m \<noteq> n" for m
    using that F by (auto simp: claims_def N')
  then have "node_ok s honest (soup N') (cast N' m) (claims N' m) (engine (nodes N' m)) \<and>
      queue_ok (queue (nodes N' m)) (state (engine (nodes N' m)))" if "m \<in> honest" for m
  proof (cases "m = n")
    case True
    then show ?thesis using ok q by (simp add: N')
  next
    case False
    then have "node_ok s honest (soup N) (cast N' m) (claims N' m) (engine (nodes N' m)) \<and>
        queue_ok (queue (nodes N' m)) (state (engine (nodes N' m)))"
      using inv that others \<open>\<And>m. m \<noteq> n \<Longrightarrow> claims N' m = claims N m\<close> by (simp add: net_inv_def)
    then show ?thesis by (auto simp: N' intro: node_ok_mono)
  qed
  moreover have "follow s honest N'"
    using mono by (intro follow_update [OF inv n e others new]) (simp_all add: N')
  ultimately show ?thesis by (simp add: net_inv_def)
qed

lemma effect_new_votes: "message_effect e m evs st' \<Longrightarrow> new_votes_ok e (queue_votes n evs)"
  using effect_precommit [of e m evs st'] effect_prevote [of e m evs st']
  unfolding new_votes_ok_def by blast

lemma effect_queue_ok: "message_effect e m evs st' \<Longrightarrow> queue_ok evs st'"
  by (cases rule: message_effect.cases) (auto simp: queue_ok_def current_position_def)

lemma effect_passed: "message_effect e m evs st' \<Longrightarrow> passed (state e) h r \<Longrightarrow> passed st' h r"
  by (auto simp: passed_def dest: message_effect_position)

lemma new_votes_none [simp]: "new_votes_ok e {}"
  by (simp add: new_votes_ok_def)

lemma queue_votes_simps [simp]:
  "queue_votes n [] = {}" "queue_votes n (ev # evs) = event_votes n ev \<union> queue_votes n evs"
  "queue_votes n (evs @ evs') = queue_votes n evs \<union> queue_votes n evs'"
  by (auto simp: queue_votes_def)

lemma queue_claims_simps [simp]:
  "queue_claims [] = {}" "queue_claims (evs @ evs') = queue_claims evs \<union> queue_claims evs'"
  by (auto simp: queue_claims_def)

lemma inert_event: "event_rank ev = 1 \<Longrightarrow> event_votes n ev = {} \<and> ev \<noteq> BlockFinalized h x r"
  by (cases ev) auto

lemma inert_events:
  assumes "\<forall>ev \<in> set q. event_rank ev = 1"
  shows "queue_votes n q = {} \<and> queue_claims q = {}"
proof -
  have "event_votes n ev = {} \<and> ev \<noteq> BlockFinalized h x r" if "ev \<in> set q" for ev h x r
    using assms that by (intro inert_event) blast
  then show ?thesis unfolding queue_votes_def queue_claims_def by blast
qed

text \<open>A message taken in by a validator whose loop is idle apart from what it just sent.\<close>

lemma net_inv_message:
  assumes inv: "net_inv s honest N" and n: "n \<in> honest" and ho: "orders_ok ho"
    and meet: "weight_sum (validators s) < 2 * unat (quorum_weight s)"
    and B: "B \<subseteq> cast N n" and auth: "authentic honest (soup N \<union> B) m"
    and msg: "on_message ho (engine (nodes N n)) m = (evs, e')"
    and kept: "votes_by n B \<union> votes_by n (soup N) = cast N n" "queue_claims (queue (nodes N n)) = {}"
    and N': "N' = N\<lparr>nodes := (nodes N)(n := \<lparr>engine = e', queue = evs\<rparr>), soup := soup N \<union> B,
                    decisions := decisions N \<union> {}\<rparr>"
  shows "net_inv s honest N'"
proof -
  let ?e = "engine (nodes N n)"
  have ok: "node_ok s honest (soup N) (cast N n) (claims N n) ?e"
    using inv n by (simp add: net_inv_def)
  have eff: "message_effect ?e m evs (state e')"
    using on_message_effect [OF ho _ _ msg] ok by (simp add: node_ok_def engine_ok_def)
  have cast: "cast N' n = cast N n \<union> queue_votes n evs"
    unfolding kept(1) [symmetric] by (auto simp: cast_def votes_by_def N')
  have claims: "claims N' n = claims N n \<union> queue_claims evs"
    using kept(2) by (auto simp: claims_def N')
  have "node_ok s honest (soup N \<union> B) (cast N n) (claims N n) ?e"
    using ok by (rule node_ok_mono) simp
  from node_ok_message [OF this auth ho msg meet, of n]
  have "node_ok s honest (soup N \<union> B) (cast N' n) (claims N' n) e'"
    by (simp add: cast claims)
  then show ?thesis
    using effect_passed [OF eff]
    by (intro net_inv_update [OF inv n refl N' B _ cast effect_new_votes [OF eff] _ _ effect_queue_ok [OF eff]])
      simp_all
qed

lemma net_inv_deliver:
  assumes "net_inv s honest N" and "n \<in> honest" and "queue (nodes N n) = []"
    and "authentic honest (soup N) m" and "orders_ok ho"
    and "on_message ho (engine (nodes N n)) m = (evs, e')"
    and "weight_sum (validators s) < 2 * unat (quorum_weight s)"
  shows "net_inv s honest (N\<lparr>nodes := (nodes N)(n := \<lparr>engine = e', queue = evs\<rparr>)\<rparr>)"
  using assms
  by (intro net_inv_message [OF assms(1,2,5,7), of "{}" m evs e'])
    (simp_all add: cast_def votes_by_def)

lemma passed_timeout: "on_timeout e = (evs, e') \<Longrightarrow> passed (state e) h r \<Longrightarrow> passed (state e') h r"
  using sat_add_ge [of "rs_round (state e)" 1]
  by (auto simp: on_timeout_def Let_def passed_def advance_round_def split: if_splits)

lemma net_inv_timeout:
  assumes inv: "net_inv s honest N" and n: "n \<in> honest" and q: "queue (nodes N n) = []"
    and t: "on_timeout (engine (nodes N n)) = (evs, e')"
  shows "net_inv s honest (N\<lparr>nodes := (nodes N)(n := \<lparr>engine = e', queue = evs\<rparr>)\<rparr>)"
proof -
  let ?N = "N\<lparr>nodes := (nodes N)(n := \<lparr>engine = e', queue = evs\<rparr>)\<rparr>"
  have evs: "\<forall>ev \<in> set evs. event_rank ev = 1"
    using t by (auto simp: on_timeout_def Let_def split: if_splits)
  have cast: "cast ?N n = cast N n \<union> {}" and claims: "claims ?N n = claims N n"
    using inert_events [OF evs] q by (auto simp: cast_def claims_def)
  have "node_ok s honest (soup N \<union> {}) (cast ?N n) (claims ?N n) e'"
    using node_ok_timeout [OF _ t] inv n unfolding cast claims by (simp add: net_inv_def)
  then show ?thesis
    using passed_timeout [OF t] evs
    by (intro net_inv_update [where B = "{}" and F = "{}", OF inv n refl _ _ _ cast])
      (auto simp: queue_ok_def)
qed

lemma process_inert:
  assumes inv: "net_inv s honest N" and n: "n \<in> honest" and q: "queue (nodes N n) = evs @ [ev]"
    and inert: "\<forall>ev \<in> set (evs @ [ev]). event_rank ev = 1"
  shows "net_inv s honest (N\<lparr>nodes := (nodes N)(n := \<lparr>engine = engine (nodes N n), queue = evs\<rparr>)\<rparr>)"
proof -
  let ?N = "N\<lparr>nodes := (nodes N)(n := \<lparr>engine = engine (nodes N n), queue = evs\<rparr>)\<rparr>"
  have "\<forall>ev \<in> set evs. event_rank ev = 1" using inert by simp
  then have cast: "cast ?N n = cast N n \<union> {}" and claims: "claims ?N n = claims N n"
    using inert_events [OF inert] inert_events [of evs] q by (auto simp: cast_def claims_def)
  have "node_ok s honest (soup N \<union> {}) (cast ?N n) (claims ?N n) (engine (nodes N n))"
    using inv n unfolding cast claims by (simp add: net_inv_def)
  then show ?thesis
    using inert by (intro net_inv_update [where B = "{}" and F = "{}", OF inv n refl _ _ _ cast])
      (auto simp: queue_ok_def)
qed

lemma process_vote:
  assumes inv: "net_inv s honest N" and n: "n \<in> honest" and q: "queue (nodes N n) = [ev]"
    and ev: "ev = SendPrevote h r b \<and> m = Prevote h r b n \<or> ev = SendPrecommit h r b \<and> m = Precommit h r b n"
    and ho: "orders_ok ho" and meet: "weight_sum (validators s) < 2 * unat (quorum_weight s)"
    and msg: "on_message ho (engine (nodes N n)) m = (evs', e')"
  shows "net_inv s honest (N\<lparr>nodes := (nodes N)(n := \<lparr>engine = e', queue = evs'\<rparr>), soup := soup N \<union> {m}\<rparr>)"
proof (rule net_inv_message [OF inv n ho meet _ _ msg, where B = "{m}"])
  show "{m} \<subseteq> cast N n" using ev q by (auto simp: cast_def)
  show "authentic honest (soup N \<union> {m}) m" using ev by (auto simp: authentic_def)
  show "votes_by n {m} \<union> votes_by n (soup N) = cast N n"
    using ev q by (auto simp: cast_def votes_by_def)
  show "queue_claims (queue (nodes N n)) = {}" using ev q by (auto simp: queue_claims_def)
qed simp

lemma passed_start:
  "h \<noteq> last_height \<Longrightarrow> start_height e (sat_add (rs_height (state e)) 1) = (evs, e') \<Longrightarrow>
     passed (state e) h r \<Longrightarrow> passed (state e') h r"
  using height_bound_next [of h "rs_height (state e)"]
  by (auto simp: start_height_def passed_def reset_for_height_def)

lemma process_finalized:
  assumes inv: "net_inv s honest N" and n: "n \<in> honest" and q: "queue (nodes N n) = [BlockFinalized h x r]"
    and h: "h = rs_height (state (engine (nodes N n)))"
    and st: "start_height (engine (nodes N n)) (sat_add h 1) = (evs', e')"
  shows "net_inv s honest (N\<lparr>nodes := (nodes N)(n := \<lparr>engine = e', queue = evs'\<rparr>),
    decisions := decisions N \<union> {(n, h, r, x)}\<rparr>)"
proof -
  let ?N = "N\<lparr>nodes := (nodes N)(n := \<lparr>engine = e', queue = evs'\<rparr>),
    decisions := decisions N \<union> {(n, h, r, x)}\<rparr>"
  have inert: "\<forall>ev \<in> set evs'. event_rank ev = 1" using st by (auto simp: start_height_def)
  have cast: "cast ?N n = cast N n \<union> {}" and claims: "claims ?N n = claims N n"
    using inert_events [OF inert] q by (auto simp: cast_def claims_def queue_claims_def)
  have "node_ok s honest (soup N \<union> {}) (cast ?N n) (claims ?N n) e'"
    using node_ok_start [OF _ st [unfolded h]] inv n unfolding cast claims by (simp add: net_inv_def)
  then show ?thesis
    using passed_start [OF _ st [unfolded h]] inert
    by (intro net_inv_update [where B = "{}" and F = "{(n, h, r, x)}", OF inv n refl _ _ _ cast])
      (auto simp: queue_ok_def)
qed

lemma net_inv_process:
  assumes inv: "net_inv s honest N" and n: "n \<in> honest" and q: "queue (nodes N n) = evs @ [ev]"
    and ho: "orders_ok ho" and eff: "eff = handle_event ho n (engine (nodes N n)) ev"
    and meet: "weight_sum (validators s) < 2 * unat (quorum_weight s)"
  shows "net_inv s honest
      (N\<lparr>nodes := (nodes N)(n := \<lparr>engine = next_engine eff, queue = evs @ next_events eff\<rparr>),
         soup := soup N \<union> set (broadcasts eff),
         decisions := decisions N \<union> {(n, h, r, x) | h r x. finalised eff = Some (h, x, r)}\<rparr>)"
proof (cases "event_rank ev = 1")
  case True
  have "queue_ok (evs @ [ev]) (state (engine (nodes N n)))"
    using inv n q by (auto simp: net_inv_def)
  then have "\<forall>ev \<in> set (evs @ [ev]). event_rank ev = 1"
    using True by (auto simp: queue_ok_def)
  from process_inert [OF inv n q this] True show ?thesis
    by (cases ev) (simp_all add: eff handle_event_def)
next
  case False
  have "queue_ok (evs @ [ev]) (state (engine (nodes N n)))"
    using inv n q by (auto simp: net_inv_def)
  with False have evs: "evs = []"
    and fin: "\<And>h x r. ev = BlockFinalized h x r \<Longrightarrow> h = rs_height (state (engine (nodes N n)))"
    by (auto simp: queue_ok_def)
  have q1: "queue (nodes N n) = [ev]" using q evs by simp
  show ?thesis
  proof (cases ev)
    case (BlockFinalized h x r)
    from process_finalized [OF inv n q1 [unfolded BlockFinalized] fin [OF BlockFinalized]] show ?thesis
      by (simp add: eff handle_event_def BlockFinalized evs case_prod_unfold)
  next
    case (SendPrevote h r b)
    from process_vote [OF inv n q1 _ ho meet, of h r b] show ?thesis
      by (simp add: eff handle_event_def cast_vote_def SendPrevote evs case_prod_unfold)
  next
    case (SendPrecommit h r b)
    from process_vote [OF inv n q1 _ ho meet, of h r b] show ?thesis
      by (simp add: eff handle_event_def cast_vote_def SendPrecommit evs case_prod_unfold)
  qed (use False in simp_all)
qed

lemma net_inv_start:
  assumes "optimistic_threshold config = 0"
  shows "net_inv s honest (net_start s config h0)"
proof -
  let ?N = "net_start s config h0"
  have none: "cast ?N n = {}" "claims ?N n = {}" for n
    by (auto simp: cast_def votes_by_def claims_def queue_claims_def net_start_def start_height_def)
  then have "follow s honest ?N" by (simp add: follow_def later_prevotes_def)
  moreover have "node_ok s honest (soup ?N) {} {} (engine (nodes ?N n)) \<and>
      queue_ok (queue (nodes ?N n)) (state (engine (nodes ?N n)))" for n
    using assms
    by (simp add: net_start_def start_height_def ConsensusEngine_new_def reset_for_height_def
        node_ok_def engine_ok_def slow_path_def tables_inv_def lock_ok_def backed_tables_def
        cast_bounded_def precommit_locked_def precommit_unique_def precommit_certified_def
        claims_certified_def queue_ok_def FastPathAccumulator_new_def)
  ultimately show ?thesis by (simp add: net_inv_def none)
qed

lemma net_inv_reachable:
  assumes "net_reachable s config h0 honest (authentic honest) N" and "optimistic_threshold config = 0"
    and "weight_sum (validators s) < 2 * unat (quorum_weight s)"
  shows "net_inv s honest N"
  using assms(1)
proof induction
  case init
  then show ?case using assms(2) by (rule net_inv_start)
next
  case (step N N')
  from step.hyps(2) step.IH show ?case
  proof (cases rule: net_step.cases)
    case deliver
    with step.IH assms(3) show ?thesis by (simp add: net_inv_deliver)
  next
    case timeout
    with step.IH show ?thesis by (simp add: net_inv_timeout)
  next
    case process
    with step.IH assms(3) show ?thesis by (simp add: net_inv_process)
  qed
qed

section \<open>Agreement\<close>

lemma certified_meet:
  assumes "certified s honest sent mk" and "certified s honest sent mk'"
    and "weight_sum (validators s) + voting_weight s (- honest) < 2 * unat (quorum_weight s)"
  obtains n where "n \<in> honest" and "mk n \<in> sent" and "mk' n \<in> sent"
proof -
  obtain Q Q' where Q: "is_quorum s Q" "\<forall>v \<in> Q \<inter> honest. mk v \<in> sent"
    and Q': "is_quorum s Q'" "\<forall>v \<in> Q' \<inter> honest. mk' v \<in> sent"
    using assms(1,2) unfolding certified_def by blast
  have "voting_weight s (- honest) < voting_weight s (Q \<inter> Q')"
    using Q(1) Q'(1) assms(3) voting_weight_overlap [of s Q Q'] by (simp add: is_quorum_def)
  then have "\<not> Q \<inter> Q' \<subseteq> - honest"
    using voting_weight_mono [of "Q \<inter> Q'" "- honest" s] by auto
  then show ?thesis using Q(2) Q'(2) that by blast
qed

text \<open>After a certified precommit no other hash can be precommitted in a later round.\<close>

lemma later_round_same:
  assumes inv: "net_inv s honest N" and h: "h \<noteq> last_height"
    and byz: "weight_sum (validators s) + voting_weight s (- honest) < 2 * unat (quorum_weight s)"
    and x: "certified s honest (soup N) (Precommit h r (Some x))"
    and y: "certified s honest (soup N) (Prevote h r' (Some y))" and "r < r'"
  shows "x = y"
proof -
  obtain Q where Q: "is_quorum s Q" "\<forall>v \<in> Q \<inter> honest. Precommit h r (Some x) v \<in> soup N"
    using x unfolding certified_def by blast
  obtain P where P: "is_quorum s P" "\<forall>v \<in> P \<inter> honest. Prevote h r' (Some y) v \<in> soup N"
    using y unfolding certified_def by blast
  let ?S = "Q \<inter> honest"
  have "Q - - honest = ?S" by blast
  then have meets: "meets_quorums s ?S"
    using voting_weight_Diff [of s Q "- honest"] Q(1) byz by (simp add: meets_quorums_def is_quorum_def)
  from meets_quorumsD [OF meets P(1)] obtain n where n: "n \<in> ?S" "n \<in> P" .
  have "bound_to N ?S h r x"
    unfolding bound_to_def using Q(2) cast_sent by blast
  then have "later_prevotes N ?S h r x"
    using inv h meets by (simp add: net_inv_def follow_def)
  moreover have "Prevote h r' (Some y) n \<in> cast N n"
    using P(2) n by (intro cast_sent) auto
  ultimately show ?thesis using n(1) \<open>r < r'\<close> unfolding later_prevotes_def by blast
qed

lemma decisions_agree:
  assumes inv: "net_inv s honest N" and h: "h \<noteq> last_height"
    and byz: "weight_sum (validators s) + voting_weight s (- honest) < 2 * unat (quorum_weight s)"
    and x: "certified s honest (soup N) (Precommit h r (Some x))"
    and y: "certified s honest (soup N) (Precommit h r' (Some y))" and "r \<le> r'"
  shows "x = y"
proof -
  have ok: "node_ok s honest (soup N) (cast N n) (claims N n) (engine (nodes N n))" if "n \<in> honest" for n
    using inv that by (simp add: net_inv_def)
  show ?thesis
  proof (cases "r = r'")
    case True
    with certified_meet [OF x y byz] obtain n where n: "n \<in> honest"
      and m: "Precommit h r (Some x) n \<in> soup N" "Precommit h r (Some y) n \<in> soup N" by blast
    have "Precommit h r (Some x) n \<in> cast N n" and "Precommit h r (Some y) n \<in> cast N n"
      using m by (auto intro: cast_sent)
    then show ?thesis
      using ok [OF n] h unfolding node_ok_def precommit_unique_def by blast
  next
    case False
    from certified_meet [OF y y byz] obtain n where n: "n \<in> honest" "Precommit h r' (Some y) n \<in> soup N" .
    then have "Precommit h r' (Some y) n \<in> cast N n" by (auto intro: cast_sent)
    then have "certified s honest (soup N) (Prevote h r' (Some y))"
      using ok [OF n(1)] unfolding node_ok_def precommit_certified_def by blast
    moreover have "r < r'" using False \<open>r \<le> r'\<close> by (rule le_neq_trans [rotated])
    ultimately show ?thesis by (rule later_round_same [OF inv h byz x])
  qed
qed

lemma decisions_certified:
  assumes "net_reachable s config h0 honest (authentic honest) N" and "net_inv s honest N" and "(n, h, r, x) \<in> decisions N"
  shows "certified s honest (soup N) (Precommit h r (Some x))"
proof -
  have "n \<in> honest"
    using assms(1,3)
  proof (induction rule: net_reachable.induct)
    case init
    then show ?case by (simp add: net_start_def)
  next
    case (step N N')
    from step.hyps(2) step.IH step.prems show ?case
      by (cases rule: net_step.cases) auto
  qed
  moreover have "(h, r, x) \<in> claims N n" using assms(3) by (simp add: claims_def)
  ultimately show ?thesis
    using assms(2) unfolding net_inv_def node_ok_def claims_certified_def by blast
qed

text \<open>C1.  Agreement of the consensus engine, for an authenticated network.  Assume that nobody votes under the name
  of an honest validator (\<open>authentic\<close>): this is an assumption on the transport that the node itself does not
  enforce, since it takes the voter from the message and checks no signature, and without it the conclusion fails.
  Then, with total weight \<open>3 f + 1\<close>, faulty validators of weight at most \<open>f\<close> and the fast path off, no two honest
  validators ever finalise different blocks at the same height, in whichever rounds they do so, whatever the
  network delivers, loses or repeats, whenever timeouts fire, and whatever the faulty validators send in their own
  names.  Only the very last height is excepted, which the node starts over after finalising it.\<close>

theorem consensus_agreement:
  assumes "net_reachable s config h0 honest (authentic honest) N" and "optimistic_threshold config = 0"
    and "s = ValidatorSet_new vs" and "weight_sum vs = 3 * f + 1" and "weight_sum vs < 2 ^ 64"
    and "voting_weight s (- honest) \<le> f"
    and "(n, h, r, x) \<in> decisions N" and "(m, h, r', y) \<in> decisions N" and "h \<noteq> - 1"
  shows "x = y"
proof -
  have "unat (total_weight s) = 3 * f + 1"
    using assms(3-5) total_weight_new [of vs] by simp
  then have byz: "weight_sum (validators s) + voting_weight s (- honest) < 2 * unat (quorum_weight s)"
    using assms(3,4,6) by (simp add: unat_quorum_weight)
  then have inv: "net_inv s honest N"
    by (intro net_inv_reachable [OF assms(1,2)]) simp
  note c = decisions_certified [OF assms(1) inv]
  show ?thesis
  proof (cases "r \<le> r'")
    case True
    then show ?thesis using decisions_agree [OF inv assms(9) byz c [OF assms(7)] c [OF assms(8)]] by simp
  next
    case False
    then show ?thesis using decisions_agree [OF inv assms(9) byz c [OF assms(8)] c [OF assms(7)]] by simp
  qed
qed

section \<open>A run\<close>

text \<open>A validator on its own is proposed a block, votes for it twice and finalises it.\<close>

lemma solo_round:
  fixes e :: ConsensusEngine
  assumes "e = snd (start_height (ConsensusEngine_new solo_set solo_config) 1)"
  obtains e1 e2 e3 where
    "on_message plain_orders e (Proposal 1 0 7 0) = ([SendPrevote 1 0 (Some 7)], e1)"
    "on_message plain_orders e1 (Prevote 1 0 (Some 7) 0) = ([SendPrecommit 1 0 (Some 7)], e2)"
    "on_message plain_orders e2 (Precommit 1 0 (Some 7) 0) = ([BlockFinalized 1 7 0], e3)"
proof -
  obtain evs1 e1 where m1: "on_message plain_orders e (Proposal 1 0 7 0) = (evs1, e1)" by fastforce
  obtain evs2 e2 where m2: "on_message plain_orders e1 (Prevote 1 0 (Some 7) 0) = (evs2, e2)" by fastforce
  obtain evs3 e3 where m3: "on_message plain_orders e2 (Precommit 1 0 (Some 7) 0) = (evs3, e3)" by fastforce
  have e: "state e = \<lparr>rs_height = 1, rs_round = 0, rs_step = Propose, proposals = [], prevotes = [],
      precommits = [], locked_round = None, locked_hash = None\<rparr>" "validator_set e = solo_set"
    "slow_path e"
    by (simp_all add: assms start_height_def ConsensusEngine_new_def RoundState_new_def reset_for_height_def
        slow_path_def FastPathAccumulator_new_def)
  then have 1: "evs1 = [SendPrevote 1 0 (Some 7)]" "validator_set e1 = solo_set" "slow_path e1"
    "state e1 = (state e)\<lparr>proposals := [(0, 7)], rs_step := PrevoteStep\<rparr>"
    using m1 by (auto simp: on_message_def on_proposal_def slow_path_def)
  have 2: "evs2 = [SendPrecommit 1 0 (Some 7)]" "validator_set e2 = solo_set"
    "state e2 = (state e1)\<lparr>prevotes := [((0, 0), Some 7)], locked_round := Some 0,
      locked_hash := Some 7, rs_step := PrecommitStep\<rparr>"
    using on_message_prevote [of plain_orders e1 1 0 0 7] m2 1 e
    by (auto simp: tables_inv_def current_position_def uniform_def voters_def locked_on_def)
  have 3: "evs3 = [BlockFinalized 1 7 0]"
    using on_message_precommit [of plain_orders e2 1 0 0 7] m3 1 2 e
    by (simp add: tables_inv_def hm_inv_def current_position_def uniform_def voters_def)
  show ?thesis using that m1 m2 m3 1(1) 2(1) 3 by simp
qed

text \<open>Handling the one event in the queue of a node.\<close>

lemma process_event_step:
  assumes "net_reachable s config h0 honest accepts N" and "n \<in> honest"
    and "nodes N n = \<lparr>engine = e, queue = [ev]\<rparr>" and "eff = handle_event plain_orders n e ev"
  shows "\<exists>N'. net_reachable s config h0 honest accepts N' \<and>
    nodes N' n = \<lparr>engine = next_engine eff, queue = next_events eff\<rparr> \<and> (\<forall>m. m \<noteq> n \<longrightarrow> nodes N' m = nodes N m) \<and>
    decisions N \<subseteq> decisions N' \<and> (\<forall>h x r. finalised eff = Some (h, x, r) \<longrightarrow> (n, h, r, x) \<in> decisions N')"
proof -
  let ?N = "N\<lparr>nodes := (nodes N)(n := \<lparr>engine = next_engine eff, queue = [] @ next_events eff\<rparr>),
      soup := soup N \<union> set (broadcasts eff),
      decisions := decisions N \<union> {(n, h, r, x) | h r x. finalised eff = Some (h, x, r)}\<rparr>"
  have "net_reachable s config h0 honest accepts ?N"
    using assms(2-4) by (intro net_reachable.step [OF assms(1) net_step.process]) auto
  then show ?thesis by (intro exI [of _ ?N]) auto
qed

lemma solo_start:
  "nodes (net_start solo_set solo_config (\<lambda>_. 1)) n =
     \<lparr>engine = snd (start_height (ConsensusEngine_new solo_set solo_config) 1), queue = [NeedProposal 1 0 0]\<rparr>"
  by (simp add: net_start_def start_height_def ConsensusEngine_new_def)

lemma solo_finalises:
  "\<exists>N. net_reachable solo_set solo_config (\<lambda>_. 1) {0} (authentic {0}) N \<and> (0, 1, 0, 7) \<in> decisions N"
proof -
  let ?R = "net_reachable solo_set solo_config (\<lambda>_. 1) {0} (authentic {0})"
  define e where "e = snd (start_height (ConsensusEngine_new solo_set solo_config) 1)"
  obtain e1 e2 e3 where m: "on_message plain_orders e (Proposal 1 0 7 0) = ([SendPrevote 1 0 (Some 7)], e1)"
    "on_message plain_orders e1 (Prevote 1 0 (Some 7) 0) = ([SendPrecommit 1 0 (Some 7)], e2)"
    "on_message plain_orders e2 (Precommit 1 0 (Some 7) 0) = ([BlockFinalized 1 7 0], e3)"
    using solo_round [OF e_def] .
  note process = process_event_step [where n = 0 and honest = "{0}" and accepts = "authentic {0}", OF _ insertI1]
  from process [OF net_reachable.init solo_start refl] obtain N0
    where N0: "?R N0" "nodes N0 0 = \<lparr>engine = e, queue = []\<rparr>" by (auto simp: handle_event_def e_def)
  have "?R (N0\<lparr>nodes := (nodes N0)(0 := \<lparr>engine = e1, queue = [SendPrevote 1 0 (Some 7)]\<rparr>)\<rparr>)"
    using N0 m(1)
    by (intro net_reachable.step [OF N0(1) net_step.deliver [where m = "Proposal 1 0 7 0" and ho = plain_orders]])
      (simp_all add: authentic_def)
  from process [OF this _ refl] obtain N1
    where N1: "?R N1" "nodes N1 0 = \<lparr>engine = e2, queue = [SendPrecommit 1 0 (Some 7)]\<rparr>"
    using m(2) by (auto simp: handle_event_def cast_vote_def)
  from process [OF this refl] obtain N2
    where N2: "?R N2" "nodes N2 0 = \<lparr>engine = e3, queue = [BlockFinalized 1 7 0]\<rparr>"
    using m(3) by (auto simp: handle_event_def cast_vote_def)
  from process [OF this refl] show ?thesis
    by (auto simp: handle_event_def start_height_def)
qed

text \<open>The node as it is accepts every message.  A vote forged under the name of the only validator makes any node
  that has just started finalise any block; two honest nodes finalise different ones, and nobody is faulty.\<close>

lemma forged_vote_finalises:
  assumes "net_reachable solo_set solo_config (\<lambda>_. 1) honest (\<lambda>_ _. True) N" and "n \<in> honest"
    and "nodes N n = nodes (net_start solo_set solo_config (\<lambda>_. 1)) n"
  shows "\<exists>N'. net_reachable solo_set solo_config (\<lambda>_. 1) honest (\<lambda>_ _. True) N' \<and> (n, 1, 0, x) \<in> decisions N' \<and>
    decisions N \<subseteq> decisions N' \<and> (\<forall>m. m \<noteq> n \<longrightarrow> nodes N' m = nodes N m)"
proof -
  let ?R = "net_reachable solo_set solo_config (\<lambda>_. 1) honest (\<lambda>_ _. True)"
  define e where "e = snd (start_height (ConsensusEngine_new solo_set solo_config) 1)"
  obtain evs e' where m: "on_message plain_orders e (Precommit 1 0 (Some x) 0) = (evs, e')" by fastforce
  have "state e = \<lparr>rs_height = 1, rs_round = 0, rs_step = Propose, proposals = [], prevotes = [],
      precommits = [], locked_round = None, locked_hash = None\<rparr>" "validator_set e = solo_set"
    by (simp_all add: e_def start_height_def ConsensusEngine_new_def RoundState_new_def reset_for_height_def)
  then have evs: "evs = [BlockFinalized 1 x 0]"
    using on_message_precommit [of plain_orders e 1 0 0 x] m
    by (simp add: tables_inv_def hm_inv_def current_position_def uniform_def voters_def)
  from process_event_step [OF assms(1,2) trans [OF assms(3) solo_start] refl] obtain N0
    where N0: "?R N0" "nodes N0 n = \<lparr>engine = e, queue = []\<rparr>" "\<forall>m. m \<noteq> n \<longrightarrow> nodes N0 m = nodes N m"
      "decisions N \<subseteq> decisions N0"
    by (auto simp: handle_event_def e_def)
  let ?N1 = "N0\<lparr>nodes := (nodes N0)(n := \<lparr>engine = e', queue = evs\<rparr>)\<rparr>"
  have "?R ?N1"
    using N0 m assms(2)
    by (intro net_reachable.step [OF N0(1) net_step.deliver [where m = "Precommit 1 0 (Some x) 0" and ho = plain_orders]])
      simp_all
  moreover have "nodes ?N1 n = \<lparr>engine = e', queue = [BlockFinalized 1 x 0]\<rparr>" using evs by simp
  ultimately obtain N2 where N2: "?R N2" "\<forall>m. m \<noteq> n \<longrightarrow> nodes N2 m = nodes ?N1 m" "decisions ?N1 \<subseteq> decisions N2"
    "\<forall>h y r. finalised (handle_event plain_orders n e' (BlockFinalized 1 x 0)) = Some (h, y, r) \<longrightarrow> (n, h, r, y) \<in> decisions N2"
    using process_event_step [OF _ assms(2) _ refl] by blast
  have "finalised (handle_event plain_orders n e' (BlockFinalized 1 x 0)) = Some (1, x, 0)"
    by (simp add: handle_event_def start_height_def)
  with N2 N0(3,4) show ?thesis by (intro exI [of _ N2]) auto
qed

theorem forged_votes_break_agreement:
  "\<exists>N. net_reachable solo_set solo_config (\<lambda>_. 1) {0, 1} (\<lambda>_ _. True) N \<and> (0, 1, 0, 7) \<in> decisions N \<and>
     (1, 1, 0, 9) \<in> decisions N"
proof -
  let ?R = "net_reachable solo_set solo_config (\<lambda>_. 1) {0, 1} (\<lambda>_ _. True)"
  obtain N where N: "?R N" "(0, 1, 0, 7) \<in> decisions N"
    and same: "\<forall>m. m \<noteq> 0 \<longrightarrow> nodes N m = nodes (net_start solo_set solo_config (\<lambda>_. 1)) m"
    using forged_vote_finalises [OF net_reachable.init, of 0 "{0, 1}" 7] by auto
  from forged_vote_finalises [OF N(1), of 1 9] same N(2) show ?thesis by auto
qed

theorem consensus_agreement_witness:
  "\<exists>N. net_reachable solo_set solo_config (\<lambda>_. 1) {0} (authentic {0}) N \<and> (0, 1, 0, 7) \<in> decisions N \<and>
     (\<forall>m r y. (m, 1, r, y) \<in> decisions N \<longrightarrow> 7 = y)"
proof -
  obtain N where N: "net_reachable solo_set solo_config (\<lambda>_. 1) {0} (authentic {0}) N" "(0, 1, 0, 7) \<in> decisions N"
    using solo_finalises by blast
  have "voting_weight solo_set (- {0}) = 0"
    by (auto simp: voting_weight_def solo_set_def weight_of_def vs_get_def)
  then have "7 = y" if "(m, 1, r, y) \<in> decisions N" for m r y
    using consensus_agreement [OF N(1) _ solo_set_def _ _ _ N(2) that, of 0]
    by (simp add: weight_sum_def)
  with N show ?thesis by blast
qed

end
