(* ===== verification/Wire_Codec.thy ===== *)
theory Wire_Codec
  imports Prelude
begin

text \<open>
  The length-prefixed framing of \<open>crates/eth2077-p2p/src/codec.rs\<close>.  A frame is a
  big-endian length of four bytes and that many bytes of JSON.  The JSON text itself is
  \<open>serde_json\<close>'s: the parameter \<open>json\<close> holds its two directions for wire messages, and
  the one law used of it is that parsing what was printed gives the message back.
\<close>

datatype WireMessage =
    Hello u64 u64 u64 B256
  | NewBlock u64 bytes
  | NewTransaction bytes
  | ConsensusMsg bytes
  | GetBlocks u64 u32
  | Blocks "bytes list"
  | Ping u64
  | Pong u64

record wire_json =
  wire_to_vec :: "WireMessage \<Rightarrow> string + bytes"
  wire_from_slice :: "bytes \<Rightarrow> string + WireMessage"

definition wire_json_ok :: "wire_json \<Rightarrow> bool" where
  "wire_json_ok j \<longleftrightarrow> (\<forall>m bs. wire_to_vec j m = Inr bs \<longrightarrow> wire_from_slice j bs = Inr m)"

datatype codec_error =
    MessageTooLarge nat
  | InvalidJson string
  | EncodeFailed string

definition MAX_MESSAGE_SIZE :: nat where
  "MAX_MESSAGE_SIZE = 16 * 1024 * 1024"

definition decode ::
    "wire_json \<Rightarrow> bytes \<Rightarrow> (codec_error + WireMessage option) \<times> bytes" where
  "decode j src =
     (if length src < 4 then (Inr None, src)
      else
        let len = of_be (take 4 src) in
        if MAX_MESSAGE_SIZE < len then (Inl (MessageTooLarge len), src)
        else if length src < 4 + len then (Inr None, src)
        else
          let src1 = drop 4 src; payload = take len src1; src2 = drop len src1 in
          (case wire_from_slice j payload of
             Inl err \<Rightarrow> (Inl (InvalidJson err), src2)
           | Inr msg \<Rightarrow> (Inr (Some msg), src2)))"

definition encode :: "wire_json \<Rightarrow> WireMessage \<Rightarrow> bytes \<Rightarrow> (codec_error + unit) \<times> bytes" where
  "encode j item dst =
     (case wire_to_vec j item of
        Inl err \<Rightarrow> (Inl (EncodeFailed err), dst)
      | Inr payload \<Rightarrow>
          let len = length payload in
          if MAX_MESSAGE_SIZE < len then (Inl (MessageTooLarge len), dst)
          else (Inr (), dst @ be_bytes (of_nat len :: u32) @ payload))"

section \<open>One frame\<close>

lemma unat_frame_length: "n \<le> MAX_MESSAGE_SIZE \<Longrightarrow> unat (of_nat n :: u32) = n"
  by (simp add: unsigned_of_nat take_bit_nat_eq_self_iff MAX_MESSAGE_SIZE_def)

lemma frame_header: "n \<le> MAX_MESSAGE_SIZE \<Longrightarrow> of_be (be_bytes (of_nat n :: u32)) = n"
  by (simp add: be_bytes_def of_be_be_nat unat_frame_length) (simp add: MAX_MESSAGE_SIZE_def)

text \<open>The bytes a message takes on the wire, and when it can be sent.\<close>

definition sendable :: "wire_json \<Rightarrow> WireMessage \<Rightarrow> bool" where
  "sendable j m = (case wire_to_vec j m of Inl _ \<Rightarrow> False | Inr bs \<Rightarrow> length bs \<le> MAX_MESSAGE_SIZE)"

definition frame :: "wire_json \<Rightarrow> WireMessage \<Rightarrow> bytes" where
  "frame j m = snd (encode j m [])"

lemma encode_sendable: "sendable j m \<Longrightarrow> encode j m dst = (Inr (), dst @ frame j m)"
  by (simp add: sendable_def frame_def encode_def split: sum.splits)

lemma encode_refused:
  "\<not> sendable j m \<Longrightarrow> \<exists>err. encode j m dst = (Inl err, dst)"
  by (auto simp: sendable_def encode_def split: sum.splits)

lemma frame_nonempty: "sendable j m \<Longrightarrow> 4 \<le> length (frame j m)"
  by (simp add: sendable_def frame_def encode_def split: sum.splits)

lemma decode_frame:
  assumes "wire_json_ok j" and "sendable j m"
  shows "decode j (frame j m @ rest) = (Inr (Some m), rest)"
proof -
  obtain bs where bs: "wire_to_vec j m = Inr bs" "length bs \<le> MAX_MESSAGE_SIZE"
    using assms(2) by (auto simp: sendable_def split: sum.splits)
  then have "frame j m = be_bytes (of_nat (length bs) :: u32) @ bs"
    by (simp add: frame_def encode_def)
  then show ?thesis
    using bs assms(1) by (simp add: decode_def Let_def frame_header wire_json_ok_def)
qed

text \<open>A proper prefix of a frame decodes to nothing and is kept.\<close>

lemma decode_incomplete:
  assumes "sendable j m" and "length p < length (frame j m)" and "frame j m = p @ q"
  shows "decode j p = (Inr None, p)"
proof (cases "length p < 4")
  case True
  then show ?thesis by (simp add: decode_def)
next
  case False
  obtain bs where bs: "wire_to_vec j m = Inr bs" "length bs \<le> MAX_MESSAGE_SIZE"
    using assms(1) by (auto simp: sendable_def split: sum.splits)
  then have f: "frame j m = be_bytes (of_nat (length bs) :: u32) @ bs"
    by (simp add: frame_def encode_def)
  have "take 4 (p @ q) = be_bytes (of_nat (length bs) :: u32)"
    unfolding assms(3) [symmetric] f by simp
  with False have "take 4 p = be_bytes (of_nat (length bs) :: u32)" by simp
  moreover have "length p < 4 + length bs"
    using assms(2) unfolding f by simp
  ultimately show ?thesis
    using bs(2) False by (simp add: decode_def Let_def frame_header)
qed

section \<open>A stream of frames\<close>

lemma decode_shrinks:
  "decode j src = (Inr (Some m), rest) \<Longrightarrow> length rest < length src"
  by (auto simp: decode_def Let_def split: if_splits sum.splits)

text \<open>
  Reading from a connection: the buffer is decoded until no full frame is left, then more
  bytes arrive.  \<open>read_buffer\<close> is the inner loop and \<open>read_chunks\<close> the whole read of a
  list of chunks; the flag tells that a frame was refused, which ends the connection.
\<close>

function read_buffer :: "wire_json \<Rightarrow> bytes \<Rightarrow> WireMessage list \<times> bytes \<times> bool" where
  "read_buffer j buf =
     (case decode j buf of
        (Inr (Some m), rest) \<Rightarrow>
          (case read_buffer j rest of (ms, left, bad) \<Rightarrow> (m # ms, left, bad))
      | (Inr None, rest) \<Rightarrow> ([], rest, False)
      | (Inl _, rest) \<Rightarrow> ([], rest, True))"
  by pat_completeness auto
termination read_buffer
  by (relation "measure (length \<circ> snd)") (auto dest: decode_shrinks [OF sym])

declare read_buffer.simps [simp del]

fun read_chunks :: "wire_json \<Rightarrow> bytes \<Rightarrow> bytes list \<Rightarrow> WireMessage list \<times> bytes \<times> bool" where
  "read_chunks j buf [] = ([], buf, False)"
| "read_chunks j buf (c # cs) =
     (case read_buffer j (buf @ c) of
        (ms, left, True) \<Rightarrow> (ms, left, True)
      | (ms, left, False) \<Rightarrow>
          (case read_chunks j left cs of (ms', left', bad) \<Rightarrow> (ms @ ms', left', bad)))"

definition frames :: "wire_json \<Rightarrow> WireMessage list \<Rightarrow> bytes" where
  "frames j ms = concat (map (frame j) ms)"

lemma frames_simps [simp]: "frames j [] = []" "frames j (m # ms) = frame j m @ frames j ms"
  by (simp_all add: frames_def)

text \<open>A prefix of a stream of frames splits into whole frames and the start of the next.\<close>

lemma read_prefix:
  assumes "wire_json_ok j" and "list_all (sendable j) ms" and "frames j ms = p @ q"
  shows "\<exists>ms1 ms2 left. ms = ms1 @ ms2 \<and> read_buffer j p = (ms1, left, False) \<and> frames j ms2 = left @ q"
  using assms(2,3)
proof (induction ms arbitrary: p)
  case Nil
  then show ?case by (auto simp: read_buffer.simps [of j "[]"] decode_def)
next
  case (Cons m ms)
  show ?case
  proof (cases "length p < length (frame j m)")
    case True
    from Cons.prems(2) have "frame j m = p @ take (length (frame j m) - length p) q"
      using True by (auto simp: append_eq_append_conv2)
    with True Cons.prems(1) have "decode j p = (Inr None, p)"
      by (intro decode_incomplete) simp_all
    then show ?thesis
      using Cons.prems(2)
      by (intro exI [of _ "[]"] exI [of _ "m # ms"] exI [of _ p]) (simp add: read_buffer.simps [of j p])
  next
    case False
    then obtain p' where p: "p = frame j m @ p'" and "frames j ms = p' @ q"
      using Cons.prems(2) by (auto simp: append_eq_append_conv2)
    with Cons.IH [of p'] Cons.prems(1) obtain ms1 ms2 left
      where "ms = ms1 @ ms2" "read_buffer j p' = (ms1, left, False)" "frames j ms2 = left @ q" by auto
    then have "m # ms = (m # ms1) @ ms2 \<and> read_buffer j p = (m # ms1, left, False) \<and> frames j ms2 = left @ q"
      using decode_frame [OF assms(1), of m p'] Cons.prems(1) p
      by (simp add: read_buffer.simps [of j "frame j m @ p'"])
    then show ?thesis by blast
  qed
qed

lemma read_all:
  assumes "wire_json_ok j"
  shows "list_all (sendable j) ms \<Longrightarrow> read_buffer j (frames j ms) = (ms, [], False)"
proof (induction ms)
  case Nil
  then show ?case by (simp add: read_buffer.simps [of j "[]"] decode_def)
next
  case (Cons m ms)
  then show ?case
    using decode_frame [OF assms, of m "frames j ms"]
    by (simp add: read_buffer.simps [of j "frame j m @ frames j ms"])
qed

lemma read_rest: "read_buffer j p = (ms, left, False) \<Longrightarrow> read_buffer j left = ([], left, False)"
proof (induction j p arbitrary: ms rule: read_buffer.induct)
  case (1 j buf)
  show ?case
  proof (cases "decode j buf")
    case (Pair out rest)
    consider m where "out = Inr (Some m)" | "out = Inr None" | err where "out = Inl err"
      by (metis not_None_eq sumE)
    then show ?thesis
    proof cases
      case 1
      with Pair "1.prems" obtain ms' where "read_buffer j rest = (ms', left, False)"
        by (auto simp: read_buffer.simps [of j buf] split: prod.splits)
      with "1.IH" Pair 1 show ?thesis by metis
    next
      case 2
      then have "left = rest" and "rest = buf"
        using Pair "1.prems" by (auto simp: read_buffer.simps [of j buf] decode_def Let_def split: if_splits sum.splits)
      with Pair 2 show ?thesis by (simp add: read_buffer.simps [of j buf])
    next
      case 3
      with Pair "1.prems" show ?thesis by (simp add: read_buffer.simps [of j buf])
    qed
  qed
qed

text \<open>C7.  Framing survives any fragmentation: whatever sequence of chunks the bytes of a list of
  sent messages arrive in, the receiver decodes exactly those messages in order, refuses
  nothing and has nothing left over.\<close>

theorem stream_reassembly:
  assumes "wire_json_ok j" and "list_all (sendable j) ms" and "concat chunks = frames j ms"
  shows "read_chunks j [] chunks = (ms, [], False)"
proof -
  have "read_chunks j buf cs = (ms, [], False)"
    if "list_all (sendable j) ms" and "frames j ms = buf @ concat cs" and "read_buffer j buf = ([], buf, False)"
    for buf cs ms
    using that
  proof (induction cs arbitrary: buf ms)
    case Nil
    then have "(ms, [], False) = ([], buf, False)"
      using read_all [OF assms(1) Nil.prems(1)] by simp
    then show ?case by simp
  next
    case (Cons c cs)
    then have "frames j ms = (buf @ c) @ concat cs" by simp
    from read_prefix [OF assms(1) Cons.prems(1) this] obtain ms1 ms2 left
      where split: "ms = ms1 @ ms2" "read_buffer j (buf @ c) = (ms1, left, False)" "frames j ms2 = left @ concat cs"
      by blast
    have "read_chunks j left cs = (ms2, [], False)"
      using Cons.prems(1) split read_rest [OF split(2)] by (intro Cons.IH) simp_all
    with split show ?case by simp
  qed
  from this [OF assms(2), of "[]" chunks] assms(3) show ?thesis
    by (simp add: read_buffer.simps [of j "[]"] decode_def)
qed

text \<open>Bounds of the decoder: it consumes nothing until a whole frame is there, a length above
  the limit is refused at once, and a buffer that is neither decoded nor refused holds at
  most a header and one frame of the maximal size, so it cannot be made to grow for ever.\<close>

theorem decode_bounded:
  "case decode j src of
     (Inr None, rest) \<Rightarrow> rest = src \<and> length src < 4 + MAX_MESSAGE_SIZE
   | (Inr (Some m), rest) \<Rightarrow>
       (\<exists>payload. length payload \<le> MAX_MESSAGE_SIZE \<and> wire_from_slice j payload = Inr m \<and>
          src = take 4 src @ payload @ rest)
   | (Inl (MessageTooLarge n), rest) \<Rightarrow> rest = src \<and> MAX_MESSAGE_SIZE < n
   | (Inl err, rest) \<Rightarrow> length rest + 4 \<le> length src"
proof -
  let ?n = "of_be (take 4 src)"
  have split: "src = take 4 src @ take n (drop 4 src) @ drop n (drop 4 src)" for n
    by (simp only: append_take_drop_id)
  consider "length src < 4" | "\<not> length src < 4" "MAX_MESSAGE_SIZE < ?n"
    | "\<not> length src < 4" "?n \<le> MAX_MESSAGE_SIZE" "length src < 4 + ?n"
    | "\<not> length src < 4" "?n \<le> MAX_MESSAGE_SIZE" "4 + ?n \<le> length src"
    by linarith
  then show ?thesis
  proof cases
    case 4
    have "\<exists>payload. length payload \<le> MAX_MESSAGE_SIZE \<and>
        wire_from_slice j payload = wire_from_slice j (take ?n (drop 4 src)) \<and>
        src = take 4 src @ payload @ drop ?n (drop 4 src)"
      using split [of ?n] 4(2) by (intro exI [of _ "take ?n (drop 4 src)"]) simp
    with 4 show ?thesis
      by (cases "wire_from_slice j (take ?n (drop 4 src))") (simp_all add: decode_def Let_def)
  qed (simp_all add: decode_def Let_def MAX_MESSAGE_SIZE_def)
qed

text \<open>A JSON codec for the concrete runs: it prints a ping as its nonce and nothing else.\<close>

definition ping_json :: wire_json where
  "ping_json =
     \<lparr>wire_to_vec = (\<lambda>m. case m of Ping n \<Rightarrow> Inr (be_bytes n) | _ \<Rightarrow> Inl ''unsupported''),
      wire_from_slice = (\<lambda>bs. Inr (Ping (of_nat (of_be bs))))\<rparr>"

lemma ping_json_ok: "wire_json_ok ping_json"
proof -
  have "of_nat (of_be (be_bytes n)) = n" for n :: u64
    by (simp add: of_be_be_bytes)
  then show ?thesis
    by (auto simp: wire_json_ok_def ping_json_def split: WireMessage.splits)
qed

lemma ping_sendable: "list_all (sendable ping_json) [Ping 1, Ping 2]"
  by (simp add: sendable_def ping_json_def MAX_MESSAGE_SIZE_def)

theorem stream_reassembly_witness:
  "read_chunks ping_json [] [take 5 (frames ping_json [Ping 1, Ping 2]), drop 5 (frames ping_json [Ping 1, Ping 2])] =
     ([Ping 1, Ping 2], [], False)"
  by (rule stream_reassembly [OF ping_json_ok ping_sendable])
    (simp only: concat.simps append_take_drop_id append_Nil2)

end
