(* ===== verification/Gossip.thy ===== *)
theory Gossip
  imports Canonical Wire_Codec
begin

text \<open>
  The relay caches of the gossip layer: the block and transaction caches of
  \<open>crates/eth2077-p2p/src/gossip.rs\<close> and the consensus-message cache of
  \<open>crates/eth2077-p2p/src/node.rs\<close>.  The three share one eviction loop, which runs for
  ever if the queue is empty while the set is too large: it is a partial function here,
  and that it returns is proved.  The three caches are three interpretations of one
  contract.
\<close>

section \<open>The eviction loop\<close>

partial_function (option) evict_while :: "nat \<Rightarrow> B256 set \<Rightarrow> B256 list \<Rightarrow> (B256 set \<times> B256 list) option" where
  "evict_while max_size seen order =
     (if card seen \<le> max_size then Some (seen, order)
      else case order of
        [] \<Rightarrow> evict_while max_size seen []
      | oldest # rest \<Rightarrow> evict_while max_size (seen - {oldest}) rest)"

text \<open>The latest entries of a list, at most \<open>n\<close> of them.\<close>

definition latest :: "nat \<Rightarrow> 'a list \<Rightarrow> 'a list" where
  "latest n xs = drop (length xs - n) xs"

lemma latest_Cons: "n \<le> length xs \<Longrightarrow> latest n (x # xs) = latest n xs"
  by (simp add: latest_def Suc_diff_le)

lemma latest_short: "length xs \<le> n \<Longrightarrow> latest n xs = xs"
  by (simp add: latest_def)

lemma length_latest: "length (latest n xs) \<le> n"
  by (simp add: latest_def)

lemma distinct_latest: "distinct xs \<Longrightarrow> distinct (latest n xs)"
  by (simp add: latest_def distinct_drop)

lemma evict_while_latest:
  "distinct order \<Longrightarrow> evict_while n (set order) order = Some (set (latest n order), latest n order)"
proof (induction order)
  case Nil
  then show ?case by (simp add: evict_while.simps latest_def)
next
  case (Cons h order)
  have card: "card (set (h # order)) = Suc (length order)"
    using Cons.prems by (simp add: distinct_card)
  show ?case
  proof (cases "Suc (length order) \<le> n")
    case True
    with card show ?thesis by (subst evict_while.simps) (simp add: latest_short)
  next
    case False
    have "set (h # order) - {h} = set order" using Cons.prems by auto
    with False card Cons show ?thesis
      by (subst evict_while.simps) (simp add: latest_Cons)
  qed
qed

section \<open>The contract of a relay cache\<close>

locale relay_cache =
  fixes recent :: "'s \<Rightarrow> B256 list"
    and capacity :: "'s \<Rightarrow> nat"
    and cache_ok :: "'s \<Rightarrow> bool"
    and relay :: "'s \<Rightarrow> B256 \<Rightarrow> (bool \<times> 's) option"
  assumes known: "cache_ok s \<Longrightarrow> h \<in> set (recent s) \<Longrightarrow> relay s h = Some (False, s)"
    and fresh: "cache_ok s \<Longrightarrow> h \<notin> set (recent s) \<Longrightarrow>
      \<exists>s'. relay s h = Some (True, s') \<and> recent s' = latest (capacity s) (recent s @ [h]) \<and>
        capacity s' = capacity s \<and> cache_ok s'"
    and bounded: "cache_ok s \<Longrightarrow> distinct (recent s) \<and> length (recent s) \<le> capacity s"
begin

fun relay_all :: "'s \<Rightarrow> B256 list \<Rightarrow> (bool list \<times> 's) option" where
  "relay_all s [] = Some ([], s)"
| "relay_all s (h # hs) =
     (case relay s h of None \<Rightarrow> None
      | Some (b, s') \<Rightarrow>
          (case relay_all s' hs of None \<Rightarrow> None | Some (bs, s'') \<Rightarrow> Some (b # bs, s'')))"

lemma relay_returns: "cache_ok s \<Longrightarrow> \<exists>s'. relay s h = Some (h \<notin> set (recent s), s') \<and> cache_ok s'"
  using known fresh by (cases "h \<in> set (recent s)") fastforce+

text \<open>While what circulates fits in the cache, each item is relayed when it first comes in.\<close>

lemma relay_once:
  assumes "cache_ok s" and "card (set (recent s) \<union> set hs) \<le> capacity s"
  shows "\<exists>s'. relay_all s hs = Some
      (map (\<lambda>i. hs ! i \<notin> set (recent s) \<union> set (take i hs)) [0..<length hs], s') \<and> cache_ok s'"
  using assms
proof (induction hs arbitrary: s)
  case Nil
  then show ?case by simp
next
  case (Cons h hs)
  obtain s1 where s1: "relay s h = Some (h \<notin> set (recent s), s1)" "cache_ok s1"
    "set (recent s1) = insert h (set (recent s))" "capacity s1 = capacity s"
  proof (cases "h \<in> set (recent s)")
    case True
    with Cons.prems known show ?thesis by (intro that [of s]) auto
  next
    case False
    obtain s' where s': "relay s h = Some (True, s')" "recent s' = latest (capacity s) (recent s @ [h])"
      "capacity s' = capacity s" "cache_ok s'"
      using fresh [OF Cons.prems(1) False] by blast
    have "Suc (length (recent s)) = card (insert h (set (recent s)))"
      using bounded [OF Cons.prems(1)] False by (simp add: distinct_card)
    also have "\<dots> \<le> card (set (recent s) \<union> set (h # hs))"
      by (rule card_mono) auto
    finally have "length (recent s @ [h]) \<le> capacity s"
      using Cons.prems(2) by simp
    then have "recent s' = recent s @ [h]" by (simp add: s' latest_short)
    with s' False show ?thesis by (intro that [of s']) auto
  qed
  have "card (set (recent s1) \<union> set hs) \<le> capacity s1"
    using Cons.prems(2) by (simp add: s1)
  from Cons.IH [OF s1(2) this] obtain s2 where s2: "relay_all s1 hs = Some
      (map (\<lambda>i. hs ! i \<notin> set (recent s1) \<union> set (take i hs)) [0..<length hs], s2)" "cache_ok s2" by blast
  have "map (\<lambda>i. (h # hs) ! i \<notin> set (recent s) \<union> set (take i (h # hs))) [0..<length (h # hs)] =
      (h \<notin> set (recent s)) # map (\<lambda>i. hs ! i \<notin> set (recent s1) \<union> set (take i hs)) [0..<length hs]"
    unfolding length_Cons upt_conv_Cons [OF zero_less_Suc] map_Suc_upt [symmetric] s1(3)
    by (auto simp: comp_def)
  with s1 s2 show ?case by simp
qed

end

section \<open>Blocks and transactions\<close>

record GossipEngine =
  seen_cache_size :: nat
  seen_blocks :: "B256 set"
  seen_txs :: "B256 set"
  seen_block_order :: "B256 list"
  seen_tx_order :: "B256 list"

definition GossipEngine_new :: "nat \<Rightarrow> GossipEngine" where
  "GossipEngine_new cache_size =
     \<lparr>seen_cache_size = cache_size, seen_blocks = {}, seen_txs = {}, seen_block_order = [],
      seen_tx_order = []\<rparr>"

definition GossipEngine_default :: GossipEngine where
  "GossipEngine_default = GossipEngine_new 1024"

definition evict_old_blocks :: "GossipEngine \<Rightarrow> GossipEngine option" where
  "evict_old_blocks g =
     map_option (\<lambda>(seen, order). g\<lparr>seen_blocks := seen, seen_block_order := order\<rparr>)
       (evict_while (seen_cache_size g) (seen_blocks g) (seen_block_order g))"

definition evict_old_txs :: "GossipEngine \<Rightarrow> GossipEngine option" where
  "evict_old_txs g =
     map_option (\<lambda>(seen, order). g\<lparr>seen_txs := seen, seen_tx_order := order\<rparr>)
       (evict_while (seen_cache_size g) (seen_txs g) (seen_tx_order g))"

definition should_relay_block :: "GossipEngine \<Rightarrow> B256 \<Rightarrow> (bool \<times> GossipEngine) option" where
  "should_relay_block g h =
     (if h \<in> seen_blocks g then Some (False, g)
      else map_option (Pair True)
        (evict_old_blocks (g\<lparr>seen_blocks := insert h (seen_blocks g),
           seen_block_order := seen_block_order g @ [h]\<rparr>)))"

definition should_relay_tx :: "GossipEngine \<Rightarrow> B256 \<Rightarrow> (bool \<times> GossipEngine) option" where
  "should_relay_tx g h =
     (if h \<in> seen_txs g then Some (False, g)
      else map_option (Pair True)
        (evict_old_txs (g\<lparr>seen_txs := insert h (seen_txs g),
           seen_tx_order := seen_tx_order g @ [h]\<rparr>)))"

text \<open>\<open>serde_json::to_vec\<close> on blocks and transactions.\<close>

record gossip_json =
  block_to_vec :: "Block \<Rightarrow> string + bytes"
  tx_to_vec :: "Transaction \<Rightarrow> string + bytes"

definition on_new_block ::
    "ext \<Rightarrow> 'a gossip_json_scheme \<Rightarrow> GossipEngine \<Rightarrow> Block \<Rightarrow> (WireMessage option \<times> GossipEngine) option" where
  "on_new_block x j g block =
     (case should_relay_block g (block_hash x block) of
        None \<Rightarrow> None
      | Some (relay, g') \<Rightarrow>
          Some (if \<not> relay then None
                else case block_to_vec j block of
                  Inl _ \<Rightarrow> None
                | Inr block_data \<Rightarrow> Some (NewBlock (block_number block) block_data), g'))"

definition on_new_tx ::
    "'a gossip_json_scheme \<Rightarrow> GossipEngine \<Rightarrow> Transaction \<Rightarrow> (WireMessage option \<times> GossipEngine) option" where
  "on_new_tx j g tx =
     (case should_relay_tx g (tx_hash tx) of
        None \<Rightarrow> None
      | Some (relay, g') \<Rightarrow>
          Some (if \<not> relay then None
                else case tx_to_vec j tx of
                  Inl _ \<Rightarrow> None
                | Inr tx_data \<Rightarrow> Some (NewTransaction tx_data), g'))"

section \<open>Consensus messages\<close>

record ConsensusRelayCache =
  crc_seen :: "B256 set"
  crc_order :: "B256 list"
  crc_max_size :: nat

definition ConsensusRelayCache_new :: "nat \<Rightarrow> ConsensusRelayCache" where
  "ConsensusRelayCache_new max_size = \<lparr>crc_seen = {}, crc_order = [], crc_max_size = max_size\<rparr>"

definition should_relay_hash :: "ConsensusRelayCache \<Rightarrow> B256 \<Rightarrow> (bool \<times> ConsensusRelayCache) option" where
  "should_relay_hash c h =
     (if h \<in> crc_seen c then Some (False, c)
      else map_option (\<lambda>(seen, order). (True, c\<lparr>crc_seen := seen, crc_order := order\<rparr>))
        (evict_while (crc_max_size c) (insert h (crc_seen c)) (crc_order c @ [h])))"

definition should_relay ::
    "(bytes \<Rightarrow> B256) \<Rightarrow> ConsensusRelayCache \<Rightarrow> bytes \<Rightarrow> (bool \<times> ConsensusRelayCache) option" where
  "should_relay sha256 c payload = should_relay_hash c (sha256 payload)"

section \<open>The three caches meet the contract\<close>

definition cache_inv :: "nat \<Rightarrow> B256 set \<Rightarrow> B256 list \<Rightarrow> bool" where
  "cache_inv n seen order \<longleftrightarrow> seen = set order \<and> distinct order \<and> length order \<le> n"

definition gossip_inv :: "GossipEngine \<Rightarrow> bool" where
  "gossip_inv g \<longleftrightarrow> cache_inv (seen_cache_size g) (seen_blocks g) (seen_block_order g) \<and>
     cache_inv (seen_cache_size g) (seen_txs g) (seen_tx_order g)"

definition crc_inv :: "ConsensusRelayCache \<Rightarrow> bool" where
  "crc_inv c \<longleftrightarrow> cache_inv (crc_max_size c) (crc_seen c) (crc_order c)"

lemma evict_fresh:
  assumes "cache_inv n seen order" and "h \<notin> set order"
  shows "evict_while n (insert h seen) (order @ [h]) =
      Some (set (latest n (order @ [h])), latest n (order @ [h]))"
    and "cache_inv n (set (latest n (order @ [h]))) (latest n (order @ [h]))"
proof -
  have "insert h seen = set (order @ [h])" and "distinct (order @ [h])"
    using assms by (auto simp: cache_inv_def)
  then show "evict_while n (insert h seen) (order @ [h]) =
      Some (set (latest n (order @ [h])), latest n (order @ [h]))"
    by (simp only: evict_while_latest)
  show "cache_inv n (set (latest n (order @ [h]))) (latest n (order @ [h]))"
    using distinct_latest [OF \<open>distinct (order @ [h])\<close>] length_latest by (simp add: cache_inv_def)
qed

interpretation block_cache: relay_cache seen_block_order seen_cache_size gossip_inv should_relay_block
proof unfold_locales
  fix g h
  assume inv: "gossip_inv g"
  then show "distinct (seen_block_order g) \<and> length (seen_block_order g) \<le> seen_cache_size g"
    by (simp add: gossip_inv_def cache_inv_def)
  show "h \<in> set (seen_block_order g) \<Longrightarrow> should_relay_block g h = Some (False, g)"
    using inv by (simp add: should_relay_block_def gossip_inv_def cache_inv_def)
  assume h: "h \<notin> set (seen_block_order g)"
  have c: "cache_inv (seen_cache_size g) (seen_blocks g) (seen_block_order g)"
    using inv by (simp add: gossip_inv_def)
  show "\<exists>g'. should_relay_block g h = Some (True, g') \<and>
      seen_block_order g' = latest (seen_cache_size g) (seen_block_order g @ [h]) \<and>
      seen_cache_size g' = seen_cache_size g \<and> gossip_inv g'"
    using evict_fresh [OF c h] h c inv
    by (simp add: should_relay_block_def evict_old_blocks_def gossip_inv_def cache_inv_def [of _ "seen_blocks g"])
qed

interpretation tx_cache: relay_cache seen_tx_order seen_cache_size gossip_inv should_relay_tx
proof unfold_locales
  fix g h
  assume inv: "gossip_inv g"
  then show "distinct (seen_tx_order g) \<and> length (seen_tx_order g) \<le> seen_cache_size g"
    by (simp add: gossip_inv_def cache_inv_def)
  show "h \<in> set (seen_tx_order g) \<Longrightarrow> should_relay_tx g h = Some (False, g)"
    using inv by (simp add: should_relay_tx_def gossip_inv_def cache_inv_def)
  assume h: "h \<notin> set (seen_tx_order g)"
  have c: "cache_inv (seen_cache_size g) (seen_txs g) (seen_tx_order g)"
    using inv by (simp add: gossip_inv_def)
  show "\<exists>g'. should_relay_tx g h = Some (True, g') \<and>
      seen_tx_order g' = latest (seen_cache_size g) (seen_tx_order g @ [h]) \<and>
      seen_cache_size g' = seen_cache_size g \<and> gossip_inv g'"
    using evict_fresh [OF c h] h c inv
    by (simp add: should_relay_tx_def evict_old_txs_def gossip_inv_def cache_inv_def [of _ "seen_txs g"])
qed

interpretation consensus_cache: relay_cache crc_order crc_max_size crc_inv should_relay_hash
proof unfold_locales
  fix c h
  assume inv: "crc_inv c"
  then show "distinct (crc_order c) \<and> length (crc_order c) \<le> crc_max_size c"
    by (simp add: crc_inv_def cache_inv_def)
  show "h \<in> set (crc_order c) \<Longrightarrow> should_relay_hash c h = Some (False, c)"
    using inv by (simp add: should_relay_hash_def crc_inv_def cache_inv_def)
  assume h: "h \<notin> set (crc_order c)"
  show "\<exists>c'. should_relay_hash c h = Some (True, c') \<and>
      crc_order c' = latest (crc_max_size c) (crc_order c @ [h]) \<and>
      crc_max_size c' = crc_max_size c \<and> crc_inv c'"
    using evict_fresh [OF inv [unfolded crc_inv_def] h] h inv
    by (simp add: should_relay_hash_def crc_inv_def cache_inv_def [of _ "crc_seen c"])
qed

lemma gossip_inv_new [simp]: "gossip_inv (GossipEngine_new n)"
  by (simp add: gossip_inv_def GossipEngine_new_def cache_inv_def)

lemma crc_inv_new [simp]: "crc_inv (ConsensusRelayCache_new n)"
  by (simp add: crc_inv_def ConsensusRelayCache_new_def cache_inv_def)

fun relay_blocks :: "GossipEngine \<Rightarrow> B256 list \<Rightarrow> (bool list \<times> GossipEngine) option" where
  "relay_blocks g [] = Some ([], g)"
| "relay_blocks g (h # hs) =
     (case should_relay_block g h of None \<Rightarrow> None
      | Some (b, g') \<Rightarrow>
          (case relay_blocks g' hs of None \<Rightarrow> None | Some (bs, g'') \<Rightarrow> Some (b # bs, g'')))"

lemma relay_blocks_all: "relay_blocks g hs = block_cache.relay_all g hs"
  by (induction hs arbitrary: g) (simp_all split: option.splits prod.splits)

text \<open>Deciding whether to relay a block always returns, although its eviction loop has no
  exit for an empty queue: the answer is yes exactly for a hash that is not among the
  latest \<open>seen_cache_size\<close> ones, which is then remembered in place of the oldest; the
  transaction cache is left alone.\<close>

theorem should_relay_block_spec:
  assumes "gossip_inv g"
  shows "\<exists>g'. should_relay_block g h = Some (h \<notin> set (seen_block_order g), g') \<and> gossip_inv g' \<and>
    seen_block_order g' =
      (if h \<in> set (seen_block_order g) then seen_block_order g
       else latest (seen_cache_size g) (seen_block_order g @ [h])) \<and>
    seen_cache_size g' = seen_cache_size g \<and> seen_txs g' = seen_txs g"
proof (cases "h \<in> set (seen_block_order g)")
  case True
  with block_cache.known [OF assms True] assms show ?thesis by simp
next
  case False
  then obtain g' where g': "should_relay_block g h = Some (True, g')"
    "seen_block_order g' = latest (seen_cache_size g) (seen_block_order g @ [h])"
    "seen_cache_size g' = seen_cache_size g" "gossip_inv g'"
    using block_cache.fresh [OF assms] by blast
  moreover from g'(1) have "seen_txs g' = seen_txs g"
    by (auto simp: should_relay_block_def evict_old_blocks_def split: if_splits)
  ultimately show ?thesis using False by simp
qed

text \<open>No flooding: while at most \<open>seen_cache_size\<close> different blocks circulate, a node that
  starts with empty caches relays each of them exactly once, the first time it comes in,
  however often and in whatever order they arrive.\<close>

theorem blocks_relayed_once:
  assumes "card (set hs) \<le> n"
  shows "\<exists>g'. relay_blocks (GossipEngine_new n) hs =
    Some (map (\<lambda>i. hs ! i \<notin> set (take i hs)) [0..<length hs], g')"
  using block_cache.relay_once [of "GossipEngine_new n" hs] assms
  by (auto simp: relay_blocks_all GossipEngine_new_def [of n, THEN arg_cong [of _ _ seen_block_order]]
      GossipEngine_new_def [of n, THEN arg_cong [of _ _ seen_cache_size]])

theorem should_relay_block_spec_witness:
  "\<exists>g'. should_relay_block (GossipEngine_new 2) 5 = Some (True, g') \<and> seen_block_order g' = [5]"
  using should_relay_block_spec [of "GossipEngine_new 2" 5]
  by (simp add: GossipEngine_new_def [of 2, THEN arg_cong [of _ _ seen_block_order]]
      GossipEngine_new_def [of 2, THEN arg_cong [of _ _ seen_cache_size]] latest_def) blast

theorem blocks_relayed_once_witness:
  "\<exists>g'. relay_blocks (GossipEngine_new 2) [5, 6, 5] = Some ([True, True, False], g')"
  using blocks_relayed_once [of "[5, 6, 5]" 2] by (simp add: upt_rec card_insert_if del: relay_blocks.simps)

end
