(* ===== verification/Peers_Sync.thy ===== *)
theory Peers_Sync
  imports Gossip
begin

text \<open>
  The peer table of \<open>crates/eth2077-p2p/src/peer.rs\<close> and the block-sync state machine of
  \<open>crates/eth2077-p2p/src/sync_protocol.rs\<close>.  The clock (\<open>Instant::now\<close>) is an argument of
  the operations that read it.
\<close>

section \<open>Peers\<close>

datatype SocketAddr =
    V4 u32 "16 word"
  | V6 u128 "16 word" u32 u32

datatype PeerState = Connecting | Handshaking | Connected | Disconnected

record PeerInfo =
  peer_id :: u64
  peer_addr :: SocketAddr
  peer_state :: PeerState
  best_height :: u64
  best_hash :: B256
  connected_at :: nat
  last_seen :: nat

definition PeerInfo_new :: "nat \<Rightarrow> u64 \<Rightarrow> SocketAddr \<Rightarrow> PeerState \<Rightarrow> PeerInfo" where
  "PeerInfo_new now i a st =
     \<lparr>peer_id = i, peer_addr = a, peer_state = st, best_height = 0, best_hash = 0,
      connected_at = now, last_seen = now\<rparr>"

record PeerManager =
  peers :: "(u64, PeerInfo) hashmap"
  max_peers :: nat

definition PeerManager_new :: "nat \<Rightarrow> PeerManager" where
  "PeerManager_new n = \<lparr>peers = [], max_peers = n\<rparr>"

definition add_peer :: "PeerManager \<Rightarrow> PeerInfo \<Rightarrow> bool \<times> PeerManager" where
  "add_peer pm peer =
     (let at_capacity = max_peers pm \<le> length (peers pm) in
      case map_of (peers pm) (peer_id peer) of
        Some _ \<Rightarrow> (True, pm\<lparr>peers := hm_insert (peer_id peer) peer (peers pm)\<rparr>)
      | None \<Rightarrow>
          if at_capacity then (False, pm)
          else (True, pm\<lparr>peers := hm_insert (peer_id peer) peer (peers pm)\<rparr>))"

definition remove_peer :: "PeerManager \<Rightarrow> u64 \<Rightarrow> PeerInfo option \<times> PeerManager" where
  "remove_peer pm i = (map_of (peers pm) i, pm\<lparr>peers := hm_remove i (peers pm)\<rparr>)"

definition get_peer :: "PeerManager \<Rightarrow> u64 \<Rightarrow> PeerInfo option" where
  "get_peer pm i = map_of (peers pm) i"

definition update_best_height :: "nat \<Rightarrow> PeerManager \<Rightarrow> u64 \<Rightarrow> u64 \<Rightarrow> B256 \<Rightarrow> PeerManager" where
  "update_best_height now pm i height hash =
     (case map_of (peers pm) i of
        None \<Rightarrow> pm
      | Some p \<Rightarrow>
          pm\<lparr>peers := hm_insert i (p\<lparr>best_height := height, best_hash := hash, last_seen := now\<rparr>)
               (peers pm)\<rparr>)"

definition touch_peer :: "nat \<Rightarrow> PeerManager \<Rightarrow> u64 \<Rightarrow> PeerManager" where
  "touch_peer now pm i =
     (case map_of (peers pm) i of
        None \<Rightarrow> pm
      | Some p \<Rightarrow> pm\<lparr>peers := hm_insert i (p\<lparr>last_seen := now\<rparr>) (peers pm)\<rparr>)"

type_synonym peer_order = "(u64 \<times> PeerInfo) list \<Rightarrow> (u64 \<times> PeerInfo) list"

definition connected_peers :: "peer_order \<Rightarrow> PeerManager \<Rightarrow> PeerInfo list" where
  "connected_peers it pm = filter (\<lambda>p. peer_state p = Connected) (map snd (it (peers pm)))"

text \<open>\<open>Iterator::max_by_key\<close>: the last of the elements whose key is maximal.\<close>

fun max_by_key :: "('a \<Rightarrow> 'k::linorder) \<Rightarrow> 'a list \<Rightarrow> 'a option" where
  "max_by_key f [] = None"
| "max_by_key f (x # xs) = Some (foldl (\<lambda>best y. if f best \<le> f y then y else best) x xs)"

definition best_peer :: "peer_order \<Rightarrow> PeerManager \<Rightarrow> PeerInfo option" where
  "best_peer it pm =
     max_by_key best_height (filter (\<lambda>p. peer_state p = Connected) (map snd (it (peers pm))))"

definition peers_inv :: "PeerManager \<Rightarrow> bool" where
  "peers_inv pm \<longleftrightarrow> hm_inv (peers pm) \<and> length (peers pm) \<le> max_peers pm \<and>
     (\<forall>i p. map_of (peers pm) i = Some p \<longrightarrow> peer_id p = i)"

lemma length_hm_insert:
  "length (hm_insert k v m) = (if map_of m k = None then Suc (length m) else length m)"
  by (induction m) auto

lemma length_hm_remove_le: "length (hm_remove k m) \<le> length m"
  by (simp add: hm_remove_filter)

lemma peers_inv_new: "peers_inv (PeerManager_new n)"
  by (simp add: peers_inv_def PeerManager_new_def)

lemma peers_inv_add:
  assumes "peers_inv pm"
  shows "peers_inv (snd (add_peer pm p))"
  using assms by (auto simp: peers_inv_def add_peer_def Let_def length_hm_insert split: option.splits)

lemma peers_inv_remove: "peers_inv pm \<Longrightarrow> peers_inv (snd (remove_peer pm i))"
  using length_hm_remove_le [of i "peers pm"] by (auto simp: peers_inv_def remove_peer_def)

lemma peers_inv_update: "peers_inv pm \<Longrightarrow> peers_inv (update_best_height now pm i h x)"
  by (auto simp: peers_inv_def update_best_height_def length_hm_insert split: option.splits)

lemma peers_inv_touch: "peers_inv pm \<Longrightarrow> peers_inv (touch_peer now pm i)"
  by (auto simp: peers_inv_def touch_peer_def length_hm_insert split: option.splits)

lemmas peers_inv_intros = peers_inv_new peers_inv_add peers_inv_remove peers_inv_update peers_inv_touch

lemma max_by_key_fold:
  "let b = foldl (\<lambda>best y. if f best \<le> f y then y else best) x xs in
     b \<in> set (x # xs) \<and> (\<forall>y \<in> set (x # xs). f y \<le> f b)"
  for f :: "'a \<Rightarrow> 'k::linorder"
proof (induction xs arbitrary: x)
  case Nil
  then show ?case by simp
next
  case (Cons y ys)
  from Cons.IH [of "if f x \<le> f y then y else x"] show ?case
    by (auto simp: Let_def split: if_splits intro: order_trans)
qed

lemma max_by_key_Some:
  "max_by_key f xs = Some b \<Longrightarrow> b \<in> set xs \<and> (\<forall>y \<in> set xs. f y \<le> f b)"
  using max_by_key_fold [of f "hd xs" "tl xs"] by (cases xs) (auto simp: Let_def)

lemma max_by_key_None: "max_by_key f xs = None \<longleftrightarrow> xs = []"
  by (cases xs) auto

text \<open>\<open>best_peer\<close> is right whatever order the hash map is visited in: it finds a peer exactly
  when one is connected, and then a connected peer whose announced height no connected
  peer exceeds.\<close>

theorem best_peer_highest:
  assumes "peers_inv pm" and "hash_order it"
  shows "case best_peer it pm of
      None \<Rightarrow> \<forall>i p. get_peer pm i = Some p \<longrightarrow> peer_state p \<noteq> Connected
    | Some b \<Rightarrow> get_peer pm (peer_id b) = Some b \<and> peer_state b = Connected \<and>
        (\<forall>i p. get_peer pm i = Some p \<longrightarrow> peer_state p = Connected \<longrightarrow> best_height p \<le> best_height b)"
proof -
  let ?c = "filter (\<lambda>p. peer_state p = Connected) (map snd (it (peers pm)))"
  have keyed: "peer_id p = i" if "get_peer pm i = Some p" for i p
    using assms(1) that by (simp add: peers_inv_def get_peer_def)
  have entry: "(i, p) \<in> set (it (peers pm)) \<longleftrightarrow> get_peer pm i = Some p" for i p
    using hm_mem_iff [of "peers pm" i p] assms(1) hash_order_set [OF assms(2), of "peers pm"]
    by (simp add: peers_inv_def get_peer_def)
  have mem: "p \<in> set ?c \<longleftrightarrow> (\<exists>i. get_peer pm i = Some p) \<and> peer_state p = Connected" for p
    unfolding entry [symmetric] by force
  show ?thesis
  proof (cases "best_peer it pm")
    case None
    then have "?c = []" by (simp add: best_peer_def max_by_key_None)
    then have "p \<notin> set ?c" for p by (metis empty_iff list.set(1))
    then have "\<forall>i p. get_peer pm i = Some p \<longrightarrow> peer_state p \<noteq> Connected"
      unfolding mem by blast
    with None show ?thesis by simp
  next
    case (Some b)
    then have "b \<in> set ?c" and max: "\<forall>y \<in> set ?c. best_height y \<le> best_height b"
      using max_by_key_Some [of best_height ?c b] unfolding best_peer_def by blast+
    then have b: "get_peer pm (peer_id b) = Some b" "peer_state b = Connected"
      unfolding mem using keyed by blast+
    have "\<forall>i p. get_peer pm i = Some p \<longrightarrow> peer_state p = Connected \<longrightarrow> best_height p \<le> best_height b"
      using max mem by blast
    with Some b show ?thesis by simp
  qed
qed

section \<open>Synchronisation\<close>

datatype SyncState = Idle | Syncing (target_height: u64) (sync_height: u64) | Synced

record SyncEngine =
  local_height :: u64
  sync_state :: SyncState
  batch_size :: u32

definition SyncEngine_new :: "u64 \<Rightarrow> SyncEngine" where
  "SyncEngine_new h = \<lparr>local_height = h, sync_state = Idle, batch_size = 64\<rparr>"

definition needs_sync :: "SyncEngine \<Rightarrow> u64 \<Rightarrow> bool" where
  "needs_sync s network_best_height \<longleftrightarrow> local_height s < network_best_height"

definition start_sync :: "SyncEngine \<Rightarrow> u64 \<Rightarrow> SyncEngine" where
  "start_sync s target =
     (if target \<le> local_height s then s\<lparr>sync_state := Synced\<rparr>
      else s\<lparr>sync_state := Syncing target (local_height s)\<rparr>)"

definition next_request :: "SyncEngine \<Rightarrow> WireMessage option" where
  "next_request s =
     (case sync_state s of
        Syncing target current \<Rightarrow>
          if current < target then Some (GetBlocks (sat_add current 1) (batch_size s)) else None
      | _ \<Rightarrow> None)"

definition on_blocks_received :: "SyncEngine \<Rightarrow> Block list \<Rightarrow> SyncEngine" where
  "on_blocks_received s blocks =
     (case map block_number blocks of
        [] \<Rightarrow> s
      | n # ns \<Rightarrow>
          let s1 = s\<lparr>local_height := max (local_height s) (fold max ns n)\<rparr> in
          (case sync_state s1 of
             Syncing target _ \<Rightarrow>
               if target \<le> local_height s1 then s1\<lparr>sync_state := Synced\<rparr>
               else s1\<lparr>sync_state := Syncing target (local_height s1)\<rparr>
           | _ \<Rightarrow> s1))"

definition sync_progress :: "SyncEngine \<Rightarrow> u64 \<times> u64" where
  "sync_progress s =
     (case sync_state s of
        Syncing target current \<Rightarrow> (current, target)
      | _ \<Rightarrow> (local_height s, local_height s))"

text \<open>While it syncs, an engine asks for the block after its own height, below the target.\<close>

definition sync_inv :: "SyncEngine \<Rightarrow> bool" where
  "sync_inv s \<longleftrightarrow>
     (\<forall>t c. sync_state s = Syncing t c \<longrightarrow> c = local_height s \<and> local_height s < t)"

lemma sync_inv_new: "sync_inv (SyncEngine_new h)"
  by (simp add: sync_inv_def SyncEngine_new_def)

lemma sync_inv_start: "sync_inv (start_sync s t)"
  by (auto simp: sync_inv_def start_sync_def)

lemma sync_inv_blocks: "sync_inv s \<Longrightarrow> sync_inv (on_blocks_received s bs)"
  by (auto simp: sync_inv_def on_blocks_received_def Let_def not_le split: list.splits SyncState.splits)

lemma local_height_mono: "local_height s \<le> local_height (on_blocks_received s bs)"
  by (auto simp: on_blocks_received_def Let_def split: list.splits SyncState.splits)

section \<open>The theorems on small inputs\<close>

definition sample_peer :: "u64 \<Rightarrow> u64 \<Rightarrow> PeerInfo" where
  "sample_peer i h = (PeerInfo_new 0 i (V4 0 0) Connected)\<lparr>best_height := h\<rparr>"

definition sample_peers :: PeerManager where
  "sample_peers = \<lparr>peers = [(1, sample_peer 1 10), (2, sample_peer 2 20)], max_peers = 2\<rparr>"

theorem best_peer_highest_witness:
  "peers_inv sample_peers \<and> map_option best_height (best_peer (\<lambda>xs. xs) sample_peers) = Some 20"
proof -
  have inv: "peers_inv sample_peers"
    by (simp add: peers_inv_def sample_peers_def hm_inv_def sample_peer_def PeerInfo_new_def)
  obtain b where b: "best_peer (\<lambda>xs. xs) sample_peers = Some b"
    by (simp add: best_peer_def sample_peers_def sample_peer_def PeerInfo_new_def)
  have "get_peer sample_peers 2 = Some (sample_peer 2 20)" and "get_peer sample_peers (peer_id b) = Some b"
    using best_peer_highest [OF inv hash_order_id] b by (simp_all add: sample_peers_def get_peer_def)
  moreover from this(2) have "best_height b \<in> {10, 20}"
    by (auto simp: sample_peers_def get_peer_def sample_peer_def split: if_splits)
  moreover have "best_height (sample_peer 2 20) \<le> best_height b"
  proof -
    have "\<forall>i p. get_peer sample_peers i = Some p \<longrightarrow> peer_state p = Connected \<longrightarrow> best_height p \<le> best_height b"
      using best_peer_highest [OF inv hash_order_id] b by simp
    moreover have "peer_state (sample_peer 2 20) = Connected" by (simp add: sample_peer_def PeerInfo_new_def)
    ultimately show ?thesis using \<open>get_peer sample_peers 2 = Some (sample_peer 2 20)\<close> by blast
  qed
  ultimately have "best_height b = 20" by (auto simp: sample_peer_def PeerInfo_new_def)
  with b inv show ?thesis by simp
qed

end
