(* ===== verification/P2P_Node.thy ===== *)
theory P2P_Node
  imports Peers_Sync Consensus_Engine
begin

text \<open>
  The network node of \<open>crates/eth2077-p2p/src/node.rs\<close>: the dispatch loop that owns the peer
  table, the caches and the sync engine, the broadcasts, and the task that runs one
  connection.  A channel to a peer's connection is a number; what a handler sends, on
  channels and to the application, is the list of its outputs in order.  The JSON of the
  payloads and SHA-256 are parameters.
\<close>

type_synonym chan = nat

record P2pConfig =
  listen_addr :: SocketAddr
  boot_peers :: "SocketAddr list"
  cfg_peer_id :: u64
  cfg_chain_id :: u64
  cfg_max_peers :: nat

datatype P2pEvent =
    BlockReceived u64 Block
  | TransactionReceived u64 Transaction
  | ConsensusMessageReceived u64 ConsensusMessage
  | PeerConnectedEvent u64
  | PeerDisconnectedEvent u64
  | SyncComplete u64

datatype NodeInbound =
    PeerConnected u64 SocketAddr u64 B256 chan
  | PeerDisconnected u64
  | Message u64 WireMessage

datatype node_output =
    Deliver chan WireMessage
  | Emit P2pEvent

record P2pNode =
  node_config :: P2pConfig
  peer_manager :: PeerManager
  gossip_engine :: GossipEngine
  sync_engine :: SyncEngine
  peer_senders :: "(u64, chan) hashmap"
  consensus_cache :: ConsensusRelayCache

record node_json = gossip_json +
  block_from_slice :: "bytes \<Rightarrow> string + Block"
  tx_from_slice :: "bytes \<Rightarrow> string + Transaction"
  consensus_to_vec :: "ConsensusMessage \<Rightarrow> string + bytes"
  consensus_from_slice :: "bytes \<Rightarrow> string + ConsensusMessage"
  sha256 :: "bytes \<Rightarrow> B256"

type_synonym sender_order = "(u64 \<times> chan) list \<Rightarrow> (u64 \<times> chan) list"

definition P2pNode_new :: "P2pConfig \<Rightarrow> P2pNode" where
  "P2pNode_new config =
     \<lparr>node_config = config, peer_manager = PeerManager_new (cfg_max_peers config),
      gossip_engine = GossipEngine_new 1024, sync_engine = SyncEngine_new 0, peer_senders = [],
      consensus_cache = ConsensusRelayCache_new 1024\<rparr>"

definition send_to_peer :: "P2pNode \<Rightarrow> u64 \<Rightarrow> WireMessage \<Rightarrow> node_output list" where
  "send_to_peer n i msg =
     (case map_of (peer_senders n) i of Some c \<Rightarrow> [Deliver c msg] | None \<Rightarrow> [])"

definition broadcast_wire :: "sender_order \<Rightarrow> P2pNode \<Rightarrow> WireMessage \<Rightarrow> u64 option \<Rightarrow> node_output list" where
  "broadcast_wire it n msg except_peer =
     map (\<lambda>(_, c). Deliver c msg) (filter (\<lambda>(i, _). except_peer \<noteq> Some i) (it (peer_senders n)))"

definition broadcast_block ::
    "sender_order \<Rightarrow> ext \<Rightarrow> node_json \<Rightarrow> P2pNode \<Rightarrow> Block \<Rightarrow> (node_output list \<times> P2pNode) option" where
  "broadcast_block it x j n block =
     (case on_new_block x j (gossip_engine n) block of
        None \<Rightarrow> None
      | Some (message, g) \<Rightarrow>
          let n1 = n\<lparr>gossip_engine := g\<rparr> in
          Some (case message of Some m \<Rightarrow> broadcast_wire it n1 m None | None \<Rightarrow> [], n1))"

definition broadcast_tx ::
    "sender_order \<Rightarrow> node_json \<Rightarrow> P2pNode \<Rightarrow> Transaction \<Rightarrow> (node_output list \<times> P2pNode) option" where
  "broadcast_tx it j n tx =
     (case on_new_tx j (gossip_engine n) tx of
        None \<Rightarrow> None
      | Some (message, g) \<Rightarrow>
          let n1 = n\<lparr>gossip_engine := g\<rparr> in
          Some (case message of Some m \<Rightarrow> broadcast_wire it n1 m None | None \<Rightarrow> [], n1))"

definition broadcast_consensus_msg ::
    "sender_order \<Rightarrow> node_json \<Rightarrow> P2pNode \<Rightarrow> ConsensusMessage \<Rightarrow> (node_output list \<times> P2pNode) option" where
  "broadcast_consensus_msg it j n msg =
     (case consensus_to_vec j msg of
        Inl _ \<Rightarrow> Some ([], n)
      | Inr msg_data \<Rightarrow>
          (case should_relay (sha256 j) (consensus_cache n) msg_data of
             None \<Rightarrow> None
           | Some (relay, c) \<Rightarrow>
               let n1 = n\<lparr>consensus_cache := c\<rparr> in
               Some (if relay then broadcast_wire it n1 (ConsensusMsg msg_data) None else [], n1)))"

section \<open>The dispatch loop\<close>

definition on_peer_connected ::
    "nat \<Rightarrow> P2pNode \<Rightarrow> u64 \<Rightarrow> SocketAddr \<Rightarrow> u64 \<Rightarrow> B256 \<Rightarrow> chan \<Rightarrow> node_output list \<times> P2pNode" where
  "on_peer_connected now n i addr height hash sender =
     (let info = (PeerInfo_new now i addr Connected)\<lparr>best_height := height, best_hash := hash\<rparr>;
          (accepted, pm) = add_peer (peer_manager n) info
      in if \<not> accepted then ([], n\<lparr>peer_manager := pm\<rparr>)
         else
           let n1 = n\<lparr>peer_manager := pm, peer_senders := hm_insert i sender (peer_senders n)\<rparr>;
               sync = sync_engine n1;
               (request, sync') =
                 (if needs_sync sync height then
                    let s1 = (case sync_state sync of
                                Syncing t _ \<Rightarrow> if t < height then start_sync sync height else sync
                              | _ \<Rightarrow> start_sync sync height)
                    in (next_request s1, s1)
                  else (None, sync))
           in (Emit (PeerConnectedEvent i) #
                 (case request of Some r \<Rightarrow> [Deliver sender r] | None \<Rightarrow> []),
               n1\<lparr>sync_engine := sync'\<rparr>))"

definition on_peer_disconnected :: "P2pNode \<Rightarrow> u64 \<Rightarrow> node_output list \<times> P2pNode" where
  "on_peer_disconnected n i =
     ([Emit (PeerDisconnectedEvent i)],
      n\<lparr>peer_manager := snd (remove_peer (peer_manager n) i),
        peer_senders := hm_remove i (peer_senders n)\<rparr>)"

definition on_wire_block ::
    "sender_order \<Rightarrow> ext \<Rightarrow> node_json \<Rightarrow> nat \<Rightarrow> P2pNode \<Rightarrow> u64 \<Rightarrow> bytes \<Rightarrow> (node_output list \<times> P2pNode) option" where
  "on_wire_block it x j now n from_peer block_data =
     (case block_from_slice j block_data of
        Inl _ \<Rightarrow> Some ([], n)
      | Inr block \<Rightarrow>
          let n1 = n\<lparr>peer_manager := update_best_height now (peer_manager n) from_peer
                       (block_number block) (block_hash x block)\<rparr>
          in (case on_new_block x j (gossip_engine n1) block of
                None \<Rightarrow> None
              | Some (relay, g) \<Rightarrow>
                  let n2 = n1\<lparr>gossip_engine := g\<rparr> in
                  Some ((case relay of Some m \<Rightarrow> broadcast_wire it n2 m (Some from_peer) | None \<Rightarrow> []) @
                          [Emit (BlockReceived from_peer block)], n2)))"

definition on_wire_tx ::
    "sender_order \<Rightarrow> node_json \<Rightarrow> P2pNode \<Rightarrow> u64 \<Rightarrow> bytes \<Rightarrow> (node_output list \<times> P2pNode) option" where
  "on_wire_tx it j n from_peer tx_data =
     (case tx_from_slice j tx_data of
        Inl _ \<Rightarrow> Some ([], n)
      | Inr tx \<Rightarrow>
          (case on_new_tx j (gossip_engine n) tx of
             None \<Rightarrow> None
           | Some (relay, g) \<Rightarrow>
               let n1 = n\<lparr>gossip_engine := g\<rparr> in
               Some ((case relay of Some m \<Rightarrow> broadcast_wire it n1 m (Some from_peer) | None \<Rightarrow> []) @
                       [Emit (TransactionReceived from_peer tx)], n1)))"

definition on_wire_consensus ::
    "sender_order \<Rightarrow> node_json \<Rightarrow> P2pNode \<Rightarrow> u64 \<Rightarrow> bytes \<Rightarrow> (node_output list \<times> P2pNode) option" where
  "on_wire_consensus it j n from_peer msg_data =
     (case should_relay (sha256 j) (consensus_cache n) msg_data of
        None \<Rightarrow> None
      | Some (relay, c) \<Rightarrow>
          let n1 = n\<lparr>consensus_cache := c\<rparr> in
          Some ((if relay then broadcast_wire it n1 (ConsensusMsg msg_data) (Some from_peer) else []) @
                  (case consensus_from_slice j msg_data of
                     Inr msg \<Rightarrow> [Emit (ConsensusMessageReceived from_peer msg)] | Inl _ \<Rightarrow> []), n1))"

definition decode_blocks :: "node_json \<Rightarrow> bytes list \<Rightarrow> Block list" where
  "decode_blocks j encoded =
     concat (map (\<lambda>bs. case block_from_slice j bs of Inr b \<Rightarrow> [b] | Inl _ \<Rightarrow> []) encoded)"

definition on_wire_blocks :: "node_json \<Rightarrow> P2pNode \<Rightarrow> bytes list \<Rightarrow> node_output list \<times> P2pNode" where
  "on_wire_blocks j n blocks =
     (let sync = sync_engine n;
          sync' = on_blocks_received sync (decode_blocks j blocks)
      in (if sync_state sync \<noteq> Synced \<and> sync_state sync' = Synced
          then [Emit (SyncComplete (local_height sync'))] else [],
          n\<lparr>sync_engine := sync'\<rparr>))"

definition dispatch ::
    "sender_order \<Rightarrow> ext \<Rightarrow> node_json \<Rightarrow> nat \<Rightarrow> P2pNode \<Rightarrow> NodeInbound \<Rightarrow> (node_output list \<times> P2pNode) option" where
  "dispatch it x j now n inbound =
     (case inbound of
        PeerConnected i addr height hash sender \<Rightarrow> Some (on_peer_connected now n i addr height hash sender)
      | PeerDisconnected i \<Rightarrow> Some (on_peer_disconnected n i)
      | Message from_peer message \<Rightarrow>
          let n1 = n\<lparr>peer_manager := touch_peer now (peer_manager n) from_peer\<rparr> in
          (case message of
             Hello _ _ _ _ \<Rightarrow> Some ([], n1)
           | NewBlock _ block_data \<Rightarrow> on_wire_block it x j now n1 from_peer block_data
           | NewTransaction tx_data \<Rightarrow> on_wire_tx it j n1 from_peer tx_data
           | ConsensusMsg msg_data \<Rightarrow> on_wire_consensus it j n1 from_peer msg_data
           | GetBlocks _ _ \<Rightarrow> Some (send_to_peer n1 from_peer (Blocks []), n1)
           | Blocks blocks \<Rightarrow> Some (on_wire_blocks j n1 blocks)
           | Ping nonce \<Rightarrow> Some (send_to_peer n1 from_peer (Pong nonce), n1)
           | Pong _ \<Rightarrow> Some ([], n1)))"

section \<open>One connection\<close>

text \<open>
  The task of a connection: after its own hello it reads messages and writes what the
  node sends on its channel.  Each step gives what it passes to the dispatch loop and what
  it writes; it ends on a hello for another chain, a broken stream, a failed write or a
  dropped channel, and then reports the peer gone if it had been announced.
\<close>

datatype conn_event =
    Received WireMessage
  | DecodeFailed
  | StreamClosed
  | Outbound WireMessage bool
  | ChannelClosed

record conn =
  remote_peer_id :: "u64 option"
  conn_open :: bool

definition conn_close :: "conn \<Rightarrow> NodeInbound list \<times> conn" where
  "conn_close c =
     (case remote_peer_id c of Some i \<Rightarrow> [PeerDisconnected i] | None \<Rightarrow> [], c\<lparr>conn_open := False\<rparr>)"

definition conn_step :: "u64 \<Rightarrow> SocketAddr \<Rightarrow> chan \<Rightarrow> conn \<Rightarrow> conn_event \<Rightarrow> NodeInbound list \<times> conn" where
  "conn_step chain_id addr sender c ev =
     (if \<not> conn_open c then ([], c)
      else case ev of
        Outbound message sent \<Rightarrow> if sent then ([], c) else conn_close c
      | ChannelClosed \<Rightarrow> conn_close c
      | DecodeFailed \<Rightarrow> conn_close c
      | StreamClosed \<Rightarrow> conn_close c
      | Received (Hello i remote_chain_id height hash) \<Rightarrow>
          if remote_chain_id \<noteq> chain_id then conn_close c
          else if remote_peer_id c = None then
            ([PeerConnected i addr height hash sender], c\<lparr>remote_peer_id := Some i\<rparr>)
          else ([], c)
      | Received other \<Rightarrow>
          (case remote_peer_id c of Some i \<Rightarrow> ([Message i other], c) | None \<Rightarrow> ([], c)))"

fun conn_run :: "u64 \<Rightarrow> SocketAddr \<Rightarrow> chan \<Rightarrow> conn \<Rightarrow> conn_event list \<Rightarrow> NodeInbound list" where
  "conn_run chain_id addr sender c [] = []"
| "conn_run chain_id addr sender c (ev # evs) =
     (case conn_step chain_id addr sender c ev of (ins, c') \<Rightarrow> ins @ conn_run chain_id addr sender c' evs)"

definition conn_start :: conn where
  "conn_start = \<lparr>remote_peer_id = None, conn_open = True\<rparr>"

section \<open>The node's invariant\<close>

definition node_inv :: "P2pNode \<Rightarrow> bool" where
  "node_inv n \<longleftrightarrow>
     peers_inv (peer_manager n) \<and> gossip_inv (gossip_engine n) \<and> crc_inv (consensus_cache n) \<and>
     sync_inv (sync_engine n) \<and> hm_inv (peer_senders n) \<and>
     dom (map_of (peer_senders n)) = dom (map_of (peers (peer_manager n)))"

lemma node_inv_new: "node_inv (P2pNode_new config)"
  using peers_inv_new [of "cfg_max_peers config"]
  by (simp add: node_inv_def P2pNode_new_def sync_inv_new PeerManager_new_def)

lemma dom_touch: "dom (map_of (peers (touch_peer now pm i))) = dom (map_of (peers pm))"
  by (auto simp: touch_peer_def split: option.splits)

lemma dom_update: "dom (map_of (peers (update_best_height now pm i h x))) = dom (map_of (peers pm))"
  by (auto simp: update_best_height_def split: option.splits)

lemma node_inv_touch: "node_inv n \<Longrightarrow> node_inv (n\<lparr>peer_manager := touch_peer now (peer_manager n) i\<rparr>)"
  by (simp add: node_inv_def peers_inv_touch dom_touch)

lemma node_inv_update:
  "node_inv n \<Longrightarrow> node_inv (n\<lparr>peer_manager := update_best_height now (peer_manager n) i h x\<rparr>)"
  by (simp add: node_inv_def peers_inv_update dom_update)

lemma on_new_block_returns:
  assumes "gossip_inv g"
  shows "\<exists>g'. on_new_block x j g b =
    Some (if block_hash x b \<in> set (seen_block_order g) then None
          else case block_to_vec j b of Inl _ \<Rightarrow> None | Inr d \<Rightarrow> Some (NewBlock (block_number b) d), g') \<and>
    gossip_inv g'"
  using block_cache.relay_returns [OF assms, of "block_hash x b"] by (auto simp: on_new_block_def)

lemma on_new_tx_returns:
  assumes "gossip_inv g"
  shows "\<exists>g'. on_new_tx j g tx =
    Some (if tx_hash tx \<in> set (seen_tx_order g) then None
          else case tx_to_vec j tx of Inl _ \<Rightarrow> None | Inr d \<Rightarrow> Some (NewTransaction d), g') \<and>
    gossip_inv g'"
  using tx_cache.relay_returns [OF assms, of "tx_hash tx"] by (auto simp: on_new_tx_def)

lemma node_inv_connected: "node_inv n \<Longrightarrow> node_inv (snd (on_peer_connected now n i a h x c))"
  using peers_inv_add [of "peer_manager n" "(PeerInfo_new now i a Connected)\<lparr>best_height := h, best_hash := x\<rparr>"]
  by (auto simp: node_inv_def on_peer_connected_def add_peer_def Let_def PeerInfo_new_def sync_inv_start
      split: option.splits if_splits SyncState.splits)

lemma node_inv_disconnected: "node_inv n \<Longrightarrow> node_inv (snd (on_peer_disconnected n i))"
  using peers_inv_remove [of "peer_manager n" i]
  by (auto simp: node_inv_def on_peer_disconnected_def remove_peer_def)

lemma node_inv_blocks: "node_inv n \<Longrightarrow> node_inv (snd (on_wire_blocks j n bs))"
  by (simp add: node_inv_def on_wire_blocks_def Let_def sync_inv_blocks)

lemma wire_block_returns:
  assumes "node_inv n"
  shows "\<exists>outs n'. on_wire_block it x j now n i d = Some (outs, n') \<and> node_inv n'"
proof (cases "block_from_slice j d")
  case (Inl e)
  with assms show ?thesis by (simp add: on_wire_block_def)
next
  case (Inr b)
  have "node_inv (n\<lparr>peer_manager := update_best_height now (peer_manager n) i (block_number b) (block_hash x b)\<rparr>)"
    using assms by (rule node_inv_update)
  with on_new_block_returns [of "gossip_engine n" x j b] Inr show ?thesis
    by (auto simp: on_wire_block_def Let_def node_inv_def)
qed

lemma wire_tx_returns:
  assumes "node_inv n"
  shows "\<exists>outs n'. on_wire_tx it j n i d = Some (outs, n') \<and> node_inv n'"
proof (cases "tx_from_slice j d")
  case (Inl e)
  with assms show ?thesis by (simp add: on_wire_tx_def)
next
  case (Inr t)
  with on_new_tx_returns [of "gossip_engine n" j t] assms show ?thesis
    by (auto simp: on_wire_tx_def Let_def node_inv_def)
qed

lemma wire_consensus_returns:
  assumes "node_inv n"
  shows "\<exists>outs n'. on_wire_consensus it j n i d = Some (outs, n') \<and> node_inv n'"
  using consensus_cache.relay_returns [of "consensus_cache n" "sha256 j d"] assms
  by (auto simp: on_wire_consensus_def should_relay_def Let_def node_inv_def)

lemma dispatch_invariant:
  assumes "node_inv n"
  shows "\<exists>outs n'. dispatch it x j now n inbound = Some (outs, n') \<and> node_inv n'"
proof (cases inbound)
  case (PeerConnected i a h hash c)
  with node_inv_connected [OF assms, of now i a h hash c] show ?thesis
    by (cases "on_peer_connected now n i a h hash c") (simp add: dispatch_def)
next
  case (PeerDisconnected i)
  with node_inv_disconnected [OF assms, of i] show ?thesis
    by (cases "on_peer_disconnected n i") (simp add: dispatch_def)
next
  case (Message i m)
  note inv = node_inv_touch [OF assms, of now i]
  show ?thesis
  proof (cases m)
    case (NewBlock h d)
    with wire_block_returns [OF inv] Message show ?thesis by (simp add: dispatch_def)
  next
    case (NewTransaction d)
    with wire_tx_returns [OF inv] Message show ?thesis by (simp add: dispatch_def)
  next
    case (ConsensusMsg d)
    with wire_consensus_returns [OF inv] Message show ?thesis by (simp add: dispatch_def)
  next
    case (Blocks bs)
    with node_inv_blocks [OF inv, of j bs] Message show ?thesis
      by (cases "on_wire_blocks j (n\<lparr>peer_manager := touch_peer now (peer_manager n) i\<rparr>) bs")
        (simp add: dispatch_def)
  qed (use inv Message in \<open>simp_all add: dispatch_def Let_def\<close>)
qed

text \<open>C19.  The dispatch loop handles every input without hanging and keeps its tables consistent:
  the peer table never exceeds \<open>max_peers\<close>, a peer has a send channel exactly when it is in
  the table, the relay caches stay within their bounds, and a sync in progress always asks
  for the block after the local height.\<close>

theorem dispatch_keeps_invariant:
  assumes "node_inv n"
  shows "\<exists>outs n'. dispatch it x j now n inbound = Some (outs, n') \<and> node_inv n'"
  using assms by (rule dispatch_invariant)

text \<open>The peers a broadcast goes to.\<close>

lemma mset_broadcast:
  assumes "hash_order it"
  shows "mset (broadcast_wire it n m ex) =
    image_mset (\<lambda>(_, c). Deliver c m) (filter_mset (\<lambda>(i, _). ex \<noteq> Some i) (mset (peer_senders n)))"
  using assms by (simp add: broadcast_wire_def hash_order_def)

text \<open>Block gossip.  A block that decodes and has not been seen is relayed once to every peer
  but the one it came from; a block seen before is not relayed again; either way it is
  passed on to the application, also when it was seen before.\<close>

theorem block_gossip:
  assumes "node_inv n" and "hash_order it" and "block_from_slice j d = Inr b" and "block_to_vec j b = Inr d'"
  shows "\<exists>outs n'. dispatch it x j now n (Message i (NewBlock h d)) =
      Some (outs @ [Emit (BlockReceived i b)], n') \<and>
    mset outs =
      (if block_hash x b \<in> set (seen_block_order (gossip_engine n)) then {#}
       else image_mset (\<lambda>(_, c). Deliver c (NewBlock (block_number b) d'))
              (filter_mset (\<lambda>(k, _). k \<noteq> i) (mset (peer_senders n))))"
proof -
  let ?n = "n\<lparr>peer_manager := update_best_height now (touch_peer now (peer_manager n) i) i
      (block_number b) (block_hash x b)\<rparr>"
  obtain g' where g': "on_new_block x j (gossip_engine n) b =
      Some (if block_hash x b \<in> set (seen_block_order (gossip_engine n)) then None
            else Some (NewBlock (block_number b) d'), g')"
    using on_new_block_returns [of "gossip_engine n" x j b] assms(1,4) by (auto simp: node_inv_def)
  have outs: "mset (broadcast_wire it (?n\<lparr>gossip_engine := g'\<rparr>) (NewBlock (block_number b) d') (Some i)) =
      image_mset (\<lambda>(_, c). Deliver c (NewBlock (block_number b) d'))
        (filter_mset (\<lambda>(k, _). k \<noteq> i) (mset (peer_senders n)))"
    by (simp add: mset_broadcast [OF assms(2)] eq_commute [of i])
  show ?thesis
    using g' assms(3) outs
    by (auto simp: dispatch_def on_wire_block_def Let_def)
qed

definition after_hello :: "u64 \<Rightarrow> NodeInbound list \<Rightarrow> bool" where
  "after_hello i ins \<longleftrightarrow>
     (\<exists>ms. ins = map (Message i) ms \<or> ins = map (Message i) ms @ [PeerDisconnected i])"

lemma conn_run_closed: "\<not> conn_open c \<Longrightarrow> conn_run ch a s c evs = []"
  by (induction evs) (simp_all add: conn_step_def)

lemma after_hello_Cons: "after_hello i ins \<Longrightarrow> after_hello i (Message i m # ins)"
  unfolding after_hello_def by (metis append_Cons list.simps(9))

lemma conn_run_connected:
  assumes "remote_peer_id c = Some i"
  shows "after_hello i (conn_run ch a s c evs)"
  using assms
proof (induction evs arbitrary: c)
  case Nil
  then show ?case by (simp add: after_hello_def)
next
  case (Cons ev evs)
  obtain ins c' where step: "conn_step ch a s c ev = (ins, c')" by fastforce
  then consider "ins = []" "c' = c" | m where "ins = [Message i m]" "c' = c"
    | "ins = [PeerDisconnected i]" "\<not> conn_open c'"
    using Cons.prems
    by (auto simp: conn_step_def conn_close_def split: if_splits conn_event.splits WireMessage.splits)
  then show ?case
  proof cases
    case 3
    then show ?thesis
      using step by (auto simp: conn_run_closed after_hello_def intro: exI [of _ "[]"])
  qed (use step Cons in \<open>simp_all add: after_hello_Cons\<close>)
qed

text \<open>The handshake: whatever a remote end does, a connection passes nothing to the node
  before a hello for the right chain; then it announces that peer once, passes on its
  messages under that peer's name only, and reports it gone at most once, last.\<close>

theorem connection_handshake:
  "case conn_run chain_id addr sender conn_start evs of
     [] \<Rightarrow> True
   | first # ins \<Rightarrow>
       (\<exists>i height hash. first = PeerConnected i addr height hash sender \<and>
          Received (Hello i chain_id height hash) \<in> set evs \<and> after_hello i ins)"
proof -
  have "case conn_run chain_id addr sender c evs of
     [] \<Rightarrow> True
   | first # ins \<Rightarrow>
       (\<exists>i height hash. first = PeerConnected i addr height hash sender \<and>
          Received (Hello i chain_id height hash) \<in> set evs \<and> after_hello i ins)"
    if "remote_peer_id c = None" for c
    using that
  proof (induction evs arbitrary: c)
    case Nil
    then show ?case by simp
  next
    case (Cons ev evs)
    obtain ins c' where step: "conn_step chain_id addr sender c ev = (ins, c')" by fastforce
    then consider "ins = []" "remote_peer_id c' = None"
      | i height hash where "ins = [PeerConnected i addr height hash sender]" "remote_peer_id c' = Some i"
          "ev = Received (Hello i chain_id height hash)"
      using Cons.prems
      by (auto simp: conn_step_def conn_close_def split: if_splits conn_event.splits WireMessage.splits)
    then show ?case
    proof cases
      case 1
      with Cons.IH [OF 1(2)] step show ?thesis by (auto split: list.splits)
    next
      case 2
      with step conn_run_connected [OF 2(2)] show ?thesis by simp
    qed
  qed
  then show ?thesis by (simp add: conn_start_def)
qed

text \<open>A node never serves blocks: it answers every \<open>GetBlocks\<close> of a known peer with an empty
  batch, and an empty batch leaves the sync engine of the asking node as it was, so a node
  that syncs from such a peer stays where it is.  Nor does a node ask for a second batch: whatever
  blocks arrive, nothing is sent in return.\<close>

theorem get_blocks_never_served:
  assumes "map_of (peer_senders n) i = Some c"
  shows "(\<exists>n'. dispatch it x j now n (Message i (GetBlocks from_height cnt)) = Some ([Deliver c (Blocks [])], n')) \<and>
    (\<exists>m'. dispatch it x j now m (Message k (Blocks [])) = Some ([], m') \<and> sync_engine m' = sync_engine m) \<and>
    (\<forall>blocks outs m'. dispatch it x j now m (Message k (Blocks blocks)) = Some (outs, m') \<longrightarrow>
      (\<forall>c message. Deliver c message \<notin> set outs))"
  using assms
  by (auto simp: dispatch_def send_to_peer_def on_wire_blocks_def decode_blocks_def on_blocks_received_def Let_def)

text \<open>A peer that reconnects before its old connection has ended is lost: the end of the old
  connection removes the entry and the channel of the new one.\<close>

theorem stale_disconnect_drops_peer:
  assumes "node_inv n" and "map_of (peer_senders n) i = Some old"
  shows "\<exists>outs1 n1 outs2 n2.
    dispatch it x j now n (PeerConnected i addr h hash new) = Some (outs1, n1) \<and>
    map_of (peer_senders n1) i = Some new \<and>
    dispatch it x j now n1 (PeerDisconnected i) = Some (outs2, n2) \<and>
    map_of (peer_senders n2) i = None \<and> get_peer (peer_manager n2) i = None"
proof -
  have "map_of (peers (peer_manager n)) i \<noteq> None"
    using assms by (auto simp: node_inv_def)
  then have "fst (add_peer (peer_manager n) p)" if "peer_id p = i" for p
    using that by (auto simp: add_peer_def)
  then obtain outs1 n1 where n1: "on_peer_connected now n i addr h hash new = (outs1, n1)"
    "map_of (peer_senders n1) i = Some new"
    by (auto simp: on_peer_connected_def Let_def PeerInfo_new_def case_prod_unfold)
  then show ?thesis
    by (auto simp: dispatch_def on_peer_disconnected_def remove_peer_def get_peer_def)
qed

section \<open>The theorems on a small node\<close>

definition sample_json :: node_json where
  "sample_json = \<lparr>block_to_vec = (\<lambda>b. Inr (be_bytes (block_number b))), tx_to_vec = (\<lambda>_. Inr []),
     block_from_slice = (\<lambda>bs. Inr (sample_block (of_nat (of_be bs)))),
     tx_from_slice = (\<lambda>_. Inl []), consensus_to_vec = (\<lambda>_. Inr []),
     consensus_from_slice = (\<lambda>_. Inl []), sha256 = (\<lambda>bs. of_nat (of_be bs))\<rparr>"

definition sample_node_config :: P2pConfig where
  "sample_node_config =
     \<lparr>listen_addr = V4 0 0, boot_peers = [], cfg_peer_id = 0, cfg_chain_id = 2077, cfg_max_peers = 5\<rparr>"

text \<open>A node with two connected peers.\<close>

definition sample_node :: P2pNode where
  "sample_node = snd (on_peer_connected 0
     (snd (on_peer_connected 0 (P2pNode_new sample_node_config) 1 (V4 0 0) 0 0 11)) 2 (V4 0 0) 0 0 12)"

lemma sample_node_inv: "node_inv sample_node"
  unfolding sample_node_def by (intro node_inv_connected node_inv_new)

lemma sample_node_fields:
  "peer_senders sample_node = [(1, 11), (2, 12)]" "seen_block_order (gossip_engine sample_node) = []"
  by (simp_all add: sample_node_def on_peer_connected_def add_peer_def P2pNode_new_def PeerManager_new_def
      sample_node_config_def PeerInfo_new_def SyncEngine_new_def needs_sync_def GossipEngine_new_def Let_def)

theorem dispatch_keeps_invariant_witness:
  "\<exists>outs n'. dispatch (\<lambda>xs. xs) sample_ext sample_json 3 sample_node (PeerDisconnected 1) = Some (outs, n') \<and>
     node_inv n'"
  by (rule dispatch_keeps_invariant [OF sample_node_inv])

theorem block_gossip_witness:
  "\<exists>n'. dispatch (\<lambda>xs. xs) sample_ext sample_json 3 sample_node (Message 1 (NewBlock 0 [6])) =
     Some ([Deliver 12 (NewBlock 6 (be_bytes (6 :: u64))), Emit (BlockReceived 1 (sample_block 6))], n')"
proof -
  have "block_from_slice sample_json [6] = Inr (sample_block 6)"
    and "block_to_vec sample_json (sample_block 6) = Inr (be_bytes (6 :: u64))"
    by (simp_all add: sample_json_def of_be_def)
  from block_gossip [OF sample_node_inv hash_order_id this, of sample_ext 3 1 0] obtain outs n' where
    d: "dispatch (\<lambda>xs. xs) sample_ext sample_json 3 sample_node (Message 1 (NewBlock 0 [6])) =
      Some (outs @ [Emit (BlockReceived 1 (sample_block 6))], n')"
    and "mset outs = {#Deliver 12 (NewBlock 6 (be_bytes (6 :: u64)))#}"
    by (auto simp: sample_node_fields)
  then have "outs = [Deliver 12 (NewBlock 6 (be_bytes (6 :: u64)))]" by simp
  with d show ?thesis by simp
qed

theorem get_blocks_never_served_witness:
  "\<exists>n'. dispatch (\<lambda>xs. xs) sample_ext sample_json 3 sample_node (Message 1 (GetBlocks 1 64)) =
     Some ([Deliver 11 (Blocks [])], n')"
  using get_blocks_never_served [of sample_node 1 11 "\<lambda>xs. xs" sample_ext sample_json 3 1 64 sample_node 1]
  by (simp add: sample_node_fields)

theorem stale_disconnect_drops_peer_witness:
  "\<exists>outs1 n1 outs2 n2.
    dispatch (\<lambda>xs. xs) sample_ext sample_json 3 sample_node (PeerConnected 1 (V4 0 0) 0 0 13) = Some (outs1, n1) \<and>
    map_of (peer_senders n1) 1 = Some 13 \<and>
    dispatch (\<lambda>xs. xs) sample_ext sample_json 3 n1 (PeerDisconnected 1) = Some (outs2, n2) \<and>
    map_of (peer_senders n2) 1 = None \<and> get_peer (peer_manager n2) 1 = None"
  by (rule stale_disconnect_drops_peer [OF sample_node_inv, of 1 11]) (simp add: sample_node_fields)

end
