(* ===== verification/State_DB.thy ===== *)
theory State_DB
  imports Prelude
begin

text \<open>
  The in-memory state database of \<open>crates/eth2077-execution/src/state.rs\<close>: accounts,
  per-account storage and block hashes, each a hash map.
\<close>

record AccountInfo =
  acct_balance :: U256
  acct_nonce :: u64
  acct_code_hash :: B256
  acct_code :: "bytes option"

definition AccountInfo_default :: AccountInfo where
  "AccountInfo_default =
     \<lparr>acct_balance = 0, acct_nonce = 0, acct_code_hash = 0, acct_code = None\<rparr>"

record InMemoryStateDB =
  db_accounts :: "(Address, AccountInfo) hashmap"
  db_storage :: "(Address, (U256, U256) hashmap) hashmap"
  db_block_hashes :: "(u64, B256) hashmap"

definition InMemoryStateDB_new :: InMemoryStateDB where
  "InMemoryStateDB_new = \<lparr>db_accounts = [], db_storage = [], db_block_hashes = []\<rparr>"

definition insert_account :: "Address \<Rightarrow> AccountInfo \<Rightarrow> InMemoryStateDB \<Rightarrow> InMemoryStateDB" where
  "insert_account address info s = s\<lparr>db_accounts := hm_insert address info (db_accounts s)\<rparr>"

definition get_account :: "InMemoryStateDB \<Rightarrow> Address \<Rightarrow> AccountInfo" where
  "get_account s address =
     (case map_of (db_accounts s) address of Some info \<Rightarrow> info | None \<Rightarrow> AccountInfo_default)"

definition set_storage :: "Address \<Rightarrow> U256 \<Rightarrow> U256 \<Rightarrow> InMemoryStateDB \<Rightarrow> InMemoryStateDB" where
  "set_storage address slot value s =
     s\<lparr>db_storage :=
         hm_insert address
           (hm_insert slot value
              (case map_of (db_storage s) address of Some slots \<Rightarrow> slots | None \<Rightarrow> []))
           (db_storage s)\<rparr>"

definition get_storage :: "InMemoryStateDB \<Rightarrow> Address \<Rightarrow> U256 \<Rightarrow> U256" where
  "get_storage s address slot =
     (case map_of (db_storage s) address of
        None \<Rightarrow> 0
      | Some slots \<Rightarrow> (case map_of slots slot of Some v \<Rightarrow> v | None \<Rightarrow> 0))"

definition insert_block_hash :: "u64 \<Rightarrow> B256 \<Rightarrow> InMemoryStateDB \<Rightarrow> InMemoryStateDB" where
  "insert_block_hash n h s = s\<lparr>db_block_hashes := hm_insert n h (db_block_hashes s)\<rparr>"

definition get_block_hash :: "InMemoryStateDB \<Rightarrow> u64 \<Rightarrow> B256" where
  "get_block_hash s n = (case map_of (db_block_hashes s) n of Some h \<Rightarrow> h | None \<Rightarrow> 0)"

definition account_exists :: "InMemoryStateDB \<Rightarrow> Address \<Rightarrow> bool" where
  "account_exists s address \<longleftrightarrow> map_of (db_accounts s) address \<noteq> None"

definition remove_account :: "Address \<Rightarrow> InMemoryStateDB \<Rightarrow> InMemoryStateDB" where
  "remove_account address s =
     s\<lparr>db_accounts := hm_remove address (db_accounts s),
       db_storage := hm_remove address (db_storage s)\<rparr>"

definition clear_storage :: "Address \<Rightarrow> InMemoryStateDB \<Rightarrow> InMemoryStateDB" where
  "clear_storage address s = s\<lparr>db_storage := hm_remove address (db_storage s)\<rparr>"

definition accounts :: "InMemoryStateDB \<Rightarrow> Address list" where
  "accounts s = map fst (db_accounts s)"

section \<open>Representation invariant\<close>

definition db_inv :: "InMemoryStateDB \<Rightarrow> bool" where
  "db_inv s \<longleftrightarrow> hm_inv (db_accounts s) \<and> hm_inv (db_storage s) \<and> hm_inv (db_block_hashes s)
     \<and> (\<forall>a slots. map_of (db_storage s) a = Some slots \<longrightarrow> hm_inv slots)"

named_theorems db_inv_intros \<open>operations that keep the state database's invariant\<close>

lemma db_inv_new [db_inv_intros]: "db_inv InMemoryStateDB_new"
  by (simp add: db_inv_def InMemoryStateDB_new_def)

lemma db_inv_insert_account [db_inv_intros]: "db_inv s \<Longrightarrow> db_inv (insert_account a i s)"
  by (simp add: db_inv_def insert_account_def)

lemma db_inv_set_storage [db_inv_intros]: "db_inv s \<Longrightarrow> db_inv (set_storage a k v s)"
  by (simp add: db_inv_def set_storage_def split: option.splits)

lemma db_inv_insert_block_hash [db_inv_intros]: "db_inv s \<Longrightarrow> db_inv (insert_block_hash n h s)"
  by (simp add: db_inv_def insert_block_hash_def)

lemma db_inv_remove_account [db_inv_intros]: "db_inv s \<Longrightarrow> db_inv (remove_account a s)"
  by (simp add: db_inv_def remove_account_def)

lemma db_inv_clear_storage [db_inv_intros]: "db_inv s \<Longrightarrow> db_inv (clear_storage a s)"
  by (simp add: db_inv_def clear_storage_def)

section \<open>The contract the executor relies on\<close>

text \<open>
  An account store: what the reads return after each write.  The executor's commit
  phase is proved against these laws only.
\<close>

locale account_store =
  fixes account :: "'s \<Rightarrow> 'a \<Rightarrow> 'i"
    and exists_account :: "'s \<Rightarrow> 'a \<Rightarrow> bool"
    and slot :: "'s \<Rightarrow> 'a \<Rightarrow> 'k \<Rightarrow> 'v"
    and put_account :: "'a \<Rightarrow> 'i \<Rightarrow> 's \<Rightarrow> 's"
    and drop_account :: "'a \<Rightarrow> 's \<Rightarrow> 's"
    and put_slot :: "'a \<Rightarrow> 'k \<Rightarrow> 'v \<Rightarrow> 's \<Rightarrow> 's"
    and drop_slots :: "'a \<Rightarrow> 's \<Rightarrow> 's"
    and no_account :: 'i
    and no_value :: 'v
  assumes account_put: "account (put_account a i s) b = (if b = a then i else account s b)"
    and exists_put: "exists_account (put_account a i s) b = (b = a \<or> exists_account s b)"
    and slot_put_account: "slot (put_account a i s) b k = slot s b k"
    and account_drop: "account (drop_account a s) b = (if b = a then no_account else account s b)"
    and exists_drop: "exists_account (drop_account a s) b = (b \<noteq> a \<and> exists_account s b)"
    and slot_drop: "slot (drop_account a s) b k = (if b = a then no_value else slot s b k)"
    and account_put_slot: "account (put_slot a k v s) b = account s b"
    and exists_put_slot: "exists_account (put_slot a k v s) b = exists_account s b"
    and slot_put_slot:
      "slot (put_slot a k v s) b k' = (if b = a \<and> k' = k then v else slot s b k')"
    and account_drop_slots: "account (drop_slots a s) b = account s b"
    and exists_drop_slots: "exists_account (drop_slots a s) b = exists_account s b"
    and slot_drop_slots: "slot (drop_slots a s) b k = (if b = a then no_value else slot s b k)"
begin

lemmas reads_after_writes =
  account_put exists_put slot_put_account account_drop exists_drop slot_drop
  account_put_slot exists_put_slot slot_put_slot account_drop_slots exists_drop_slots
  slot_drop_slots

text \<open>A run of slot writes to one account: the last write to a slot is the one read.\<close>

lemma account_slot_writes [simp]:
  "account (fold (\<lambda>(k, v). put_slot a k v) kvs s) b = account s b"
  "exists_account (fold (\<lambda>(k, v). put_slot a k v) kvs s) b = exists_account s b"
  by (induction kvs arbitrary: s) (auto simp: reads_after_writes)

lemma slot_slot_writes:
  "slot (fold (\<lambda>(k, v). put_slot a k v) kvs s) b k =
     (if b = a then (case map_of (rev kvs) k of Some v \<Rightarrow> v | None \<Rightarrow> slot s b k)
      else slot s b k)"
proof (induction kvs arbitrary: s)
  case Nil
  then show ?case by simp
next
  case (Cons kv kvs)
  then show ?case
    by (cases kv) (auto simp: reads_after_writes map_add_def split: option.splits)
qed

end

interpretation db: account_store get_account account_exists get_storage
  insert_account remove_account set_storage clear_storage AccountInfo_default 0
  by unfold_locales
    (auto simp: get_account_def account_exists_def get_storage_def insert_account_def
      remove_account_def set_storage_def clear_storage_def split: option.splits)

lemmas db_reads = db.reads_after_writes db.slot_slot_writes

lemma block_hash_reads:
  "get_block_hash (insert_block_hash n h s) m = (if m = n then h else get_block_hash s m)"
  "get_account (insert_block_hash n h s) a = get_account s a"
  "get_storage (insert_block_hash n h s) a k = get_storage s a k"
  "account_exists (insert_block_hash n h s) a = account_exists s a"
  by (simp_all add: get_block_hash_def insert_block_hash_def get_account_def get_storage_def
      account_exists_def)

lemma set_accounts: "set (accounts s) = {a. account_exists s a}"
  by (force simp: accounts_def account_exists_def map_of_eq_None_iff)

lemma distinct_accounts: "db_inv s \<Longrightarrow> distinct (accounts s)"
  by (simp add: db_inv_def hm_inv_def accounts_def)

end
