(* ===== verification/Executor.thy ===== *)
theory Executor
  imports Canonical State_DB
begin

text \<open>
  Transaction execution, \<open>crates/eth2077-execution/src/executor.rs\<close>: the adapter that
  shows the state database to revm, the pre-checks of a transaction, and the commit of
  the account changes revm reports.

  The EVM itself (crate \<open>revm\<close>) is not part of the repository.  It is the parameter
  \<open>evm\<close>, a record of the functions the executor calls: the builder of the transaction
  environment, \<open>transact\<close>, and the two conversions between raw bytes and revm's
  bytecode, whose type \<open>'bc\<close> stays abstract.  The values revm returns are records of
  exactly what the executor reads from them.
\<close>

section \<open>What the executor sees of revm\<close>

datatype TxKind = Call Address | Create

record TxEnv =
  env_caller :: Address
  env_gas_limit :: u64
  env_max_fee_per_gas :: u128
  env_gas_priority_fee :: "u128 option"
  env_kind :: TxKind
  env_value :: U256
  env_data :: bytes
  env_nonce :: u64
  env_chain_id :: "u64 option"

record 'bc RevmAccountInfo =
  revm_balance :: U256
  revm_nonce :: u64
  revm_code_hash :: B256
  revm_code :: "'bc option"

record 'bc Account =
  is_selfdestructed :: bool
  is_created :: bool
  account_info :: "'bc RevmAccountInfo"
  changed_storage_slots :: "(U256 \<times> U256) list"

type_synonym 'bc EvmState = "(Address, 'bc Account) hashmap"

record ExecutionResult =
  halt_reason :: "string option"
  result_logs :: "Log list"
  result_is_success :: bool
  result_gas_used :: u64

text \<open>revm's \<open>Database\<close> trait: the reads \<open>transact\<close> may make.\<close>

record 'bc Database =
  basic :: "Address \<Rightarrow> 'bc RevmAccountInfo option"
  code_by_hash :: "B256 \<Rightarrow> 'bc"
  storage :: "Address \<Rightarrow> U256 \<Rightarrow> U256"
  block_hash_of :: "u64 \<Rightarrow> B256"

record 'bc evm =
  build_tx_env :: "TxEnv \<Rightarrow> string + TxEnv"
  transact :: "'bc Database \<Rightarrow> TxEnv \<Rightarrow> string + ExecutionResult \<times> 'bc EvmState"
  bytecode_new_raw :: "bytes \<Rightarrow> 'bc"
  bytecode_default :: 'bc
  original_bytes :: "'bc \<Rightarrow> bytes"

section \<open>The database adapter\<close>

definition revm_basic :: "'bc evm \<Rightarrow> InMemoryStateDB \<Rightarrow> Address \<Rightarrow> 'bc RevmAccountInfo option" where
  "revm_basic e s address =
     (if \<not> account_exists s address then None
      else let account = get_account s address in
        Some \<lparr>revm_balance = acct_balance account,
              revm_nonce = acct_nonce account,
              revm_code_hash = acct_code_hash account,
              revm_code = map_option (bytecode_new_raw e) (acct_code account)\<rparr>)"

text \<open>The loop over the hash map's keys; \<open>it\<close> is the order in which they are visited.\<close>

fun revm_code_by_hash_loop ::
    "'bc evm \<Rightarrow> InMemoryStateDB \<Rightarrow> B256 \<Rightarrow> Address list \<Rightarrow> 'bc" where
  "revm_code_by_hash_loop e s code_hash [] = bytecode_default e"
| "revm_code_by_hash_loop e s code_hash (address # rest) =
     (let account = get_account s address in
      if acct_code_hash account = code_hash then
        (case acct_code account of
           Some code \<Rightarrow> bytecode_new_raw e code
         | None \<Rightarrow> revm_code_by_hash_loop e s code_hash rest)
      else revm_code_by_hash_loop e s code_hash rest)"

definition revm_code_by_hash ::
    "(Address list \<Rightarrow> Address list) \<Rightarrow> 'bc evm \<Rightarrow> InMemoryStateDB \<Rightarrow> B256 \<Rightarrow> 'bc" where
  "revm_code_by_hash it e s code_hash = revm_code_by_hash_loop e s code_hash (it (accounts s))"

text \<open>
  The orders in which one execution visits its hash maps: the accounts of the database, the accounts revm
  reports, and the changed slots of an account.
\<close>

record 'bc exec_orders =
  order_accounts :: "Address list \<Rightarrow> Address list"
  order_changes :: "(Address \<times> 'bc Account) list \<Rightarrow> (Address \<times> 'bc Account) list"
  order_slots :: "(U256 \<times> U256) list \<Rightarrow> (U256 \<times> U256) list"

definition exec_orders_ok :: "'bc exec_orders \<Rightarrow> bool" where
  "exec_orders_ok it \<longleftrightarrow> hash_order (order_accounts it) \<and> hash_order (order_changes it) \<and> hash_order (order_slots it)"

definition RevmDatabase ::
    "(Address list \<Rightarrow> Address list) \<Rightarrow> 'bc evm \<Rightarrow> InMemoryStateDB \<Rightarrow> 'bc Database" where
  "RevmDatabase it e s =
     \<lparr>basic = revm_basic e s,
      code_by_hash = revm_code_by_hash it e s,
      storage = get_storage s,
      block_hash_of = get_block_hash s\<rparr>"

section \<open>Executing a transaction\<close>

datatype ExecutionError = EvmError string | InvalidTransaction string

record BlockExecutor =
  exec_state :: InMemoryStateDB

definition apply_account_change ::
    "'bc evm \<Rightarrow> Address \<Rightarrow> 'bc Account \<Rightarrow> InMemoryStateDB \<Rightarrow> InMemoryStateDB" where
  "apply_account_change e address account s =
     (if is_selfdestructed account then remove_account address s
      else
        let info = account_info account;
            code = map_option (original_bytes e) (revm_code info);
            s1 = insert_account address
                   \<lparr>acct_balance = revm_balance info, acct_nonce = revm_nonce info,
                    acct_code_hash = revm_code_hash info, acct_code = code\<rparr> s;
            s2 = (if is_created account then clear_storage address s1 else s1)
        in fold (\<lambda>(slot, value). set_storage address slot value)
             (changed_storage_slots account) s2)"

definition apply_state_changes :: "'bc evm \<Rightarrow> 'bc EvmState \<Rightarrow> InMemoryStateDB \<Rightarrow> InMemoryStateDB" where
  "apply_state_changes e changes s =
     fold (\<lambda>(address, account). apply_account_change e address account) changes s"

text \<open>What revm reports, as the two loops visit it.\<close>

definition visited :: "'bc exec_orders \<Rightarrow> 'bc EvmState \<Rightarrow> 'bc EvmState" where
  "visited it changes =
     map (\<lambda>(address, account). (address, account\<lparr>changed_storage_slots := order_slots it (changed_storage_slots account)\<rparr>))
       (order_changes it changes)"

definition tx_env_of :: "Transaction \<Rightarrow> TxEnv" where
  "tx_env_of tx =
     \<lparr>env_caller = tx_from tx,
      env_gas_limit = tx_gas_limit tx,
      env_max_fee_per_gas = ucast (max_fee_per_gas tx),
      env_gas_priority_fee = Some (ucast (max_priority_fee_per_gas tx)),
      env_kind = (case tx_to tx of Some to \<Rightarrow> Call to | None \<Rightarrow> Create),
      env_value = tx_value tx,
      env_data = tx_input tx,
      env_nonce = tx_nonce tx,
      env_chain_id = Some (tx_chain_id tx)\<rparr>"

text \<open>
  \<open>execute_tx\<close> returns the executor after the call beside the result, because the method
  takes \<open>&mut self\<close>: every error path returns it unchanged.
\<close>

definition execute_tx ::
    "'bc exec_orders \<Rightarrow> ext \<Rightarrow> 'bc evm \<Rightarrow> BlockExecutor \<Rightarrow> Transaction \<Rightarrow>
      (ExecutionError + Receipt) \<times> BlockExecutor" where
  "execute_tx it x e ex tx =
     (if max_fee_per_gas tx < max_priority_fee_per_gas tx then
        (Inl (InvalidTransaction ''max_priority_fee_per_gas exceeds max_fee_per_gas''), ex)
      else if tx_gas_limit tx = 0 then
        (Inl (InvalidTransaction ''gas_limit must be greater than zero''), ex)
      else
        (case build_tx_env e (tx_env_of tx) of
           Inl err \<Rightarrow> (Inl (InvalidTransaction err), ex)
         | Inr tx_env \<Rightarrow>
             (case transact e (RevmDatabase (order_accounts it) e (exec_state ex)) tx_env of
                Inl err \<Rightarrow> (Inl (EvmError err), ex)
              | Inr (result, changes) \<Rightarrow>
                  (case halt_reason result of
                     Some reason \<Rightarrow> (Inl (EvmError (''transaction halted: '' @ reason)), ex)
                   | None \<Rightarrow>
                       (Inr \<lparr>receipt_tx_hash = tx_hash tx,
                             receipt_status = result_is_success result,
                             cumulative_gas_used = result_gas_used result,
                             receipt_logs_bloom = alloy_logs_bloom x (result_logs result),
                             receipt_logs = result_logs result\<rparr>,
                        ex\<lparr>exec_state := apply_state_changes e (visited it changes) (exec_state ex)\<rparr>)))))"

section \<open>Properties\<close>

lemma execute_tx_error_keeps_state:
  "execute_tx it x e ex tx = (Inl err, ex') \<Longrightarrow> ex' = ex"
  by (auto simp: execute_tx_def split: if_splits sum.splits option.splits)

lemma db_inv_slot_writes: "db_inv s \<Longrightarrow> db_inv (fold (\<lambda>(k, v). set_storage a k v) kvs s)"
  by (induction kvs arbitrary: s) (auto intro: db_inv_intros)

lemma db_inv_apply_account_change [db_inv_intros]:
  "db_inv s \<Longrightarrow> db_inv (apply_account_change e a c s)"
  by (auto simp: apply_account_change_def Let_def intro!: db_inv_intros db_inv_slot_writes)

lemma db_inv_apply_state_changes [db_inv_intros]:
  "db_inv s \<Longrightarrow> db_inv (apply_state_changes e changes s)"
  unfolding apply_state_changes_def
  by (induction changes arbitrary: s) (auto intro: db_inv_intros)

lemma db_inv_execute_tx:
  "db_inv (exec_state ex) \<Longrightarrow> db_inv (exec_state (snd (execute_tx it x e ex tx)))"
  by (auto simp: execute_tx_def intro: db_inv_intros split: sum.splits option.splits)

text \<open>
  What the commit of one account does to what can be read of the database: the
  specification of an account change.
\<close>

definition committed_account :: "'bc evm \<Rightarrow> 'bc Account \<Rightarrow> AccountInfo" where
  "committed_account e c =
     (if is_selfdestructed c then AccountInfo_default
      else \<lparr>acct_balance = revm_balance (account_info c), acct_nonce = revm_nonce (account_info c),
            acct_code_hash = revm_code_hash (account_info c),
            acct_code = map_option (original_bytes e) (revm_code (account_info c))\<rparr>)"

definition committed_slot :: "'bc Account \<Rightarrow> (U256 \<Rightarrow> U256) \<Rightarrow> U256 \<Rightarrow> U256" where
  "committed_slot c old k =
     (if is_selfdestructed c then 0
      else case map_of (rev (changed_storage_slots c)) k of
             Some v \<Rightarrow> v
           | None \<Rightarrow> (if is_created c then 0 else old k))"

lemma apply_account_change_reads:
  "get_account (apply_account_change e a c s) b =
     (if b = a then committed_account e c else get_account s b)"
  "account_exists (apply_account_change e a c s) b =
     (if b = a then \<not> is_selfdestructed c else account_exists s b)"
  "get_storage (apply_account_change e a c s) b k =
     (if b = a then committed_slot c (get_storage s a) k else get_storage s b k)"
  by (auto simp: apply_account_change_def committed_account_def committed_slot_def Let_def
      db_reads split: option.splits)

lemma apply_account_change_block_hash:
  "get_block_hash (apply_account_change e a c s) n = get_block_hash s n"
proof -
  have writes: "get_block_hash (fold (\<lambda>(k, v). set_storage a k v) kvs t) n = get_block_hash t n"
    for kvs t
    by (induction kvs arbitrary: t) (auto simp: set_storage_def get_block_hash_def)
  show ?thesis
    by (simp add: apply_account_change_def Let_def writes)
      (simp add: get_block_hash_def remove_account_def insert_account_def clear_storage_def)
qed

lemma apply_state_changes_Cons:
  "apply_state_changes e ((a, c) # changes) s =
     apply_state_changes e changes (apply_account_change e a c s)"
  by (simp add: apply_state_changes_def)

lemma apply_state_changes_frame:
  "a \<notin> fst ` set changes \<Longrightarrow>
     get_account (apply_state_changes e changes s) a = get_account s a \<and>
     account_exists (apply_state_changes e changes s) a = account_exists s a \<and>
     get_storage (apply_state_changes e changes s) a k = get_storage s a k"
proof (induction changes arbitrary: s)
  case Nil
  then show ?case by (simp add: apply_state_changes_def)
next
  case (Cons ac changes)
  then show ?case
    by (cases ac) (simp add: apply_state_changes_Cons apply_account_change_reads)
qed

lemma apply_state_changes_reads:
  assumes "distinct (map fst changes)"
  shows "get_account (apply_state_changes e changes s) a =
           (case map_of changes a of None \<Rightarrow> get_account s a | Some c \<Rightarrow> committed_account e c) \<and>
         account_exists (apply_state_changes e changes s) a =
           (case map_of changes a of None \<Rightarrow> account_exists s a | Some c \<Rightarrow> \<not> is_selfdestructed c) \<and>
         get_storage (apply_state_changes e changes s) a k =
           (case map_of changes a of
              None \<Rightarrow> get_storage s a k | Some c \<Rightarrow> committed_slot c (get_storage s a) k)"
  using assms
proof (induction changes arbitrary: s)
  case Nil
  then show ?case by (simp add: apply_state_changes_def)
next
  case (Cons ac changes)
  obtain b c where ac: "ac = (b, c)" by (cases ac)
  show ?case
  proof (cases "a = b")
    case True
    with Cons.prems have "a \<notin> fst ` set changes" by (simp add: ac)
    then show ?thesis
      using apply_state_changes_frame [of a changes e "apply_account_change e b c s"] True
      by (simp add: ac apply_state_changes_Cons apply_account_change_reads)
  next
    case False
    then have "get_storage (apply_account_change e b c s) a = get_storage s a"
      by (intro ext) (simp add: apply_account_change_reads)
    then show ?thesis
      using Cons.IH [of "apply_account_change e b c s"] Cons.prems False
      by (cases "map_of changes a")
        (simp_all add: ac apply_state_changes_Cons apply_account_change_reads)
  qed
qed

text \<open>C39.  Committing the account changes revm reports: an account revm did not report is
  untouched; a reported account that self-destructed reads as absent, with no storage;
  any other reported account reads with exactly the reported balance, nonce, code hash
  and code, each storage slot with the value reported for it, and an unreported slot
  with 0 if the account was created by the transaction and its old value otherwise.
  The entries of the hash map may be visited in any order.
\<close>

theorem apply_state_changes_spec:
  assumes "hash_order it" and "hm_inv changes"
  shows "get_account (apply_state_changes e (it changes) s) a =
           (case map_of changes a of None \<Rightarrow> get_account s a | Some c \<Rightarrow> committed_account e c) \<and>
         account_exists (apply_state_changes e (it changes) s) a =
           (case map_of changes a of None \<Rightarrow> account_exists s a | Some c \<Rightarrow> \<not> is_selfdestructed c) \<and>
         get_storage (apply_state_changes e (it changes) s) a k =
           (case map_of changes a of
              None \<Rightarrow> get_storage s a k | Some c \<Rightarrow> committed_slot c (get_storage s a) k)"
  using apply_state_changes_reads [of "it changes" e s a k] hash_order_hm [OF assms]
  by (simp add: hm_inv_def)

text \<open>What can be read of a database.  Executions that visit their hash maps in different orders, on databases that
  read alike, lead to databases that read alike.\<close>

definition same_reads :: "InMemoryStateDB \<Rightarrow> InMemoryStateDB \<Rightarrow> bool" where
  "same_reads s s' \<longleftrightarrow> get_account s = get_account s' \<and> account_exists s = account_exists s' \<and>
     get_storage s = get_storage s' \<and> get_block_hash s = get_block_hash s'"

lemma same_reads_refl [simp]: "same_reads s s"
  by (simp add: same_reads_def)

text \<open>The maps revm returns have each key once.\<close>

definition evm_returns_maps :: "'bc evm \<Rightarrow> bool" where
  "evm_returns_maps e \<longleftrightarrow>
     (\<forall>db env result changes. transact e db env = Inr (result, changes) \<longrightarrow>
        hm_inv changes \<and> (\<forall>(a, c) \<in> set changes. hm_inv (changed_storage_slots c)))"

lemma map_of_map_snd: "map_of (map (\<lambda>(a, c). (a, f c)) xs) a = map_option f (map_of xs a)"
  by (induction xs) auto

lemma visited_reads:
  assumes "exec_orders_ok it" and "hm_inv changes"
  shows "map_of (visited it changes) a =
      map_option (\<lambda>c. c\<lparr>changed_storage_slots := order_slots it (changed_storage_slots c)\<rparr>) (map_of changes a)"
    and "distinct (map fst (visited it changes))"
proof -
  have "hm_inv (order_changes it changes)" and eq: "map_of (order_changes it changes) = map_of changes"
    using assms hash_order_hm [of "order_changes it" changes] by (simp_all add: exec_orders_ok_def)
  then show "distinct (map fst (visited it changes))"
    by (simp add: visited_def hm_inv_def comp_def case_prod_unfold)
  show "map_of (visited it changes) a =
      map_option (\<lambda>c. c\<lparr>changed_storage_slots := order_slots it (changed_storage_slots c)\<rparr>) (map_of changes a)"
    unfolding visited_def eq [symmetric] by (rule map_of_map_snd)
qed

lemma slots_order:
  assumes "hash_order it" and "hm_inv kvs"
  shows "map_of (rev (it kvs)) = map_of kvs"
proof -
  have "hm_inv (it kvs)" and "map_of (it kvs) = map_of kvs" using hash_order_hm [OF assms] by simp_all
  then show ?thesis using hm_perm(2) [of "it kvs" "rev (it kvs)"] by simp
qed

lemma committed_order:
  "committed_account e (c\<lparr>changed_storage_slots := kvs\<rparr>) = committed_account e c"
  "hash_order it \<Longrightarrow> hm_inv (changed_storage_slots c) \<Longrightarrow>
     committed_slot (c\<lparr>changed_storage_slots := it (changed_storage_slots c)\<rparr>) old k =
       (if is_selfdestructed c then 0
        else case map_of (changed_storage_slots c) k of Some v \<Rightarrow> v | None \<Rightarrow> (if is_created c then 0 else old k))"
  by (simp_all add: committed_account_def committed_slot_def slots_order)

lemma apply_state_changes_block_hash:
  "get_block_hash (apply_state_changes e changes s) n = get_block_hash s n"
  unfolding apply_state_changes_def
  by (induction changes arbitrary: s) (auto simp: apply_account_change_block_hash)

lemma commit_order:
  assumes "exec_orders_ok it" and "exec_orders_ok it'" and "same_reads s s'"
    and "hm_inv changes" and "\<forall>(a, c) \<in> set changes. hm_inv (changed_storage_slots c)"
  shows "same_reads (apply_state_changes e (visited it changes) s) (apply_state_changes e (visited it' changes) s')"
proof -
  have slots: "hm_inv (changed_storage_slots c)" if "map_of changes a = Some c" for a c
    using assms(5) map_of_SomeD [OF that] by blast
  have orders: "hash_order (order_slots it)" "hash_order (order_slots it')"
    using assms(1,2) by (simp_all add: exec_orders_ok_def)
  note reads = apply_state_changes_reads [OF visited_reads(2) [OF assms(1,4)], of e s]
    apply_state_changes_reads [OF visited_reads(2) [OF assms(2,4)], of e s']
    visited_reads(1) [OF assms(1,4)] visited_reads(1) [OF assms(2,4)]
  have s: "get_account s = get_account s'" "account_exists s = account_exists s'" "get_storage s = get_storage s'"
    "get_block_hash s = get_block_hash s'" using assms(3) by (simp_all add: same_reads_def)
  show ?thesis
    unfolding same_reads_def
    by (intro conjI ext; simp add: reads s apply_state_changes_block_hash committed_order(1) split: option.splits)
      (auto simp: committed_order(2) [OF orders(1)] committed_order(2) [OF orders(2)] slots s)
qed

section \<open>Sample values\<close>

text \<open>An EVM that accepts every transaction and changes nothing.\<close>

definition sample_evm :: "bytes evm" where
  "sample_evm =
     \<lparr>build_tx_env = Inr,
      transact = (\<lambda>db env. Inr (\<lparr>halt_reason = None, result_logs = [], result_is_success = True,
        result_gas_used = 21000\<rparr>, [])),
      bytecode_new_raw = (\<lambda>bs. bs), bytecode_default = [], original_bytes = (\<lambda>bs. bs)\<rparr>"

definition sample_tx :: Transaction where
  "sample_tx =
     \<lparr>tx_hash = 9, tx_nonce = 0, tx_from = 1, tx_to = Some 2, tx_value = 5, tx_gas_limit = 21000,
      max_fee_per_gas = 10, max_priority_fee_per_gas = 1, tx_input = [], tx_chain_id = 2077,
      signature_r = 0, signature_s = 0, signature_v = 0\<rparr>"

definition sample_change :: "bytes Account" where
  "sample_change =
     \<lparr>is_selfdestructed = False, is_created = False,
      account_info = \<lparr>revm_balance = 5, revm_nonce = 1, revm_code_hash = 0, revm_code = None\<rparr>,
      changed_storage_slots = [(3, 4)]\<rparr>"

theorem apply_state_changes_spec_witness:
  "acct_balance (get_account (apply_state_changes sample_evm [(1, sample_change)] InMemoryStateDB_new) 1) = 5 \<and>
   get_storage (apply_state_changes sample_evm [(1, sample_change)] InMemoryStateDB_new) 1 3 = 4"
  using apply_state_changes_spec [of "\<lambda>xs. xs" "[(1, sample_change)]" sample_evm InMemoryStateDB_new 1 3]
  by (simp add: hm_inv_def committed_account_def committed_slot_def sample_change_def)

end
