(* ===== verification/Payload_Converter.thy ===== *)
theory Payload_Converter
  imports Prelude
begin

unbundle bit_operations_syntax

text \<open>
  The hexadecimal payloads of the Engine API (\<open>crates/eth2077-bridge/src/engine_api.rs\<close>) and
  their conversion to and from the internal block
  (\<open>crates/eth2077-bridge/src/payload_converter.rs\<close>).  Strings are lists of ASCII characters;
  \<open>str::trim\<close>, \<open>strip_prefix\<close>, \<open>from_str_radix\<close> and the \<open>{:x}\<close> format are the standard
  library's on such strings.
\<close>

section \<open>Strings of the standard library\<close>

definition is_ascii_whitespace :: "char \<Rightarrow> bool" where
  "is_ascii_whitespace c \<longleftrightarrow> (let n = of_char c :: nat in n = 32 \<or> 9 \<le> n \<and> n \<le> 13)"

definition trim :: "string \<Rightarrow> string" where
  "trim s = rev (dropWhile is_ascii_whitespace (rev (dropWhile is_ascii_whitespace s)))"

definition strip_prefix :: "string \<Rightarrow> string \<Rightarrow> string option" where
  "strip_prefix p s = (if take (length p) s = p then Some (drop (length p) s) else None)"

definition hex_char :: "nat \<Rightarrow> char" where
  "hex_char n = ''0123456789abcdef'' ! n"

definition decode_hex_nibble :: "char \<Rightarrow> nat option" where
  "decode_hex_nibble c =
     (let n = of_char c :: nat in
      if 48 \<le> n \<and> n \<le> 57 then Some (n - 48)
      else if 97 \<le> n \<and> n \<le> 102 then Some (n - 97 + 10)
      else if 65 \<le> n \<and> n \<le> 70 then Some (n - 65 + 10)
      else None)"

text \<open>\<open>format!("{:x}")\<close>\<close>

fun hex_digits :: "nat \<Rightarrow> string" where
  "hex_digits n = (if n < 16 then [hex_char n] else hex_digits (n div 16) @ [hex_char (n mod 16)])"

declare hex_digits.simps [simp del]

fun parse_digits :: "nat \<Rightarrow> string \<Rightarrow> nat option" where
  "parse_digits acc [] = Some acc"
| "parse_digits acc (c # cs) =
     (case decode_hex_nibble c of None \<Rightarrow> None | Some d \<Rightarrow> parse_digits (acc * 16 + d) cs)"

text \<open>
  \<open>from_str_radix(s, 16)\<close> of an unsigned type: a leading plus sign is accepted, an empty
  string, an invalid digit and a value out of range are errors.
\<close>

definition from_str_radix16 :: "string \<Rightarrow> 'a::len word option" where
  "from_str_radix16 s =
     (let digits = (if s \<noteq> [] \<and> hd s = CHR ''+'' then tl s else s) in
      if digits = [] then None
      else case parse_digits 0 digits of
        Some v \<Rightarrow> if v < 2 ^ LENGTH('a) then Some (of_nat v) else None
      | None \<Rightarrow> None)"

section \<open>Encoding and decoding\<close>

definition strip_0x :: "string \<Rightarrow> string" where
  "strip_0x input =
     (let raw = trim input in
      case strip_prefix ''0x'' raw of
        Some r \<Rightarrow> r
      | None \<Rightarrow> (case strip_prefix ''0X'' raw of Some r \<Rightarrow> r | None \<Rightarrow> raw))"

definition encode_hex_bytes :: "bytes \<Rightarrow> string" where
  "encode_hex_bytes bs =
     ''0x'' @ concat (map (\<lambda>b. [hex_char (unat (drop_bit 4 b)), hex_char (unat (b AND 0x0f))]) bs)"

fun decode_hex_pairs :: "string \<Rightarrow> bytes option" where
  "decode_hex_pairs (h # l # rest) =
     (case (decode_hex_nibble h, decode_hex_nibble l) of
        (Some hi, Some lo) \<Rightarrow> map_option (Cons (push_bit 4 (of_nat hi) OR of_nat lo)) (decode_hex_pairs rest)
      | _ \<Rightarrow> None)"
| "decode_hex_pairs _ = Some []"

definition decode_hex_bytes :: "string \<Rightarrow> bytes option" where
  "decode_hex_bytes input =
     (let raw = strip_0x input in
      if raw = [] then Some []
      else if length raw mod 2 \<noteq> 0 then None
      else decode_hex_pairs raw)"

definition decode_fixed_hex_bytes :: "nat \<Rightarrow> string \<Rightarrow> bytes" where
  "decode_fixed_hex_bytes n input =
     (let decoded = (case decode_hex_bytes input of Some bs \<Rightarrow> bs | None \<Rightarrow> []) in
      if n \<le> length decoded then drop (length decoded - n) decoded
      else replicate (n - length decoded) 0 @ decoded)"

definition encode_hex_quantity_u64 :: "u64 \<Rightarrow> string" where
  "encode_hex_quantity_u64 v = ''0x'' @ hex_digits (unat v)"

definition encode_hex_quantity_u128 :: "u128 \<Rightarrow> string" where
  "encode_hex_quantity_u128 v = ''0x'' @ hex_digits (unat v)"

definition decode_hex_quantity_u64 :: "string \<Rightarrow> u64" where
  "decode_hex_quantity_u64 value =
     (let raw = strip_0x value in
      if raw = [] then 0 else case from_str_radix16 raw of Some v \<Rightarrow> v | None \<Rightarrow> 0)"

definition decode_hex_quantity_u128 :: "string \<Rightarrow> u128" where
  "decode_hex_quantity_u128 value =
     (let raw = strip_0x value in
      if raw = [] then 0 else case from_str_radix16 raw of Some v \<Rightarrow> v | None \<Rightarrow> 0)"

section \<open>Blocks and payloads\<close>

record WithdrawalV1 =
  wd_index :: string
  wd_validator_index :: string
  wd_address :: string
  wd_amount :: string

record ExecutionPayloadV3 =
  ep_parent_hash :: string
  ep_fee_recipient :: string
  ep_state_root :: string
  ep_receipts_root :: string
  ep_logs_bloom :: string
  ep_prev_randao :: string
  ep_block_number :: string
  ep_gas_limit :: string
  ep_gas_used :: string
  ep_timestamp :: string
  ep_extra_data :: string
  ep_base_fee_per_gas :: string
  ep_block_hash :: string
  ep_transactions :: "string list"
  ep_withdrawals :: "WithdrawalV1 list"
  ep_blob_gas_used :: string
  ep_excess_blob_gas :: string

record Eth2077Block =
  eb_parent_hash :: B256
  eb_fee_recipient :: Address
  eb_state_root :: B256
  eb_receipts_root :: B256
  eb_block_number :: u64
  eb_gas_limit :: u64
  eb_gas_used :: u64
  eb_timestamp :: u64
  eb_base_fee_per_gas :: u128
  eb_transactions :: "bytes list"
  eb_withdrawals :: "WithdrawalV1 list"

definition to_execution_payload :: "Eth2077Block \<Rightarrow> ExecutionPayloadV3" where
  "to_execution_payload b =
     \<lparr>ep_parent_hash = encode_hex_bytes (be_bytes (eb_parent_hash b)),
      ep_fee_recipient = encode_hex_bytes (be_bytes (eb_fee_recipient b)),
      ep_state_root = encode_hex_bytes (be_bytes (eb_state_root b)),
      ep_receipts_root = encode_hex_bytes (be_bytes (eb_receipts_root b)),
      ep_logs_bloom = encode_hex_bytes (replicate 256 0),
      ep_prev_randao = encode_hex_bytes (replicate 32 0),
      ep_block_number = encode_hex_quantity_u64 (eb_block_number b),
      ep_gas_limit = encode_hex_quantity_u64 (eb_gas_limit b),
      ep_gas_used = encode_hex_quantity_u64 (eb_gas_used b),
      ep_timestamp = encode_hex_quantity_u64 (eb_timestamp b),
      ep_extra_data = ''0x'',
      ep_base_fee_per_gas = encode_hex_quantity_u128 (eb_base_fee_per_gas b),
      ep_block_hash = encode_hex_bytes (replicate 32 0),
      ep_transactions = map encode_hex_bytes (eb_transactions b),
      ep_withdrawals = eb_withdrawals b,
      ep_blob_gas_used = ''0x0'',
      ep_excess_blob_gas = ''0x0''\<rparr>"

definition of_execution_payload :: "ExecutionPayloadV3 \<Rightarrow> Eth2077Block" where
  "of_execution_payload p =
     \<lparr>eb_parent_hash = of_nat (of_be (decode_fixed_hex_bytes 32 (ep_parent_hash p))),
      eb_fee_recipient = of_nat (of_be (decode_fixed_hex_bytes 20 (ep_fee_recipient p))),
      eb_state_root = of_nat (of_be (decode_fixed_hex_bytes 32 (ep_state_root p))),
      eb_receipts_root = of_nat (of_be (decode_fixed_hex_bytes 32 (ep_receipts_root p))),
      eb_block_number = decode_hex_quantity_u64 (ep_block_number p),
      eb_gas_limit = decode_hex_quantity_u64 (ep_gas_limit p),
      eb_gas_used = decode_hex_quantity_u64 (ep_gas_used p),
      eb_timestamp = decode_hex_quantity_u64 (ep_timestamp p),
      eb_base_fee_per_gas = decode_hex_quantity_u128 (ep_base_fee_per_gas p),
      eb_transactions =
        map (\<lambda>tx. case decode_hex_bytes tx of Some bs \<Rightarrow> bs | None \<Rightarrow> []) (ep_transactions p),
      eb_withdrawals = ep_withdrawals p\<rparr>"

section \<open>Round trips\<close>

lemma hex_char_cases: "n < 16 \<Longrightarrow> hex_char n \<in> set ''0123456789abcdef''"
  unfolding hex_char_def by (rule nth_mem) simp

lemma decode_hex_char:
  assumes "n < 16"
  shows "decode_hex_nibble (hex_char n) = Some n"
proof -
  have "\<forall>n \<in> set [0..<16]. decode_hex_nibble (hex_char n) = Some n"
    by (simp add: upt_rec hex_char_def decode_hex_nibble_def)
  with assms show ?thesis by simp
qed

lemma hex_char_plain:
  "n < 16 \<Longrightarrow> \<not> is_ascii_whitespace (hex_char n) \<and> hex_char n \<noteq> CHR ''+''"
  using hex_char_cases [of n] by (auto simp: is_ascii_whitespace_def)

lemma nibbles:
  fixes b :: u8
  shows "unat (drop_bit 4 b) < 16" and "unat (b AND 0x0f) < 16"
    and "push_bit 4 (drop_bit 4 b) OR (b AND 0x0f) = b"
proof -
  have low: "b AND 0x0f = take_bit 4 b"
    by (simp add: take_bit_eq_mask mask_eq_exp_minus_1)
  have "unat b < 256" using unsigned_less [of b] by simp
  then show "unat (drop_bit 4 b) < 16"
    by (simp add: drop_bit_eq_div unat_div_distrib)
  show "unat (b AND 0x0f) < 16"
    unfolding low by (simp add: take_bit_eq_mod unat_mod_distrib)
  show "push_bit 4 (drop_bit 4 b) OR (b AND 0x0f) = b"
    unfolding low by (rule bit_word_eqI) (auto simp: bit_simps)
qed

lemma whitespace_literals [simp]:
  "is_ascii_whitespace (CHR '' '')" "\<not> is_ascii_whitespace (CHR ''0'')"
  "\<not> is_ascii_whitespace (CHR ''x'')" "\<not> is_ascii_whitespace (CHR ''X'')"
  by (simp_all add: is_ascii_whitespace_def)

text \<open>Text that starts with \<open>0x\<close> and holds only digits is stripped of its prefix only.\<close>

lemma dropWhile_plain: "list_all (\<lambda>c. \<not> P c) s \<Longrightarrow> dropWhile P s = s"
  by (cases s) auto

lemma trim_around:
  assumes "list_all is_ascii_whitespace a" and "list_all is_ascii_whitespace b"
    and "list_all (\<lambda>c. \<not> is_ascii_whitespace c) s" and "s \<noteq> []"
  shows "trim (a @ s @ b) = s"
proof -
  have "dropWhile is_ascii_whitespace (a @ s @ b) = s @ b"
    using assms(1,3,4) by (cases s) (simp_all add: list_all_iff)
  moreover have "dropWhile is_ascii_whitespace (rev b @ rev s) = dropWhile is_ascii_whitespace (rev s)"
    using assms(2) by (intro dropWhile_append2) (simp add: list_all_iff)
  moreover have "dropWhile is_ascii_whitespace (rev s) = rev s"
    using assms(3) by (simp add: dropWhile_plain)
  ultimately show ?thesis by (simp add: trim_def)
qed

lemma trim_plain:
  assumes "list_all (\<lambda>c. \<not> is_ascii_whitespace c) s"
  shows "trim s = s"
  using assms trim_around [of "[]" "[]" s] by (cases "s = []") (simp_all add: trim_def)

lemma strip_0x_plain:
  assumes "list_all (\<lambda>c. \<not> is_ascii_whitespace c) s"
  shows "strip_0x (''0x'' @ s) = s"
proof -
  have "trim (''0x'' @ s) = ''0x'' @ s"
    by (rule trim_plain) (simp add: assms)
  then show ?thesis by (simp add: strip_0x_def strip_prefix_def)
qed

lemma hex_bytes_plain:
  "list_all (\<lambda>c. \<not> is_ascii_whitespace c)
     (concat (map (\<lambda>b. [hex_char (unat (drop_bit 4 b)), hex_char (unat (b AND 0x0f))]) (bs :: bytes)))"
  by (induction bs) (simp_all add: hex_char_plain nibbles)

lemma decode_hex_pairs_encode:
  "decode_hex_pairs (concat (map (\<lambda>b. [hex_char (unat (drop_bit 4 b)), hex_char (unat (b AND 0x0f))]) bs)) = Some bs"
  by (induction bs) (simp_all add: decode_hex_char nibbles)

lemma decode_encode_hex_bytes: "decode_hex_bytes (encode_hex_bytes bs) = Some bs"
proof -
  let ?s = "concat (map (\<lambda>b. [hex_char (unat (drop_bit 4 b)), hex_char (unat (b AND 0x0f))]) bs)"
  have "strip_0x (''0x'' @ ?s) = ?s" by (rule strip_0x_plain) (rule hex_bytes_plain)
  moreover have "length ?s mod 2 = 0" by (induction bs) auto
  moreover have "?s = [] \<longleftrightarrow> bs = []" by (cases bs) auto
  ultimately show ?thesis
    by (auto simp: decode_hex_bytes_def encode_hex_bytes_def decode_hex_pairs_encode Let_def)
qed

lemma decode_fixed_encode: "length bs = n \<Longrightarrow> decode_fixed_hex_bytes n (encode_hex_bytes bs) = bs"
  by (simp add: decode_fixed_hex_bytes_def decode_encode_hex_bytes)

subsection \<open>Quantities\<close>

lemma hex_digits_nonempty: "hex_digits n \<noteq> []"
  by (subst hex_digits.simps) simp

lemma hex_digits_plain: "list_all (\<lambda>c. \<not> is_ascii_whitespace c \<and> c \<noteq> CHR ''+'') (hex_digits n)"
proof (induction n rule: hex_digits.induct)
  case (1 n)
  then show ?case by (subst hex_digits.simps) (simp add: hex_char_plain)
qed

lemma hex_digits_sign: "hd (hex_digits n) \<noteq> CHR ''+''"
  using hex_digits_plain [of n] hex_digits_nonempty [of n] by (cases "hex_digits n") auto

lemma parse_digits_append:
  "parse_digits acc (s @ t) = (case parse_digits acc s of None \<Rightarrow> None | Some v \<Rightarrow> parse_digits v t)"
  by (induction s arbitrary: acc) (auto split: option.splits)

lemma parse_hex_digits: "parse_digits 0 (hex_digits n) = Some n"
proof (induction n rule: hex_digits.induct)
  case (1 n)
  then show ?case
    by (subst hex_digits.simps) (simp add: parse_digits_append decode_hex_char)
qed

lemma from_str_radix16_digits:
  fixes v :: "'a::len word"
  shows "from_str_radix16 (hex_digits (unat v)) = Some v"
proof -
  have "hd (hex_digits (unat v)) \<noteq> CHR ''+''" by (rule hex_digits_sign)
  then show ?thesis
    by (simp add: from_str_radix16_def hex_digits_nonempty parse_hex_digits)
qed

lemma strip_0x_digits: "strip_0x (''0x'' @ hex_digits n) = hex_digits n"
  using hex_digits_plain [of n] by (intro strip_0x_plain) (simp add: list_all_iff)

lemma quantity_u64: "decode_hex_quantity_u64 (encode_hex_quantity_u64 v) = v"
  by (simp only: decode_hex_quantity_u64_def encode_hex_quantity_u64_def strip_0x_digits Let_def
      hex_digits_nonempty from_str_radix16_digits if_False option.case)

lemma quantity_u128: "decode_hex_quantity_u128 (encode_hex_quantity_u128 v) = v"
  by (simp only: decode_hex_quantity_u128_def encode_hex_quantity_u128_def strip_0x_digits Let_def
      hex_digits_nonempty from_str_radix16_digits if_False option.case)

text \<open>C9.  Converting a block to an execution payload and back gives the same block, for every field
  the block has.\<close>

theorem payload_roundtrip: "of_execution_payload (to_execution_payload b) = b"
proof -
  have "map (\<lambda>tx. case decode_hex_bytes tx of Some bs \<Rightarrow> bs | None \<Rightarrow> []) (map encode_hex_bytes txs) = txs" for txs
    by (simp add: decode_encode_hex_bytes comp_def)
  then show ?thesis
    by (simp add: of_execution_payload_def to_execution_payload_def decode_fixed_encode of_be_be_bytes
        quantity_u64 quantity_u128)
qed

text \<open>What a quantity is read as: a hexadecimal number is read exactly when it fits its type, and
  silently as zero when it does not.\<close>

theorem quantity_read:
  "decode_hex_quantity_u64 (''0x'' @ hex_digits n) = (if n < 2 ^ 64 then of_nat n else 0)"
proof -
  have "(from_str_radix16 (hex_digits n) :: u64 option) = (if n < 2 ^ 64 then Some (of_nat n) else None)"
    by (simp add: from_str_radix16_def parse_hex_digits hex_digits_nonempty hex_digits_sign)
  then show ?thesis
    unfolding decode_hex_quantity_u64_def strip_0x_digits by (simp add: hex_digits_nonempty)
qed

end
