(* ===== verification/Json.thy ===== *)
theory Json
  imports Payload_Converter
begin

text \<open>
  JSON values as \<open>serde_json::Value\<close> has them, with the accessors the node uses, and the
  operations on strings of the standard library.  An object keeps its fields in insertion
  order.  A number is an unsigned or a negative 64-bit integer, or a float, kept as its
  bit pattern and never computed with.
\<close>

section \<open>Values\<close>

datatype json_number = PosInt u64 | NegInt "64 word" | Float "64 word"

datatype json =
    JNull
  | JBool bool
  | JNumber json_number
  | JString string
  | JArray "json list"
  | JObject "(string \<times> json) list"

text \<open>\<open>Value::get\<close> with a key, and \<open>as_u64\<close>, \<open>as_str\<close>, \<open>as_bool\<close>, \<open>as_array\<close>.\<close>

fun jget :: "string \<Rightarrow> json \<Rightarrow> json option" where
  "jget k (JObject entries) = map_of entries k"
| "jget _ _ = None"

fun as_u64 :: "json \<Rightarrow> u64 option" where
  "as_u64 (JNumber (PosInt n)) = Some n"
| "as_u64 _ = None"

fun as_str :: "json \<Rightarrow> string option" where
  "as_str (JString s) = Some s"
| "as_str _ = None"

fun as_bool :: "json \<Rightarrow> bool option" where
  "as_bool (JBool b) = Some b"
| "as_bool _ = None"

fun as_array :: "json \<Rightarrow> json list option" where
  "as_array (JArray items) = Some items"
| "as_array _ = None"

fun is_object :: "json \<Rightarrow> bool" where
  "is_object (JObject _) = True"
| "is_object _ = False"

text \<open>\<open>Option::or\<close>, \<open>or_else\<close> and \<open>unwrap_or\<close>; \<open>slice.get(i)\<close>.\<close>

fun or_else :: "'a option \<Rightarrow> 'a option \<Rightarrow> 'a option" where
  "or_else (Some x) _ = Some x"
| "or_else None b = b"

fun unwrap_or :: "'a option \<Rightarrow> 'a \<Rightarrow> 'a" where
  "unwrap_or (Some x) _ = x"
| "unwrap_or None d = d"

definition slice_get :: "'a list \<Rightarrow> nat \<Rightarrow> 'a option" where
  "slice_get xs i = (if i < length xs then Some (xs ! i) else None)"

lemma or_else_None [simp]: "or_else a None = a"
  by (cases a) simp_all

lemma or_else_eq_None [simp]: "or_else a b = None \<longleftrightarrow> a = None \<and> b = None"
  by (cases a) simp_all

lemma or_else_assoc: "or_else (or_else a b) c = or_else a (or_else b c)"
  by (cases a) simp_all

lemma unwrap_or_else: "unwrap_or (or_else a b) d = unwrap_or a (unwrap_or b d)"
  by (cases a) simp_all

text \<open>The first of several keys that is present.\<close>

fun jget_any :: "string list \<Rightarrow> json \<Rightarrow> json option" where
  "jget_any [] v = None"
| "jget_any (k # ks) v = or_else (jget k v) (jget_any ks v)"

text \<open>\<open>json!\<close> of an \<open>Option\<close>, of a \<open>u64\<close>, of a list of strings.\<close>

definition jopt :: "('a \<Rightarrow> json) \<Rightarrow> 'a option \<Rightarrow> json" where
  "jopt f v = (case v of Some x \<Rightarrow> f x | None \<Rightarrow> JNull)"

definition jnum :: "u64 \<Rightarrow> json" where
  "jnum n = JNumber (PosInt n)"

definition jstrings :: "string list \<Rightarrow> json" where
  "jstrings xs = JArray (map JString xs)"

section \<open>Strings\<close>

lemma unat_of_char: "unat (of_char c :: u8) = of_char c"
proof -
  have "(of_char c :: u8) = of_nat (of_char c :: nat)" by (simp only: of_nat_of_char)
  then show ?thesis by (simp add: unsigned_of_nat take_bit_eq_mod)
qed

lemma ascii_eq_iff [simp]: "ascii s = ascii t \<longleftrightarrow> s = t"
proof -
  have "inj (of_char :: char \<Rightarrow> u8)"
    by (rule injI) (metis unat_of_char of_char_eq_iff)
  then show ?thesis unfolding ascii_def by (rule inj_map_eq_map)
qed

definition is_ascii_hexdigit :: "char \<Rightarrow> bool" where
  "is_ascii_hexdigit c \<longleftrightarrow>
     (let n = of_char c :: nat in 48 \<le> n \<and> n \<le> 57 \<or> 65 \<le> n \<and> n \<le> 70 \<or> 97 \<le> n \<and> n \<le> 102)"

definition to_ascii_lowercase :: "string \<Rightarrow> string" where
  "to_ascii_lowercase =
     map (\<lambda>c. let n = of_char c :: nat in if 65 \<le> n \<and> n \<le> 90 then char_of (n + 32) else c)"

text \<open>\<open>strip_prefix(p).unwrap_or(s)\<close>, once, and \<open>trim_start_matches(p)\<close>, as often as it matches.\<close>

definition drop_prefix :: "string \<Rightarrow> string \<Rightarrow> string" where
  "drop_prefix p s = unwrap_or (strip_prefix p s) s"

lemma strip_prefix_shorter: "strip_prefix p s = Some rest \<Longrightarrow> p \<noteq> [] \<Longrightarrow> length rest < length s"
  by (cases s) (auto simp: strip_prefix_def split: if_splits)

function drop_prefixes :: "string \<Rightarrow> string \<Rightarrow> string" where
  "drop_prefixes p s =
     (if p = [] then s else case strip_prefix p s of None \<Rightarrow> s | Some rest \<Rightarrow> drop_prefixes p rest)"
  by pat_completeness auto

termination drop_prefixes
  by (relation "measure (\<lambda>(p, s). length s)") (simp_all add: strip_prefix_shorter)

declare drop_prefixes.simps [simp del]

fun parse_decimal :: "nat \<Rightarrow> string \<Rightarrow> nat option" where
  "parse_decimal acc [] = Some acc"
| "parse_decimal acc (c # cs) =
     (let n = of_char c :: nat in
      if 48 \<le> n \<and> n \<le> 57 then parse_decimal (acc * 10 + (n - 48)) cs else None)"

text \<open>\<open>str::parse\<close> of an unsigned type, and \<open>{}\<close> of one.\<close>

definition parse_unsigned :: "string \<Rightarrow> 'a::len word option" where
  "parse_unsigned s =
     (let digits = (if s \<noteq> [] \<and> hd s = CHR ''+'' then tl s else s) in
      if digits = [] then None
      else case parse_decimal 0 digits of
        Some v \<Rightarrow> if v < 2 ^ LENGTH('a) then Some (of_nat v) else None
      | None \<Rightarrow> None)"

fun decimal :: "nat \<Rightarrow> string" where
  "decimal n = (if n < 10 then [char_of (48 + n)] else decimal (n div 10) @ [char_of (48 + n mod 10)])"

declare decimal.simps [simp del]

fun join :: "string \<Rightarrow> string list \<Rightarrow> string" where
  "join sep [] = []"
| "join sep [x] = x"
| "join sep (x # y # xs) = x @ sep @ join sep (y # xs)"

end
