(* ===== verification/Eth_Rpc.thy ===== *)
theory Eth_Rpc
  imports Executor Json
begin

text \<open>
  The chain store behind the JSON-RPC server and its seven methods, from
  \<open>crates/eth2077-bridge/src/eth_rpc.rs\<close>.  The printing and
  parsing of addresses, hashes, blooms, byte strings and 256-bit integers belongs to
  \<open>alloy_primitives\<close> and is the parameter \<open>fmt\<close>; quantities of 64 bits are printed and
  parsed here.
\<close>

record alloy_fmt =
  fmt_address :: "Address \<Rightarrow> string"
  fmt_b256 :: "B256 \<Rightarrow> string"
  fmt_bloom :: "Bloom \<Rightarrow> string"
  fmt_bytes :: "bytes \<Rightarrow> string"
  fmt_u256 :: "U256 \<Rightarrow> string"
  parse_address_str :: "string \<Rightarrow> Address option"
  parse_b256_str :: "string \<Rightarrow> B256 option"

datatype rpc_error = InvalidParams string

record EthRpcState =
  rpc_blocks :: "Block list"
  rpc_receipts :: "(B256, Receipt) hashmap"
  state_db :: InMemoryStateDB
  pending_txs :: "Transaction list"
  rpc_chain_id :: u64

definition EthRpcState_new :: "u64 \<Rightarrow> Block \<Rightarrow> InMemoryStateDB \<Rightarrow> EthRpcState" where
  "EthRpcState_new chain_id genesis_block genesis_state =
     \<lparr>rpc_blocks = [genesis_block], rpc_receipts = [], state_db = genesis_state, pending_txs = [],
      rpc_chain_id = chain_id\<rparr>"

definition append_block :: "EthRpcState \<Rightarrow> Block \<Rightarrow> Receipt list \<Rightarrow> InMemoryStateDB \<Rightarrow> EthRpcState" where
  "append_block s block receipts new_state =
     s\<lparr>rpc_receipts := fold (\<lambda>r. hm_insert (receipt_tx_hash r) r) receipts (rpc_receipts s),
       rpc_blocks := rpc_blocks s @ [block], state_db := new_state\<rparr>"

definition latest_block :: "EthRpcState \<Rightarrow> Block option" where
  "latest_block s = (if rpc_blocks s = [] then None else Some (last (rpc_blocks s)))"

definition latest_block_number :: "EthRpcState \<Rightarrow> u64" where
  "latest_block_number s = (case latest_block s of Some b \<Rightarrow> block_number b | None \<Rightarrow> 0)"

definition take_pending_txs :: "EthRpcState \<Rightarrow> Transaction list \<times> EthRpcState" where
  "take_pending_txs s = (pending_txs s, s\<lparr>pending_txs := []\<rparr>)"

definition get_block_by_number :: "EthRpcState \<Rightarrow> u64 \<Rightarrow> Block option" where
  "get_block_by_number s n = find (\<lambda>b. block_number b = n) (rpc_blocks s)"

definition hex_u64 :: "u64 \<Rightarrow> string" where
  "hex_u64 v = ''0x'' @ hex_digits (unat v)"

definition parse_address :: "alloy_fmt \<Rightarrow> string \<Rightarrow> rpc_error + Address" where
  "parse_address f value =
     (case parse_address_str f value of
        Some a \<Rightarrow> Inr a | None \<Rightarrow> Inl (InvalidParams (''invalid address: '' @ value)))"

definition parse_block_tag :: "string \<Rightarrow> u64 option \<Rightarrow> rpc_error + u64 option" where
  "parse_block_tag tag latest =
     (if tag = ''latest'' then Inr latest
      else case strip_prefix ''0x'' tag of
        None \<Rightarrow> Inl (InvalidParams (''unsupported block tag: '' @ tag))
      | Some raw \<Rightarrow>
          if raw = [] then Inl (InvalidParams ''invalid hex block number'')
          else case from_str_radix16 raw of
            Some n \<Rightarrow> Inr (Some n)
          | None \<Rightarrow> Inl (InvalidParams (''invalid block number: '' @ tag)))"

definition log_to_json :: "alloy_fmt \<Rightarrow> Log \<Rightarrow> json" where
  "log_to_json f l =
     JObject [(''address'', JString (fmt_address f (log_address l))),
              (''topics'', JArray (map (\<lambda>t. JString (fmt_b256 f t)) (log_topics l))),
              (''data'', JString (fmt_bytes f (log_data l)))]"

definition receipt_to_json :: "alloy_fmt \<Rightarrow> Receipt \<Rightarrow> json" where
  "receipt_to_json f r =
     JObject [(''transactionHash'', JString (fmt_b256 f (receipt_tx_hash r))),
              (''status'', JString (if receipt_status r then ''0x1'' else ''0x0'')),
              (''cumulativeGasUsed'', JString (hex_u64 (cumulative_gas_used r))),
              (''logsBloom'', JString (fmt_bloom f (receipt_logs_bloom r))),
              (''logs'', JArray (map (log_to_json f) (receipt_logs r)))]"

definition tx_to_json :: "alloy_fmt \<Rightarrow> Transaction \<Rightarrow> json" where
  "tx_to_json f tx =
     JObject [(''hash'', JString (fmt_b256 f (tx_hash tx))),
              (''nonce'', JString (hex_u64 (tx_nonce tx))),
              (''from'', JString (fmt_address f (tx_from tx))),
              (''to'', (case tx_to tx of Some a \<Rightarrow> JString (fmt_address f a) | None \<Rightarrow> JNull)),
              (''value'', JString (fmt_u256 f (tx_value tx))),
              (''gas'', JString (hex_u64 (tx_gas_limit tx))),
              (''maxFeePerGas'', JString (hex_u64 (max_fee_per_gas tx))),
              (''maxPriorityFeePerGas'', JString (hex_u64 (max_priority_fee_per_gas tx))),
              (''input'', JString (fmt_bytes f (tx_input tx)))]"

definition block_to_json :: "ext \<Rightarrow> alloy_fmt \<Rightarrow> Block \<Rightarrow> bool \<Rightarrow> json" where
  "block_to_json x f b full_txs =
     JObject [(''number'', JString (hex_u64 (number (header b)))),
              (''hash'', JString (fmt_b256 f (block_hash x b))),
              (''parentHash'', JString (fmt_b256 f (parent_hash (header b)))),
              (''timestamp'', JString (hex_u64 (timestamp (header b)))),
              (''gasLimit'', JString (hex_u64 (gas_limit (header b)))),
              (''gasUsed'', JString (hex_u64 (gas_used (header b)))),
              (''miner'', JString (fmt_address f (beneficiary (header b)))),
              (''baseFeePerGas'',
                (case base_fee_per_gas (header b) of Some v \<Rightarrow> JString (hex_u64 v) | None \<Rightarrow> JNull)),
              (''transactions'',
                JArray (if full_txs then map (tx_to_json f) (transactions b)
                        else map (\<lambda>tx. JString (fmt_b256 f (tx_hash tx))) (transactions b)))]"

section \<open>The methods\<close>

definition eth_chainId :: "EthRpcState \<Rightarrow> rpc_error + string" where
  "eth_chainId s = Inr (hex_u64 (rpc_chain_id s))"

definition eth_blockNumber :: "EthRpcState \<Rightarrow> rpc_error + string" where
  "eth_blockNumber s = Inr (hex_u64 (latest_block_number s))"

definition eth_getBalance :: "alloy_fmt \<Rightarrow> EthRpcState \<Rightarrow> string \<Rightarrow> rpc_error + string" where
  "eth_getBalance f s address =
     (case parse_address f address of
        Inl e \<Rightarrow> Inl e | Inr a \<Rightarrow> Inr (fmt_u256 f (acct_balance (get_account (state_db s) a))))"

definition eth_getBlockByNumber :: "ext \<Rightarrow> alloy_fmt \<Rightarrow> EthRpcState \<Rightarrow> string \<Rightarrow> bool \<Rightarrow> rpc_error + json" where
  "eth_getBlockByNumber x f s block_tag full_txs =
     (case parse_block_tag block_tag (map_option block_number (latest_block s)) of
        Inl e \<Rightarrow> Inl e
      | Inr num \<Rightarrow>
          Inr (case Option.bind num (get_block_by_number s) of
                 Some b \<Rightarrow> block_to_json x f b full_txs | None \<Rightarrow> JNull))"

definition eth_getTransactionReceipt :: "alloy_fmt \<Rightarrow> EthRpcState \<Rightarrow> string \<Rightarrow> rpc_error + json" where
  "eth_getTransactionReceipt f s tx_hash_str =
     (case parse_b256_str f tx_hash_str of
        None \<Rightarrow> Inl (InvalidParams (''invalid tx hash: '' @ tx_hash_str))
      | Some h \<Rightarrow>
          Inr (case map_of (rpc_receipts s) h of Some r \<Rightarrow> receipt_to_json f r | None \<Rightarrow> JNull))"

definition eth_getTransactionCount :: "alloy_fmt \<Rightarrow> EthRpcState \<Rightarrow> string \<Rightarrow> rpc_error + string" where
  "eth_getTransactionCount f s address =
     (case parse_address f address of
        Inl e \<Rightarrow> Inl e | Inr a \<Rightarrow> Inr (hex_u64 (acct_nonce (get_account (state_db s) a))))"

definition eth_gasPrice :: "EthRpcState \<Rightarrow> rpc_error + string" where
  "eth_gasPrice s =
     Inr (hex_u64 (case Option.bind (latest_block s) (\<lambda>b. base_fee_per_gas (header b)) of
                     Some v \<Rightarrow> v | None \<Rightarrow> 0))"

section \<open>What the methods return\<close>

lemma parse_block_tag_hex: "parse_block_tag (hex_u64 n) latest = Inr (Some n)"
  by (simp add: parse_block_tag_def hex_u64_def strip_prefix_def hex_digits_nonempty from_str_radix16_digits)

text \<open>A chain is numbered when block \<open>i\<close> of the store has number \<open>i\<close>.\<close>

definition numbered :: "EthRpcState \<Rightarrow> bool" where
  "numbered s \<longleftrightarrow> length (rpc_blocks s) < 2 ^ 64 \<and>
     (\<forall>i < length (rpc_blocks s). block_number (rpc_blocks s ! i) = of_nat i)"

lemma unat_of_nat_u64: "i < 2 ^ 64 \<Longrightarrow> unat (of_nat i :: u64) = i"
  by (simp add: unsigned_of_nat take_bit_nat_eq_self_iff)

lemma get_block_numbered:
  assumes "numbered s"
  shows "get_block_by_number s n =
    (if unat n < length (rpc_blocks s) then Some (rpc_blocks s ! unat n) else None)"
proof -
  have num: "unat (block_number (rpc_blocks s ! i)) = i" if "i < length (rpc_blocks s)" for i
    using assms that unat_of_nat_u64 [of i] unfolding numbered_def by simp
  show ?thesis
  proof (cases "unat n < length (rpc_blocks s)")
    case True
    have "block_number (rpc_blocks s ! unat n) = n"
      using num [OF True] by (simp only: word_unat_eq_iff)
    moreover have "block_number (rpc_blocks s ! j) \<noteq> n" if "j < unat n" for j
      using num [of j] that True by auto
    ultimately have "find (\<lambda>b. block_number b = n) (rpc_blocks s) = Some (rpc_blocks s ! unat n)"
      unfolding find_Some_iff using True by (intro exI [of _ "unat n"]) simp
    with True show ?thesis by (simp add: get_block_by_number_def)
  next
    case False
    have "block_number (rpc_blocks s ! i) \<noteq> n" if "i < length (rpc_blocks s)" for i
      using num [OF that] that False by auto
    then have "find (\<lambda>b. block_number b = n) (rpc_blocks s) = None"
      unfolding find_None_iff by (metis in_set_conv_nth)
    with False show ?thesis by (simp add: get_block_by_number_def)
  qed
qed

text \<open>On a numbered chain \<open>eth_getBlockByNumber\<close> finds every block under its printed number and
  the last one under \<open>latest\<close>, answers null above the head, and appending the next block
  keeps the chain numbered and makes it the latest.\<close>

theorem rpc_block_lookup:
  assumes "numbered s" and "rpc_blocks s \<noteq> []"
  shows "(\<forall>n. eth_getBlockByNumber x f s (hex_u64 n) full =
      Inr (if unat n < length (rpc_blocks s) then block_to_json x f (rpc_blocks s ! unat n) full else JNull)) \<and>
    eth_getBlockByNumber x f s ''latest'' full = Inr (block_to_json x f (last (rpc_blocks s)) full) \<and>
    (block_number b = of_nat (length (rpc_blocks s)) \<and> length (rpc_blocks s) + 1 < 2 ^ 64 \<longrightarrow>
      numbered (append_block s b rs st) \<and> latest_block (append_block s b rs st) = Some b)"
proof (intro conjI allI impI)
  fix n
  show "eth_getBlockByNumber x f s (hex_u64 n) full =
      Inr (if unat n < length (rpc_blocks s) then block_to_json x f (rpc_blocks s ! unat n) full else JNull)"
    by (simp add: eth_getBlockByNumber_def parse_block_tag_hex get_block_numbered [OF assms(1)])
next
  let ?k = "length (rpc_blocks s) - 1"
  let ?n = "block_number (last (rpc_blocks s))"
  have k: "?k < 2 ^ 64" using assms(1) unfolding numbered_def by linarith
  have "?n = of_nat ?k"
    using assms by (simp add: numbered_def last_conv_nth)
  then have n: "unat ?n = ?k"
    using unat_of_nat_u64 [OF k] by (simp only:)
  moreover have "?k < length (rpc_blocks s)" using assms(2) by (cases "rpc_blocks s") auto
  ultimately have "get_block_by_number s ?n = Some (last (rpc_blocks s))"
    using assms(2) get_block_numbered [OF assms(1), of ?n] by (simp add: last_conv_nth)
  then show "eth_getBlockByNumber x f s ''latest'' full = Inr (block_to_json x f (last (rpc_blocks s)) full)"
    using assms(2) by (simp add: eth_getBlockByNumber_def parse_block_tag_def latest_block_def)
next
  assume "block_number b = of_nat (length (rpc_blocks s)) \<and> length (rpc_blocks s) + 1 < 2 ^ 64"
  then show "numbered (append_block s b rs st)" and "latest_block (append_block s b rs st) = Some b"
    using assms(1) by (auto simp: numbered_def append_block_def nth_append less_Suc_eq latest_block_def)
qed

lemma receipts_appended:
  assumes "hm_inv (rpc_receipts s)"
  shows "map_of (rpc_receipts (append_block s b rs st)) h =
    (case map_of (rev (map (\<lambda>r. (receipt_tx_hash r, r)) rs)) h of
       Some r \<Rightarrow> Some r | None \<Rightarrow> map_of (rpc_receipts s) h)"
proof -
  have "fold (\<lambda>r. hm_insert (receipt_tx_hash r) r) rs m =
      fold (\<lambda>(k, v). hm_insert k v) (map (\<lambda>r. (receipt_tx_hash r, r)) rs) m" for m
    by (induction rs arbitrary: m) simp_all
  then show ?thesis
    using hm.get_fold_insert [OF assms, of "map (\<lambda>r. (receipt_tx_hash r, r)) rs" h]
    by (simp add: append_block_def split: option.splits)
qed

text \<open>Receipts: after a block is appended, the receipt of each of its transactions is served under
  its hash, and receipts of other transactions are served as before.\<close>

theorem rpc_receipt_lookup:
  assumes "hm_inv (rpc_receipts s)" and "distinct (map receipt_tx_hash rs)" and "parse_b256_str f t = Some h"
  shows "eth_getTransactionReceipt f (append_block s b rs st) t =
    (case find (\<lambda>r. receipt_tx_hash r = h) rs of
       Some r \<Rightarrow> Inr (receipt_to_json f r) | None \<Rightarrow> eth_getTransactionReceipt f s t)"
proof -
  let ?kv = "map (\<lambda>r. (receipt_tx_hash r, r)) rs"
  have "hm_inv ?kv" using assms(2) by (simp add: hm_inv_def comp_def)
  then have "map_of (rev ?kv) = map_of ?kv" by (rule hm_perm) simp
  moreover have "map_of ?kv h = find (\<lambda>r. receipt_tx_hash r = h) rs"
    by (induction rs) auto
  ultimately show ?thesis
    using assms(3) receipts_appended [OF assms(1), of b rs st h]
    by (simp add: eth_getTransactionReceipt_def split: option.splits)
qed

section \<open>The theorems on a one-block chain\<close>

definition sample_fmt :: alloy_fmt where
  "sample_fmt = \<lparr>fmt_address = (\<lambda>_. ''0x''), fmt_b256 = (\<lambda>_. ''0x''), fmt_bloom = (\<lambda>_. ''0x''),
     fmt_bytes = (\<lambda>_. ''0x''), fmt_u256 = (\<lambda>_. ''0x''), parse_address_str = (\<lambda>_. None),
     parse_b256_str = (\<lambda>s. Some (of_nat (length s)))\<rparr>"

definition sample_receipt :: "B256 \<Rightarrow> Receipt" where
  "sample_receipt h =
     \<lparr>receipt_tx_hash = h, receipt_status = True, cumulative_gas_used = 21000, receipt_logs_bloom = 0,
      receipt_logs = []\<rparr>"

definition sample_rpc :: EthRpcState where
  "sample_rpc = EthRpcState_new 2077 (sample_block 0) InMemoryStateDB_new"

theorem rpc_block_lookup_witness:
  "eth_getBlockByNumber sample_ext sample_fmt sample_rpc (hex_u64 0) True =
     Inr (block_to_json sample_ext sample_fmt (sample_block 0) True) \<and>
   latest_block (append_block sample_rpc (sample_block 1) [] InMemoryStateDB_new) = Some (sample_block 1)"
proof -
  have n: "numbered sample_rpc" and b: "rpc_blocks sample_rpc = [sample_block 0]"
    by (simp_all add: numbered_def sample_rpc_def EthRpcState_new_def)
  from rpc_block_lookup [OF n, of sample_ext sample_fmt True "sample_block 1" "[]" InMemoryStateDB_new] show ?thesis
    by (auto simp: b dest: spec [of _ 0])
qed

theorem rpc_receipt_lookup_witness:
  "eth_getTransactionReceipt sample_fmt
     (append_block sample_rpc (sample_block 1) [sample_receipt 3] InMemoryStateDB_new) ''0x1'' =
   Inr (receipt_to_json sample_fmt (sample_receipt 3))"
  using rpc_receipt_lookup [of sample_rpc "[sample_receipt 3]" sample_fmt "''0x1''" 3 "sample_block 1"
      InMemoryStateDB_new]
  by (simp add: sample_rpc_def EthRpcState_new_def sample_fmt_def sample_receipt_def)

end
