(* ===== verification/Encoding.thy ===== *)
theory Encoding
  imports Prelude
begin

text \<open>
  The byte strings the crates hash: fixed-width big-endian fields, a tag byte before an
  optional field, an 8-byte count before a list.  The contract \<open>prefix_code\<close> says that an
  encoding can be read back from the front of any byte string; it holds of words, and
  passes from elements to lists and options.
\<close>

text \<open>\<open>(len as u64).to_be_bytes()\<close>.\<close>

definition be_len :: "nat \<Rightarrow> bytes" where
  "be_len n = be_bytes (of_nat n :: u64)"

definition opt_bytes :: "('a \<Rightarrow> bytes) \<Rightarrow> 'a option \<Rightarrow> bytes" where
  "opt_bytes enc v = (case v of Some x \<Rightarrow> [1] @ enc x | None \<Rightarrow> [0])"

definition counted :: "('a \<Rightarrow> bytes) \<Rightarrow> 'a list \<Rightarrow> bytes" where
  "counted enc xs = be_len (length xs) @ concat (map enc xs)"

lemma length_be_len [simp]: "length (be_len n) = 8"
  by (simp add: be_len_def)

lemma be_len_inj: "be_len m = be_len n \<Longrightarrow> m < 2 ^ 64 \<Longrightarrow> n < 2 ^ 64 \<Longrightarrow> m = n"
proof -
  assume "be_len m = be_len n" and "m < 2 ^ 64" and "n < 2 ^ 64"
  moreover from this have "unat (of_nat m :: u64) = unat (of_nat n :: u64)"
    by (simp add: be_len_def)
  ultimately show "m = n" by (simp add: unsigned_of_nat take_bit_eq_mod)
qed

locale prefix_code =
  fixes enc :: "'a \<Rightarrow> bytes"
    and fits :: "'a \<Rightarrow> bool"
  assumes split: "fits x \<Longrightarrow> fits y \<Longrightarrow> enc x @ us = enc y @ vs \<Longrightarrow> x = y \<and> us = vs"
begin

lemma enc_inj: "fits x \<Longrightarrow> fits y \<Longrightarrow> enc x = enc y \<Longrightarrow> x = y"
  using split [of x y "[]" "[]"] by simp

lemma list_split:
  "length xs = length ys \<Longrightarrow> \<forall>x \<in> set xs \<union> set ys. fits x \<Longrightarrow>
     concat (map enc xs) @ us = concat (map enc ys) @ vs \<Longrightarrow> xs = ys \<and> us = vs"
proof (induction xs ys arbitrary: us vs rule: list_induct2)
  case (Cons x xs y ys)
  from Cons.prems split [of x y "concat (map enc xs) @ us" "concat (map enc ys) @ vs"]
  have "x = y" and "concat (map enc xs) @ us = concat (map enc ys) @ vs" by auto
  with Cons show ?case by auto
qed simp

lemma counted_split:
  assumes "length xs < 2 ^ 64" and "length ys < 2 ^ 64" and "\<forall>x \<in> set xs \<union> set ys. fits x"
    and "counted enc xs @ us = counted enc ys @ vs"
  shows "xs = ys \<and> us = vs"
proof -
  have "be_len (length xs) = be_len (length ys)"
    and rest: "concat (map enc xs) @ us = concat (map enc ys) @ vs"
    using assms(4) by (simp_all add: counted_def)
  then have "length xs = length ys" using assms(1,2) by (blast intro: be_len_inj)
  then show ?thesis using list_split assms(3) rest by blast
qed

text \<open>A list needs no count when no encoding is empty and nothing follows.\<close>

lemma stream_inj:
  "\<forall>x \<in> set xs \<union> set ys. fits x \<and> enc x \<noteq> [] \<Longrightarrow> concat (map enc xs) = concat (map enc ys) \<Longrightarrow> xs = ys"
proof (induction xs arbitrary: ys)
  case Nil
  then show ?case by (cases ys) auto
next
  case (Cons x xs)
  from Cons.prems obtain y ys' where ys: "ys = y # ys'" by (cases ys) simp_all
  have fits: "fits x" "fits y" and eq: "enc x @ concat (map enc xs) = enc y @ concat (map enc ys')"
    using Cons.prems ys by simp_all
  from split [OF fits eq] have "x = y" and "concat (map enc xs) = concat (map enc ys')" by simp_all
  moreover have "\<forall>x \<in> set xs \<union> set ys'. fits x \<and> enc x \<noteq> []" using Cons.prems(1) ys by simp
  ultimately show ?case using Cons.IH ys by blast
qed

lemma option_split:
  assumes "pred_option fits v" and "pred_option fits w" and "opt_bytes enc v @ us = opt_bytes enc w @ vs"
  shows "v = w \<and> us = vs"
proof (cases v)
  case None
  with assms(3) show ?thesis by (cases w) (simp_all add: opt_bytes_def)
next
  case (Some x)
  with assms(3) obtain y where w: "w = Some y" by (cases w) (simp_all add: opt_bytes_def)
  have "fits x" and "fits y" and "enc x @ us = enc y @ vs"
    using assms Some w by (simp_all add: opt_bytes_def)
  from split [OF this] Some w show ?thesis by simp
qed

end

lemma word_split:
  assumes "8 dvd LENGTH('a)" and "be_bytes (v :: 'a::len word) @ us = be_bytes w @ vs"
  shows "v = w \<and> us = vs"
  using assms be_bytes_inj [of v w] by simp

interpretation b256: prefix_code "be_bytes :: B256 \<Rightarrow> bytes" "\<lambda>_. True"
  by unfold_locales simp

interpretation u64: prefix_code "be_bytes :: u64 \<Rightarrow> bytes" "\<lambda>_. True"
  by unfold_locales simp

interpretation u128: prefix_code "be_bytes :: u128 \<Rightarrow> bytes" "\<lambda>_. True"
  by unfold_locales simp

end
