(* ===== verification/Block_Builder.thy ===== *)
theory Block_Builder
  imports Executor Encoding
begin

text \<open>
  Building and validating blocks: \<open>block_builder.rs\<close>, \<open>block_validator.rs\<close> and
  \<open>genesis.rs\<close> of \<open>crates/eth2077-execution/src\<close>, with the placeholder roots the builder
  and the validator share.
\<close>

section \<open>Roots\<close>

definition account_payload :: "InMemoryStateDB \<Rightarrow> Address \<Rightarrow> bytes" where
  "account_payload s address =
     (let account = get_account s address in
      be_bytes address @ be_bytes (acct_nonce account) @ be_bytes (acct_balance account)
        @ be_bytes (acct_code_hash account)
        @ (case acct_code account of
             Some code \<Rightarrow> [1] @ be_len (length code) @ code
           | None \<Rightarrow> [0]))"

definition state_root_payload :: "InMemoryStateDB \<Rightarrow> bytes" where
  "state_root_payload s =
     (let addresses = sort (accounts s) in
      be_len (length addresses) @ concat (map (account_payload s) addresses))"

definition compute_state_root :: "ext \<Rightarrow> InMemoryStateDB \<Rightarrow> B256" where
  "compute_state_root x s = keccak256 x (state_root_payload s)"

definition compute_transactions_root :: "ext \<Rightarrow> Transaction list \<Rightarrow> B256" where
  "compute_transactions_root x txs =
     keccak256 x (be_len (length txs) @ concat (map (\<lambda>tx. be_bytes (tx_hash tx)) txs))"

definition encode_log :: "Log \<Rightarrow> bytes" where
  "encode_log l =
     be_bytes (log_address l) @ be_len (length (log_topics l))
       @ concat (map be_bytes (log_topics l)) @ be_len (length (log_data l)) @ log_data l"

definition encode_receipt :: "Receipt \<Rightarrow> bytes" where
  "encode_receipt r =
     be_bytes (receipt_tx_hash r) @ [if receipt_status r then 1 else 0]
       @ be_bytes (cumulative_gas_used r) @ be_bytes (receipt_logs_bloom r)
       @ be_len (length (receipt_logs r)) @ concat (map encode_log (receipt_logs r))"

definition compute_receipts_root :: "ext \<Rightarrow> Receipt list \<Rightarrow> B256" where
  "compute_receipts_root x receipts =
     keccak256 x (be_len (length receipts)
       @ concat (map (\<lambda>r. be_bytes (keccak256 x (encode_receipt r))) receipts))"

definition empty_ommers_hash :: "ext \<Rightarrow> B256" where
  "empty_ommers_hash x = keccak256 x [0xc0]"

section \<open>Building\<close>

record BlockBuilderConfig =
  cfg_beneficiary :: Address
  cfg_timestamp :: "u64 option"
  cfg_gas_limit :: "u64 option"

record BuiltBlock =
  built_block :: Block
  built_receipts :: "Receipt list"
  built_state :: InMemoryStateDB

datatype BlockBuildError = TransactionExecutionFailed nat B256 ExecutionError

fun build_loop ::
    "'bc exec_orders \<Rightarrow> ext \<Rightarrow> 'bc evm \<Rightarrow> nat \<Rightarrow> BlockExecutor \<Rightarrow> Receipt list \<Rightarrow>
      u64 \<Rightarrow> Bloom \<Rightarrow> Transaction list \<Rightarrow>
      BlockBuildError + BlockExecutor \<times> Receipt list \<times> u64 \<times> Bloom" where
  "build_loop it x e index ex receipts gas bloom [] = Inr (ex, receipts, gas, bloom)"
| "build_loop it x e index ex receipts gas bloom (tx # txs) =
     (case execute_tx it x e ex tx of
        (Inl source, _) \<Rightarrow> Inl (TransactionExecutionFailed index (tx_hash tx) source)
      | (Inr receipt, ex') \<Rightarrow>
          build_loop it x e (Suc index) ex' (receipts @ [receipt])
            (sat_add gas (cumulative_gas_used receipt))
            (accrue_bloom x bloom (receipt_logs_bloom receipt)) txs)"

definition build_block ::
    "'bc exec_orders \<Rightarrow> ext \<Rightarrow> 'bc evm \<Rightarrow> BlockBuilderConfig \<Rightarrow> Header \<Rightarrow>
      Transaction list \<Rightarrow> InMemoryStateDB \<Rightarrow> BlockBuildError + BuiltBlock" where
  "build_block it x e config parent pending_transactions s =
     (case build_loop it x e 0 \<lparr>exec_state = s\<rparr> [] 0 0 pending_transactions of
        Inl err \<Rightarrow> Inl err
      | Inr (executor, receipts, gas, bloom) \<Rightarrow>
          let post_state = exec_state executor;
              block =
                \<lparr>header =
                   \<lparr>parent_hash = header_hash x parent,
                    ommers_hash = empty_ommers_hash x,
                    beneficiary = cfg_beneficiary config,
                    state_root = compute_state_root x post_state,
                    transactions_root = compute_transactions_root x pending_transactions,
                    receipts_root = compute_receipts_root x receipts,
                    logs_bloom = bloom,
                    difficulty = difficulty parent,
                    number = sat_add (number parent) 1,
                    gas_limit = (case cfg_gas_limit config of Some g \<Rightarrow> g | None \<Rightarrow> gas_limit parent),
                    gas_used = gas,
                    timestamp = (case cfg_timestamp config of
                       Some t \<Rightarrow> t | None \<Rightarrow> sat_add (timestamp parent) 12),
                    extra_data = [],
                    mix_hash = 0,
                    header_nonce = 0,
                    base_fee_per_gas = base_fee_per_gas parent,
                    blob_gas_used = None,
                    excess_blob_gas = None,
                    parent_beacon_block_root = None\<rparr>,
                 transactions = pending_transactions,
                 ommers = []\<rparr>
          in Inr \<lparr>built_block = block,
                  built_receipts = receipts,
                  built_state =
                    insert_block_hash (number (header block)) (block_hash x block) post_state\<rparr>)"

section \<open>Validating\<close>

datatype ValidationError =
    ValidationTransactionExecutionFailed nat B256 ExecutionError
  | StateRootMismatch B256 B256
  | TransactionsRootMismatch B256 B256
  | ReceiptsRootMismatch B256 B256
  | GasUsedMismatch u64 u64
  | LogsBloomMismatch Bloom Bloom

fun validate_loop ::
    "'bc exec_orders \<Rightarrow> ext \<Rightarrow> 'bc evm \<Rightarrow> nat \<Rightarrow> BlockExecutor \<Rightarrow> Receipt list \<Rightarrow>
      u64 \<Rightarrow> Bloom \<Rightarrow> Transaction list \<Rightarrow>
      ValidationError + BlockExecutor \<times> Receipt list \<times> u64 \<times> Bloom" where
  "validate_loop it x e index ex receipts gas bloom [] = Inr (ex, receipts, gas, bloom)"
| "validate_loop it x e index ex receipts gas bloom (tx # txs) =
     (case execute_tx it x e ex tx of
        (Inl source, _) \<Rightarrow> Inl (ValidationTransactionExecutionFailed index (tx_hash tx) source)
      | (Inr receipt, ex') \<Rightarrow>
          validate_loop it x e (Suc index) ex' (receipts @ [receipt])
            (sat_add gas (cumulative_gas_used receipt))
            (accrue_bloom x bloom (receipt_logs_bloom receipt)) txs)"

definition validate_block ::
    "'bc exec_orders \<Rightarrow> ext \<Rightarrow> 'bc evm \<Rightarrow> Block \<Rightarrow> InMemoryStateDB \<Rightarrow>
      ValidationError + unit" where
  "validate_block it x e block pre_state =
     (case validate_loop it x e 0 \<lparr>exec_state = pre_state\<rparr> [] 0 0 (transactions block) of
        Inl err \<Rightarrow> Inl err
      | Inr (executor, receipts, gas, bloom) \<Rightarrow>
          let h = header block;
              actual_state_root = compute_state_root x (exec_state executor);
              actual_transactions_root = compute_transactions_root x (transactions block);
              actual_receipts_root = compute_receipts_root x receipts
          in if actual_state_root \<noteq> state_root h then
               Inl (StateRootMismatch (state_root h) actual_state_root)
             else if actual_transactions_root \<noteq> transactions_root h then
               Inl (TransactionsRootMismatch (transactions_root h) actual_transactions_root)
             else if actual_receipts_root \<noteq> receipts_root h then
               Inl (ReceiptsRootMismatch (receipts_root h) actual_receipts_root)
             else if gas \<noteq> gas_used h then Inl (GasUsedMismatch (gas_used h) gas)
             else if bloom \<noteq> logs_bloom h then Inl (LogsBloomMismatch (logs_bloom h) bloom)
             else Inr ())"

section \<open>Genesis\<close>

definition DEFAULT_GENESIS_GAS_LIMIT :: u64 where
  "DEFAULT_GENESIS_GAS_LIMIT = 30000000"

definition genesis_state :: "(Address \<times> U256) list \<Rightarrow> InMemoryStateDB" where
  "genesis_state allocs =
     fold (\<lambda>(address, balance).
         insert_account address
           \<lparr>acct_balance = balance, acct_nonce = 0, acct_code_hash = 0, acct_code = None\<rparr>)
       allocs InMemoryStateDB_new"

definition create_genesis_block :: "ext \<Rightarrow> (Address \<times> U256) list \<Rightarrow> Block \<times> InMemoryStateDB" where
  "create_genesis_block x allocs =
     (let s = genesis_state allocs;
          block =
            \<lparr>header =
               \<lparr>parent_hash = 0,
                ommers_hash = empty_ommers_hash x,
                beneficiary = 0,
                state_root = compute_state_root x s,
                transactions_root = compute_transactions_root x [],
                receipts_root = compute_receipts_root x [],
                logs_bloom = 0,
                difficulty = 0,
                number = 0,
                gas_limit = DEFAULT_GENESIS_GAS_LIMIT,
                gas_used = 0,
                timestamp = 0,
                extra_data = [],
                mix_hash = 0,
                header_nonce = 0,
                base_fee_per_gas = Some 1000000000,
                blob_gas_used = Some 0,
                excess_blob_gas = Some 0,
                parent_beacon_block_root = None\<rparr>,
             transactions = [],
             ommers = []\<rparr>
      in (block, insert_block_hash 0 (block_hash x block) s))"

section \<open>Replaying a list of transactions\<close>

text \<open>
  The reference semantics both loops implement: execute in order, stop at the first
  failure and report its position, otherwise return the final executor and the receipts.
\<close>

fun run_txs ::
    "'bc exec_orders \<Rightarrow> ext \<Rightarrow> 'bc evm \<Rightarrow> BlockExecutor \<Rightarrow> Transaction list \<Rightarrow>
      (nat \<times> B256 \<times> ExecutionError) + BlockExecutor \<times> Receipt list" where
  "run_txs it x e ex [] = Inr (ex, [])"
| "run_txs it x e ex (tx # txs) =
     (case execute_tx it x e ex tx of
        (Inl source, _) \<Rightarrow> Inl (0, tx_hash tx, source)
      | (Inr receipt, ex') \<Rightarrow>
          (case run_txs it x e ex' txs of
             Inl (index, h, source) \<Rightarrow> Inl (Suc index, h, source)
           | Inr (ex'', receipts) \<Rightarrow> Inr (ex'', receipt # receipts)))"

definition total_gas :: "u64 \<Rightarrow> Receipt list \<Rightarrow> u64" where
  "total_gas gas receipts = foldl sat_add gas (map cumulative_gas_used receipts)"

definition total_bloom :: "ext \<Rightarrow> Bloom \<Rightarrow> Receipt list \<Rightarrow> Bloom" where
  "total_bloom x bloom receipts = foldl (accrue_bloom x) bloom (map receipt_logs_bloom receipts)"

locale tx_replay =
  fixes it :: "'bc exec_orders"
    and x :: ext
    and e :: "'bc evm"
    and loop :: "nat \<Rightarrow> BlockExecutor \<Rightarrow> Receipt list \<Rightarrow> u64 \<Rightarrow> Bloom \<Rightarrow> Transaction list \<Rightarrow>
      'err + BlockExecutor \<times> Receipt list \<times> u64 \<times> Bloom"
    and failed :: "nat \<Rightarrow> B256 \<Rightarrow> ExecutionError \<Rightarrow> 'err"
  assumes loop_Nil: "loop i ex receipts gas bloom [] = Inr (ex, receipts, gas, bloom)"
    and loop_Cons: "loop i ex receipts gas bloom (tx # txs) =
      (case execute_tx it x e ex tx of
         (Inl source, _) \<Rightarrow> Inl (failed i (tx_hash tx) source)
       | (Inr receipt, ex') \<Rightarrow>
           loop (Suc i) ex' (receipts @ [receipt]) (sat_add gas (cumulative_gas_used receipt))
             (accrue_bloom x bloom (receipt_logs_bloom receipt)) txs)"
begin

lemma loop_run_txs:
  "loop i ex receipts gas bloom txs =
     (case run_txs it x e ex txs of
        Inl (j, h, source) \<Rightarrow> Inl (failed (i + j) h source)
      | Inr (ex', rs) \<Rightarrow> Inr (ex', receipts @ rs, total_gas gas rs, total_bloom x bloom rs))"
proof (induction txs arbitrary: i ex receipts gas bloom)
  case Nil
  then show ?case by (simp add: loop_Nil total_gas_def total_bloom_def)
next
  case (Cons tx txs)
  show ?case
  proof (cases "execute_tx it x e ex tx")
    case (Pair res ex')
    then show ?thesis
      by (cases res)
        (auto simp: loop_Cons Cons.IH total_gas_def total_bloom_def split: sum.splits)
  qed
qed

end

interpretation build: tx_replay it x e "build_loop it x e" TransactionExecutionFailed for it x e
  by unfold_locales simp_all

interpretation validate: tx_replay it x e "validate_loop it x e" ValidationTransactionExecutionFailed
  for it x e
  by unfold_locales simp_all

lemma validate_block_run_txs:
  "validate_block it x e block s = Inr () \<longleftrightarrow>
     (\<exists>ex rs. run_txs it x e \<lparr>exec_state = s\<rparr> (transactions block) = Inr (ex, rs)
        \<and> state_root (header block) = compute_state_root x (exec_state ex)
        \<and> transactions_root (header block) = compute_transactions_root x (transactions block)
        \<and> receipts_root (header block) = compute_receipts_root x rs
        \<and> gas_used (header block) = total_gas 0 rs
        \<and> logs_bloom (header block) = total_bloom x 0 rs)"
  by (auto simp: validate_block_def validate.loop_run_txs Let_def split: sum.splits if_splits)

lemma build_block_run_txs:
  assumes "build_block it x e config parent txs s = Inr built"
  obtains ex rs where "run_txs it x e \<lparr>exec_state = s\<rparr> txs = Inr (ex, rs)"
    and "transactions (built_block built) = txs"
    and "built_receipts built = rs"
    and "state_root (header (built_block built)) = compute_state_root x (exec_state ex)"
    and "transactions_root (header (built_block built)) = compute_transactions_root x txs"
    and "receipts_root (header (built_block built)) = compute_receipts_root x rs"
    and "gas_used (header (built_block built)) = total_gas 0 rs"
    and "logs_bloom (header (built_block built)) = total_bloom x 0 rs"
    and "built_state built = insert_block_hash (number (header (built_block built)))
           (block_hash x (built_block built)) (exec_state ex)"
  using assms that
  by (auto simp: build_block_def build.loop_run_txs Let_def split: sum.splits)

section \<open>Iteration order does not matter\<close>

text \<open>
  The builder and the validator run on databases that read alike, each visiting its hash maps in orders of its
  own.  The commit of what revm reports does not depend on them (\<open>commit_order\<close>).  The other place where an order
  matters is the lookup of code by its hash: if a table \<open>code_of\<close> gives the code for each code hash in use (no two
  accounts have different code under one hash), every order gives the same answer.
\<close>

definition code_table :: "(B256 \<Rightarrow> bytes) \<Rightarrow> InMemoryStateDB \<Rightarrow> bool" where
  "code_table code_of s \<longleftrightarrow>
     (\<forall>a c. acct_code (get_account s a) = Some c \<longrightarrow> c = code_of (acct_code_hash (get_account s a)))"

definition evm_reports_code :: "(B256 \<Rightarrow> bytes) \<Rightarrow> 'bc evm \<Rightarrow> bool" where
  "evm_reports_code code_of e \<longleftrightarrow>
     (\<forall>db env result changes a c bc. transact e db env = Inr (result, changes) \<longrightarrow>
        (a, c) \<in> set changes \<longrightarrow> revm_code (account_info c) = Some bc \<longrightarrow>
        original_bytes e bc = code_of (revm_code_hash (account_info c)))"

lemma code_by_hash_loop_table:
  assumes "code_table code_of s"
  shows "revm_code_by_hash_loop e s h as =
     (if \<exists>a \<in> set as. acct_code_hash (get_account s a) = h \<and> acct_code (get_account s a) \<noteq> None
      then bytecode_new_raw e (code_of h) else bytecode_default e)"
proof (induction as)
  case Nil
  then show ?case by simp
next
  case (Cons a as)
  then show ?case
    using assms by (auto simp: Let_def code_table_def split: option.splits) metis
qed

lemma RevmDatabase_order:
  assumes "code_table code_of s" and "same_reads s s'" and "hash_order it" and "hash_order it'"
  shows "RevmDatabase it e s = RevmDatabase it' e s'"
proof -
  have reads: "get_account s' = get_account s" "account_exists s' = account_exists s"
    "get_storage s' = get_storage s" "get_block_hash s' = get_block_hash s"
    using assms(2) by (simp_all add: same_reads_def)
  then have "code_table code_of s'" using assms(1) by (simp add: code_table_def)
  then have "revm_code_by_hash it e s h = revm_code_by_hash it' e s' h" for h
    using assms(1,3,4)
    by (simp add: revm_code_by_hash_def code_by_hash_loop_table hash_order_set set_accounts reads)
  moreover have "revm_basic e s = revm_basic e s'" by (simp add: revm_basic_def fun_eq_iff reads)
  ultimately show ?thesis by (simp add: RevmDatabase_def fun_eq_iff reads)
qed

text \<open>Two executions of one transaction: the same result, and databases that read alike.\<close>

lemma execute_tx_order:
  assumes "code_table code_of (exec_state ex)" and "exec_orders_ok it" and "exec_orders_ok it'"
    and "evm_returns_maps e" and "same_reads (exec_state ex) (exec_state ex')"
  shows "fst (execute_tx it x e ex tx) = fst (execute_tx it' x e ex' tx) \<and>
    same_reads (exec_state (snd (execute_tx it x e ex tx))) (exec_state (snd (execute_tx it' x e ex' tx)))"
proof -
  have db: "RevmDatabase (order_accounts it) e (exec_state ex) = RevmDatabase (order_accounts it') e (exec_state ex')"
    using assms by (intro RevmDatabase_order) (simp_all add: exec_orders_ok_def)
  have "same_reads (apply_state_changes e (visited it changes) (exec_state ex))
      (apply_state_changes e (visited it' changes) (exec_state ex'))"
    if "transact e db env = Inr (result, changes)" for db env result changes
    using assms(4) that by (intro commit_order assms(2,3,5)) (auto simp: evm_returns_maps_def)
  then show ?thesis
    using assms(5) by (auto simp: execute_tx_def db split: sum.splits option.splits)
qed

lemma code_table_apply_state_changes:
  assumes "code_table code_of s"
    and "\<And>a c bc. (a, c) \<in> set changes \<Longrightarrow> revm_code (account_info c) = Some bc \<Longrightarrow>
           original_bytes e bc = code_of (revm_code_hash (account_info c))"
  shows "code_table code_of (apply_state_changes e changes s)"
  using assms
proof (induction changes arbitrary: s)
  case Nil
  then show ?case by (simp add: apply_state_changes_def)
next
  case (Cons ac changes)
  obtain a c where ac: "ac = (a, c)" by (cases ac)
  have "code_table code_of (apply_account_change e a c s)"
    using Cons.prems(1) Cons.prems(2) [of a c]
    by (auto simp: ac code_table_def apply_account_change_reads committed_account_def
        AccountInfo_default_def)
  then show ?case
    using Cons.IH Cons.prems(2) by (auto simp: ac apply_state_changes_Cons)
qed

lemma code_table_execute_tx:
  assumes "code_table code_of (exec_state ex)" and "evm_reports_code code_of e" and "exec_orders_ok it"
  shows "code_table code_of (exec_state (snd (execute_tx it x e ex tx)))"
proof -
  have "code_table code_of (apply_state_changes e (visited it changes) (exec_state ex))"
    if transact: "transact e db env = Inr (result, changes)" for db env result changes
  proof (rule code_table_apply_state_changes [OF assms(1)])
    fix a c bc assume "(a, c) \<in> set (visited it changes)" and "revm_code (account_info c) = Some bc"
    then obtain c' where "(a, c') \<in> set changes" and "account_info c = account_info c'"
      using assms(3) by (auto simp: visited_def exec_orders_ok_def hash_order_set)
    then show "original_bytes e bc = code_of (revm_code_hash (account_info c))"
      using assms(2) transact \<open>revm_code _ = Some bc\<close> unfolding evm_reports_code_def by metis
  qed
  with assms(1) show ?thesis
    by (auto simp: execute_tx_def split: sum.splits option.splits)
qed

lemma run_txs_order:
  assumes "exec_orders_ok it" and "exec_orders_ok it'" and "evm_reports_code code_of e" and "evm_returns_maps e"
    and "code_table code_of (exec_state ex)" and "same_reads (exec_state ex) (exec_state ex')"
    and "db_inv (exec_state ex)" and "db_inv (exec_state ex')"
    and "run_txs it x e ex txs = Inr (post, rs)"
  shows "\<exists>post'. run_txs it' x e ex' txs = Inr (post', rs) \<and> same_reads (exec_state post) (exec_state post') \<and>
    db_inv (exec_state post) \<and> db_inv (exec_state post')"
  using assms(5-)
proof (induction txs arbitrary: ex ex' rs)
  case Nil
  then show ?case by simp
next
  case (Cons tx txs)
  obtain res ex1 where ex1: "execute_tx it x e ex tx = (res, ex1)" by fastforce
  with Cons.prems obtain receipt rs1 where res: "res = Inr receipt" and run: "run_txs it x e ex1 txs = Inr (post, rs1)"
    and rs: "rs = receipt # rs1" by (auto split: sum.splits)
  obtain ex2 where ex2: "execute_tx it' x e ex' tx = (Inr receipt, ex2)" and reads: "same_reads (exec_state ex1) (exec_state ex2)"
    using execute_tx_order [OF Cons.prems(1) assms(1,2,4) Cons.prems(2), of x tx] ex1 res
    by (cases "execute_tx it' x e ex' tx") auto
  have "code_table code_of (exec_state ex1)" and "db_inv (exec_state ex1)" and "db_inv (exec_state ex2)"
    using code_table_execute_tx [OF Cons.prems(1) assms(3,1), of x tx] db_inv_execute_tx [OF Cons.prems(3), of it x e tx]
      db_inv_execute_tx [OF Cons.prems(4), of it' x e tx] ex1 ex2 by simp_all
  with Cons.IH [OF _ reads _ _ run] ex2 rs show ?case by auto
qed

lemma state_root_payload_reads:
  assumes "db_inv s" and "db_inv s'" and "get_account s = get_account s'" and "account_exists s = account_exists s'"
  shows "state_root_payload s = state_root_payload s'"
proof -
  have "set (accounts s) = set (accounts s')" by (simp add: set_accounts assms(4))
  then have "mset (accounts s) = mset (accounts s')"
    using assms(1,2) by (simp add: distinct_accounts set_eq_iff_mset_eq_distinct)
  then have "sort (accounts s) = sort (accounts s')" by (metis mset_sort properties_for_sort sorted_sort)
  moreover have "account_payload s = account_payload s'" by (simp add: account_payload_def [abs_def] assms(3))
  ultimately show ?thesis by (simp only: state_root_payload_def)
qed

text \<open>C2.  A block the builder produces passes the validator: whoever re-executes it, on a database that reads like
  the builder's pre-state (the same accounts, storage and block hashes), accepts it, in whatever orders the two visit
  their hash maps: the accounts of the database, the accounts revm reports and the changed slots of each.  The
  assumptions: the EVM is a deterministic function of what it can read, the maps it returns have each key
  once, the code it reports has the reported hash; and in the pre-state, too, all code found under one code hash is the
  same (\<open>code_table\<close>), since code is looked up by its hash.\<close>

theorem built_block_validates:
  assumes "exec_orders_ok it" and "exec_orders_ok it'"
    and "evm_reports_code code_of e" and "evm_returns_maps e"
    and "code_table code_of s" and "same_reads s s'" and "db_inv s" and "db_inv s'"
    and "build_block it x e config parent txs s = Inr built"
  shows "validate_block it' x e (built_block built) s' = Inr ()"
  using assms(9)
proof (rule build_block_run_txs)
  fix ex rs
  assume run: "run_txs it x e \<lparr>exec_state = s\<rparr> txs = Inr (ex, rs)"
    and txs: "transactions (built_block built) = txs" and root: "state_root (header (built_block built)) = compute_state_root x (exec_state ex)"
    and rest: "transactions_root (header (built_block built)) = compute_transactions_root x txs"
      "receipts_root (header (built_block built)) = compute_receipts_root x rs"
      "gas_used (header (built_block built)) = total_gas 0 rs" "logs_bloom (header (built_block built)) = total_bloom x 0 rs"
  obtain ex' where run': "run_txs it' x e \<lparr>exec_state = s'\<rparr> txs = Inr (ex', rs)"
    and post: "same_reads (exec_state ex) (exec_state ex')" "db_inv (exec_state ex)" "db_inv (exec_state ex')"
    using run_txs_order [OF assms(1-4) _ _ _ _ run, of "\<lparr>exec_state = s'\<rparr>"] assms(5-8) by auto
  have "compute_state_root x (exec_state ex) = compute_state_root x (exec_state ex')"
    using state_root_payload_reads [OF post(2,3)] post(1) by (simp add: compute_state_root_def same_reads_def)
  then show ?thesis using run' txs root rest by (auto simp: validate_block_run_txs)
qed

text \<open>The validator accepts a block exactly when re-executing all of its transactions
  succeeds and the header's state root, transactions root, receipts root, gas (the
  saturating sum over the receipts) and bloom are the recomputed ones.
\<close>

theorem validate_block_accepts_iff:
  "validate_block it x e block s = Inr () \<longleftrightarrow>
     (\<exists>ex rs. run_txs it x e \<lparr>exec_state = s\<rparr> (transactions block) = Inr (ex, rs)
        \<and> state_root (header block) = compute_state_root x (exec_state ex)
        \<and> transactions_root (header block) = compute_transactions_root x (transactions block)
        \<and> receipts_root (header block) = compute_receipts_root x rs
        \<and> gas_used (header block) = total_gas 0 rs
        \<and> logs_bloom (header block) = total_bloom x 0 rs)"
  by (rule validate_block_run_txs)

section \<open>The chain a builder extends\<close>

text \<open>The header of a built block links to its parent: its number is the parent's plus
  one (at the largest number it stays), its parent hash is the parent's hash, its
  timestamp is the configured one or twelve seconds after the parent's, its gas is the
  saturating sum of the receipts' gas, and the state handed on records the block's hash
  under its number and leaves every other recorded hash as execution left it.
\<close>

theorem built_block_links:
  assumes "build_block it x e config parent txs s = Inr built"
  shows "unat (number (header (built_block built))) = min (unat (number parent) + 1) (2 ^ 64 - 1) \<and>
         parent_hash (header (built_block built)) = header_hash x parent \<and>
         timestamp (header (built_block built)) =
           (case cfg_timestamp config of Some t \<Rightarrow> t | None \<Rightarrow> sat_add (timestamp parent) 12) \<and>
         gas_used (header (built_block built)) = total_gas 0 (built_receipts built) \<and>
         length (built_receipts built) = length txs \<and>
         get_block_hash (built_state built) (number (header (built_block built))) =
           block_hash x (built_block built)"
proof -
  have len: "run_txs it x e ex txs = Inr (ex', rs) \<Longrightarrow> length rs = length txs" for ex ex' rs
    by (induction txs arbitrary: ex ex' rs) (auto split: sum.splits prod.splits)
  have "number (header (built_block built)) = sat_add (number parent) 1"
    and "parent_hash (header (built_block built)) = header_hash x parent"
    and "timestamp (header (built_block built)) =
           (case cfg_timestamp config of Some t \<Rightarrow> t | None \<Rightarrow> sat_add (timestamp parent) 12)"
    using assms by (auto simp: build_block_def Let_def split: sum.splits)
  then show ?thesis
    using assms len by (elim build_block_run_txs) (auto simp: sat_simps block_hash_reads)
qed

section \<open>What the state root commits to\<close>

definition same_accounts :: "InMemoryStateDB \<Rightarrow> InMemoryStateDB \<Rightarrow> bool" where
  "same_accounts s s' \<longleftrightarrow>
     (\<forall>a. account_exists s a = account_exists s' a \<and> get_account s a = get_account s' a)"

definition lengths_fit :: "InMemoryStateDB \<Rightarrow> bool" where
  "lengths_fit s \<longleftrightarrow> length (accounts s) < 2 ^ 64 \<and>
     (\<forall>a c. acct_code (get_account s a) = Some c \<longrightarrow> length c < 2 ^ 64)"

lemma state_root_payload_cong:
  "accounts s = accounts s' \<Longrightarrow> get_account s = get_account s' \<Longrightarrow>
     state_root_payload s = state_root_payload s'"
  by (simp add: state_root_payload_def account_payload_def [abs_def])

lemma account_payload_prefix:
  assumes "account_payload s a @ us = account_payload s' b @ vs"
    and "lengths_fit s" and "lengths_fit s'"
  shows "a = b \<and> get_account s a = get_account s' b \<and> us = vs"
proof -
  let ?x = "get_account s a" and ?y = "get_account s' b"
  have eqs: "a = b" "acct_nonce ?x = acct_nonce ?y" "acct_balance ?x = acct_balance ?y"
      "acct_code_hash ?x = acct_code_hash ?y"
    and rest: "(case acct_code ?x of Some c \<Rightarrow> [1] @ be_len (length c) @ c | None \<Rightarrow> [0]) @ us
      = (case acct_code ?y of Some c \<Rightarrow> [1] @ be_len (length c) @ c | None \<Rightarrow> [0]) @ vs"
    using assms(1) by (auto simp: account_payload_def Let_def)
  have "acct_code ?x = acct_code ?y \<and> us = vs"
  proof (cases "acct_code ?x")
    case None
    with rest show ?thesis by (cases "acct_code ?y") simp_all
  next
    case (Some c)
    with rest obtain c' where c': "acct_code ?y = Some c'" by (cases "acct_code ?y") simp_all
    with rest Some have "be_len (length c) = be_len (length c')" and tl: "c @ us = c' @ vs"
      by simp_all
    moreover have "length c < 2 ^ 64" and "length c' < 2 ^ 64"
      using assms(2,3) Some c' by (auto simp: lengths_fit_def)
    ultimately have "length c = length c'" by (blast intro: be_len_inj)
    with tl Some c' show ?thesis by simp
  qed
  with eqs show ?thesis
    by (auto intro: AccountInfo.equality)
qed

lemma account_payloads_inj:
  assumes "lengths_fit s" and "lengths_fit s'"
  shows "length as = length bs \<Longrightarrow>
     concat (map (account_payload s) as) = concat (map (account_payload s') bs) \<Longrightarrow>
     as = bs \<and> (\<forall>a \<in> set as. get_account s a = get_account s' a)"
proof (induction as bs rule: list_induct2)
  case Nil
  then show ?case by simp
next
  case (Cons a as b bs)
  have "a = b \<and> get_account s a = get_account s' b \<and>
      concat (map (account_payload s) as) = concat (map (account_payload s') bs)"
    using Cons.prems assms by (intro account_payload_prefix) simp_all
  with Cons.IH show ?case by auto
qed

lemma get_account_absent: "\<not> account_exists s a \<Longrightarrow> get_account s a = AccountInfo_default"
  by (simp add: account_exists_def get_account_def)

text \<open>The byte string under the state root is a canonical encoding of the accounts: two
  databases have the same encoding exactly when they hold the same accounts with the
  same balance, nonce, code hash and code, whatever the order in which the hash map
  keeps them (lengths below \<open>2 ^ 64\<close>, as the 8-byte length prefixes need).
\<close>

theorem state_root_payload_canonical:
  assumes "db_inv s" and "db_inv s'" and "lengths_fit s" and "lengths_fit s'"
  shows "state_root_payload s = state_root_payload s' \<longleftrightarrow> same_accounts s s'"
proof
  assume same: "same_accounts s s'"
  then show "state_root_payload s = state_root_payload s'"
    using assms(1,2) by (intro state_root_payload_reads) (simp_all add: same_accounts_def fun_eq_iff)
next
  assume eq: "state_root_payload s = state_root_payload s'"
  then have "be_len (length (accounts s)) = be_len (length (accounts s'))"
    and body: "concat (map (account_payload s) (sort (accounts s))) =
      concat (map (account_payload s') (sort (accounts s')))"
    by (simp_all add: state_root_payload_def Let_def)
  then have "length (accounts s) = length (accounts s')"
    using assms(3,4) by (auto simp: lengths_fit_def intro: be_len_inj)
  then have sorted: "sort (accounts s) = sort (accounts s')"
    and same: "\<forall>a \<in> set (accounts s). get_account s a = get_account s' a"
    using account_payloads_inj [OF assms(3,4) _ body] by auto
  then have "account_exists s a = account_exists s' a" for a
    by (metis mem_Collect_eq set_accounts set_sort)
  then show "same_accounts s s'"
    using same unfolding same_accounts_def set_accounts
    by (metis get_account_absent mem_Collect_eq)
qed

text \<open>The state root says nothing about contract storage: writing any storage slot of
  any account leaves the root of the database unchanged.
\<close>

theorem state_root_ignores_storage:
  "compute_state_root x (set_storage a k v s) = compute_state_root x s"
  unfolding compute_state_root_def
  by (subst state_root_payload_cong [of _ s])
    (simp_all add: set_storage_def accounts_def get_account_def [abs_def])

section \<open>Genesis\<close>

lemma genesis_state_reads:
  "get_account (genesis_state allocs) a =
     (case map_of (rev allocs) a of
        Some b \<Rightarrow> AccountInfo_default\<lparr>acct_balance := b\<rparr> | None \<Rightarrow> AccountInfo_default) \<and>
   account_exists (genesis_state allocs) a = (a \<in> fst ` set allocs)"
proof -
  have "get_account (fold (\<lambda>(address, balance). insert_account address
            \<lparr>acct_balance = balance, acct_nonce = 0, acct_code_hash = 0, acct_code = None\<rparr>) allocs s) a =
       (case map_of (rev allocs) a of
          Some b \<Rightarrow> AccountInfo_default\<lparr>acct_balance := b\<rparr> | None \<Rightarrow> get_account s a) \<and>
     account_exists (fold (\<lambda>(address, balance). insert_account address
            \<lparr>acct_balance = balance, acct_nonce = 0, acct_code_hash = 0, acct_code = None\<rparr>) allocs s) a =
       (account_exists s a \<or> a \<in> fst ` set allocs)" for s
    by (induction allocs arbitrary: s)
      (auto simp: db_reads map_add_def AccountInfo_default_def split: option.splits)
  then show ?thesis
    by (simp add: genesis_state_def InMemoryStateDB_new_def get_account_def account_exists_def
        cong: option.case_cong)
qed

text \<open>The genesis block: every allocated address (the last allocation of an address
  wins) has its balance, nonce 0 and no code, no other account exists, the block's hash
  is recorded under number 0, and the validator accepts the block on the genesis state.
\<close>

theorem genesis_block_correct:
  assumes "create_genesis_block x allocs = (block, s)"
  shows "get_account s a = (case map_of (rev allocs) a of
            Some b \<Rightarrow> AccountInfo_default\<lparr>acct_balance := b\<rparr> | None \<Rightarrow> AccountInfo_default) \<and>
         account_exists s a = (a \<in> fst ` set allocs) \<and>
         number (header block) = 0 \<and> get_block_hash s 0 = block_hash x block \<and>
         validate_block it x e block s = Inr ()"
proof -
  have s: "s = insert_block_hash 0 (block_hash x block) (genesis_state allocs)"
    and block: "transactions block = []" "number (header block) = 0"
      "state_root (header block) = compute_state_root x (genesis_state allocs)"
      "transactions_root (header block) = compute_transactions_root x []"
      "receipts_root (header block) = compute_receipts_root x []"
      "gas_used (header block) = 0" "logs_bloom (header block) = 0"
    using assms by (auto simp: create_genesis_block_def Let_def)
  have "compute_state_root x s = compute_state_root x (genesis_state allocs)"
    unfolding compute_state_root_def
    by (subst state_root_payload_cong [of _ "genesis_state allocs"])
      (simp_all add: s insert_block_hash_def accounts_def get_account_def [abs_def])
  then have "validate_block it x e block s = Inr ()"
    by (simp add: validate_block_run_txs block total_gas_def total_bloom_def)
  then show ?thesis
    using genesis_state_reads [of allocs a] by (simp add: s block block_hash_reads)
qed

section \<open>The theorems on a small chain\<close>

definition sample_allocs :: "(Address \<times> U256) list" where
  "sample_allocs = [(1, 100)]"

definition plain_exec_orders :: "'bc exec_orders" where
  "plain_exec_orders = \<lparr>order_accounts = (\<lambda>xs. xs), order_changes = (\<lambda>xs. xs), order_slots = (\<lambda>xs. xs)\<rparr>"

definition reversed_exec_orders :: "'bc exec_orders" where
  "reversed_exec_orders = \<lparr>order_accounts = rev, order_changes = rev, order_slots = rev\<rparr>"

lemma sample_orders_ok: "exec_orders_ok plain_exec_orders" "exec_orders_ok reversed_exec_orders"
  by (simp_all add: exec_orders_ok_def plain_exec_orders_def reversed_exec_orders_def hash_order_def)

definition sample_builder :: BlockBuilderConfig where
  "sample_builder = \<lparr>cfg_beneficiary = 0, cfg_timestamp = None, cfg_gas_limit = None\<rparr>"

lemma sample_build:
  "\<exists>built. build_block plain_exec_orders sample_ext sample_evm sample_builder (sample_header 4) [sample_tx] s = Inr built"
  by (simp add: build_block_def execute_tx_def sample_evm_def sample_tx_def Let_def)

lemma code_table_genesis: "code_table code_of (genesis_state allocs)"
  using genesis_state_reads [of allocs]
  by (auto simp: code_table_def AccountInfo_default_def split: option.splits)

theorem built_block_validates_witness:
  "\<exists>built. build_block plain_exec_orders sample_ext sample_evm sample_builder (sample_header 4) [sample_tx]
       (genesis_state sample_allocs) = Inr built \<and>
     validate_block reversed_exec_orders sample_ext sample_evm (built_block built) (genesis_state sample_allocs) = Inr ()"
proof -
  obtain built where b: "build_block plain_exec_orders sample_ext sample_evm sample_builder (sample_header 4)
      [sample_tx] (genesis_state sample_allocs) = Inr built"
    using sample_build by blast
  have evm: "evm_reports_code (\<lambda>_. []) sample_evm" "evm_returns_maps sample_evm"
    by (simp_all add: evm_reports_code_def evm_returns_maps_def sample_evm_def)
  have "db_inv (genesis_state sample_allocs)"
    by (simp add: genesis_state_def sample_allocs_def db_inv_intros)
  from built_block_validates [OF sample_orders_ok evm code_table_genesis same_reads_refl this this b] b
  show ?thesis by blast
qed

theorem built_block_links_witness:
  "\<exists>built. build_block plain_exec_orders sample_ext sample_evm sample_builder (sample_header 4) [sample_tx]
       (genesis_state sample_allocs) = Inr built \<and>
     unat (number (header (built_block built))) = 5 \<and>
     timestamp (header (built_block built)) = 12 \<and> length (built_receipts built) = 1"
proof -
  obtain built where b: "build_block plain_exec_orders sample_ext sample_evm sample_builder (sample_header 4)
      [sample_tx] (genesis_state sample_allocs) = Inr built"
    using sample_build by blast
  from built_block_links [OF b] b show ?thesis
    by (auto simp: sample_header_def sample_builder_def)
qed

theorem state_root_payload_canonical_witness:
  "state_root_payload (genesis_state [(1, 100), (2, 50)]) = state_root_payload (genesis_state [(2, 50), (1, 100)])"
proof -
  let ?s = "genesis_state [(1, 100), (2, 50)]" and ?t = "genesis_state [(2, 50), (1, 100)]"
  have fit: "lengths_fit (genesis_state al)" if "length (accounts (genesis_state al)) < 2 ^ 64" for al
    using that genesis_state_reads [of al]
    by (auto simp: lengths_fit_def AccountInfo_default_def split: option.splits)
  have "db_inv ?s" and "db_inv ?t"
    by (simp_all add: genesis_state_def db_inv_intros)
  moreover have "lengths_fit ?s" and "lengths_fit ?t"
    by (rule fit, simp add: genesis_state_def accounts_def insert_account_def InMemoryStateDB_new_def)+
  ultimately have "db_inv ?s" "db_inv ?t" "lengths_fit ?s" "lengths_fit ?t" by blast+
  from state_root_payload_canonical [OF this] show ?thesis
    by (auto simp: same_accounts_def genesis_state_reads)
qed

theorem genesis_block_correct_witness:
  "case create_genesis_block sample_ext sample_allocs of (block, s) \<Rightarrow>
     acct_balance (get_account s 1) = 100 \<and> get_block_hash s 0 = block_hash sample_ext block \<and>
     validate_block plain_exec_orders sample_ext sample_evm block s = Inr ()"
proof -
  obtain block s where g: "create_genesis_block sample_ext sample_allocs = (block, s)" by fastforce
  have "map_of (rev sample_allocs) 1 = Some 100" by (simp add: sample_allocs_def)
  with genesis_block_correct [OF g, of 1 plain_exec_orders sample_evm] show ?thesis
    by (simp add: g)
qed

end
