(* ===== verification/Devnet.thy ===== *)
theory Devnet
  imports Event_Loop P2P_Node Eth_Rpc Block_Builder
begin

text \<open>
  The devnet node of \<open>crates/eth2077-node/src/bin/devnet.rs\<close>: consensus engine, network
  node, chain store and block builder in one main loop.  A step of the loop is a handler
  on the node's record; it returns the network outputs in order, or \<open>None\<close> if one of the
  relay caches never returned.  The sockets, the timer and the RPC server's task are not
  modelled: a tick and a network event are inputs.
\<close>

record DevnetConfig =
  peer_id_of :: u64
  listen_address :: SocketAddr
  boot_peer_list :: "SocketAddr list"
  chain_id_of :: u64

record 'bc devnet_env =
  env_senders :: sender_order
  env_orders :: hash_orders
  env_exec_orders :: "'bc exec_orders"
  env_ext :: ext
  env_evm :: "'bc evm"
  env_json :: node_json

record Devnet =
  consensus :: ConsensusEngine
  p2p_node :: P2pNode
  rpc_state :: EthRpcState
  proposed_blocks :: "(B256, BuiltBlock) hashmap"
  execution_state :: InMemoryStateDB

section \<open>Consensus events\<close>

definition send_and_apply ::
    "'bc devnet_env \<Rightarrow> Devnet \<Rightarrow> ConsensusMessage \<Rightarrow>
      (node_output list \<times> ConsensusEvent list \<times> Devnet) option" where
  "send_and_apply env d msg =
     (case broadcast_consensus_msg (env_senders env) (env_json env) (p2p_node d) msg of
        None \<Rightarrow> None
      | Some (outs, p2p) \<Rightarrow>
          (case on_message (env_orders env) (consensus d) msg of (evs, e) \<Rightarrow>
             Some (outs, evs, d\<lparr>p2p_node := p2p, consensus := e\<rparr>)))"

definition apply_finalized ::
    "'bc devnet_env \<Rightarrow> Devnet \<Rightarrow> B256 \<Rightarrow> (node_output list \<times> Devnet) option" where
  "apply_finalized env d bh =
     (case map_of (proposed_blocks d) bh of
        None \<Rightarrow> Some ([], d)
      | Some built \<Rightarrow>
          let d1 = d\<lparr>proposed_blocks := hm_remove bh (proposed_blocks d),
                     execution_state := built_state built,
                     rpc_state := append_block (rpc_state d) (built_block built)
                       (built_receipts built) (built_state built)\<rparr>
          in map_option (\<lambda>(outs, p2p). (outs, d1\<lparr>p2p_node := p2p\<rparr>))
               (broadcast_block (env_senders env) (env_ext env) (env_json env) (p2p_node d1)
                  (built_block built)))"

definition process_event ::
    "'bc devnet_env \<Rightarrow> u64 \<Rightarrow> Devnet \<Rightarrow> ConsensusEvent \<Rightarrow>
      (node_output list \<times> ConsensusEvent list \<times> Devnet) option" where
  "process_event env local_validator d ev =
     (case ev of
        NeedProposal height round leader \<Rightarrow> Some ([], [], d)
      | RoundTimeout height round \<Rightarrow> Some ([], [], d)
      | SendPrevote height round bh \<Rightarrow>
          send_and_apply env d (Prevote height round bh local_validator)
      | SendPrecommit height round bh \<Rightarrow>
          send_and_apply env d (Precommit height round bh local_validator)
      | BlockFinalized height bh round \<Rightarrow>
          (case apply_finalized env d bh of
             None \<Rightarrow> None
           | Some (outs, d1) \<Rightarrow>
               (case start_height (consensus d1) (sat_add height 1) of (evs, e) \<Rightarrow>
                  Some (outs, evs, d1\<lparr>consensus := e\<rparr>))))"

text \<open>The engine sees of an event what \<open>handle_event\<close> says, whatever the rest of the node does.\<close>

lemma apply_finalized_consensus:
  "apply_finalized env d bh = Some (outs, d1) \<Longrightarrow> consensus d1 = consensus d"
  by (auto simp: apply_finalized_def Let_def split: option.splits)

lemma process_event_handle:
  assumes "process_event env me d ev = Some (outs, evs, d')"
  shows "evs = next_events (handle_event (env_orders env) me (consensus d) ev)"
    and "consensus d' = next_engine (handle_event (env_orders env) me (consensus d) ev)"
  using assms
  by (auto simp: process_event_def handle_event_def cast_vote_def send_and_apply_def
      apply_finalized_consensus split: ConsensusEvent.splits option.splits prod.splits)

lemma process_event_pop:
  assumes "evs \<noteq> []" and "process_event env me d (last evs) = Some (outs, evs', d')"
  shows "queue_rank (butlast evs @ evs') < queue_rank evs"
  using queue_rank_pop [OF assms(1)] process_event_handle(1) [OF assms(2)] by simp

function process_consensus_events ::
    "'bc devnet_env \<Rightarrow> u64 \<Rightarrow> Devnet \<Rightarrow> ConsensusEvent list \<Rightarrow> (node_output list \<times> Devnet) option" where
  "process_consensus_events env local_validator d events =
     (if events = [] then Some ([], d)
      else case process_event env local_validator d (last events) of
        None \<Rightarrow> None
      | Some (outs, evs, d') \<Rightarrow>
          map_option (\<lambda>(outs', d''). (outs @ outs', d''))
            (process_consensus_events env local_validator d' (butlast events @ evs)))"
  by pat_completeness auto

termination process_consensus_events
  by (relation "measure (\<lambda>(env, me, d, evs). queue_rank evs)")
    (auto simp del: queue_rank_simps intro: process_event_pop)

declare process_consensus_events.simps [simp del]

section \<open>The main loop\<close>

definition on_consensus_message ::
    "'bc devnet_env \<Rightarrow> DevnetConfig \<Rightarrow> Devnet \<Rightarrow> ConsensusMessage \<Rightarrow> (node_output list \<times> Devnet) option" where
  "on_consensus_message env cfg d msg =
     (case on_message (env_orders env) (consensus d) msg of (evs, e) \<Rightarrow>
        process_consensus_events env (peer_id_of cfg) (d\<lparr>consensus := e\<rparr>) evs)"

definition block_timer_tick ::
    "'bc devnet_env \<Rightarrow> DevnetConfig \<Rightarrow> ValidatorSet \<Rightarrow> Devnet \<Rightarrow> (node_output list \<times> Devnet) option" where
  "block_timer_tick env cfg vset d =
     (let height = current_height (consensus d);
          round = current_round (consensus d);
          leader = leader_for_round vset height round
      in if leader \<noteq> peer_id_of cfg then Some ([], d)
         else case latest_block (rpc_state d) of
           None \<Rightarrow> Some ([], d)
         | Some parent \<Rightarrow>
             (case take_pending_txs (rpc_state d) of (pending, rpc) \<Rightarrow>
                let d1 = d\<lparr>rpc_state := rpc\<rparr>;
                    builder = \<lparr>cfg_beneficiary = 0, cfg_timestamp = None,
                               cfg_gas_limit = Some (gas_limit (header parent))\<rparr>
                in case build_block (env_exec_orders env) (env_ext env) (env_evm env) builder
                          (header parent) pending (execution_state d1) of
                     Inl err \<Rightarrow> Some ([], d1)
                   | Inr built \<Rightarrow>
                       let bh = block_hash (env_ext env) (built_block built);
                           d2 = d1\<lparr>proposed_blocks := hm_insert bh built (proposed_blocks d1)\<rparr>;
                           proposal = Proposal height round bh (peer_id_of cfg)
                       in case broadcast_consensus_msg (env_senders env) (env_json env)
                                 (p2p_node d2) proposal of
                            None \<Rightarrow> None
                          | Some (outs, p2p) \<Rightarrow>
                              map_option (\<lambda>(outs', d'). (outs @ outs', d'))
                                (on_consensus_message env cfg (d2\<lparr>p2p_node := p2p\<rparr>) proposal)))"

definition on_p2p_event ::
    "'bc devnet_env \<Rightarrow> DevnetConfig \<Rightarrow> Devnet \<Rightarrow> P2pEvent \<Rightarrow> (node_output list \<times> Devnet) option" where
  "on_p2p_event env cfg d ev =
     (case ev of
        BlockReceived from_peer block \<Rightarrow>
          let s = insert_block_hash (block_number block) (block_hash (env_ext env) block)
                    (execution_state d)
          in Some ([], d\<lparr>execution_state := s,
                         rpc_state := append_block (rpc_state d) block [] s\<rparr>)
      | ConsensusMessageReceived from_peer msg \<Rightarrow> on_consensus_message env cfg d msg
      | TransactionReceived from_peer tx \<Rightarrow> Some ([], d)
      | PeerConnectedEvent i \<Rightarrow> Some ([], d)
      | PeerDisconnectedEvent i \<Rightarrow> Some ([], d)
      | SyncComplete h \<Rightarrow> Some ([], d))"

definition devnet_allocs :: "(Address \<times> U256) list" where
  "devnet_allocs =
     [(0x1111111111111111111111111111111111111111, 1000000000000000000000),
      (0x2222222222222222222222222222222222222222, 1000000000000000000000)]"

definition devnet_validators :: "DevnetConfig \<Rightarrow> ValidatorSet" where
  "devnet_validators cfg =
     ValidatorSet_new [\<lparr>val_index = peer_id_of cfg, val_weight = 1, public_key = 0\<rparr>]"

definition devnet_fast_path :: FastPathConfig where
  "devnet_fast_path = \<lparr>quorum_threshold = 1, timeout_ms = 5000, optimistic_threshold = 1\<rparr>"

definition devnet_start ::
    "'bc devnet_env \<Rightarrow> DevnetConfig \<Rightarrow> (node_output list \<times> Devnet) option" where
  "devnet_start env cfg =
     (case create_genesis_block (env_ext env) devnet_allocs of (genesis_block, genesis) \<Rightarrow>
        let p2p_config = \<lparr>listen_addr = listen_address cfg, boot_peers = boot_peer_list cfg,
                          cfg_peer_id = peer_id_of cfg, cfg_chain_id = chain_id_of cfg,
                          cfg_max_peers = 50\<rparr>
        in case start_height (ConsensusEngine_new (devnet_validators cfg) devnet_fast_path)
                  (sat_add (block_number genesis_block) 1) of (evs, e) \<Rightarrow>
             process_consensus_events env (peer_id_of cfg)
               \<lparr>consensus = e, p2p_node = P2pNode_new p2p_config,
                rpc_state = EthRpcState_new (chain_id_of cfg) genesis_block genesis,
                proposed_blocks = [], execution_state = genesis\<rparr> evs)"

text \<open>
  The inputs of the main loop, and those of the dispatch loop that runs beside it on the
  shared network node.
\<close>

datatype devnet_input =
    Tick
  | PeerEvent P2pEvent
  | Inbound nat NodeInbound

definition devnet_step ::
    "'bc devnet_env \<Rightarrow> DevnetConfig \<Rightarrow> Devnet \<Rightarrow> devnet_input \<Rightarrow> (node_output list \<times> Devnet) option" where
  "devnet_step env cfg d i =
     (case i of
        Tick \<Rightarrow> block_timer_tick env cfg (devnet_validators cfg) d
      | PeerEvent ev \<Rightarrow> on_p2p_event env cfg d ev
      | Inbound now msg \<Rightarrow>
          map_option (\<lambda>(outs, p2p). (outs, d\<lparr>p2p_node := p2p\<rparr>))
            (dispatch (env_senders env) (env_ext env) (env_json env) now (p2p_node d) msg))"

fun devnet_run ::
    "'bc devnet_env \<Rightarrow> DevnetConfig \<Rightarrow> Devnet \<Rightarrow> devnet_input list \<Rightarrow> (node_output list \<times> Devnet) option" where
  "devnet_run env cfg d [] = Some ([], d)"
| "devnet_run env cfg d (i # is) =
     (case devnet_step env cfg d i of
        None \<Rightarrow> None
      | Some (outs, d') \<Rightarrow>
          map_option (\<lambda>(outs', d''). (outs @ outs', d'')) (devnet_run env cfg d' is))"

section \<open>The sole validator\<close>

text \<open>The engine at the start of a height, with the devnet's validators and fast path.\<close>

definition fresh_engine :: "DevnetConfig \<Rightarrow> u64 \<Rightarrow> ConsensusEngine" where
  "fresh_engine cfg h =
     snd (start_height (ConsensusEngine_new (devnet_validators cfg) devnet_fast_path) h)"

lemma fresh_engine_eq:
  "fresh_engine cfg h =
     \<lparr>validator_set = devnet_validators cfg,
      state = \<lparr>rs_height = h, rs_round = 0, rs_step = Propose, proposals = [], prevotes = [],
               precommits = [], locked_round = None, locked_hash = None\<rparr>,
      fast_path = FastPathAccumulator_new devnet_fast_path\<rparr>"
  by (simp add: fresh_engine_def start_height_def ConsensusEngine_new_def RoundState_new_def
      reset_for_height_def fp_reset_def FastPathAccumulator_new_def)

lemma start_height_fresh:
  assumes "same_config (fresh_engine cfg h0) e"
  shows "snd (start_height e h) = fresh_engine cfg h"
  using assms
  by (simp add: same_config_def fresh_engine_eq start_height_def reset_for_height_def fp_reset_def
      FastPathAccumulator_new_def)

lemma devnet_leader: "leader_for_round (devnet_validators cfg) h r = peer_id_of cfg"
  by (simp add: leader_for_round_def devnet_validators_def ValidatorSet_new_def Let_def)

lemma fresh_proposal:
  "fst (on_message ho (fresh_engine cfg h) (Proposal h 0 x (peer_id_of cfg))) = [SendPrevote h 0 (Some x)]"
  by (simp add: on_message_def on_proposal_def fresh_engine_eq devnet_leader)

lemma fresh_prevote:
  assumes "fast_path e = FastPathAccumulator_new devnet_fast_path" and "prevotes (state e) = []"
    and "rs_height (state e) = h" and "rs_round (state e) = 0" and "rs_step (state e) \<noteq> Committed"
  shows "fst (on_message ho e (Prevote h 0 (Some x) v)) = [BlockFinalized h x 0]"
  using assms
  by (simp add: on_message_def on_prevote_def insert_prevote_def add_attestation_def fp_conclude_def
      agreement_count_def is_timed_out_def FastPathAccumulator_new_def devnet_fast_path_def Let_def sat_sub_def)

lemma broadcast_consensus_returns:
  assumes "node_inv n"
  shows "\<exists>outs n'. broadcast_consensus_msg it j n msg = Some (outs, n') \<and> node_inv n'"
proof (cases "consensus_to_vec j msg")
  case (Inr d)
  with consensus_cache.relay_returns [of "consensus_cache n" "sha256 j d"] assms show ?thesis
    by (auto simp: broadcast_consensus_msg_def should_relay_def node_inv_def Let_def)
qed (use assms in \<open>simp add: broadcast_consensus_msg_def\<close>)

lemma broadcast_block_returns:
  assumes "node_inv n"
  shows "\<exists>outs n'. broadcast_block it x j n b = Some (outs, n') \<and> node_inv n'"
  using on_new_block_returns [of "gossip_engine n" x j b] assms
  by (auto simp: broadcast_block_def node_inv_def Let_def)

lemma apply_finalized_returns:
  assumes "node_inv (p2p_node d)"
  shows "\<exists>outs p2p. apply_finalized env d bh = Some (outs,
      (case map_of (proposed_blocks d) bh of
         None \<Rightarrow> d
       | Some built \<Rightarrow>
           d\<lparr>proposed_blocks := hm_remove bh (proposed_blocks d), execution_state := built_state built,
             rpc_state := append_block (rpc_state d) (built_block built) (built_receipts built) (built_state built)\<rparr>)
        \<lparr>p2p_node := p2p\<rparr>) \<and> node_inv p2p"
proof (cases "map_of (proposed_blocks d) bh")
  case None
  with assms show ?thesis by (intro exI [of _ "[]"] exI [of _ "p2p_node d"]) (simp add: apply_finalized_def)
next
  case (Some built)
  with broadcast_block_returns [OF assms, of "env_senders env" "env_ext env" "env_json env" "built_block built"]
  show ?thesis by (auto simp: apply_finalized_def Let_def)
qed

text \<open>Every event is handled, and the network node stays consistent.\<close>

lemma process_event_returns:
  assumes "node_inv (p2p_node d)"
  shows "\<exists>outs evs d'. process_event env me d ev = Some (outs, evs, d') \<and> node_inv (p2p_node d')"
proof -
  have vote: "\<exists>outs evs d'. send_and_apply env d msg = Some (outs, evs, d') \<and> node_inv (p2p_node d')" for msg
    using broadcast_consensus_returns [OF assms, of "env_senders env" "env_json env" msg]
    by (auto simp: send_and_apply_def split: prod.splits)
  show ?thesis
  proof (cases ev)
    case (BlockFinalized h bh r)
    obtain outs d1 where "apply_finalized env d bh = Some (outs, d1)" and "node_inv (p2p_node d1)"
      using apply_finalized_returns [OF assms, of env bh] by auto
    with BlockFinalized show ?thesis by (simp add: process_event_def start_height_def)
  qed (use vote assms in \<open>simp_all add: process_event_def\<close>)
qed

lemma process_consensus_events_returns:
  "node_inv (p2p_node d) \<Longrightarrow>
     \<exists>outs d'. process_consensus_events env me d evs = Some (outs, d') \<and> node_inv (p2p_node d')"
proof (induction env me d evs rule: process_consensus_events.induct)
  case (1 env me d evs)
  show ?case
  proof (cases "evs = []")
    case True
    with 1(2) show ?thesis by (simp add: process_consensus_events.simps)
  next
    case False
    obtain outs evs' d' where ev: "process_event env me d (last evs) = Some (outs, evs', d')"
      and "node_inv (p2p_node d')"
      using process_event_returns [OF 1(2)] by blast
    with 1(1) [OF False ev refl refl] show ?thesis
      using False by (subst process_consensus_events.simps) auto
  qed
qed

lemma process_events_one:
  "process_event env me d ev = Some (outs, evs, d') \<Longrightarrow>
     process_consensus_events env me d [ev] =
       map_option (\<lambda>(outs', d''). (outs @ outs', d'')) (process_consensus_events env me d' evs)"
  by (subst process_consensus_events.simps) simp

lemma process_events_request:
  "process_consensus_events env me d [NeedProposal h r l] = Some ([], d)"
  by (simp add: process_events_one [of env me d _ "[]" "[]" d] process_event_def process_consensus_events.simps)

text \<open>The finalisation of a block by an engine with the devnet's configuration.\<close>

lemma process_events_final:
  assumes "node_inv (p2p_node d)" and "same_config (fresh_engine cfg h0) (consensus d)"
  shows "\<exists>outs p2p. process_consensus_events env me d [BlockFinalized h bh r] = Some (outs,
      (case map_of (proposed_blocks d) bh of
         None \<Rightarrow> d
       | Some built \<Rightarrow>
           d\<lparr>proposed_blocks := hm_remove bh (proposed_blocks d), execution_state := built_state built,
             rpc_state := append_block (rpc_state d) (built_block built) (built_receipts built) (built_state built)\<rparr>)
        \<lparr>p2p_node := p2p, consensus := fresh_engine cfg (sat_add h 1)\<rparr>) \<and> node_inv p2p"
    (is "\<exists>outs p2p. _ = Some (outs, ?d\<lparr>p2p_node := p2p, consensus := ?e\<rparr>) \<and> _")
proof -
  obtain outs p2p where a: "apply_finalized env d bh = Some (outs, ?d\<lparr>p2p_node := p2p\<rparr>)" and p: "node_inv p2p"
    using apply_finalized_returns [OF assms(1), of env bh] by auto
  have "consensus (?d\<lparr>p2p_node := p2p\<rparr>) = consensus d"
    by (rule apply_finalized_consensus [OF a])
  then have "start_height (consensus (?d\<lparr>p2p_node := p2p\<rparr>)) (sat_add h 1) =
      ([NeedProposal (sat_add h 1) 0 (leader_for_round (validator_set (consensus d)) (sat_add h 1) 0)], ?e)"
    using start_height_fresh [OF assms(2), of "sat_add h 1"] by (simp add: start_height_def)
  with a have "process_event env me d (BlockFinalized h bh r) =
      Some (outs, [NeedProposal (sat_add h 1) 0 (leader_for_round (validator_set (consensus d)) (sat_add h 1) 0)],
        ?d\<lparr>p2p_node := p2p, consensus := ?e\<rparr>)"
    by (simp add: process_event_def)
  with p show ?thesis
    by (intro exI [of _ outs] exI [of _ p2p]) (simp add: process_events_one process_events_request)
qed

text \<open>What the node's own proposal leads to: its prevote alone finalises the block.\<close>

lemma own_proposal:
  assumes "node_inv (p2p_node d)" and "consensus d = fresh_engine cfg h"
    and "map_of (proposed_blocks d) bh = Some built"
  shows "\<exists>outs p2p. on_consensus_message env cfg d (Proposal h 0 bh (peer_id_of cfg)) = Some (outs,
      d\<lparr>proposed_blocks := hm_remove bh (proposed_blocks d), execution_state := built_state built,
        rpc_state := append_block (rpc_state d) (built_block built) (built_receipts built) (built_state built),
        p2p_node := p2p, consensus := fresh_engine cfg (sat_add h 1)\<rparr>) \<and> node_inv p2p"
proof -
  let ?me = "peer_id_of cfg" and ?ho = "env_orders env"
  obtain e1 where e1: "on_message ?ho (fresh_engine cfg h) (Proposal h 0 bh ?me) = ([SendPrevote h 0 (Some bh)], e1)"
    and fp: "fast_path e1 = FastPathAccumulator_new devnet_fast_path" and pv: "prevotes (state e1) = []"
      "rs_height (state e1) = h" "rs_round (state e1) = 0" "rs_step (state e1) \<noteq> Committed"
    and c1: "same_config (fresh_engine cfg h) e1"
    by (simp add: on_message_def on_proposal_def fresh_engine_eq devnet_leader same_config_def)
  obtain e2 where e2: "on_message ?ho e1 (Prevote h 0 (Some bh) ?me) = ([BlockFinalized h bh 0], e2)"
    using fresh_prevote [OF fp pv, of ?ho bh ?me] by (cases "on_message ?ho e1 (Prevote h 0 (Some bh) ?me)") simp
  have c2: "same_config (fresh_engine cfg h) e2"
    using c1 on_message_config [of e1 ?ho "Prevote h 0 (Some bh) ?me"] by (simp add: e2 same_config_def)
  obtain outs p2p where b: "broadcast_consensus_msg (env_senders env) (env_json env) (p2p_node d)
      (Prevote h 0 (Some bh) ?me) = Some (outs, p2p)" and p: "node_inv p2p"
    using broadcast_consensus_returns [OF assms(1)] by blast
  let ?d = "d\<lparr>p2p_node := p2p, consensus := e2\<rparr>"
  have "process_event env ?me (d\<lparr>consensus := e1\<rparr>) (SendPrevote h 0 (Some bh)) =
      Some (outs, [BlockFinalized h bh 0], ?d)"
    by (simp add: process_event_def send_and_apply_def b e2)
  moreover obtain outs' p2p' where "process_consensus_events env ?me ?d [BlockFinalized h bh 0] = Some (outs',
      d\<lparr>proposed_blocks := hm_remove bh (proposed_blocks d), execution_state := built_state built,
        rpc_state := append_block (rpc_state d) (built_block built) (built_receipts built) (built_state built),
        p2p_node := p2p', consensus := fresh_engine cfg (sat_add h 1)\<rparr>)" and "node_inv p2p'"
    using process_events_final [of ?d cfg h env ?me h bh 0] p c2 assms(3) by auto
  ultimately show ?thesis
    by (auto simp: on_consensus_message_def assms(2) e1 process_events_one)
qed

lemma devnet_tick:
  assumes "node_inv (p2p_node d)" and "consensus d = fresh_engine cfg h"
    and "latest_block (rpc_state d) = Some parent"
    and "build_block (env_exec_orders env) (env_ext env) (env_evm env)
      \<lparr>cfg_beneficiary = 0, cfg_timestamp = None, cfg_gas_limit = Some (gas_limit (header parent))\<rparr>
      (header parent) (pending_txs (rpc_state d)) (execution_state d) = Inr built"
  shows "\<exists>outs d'. block_timer_tick env cfg (devnet_validators cfg) d = Some (outs, d') \<and>
    node_inv (p2p_node d') \<and> consensus d' = fresh_engine cfg (sat_add h 1) \<and>
    execution_state d' = built_state built \<and>
    rpc_state d' = append_block ((rpc_state d)\<lparr>pending_txs := []\<rparr>) (built_block built)
      (built_receipts built) (built_state built)"
proof -
  let ?bh = "block_hash (env_ext env) (built_block built)"
  let ?msg = "Proposal h 0 ?bh (peer_id_of cfg)"
  let ?d2 = "d\<lparr>rpc_state := (rpc_state d)\<lparr>pending_txs := []\<rparr>,
               proposed_blocks := hm_insert ?bh built (proposed_blocks d)\<rparr>"
  obtain outs p2p where b: "broadcast_consensus_msg (env_senders env) (env_json env) (p2p_node d) ?msg = Some (outs, p2p)"
    and p: "node_inv p2p"
    using broadcast_consensus_returns [OF assms(1)] by blast
  have pos: "current_height (consensus d) = h" "current_round (consensus d) = 0"
    by (simp_all add: assms(2) fresh_engine_eq current_height_def current_round_def)
  have tick: "block_timer_tick env cfg (devnet_validators cfg) d =
      map_option (\<lambda>(outs', d'). (outs @ outs', d')) (on_consensus_message env cfg (?d2\<lparr>p2p_node := p2p\<rparr>) ?msg)"
    using assms(3,4) b by (simp add: block_timer_tick_def pos devnet_leader take_pending_txs_def Let_def)
  show ?thesis
    unfolding tick
    using own_proposal [of "?d2\<lparr>p2p_node := p2p\<rparr>" cfg h ?bh built env] p assms(2) by auto
qed

section \<open>The chain of a sole validator\<close>

lemma build_empty:
  "\<exists>built. build_block it x e config parent [] s = Inr built \<and>
     number (header (built_block built)) = sat_add (number parent) 1 \<and>
     parent_hash (header (built_block built)) = header_hash x parent \<and>
     (\<exists>n h. built_state built = insert_block_hash n h s) \<and>
     (\<forall>it' g. accounts g = accounts s \<longrightarrow> get_account g = get_account s \<longrightarrow>
        validate_block it' x e (built_block built) g = Inr ())"
  by (auto simp: build_block_def Let_def validate_block_run_txs total_gas_def total_bloom_def
      compute_state_root_def intro!: arg_cong [of _ _ "keccak256 x"] state_root_payload_cong)

text \<open>
  \<open>linked_chain env n bs\<close>: the genesis block and \<open>n\<close> blocks after it, each numbered, linked to
  the one before by its hash, and accepted by the validator on the genesis state.
\<close>

definition linked_chain :: "'bc devnet_env \<Rightarrow> nat \<Rightarrow> Block list \<Rightarrow> bool" where
  "linked_chain env n bs \<longleftrightarrow>
     (case create_genesis_block (env_ext env) devnet_allocs of (genesis, g) \<Rightarrow>
        length bs = Suc n \<and> bs ! 0 = genesis \<and>
        (\<forall>k < n. parent_hash (header (bs ! Suc k)) = block_hash (env_ext env) (bs ! k) \<and>
           unat (block_number (bs ! Suc k)) = min (Suc k) (2 ^ 64 - 1) \<and>
           validate_block (env_exec_orders env) (env_ext env) (env_evm env) (bs ! Suc k) g = Inr ()))"

definition undisturbed :: "devnet_input \<Rightarrow> bool" where
  "undisturbed i =
     (case i of
        PeerEvent (BlockReceived _ _) \<Rightarrow> False
      | PeerEvent (ConsensusMessageReceived _ _) \<Rightarrow> False
      | _ \<Rightarrow> True)"

definition ticks :: "devnet_input list \<Rightarrow> nat" where
  "ticks is = length (filter (\<lambda>i. i = Tick) is)"

definition solo_inv :: "'bc devnet_env \<Rightarrow> DevnetConfig \<Rightarrow> nat \<Rightarrow> Devnet \<Rightarrow> bool" where
  "solo_inv env cfg n d \<longleftrightarrow>
     node_inv (p2p_node d) \<and> pending_txs (rpc_state d) = [] \<and>
     linked_chain env n (rpc_blocks (rpc_state d)) \<and>
     (\<exists>h. consensus d = fresh_engine cfg h \<and> unat h = min (Suc n) (2 ^ 64 - 1)) \<and>
     (let g = snd (create_genesis_block (env_ext env) devnet_allocs) in
      accounts (execution_state d) = accounts g \<and> get_account (execution_state d) = get_account g)"

lemma genesis_number: "number (header (fst (create_genesis_block x allocs))) = 0"
  by (simp add: create_genesis_block_def Let_def)

lemma linked_chain_last:
  assumes "linked_chain env n bs"
  shows "bs \<noteq> []" and "length bs = Suc n" and "last bs = bs ! n"
proof -
  show len: "length bs = Suc n" using assms by (auto simp: linked_chain_def split: prod.splits)
  then show ne: "bs \<noteq> []" by auto
  show "last bs = bs ! n" using last_conv_nth [OF ne] len by simp
qed

lemma linked_last_number:
  assumes "linked_chain env n bs"
  shows "unat (number (header (last bs))) = min n (2 ^ 64 - 1)"
proof -
  note linked_chain_last [OF assms]
  moreover have "bs ! 0 = fst (create_genesis_block (env_ext env) devnet_allocs)"
    using assms by (auto simp: linked_chain_def split: prod.splits)
  ultimately show ?thesis
    using assms genesis_number [of "env_ext env" devnet_allocs]
    by (cases n) (auto simp: linked_chain_def block_number_def split: prod.splits)
qed

lemma linked_chain_snoc:
  assumes "linked_chain env n bs"
    and "parent_hash (header b) = header_hash (env_ext env) (header (last bs))"
    and "number (header b) = sat_add (number (header (last bs))) 1"
    and "validate_block (env_exec_orders env) (env_ext env) (env_evm env) b
      (snd (create_genesis_block (env_ext env) devnet_allocs)) = Inr ()"
  shows "linked_chain env (Suc n) (bs @ [b])"
proof -
  note len = linked_chain_last(2) [OF assms(1)] and last = linked_chain_last(3) [OF assms(1)]
  have "unat (number (header b)) = min (Suc n) (2 ^ 64 - 1)"
    using linked_last_number [OF assms(1)] assms(3) by (simp add: sat_simps)
  then show ?thesis
    using assms(1,2,4) len
    by (auto simp: linked_chain_def nth_append less_Suc_eq block_number_def block_hash_def last split: prod.splits)
qed

lemma solo_inv_tick:
  assumes "solo_inv env cfg n d"
  shows "\<exists>outs d'. devnet_step env cfg d Tick = Some (outs, d') \<and> solo_inv env cfg (Suc n) d'"
proof -
  let ?g = "snd (create_genesis_block (env_ext env) devnet_allocs)"
  let ?bs = "rpc_blocks (rpc_state d)"
  from assms have inv: "node_inv (p2p_node d)" "pending_txs (rpc_state d) = []" "linked_chain env n ?bs"
      "accounts ?g = accounts (execution_state d)" "get_account ?g = get_account (execution_state d)"
    by (simp_all add: solo_inv_def Let_def)
  from assms obtain h where h: "consensus d = fresh_engine cfg h" "unat h = min (Suc n) (2 ^ 64 - 1)"
    by (auto simp: solo_inv_def)
  have latest: "latest_block (rpc_state d) = Some (last ?bs)"
    using inv(3) by (auto simp: latest_block_def linked_chain_def split: prod.splits)
  obtain built where b: "build_block (env_exec_orders env) (env_ext env) (env_evm env)
      \<lparr>cfg_beneficiary = 0, cfg_timestamp = None, cfg_gas_limit = Some (gas_limit (header (last ?bs)))\<rparr>
      (header (last ?bs)) (pending_txs (rpc_state d)) (execution_state d) = Inr built"
    and link: "number (header (built_block built)) = sat_add (number (header (last ?bs))) 1"
      "parent_hash (header (built_block built)) = header_hash (env_ext env) (header (last ?bs))"
    and st: "\<exists>m k. built_state built = insert_block_hash m k (execution_state d)"
    and ok: "validate_block (env_exec_orders env) (env_ext env) (env_evm env) (built_block built) ?g = Inr ()"
    unfolding inv(2) using build_empty inv(4,5) by metis
  obtain outs d' where d': "block_timer_tick env cfg (devnet_validators cfg) d = Some (outs, d')"
    "node_inv (p2p_node d')" "consensus d' = fresh_engine cfg (sat_add h 1)"
    "execution_state d' = built_state built"
    "rpc_state d' = append_block ((rpc_state d)\<lparr>pending_txs := []\<rparr>) (built_block built)
      (built_receipts built) (built_state built)"
    using devnet_tick [OF inv(1) h(1) latest b] by blast
  have "linked_chain env (Suc n) (rpc_blocks (rpc_state d'))" and "pending_txs (rpc_state d') = []"
    using linked_chain_snoc [OF inv(3) link(2,1) ok] by (simp_all add: d' append_block_def)
  moreover have "unat (sat_add h 1) = min (Suc (Suc n)) (2 ^ 64 - 1)"
    using h(2) by (simp add: sat_simps)
  moreover have "accounts (execution_state d') = accounts ?g" "get_account (execution_state d') = get_account ?g"
    using st inv(4,5) by (auto simp: d' insert_block_hash_def accounts_def get_account_def [abs_def])
  ultimately have "solo_inv env cfg (Suc n) d'"
    using d'(2,3) by (auto simp: solo_inv_def)
  with d'(1) show ?thesis by (simp add: devnet_step_def)
qed

lemma solo_inv_other:
  assumes "solo_inv env cfg n d" and "undisturbed i" and "i \<noteq> Tick"
  shows "\<exists>outs d'. devnet_step env cfg d i = Some (outs, d') \<and> solo_inv env cfg n d'"
proof (cases i)
  case (PeerEvent ev)
  with assms show ?thesis
    by (cases ev) (auto simp: devnet_step_def on_p2p_event_def undisturbed_def)
next
  case (Inbound now m)
  obtain outs n' where "dispatch (env_senders env) (env_ext env) (env_json env) now (p2p_node d) m = Some (outs, n')"
    "node_inv n'"
    using dispatch_invariant assms(1) by (metis solo_inv_def)
  with Inbound assms(1) show ?thesis
    by (auto simp: devnet_step_def solo_inv_def Let_def)
qed (use assms in simp)

lemma solo_inv_run:
  "solo_inv env cfg n d \<Longrightarrow> \<forall>i \<in> set is. undisturbed i \<Longrightarrow>
     \<exists>outs d'. devnet_run env cfg d is = Some (outs, d') \<and> solo_inv env cfg (n + ticks is) d'"
proof (induction "is" arbitrary: n d)
  case Nil
  then show ?case by (simp add: ticks_def)
next
  case (Cons i "is")
  obtain outs d1 where d1: "devnet_step env cfg d i = Some (outs, d1)"
    "solo_inv env cfg (n + (if i = Tick then 1 else 0)) d1"
  proof (cases "i = Tick")
    case True
    then show ?thesis using solo_inv_tick [OF Cons.prems(1)] that by auto
  next
    case False
    then show ?thesis using solo_inv_other [OF Cons.prems(1), of i] Cons.prems(2) that by auto
  qed
  from Cons.IH [OF d1(2)] Cons.prems(2) d1(1) show ?case
    by (auto simp: ticks_def split: if_splits)
qed

lemma solo_inv_start: "\<exists>outs d. devnet_start env cfg = Some (outs, d) \<and> solo_inv env cfg 0 d"
proof -
  obtain genesis g where g: "create_genesis_block (env_ext env) devnet_allocs = (genesis, g)" by fastforce
  have "block_number genesis = 0"
    using genesis_number [of "env_ext env" devnet_allocs] by (simp add: g block_number_def)
  then have h: "unat (sat_add (block_number genesis) 1) = min (Suc 0) (2 ^ 64 - 1)" by (simp add: sat_simps)
  let ?h = "sat_add (block_number genesis) 1"
  let ?p = "P2pNode_new \<lparr>listen_addr = listen_address cfg, boot_peers = boot_peer_list cfg,
      cfg_peer_id = peer_id_of cfg, cfg_chain_id = chain_id_of cfg, cfg_max_peers = 50\<rparr>"
  let ?d = "\<lparr>consensus = fresh_engine cfg ?h, p2p_node = ?p,
      rpc_state = EthRpcState_new (chain_id_of cfg) genesis g, proposed_blocks = [], execution_state = g\<rparr>"
  have "start_height (ConsensusEngine_new (devnet_validators cfg) devnet_fast_path) ?h =
      ([NeedProposal ?h 0 (peer_id_of cfg)], fresh_engine cfg ?h)"
    by (simp add: start_height_def fresh_engine_def ConsensusEngine_new_def devnet_leader)
  then have "devnet_start env cfg = Some ([], ?d)"
    by (simp add: devnet_start_def g process_events_request)
  moreover have "linked_chain env 0 [genesis]"
    by (simp add: linked_chain_def g)
  then have "solo_inv env cfg 0 ?d"
    using h by (simp add: solo_inv_def g node_inv_new EthRpcState_new_def) blast
  ultimately show ?thesis by blast
qed

text \<open>C3.  A devnet node extends its chain.  From start-up, with any network input other than a
  peer's block or a peer's consensus message, no step hangs and every tick of the block
  timer finalises and appends exactly one block: after \<open>n\<close> ticks the store holds the genesis
  block and \<open>n\<close> blocks, each linked to its predecessor by hash and number and accepted by
  the validator, and consensus is at height \<open>n + 1\<close>.\<close>

theorem sole_validator_chain:
  assumes "\<forall>i \<in> set is. undisturbed i"
  shows "\<exists>outs0 d0 outs d. devnet_start env cfg = Some (outs0, d0) \<and>
    devnet_run env cfg d0 is = Some (outs, d) \<and>
    linked_chain env (ticks is) (rpc_blocks (rpc_state d)) \<and>
    unat (current_height (consensus d)) = min (ticks is + 1) (2 ^ 64 - 1)"
proof -
  obtain outs0 d0 where start: "devnet_start env cfg = Some (outs0, d0)" "solo_inv env cfg 0 d0"
    using solo_inv_start by blast
  obtain outs d where run: "devnet_run env cfg d0 is = Some (outs, d)" "solo_inv env cfg (ticks is) d"
    using solo_inv_run [OF start(2) assms] by auto
  then have "unat (current_height (consensus d)) = min (ticks is + 1) (2 ^ 64 - 1)"
    by (auto simp: solo_inv_def fresh_engine_eq current_height_def)
  with start run show ?thesis by (auto simp: solo_inv_def)
qed

text \<open>A block from a peer is stored unchecked: whatever block arrives becomes the latest
  block served over RPC and the parent of the node's next proposal, without being executed
  or validated, and the account state stays what it was.\<close>

theorem peer_block_unchecked:
  "\<exists>d'. on_p2p_event env cfg d (BlockReceived from_peer b) = Some ([], d') \<and>
     latest_block (rpc_state d') = Some b \<and>
     get_account (execution_state d') = get_account (execution_state d) \<and> consensus d' = consensus d"
  by (simp add: on_p2p_event_def append_block_def latest_block_def insert_block_hash_def
      get_account_def [abs_def] Let_def)

text \<open>A stranger's prevote moves a node past a height without a block: at a fresh height, a
  single prevote of any voter for a hash the node has not proposed finalises it, the chain
  stays as it was, and consensus goes on at the next height.\<close>

theorem stranger_skips_height:
  assumes "node_inv (p2p_node d)" and "consensus d = fresh_engine cfg h"
    and "map_of (proposed_blocks d) bh = None"
  shows "\<exists>outs d'. on_p2p_event env cfg d (ConsensusMessageReceived from_peer (Prevote h 0 (Some bh) v)) =
      Some (outs, d') \<and>
    rpc_state d' = rpc_state d \<and> execution_state d' = execution_state d \<and>
    consensus d' = fresh_engine cfg (sat_add h 1)"
proof -
  let ?ho = "env_orders env"
  obtain e2 where e2: "on_message ?ho (fresh_engine cfg h) (Prevote h 0 (Some bh) v) = ([BlockFinalized h bh 0], e2)"
    using fresh_prevote [of "fresh_engine cfg h" h ?ho bh v]
    by (cases "on_message ?ho (fresh_engine cfg h) (Prevote h 0 (Some bh) v)") (simp add: fresh_engine_eq)
  have "same_config (fresh_engine cfg h) e2"
    using on_message_config [of "fresh_engine cfg h" ?ho "Prevote h 0 (Some bh) v"] by (simp add: e2)
  then show ?thesis
    using process_events_final [of "d\<lparr>consensus := e2\<rparr>" cfg h env "peer_id_of cfg" h bh 0] assms
    by (auto simp: on_p2p_event_def on_consensus_message_def e2)
qed

text \<open>C10.  The node's event loop returns, whatever events it is given: it works off the whole queue,
  keeps the network node consistent, and leaves the consensus engine in exactly the state
  the abstract loop of the agreement proof reaches, so block building, storage and gossip
  do not influence consensus.\<close>

theorem process_events_refines:
  assumes "node_inv (p2p_node d)"
  shows "\<exists>outs d'. process_consensus_events env me d evs = Some (outs, d') \<and> node_inv (p2p_node d') \<and>
    consensus d' = snd (snd (run_events (env_orders env) me (consensus d) evs))"
  using assms
proof (induction env me d evs rule: process_consensus_events.induct)
  case (1 env me d evs)
  show ?case
  proof (cases "evs = []")
    case True
    with 1(2) show ?thesis by (simp add: process_consensus_events.simps run_events.simps)
  next
    case False
    let ?eff = "handle_event (env_orders env) me (consensus d) (last evs)"
    obtain outs evs' d1 where ev: "process_event env me d (last evs) = Some (outs, evs', d1)"
      and inv: "node_inv (p2p_node d1)"
      using process_event_returns [OF 1(2)] by blast
    then obtain outs' d' where rest: "process_consensus_events env me d1 (butlast evs @ evs') = Some (outs', d')"
      and "node_inv (p2p_node d')"
      and "consensus d' = snd (snd (run_events (env_orders env) me (consensus d1) (butlast evs @ evs')))"
      using 1(1) [OF False ev refl refl] by blast
    moreover have "snd (snd (run_events (env_orders env) me (consensus d) evs)) =
        snd (snd (run_events (env_orders env) me (consensus d1) (butlast evs @ evs')))"
      using False process_event_handle [OF ev]
      by (subst run_events.simps) (simp add: Let_def split: prod.splits)
    moreover have "process_consensus_events env me d evs = Some (outs @ outs', d')"
      using False ev rest by (subst process_consensus_events.simps) simp
    ultimately show ?thesis by auto
  qed
qed

section \<open>The theorems on a sample node\<close>

definition sample_env :: "bytes devnet_env" where
  "sample_env = \<lparr>env_senders = (\<lambda>xs. xs), env_orders = plain_orders, env_exec_orders = plain_exec_orders,
     env_ext = sample_ext, env_evm = sample_evm, env_json = sample_json\<rparr>"

definition sample_devnet_config :: DevnetConfig where
  "sample_devnet_config =
     \<lparr>peer_id_of = 3, listen_address = V4 0 0, boot_peer_list = [], chain_id_of = 2077\<rparr>"

theorem sole_validator_chain_witness:
  "\<exists>outs0 d0 outs d. devnet_start sample_env sample_devnet_config = Some (outs0, d0) \<and>
    devnet_run sample_env sample_devnet_config d0 [Tick, PeerEvent (PeerConnectedEvent 4), Tick] = Some (outs, d) \<and>
    linked_chain sample_env 2 (rpc_blocks (rpc_state d)) \<and> unat (current_height (consensus d)) = 3"
proof -
  let ?is = "[Tick, PeerEvent (PeerConnectedEvent 4), Tick]"
  have u: "\<forall>i \<in> set ?is. undisturbed i" by (simp add: undisturbed_def)
  have t: "ticks ?is = 2" by (simp add: ticks_def)
  have "min (2 + 1) (2 ^ 64 - 1) = (3 :: nat)" by simp
  with sole_validator_chain [OF u, of sample_env sample_devnet_config] show ?thesis
    unfolding t by (simp only:)
qed

theorem stranger_skips_height_witness:
  "\<exists>outs d'. on_p2p_event sample_env sample_devnet_config
      \<lparr>consensus = fresh_engine sample_devnet_config 1, p2p_node = P2pNode_new sample_node_config,
       rpc_state = sample_rpc, proposed_blocks = [], execution_state = InMemoryStateDB_new\<rparr>
      (ConsensusMessageReceived 9 (Prevote 1 0 (Some 5) 77)) = Some (outs, d') \<and>
    rpc_state d' = sample_rpc \<and> consensus d' = fresh_engine sample_devnet_config (sat_add 1 1)"
  using stranger_skips_height [of "\<lparr>consensus = fresh_engine sample_devnet_config 1,
      p2p_node = P2pNode_new sample_node_config, rpc_state = sample_rpc, proposed_blocks = [],
      execution_state = InMemoryStateDB_new\<rparr>" sample_devnet_config 1 5 sample_env 9 77]
  by (simp add: node_inv_new) blast

theorem process_events_refines_witness:
  "\<exists>outs d'. process_consensus_events sample_env 3
      \<lparr>consensus = fresh_engine sample_devnet_config 1, p2p_node = P2pNode_new sample_node_config,
       rpc_state = sample_rpc, proposed_blocks = [], execution_state = InMemoryStateDB_new\<rparr>
      [SendPrevote 1 0 None] = Some (outs, d') \<and> node_inv (p2p_node d')"
  using process_events_refines [of "\<lparr>consensus = fresh_engine sample_devnet_config 1,
      p2p_node = P2pNode_new sample_node_config, rpc_state = sample_rpc, proposed_blocks = [],
      execution_state = InMemoryStateDB_new\<rparr>" sample_env 3 "[SendPrevote 1 0 None]"]
  by (simp add: node_inv_new) blast

end
