(* ===== verification/Mempool.thy ===== *)
theory Mempool
  imports Prelude
begin

text \<open>
  The transaction pool and ingress pipeline of \<open>crates/eth2077-execution/src/ingress.rs\<close>.
  The three ordered maps of the pool are lists with increasing keys, a \<open>BTreeSet\<close> of
  nonces is a set, \<open>usize\<close> sizes are natural numbers and the one product that can leave
  the range of \<open>usize\<close> is reduced modulo \<open>2 ^ 64\<close> as in a release build.
\<close>

record MempoolTransaction =
  mtx_hash :: B256
  mtx_from :: Address
  mtx_to :: Address
  mtx_nonce :: u64
  mtx_gas_limit :: u64
  mtx_gas_price :: u64
  mtx_value :: u64
  mtx_data :: bytes

datatype IngressError =
    DuplicateTransaction
  | InvalidNonce
  | InsufficientGas
  | MempoolFull
  | ValidationFailed string

record MempoolConfig =
  max_size :: nat
  max_per_account :: nat
  min_gas_price :: u64
  eviction_threshold_percent :: u64

record Mempool =
  mp_config :: MempoolConfig
  mp_transactions :: "(B256 \<times> MempoolTransaction) list"
  account_counts :: "(Address \<times> nat) list"
  account_nonces :: "(Address \<times> u64 set) list"

definition Mempool_new :: "MempoolConfig \<Rightarrow> Mempool" where
  "Mempool_new config =
     \<lparr>mp_config = config, mp_transactions = [], account_counts = [], account_nonces = []\<rparr>"

definition mempool_len :: "Mempool \<Rightarrow> nat" where
  "mempool_len m = length (mp_transactions m)"

definition is_full :: "Mempool \<Rightarrow> bool" where
  "is_full m \<longleftrightarrow> max_size (mp_config m) \<le> mempool_len m"

definition mempool_clear :: "Mempool \<Rightarrow> Mempool" where
  "mempool_clear m = m\<lparr>mp_transactions := [], account_counts := [], account_nonces := []\<rparr>"

definition validate_candidate :: "Mempool \<Rightarrow> MempoolTransaction \<Rightarrow> IngressError + unit" where
  "validate_candidate m tx =
     (if map_of (mp_transactions m) (mtx_hash tx) \<noteq> None then Inl DuplicateTransaction
      else if mtx_gas_limit tx = 0 \<or> mtx_gas_price tx < min_gas_price (mp_config m) then
        Inl InsufficientGas
      else if (case map_of (account_nonces m) (mtx_from tx) of
                 Some nonces \<Rightarrow> mtx_nonce tx \<in> nonces | None \<Rightarrow> False) then Inl InvalidNonce
      else if max_per_account (mp_config m) \<le>
              (case map_of (account_counts m) (mtx_from tx) of Some n \<Rightarrow> n | None \<Rightarrow> 0) then
        Inl (ValidationFailed ''account mempool limit reached'')
      else Inr ())"

definition suggested_eviction_count :: "Mempool \<Rightarrow> nat" where
  "suggested_eviction_count m =
     (let percent = min (unat (eviction_threshold_percent (mp_config m))) 100 in
      if percent = 0 then 0
      else let size = max (max_size (mp_config m)) 1 in
        max ((size * percent mod 2 ^ 64) div 100) 1)"

definition decrement_account_state :: "Mempool \<Rightarrow> MempoolTransaction \<Rightarrow> Mempool" where
  "decrement_account_state m tx =
     m\<lparr>account_counts :=
         (case map_of (account_counts m) (mtx_from tx) of
            None \<Rightarrow> account_counts m
          | Some n \<Rightarrow>
              if n - 1 = 0 then bt_remove (mtx_from tx) (account_counts m)
              else bt_insert (mtx_from tx) (n - 1) (account_counts m)),
       account_nonces :=
         (case map_of (account_nonces m) (mtx_from tx) of
            None \<Rightarrow> account_nonces m
          | Some nonces \<Rightarrow>
              if nonces - {mtx_nonce tx} = {} then bt_remove (mtx_from tx) (account_nonces m)
              else bt_insert (mtx_from tx) (nonces - {mtx_nonce tx}) (account_nonces m))\<rparr>"

definition mempool_remove :: "Mempool \<Rightarrow> B256 \<Rightarrow> MempoolTransaction option \<times> Mempool" where
  "mempool_remove m h =
     (case map_of (mp_transactions m) h of
        None \<Rightarrow> (None, m)
      | Some tx \<Rightarrow>
          (Some tx, decrement_account_state
             (m\<lparr>mp_transactions := bt_remove h (mp_transactions m)\<rparr>) tx))"

text \<open>
  The comparison the eviction sorts by: lowest gas price first, and among equal prices
  the highest nonce first.  Equal candidates keep no particular order (\<open>sort_unstable_by\<close>),
  so the sort is a parameter \<open>srt\<close>.
\<close>

type_synonym candidate = "B256 \<times> u64 \<times> u64"

definition evict_le :: "candidate \<Rightarrow> candidate \<Rightarrow> bool" where
  "evict_le a b \<longleftrightarrow>
     fst (snd a) < fst (snd b) \<or> fst (snd a) = fst (snd b) \<and> snd (snd b) \<le> snd (snd a)"

fun evict_loop :: "Mempool \<Rightarrow> nat \<Rightarrow> candidate list \<Rightarrow> Mempool" where
  "evict_loop m to_evict [] = m"
| "evict_loop m to_evict ((h, _, _) # rest) =
     (if \<not> is_full m \<or> to_evict = 0 then m
      else evict_loop (snd (mempool_remove m h)) (to_evict - 1) rest)"

definition evict_lowest_gas :: "(candidate list \<Rightarrow> candidate list) \<Rightarrow> Mempool \<Rightarrow> nat \<Rightarrow> Mempool" where
  "evict_lowest_gas srt m to_evict =
     (if to_evict = 0 \<or> mp_transactions m = [] then m
      else evict_loop m to_evict
        (srt (map (\<lambda>(_, tx). (mtx_hash tx, mtx_gas_price tx, mtx_nonce tx)) (mp_transactions m))))"

definition add_transaction :: "Mempool \<Rightarrow> MempoolTransaction \<Rightarrow> Mempool" where
  "add_transaction m tx =
     m\<lparr>account_counts :=
         bt_insert (mtx_from tx)
           (case map_of (account_counts m) (mtx_from tx) of Some n \<Rightarrow> n + 1 | None \<Rightarrow> 1)
           (account_counts m),
       account_nonces :=
         bt_insert (mtx_from tx)
           (insert (mtx_nonce tx)
              (case map_of (account_nonces m) (mtx_from tx) of Some ns \<Rightarrow> ns | None \<Rightarrow> {}))
           (account_nonces m),
       mp_transactions := bt_insert (mtx_hash tx) tx (mp_transactions m)\<rparr>"

definition mempool_insert ::
    "(candidate list \<Rightarrow> candidate list) \<Rightarrow> Mempool \<Rightarrow> MempoolTransaction \<Rightarrow>
      (IngressError + unit) \<times> Mempool" where
  "mempool_insert srt m tx =
     (case validate_candidate m tx of
        Inl err \<Rightarrow> (Inl err, m)
      | Inr _ \<Rightarrow>
          if is_full m \<and> suggested_eviction_count m = 0 then (Inl MempoolFull, m)
          else
            let m1 = (if is_full m then evict_lowest_gas srt m (suggested_eviction_count m) else m)
            in if is_full m1 then (Inl MempoolFull, m1)
               else (Inr (), add_transaction m1 tx))"

text \<open>The order of \<open>peek_best\<close>: highest gas price, then lowest nonce, then lowest hash.\<close>

definition best_le :: "MempoolTransaction \<Rightarrow> MempoolTransaction \<Rightarrow> bool" where
  "best_le a b \<longleftrightarrow>
     mtx_gas_price b < mtx_gas_price a \<or> mtx_gas_price a = mtx_gas_price b \<and>
       (mtx_nonce a < mtx_nonce b \<or> mtx_nonce a = mtx_nonce b \<and> mtx_hash a \<le> mtx_hash b)"

definition peek_best :: "Mempool \<Rightarrow> nat \<Rightarrow> MempoolTransaction list" where
  "peek_best m n = take n (sort_by best_le (map snd (mp_transactions m)))"

section \<open>The ingress pipeline\<close>

record IngressPipeline =
  mempool :: Mempool

definition validate_transaction :: "IngressPipeline \<Rightarrow> MempoolTransaction \<Rightarrow> IngressError + unit" where
  "validate_transaction p tx = validate_candidate (mempool p) tx"

definition submit ::
    "(candidate list \<Rightarrow> candidate list) \<Rightarrow> IngressPipeline \<Rightarrow> MempoolTransaction \<Rightarrow>
      (IngressError + unit) \<times> IngressPipeline" where
  "submit srt p tx =
     (case validate_transaction p tx of
        Inl err \<Rightarrow> (Inl err, p)
      | Inr _ \<Rightarrow> (case mempool_insert srt (mempool p) tx of (r, m) \<Rightarrow> (r, p\<lparr>mempool := m\<rparr>)))"

fun drain_loop :: "Mempool \<Rightarrow> B256 list \<Rightarrow> MempoolTransaction list \<times> Mempool" where
  "drain_loop m [] = ([], m)"
| "drain_loop m (h # hs) =
     (case mempool_remove m h of
        (removed, m') \<Rightarrow>
          (case drain_loop m' hs of
             (rest, m'') \<Rightarrow>
               (case removed of Some tx \<Rightarrow> (tx # rest, m'') | None \<Rightarrow> (rest, m''))))"

definition drain_batch ::
    "IngressPipeline \<Rightarrow> nat \<Rightarrow> MempoolTransaction list \<times> IngressPipeline" where
  "drain_batch p max_count =
     (case drain_loop (mempool p) (map mtx_hash (peek_best (mempool p) max_count)) of
        (txs, m) \<Rightarrow> (txs, p\<lparr>mempool := m\<rparr>))"

definition pending_count :: "IngressPipeline \<Rightarrow> nat" where
  "pending_count p = mempool_len (mempool p)"

section \<open>The pool's invariant\<close>

text \<open>The hashes and the nonces of the pooled transactions of one sender.\<close>

definition pooled :: "Mempool \<Rightarrow> Address \<Rightarrow> B256 set" where
  "pooled m a = {h. \<exists>tx. map_of (mp_transactions m) h = Some tx \<and> mtx_from tx = a}"

definition pooled_nonces :: "Mempool \<Rightarrow> Address \<Rightarrow> u64 set" where
  "pooled_nonces m a =
     {n. \<exists>h tx. map_of (mp_transactions m) h = Some tx \<and> mtx_from tx = a \<and> mtx_nonce tx = n}"

text \<open>
  The two per-account maps are exact summaries of the transaction map (an account with
  nothing pooled has no entry), each transaction is stored under its own hash, no sender
  has two transactions with one nonce, and the two configured limits hold.
\<close>

definition keyed :: "Mempool \<Rightarrow> bool" where
  "keyed m \<longleftrightarrow> (\<forall>h tx. map_of (mp_transactions m) h = Some tx \<longrightarrow> mtx_hash tx = h)"

definition one_per_nonce :: "Mempool \<Rightarrow> bool" where
  "one_per_nonce m \<longleftrightarrow>
     (\<forall>h h' tx tx'. map_of (mp_transactions m) h = Some tx \<longrightarrow>
        map_of (mp_transactions m) h' = Some tx' \<longrightarrow>
        mtx_from tx = mtx_from tx' \<longrightarrow> mtx_nonce tx = mtx_nonce tx' \<longrightarrow> h = h')"

definition counts_exact :: "Mempool \<Rightarrow> bool" where
  "counts_exact m \<longleftrightarrow>
     (\<forall>a. map_of (account_counts m) a =
        (if pooled m a = {} then None else Some (card (pooled m a))))"

definition nonces_exact :: "Mempool \<Rightarrow> bool" where
  "nonces_exact m \<longleftrightarrow>
     (\<forall>a. map_of (account_nonces m) a =
        (if pooled_nonces m a = {} then None else Some (pooled_nonces m a)))"

definition ordered :: "Mempool \<Rightarrow> bool" where
  "ordered m \<longleftrightarrow>
     bt_inv (mp_transactions m) \<and> bt_inv (account_counts m) \<and> bt_inv (account_nonces m)"

definition summaries :: "Mempool \<Rightarrow> bool" where
  "summaries m \<longleftrightarrow> ordered m \<and> keyed m \<and> one_per_nonce m \<and> counts_exact m \<and> nonces_exact m"

lemmas summary_defs = summaries_def ordered_def keyed_def one_per_nonce_def counts_exact_def
  nonces_exact_def

definition limits :: "Mempool \<Rightarrow> bool" where
  "limits m \<longleftrightarrow> mempool_len m \<le> max_size (mp_config m) \<and>
     (\<forall>a. card (pooled m a) \<le> max_per_account (mp_config m))"

definition mempool_inv :: "Mempool \<Rightarrow> bool" where
  "mempool_inv m \<longleftrightarrow> summaries m \<and> limits m"

lemma mempool_inv_new: "mempool_inv (Mempool_new config)"
  by (simp add: mempool_inv_def summary_defs limits_def Mempool_new_def pooled_def
      pooled_nonces_def mempool_len_def)

lemma mempool_inv_clear: "mempool_inv (mempool_clear m)"
  by (simp add: mempool_inv_def summary_defs limits_def mempool_clear_def pooled_def
      pooled_nonces_def mempool_len_def)

lemma pooled_empty_iff: "pooled m a = {} \<longleftrightarrow> pooled_nonces m a = {}"
  by (auto simp: pooled_def pooled_nonces_def)

subsection \<open>Removal\<close>

lemma config_remove [simp]: "mp_config (snd (mempool_remove m h)) = mp_config m"
  by (simp add: mempool_remove_def decrement_account_state_def split: option.splits)

lemma transactions_remove:
  "map_of (mp_transactions m) h = Some tx \<Longrightarrow>
     mp_transactions (snd (mempool_remove m h)) = bt_remove h (mp_transactions m)"
  by (simp add: mempool_remove_def decrement_account_state_def)

lemma pooled_remove:
  assumes "map_of (mp_transactions m) h = Some tx"
  shows "pooled (snd (mempool_remove m h)) a =
    (if a = mtx_from tx then pooled m a - {h} else pooled m a)"
  using assms by (auto simp: pooled_def transactions_remove)

lemma fun_upd_None_Some: "(f(k := None)) x = Some y \<longleftrightarrow> x \<noteq> k \<and> f x = Some y"
  by simp

lemma one_per_nonceD:
  "one_per_nonce m \<Longrightarrow> map_of (mp_transactions m) h = Some tx \<Longrightarrow>
     map_of (mp_transactions m) h' = Some tx' \<Longrightarrow>
     mtx_from tx = mtx_from tx' \<Longrightarrow> mtx_nonce tx = mtx_nonce tx' \<Longrightarrow> h = h'"
  unfolding one_per_nonce_def by (elim allE impE) assumption+

lemma pooled_nonces_remove:
  assumes "summaries m" and "map_of (mp_transactions m) h = Some tx"
  shows "pooled_nonces (snd (mempool_remove m h)) a =
    (if a = mtx_from tx then pooled_nonces m a - {mtx_nonce tx} else pooled_nonces m a)"
proof -
  have uniq: "one_per_nonce m" using assms(1) by (simp add: summaries_def)
  have gone: "map_of (mp_transactions (snd (mempool_remove m h))) = (map_of (mp_transactions m))(h := None)"
    by (simp add: transactions_remove [OF assms(2)])
  have "n \<in> pooled_nonces (snd (mempool_remove m h)) a \<longleftrightarrow>
      n \<in> (if a = mtx_from tx then pooled_nonces m a - {mtx_nonce tx} else pooled_nonces m a)" for n
  proof (cases "a = mtx_from tx \<and> n = mtx_nonce tx")
    case True
    then show ?thesis
      using one_per_nonceD [OF uniq _ assms(2)] unfolding pooled_nonces_def gone fun_upd_None_Some
      by auto
  next
    case False
    then have "(\<exists>h' tx'. (h' \<noteq> h \<and> map_of (mp_transactions m) h' = Some tx') \<and> mtx_from tx' = a \<and>
        mtx_nonce tx' = n) \<longleftrightarrow>
      (\<exists>h' tx'. map_of (mp_transactions m) h' = Some tx' \<and> mtx_from tx' = a \<and> mtx_nonce tx' = n)"
      using assms(2) by (intro ex_cong1) auto
    with False show ?thesis
      unfolding pooled_nonces_def gone fun_upd_None_Some by simp
  qed
  then show ?thesis by blast
qed

lemma summariesD:
  assumes "summaries m"
  shows "map_of (account_counts m) a = (if pooled m a = {} then None else Some (card (pooled m a)))"
    and "map_of (account_nonces m) a =
           (if pooled_nonces m a = {} then None else Some (pooled_nonces m a))"
    and "map_of (mp_transactions m) h = Some tx \<Longrightarrow> mtx_hash tx = h"
    and "bt_inv (mp_transactions m)" and "bt_inv (account_counts m)" and "bt_inv (account_nonces m)"
  using assms
  by (simp_all add: summaries_def ordered_def keyed_def counts_exact_def nonces_exact_def)

lemma counts_remove:
  assumes "summaries m" and "map_of (mp_transactions m) h = Some tx"
  shows "map_of (account_counts (snd (mempool_remove m h))) a =
    (let p = pooled (snd (mempool_remove m h)) a in if p = {} then None else Some (card p))"
proof (cases "a = mtx_from tx")
  case True
  have h: "h \<in> pooled m a"
    using assms(2) True by (auto simp: pooled_def)
  then have old: "map_of (account_counts m) a = Some (card (pooled m a))"
    using summariesD(1) [OF assms(1), of a] by auto
  have upd: "account_counts (snd (mempool_remove m h)) =
      (if card (pooled m a) - 1 = 0 then bt_remove a (account_counts m)
       else bt_insert a (card (pooled m a) - 1) (account_counts m))"
    using assms(2) True old by (simp add: mempool_remove_def decrement_account_state_def)
  have left: "card (pooled m a - {h}) = card (pooled m a) - 1" and "finite (pooled m a - {h})"
    using h by simp_all
  then have "card (pooled m a) - 1 = 0 \<longleftrightarrow> pooled m a - {h} = {}"
    by (metis card_eq_0_iff)
  with left show ?thesis
    unfolding upd pooled_remove [OF assms(2)] using True by (simp add: Let_def)
next
  case False
  then have "map_of (account_counts (snd (mempool_remove m h))) a = map_of (account_counts m) a"
    using assms(2) by (simp add: mempool_remove_def decrement_account_state_def split: option.splits)
  with False show ?thesis
    using summariesD(1) [OF assms(1), of a] assms(2) by (simp add: pooled_remove)
qed

lemma nonces_remove:
  assumes "summaries m" and "map_of (mp_transactions m) h = Some tx"
  shows "map_of (account_nonces (snd (mempool_remove m h))) a =
    (let p = pooled_nonces (snd (mempool_remove m h)) a in if p = {} then None else Some p)"
proof (cases "a = mtx_from tx")
  case True
  have "mtx_nonce tx \<in> pooled_nonces m a"
    using assms(2) True by (auto simp: pooled_nonces_def)
  then have old: "map_of (account_nonces m) a = Some (pooled_nonces m a)"
    using summariesD(2) [OF assms(1), of a] by auto
  have "account_nonces (snd (mempool_remove m h)) =
      (if pooled_nonces m a - {mtx_nonce tx} = {} then bt_remove a (account_nonces m)
       else bt_insert a (pooled_nonces m a - {mtx_nonce tx}) (account_nonces m))"
    using assms(2) True old by (simp add: mempool_remove_def decrement_account_state_def)
  then show ?thesis
    using True pooled_nonces_remove [OF assms, of a] by simp
next
  case False
  then have "map_of (account_nonces (snd (mempool_remove m h))) a = map_of (account_nonces m) a"
    using assms(2) by (simp add: mempool_remove_def decrement_account_state_def split: option.splits)
  with False show ?thesis
    using summariesD(2) [OF assms(1), of a] pooled_nonces_remove [OF assms, of a] by simp
qed

lemma summaries_remove:
  assumes "summaries m"
  shows "summaries (snd (mempool_remove m h))"
proof (cases "map_of (mp_transactions m) h")
  case None
  with assms show ?thesis by (simp add: mempool_remove_def)
next
  case (Some tx)
  let ?m = "snd (mempool_remove m h)"
  have txs: "mp_transactions ?m = bt_remove h (mp_transactions m)"
    using Some by (rule transactions_remove)
  have "bt_inv (mp_transactions ?m)" and "bt_inv (account_counts ?m)" and "bt_inv (account_nonces ?m)"
    using summariesD(4-6) [OF assms] Some
    by (simp_all add: mempool_remove_def decrement_account_state_def split: option.splits)
  then have "ordered ?m" by (simp add: ordered_def)
  moreover have "counts_exact ?m" and "nonces_exact ?m"
    using counts_remove [OF assms Some] nonces_remove [OF assms Some]
    by (simp_all only: Let_def counts_exact_def nonces_exact_def simp_thms)
  moreover have "keyed ?m" and "one_per_nonce ?m"
    using assms unfolding summaries_def keyed_def one_per_nonce_def txs map_of_bt_remove
    by (metis fun_upd_apply option.distinct(1))+
  ultimately show ?thesis by (simp add: summaries_def)
qed

lemma length_bt_remove_le: "length (bt_remove k m) \<le> length m"
  by (simp add: bt_remove_def)

lemma length_bt_remove: "bt_inv m \<Longrightarrow> map_of m k = Some v \<Longrightarrow> length m = Suc (length (bt_remove k m))"
  by (metis mset_bt_remove size_add_mset size_mset)

lemma mempool_len_remove:
  "summaries m \<Longrightarrow> map_of (mp_transactions m) h = Some tx \<Longrightarrow>
     mempool_len m = Suc (mempool_len (snd (mempool_remove m h)))"
  by (simp add: mempool_len_def transactions_remove length_bt_remove summariesD(4))

lemma mempool_inv_remove:
  assumes "mempool_inv m"
  shows "mempool_inv (snd (mempool_remove m h))"
proof (cases "map_of (mp_transactions m) h")
  case None
  with assms show ?thesis by (simp add: mempool_remove_def)
next
  case (Some tx)
  have sub: "pooled (snd (mempool_remove m h)) a \<subseteq> pooled m a" for a
    using Some by (auto simp: pooled_remove split: if_splits)
  then have "card (pooled (snd (mempool_remove m h)) a) \<le> card (pooled m a)" for a
    by (simp add: card_mono)
  moreover have "mempool_len (snd (mempool_remove m h)) \<le> mempool_len m"
    using Some assms by (simp add: mempool_len_remove mempool_inv_def)
  ultimately show ?thesis
    using assms summaries_remove unfolding mempool_inv_def limits_def
    by (metis config_remove le_trans)
qed

subsection \<open>Insertion\<close>

lemma validate_candidate_ok:
  assumes "summaries m"
  shows "validate_candidate m tx = Inr () \<longleftrightarrow>
    map_of (mp_transactions m) (mtx_hash tx) = None \<and> mtx_gas_limit tx \<noteq> 0 \<and>
    min_gas_price (mp_config m) \<le> mtx_gas_price tx \<and>
    mtx_nonce tx \<notin> pooled_nonces m (mtx_from tx) \<and>
    card (pooled m (mtx_from tx)) < max_per_account (mp_config m)"
  by (auto simp: validate_candidate_def summariesD(1,2) [OF assms] not_le not_less)

lemma config_add [simp]: "mp_config (add_transaction m tx) = mp_config m"
  by (simp add: add_transaction_def)

lemma transactions_add [simp]:
  "mp_transactions (add_transaction m tx) = bt_insert (mtx_hash tx) tx (mp_transactions m)"
  by (simp add: add_transaction_def)

lemma lookup_add:
  assumes "map_of (mp_transactions m) (mtx_hash tx) = None"
  shows "map_of (mp_transactions (add_transaction m tx)) h = Some t \<longleftrightarrow>
    h = mtx_hash tx \<and> t = tx \<or> map_of (mp_transactions m) h = Some t"
  using assms by auto

lemma pooled_add:
  assumes "map_of (mp_transactions m) (mtx_hash tx) = None"
  shows "pooled (add_transaction m tx) a =
    (if a = mtx_from tx then insert (mtx_hash tx) (pooled m a) else pooled m a)"
  unfolding pooled_def lookup_add [OF assms] by auto

lemma pooled_nonces_add:
  assumes "map_of (mp_transactions m) (mtx_hash tx) = None"
  shows "pooled_nonces (add_transaction m tx) a =
    (if a = mtx_from tx then insert (mtx_nonce tx) (pooled_nonces m a) else pooled_nonces m a)"
  unfolding pooled_nonces_def lookup_add [OF assms] by auto

lemma one_per_nonce_add:
  assumes "one_per_nonce m" and "map_of (mp_transactions m) (mtx_hash tx) = None"
    and "mtx_nonce tx \<notin> pooled_nonces m (mtx_from tx)"
  shows "one_per_nonce (add_transaction m tx)"
proof -
  have new: "False" if "map_of (mp_transactions m) h = Some tx'"
    and "mtx_from tx' = mtx_from tx" and "mtx_nonce tx' = mtx_nonce tx" for h tx'
    using assms(3) that by (auto simp: pooled_nonces_def)
  show ?thesis
    unfolding one_per_nonce_def lookup_add [OF assms(2)]
    using new one_per_nonceD [OF assms(1)] by (auto; metis)
qed

lemma summaries_add:
  assumes "summaries m" and fresh: "map_of (mp_transactions m) (mtx_hash tx) = None"
    and "mtx_nonce tx \<notin> pooled_nonces m (mtx_from tx)"
  shows "summaries (add_transaction m tx)"
proof -
  have "ordered (add_transaction m tx)"
    using summariesD(4-6) [OF assms(1)] by (simp add: ordered_def add_transaction_def)
  moreover have "keyed (add_transaction m tx)"
    using assms(1) unfolding summaries_def keyed_def transactions_add map_of_bt_insert by simp
  moreover have "one_per_nonce (add_transaction m tx)"
    using assms by (intro one_per_nonce_add) (simp_all add: summaries_def)
  moreover have "mtx_hash tx \<notin> pooled m (mtx_from tx)"
    using fresh by (simp add: pooled_def)
  then have "counts_exact (add_transaction m tx)"
    using summariesD(1) [OF assms(1)]
    unfolding counts_exact_def pooled_add [OF fresh]
    by (simp add: add_transaction_def)
  moreover have "nonces_exact (add_transaction m tx)"
    using summariesD(2) [OF assms(1)]
    unfolding nonces_exact_def pooled_nonces_add [OF fresh]
    by (simp add: add_transaction_def)
  ultimately show ?thesis by (simp add: summaries_def)
qed

lemma mempool_len_add:
  "map_of (mp_transactions m) (mtx_hash tx) = None \<Longrightarrow>
     mempool_len (add_transaction m tx) = Suc (mempool_len m)"
  unfolding mempool_len_def transactions_add
  by (metis mset_bt_insert_fresh size_add_mset size_mset)

lemma mempool_inv_add:
  assumes "mempool_inv m" and "validate_candidate m tx = Inr ()" and "\<not> is_full m"
  shows "mempool_inv (add_transaction m tx)"
proof -
  have sum: "summaries m" and lim: "limits m"
    using assms(1) by (simp_all add: mempool_inv_def)
  note ok = assms(2) [unfolded validate_candidate_ok [OF sum]]
  have "limits (add_transaction m tx)"
    using lim ok assms(3) unfolding limits_def
    by (auto simp: mempool_len_add is_full_def pooled_add card_insert_if)
  with sum ok show ?thesis
    by (simp add: mempool_inv_def summaries_add)
qed

subsection \<open>Eviction\<close>

text \<open>
  A victim is a pooled transaction no other one is cheaper than, and among those of its
  price none has a higher nonce.
\<close>

definition candidate_of :: "MempoolTransaction \<Rightarrow> candidate" where
  "candidate_of tx = (mtx_hash tx, mtx_gas_price tx, mtx_nonce tx)"

definition victim :: "Mempool \<Rightarrow> MempoolTransaction \<Rightarrow> bool" where
  "victim m v \<longleftrightarrow> map_of (mp_transactions m) (mtx_hash v) = Some v \<and>
     (\<forall>h tx. map_of (mp_transactions m) h = Some tx \<longrightarrow> mtx_gas_price v \<le> mtx_gas_price tx \<and>
        (mtx_gas_price v = mtx_gas_price tx \<longrightarrow> mtx_nonce tx \<le> mtx_nonce v))"

lemma evict_le_refl: "evict_le c c"
  by (simp add: evict_le_def)

lemma evict_le_candidate_of:
  "evict_le (candidate_of v) (candidate_of tx) \<longleftrightarrow> mtx_gas_price v \<le> mtx_gas_price tx \<and>
     (mtx_gas_price v = mtx_gas_price tx \<longrightarrow> mtx_nonce tx \<le> mtx_nonce v)"
  by (auto simp: evict_le_def candidate_of_def)

lemma suggested_eviction_zero:
  "suggested_eviction_count m = 0 \<longleftrightarrow> eviction_threshold_percent (mp_config m) = 0"
  by (simp add: suggested_eviction_count_def Let_def min_def flip: unat_eq_0)

lemma full_len: "mempool_inv m \<Longrightarrow> is_full m \<Longrightarrow> mempool_len m = max_size (mp_config m)"
  by (simp add: mempool_inv_def limits_def is_full_def)

lemma is_full_remove:
  assumes "mempool_inv m" and "map_of (mp_transactions m) h = Some tx"
  shows "\<not> is_full (snd (mempool_remove m h))"
  using assms mempool_len_remove [of m h tx]
  by (simp add: is_full_def mempool_inv_def limits_def)

lemma evict_loop_one:
  assumes "mempool_inv m" and "is_full m" and "k \<noteq> 0" and "map_of (mp_transactions m) h = Some tx"
  shows "evict_loop m k ((h, g, n) # rest) = snd (mempool_remove m h)"
proof -
  have "evict_loop (snd (mempool_remove m h)) (k - 1) rest = snd (mempool_remove m h)"
    using is_full_remove [OF assms(1,4)] by (cases rest) auto
  with assms(2,3) show ?thesis by simp
qed

lemma evict_lowest_gas_one:
  assumes "mempool_inv m" and "is_full m" and "k \<noteq> 0" and "max_size (mp_config m) \<noteq> 0"
    and srt: "unstable_sort evict_le srt"
  obtains v where "victim m v" and "evict_lowest_gas srt m k = snd (mempool_remove m (mtx_hash v))"
proof -
  define cs where "cs = map (\<lambda>(_, tx). (mtx_hash tx, mtx_gas_price tx, mtx_nonce tx)) (mp_transactions m)"
  have set_cs: "set cs = (candidate_of \<circ> snd) ` set (mp_transactions m)"
    by (simp add: cs_def candidate_of_def case_prod_unfold comp_def)
  have sum: "summaries m" using assms(1) by (simp add: mempool_inv_def)
  have ne: "mp_transactions m \<noteq> []"
    using full_len [OF assms(1,2)] assms(4) by (auto simp: mempool_len_def)
  then have "cs \<noteq> []" by (simp add: cs_def)
  then have "srt cs \<noteq> []"
    using unstable_sort_mset [OF srt, of cs] by (metis mset_zero_iff)
  then obtain c rest where c: "srt cs = c # rest" by (cases "srt cs") auto
  then have "c \<in> set cs" using unstable_sort_set [OF srt, of cs] by (metis list.set_intros(1))
  then obtain h v where "(h, v) \<in> set (mp_transactions m)" and cv: "c = candidate_of v"
    unfolding set_cs by auto
  then have look: "map_of (mp_transactions m) h = Some v"
    using bt_mem_iff [OF summariesD(4) [OF sum]] by blast
  then have hv: "mtx_hash v = h" by (rule summariesD(3) [OF sum])
  have "evict_le (candidate_of v) (candidate_of tx)" if "map_of (mp_transactions m) h' = Some tx" for h' tx
  proof -
    have "candidate_of tx \<in> set cs"
      using imageI [OF map_of_SomeD [OF that], of "candidate_of \<circ> snd"] unfolding set_cs by simp
    then have "candidate_of tx \<in> set (c # rest)"
      using unstable_sort_set [OF srt, of cs] c by simp
    moreover have "sorted_wrt evict_le (c # rest)"
      using unstable_sort_sorted [OF srt, of cs] c by simp
    ultimately show ?thesis
      unfolding cv using evict_le_refl by (metis set_ConsD sorted_wrt.simps(2))
  qed
  then have "victim m v" by (simp add: victim_def look hv evict_le_candidate_of)
  moreover have "evict_lowest_gas srt m k = snd (mempool_remove m (mtx_hash v))"
    using ne assms(3) evict_loop_one [OF assms(1-3) look] c
    unfolding evict_lowest_gas_def cs_def [symmetric] cv candidate_of_def hv by simp
  ultimately show ?thesis by (rule that)
qed

lemma validate_after_remove:
  assumes "mempool_inv m" and "validate_candidate m tx = Inr ()"
  shows "validate_candidate (snd (mempool_remove m h)) tx = Inr ()"
proof (cases "map_of (mp_transactions m) h")
  case None
  with assms(2) show ?thesis by (simp add: mempool_remove_def)
next
  case (Some t)
  have sum: "summaries m" using assms(1) by (simp add: mempool_inv_def)
  note old = assms(2) [unfolded validate_candidate_ok [OF sum]]
  have "card (pooled (snd (mempool_remove m h)) (mtx_from tx)) \<le> card (pooled m (mtx_from tx))"
    by (intro card_mono) (auto simp: pooled_remove [OF Some])
  with old show ?thesis
    unfolding validate_candidate_ok [OF summaries_remove [OF sum]] config_remove
      pooled_nonces_remove [OF sum Some]
    by (auto simp: transactions_remove [OF Some])
qed

lemma insert_cases:
  assumes "mempool_inv m" and "unstable_sort evict_le srt"
  shows "case validate_candidate m tx of
      Inl e \<Rightarrow> mempool_insert srt m tx = (Inl e, m)
    | Inr _ \<Rightarrow>
        if \<not> is_full m then mempool_insert srt m tx = (Inr (), add_transaction m tx)
        else if eviction_threshold_percent (mp_config m) = 0 \<or> max_size (mp_config m) = 0 then
          mempool_insert srt m tx = (Inl MempoolFull, m)
        else \<exists>v. victim m v \<and>
          mempool_insert srt m tx = (Inr (), add_transaction (snd (mempool_remove m (mtx_hash v))) tx)"
proof (cases "validate_candidate m tx")
  case (Inl e)
  then show ?thesis by (simp add: mempool_insert_def)
next
  case (Inr u)
  consider "\<not> is_full m" | "is_full m" "eviction_threshold_percent (mp_config m) = 0"
    | "is_full m" "max_size (mp_config m) = 0" "eviction_threshold_percent (mp_config m) \<noteq> 0"
    | "is_full m" "eviction_threshold_percent (mp_config m) \<noteq> 0" "max_size (mp_config m) \<noteq> 0"
    by blast
  then show ?thesis
  proof cases
    case 3
    then have "mp_transactions m = []"
      using full_len [OF assms(1)] by (simp add: mempool_len_def)
    with 3 Inr show ?thesis
      by (simp add: mempool_insert_def suggested_eviction_zero evict_lowest_gas_def)
  next
    case 4
    then have "suggested_eviction_count m \<noteq> 0" by (simp add: suggested_eviction_zero)
    from evict_lowest_gas_one [OF assms(1) 4(1) this 4(3) assms(2)] obtain v
      where v: "victim m v"
        and ev: "evict_lowest_gas srt m (suggested_eviction_count m) = snd (mempool_remove m (mtx_hash v))" .
    then have "\<not> is_full (snd (mempool_remove m (mtx_hash v)))"
      using is_full_remove [OF assms(1)] by (auto simp: victim_def)
    with 4 Inr ev v show ?thesis
      by (auto simp: mempool_insert_def suggested_eviction_zero)
  qed (use Inr in \<open>simp_all add: mempool_insert_def suggested_eviction_zero\<close>)
qed

text \<open>C16.  What \<open>Mempool::insert\<close> does, on every branch.  A transaction that fails validation
  leaves the pool alone.  One that passes is added if there is room.  In a full pool it is
  refused, and nothing changes, exactly when eviction is configured off or the capacity is
  zero; otherwise exactly one cheapest transaction makes room for it, whatever the configured
  percentage, since the eviction loop stops as soon as the pool is no longer full.\<close>

theorem mempool_insert_outcome:
  assumes "mempool_inv m" and "unstable_sort evict_le srt"
  shows "case validate_candidate m tx of
      Inl e \<Rightarrow> mempool_insert srt m tx = (Inl e, m)
    | Inr _ \<Rightarrow>
        if \<not> is_full m then mempool_insert srt m tx = (Inr (), add_transaction m tx)
        else if eviction_threshold_percent (mp_config m) = 0 \<or> max_size (mp_config m) = 0 then
          mempool_insert srt m tx = (Inl MempoolFull, m)
        else \<exists>v. victim m v \<and>
          mempool_insert srt m tx = (Inr (), add_transaction (snd (mempool_remove m (mtx_hash v))) tx)"
  using assms by (rule insert_cases)

lemma mempool_inv_insert:
  assumes "mempool_inv m" and "unstable_sort evict_le srt"
  shows "mempool_inv (snd (mempool_insert srt m tx))"
proof (cases "validate_candidate m tx")
  case (Inl e)
  with insert_cases [OF assms, of tx] assms(1) show ?thesis by simp
next
  case (Inr u)
  have "mempool_inv (add_transaction (snd (mempool_remove m (mtx_hash v))) tx)" if "victim m v" for v
    using that Inr assms(1) is_full_remove [OF assms(1)]
    by (intro mempool_inv_add) (auto simp: mempool_inv_remove validate_after_remove victim_def)
  then show ?thesis
    using insert_cases [OF assms, of tx] Inr assms(1) mempool_inv_add [OF assms(1), of tx]
    by (auto split: if_splits)
qed

subsection \<open>Draining\<close>

lemma drain_loop_fold: "snd (drain_loop m hs) = fold (\<lambda>h m. snd (mempool_remove m h)) hs m"
  by (induction hs arbitrary: m) (simp_all add: case_prod_unfold split: option.splits)

lemma mempool_inv_drain: "mempool_inv m \<Longrightarrow> mempool_inv (snd (drain_loop m hs))"
  unfolding drain_loop_fold by (induction hs arbitrary: m) (simp_all add: mempool_inv_remove)

lemma drain_loop_Cons:
  "map_of (mp_transactions m) h = Some tx \<Longrightarrow>
     drain_loop m (h # hs) =
       (tx # fst (drain_loop (snd (mempool_remove m h)) hs), snd (drain_loop (snd (mempool_remove m h)) hs))"
  by (simp add: mempool_remove_def case_prod_unfold)

lemma drain_loop_pooled:
  assumes "\<And>tx. tx \<in> set txs \<Longrightarrow> map_of (mp_transactions m) (mtx_hash tx) = Some tx"
    and "distinct (map mtx_hash txs)"
  shows "fst (drain_loop m (map mtx_hash txs)) = txs \<and>
    map_of (mp_transactions (snd (drain_loop m (map mtx_hash txs)))) =
      (\<lambda>h. if h \<in> mtx_hash ` set txs then None else map_of (mp_transactions m) h)"
  using assms
proof (induction txs arbitrary: m)
  case Nil
  then show ?case by simp
next
  case (Cons tx txs)
  let ?m = "snd (mempool_remove m (mtx_hash tx))"
  have tx: "map_of (mp_transactions m) (mtx_hash tx) = Some tx" using Cons.prems(1) by simp
  then have look: "map_of (mp_transactions ?m) h =
      (if h = mtx_hash tx then None else map_of (mp_transactions m) h)" for h
    by (simp add: transactions_remove)
  have fresh: "mtx_hash tx \<notin> mtx_hash ` set txs" and "distinct (map mtx_hash txs)"
    using Cons.prems(2) by simp_all
  have "map_of (mp_transactions ?m) (mtx_hash t) = Some t" if "t \<in> set txs" for t
  proof -
    have "mtx_hash t \<noteq> mtx_hash tx" using fresh that by (metis imageI)
    then show ?thesis using Cons.prems(1) [of t] that unfolding look by simp
  qed
  from Cons.IH [OF this \<open>distinct (map mtx_hash txs)\<close>] show ?case
    unfolding list.map drain_loop_Cons [OF tx] look by auto
qed

lemma best_le_total: "best_le x y \<or> best_le y x"
  unfolding best_le_def by (metis linorder_less_linear nle_le)

lemma best_le_trans: "best_le x y \<Longrightarrow> best_le y z \<Longrightarrow> best_le x z"
  unfolding best_le_def by (auto intro: order.strict_trans order.trans)

lemma best_sort: "unstable_sort best_le (sort_by best_le)"
  by (rule unstable_sort_sort_by) (use best_le_total best_le_trans in blast)+

lemma peek_best_pooled:
  assumes "summaries m" and "tx \<in> set (peek_best m n)"
  shows "map_of (mp_transactions m) (mtx_hash tx) = Some tx"
proof -
  have "tx \<in> snd ` set (mp_transactions m)"
    using set_take_subset assms(2) by (fastforce simp: peek_best_def)
  then obtain h where "(h, tx) \<in> set (mp_transactions m)" by auto
  then have "map_of (mp_transactions m) h = Some tx"
    using bt_mem_iff [OF summariesD(4) [OF assms(1)]] by blast
  with summariesD(3) [OF assms(1) this] show ?thesis by simp
qed

lemma distinct_hashes:
  assumes "summaries m"
  shows "distinct (map mtx_hash (peek_best m n))"
proof -
  have "mtx_hash (snd e) = fst e" if "e \<in> set (mp_transactions m)" for e
    using summariesD(3) [OF assms, of "fst e" "snd e"] bt_mem_iff [OF summariesD(4) [OF assms]] that
    by (metis prod.collapse)
  then have "map mtx_hash (map snd (mp_transactions m)) = map fst (mp_transactions m)"
    by simp
  then have "distinct (map mtx_hash (map snd (mp_transactions m)))"
    using bt_inv_distinct [OF summariesD(4) [OF assms]] by metis
  moreover have "mset (map mtx_hash (sort_by best_le (map snd (mp_transactions m)))) =
      mset (map mtx_hash (map snd (mp_transactions m)))"
    by (metis mset_map mset_sort_by)
  ultimately have "distinct (map mtx_hash (sort_by best_le (map snd (mp_transactions m))))"
    using mset_eq_imp_distinct_iff by blast
  then show ?thesis
    by (simp add: peek_best_def take_map [symmetric])
qed

lemma drain_peek_best:
  assumes "summaries m"
  shows "fst (drain_loop m (map mtx_hash (peek_best m n))) = peek_best m n \<and>
    map_of (mp_transactions (snd (drain_loop m (map mtx_hash (peek_best m n))))) =
      (\<lambda>h. if h \<in> mtx_hash ` set (peek_best m n) then None else map_of (mp_transactions m) h)"
  by (rule drain_loop_pooled [OF peek_best_pooled [OF assms] distinct_hashes [OF assms]])

text \<open>A list sorted by priority splits into a batch and a rest that nothing in the batch yields to.\<close>

lemma peek_best_order:
  assumes "summaries m" and "map_of (mp_transactions m) h = Some tx'" and "tx' \<notin> set (peek_best m n)"
    and "tx \<in> set (peek_best m n)"
  shows "best_le tx tx'"
proof -
  let ?s = "sort_by best_le (map snd (mp_transactions m))"
  have "tx' \<in> set ?s" using map_of_SomeD [OF assms(2)] by (simp add: rev_image_eqI)
  then have "tx' \<in> set (drop n ?s)"
    using assms(3) by (metis append_take_drop_id in_set_conv_decomp peek_best_def set_append UnE)
  moreover have "sorted_wrt best_le (take n ?s @ drop n ?s)"
    using unstable_sort_sorted [OF best_sort] by simp
  ultimately show ?thesis
    using assms(4) unfolding sorted_wrt_append peek_best_def by blast
qed

lemma sorted_peek_best: "sorted_wrt best_le (peek_best m n)"
  using unstable_sort_sorted [OF best_sort]
  by (simp add: peek_best_def sorted_wrt_take)

text \<open>
  The priority the pool promises: a higher gas price first, then a lower nonce, then a
  lower hash.
\<close>

definition precedes :: "MempoolTransaction \<Rightarrow> MempoolTransaction \<Rightarrow> bool" where
  "precedes a b =
     (if mtx_gas_price a \<noteq> mtx_gas_price b then mtx_gas_price b < mtx_gas_price a
      else if mtx_nonce a \<noteq> mtx_nonce b then mtx_nonce a < mtx_nonce b
      else mtx_hash a \<le> mtx_hash b)"

lemma best_le_precedes: "best_le = precedes"
  by (auto simp: fun_eq_iff best_le_def precedes_def)

lemmas peek_best_precedes = peek_best_order [unfolded best_le_precedes]
  and sorted_peek_precedes = sorted_peek_best [unfolded best_le_precedes]

text \<open>C15.  \<open>drain_batch\<close> returns the best transactions the pool holds and removes exactly those: at
  most \<open>max_count\<close> of them and never fewer than there are, in priority order (gas price
  down, then nonce up, then hash up), none of them outranked by one that stays.\<close>

theorem drain_batch_takes_the_best:
  assumes "mempool_inv (mempool p)" and "drain_batch p max_count = (batch, p')"
  shows "length batch = min max_count (pending_count p) \<and> sorted_wrt precedes batch \<and>
    distinct (map mtx_hash batch) \<and>
    (\<forall>tx \<in> set batch. map_of (mp_transactions (mempool p)) (mtx_hash tx) = Some tx) \<and>
    (\<forall>h. map_of (mp_transactions (mempool p')) h =
       (if h \<in> mtx_hash ` set batch then None else map_of (mp_transactions (mempool p)) h)) \<and>
    (\<forall>h tx' tx. map_of (mp_transactions (mempool p')) h = Some tx' \<longrightarrow> tx \<in> set batch \<longrightarrow>
       precedes tx tx')"
proof -
  let ?m = "mempool p"
  have sum: "summaries ?m" using assms(1) by (simp add: mempool_inv_def)
  note drained = drain_peek_best [OF sum, of max_count]
  have batch: "batch = peek_best ?m max_count"
    and rest: "mempool p' = snd (drain_loop ?m (map mtx_hash (peek_best ?m max_count)))"
    using assms(2) drained by (auto simp: drain_batch_def case_prod_unfold)
  have "length batch = min max_count (pending_count p)"
    by (simp add: batch peek_best_def pending_count_def mempool_len_def min.commute)
  moreover have left: "map_of (mp_transactions (mempool p')) h =
      (if h \<in> mtx_hash ` set batch then None else map_of (mp_transactions ?m) h)" for h
    using drained by (simp add: rest batch)
  moreover have "precedes tx tx'"
    if "map_of (mp_transactions (mempool p')) h = Some tx'" and "tx \<in> set batch" for h tx' tx
  proof -
    have h: "h \<notin> mtx_hash ` set batch" and old: "map_of (mp_transactions ?m) h = Some tx'"
      using that(1) unfolding left by (simp_all split: if_splits)
    then have "tx' \<notin> set (peek_best ?m max_count)"
      using summariesD(3) [OF sum old] unfolding batch by (metis imageI)
    with old that(2) show ?thesis unfolding batch by (blast intro: peek_best_precedes [OF sum])
  qed
  ultimately show ?thesis
    using sorted_peek_precedes distinct_hashes [OF sum] peek_best_pooled [OF sum]
    unfolding batch by blast
qed

subsection \<open>Reachable pools\<close>

inductive mempool_reachable :: "(candidate list \<Rightarrow> candidate list) \<Rightarrow> MempoolConfig \<Rightarrow> Mempool \<Rightarrow> bool"
  for srt :: "candidate list \<Rightarrow> candidate list" and config :: MempoolConfig where
  start: "mempool_reachable srt config (Mempool_new config)"
| insert: "mempool_reachable srt config m \<Longrightarrow>
    mempool_reachable srt config (snd (mempool_insert srt m tx))"
| remove: "mempool_reachable srt config m \<Longrightarrow>
    mempool_reachable srt config (snd (mempool_remove m h))"
| clear: "mempool_reachable srt config m \<Longrightarrow> mempool_reachable srt config (mempool_clear m)"
| submit: "mempool_reachable srt config (mempool p) \<Longrightarrow>
    mempool_reachable srt config (mempool (snd (submit srt p tx)))"
| drain: "mempool_reachable srt config (mempool p) \<Longrightarrow>
    mempool_reachable srt config (mempool (snd (drain_batch p n)))"

lemma config_insert: 
  "unstable_sort evict_le srt \<Longrightarrow> mempool_inv m \<Longrightarrow>
     mp_config (snd (mempool_insert srt m tx)) = mp_config m"
  using insert_cases [of m srt tx] by (auto split: sum.splits if_splits)

lemma submit_mempool:
  "mempool (snd (submit srt p tx)) =
     (case validate_candidate (mempool p) tx of
        Inl e \<Rightarrow> mempool p | Inr _ \<Rightarrow> snd (mempool_insert srt (mempool p) tx))"
  by (simp add: submit_def validate_transaction_def split: sum.splits prod.splits)

lemma drain_mempool:
  "mempool (snd (drain_batch p n)) = snd (drain_loop (mempool p) (map mtx_hash (peek_best (mempool p) n)))"
  by (simp add: drain_batch_def split: prod.splits)

lemma config_drain: "mp_config (snd (drain_loop m hs)) = mp_config m"
  unfolding drain_loop_fold by (induction hs arbitrary: m) simp_all

text \<open>C4.  Whatever sequence of insertions, submissions, removals, drains and clears a pool goes
  through, it never holds more than \<open>max_size\<close> transactions nor more than
  \<open>max_per_account\<close> of one sender, it never holds two transactions of a sender with the same
  nonce, each is stored under its own hash, and the two per-account tables are the exact
  counts and nonce sets of what is pooled, with no entry left behind for an idle account.\<close>

theorem mempool_reachable_inv:
  assumes "mempool_reachable srt config m" and "unstable_sort evict_le srt"
  shows "mempool_inv m \<and> mp_config m = config"
  using assms(1)
proof induction
  case (submit p tx)
  then show ?case
    using mempool_inv_insert [OF _ assms(2)] config_insert [OF assms(2)]
    by (auto simp: submit_mempool split: sum.splits)
next
  case (drain p n)
  then show ?case by (simp add: drain_mempool mempool_inv_drain config_drain)
qed (simp_all add: mempool_inv_new mempool_inv_insert assms(2) config_insert mempool_inv_remove
    mempool_inv_clear Mempool_new_def [of config, THEN arg_cong [of _ _ mp_config]] mempool_clear_def [THEN arg_cong [of _ _ mp_config]])

section \<open>The theorems on a small pool\<close>

definition sample_pool_config :: MempoolConfig where
  "sample_pool_config =
     \<lparr>max_size = 1, max_per_account = 1, min_gas_price = 1, eviction_threshold_percent = 10\<rparr>"

definition sample_pool_tx :: "B256 \<Rightarrow> Address \<Rightarrow> MempoolTransaction" where
  "sample_pool_tx h a =
     \<lparr>mtx_hash = h, mtx_from = a, mtx_to = 0, mtx_nonce = 0, mtx_gas_limit = 21000, mtx_gas_price = 5,
      mtx_value = 0, mtx_data = []\<rparr>"

definition sample_pool :: Mempool where
  "sample_pool = add_transaction (Mempool_new sample_pool_config) (sample_pool_tx 1 7)"

lemmas sample_pool_defs = sample_pool_def sample_pool_tx_def sample_pool_config_def Mempool_new_def
  add_transaction_def

lemma evict_sort: "unstable_sort evict_le (sort_by evict_le)"
  by (rule unstable_sort_sort_by) (auto simp: evict_le_def)

lemma sample_pool_inserted:
  "mempool_insert (sort_by evict_le) (Mempool_new sample_pool_config) (sample_pool_tx 1 7) = (Inr (), sample_pool)"
  by (simp add: mempool_insert_def validate_candidate_def is_full_def mempool_len_def sample_pool_defs)

lemma sample_pool_inv: "mempool_inv sample_pool"
  using mempool_inv_insert [OF mempool_inv_new evict_sort, of sample_pool_config "sample_pool_tx 1 7"]
  by (simp add: sample_pool_inserted)

theorem mempool_insert_outcome_witness:
  "\<exists>v. victim sample_pool v \<and>
     mempool_insert (sort_by evict_le) sample_pool (sample_pool_tx 2 8) =
       (Inr (), add_transaction (snd (mempool_remove sample_pool (mtx_hash v))) (sample_pool_tx 2 8))"
proof -
  have "validate_candidate sample_pool (sample_pool_tx 2 8) = Inr ()"
    by (simp add: validate_candidate_def sample_pool_defs)
  moreover have "is_full sample_pool" "eviction_threshold_percent (mp_config sample_pool) \<noteq> 0"
      "max_size (mp_config sample_pool) \<noteq> 0"
    by (simp_all add: is_full_def mempool_len_def sample_pool_defs)
  ultimately show ?thesis
    using mempool_insert_outcome [OF sample_pool_inv evict_sort, of "sample_pool_tx 2 8"] by simp
qed

theorem drain_batch_takes_the_best_witness:
  "length (fst (drain_batch \<lparr>mempool = sample_pool\<rparr> 5)) = 1"
proof -
  obtain batch p' where d: "drain_batch \<lparr>mempool = sample_pool\<rparr> 5 = (batch, p')" by fastforce
  from drain_batch_takes_the_best [OF _ d] show ?thesis
    by (simp add: d sample_pool_inv pending_count_def mempool_len_def) (simp add: sample_pool_defs)
qed

theorem mempool_reachable_inv_witness: "mempool_inv sample_pool \<and> mp_config sample_pool = sample_pool_config"
proof (rule mempool_reachable_inv [OF _ evict_sort])
  show "mempool_reachable (sort_by evict_le) sample_pool_config sample_pool"
    using mempool_reachable.insert [OF mempool_reachable.start, of "sort_by evict_le" sample_pool_config
        "sample_pool_tx 1 7"]
    by (simp add: sample_pool_inserted)
qed

end
