(* ===== verification/Engine_Api.thy ===== *)
theory Engine_Api
  imports Payload_Converter
begin

text \<open>
  The Engine API service of \<open>crates/eth2077-bridge/src/engine_api.rs\<close> and the fork-choice
  record of \<open>crates/eth2077-bridge/src/forkchoice.rs\<close>.  The service is a stub: its answers do
  not depend on what it is asked.
\<close>

definition zero_hex :: "nat \<Rightarrow> string" where
  "zero_hex n = ''0x'' @ concat (replicate n ''00'')"

definition Bytes32_zero :: string where
  "Bytes32_zero = zero_hex 32"

definition Address_zero :: string where
  "Address_zero = zero_hex 20"

definition PayloadId_zero :: string where
  "PayloadId_zero = zero_hex 8"

definition HexQuantity_zero :: string where
  "HexQuantity_zero = ''0x0''"

definition HexBytes_empty :: string where
  "HexBytes_empty = ''0x''"

definition ExecutionPayloadV3_default :: ExecutionPayloadV3 where
  "ExecutionPayloadV3_default =
     \<lparr>ep_parent_hash = Bytes32_zero, ep_fee_recipient = Address_zero, ep_state_root = Bytes32_zero,
      ep_receipts_root = Bytes32_zero, ep_logs_bloom = zero_hex 256, ep_prev_randao = Bytes32_zero,
      ep_block_number = HexQuantity_zero, ep_gas_limit = HexQuantity_zero, ep_gas_used = HexQuantity_zero,
      ep_timestamp = HexQuantity_zero, ep_extra_data = HexBytes_empty,
      ep_base_fee_per_gas = HexQuantity_zero, ep_block_hash = Bytes32_zero, ep_transactions = [],
      ep_withdrawals = [], ep_blob_gas_used = HexQuantity_zero, ep_excess_blob_gas = HexQuantity_zero\<rparr>"

record ForkchoiceStateV1 =
  head_block_hash :: string
  safe_block_hash :: string
  finalized_block_hash :: string

record PayloadAttributesV3 =
  pa_timestamp :: string
  pa_prev_randao :: string
  suggested_fee_recipient :: string
  pa_withdrawals :: "WithdrawalV1 list"
  pa_parent_beacon_block_root :: string

datatype PayloadExecutionStatus = Valid | Invalid | SyncingStatus | Accepted | InvalidBlockHash

record PayloadStatusV1 =
  payload_exec_status :: PayloadExecutionStatus
  latest_valid_hash :: "string option"
  validation_error :: "string option"

definition PayloadStatusV1_valid :: PayloadStatusV1 where
  "PayloadStatusV1_valid =
     \<lparr>payload_exec_status = Valid, latest_valid_hash = Some Bytes32_zero, validation_error = None\<rparr>"

record ForkchoiceUpdatedV3Response =
  payload_status :: PayloadStatusV1
  payload_id :: "string option"

record BlobsBundleV1 =
  bb_commitments :: "string list"
  bb_proofs :: "string list"
  bb_blobs :: "string list"

record GetPayloadV3Response =
  resp_execution_payload :: ExecutionPayloadV3
  block_value :: string
  blobs_bundle :: BlobsBundleV1
  should_override_builder :: bool

record NewPayloadV3Request =
  req_execution_payload :: ExecutionPayloadV3
  expected_blob_versioned_hashes :: "string list"
  req_parent_beacon_block_root :: string

record ForkchoiceUpdatedV3Request =
  forkchoice_state :: ForkchoiceStateV1
  payload_attributes :: "PayloadAttributesV3 option"

record GetPayloadV3Request =
  req_payload_id :: string

definition new_payload_v3 :: "NewPayloadV3Request \<Rightarrow> PayloadStatusV1" where
  "new_payload_v3 request = PayloadStatusV1_valid"

definition forkchoice_updated_v3 :: "ForkchoiceUpdatedV3Request \<Rightarrow> ForkchoiceUpdatedV3Response" where
  "forkchoice_updated_v3 request =
     \<lparr>payload_status = PayloadStatusV1_valid,
      payload_id = map_option (\<lambda>_. PayloadId_zero) (payload_attributes request)\<rparr>"

definition get_payload_v3 :: "GetPayloadV3Request \<Rightarrow> GetPayloadV3Response" where
  "get_payload_v3 request =
     \<lparr>resp_execution_payload = ExecutionPayloadV3_default, block_value = HexQuantity_zero,
      blobs_bundle = \<lparr>bb_commitments = [], bb_proofs = [], bb_blobs = []\<rparr>,
      should_override_builder = False\<rparr>"

section \<open>Fork choice\<close>

text \<open>A poisoned lock is entered like any other, so its state is never lost.\<close>

record ForkchoiceManager =
  fc_head :: string
  fc_safe :: string
  fc_finalized :: string

definition ForkchoiceManager_new :: ForkchoiceManager where
  "ForkchoiceManager_new =
     \<lparr>fc_head = Bytes32_zero, fc_safe = Bytes32_zero, fc_finalized = Bytes32_zero\<rparr>"

definition update_head :: "ForkchoiceManager \<Rightarrow> string \<Rightarrow> ForkchoiceManager" where
  "update_head m h = m\<lparr>fc_head := h\<rparr>"

definition mark_safe :: "ForkchoiceManager \<Rightarrow> string \<Rightarrow> ForkchoiceManager" where
  "mark_safe m h = m\<lparr>fc_safe := h\<rparr>"

definition mark_finalized :: "ForkchoiceManager \<Rightarrow> string \<Rightarrow> ForkchoiceManager" where
  "mark_finalized m h = m\<lparr>fc_finalized := h\<rparr>"

definition fc_get_state :: "ForkchoiceManager \<Rightarrow> ForkchoiceStateV1" where
  "fc_get_state m =
     \<lparr>head_block_hash = fc_head m, safe_block_hash = fc_safe m, finalized_block_hash = fc_finalized m\<rparr>"

section \<open>The default payload\<close>

lemma decode_hex_zeros: "decode_hex_pairs (concat (replicate n ''00'')) = Some (replicate n 0)"
  by (induction n) (simp_all add: decode_hex_nibble_def)

lemma zero_hex_decodes:
  assumes "n \<noteq> 0"
  shows "decode_hex_bytes (zero_hex n) = Some (replicate n 0)"
proof -
  have "strip_0x (zero_hex n) = concat (replicate n ''00'')"
    unfolding zero_hex_def by (rule strip_0x_plain) (induction n; simp)
  moreover have "length (concat (replicate n ''00'')) mod 2 = 0" for n by (induction n) auto
  moreover have "concat (replicate n ''00'') \<noteq> []" using assms by (cases n) auto
  ultimately show ?thesis by (simp add: decode_hex_bytes_def decode_hex_zeros)
qed

lemma of_be_zeros: "of_be (replicate n 0) = 0"
proof (induction n)
  case 0
  then show ?case by simp
next
  case (Suc n)
  have "replicate (Suc n) (0::u8) = replicate n 0 @ [0]" by (simp add: replicate_append_same)
  with Suc show ?case by (simp del: replicate.simps)
qed

lemma be_nat_zero: "be_nat n 0 = replicate n 0"
  using be_nat_of_be [of "replicate n 0"] by (simp add: of_be_zeros)

lemma zero_hex_encode: "zero_hex n = encode_hex_bytes (replicate n 0)"
  by (simp add: zero_hex_def encode_hex_bytes_def hex_char_def map_replicate_const)

lemma zero_quantity: "decode_hex_quantity_u64 ''0x0'' = 0" "decode_hex_quantity_u128 ''0x0'' = 0"
proof -
  have z: "''0x0'' = ''0x'' @ hex_digits 0" by (subst hex_digits.simps) (simp add: hex_char_def)
  show "decode_hex_quantity_u64 ''0x0'' = 0"
    unfolding z using quantity_u64 [of 0] by (simp add: encode_hex_quantity_u64_def)
  show "decode_hex_quantity_u128 ''0x0'' = 0"
    unfolding z using quantity_u128 [of 0] by (simp add: encode_hex_quantity_u128_def)
qed

text \<open>The payload the service hands out is well formed: it decodes to the empty block, with zero
  hashes, zero quantities and no transactions, and encodes back to itself.\<close>

theorem default_payload_well_formed:
  "of_execution_payload (resp_execution_payload (get_payload_v3 request)) =
     \<lparr>eb_parent_hash = 0, eb_fee_recipient = 0, eb_state_root = 0, eb_receipts_root = 0,
      eb_block_number = 0, eb_gas_limit = 0, eb_gas_used = 0, eb_timestamp = 0,
      eb_base_fee_per_gas = 0, eb_transactions = [], eb_withdrawals = []\<rparr> \<and>
   to_execution_payload (of_execution_payload (resp_execution_payload (get_payload_v3 request))) =
     resp_execution_payload (get_payload_v3 request)"
proof -
  have q: "encode_hex_quantity_u64 0 = ''0x0''" "encode_hex_quantity_u128 0 = ''0x0''"
    by (simp_all add: encode_hex_quantity_u64_def encode_hex_quantity_u128_def hex_digits.simps hex_char_def)
  have b: "be_bytes (0 :: B256) = replicate 32 0" "be_bytes (0 :: Address) = replicate 20 0"
    by (simp_all add: be_bytes_def be_nat_zero)
  have of_p: "of_execution_payload (resp_execution_payload (get_payload_v3 request)) =
     \<lparr>eb_parent_hash = 0, eb_fee_recipient = 0, eb_state_root = 0, eb_receipts_root = 0,
      eb_block_number = 0, eb_gas_limit = 0, eb_gas_used = 0, eb_timestamp = 0,
      eb_base_fee_per_gas = 0, eb_transactions = [], eb_withdrawals = []\<rparr>"
    by (simp add: of_execution_payload_def get_payload_v3_def ExecutionPayloadV3_default_def
        Bytes32_zero_def Address_zero_def HexQuantity_zero_def decode_fixed_hex_bytes_def
        zero_hex_decodes of_be_zeros zero_quantity)
  then show ?thesis
    by (simp add: to_execution_payload_def get_payload_v3_def ExecutionPayloadV3_default_def
        Bytes32_zero_def Address_zero_def HexQuantity_zero_def HexBytes_empty_def zero_hex_encode q b)
qed

end
