(* ===== verification/Validation.thy ===== *)
theory Validation
  imports Prelude
begin

text \<open>
  The validators of the protocol modules share one shape: they walk over a list, push
  errors as they go (\<open>err_if\<close>), remember the keys already seen, and answer \<open>Ok(())\<close> when nothing was
  pushed.  \<open>scan\<close> is that loop, \<open>finish\<close> its end.  The contracts \<open>lazy_key_scan\<close> and
  \<open>key_scan\<close> state what a loop body that watches for duplicate keys does; their clients get from them when the
  whole list passes.
\<close>

fun scan :: "('s \<Rightarrow> 'a \<Rightarrow> 'e list \<times> 's) \<Rightarrow> 's \<Rightarrow> 'a list \<Rightarrow> 'e list \<times> 's" where
  "scan body s [] = ([], s)"
| "scan body s (x # xs) =
     (case body s x of (es, s1) \<Rightarrow> case scan body s1 xs of (es', s2) \<Rightarrow> (es @ es', s2))"

definition err_if :: "bool \<Rightarrow> 'e \<Rightarrow> 'e list" where
  "err_if c e = (if c then [e] else [])"

lemma err_if_Nil [simp]: "err_if c e = [] \<longleftrightarrow> \<not> c"
  by (simp add: err_if_def)

lemma err_if_mem [simp]: "x \<in> set (err_if c e) \<longleftrightarrow> c \<and> x = e"
  by (auto simp: err_if_def)

definition finish :: "'e list \<Rightarrow> 'e list + unit" where
  "finish errors = (if errors = [] then Inr () else Inl errors)"

lemma finish_ok [simp]: "finish errors = Inr () \<longleftrightarrow> errors = []"
  by (simp add: finish_def)

lemma finish_errors [simp]: "finish errors = Inl es \<longleftrightarrow> es \<noteq> [] \<and> errors = es"
  by (auto simp: finish_def)

lemma fst_scan_Cons: "fst (scan body s (x # xs)) = fst (body s x) @ fst (scan body (snd (body s x)) xs)"
  and snd_scan_Cons: "snd (scan body s (x # xs)) = snd (scan body (snd (body s x)) xs)"
  by (simp_all add: case_prod_unfold)

lemma scan_append:
  "scan body s (xs @ ys) =
     (case scan body s xs of (es, s1) \<Rightarrow> case scan body s1 ys of (es', s2) \<Rightarrow> (es @ es', s2))"
  by (induction xs arbitrary: s) (auto split: prod.splits)

text \<open>A loop without memory passes when every element does.\<close>

lemma scan_stateless:
  assumes "\<And>s x. snd (body s x) = s"
  shows "snd (scan body s xs) = s" and "fst (scan body s xs) = concat (map (\<lambda>x. fst (body s x)) xs)"
proof -
  have "scan body s xs = (concat (map (\<lambda>x. fst (body s x)) xs), s)"
    by (induction xs) (use assms in \<open>auto simp: case_prod_unfold\<close>)
  then show "snd (scan body s xs) = s" and "fst (scan body s xs) = concat (map (\<lambda>x. fst (body s x)) xs)"
    by simp_all
qed

text \<open>A property of the memory that every body keeps.\<close>

lemma scan_invariant:
  assumes "P s" and "\<And>s x. x \<in> set xs \<Longrightarrow> P s \<Longrightarrow> P (snd (body s x))"
  shows "P (snd (scan body s xs))"
  using assms
proof (induction xs arbitrary: s)
  case Nil
  then show ?case by simp
next
  case (Cons x xs)
  from Cons.IH [of "snd (body s x)"] Cons.prems show ?case by (auto simp: case_prod_unfold)
qed

text \<open>A body that watches for duplicates: it passes an element that is right and new, and then remembers
  its key; what it remembers of an element it refuses is left open.\<close>

locale lazy_key_scan =
  fixes body :: "'k set \<Rightarrow> 'a \<Rightarrow> 'e list \<times> 'k set"
    and key :: "'a \<Rightarrow> 'k"
    and ok :: "'a \<Rightarrow> bool"
  assumes passes: "fst (body seen x) = [] \<longleftrightarrow> ok x \<and> key x \<notin> seen"
    and remembers_passed: "ok x \<Longrightarrow> key x \<notin> seen \<Longrightarrow> snd (body seen x) = insert (key x) seen"
begin

lemma scan_passes:
  "fst (scan body seen xs) = [] \<longleftrightarrow>
     (\<forall>x \<in> set xs. ok x) \<and> distinct (map key xs) \<and> key ` set xs \<inter> seen = {}"
proof (induction xs arbitrary: seen)
  case (Cons x xs)
  show ?case
  proof (cases "ok x \<and> key x \<notin> seen")
    case True
    then show ?thesis using Cons.IH by (auto simp: case_prod_unfold passes remembers_passed)
  next
    case False
    then show ?thesis by (auto simp: case_prod_unfold passes)
  qed
qed simp

corollary scan_all:
  "fst (scan body {} xs) = [] \<longleftrightarrow> (\<forall>x \<in> set xs. ok x) \<and> distinct (map key xs)"
  by (simp add: scan_passes)

end

text \<open>A body that remembers the key of every element.\<close>

locale key_scan =
  fixes body :: "'k set \<Rightarrow> 'a \<Rightarrow> 'e list \<times> 'k set"
    and key :: "'a \<Rightarrow> 'k"
    and ok :: "'a \<Rightarrow> bool"
  assumes no_errors: "fst (body seen x) = [] \<longleftrightarrow> ok x \<and> key x \<notin> seen"
    and remembers: "snd (body seen x) = insert (key x) seen"
begin

lemma scan_seen: "snd (scan body seen xs) = seen \<union> key ` set xs"
  by (induction xs arbitrary: seen) (auto simp: case_prod_unfold remembers)

end

sublocale key_scan \<subseteq> lazy_key_scan
  by unfold_locales (simp_all add: no_errors remembers)

text \<open>\<open>enumerate\<close> does not hide the elements.\<close>

lemma enumerate_elements:
  "(\<forall>x \<in> set (enumerate n xs). P (snd x)) \<longleftrightarrow> (\<forall>x \<in> set xs. P x)"
  by (metis (no_types, lifting) image_iff list.set_map map_snd_enumerate)

lemma enumerate_keys: "map (\<lambda>x. f (snd x)) (enumerate n xs) = map f xs"
  by (induction xs arbitrary: n) simp_all

end
