(* ===== verification/Authorization.thy ===== *)
theory Authorization
  imports Validation
begin

text \<open>
  Authorization lists (EIP-7702), \<open>crates/eth2077-execution/src/eip7702.rs\<close>, and
  state-access requests with Merkle proofs, \<open>crates/eth2077-execution/src/eip7864.rs\<close>.
\<close>

section \<open>Authorization lists\<close>

record AuthorizationEntry =
  auth_chain_id :: u64
  auth_address :: Address
  auth_nonce :: u64
  y_parity :: u8
  auth_r :: B256
  auth_s :: B256

datatype AuthorizationError =
    EmptyAuthorizationList
  | InvalidChainId nat u64 u64
  | InvalidYParity nat u8
  | ZeroAddress nat
  | DuplicateAuthorization nat Address
  | SignatureRTooLarge nat
  | SignatureSInUpperHalf nat

definition SECP256K1_N :: bytes where
  "SECP256K1_N =
     [0xFF, 0xFF, 0xFF, 0xFF, 0xFF, 0xFF, 0xFF, 0xFF, 0xFF, 0xFF, 0xFF, 0xFF, 0xFF, 0xFF, 0xFF, 0xFE,
      0xBA, 0xAE, 0xDC, 0xE6, 0xAF, 0x48, 0xA0, 0x3B, 0xBF, 0xD2, 0x5E, 0x8C, 0xD0, 0x36, 0x41, 0x41]"

definition SECP256K1_N_DIV_2 :: bytes where
  "SECP256K1_N_DIV_2 =
     [0x7F, 0xFF, 0xFF, 0xFF, 0xFF, 0xFF, 0xFF, 0xFF, 0xFF, 0xFF, 0xFF, 0xFF, 0xFF, 0xFF, 0xFF, 0xFF,
      0x5D, 0x57, 0x6E, 0x73, 0x57, 0xA4, 0x50, 0x1D, 0xDF, 0xE9, 0x2F, 0x46, 0x68, 0x1B, 0x20, 0xA0]"

fun bytes32_less_than_loop :: "(u8 \<times> u8) list \<Rightarrow> bool" where
  "bytes32_less_than_loop [] = False"
| "bytes32_less_than_loop ((left, right) # rest) =
     (if left < right then True
      else if right < left then False
      else bytes32_less_than_loop rest)"

definition bytes32_less_than :: "bytes \<Rightarrow> bytes \<Rightarrow> bool" where
  "bytes32_less_than a b = bytes32_less_than_loop (zip a b)"

definition bytes32_less_than_or_equal :: "bytes \<Rightarrow> bytes \<Rightarrow> bool" where
  "bytes32_less_than_or_equal a b \<longleftrightarrow> a = b \<or> bytes32_less_than a b"

definition check_authorization ::
    "u64 \<Rightarrow> Address set \<Rightarrow> nat \<times> AuthorizationEntry \<Rightarrow> AuthorizationError list \<times> Address set" where
  "check_authorization expected_chain_id seen entry =
     (case entry of (index, a) \<Rightarrow>
        (err_if (auth_chain_id a \<noteq> 0 \<and> auth_chain_id a \<noteq> expected_chain_id)
           (InvalidChainId index (auth_chain_id a) expected_chain_id) @
         err_if (y_parity a \<noteq> 0 \<and> y_parity a \<noteq> 1) (InvalidYParity index (y_parity a)) @
         err_if (auth_address a = 0) (ZeroAddress index) @
         err_if (auth_address a \<in> seen) (DuplicateAuthorization index (auth_address a)) @
         err_if (\<not> bytes32_less_than (be_bytes (auth_r a)) SECP256K1_N) (SignatureRTooLarge index) @
         err_if (\<not> bytes32_less_than_or_equal (be_bytes (auth_s a)) SECP256K1_N_DIV_2)
           (SignatureSInUpperHalf index),
         insert (auth_address a) seen))"

definition validate_authorization_list ::
    "AuthorizationEntry list \<Rightarrow> u64 \<Rightarrow> AuthorizationError list + unit" where
  "validate_authorization_list authorizations expected_chain_id =
     finish (err_if (authorizations = []) EmptyAuthorizationList @
       fst (scan (check_authorization expected_chain_id) {} (enumerate 0 authorizations)))"

section \<open>State access\<close>

datatype StateAccessType = AccountBalance | StorageSlot | CodeHash | AccountNonce

record StateAccessRequest =
  access_type :: StateAccessType
  target_address :: Address
  storage_slot :: "B256 option"
  req_block_number :: u64
  req_proof_data :: bytes

datatype StateAccessError =
    InvalidProofEncoding
  | BlockTooOld u64 u64
  | BlockInFuture u64 u64
  | StorageSlotRequiredForType
  | StorageSlotNotAllowedForType
  | ProofTooLarge nat nat

definition BASE_GAS_COST :: u64 where
  "BASE_GAS_COST = 3000"

definition PROOF_BYTE_GAS_COST :: u64 where
  "PROOF_BYTE_GAS_COST = 16"

definition validate_state_access_request ::
    "StateAccessRequest \<Rightarrow> u64 \<Rightarrow> u64 \<Rightarrow> nat \<Rightarrow> StateAccessError + unit" where
  "validate_state_access_request request current_block lookback_window max_proof_size =
     (if current_block < req_block_number request then
        Inl (BlockInFuture (req_block_number request) current_block)
      else
        let oldest_allowed = sat_sub current_block lookback_window in
        if req_block_number request < oldest_allowed then
          Inl (BlockTooOld (req_block_number request) oldest_allowed)
        else if access_type request = StorageSlot \<and> storage_slot request = None then
          Inl StorageSlotRequiredForType
        else if access_type request \<noteq> StorageSlot \<and> storage_slot request \<noteq> None then
          Inl StorageSlotNotAllowedForType
        else
          let proof_size = length (req_proof_data request) in
          if max_proof_size < proof_size then Inl (ProofTooLarge proof_size max_proof_size)
          else if proof_size = 0 \<or> proof_size mod 32 \<noteq> 0 then Inl InvalidProofEncoding
          else Inr ())"

definition estimate_gas_cost :: "StateAccessRequest \<Rightarrow> u64" where
  "estimate_gas_cost request =
     (let proof_bytes = of_nat (length (req_proof_data request)) in
      sat_add BASE_GAS_COST (sat_mul proof_bytes PROOF_BYTE_GAS_COST))"

section \<open>Byte order is number order\<close>

lemma less_than_loop_of_be:
  "length xs = length ys \<Longrightarrow> bytes32_less_than_loop (zip xs ys) \<longleftrightarrow> of_be xs < of_be ys"
proof (induction xs ys rule: list_induct2)
  case Nil
  then show ?case by simp
next
  case (Cons x xs y ys)
  let ?m = "256 ^ length ys"
  have xs: "of_be xs < ?m" and ys: "of_be ys < ?m"
    using of_be_less [of xs] of_be_less [of ys] Cons.hyps by simp_all
  have "unat x * ?m + of_be xs < unat y * ?m + of_be ys" if "unat x < unat y"
  proof -
    have "unat x * ?m + of_be xs < (unat x + 1) * ?m" using xs by simp
    also have "\<dots> \<le> unat y * ?m" using that by (intro mult_right_mono) simp_all
    finally show ?thesis by simp
  qed
  moreover have "unat y * ?m + of_be ys < unat x * ?m + of_be xs" if "unat y < unat x"
  proof -
    have "unat y * ?m + of_be ys < (unat y + 1) * ?m" using ys by simp
    also have "\<dots> \<le> unat x * ?m" using that by (intro mult_right_mono) simp_all
    finally show ?thesis by simp
  qed
  ultimately show ?case
    using Cons by (auto simp: of_be_Cons word_less_nat_alt not_less dest: order.asym)
qed

lemma bytes32_less_than_of_be:
  "length b = 32 \<Longrightarrow> bytes32_less_than (be_bytes (a :: B256)) b \<longleftrightarrow> unat a < of_be b"
  using less_than_loop_of_be [of "be_bytes a" b] by (simp add: bytes32_less_than_def of_be_be_bytes)

lemma be_bytes_of_be:
  assumes "length b = 32"
  shows "be_bytes (a :: B256) = b \<longleftrightarrow> unat a = of_be b"
proof
  assume "unat a = of_be b"
  then have "be_bytes a = be_nat 32 (of_be b)" by (simp add: be_bytes_def)
  then show "be_bytes a = b" using be_nat_of_be [of b] assms by simp
qed (use of_be_be_bytes [of a] in auto)

lemma bytes32_less_than_or_equal_of_be:
  "length b = 32 \<Longrightarrow> bytes32_less_than_or_equal (be_bytes (a :: B256)) b \<longleftrightarrow> unat a \<le> of_be b"
  by (auto simp: bytes32_less_than_or_equal_def bytes32_less_than_of_be be_bytes_of_be)

text \<open>The order of the group generated by the base point of secp256k1.\<close>

definition secp256k1_order :: nat where
  "secp256k1_order = 0xFFFFFFFFFFFFFFFFFFFFFFFFFFFFFFFEBAAEDCE6AF48A03BBFD25E8CD0364141"

lemma curve_constants:
  "length SECP256K1_N = 32" "length SECP256K1_N_DIV_2 = 32"
  "of_be SECP256K1_N = secp256k1_order" "of_be SECP256K1_N_DIV_2 = secp256k1_order div 2"
  by (simp_all add: SECP256K1_N_def SECP256K1_N_DIV_2_def of_be_def secp256k1_order_def)

definition authorization_ok :: "u64 \<Rightarrow> AuthorizationEntry \<Rightarrow> bool" where
  "authorization_ok chain a \<longleftrightarrow>
     auth_chain_id a \<in> {0, chain} \<and> y_parity a \<in> {0, 1} \<and> auth_address a \<noteq> 0 \<and>
     unat (auth_r a) < secp256k1_order \<and> unat (auth_s a) \<le> secp256k1_order div 2"

interpretation auth: key_scan "check_authorization chain" "\<lambda>x. auth_address (snd x)"
  "\<lambda>x. authorization_ok chain (snd x)" for chain
  by unfold_locales
    (auto simp: check_authorization_def authorization_ok_def bytes32_less_than_of_be
      bytes32_less_than_or_equal_of_be curve_constants)

text \<open>An authorization list passes exactly when it is not empty, no two entries name the same
  address, and every entry is for this chain or for any chain, has a parity bit, a
  non-zero address, an \<open>r\<close> below the order of the secp256k1 group and an \<open>s\<close> in its lower half, read
  as numbers.\<close>

theorem authorization_list_valid_iff:
  "validate_authorization_list as chain = Inr () \<longleftrightarrow>
     as \<noteq> [] \<and> distinct (map auth_address as) \<and> (\<forall>a \<in> set as. authorization_ok chain a)"
  by (auto simp: validate_authorization_list_def auth.scan_all enumerate_elements enumerate_keys)

text \<open>A state-access request passes exactly when its block lies in the lookback window that
  ends at the current block, a slot is given for storage reads and only for them, and the
  proof is a non-empty sequence of whole 32-byte nodes of at most the allowed size; the
  gas of a request is 3000 plus 16 for each proof byte, saturating.\<close>

theorem state_access_valid_iff:
  "(validate_state_access_request q current window max_size = Inr () \<longleftrightarrow>
     unat (req_block_number q) \<in> {unat current - unat window..unat current} \<and>
     (access_type q = StorageSlot \<longleftrightarrow> storage_slot q \<noteq> None) \<and>
     (\<exists>nodes > 0. length (req_proof_data q) = 32 * nodes \<and> 32 * nodes \<le> max_size)) \<and>
   unat (estimate_gas_cost q) = min (3000 + 16 * (length (req_proof_data q) mod 2 ^ 64)) (2 ^ 64 - 1)"
proof (rule conjI)
  have "(\<exists>k > 0. n = 32 * k \<and> 32 * k \<le> m) \<longleftrightarrow> \<not> m < n \<and> n \<noteq> 0 \<and> n mod 32 = 0" for n m :: nat
    by (auto simp: mod_eq_0_iff_dvd dvd_def)
  then show "validate_state_access_request q current window max_size = Inr () \<longleftrightarrow>
     unat (req_block_number q) \<in> {unat current - unat window..unat current} \<and>
     (access_type q = StorageSlot \<longleftrightarrow> storage_slot q \<noteq> None) \<and>
     (\<exists>nodes > 0. length (req_proof_data q) = 32 * nodes \<and> 32 * nodes \<le> max_size)"
    by (simp only:) (auto simp: validate_state_access_request_def Let_def word_less_nat_alt word_le_nat_alt sat_simps)
  show "unat (estimate_gas_cost q) = min (3000 + 16 * (length (req_proof_data q) mod 2 ^ 64)) (2 ^ 64 - 1)"
    by (simp add: estimate_gas_cost_def BASE_GAS_COST_def PROOF_BYTE_GAS_COST_def sat_simps
        unsigned_of_nat take_bit_eq_mod)
qed

definition sample_authorization :: "Address \<Rightarrow> AuthorizationEntry" where
  "sample_authorization a =
     \<lparr>auth_chain_id = 0, auth_address = a, auth_nonce = 0, y_parity = 1, auth_r = 5, auth_s = 6\<rparr>"

theorem authorization_list_valid_iff_witness:
  "validate_authorization_list [sample_authorization 1, sample_authorization 2] 2077 = Inr ()"
  using authorization_list_valid_iff [of "[sample_authorization 1, sample_authorization 2]" 2077]
  by (simp add: authorization_ok_def sample_authorization_def secp256k1_order_def)

end
