(* ===== verification/Blobs.thy ===== *)
theory Blobs
  imports Validation
begin

text \<open>
  Blob bundles, \<open>crates/eth2077-execution/src/blob_sidecar.rs\<close>, and sparse blob sampling
  (EIP-8070), \<open>crates/eth2077-execution/src/eip8070.rs\<close>.  SHA-256 is the parameter \<open>sha\<close>;
  no law about it is assumed.  The sampling ratios, which are floating-point, are not
  modelled.
\<close>

section \<open>Blob bundles\<close>

definition MAX_BLOBS_PER_BLOCK :: nat where
  "MAX_BLOBS_PER_BLOCK = 6"

definition BLOB_SIZE :: nat where
  "BLOB_SIZE = 131072"

definition VERSIONED_HASH_VERSION_KZG :: u8 where
  "VERSIONED_HASH_VERSION_KZG = 0x01"

datatype BlobValidationError =
    TooManyBlobs nat nat
  | BlobSizeMismatch nat nat nat
  | CommitmentMismatch nat
  | ProofVerificationFailed nat
  | VersionedHashMismatch nat B256 B256
  | EmptyBlobSidecar

record BlobSidecar =
  sidecar_index :: u64
  blob :: bytes
  kzg_commitment :: bytes
  kzg_proof :: bytes

record BlobBundle =
  blobs :: "BlobSidecar list"
  versioned_hashes :: "B256 list"

text \<open>The first byte of a hash, and the hash with it replaced.\<close>

definition first_byte :: "B256 \<Rightarrow> u8" where
  "first_byte h = hd (be_bytes h)"

definition with_version :: "B256 \<Rightarrow> B256" where
  "with_version h = word_of_be (VERSIONED_HASH_VERSION_KZG # tl (be_bytes h))"

fun check_sidecars :: "nat \<Rightarrow> BlobSidecar list \<Rightarrow> BlobValidationError + unit" where
  "check_sidecars index [] = Inr ()"
| "check_sidecars index (sidecar # rest) =
     (if sidecar_index sidecar \<noteq> of_nat index then Inl (CommitmentMismatch index)
      else if length (blob sidecar) \<noteq> BLOB_SIZE then
        Inl (BlobSizeMismatch index (length (blob sidecar)) BLOB_SIZE)
      else check_sidecars (Suc index) rest)"

fun check_versions :: "nat \<Rightarrow> B256 list \<Rightarrow> BlobValidationError + unit" where
  "check_versions index [] = Inr ()"
| "check_versions index (h # rest) =
     (if first_byte h \<noteq> VERSIONED_HASH_VERSION_KZG then
        Inl (VersionedHashMismatch index (with_version h) h)
      else check_versions (Suc index) rest)"

definition validate_blob_bundle_structure :: "BlobBundle \<Rightarrow> BlobValidationError + unit" where
  "validate_blob_bundle_structure bundle =
     (let blob_count = length (blobs bundle) in
      if blobs bundle = [] then Inl EmptyBlobSidecar
      else if MAX_BLOBS_PER_BLOCK < blob_count then Inl (TooManyBlobs blob_count MAX_BLOBS_PER_BLOCK)
      else if length (versioned_hashes bundle) \<noteq> blob_count then
        Inl (CommitmentMismatch (min (length (versioned_hashes bundle)) blob_count))
      else case check_sidecars 0 (blobs bundle) of
        Inl e \<Rightarrow> Inl e
      | Inr _ \<Rightarrow> check_versions 0 (versioned_hashes bundle))"

definition mock_versioned_hash :: "(bytes \<Rightarrow> B256) \<Rightarrow> bytes \<Rightarrow> B256" where
  "mock_versioned_hash sha commitment =
     (let digest = be_bytes (sha commitment) in
      word_of_be (VERSIONED_HASH_VERSION_KZG # tl digest))"

fun check_hashes ::
    "(bytes \<Rightarrow> B256) \<Rightarrow> nat \<Rightarrow> (BlobSidecar \<times> B256) list \<Rightarrow> BlobValidationError + unit" where
  "check_hashes sha index [] = Inr ()"
| "check_hashes sha index ((sidecar, expected) # rest) =
     (let actual = mock_versioned_hash sha (kzg_commitment sidecar) in
      if actual \<noteq> expected then Inl (VersionedHashMismatch index expected actual)
      else check_hashes sha (Suc index) rest)"

definition validate_versioned_hashes ::
    "(bytes \<Rightarrow> B256) \<Rightarrow> BlobBundle \<Rightarrow> BlobValidationError + unit" where
  "validate_versioned_hashes sha bundle =
     (if length (versioned_hashes bundle) \<noteq> length (blobs bundle) then
        Inl (CommitmentMismatch (min (length (versioned_hashes bundle)) (length (blobs bundle))))
      else check_hashes sha 0 (zip (blobs bundle) (versioned_hashes bundle)))"

record BlobBundleStats =
  blob_count :: nat
  total_blob_bytes :: nat
  total_commitment_bytes :: nat
  versioned_hash_version :: u8

definition compute_bundle_stats :: "BlobBundle \<Rightarrow> BlobBundleStats" where
  "compute_bundle_stats bundle =
     \<lparr>blob_count = length (blobs bundle),
      total_blob_bytes = (\<Sum>sidecar\<leftarrow>blobs bundle. length (blob sidecar)),
      total_commitment_bytes = (\<Sum>sidecar\<leftarrow>blobs bundle. length (kzg_commitment sidecar)),
      versioned_hash_version =
        (case versioned_hashes bundle of h # _ \<Rightarrow> first_byte h | [] \<Rightarrow> VERSIONED_HASH_VERSION_KZG)\<rparr>"

section \<open>Sparse sampling\<close>

definition CELLS_PER_BLOB :: nat where
  "CELLS_PER_BLOB = 128"

record BlobCell =
  cell_blob_index :: u64
  cell_index :: u64
  cell_data :: bytes

record CustodyAssignment =
  node_id :: B256
  custody_group :: u64
  total_groups :: u64

record SparseBlobRequest =
  sr_blob_index :: u64
  requested_cells :: "u64 list"
  custody_assignment :: CustodyAssignment

datatype SparseBlobError =
    InvalidCellIndex u64 u64
  | CustodyGroupOutOfRange u64 u64
  | EmptyCellRequest
  | CellNotInCustody u64 u64
  | DuplicateCellIndex u64

text \<open>\<open>u64::from_be_bytes(hash[0..8])\<close>.\<close>

definition leading_u64 :: "B256 \<Rightarrow> u64" where
  "leading_u64 h = word_of_be (take 8 (be_bytes h))"

definition compute_custody_assignment :: "(bytes \<Rightarrow> B256) \<Rightarrow> B256 \<Rightarrow> u64 \<Rightarrow> CustodyAssignment" where
  "compute_custody_assignment sha node groups =
     (let hash_value = leading_u64 (sha (be_bytes node)) in
      \<lparr>node_id = node, custody_group = (if groups = 0 then 0 else hash_value mod groups),
       total_groups = groups\<rparr>)"

definition cells_for_custody_group :: "u64 \<Rightarrow> u64 \<Rightarrow> nat \<Rightarrow> u64 list" where
  "cells_for_custody_group grp groups cells_per_blob =
     (if groups = 0 then []
      else filter (\<lambda>cell. cell mod groups = grp) (map of_nat [0..<cells_per_blob]))"

definition check_cell ::
    "bool \<Rightarrow> u64 \<Rightarrow> u64 \<Rightarrow> u64 set \<Rightarrow> u64 \<Rightarrow> SparseBlobError list \<times> u64 set" where
  "check_cell group_valid grp groups seen cell =
     (err_if (cell \<in> seen) (DuplicateCellIndex cell) @
      err_if (of_nat CELLS_PER_BLOB \<le> cell)
        (InvalidCellIndex cell (sat_sub (of_nat CELLS_PER_BLOB) 1)) @
      err_if (group_valid \<and> cell mod groups \<noteq> grp) (CellNotInCustody cell grp),
      insert cell seen)"

definition validate_sparse_blob_request :: "SparseBlobRequest \<Rightarrow> SparseBlobError list + unit" where
  "validate_sparse_blob_request request =
     (let grp = custody_group (custody_assignment request);
          groups = total_groups (custody_assignment request);
          group_valid = (groups \<noteq> 0 \<and> grp < groups)
      in finish (err_if (requested_cells request = []) EmptyCellRequest @
           err_if (\<not> group_valid) (CustodyGroupOutOfRange grp groups) @
           fst (scan (check_cell group_valid grp groups) {} (requested_cells request))))"

definition compute_cell_commitment :: "(bytes \<Rightarrow> B256) \<Rightarrow> BlobCell \<Rightarrow> B256" where
  "compute_cell_commitment sha cell =
     sha (be_bytes (cell_blob_index cell) @ be_bytes (cell_index cell) @ cell_data cell)"

text \<open>\<open>(0.15 * 100.0) as u64\<close>: the product of the doubles rounds to \<open>15.0\<close>.\<close>

definition full_sample_threshold :: u64 where
  "full_sample_threshold = 15"

definition should_full_sample :: "(bytes \<Rightarrow> B256) \<Rightarrow> B256 \<Rightarrow> bool" where
  "should_full_sample sha node \<longleftrightarrow>
     leading_u64 (sha (ascii ''full_sample'' @ be_bytes node)) mod 100 < full_sample_threshold"

section \<open>What the bundle checks establish\<close>

lemma first_byte_with_version [simp]: "first_byte (word_of_be (b # tl (be_bytes (h :: B256)))) = b"
  by (simp add: first_byte_def be_bytes_word_of_be)

lemma check_sidecars_ok:
  "check_sidecars k xs = Inr () \<longleftrightarrow>
     (\<forall>i < length xs. sidecar_index (xs ! i) = of_nat (k + i) \<and> length (blob (xs ! i)) = BLOB_SIZE)"
proof (induction xs arbitrary: k)
  case (Cons x xs)
  then show ?case by (auto simp: All_less_Suc2 simp del: of_nat_add)
qed simp

lemma check_versions_ok:
  "check_versions k hs = Inr () \<longleftrightarrow> (\<forall>h \<in> set hs. first_byte h = VERSIONED_HASH_VERSION_KZG)"
  by (induction hs arbitrary: k) auto

lemma check_hashes_ok:
  "length xs = length hs \<Longrightarrow>
     check_hashes sha k (zip xs hs) = Inr () \<longleftrightarrow> hs = map (\<lambda>x. mock_versioned_hash sha (kzg_commitment x)) xs"
  by (induction xs hs arbitrary: k rule: list_induct2) (auto simp: Let_def)

lemma mock_hash_version: "first_byte (mock_versioned_hash sha c) = VERSIONED_HASH_VERSION_KZG"
  by (simp add: mock_versioned_hash_def Let_def)

text \<open>The two blob checks together accept a bundle exactly when it has one to six blobs of
  131072 bytes, each carrying its own position as index, and its versioned hashes are the
  hashes of the commitments in order, which then all carry version byte 1.\<close>

theorem blob_bundle_accepted_iff:
  "validate_blob_bundle_structure b = Inr () \<and> validate_versioned_hashes sha b = Inr () \<longleftrightarrow>
     length (blobs b) \<in> {1..6} \<and>
     (\<forall>i < length (blobs b). sidecar_index (blobs b ! i) = of_nat i \<and> length (blob (blobs b ! i)) = 131072) \<and>
     versioned_hashes b = map (\<lambda>x. mock_versioned_hash sha (kzg_commitment x)) (blobs b)"
proof -
  have hashes: "validate_versioned_hashes sha b = Inr () \<longleftrightarrow>
      versioned_hashes b = map (\<lambda>x. mock_versioned_hash sha (kzg_commitment x)) (blobs b)"
    using check_hashes_ok [of "blobs b" "versioned_hashes b" sha 0]
    by (auto simp: validate_versioned_hashes_def)
  have "validate_blob_bundle_structure b = Inr () \<longleftrightarrow>
      length (blobs b) \<in> {1..6} \<and> length (versioned_hashes b) = length (blobs b) \<and>
      (\<forall>i < length (blobs b). sidecar_index (blobs b ! i) = of_nat i \<and> length (blob (blobs b ! i)) = BLOB_SIZE) \<and>
      (\<forall>h \<in> set (versioned_hashes b). first_byte h = VERSIONED_HASH_VERSION_KZG)"
    using check_sidecars_ok [of 0 "blobs b"] check_versions_ok [of 0 "versioned_hashes b"]
    by (auto simp: validate_blob_bundle_structure_def MAX_BLOBS_PER_BLOCK_def Let_def Suc_le_eq
        split: sum.splits)
  then show ?thesis
    unfolding hashes by (auto simp: mock_hash_version BLOB_SIZE_def)
qed

section \<open>Custody\<close>

interpretation cells: key_scan "check_cell valid grp groups" "\<lambda>cell. cell"
  "\<lambda>cell. \<not> of_nat CELLS_PER_BLOB \<le> cell \<and> \<not> (valid \<and> cell mod groups \<noteq> grp)" for valid grp groups
  by unfold_locales (auto simp: check_cell_def)

lemma mem_custody:
  assumes "groups \<noteq> 0" and "n \<le> 2 ^ 64"
  shows "cell \<in> set (cells_for_custody_group grp groups n) \<longleftrightarrow> unat cell < n \<and> cell mod groups = grp"
proof -
  have "cell \<in> of_nat ` {0..<n} \<longleftrightarrow> unat cell < n"
  proof
    assume "cell \<in> of_nat ` {0..<n}"
    then obtain k where "cell = of_nat k" and "k < n" by auto
    with assms(2) show "unat cell < n" by (simp add: unsigned_of_nat take_bit_eq_mod)
  next
    assume "unat cell < n"
    then show "cell \<in> of_nat ` {0..<n}" by (intro image_eqI [of _ _ "unat cell"]) simp_all
  qed
  then show ?thesis using assms(1) by (auto simp: cells_for_custody_group_def)
qed

text \<open>A sparse blob request passes exactly when it asks for at least one cell, for none twice,
  its custody group exists, and every cell asked for is one of the group's cells.\<close>

theorem sparse_request_valid_iff:
  "validate_sparse_blob_request r = Inr () \<longleftrightarrow>
     requested_cells r \<noteq> [] \<and> distinct (requested_cells r) \<and>
     custody_group (custody_assignment r) < total_groups (custody_assignment r) \<and>
     set (requested_cells r) \<subseteq> set (cells_for_custody_group (custody_group (custody_assignment r))
       (total_groups (custody_assignment r)) CELLS_PER_BLOB)"
proof -
  let ?g = "custody_group (custody_assignment r)" and ?t = "total_groups (custody_assignment r)"
  have small: "\<not> of_nat CELLS_PER_BLOB \<le> cell \<longleftrightarrow> unat cell < CELLS_PER_BLOB" for cell :: u64
    by (simp add: CELLS_PER_BLOB_def word_le_nat_alt not_le)
  have n: "CELLS_PER_BLOB \<le> 2 ^ 64" by (simp add: CELLS_PER_BLOB_def)
  show ?thesis
  proof (cases "?t = 0")
    case True
    then show ?thesis by (simp add: validate_sparse_blob_request_def Let_def)
  next
    case False
    have "validate_sparse_blob_request r = Inr () \<longleftrightarrow>
        requested_cells r \<noteq> [] \<and> ?g < ?t \<and> fst (scan (check_cell True ?g ?t) {} (requested_cells r)) = []"
      using False by (cases "?g < ?t") (simp_all add: validate_sparse_blob_request_def Let_def)
    also have "fst (scan (check_cell True ?g ?t) {} (requested_cells r)) = [] \<longleftrightarrow>
        distinct (requested_cells r) \<and>
        set (requested_cells r) \<subseteq> set (cells_for_custody_group ?g ?t CELLS_PER_BLOB)"
      using mem_custody [OF False n] by (auto simp: cells.scan_all small)
    finally show ?thesis by blast
  qed
qed

text \<open>The custody groups partition the cells of a blob: with at least one group, each cell
  belongs to exactly one group, and the group assigned to a node is one of them, so a node
  always samples a well-defined share.\<close>

theorem custody_partition:
  assumes "groups \<noteq> 0" and "cell < n" and "n \<le> 2 ^ 64"
  shows "(\<exists>!grp. grp < groups \<and> of_nat cell \<in> set (cells_for_custody_group grp groups n)) \<and>
    custody_group (compute_custody_assignment sha node groups) < groups"
proof -
  have "unat (of_nat cell :: u64) < n"
    using assms(2,3) by (simp add: unsigned_of_nat take_bit_eq_mod)
  moreover have mod_less: "x mod groups < groups" for x
    using assms(1) by (simp add: word_mod_less_divisor word_neq_0_conv)
  ultimately show ?thesis
    using assms(1) by (auto simp: mem_custody [OF assms(1,3)] compute_custody_assignment_def Let_def)
qed

definition sample_sha :: "bytes \<Rightarrow> B256" where
  "sample_sha bs = word_of_be bs"

definition sample_bundle :: BlobBundle where
  "sample_bundle =
     \<lparr>blobs = [\<lparr>sidecar_index = 0, blob = replicate 131072 0, kzg_commitment = [7], kzg_proof = []\<rparr>],
      versioned_hashes = [mock_versioned_hash sample_sha [7]]\<rparr>"

theorem blob_bundle_accepted_iff_witness:
  "validate_blob_bundle_structure sample_bundle = Inr () \<and>
   validate_versioned_hashes sample_sha sample_bundle = Inr ()"
  unfolding blob_bundle_accepted_iff by (simp add: sample_bundle_def)

theorem custody_partition_witness:
  "\<exists>!grp. grp < 8 \<and> of_nat 77 \<in> set (cells_for_custody_group grp 8 128)"
  using custody_partition [of 8 77 128 sample_sha 3] by simp

end
