(* ===== verification/Rollup_Gas.thy ===== *)
theory Rollup_Gas
  imports Validation
begin

text \<open>
  The native-rollup precompile (EIP-8079), \<open>crates/eth2077-execution/src/eip8079.rs\<close>, and
  gas repricing schedules (EIP-8007), \<open>crates/eth2077-execution/src/eip8007.rs\<close>.  The
  averages and percentages of the two statistics functions are floating-point and not
  modelled.
\<close>

section \<open>The execute precompile\<close>

definition EXECUTE_PRECOMPILE_ADDRESS :: Address where
  "EXECUTE_PRECOMPILE_ADDRESS = 0x20"

record RollupAnchor =
  l1_state_root :: B256
  message_root :: B256
  rolling_hash :: B256
  l1_block_number :: u64

record NativeRollupConfig =
  rollup_id :: B256
  anchor_frequency :: u64
  max_gas_per_execution :: u64
  precompile_address :: Address

record ExecutePrecompileInput =
  pre_state_root :: B256
  in_transactions :: "bytes list"
  anchor :: RollupAnchor

record ExecutePrecompileOutput =
  post_state_root :: B256
  out_gas_used :: u64
  out_success :: bool

datatype NativeRollupError =
    InvalidAnchor string
  | ExceedsGasLimit u64 u64
  | EmptyTransactions
  | InvalidPreStateRoot
  | AnchorFrequencyViolation u64 u64
  | RollupIdMismatch B256 B256

definition default_rollup_config :: "B256 \<Rightarrow> NativeRollupConfig" where
  "default_rollup_config rid =
     \<lparr>rollup_id = rid, anchor_frequency = 32, max_gas_per_execution = 30000000,
      precompile_address = EXECUTE_PRECOMPILE_ADDRESS\<rparr>"

definition validate_execute_input ::
    "ExecutePrecompileInput \<Rightarrow> NativeRollupConfig \<Rightarrow> NativeRollupError list + unit" where
  "validate_execute_input input config =
     (let frequency = anchor_frequency config;
          block = l1_block_number (anchor input)
      in finish (err_if (in_transactions input = []) EmptyTransactions @
           err_if (pre_state_root input = 0) InvalidPreStateRoot @
           (if frequency = 0 then [AnchorFrequencyViolation 0 block]
            else if block mod frequency \<noteq> 0 then
              [AnchorFrequencyViolation (block div frequency * frequency) block]
            else [])))"

definition mock_execute ::
    "(bytes \<Rightarrow> B256) \<Rightarrow> ExecutePrecompileInput \<Rightarrow> NativeRollupConfig \<Rightarrow>
      NativeRollupError + ExecutePrecompileOutput" where
  "mock_execute sha input config =
     (if in_transactions input = [] then Inl EmptyTransactions
      else if pre_state_root input = 0 then Inl InvalidPreStateRoot
      else
        let tx_count = (if length (in_transactions input) < 2 ^ 64
                        then of_nat (length (in_transactions input)) else - 1 :: u64);
            gas = sat_mul 21000 tx_count
        in if max_gas_per_execution config < gas then
             Inl (ExceedsGasLimit gas (max_gas_per_execution config))
           else Inr \<lparr>post_state_root = sha (be_bytes (pre_state_root input) @
                        be_bytes (l1_state_root (anchor input)) @ be_bytes tx_count),
                     out_gas_used = gas, out_success = True\<rparr>)"

definition compute_anchor_hash :: "(bytes \<Rightarrow> B256) \<Rightarrow> RollupAnchor \<Rightarrow> B256" where
  "compute_anchor_hash sha a =
     sha (be_bytes (l1_state_root a) @ be_bytes (message_root a) @ be_bytes (rolling_hash a) @
          be_bytes (l1_block_number a))"

section \<open>Repricing schedules\<close>

datatype OpcodeCategory =
    Computation | MemoryOp | StorageOp | CallOp | CreateOp | LogOp | HashOp | EnvironmentOp

record GasRepricingRule =
  opcode :: u8
  category :: OpcodeCategory
  old_gas :: u64
  new_gas :: u64
  rationale :: string

record GasRepricingSchedule =
  rules :: "GasRepricingRule list"
  activation_block :: u64
  schedule_name :: string

datatype GasRepricingError =
    DuplicateOpcode u8
  | ZeroGasCost u8
  | NoRules
  | InvalidActivationBlock

definition rule :: "u8 \<Rightarrow> OpcodeCategory \<Rightarrow> u64 \<Rightarrow> u64 \<Rightarrow> string \<Rightarrow> GasRepricingRule" where
  "rule code cat old new why =
     \<lparr>opcode = code, category = cat, old_gas = old, new_gas = new, rationale = why\<rparr>"

definition glamsterdam_default_schedule :: GasRepricingSchedule where
  "glamsterdam_default_schedule =
     \<lparr>rules =
        [rule 0x55 StorageOp 20000 5000 ''Reduce storage write bottleneck costs'',
         rule 0x54 StorageOp 2100 800 ''Reduce storage read bottleneck costs'',
         rule 0x31 EnvironmentOp 2600 400 ''Lower account state access overhead'',
         rule 0x3B EnvironmentOp 2600 400 ''Lower external code size access overhead'',
         rule 0x3C EnvironmentOp 2600 400 ''Lower external code copy access overhead'',
         rule 0x3F EnvironmentOp 2600 400 ''Lower external code hash access overhead'',
         rule 0xF1 CallOp 2600 700 ''Rebalance call overhead for throughput'',
         rule 0xFA CallOp 2600 700 ''Rebalance static call overhead for throughput'',
         rule 0xF4 CallOp 2600 700 ''Rebalance delegate call overhead for throughput'',
         rule 0x20 HashOp 30 36 ''Align hashing cost with observed execution pressure'',
         rule 0xF0 CreateOp 32000 48000 ''Increase contract creation cost for global balance'',
         rule 0xF5 CreateOp 32000 48000 ''Increase deterministic creation cost for global balance''],
      activation_block = 0, schedule_name = ''glamsterdam''\<rparr>"

definition check_rule :: "u8 set \<Rightarrow> GasRepricingRule \<Rightarrow> GasRepricingError list \<times> u8 set" where
  "check_rule seen r =
     (err_if (opcode r \<in> seen) (DuplicateOpcode (opcode r)) @
      err_if (old_gas r = 0 \<or> new_gas r = 0) (ZeroGasCost (opcode r)),
      insert (opcode r) seen)"

definition validate_repricing_schedule :: "GasRepricingSchedule \<Rightarrow> GasRepricingError list + unit" where
  "validate_repricing_schedule s =
     finish (err_if (rules s = []) NoRules @ fst (scan check_rule {} (rules s)))"

definition effective_cost :: "GasRepricingSchedule \<Rightarrow> u64 \<Rightarrow> GasRepricingRule \<Rightarrow> u64" where
  "effective_cost s block r = (if activation_block s \<le> block then new_gas r else old_gas r)"

fun lookup_loop :: "GasRepricingSchedule \<Rightarrow> u8 \<Rightarrow> u64 \<Rightarrow> GasRepricingRule list \<Rightarrow> u64" where
  "lookup_loop s code block [] = 0"
| "lookup_loop s code block (r # rs) =
     (if opcode r = code then effective_cost s block r else lookup_loop s code block rs)"

definition lookup_gas_cost :: "GasRepricingSchedule \<Rightarrow> u8 \<Rightarrow> u64 \<Rightarrow> u64" where
  "lookup_gas_cost s code block = lookup_loop s code block (rules s)"

definition build_gas_table :: "GasRepricingSchedule \<Rightarrow> u64 \<Rightarrow> (u8, u64) hashmap" where
  "build_gas_table s block = fold (\<lambda>r. hm_insert (opcode r) (effective_cost s block r)) (rules s) []"

section \<open>The precompile\<close>

text \<open>The mock precompile runs an input exactly when it has transactions, a pre-state root and
  fits the gas limit, at 21000 gas a transaction with no overflow for any number of
  transactions; an input that also passes the validator has its anchor on a multiple of
  the configured frequency.\<close>

theorem mock_execute_iff:
  "(case mock_execute sha input config of
      Inl _ \<Rightarrow> in_transactions input = [] \<or> pre_state_root input = 0 \<or>
        unat (max_gas_per_execution config) < min (21000 * length (in_transactions input)) (2 ^ 64 - 1)
    | Inr out \<Rightarrow> in_transactions input \<noteq> [] \<and> pre_state_root input \<noteq> 0 \<and>
        unat (out_gas_used out) = min (21000 * length (in_transactions input)) (2 ^ 64 - 1) \<and>
        out_gas_used out \<le> max_gas_per_execution config) \<and>
   (validate_execute_input input config = Inr () \<longleftrightarrow>
      in_transactions input \<noteq> [] \<and> pre_state_root input \<noteq> 0 \<and> anchor_frequency config \<noteq> 0 \<and>
      unat (anchor_frequency config) dvd unat (l1_block_number (anchor input)))"
proof -
  let ?n = "length (in_transactions input)"
  let ?count = "if ?n < 2 ^ 64 then of_nat ?n else - 1 :: u64"
  have "unat ?count = min ?n (2 ^ 64 - 1)"
    by (simp add: unsigned_of_nat take_bit_eq_mod unat_minus_one_word_max)
  then have "unat (sat_mul 21000 ?count) = min (21000 * ?n) (2 ^ 64 - 1)"
    by (simp add: sat_simps)
  moreover have "b mod f = 0 \<longleftrightarrow> unat f dvd unat b" for b f :: u64
    by (simp add: word_unat_eq_iff unat_mod_distrib mod_eq_0_iff_dvd)
  ultimately show ?thesis
    by (simp add: mock_execute_def validate_execute_input_def Let_def word_less_nat_alt word_le_nat_alt not_less
        min_le_iff_disj)
qed

section \<open>Two ways to price an opcode\<close>

interpretation repricing: key_scan check_rule opcode "\<lambda>r. old_gas r \<noteq> 0 \<and> new_gas r \<noteq> 0"
  by unfold_locales (auto simp: check_rule_def)

lemma lookup_loop_find:
  "lookup_loop s code block rs =
     (case find (\<lambda>r. opcode r = code) rs of Some r \<Rightarrow> effective_cost s block r | None \<Rightarrow> 0)"
  by (induction rs) auto

lemma table_find:
  "distinct (map opcode rs) \<Longrightarrow>
     map_of (fold (\<lambda>r. hm_insert (opcode r) (f r)) rs m) code =
       (case find (\<lambda>r. opcode r = code) rs of Some r \<Rightarrow> Some (f r) | None \<Rightarrow> map_of m code)"
proof (induction rs arbitrary: m)
  case (Cons r rs)
  have "find (\<lambda>r'. opcode r' = opcode r) rs = None"
    using Cons.prems by (simp add: find_None_iff) (metis image_eqI)
  with Cons show ?case by (auto split: option.splits)
qed simp

text \<open>For a schedule that passes validation, the gas table and the rule-by-rule lookup agree
  at every block: the table has an entry exactly for the repriced opcodes, with the cost
  the lookup returns, which is never zero, and the lookup returns zero for all others.\<close>

theorem gas_table_matches_lookup:
  assumes "validate_repricing_schedule s = Inr ()"
  shows "map_of (build_gas_table s block) code =
    (if lookup_gas_cost s code block = 0 then None else Some (lookup_gas_cost s code block))"
proof -
  have ok: "\<forall>r \<in> set (rules s). old_gas r \<noteq> 0 \<and> new_gas r \<noteq> 0" and "distinct (map opcode (rules s))"
    using assms by (auto simp: validate_repricing_schedule_def repricing.scan_all)
  then have table: "map_of (build_gas_table s block) code =
      (case find (\<lambda>r. opcode r = code) (rules s) of Some r \<Rightarrow> Some (effective_cost s block r) | None \<Rightarrow> None)"
    by (simp add: build_gas_table_def table_find cong: option.case_cong)
  show ?thesis
  proof (cases "find (\<lambda>r. opcode r = code) (rules s)")
    case (Some r)
    then have "effective_cost s block r \<noteq> 0"
      using ok by (auto simp: effective_cost_def find_Some_iff)
    with Some table show ?thesis by (simp add: lookup_gas_cost_def lookup_loop_find)
  qed (simp add: table lookup_gas_cost_def lookup_loop_find)
qed

lemma glamsterdam_valid: "validate_repricing_schedule glamsterdam_default_schedule = Inr ()"
  by (simp add: validate_repricing_schedule_def glamsterdam_default_schedule_def rule_def check_rule_def)

theorem gas_table_matches_lookup_witness:
  "map_of (build_gas_table glamsterdam_default_schedule 5) 0x55 = Some 5000"
  using gas_table_matches_lookup [OF glamsterdam_valid, of 5 "0x55"]
  by (simp add: lookup_gas_cost_def glamsterdam_default_schedule_def rule_def effective_cost_def)

end
