(* ===== verification/Access_Lists.thy ===== *)
theory Access_Lists
  imports Validation Encoding "HOL-Library.Product_Lexorder"
begin

text \<open>
  Block-level access lists (EIP-7928), \<open>crates/eth2077-execution/src/eip7928.rs\<close>: their
  validation, the bytes under their hash, their statistics and their merge.
\<close>

record AccessedAccount =
  acc_address :: Address
  storage_keys :: "B256 list"
  post_balance :: "u128 option"
  post_nonce :: "u64 option"
  post_code_hash :: "B256 option"

record StorageAccess =
  sa_key :: B256
  pre_value :: B256
  post_value :: B256

record BlockAccessList =
  bal_block_number :: u64
  accessed_accounts :: "AccessedAccount list"
  storage_accesses :: "(Address \<times> StorageAccess) list"

datatype BlockAccessListError =
    DuplicateAccount Address
  | DuplicateStorageKey Address B256
  | EmptyAccessList
  | StorageAccessWithoutAccount Address

record AccessListStats =
  stats_block_number :: u64
  unique_account_count :: nat
  total_storage_accesses :: nat
  modified_storage_count :: nat
  read_only_storage_count :: nat

section \<open>Validation\<close>

definition check_key :: "Address \<Rightarrow> B256 set \<Rightarrow> B256 \<Rightarrow> BlockAccessListError list \<times> B256 set" where
  "check_key a seen key = (err_if (key \<in> seen) (DuplicateStorageKey a key), insert key seen)"

text \<open>\<open>seen_accounts\<close> and \<open>known_accounts\<close> receive the same addresses: one set stands for both.\<close>

definition check_account ::
    "Address set \<Rightarrow> AccessedAccount \<Rightarrow> BlockAccessListError list \<times> Address set" where
  "check_account seen account =
     (err_if (acc_address account \<in> seen) (DuplicateAccount (acc_address account)) @
      fst (scan (check_key (acc_address account)) {} (storage_keys account)),
      insert (acc_address account) seen)"

definition check_access ::
    "Address set \<Rightarrow> (Address \<times> B256) set \<Rightarrow> Address \<times> StorageAccess \<Rightarrow>
      BlockAccessListError list \<times> (Address \<times> B256) set" where
  "check_access known seen access =
     (case access of (a, sa) \<Rightarrow>
        (err_if (a \<notin> known) (StorageAccessWithoutAccount a) @
         err_if ((a, sa_key sa) \<in> seen) (DuplicateStorageKey a (sa_key sa)),
         insert (a, sa_key sa) seen))"

definition validate_block_access_list :: "BlockAccessList \<Rightarrow> BlockAccessListError list + unit" where
  "validate_block_access_list l =
     (case scan check_account {} (accessed_accounts l) of (account_errors, known) \<Rightarrow>
        finish (err_if (accessed_accounts l = []) EmptyAccessList @ account_errors @
          fst (scan (check_access known) {} (storage_accesses l))))"

section \<open>The hash\<close>

definition encode_accessed_account :: "AccessedAccount \<Rightarrow> bytes" where
  "encode_accessed_account account =
     be_bytes (acc_address account) @ counted be_bytes (storage_keys account) @
     opt_bytes be_bytes (post_balance account) @ opt_bytes be_bytes (post_nonce account) @
     opt_bytes be_bytes (post_code_hash account)"

definition encode_storage_access :: "Address \<times> StorageAccess \<Rightarrow> bytes" where
  "encode_storage_access access =
     (case access of (a, sa) \<Rightarrow>
        be_bytes a @ be_bytes (sa_key sa) @ be_bytes (pre_value sa) @ be_bytes (post_value sa))"

definition sort_account_keys :: "AccessedAccount \<Rightarrow> AccessedAccount" where
  "sort_account_keys account = account\<lparr>storage_keys := sort (storage_keys account)\<rparr>"

definition access_sort_key :: "Address \<times> StorageAccess \<Rightarrow> Address \<times> B256 \<times> B256 \<times> B256" where
  "access_sort_key access =
     (fst access, sa_key (snd access), pre_value (snd access), post_value (snd access))"

definition access_list_payload :: "BlockAccessList \<Rightarrow> bytes" where
  "access_list_payload l =
     ascii ''eip7928'' @ be_bytes (bal_block_number l) @
     counted encode_accessed_account (map sort_account_keys (sort_key acc_address (accessed_accounts l))) @
     counted encode_storage_access (sort_key access_sort_key (storage_accesses l))"

definition compute_access_list_hash :: "(bytes \<Rightarrow> B256) \<Rightarrow> BlockAccessList \<Rightarrow> B256" where
  "compute_access_list_hash sha l = sha (access_list_payload l)"

definition compute_access_list_stats :: "BlockAccessList \<Rightarrow> AccessListStats" where
  "compute_access_list_stats l =
     (let modified = length (filter (\<lambda>(_, sa). pre_value sa \<noteq> post_value sa) (storage_accesses l)) in
      \<lparr>stats_block_number = bal_block_number l,
       unique_account_count = card (set (map acc_address (accessed_accounts l))),
       total_storage_accesses = length (storage_accesses l),
       modified_storage_count = modified,
       read_only_storage_count = length (storage_accesses l) - modified\<rparr>)"

section \<open>Merging\<close>

type_synonym account_map = "(Address \<times> AccessedAccount) list"
type_synonym access_map = "((Address \<times> B256) \<times> StorageAccess) list"

definition merged_entry :: "account_map \<Rightarrow> Address \<Rightarrow> AccessedAccount" where
  "merged_entry accounts a =
     (case map_of accounts a of
        Some m \<Rightarrow> m
      | None \<Rightarrow> \<lparr>acc_address = a, storage_keys = [], post_balance = None, post_nonce = None,
                 post_code_hash = None\<rparr>)"

definition merge_account :: "AccessedAccount \<Rightarrow> account_map \<Rightarrow> account_map" where
  "merge_account account accounts =
     (let a = acc_address account; m = merged_entry accounts a in
      bt_insert a (m\<lparr>storage_keys := storage_keys m @ storage_keys account,
        post_balance := post_balance account, post_nonce := post_nonce account,
        post_code_hash := post_code_hash account\<rparr>) accounts)"

definition merge_access ::
    "Address \<times> StorageAccess \<Rightarrow> account_map \<times> access_map \<Rightarrow> account_map \<times> access_map" where
  "merge_access access maps =
     (case (access, maps) of ((a, sa), (accounts, accesses)) \<Rightarrow>
        let m = merged_entry accounts a in
        (bt_insert a (m\<lparr>storage_keys := storage_keys m @ [sa_key sa]\<rparr>) accounts,
         bt_insert (a, sa_key sa) sa accesses))"

definition merge_list :: "BlockAccessList \<Rightarrow> account_map \<times> access_map \<Rightarrow> account_map \<times> access_map" where
  "merge_list l maps =
     (case maps of (accounts, accesses) \<Rightarrow>
        fold merge_access (storage_accesses l)
          (fold merge_account (accessed_accounts l) accounts, accesses))"

definition dedup_keys :: "AccessedAccount \<Rightarrow> AccessedAccount" where
  "dedup_keys account = account\<lparr>storage_keys := remdups_adj (sort (storage_keys account))\<rparr>"

definition merge_access_lists :: "BlockAccessList list \<Rightarrow> BlockAccessList" where
  "merge_access_lists ls =
     (case fold merge_list ls ([], []) of (accounts, accesses) \<Rightarrow>
        \<lparr>bal_block_number = (if ls = [] then 0 else bal_block_number (last ls)),
         accessed_accounts = map (\<lambda>(_, account). dedup_keys account) accounts,
         storage_accesses = map (\<lambda>((a, _), sa). (a, sa)) accesses\<rparr>)"

section \<open>What validation establishes\<close>

interpretation keys: key_scan "check_key a" "\<lambda>key. key" "\<lambda>_. True" for a
  by unfold_locales (auto simp: check_key_def)

interpretation accts: key_scan check_account acc_address "\<lambda>account. distinct (storage_keys account)"
  by unfold_locales (auto simp: check_account_def keys.scan_all)

interpretation accesses: key_scan "check_access known" "\<lambda>access. (fst access, sa_key (snd access))"
  "\<lambda>access. fst access \<in> known" for known
  by unfold_locales (auto simp: check_access_def)

definition well_formed :: "BlockAccessList \<Rightarrow> bool" where
  "well_formed l \<longleftrightarrow>
     accessed_accounts l \<noteq> [] \<and> distinct (map acc_address (accessed_accounts l)) \<and>
     (\<forall>account \<in> set (accessed_accounts l). distinct (storage_keys account)) \<and>
     distinct (map (\<lambda>access. (fst access, sa_key (snd access))) (storage_accesses l)) \<and>
     fst ` set (storage_accesses l) \<subseteq> acc_address ` set (accessed_accounts l)"

lemma validate_access_list_iff: "validate_block_access_list l = Inr () \<longleftrightarrow> well_formed l"
proof -
  obtain errs known where s: "scan check_account {} (accessed_accounts l) = (errs, known)" by fastforce
  have "errs = [] \<longleftrightarrow> (\<forall>account \<in> set (accessed_accounts l). distinct (storage_keys account)) \<and>
      distinct (map acc_address (accessed_accounts l))"
    using accts.scan_all [of "accessed_accounts l"] by (simp add: s)
  moreover have "known = acc_address ` set (accessed_accounts l)"
    using accts.scan_seen [of "{}" "accessed_accounts l"] by (simp add: s)
  ultimately show ?thesis
    by (auto simp: validate_block_access_list_def s accesses.scan_all well_formed_def)
qed

section \<open>The hash is canonical\<close>

text \<open>What an access list says, without the order in which it says it.\<close>

definition account_view ::
    "AccessedAccount \<Rightarrow> Address \<times> B256 set \<times> u128 option \<times> u64 option \<times> B256 option" where
  "account_view account =
     (acc_address account, set (storage_keys account), post_balance account, post_nonce account,
      post_code_hash account)"

definition same_contents :: "BlockAccessList \<Rightarrow> BlockAccessList \<Rightarrow> bool" where
  "same_contents l l' \<longleftrightarrow>
     bal_block_number l = bal_block_number l' \<and>
     account_view ` set (accessed_accounts l) = account_view ` set (accessed_accounts l') \<and>
     set (storage_accesses l) = set (storage_accesses l')"

definition counts_fit :: "BlockAccessList \<Rightarrow> bool" where
  "counts_fit l \<longleftrightarrow> length (accessed_accounts l) < 2 ^ 64 \<and> length (storage_accesses l) < 2 ^ 64 \<and>
     (\<forall>account \<in> set (accessed_accounts l). length (storage_keys account) < 2 ^ 64)"

lemma account_code_split:
  assumes "length (storage_keys a) < 2 ^ 64" and "length (storage_keys b) < 2 ^ 64"
    and "encode_accessed_account a @ us = encode_accessed_account b @ vs"
  shows "a = b \<and> us = vs"
proof -
  let ?rest = "\<lambda>a us. opt_bytes be_bytes (post_balance a) @ opt_bytes be_bytes (post_nonce a) @
      opt_bytes be_bytes (post_code_hash a) @ us"
  have addr: "acc_address a = acc_address b"
    and "counted be_bytes (storage_keys a) @ ?rest a us = counted be_bytes (storage_keys b) @ ?rest b vs"
    using assms(3) by (simp_all add: encode_accessed_account_def)
  with b256.counted_split [OF assms(1,2), of "?rest a us" "?rest b vs"]
  have keys: "storage_keys a = storage_keys b" and rest: "?rest a us = ?rest b vs" by simp_all
  from u128.option_split [OF _ _ rest]
  have bal: "post_balance a = post_balance b" and rest1: "opt_bytes be_bytes (post_nonce a) @
      opt_bytes be_bytes (post_code_hash a) @ us = opt_bytes be_bytes (post_nonce b) @
      opt_bytes be_bytes (post_code_hash b) @ vs"
    by (simp_all add: option.pred_True)
  from u64.option_split [OF _ _ rest1]
  have nonce: "post_nonce a = post_nonce b" and rest2: "opt_bytes be_bytes (post_code_hash a) @ us =
      opt_bytes be_bytes (post_code_hash b) @ vs"
    by (simp_all add: option.pred_True)
  from b256.option_split [OF _ _ rest2]
  have "post_code_hash a = post_code_hash b" and "us = vs" by (simp_all add: option.pred_True)
  with addr keys bal nonce show ?thesis by simp
qed

interpretation account_code: prefix_code encode_accessed_account "\<lambda>a. length (storage_keys a) < 2 ^ 64"
  by unfold_locales (rule account_code_split)

interpretation access_code: prefix_code encode_storage_access "\<lambda>_. True"
  by unfold_locales (auto simp: encode_storage_access_def split: prod.splits)

lemma payload_sorted:
  assumes "counts_fit l" and "counts_fit l'"
  shows "access_list_payload l = access_list_payload l' \<longleftrightarrow>
    bal_block_number l = bal_block_number l' \<and>
    map sort_account_keys (sort_key acc_address (accessed_accounts l)) =
      map sort_account_keys (sort_key acc_address (accessed_accounts l')) \<and>
    sort_key access_sort_key (storage_accesses l) = sort_key access_sort_key (storage_accesses l')"
    (is "_ \<longleftrightarrow> _ \<and> ?A l = ?A l' \<and> ?S l = ?S l'")
proof
  have len: "length (?A l) < 2 ^ 64" "length (?S l) < 2 ^ 64"
      "\<forall>a \<in> set (?A l). length (storage_keys a) < 2 ^ 64" if "counts_fit l" for l
    using that by (auto simp: counts_fit_def sort_account_keys_def)
  assume "access_list_payload l = access_list_payload l'"
  then have num: "bal_block_number l = bal_block_number l'"
    and rest: "counted encode_accessed_account (?A l) @ counted encode_storage_access (?S l) =
      counted encode_accessed_account (?A l') @ counted encode_storage_access (?S l')"
    by (simp_all add: access_list_payload_def)
  have "?A l = ?A l' \<and> counted encode_storage_access (?S l) = counted encode_storage_access (?S l')"
    using len [OF assms(1)] len [OF assms(2)] by (intro account_code.counted_split [OF _ _ _ rest]) auto
  moreover from this have "?S l = ?S l'"
    using access_code.counted_split [of "?S l" "?S l'" "[]" "[]"] len [OF assms(1)] len [OF assms(2)] by simp
  ultimately show "bal_block_number l = bal_block_number l' \<and> ?A l = ?A l' \<and> ?S l = ?S l'"
    using num by blast
qed (simp add: access_list_payload_def)

text \<open>Sorting by an injective key depends on the elements only.\<close>

lemma sort_key_unique:
  assumes "distinct (map f xs)" and "distinct (map f ys)" and "set xs = set ys"
  shows "sort_key f xs = sort_key f ys"
proof (rule map_sorted_distinct_set_unique)
  show "inj_on f (set (sort_key f xs) \<union> set (sort_key f ys))"
    using assms by (simp add: distinct_map)
  show "distinct (map f (sort_key f xs))" and "distinct (map f (sort_key f ys))"
    using assms(1,2) by (auto simp: distinct_map intro: inj_on_subset)
qed (simp_all add: assms(3))

lemma view_of_sorted: "account_view (sort_account_keys a) = account_view a"
  by (simp add: account_view_def sort_account_keys_def)

lemma sorted_of_view:
  assumes "distinct (storage_keys a)" and "distinct (storage_keys b)" and "account_view a = account_view b"
  shows "sort_account_keys a = sort_account_keys b"
proof -
  have "sort (storage_keys a) = sort (storage_keys b)"
    using assms sort_key_unique [of "\<lambda>k. k" "storage_keys a" "storage_keys b"] by (simp add: account_view_def)
  with assms(3) show ?thesis by (simp add: account_view_def sort_account_keys_def)
qed

lemma sorted_accounts_unique:
  assumes "well_formed l" and "well_formed l'"
    and "account_view ` set (accessed_accounts l) = account_view ` set (accessed_accounts l')"
  shows "map sort_account_keys (sort_key acc_address (accessed_accounts l)) =
    map sort_account_keys (sort_key acc_address (accessed_accounts l'))"
proof -
  let ?m = "\<lambda>l. map sort_account_keys (accessed_accounts l)"
  have key: "acc_address (sort_account_keys a) = acc_address a" for a
    by (simp add: sort_account_keys_def)
  have swap: "map sort_account_keys (sort_key acc_address xs) = sort_key acc_address (map sort_account_keys xs)" for xs
  proof -
    have ins: "map sort_account_keys (insort_key acc_address a ys) =
        insort_key acc_address (sort_account_keys a) (map sort_account_keys ys)" for a ys
      by (induction ys) (simp_all add: key)
    show ?thesis by (induction xs) (simp_all add: ins)
  qed
  have sub: "set (?m l1) \<subseteq> set (?m l2)" if "well_formed l1" "well_formed l2"
    "account_view ` set (accessed_accounts l1) \<subseteq> account_view ` set (accessed_accounts l2)" for l1 l2
  proof
    fix x
    assume "x \<in> set (?m l1)"
    then obtain a where a: "a \<in> set (accessed_accounts l1)" "x = sort_account_keys a" by auto
    then have "account_view a \<in> account_view ` set (accessed_accounts l2)"
      using that(3) by (meson image_eqI subsetD)
    then obtain b where b: "b \<in> set (accessed_accounts l2)" "account_view a = account_view b" by auto
    have "distinct (storage_keys a)" and "distinct (storage_keys b)"
      using a(1) b(1) that(1,2) by (simp_all add: well_formed_def)
    from sorted_of_view [OF this b(2)] a(2) b(1) show "x \<in> set (?m l2)" by simp
  qed
  have "set (?m l) = set (?m l')"
    using sub [OF assms(1,2)] sub [OF assms(2,1)] assms(3) by (metis order_refl subset_antisym)
  moreover have "distinct (map acc_address (?m l))" if "well_formed l" for l
    using that by (simp add: well_formed_def comp_def key)
  ultimately show ?thesis
    unfolding swap using assms by (intro sort_key_unique) blast+
qed

text \<open>C32.  The hash of an access list commits to what the list says and to nothing else: the byte
  strings hashed for two valid lists are equal exactly when the lists have the same block
  number, the same accounts with the same sets of storage keys and the same post values,
  and the same storage accesses, in whatever order they are written.\<close>

theorem access_list_hash_canonical:
  assumes "validate_block_access_list l = Inr ()" and "validate_block_access_list l' = Inr ()"
    and "counts_fit l" and "counts_fit l'"
  shows "access_list_payload l = access_list_payload l' \<longleftrightarrow> same_contents l l'"
proof
  have wf: "well_formed l" "well_formed l'"
    using assms(1,2) by (simp_all add: validate_access_list_iff)
  have views: "account_view ` set (map sort_account_keys (sort_key acc_address xs)) = account_view ` set xs" for xs
    by (simp add: image_image view_of_sorted)
  show "same_contents l l'" if "access_list_payload l = access_list_payload l'"
  proof -
    from that have eqs: "bal_block_number l = bal_block_number l'"
      "map sort_account_keys (sort_key acc_address (accessed_accounts l)) =
        map sort_account_keys (sort_key acc_address (accessed_accounts l'))"
      "sort_key access_sort_key (storage_accesses l) = sort_key access_sort_key (storage_accesses l')"
      using payload_sorted [OF assms(3,4)] by blast+
    have "account_view ` set (accessed_accounts l) = account_view ` set (accessed_accounts l')"
      using views [of "accessed_accounts l"] views [of "accessed_accounts l'"] unfolding eqs(2) by simp
    moreover have "set (storage_accesses l) = set (storage_accesses l')"
      using eqs(3) by (metis set_sort)
    ultimately show ?thesis using eqs(1) by (simp add: same_contents_def)
  qed
  show "access_list_payload l = access_list_payload l'" if same: "same_contents l l'"
  proof -
    have "distinct (map access_sort_key (storage_accesses l))" if "well_formed l" for l
    proof -
      have "distinct (map (\<lambda>x. (fst x, fst (snd x))) (map access_sort_key (storage_accesses l)))"
        using that by (simp add: well_formed_def access_sort_key_def comp_def)
      then show ?thesis by (rule distinct_map [THEN iffD1, THEN conjunct1])
    qed
    then have "sort_key access_sort_key (storage_accesses l) = sort_key access_sort_key (storage_accesses l')"
      using wf same by (intro sort_key_unique) (simp_all add: same_contents_def)
    then show ?thesis
      using payload_sorted [OF assms(3,4)] same sorted_accounts_unique [OF wf] by (simp add: same_contents_def)
  qed
qed

section \<open>What a merge contains\<close>

definition access_entries :: "BlockAccessList \<Rightarrow> access_map" where
  "access_entries l = map (\<lambda>(a, sa). ((a, sa_key sa), sa)) (storage_accesses l)"

definition mentioned :: "BlockAccessList list \<Rightarrow> Address set" where
  "mentioned ls = (\<Union>l \<in> set ls. acc_address ` set (accessed_accounts l) \<union> fst ` set (storage_accesses l))"

definition maps_ok :: "account_map \<times> access_map \<Rightarrow> bool" where
  "maps_ok maps \<longleftrightarrow>
     (case maps of (accounts, accesses) \<Rightarrow>
        bt_inv accounts \<and> bt_inv accesses \<and>
        (\<forall>a m. map_of accounts a = Some m \<longrightarrow> acc_address m = a) \<and>
        (\<forall>a k sa. map_of accesses (a, k) = Some sa \<longrightarrow> sa_key sa = k \<and> map_of accounts a \<noteq> None))"

lemma merged_entry_address:
  "maps_ok (accounts, accesses) \<Longrightarrow> acc_address (merged_entry accounts a) = a"
  by (auto simp: merged_entry_def maps_ok_def split: option.splits)

lemma maps_ok_account:
  assumes "maps_ok (accounts, accesses)"
  shows "maps_ok (merge_account x accounts, accesses)"
  using assms merged_entry_address [OF assms, of "acc_address x"]
  by (auto simp: maps_ok_def merge_account_def Let_def)

lemma maps_ok_access:
  assumes "maps_ok maps"
  shows "maps_ok (merge_access x maps)"
proof -
  obtain accounts accesses a sa where x: "maps = (accounts, accesses)" "x = (a, sa)" by (cases maps, cases x)
  show ?thesis
    using assms merged_entry_address [of accounts accesses a]
    by (auto simp: x maps_ok_def merge_access_def Let_def)
qed

lemma maps_ok_list:
  assumes "maps_ok maps"
  shows "maps_ok (merge_list l maps)"
proof -
  obtain accounts accesses where m: "maps = (accounts, accesses)" by (cases maps)
  have "maps_ok (fold merge_account xs accounts, accesses)" for xs
    using assms unfolding m by (induction xs arbitrary: accounts) (simp_all add: maps_ok_account)
  moreover have "maps_ok m \<Longrightarrow> maps_ok (fold merge_access xs m)" for xs m
    by (induction xs arbitrary: m) (simp_all add: maps_ok_access)
  ultimately show ?thesis by (simp add: merge_list_def m)
qed

lemma maps_ok_merge: "maps_ok maps \<Longrightarrow> maps_ok (fold merge_list ls maps)"
  by (induction ls arbitrary: maps) (simp_all add: maps_ok_list)

text \<open>Which accounts appear, and whose access is kept.\<close>

lemma merge_accounts_dom: "fst ` set (fold merge_account xs m) = fst ` set m \<union> acc_address ` set xs"
  by (induction xs arbitrary: m) (auto simp: merge_account_def Let_def)

lemma merge_accesses_dom:
  "fst ` set (fst (fold merge_access xs maps)) = fst ` set (fst maps) \<union> fst ` set xs"
  by (induction xs arbitrary: maps) (auto simp: merge_access_def Let_def split: prod.splits)

lemma merge_lists_dom: "fst ` set (fst (fold merge_list ls maps)) = fst ` set (fst maps) \<union> mentioned ls"
proof (induction ls arbitrary: maps)
  case (Cons l ls)
  have "fst ` set (fst (merge_list l maps)) = fst ` set (fst maps) \<union> mentioned [l]"
    by (simp add: merge_list_def merge_accounts_dom merge_accesses_dom mentioned_def Un_assoc split: prod.splits)
  with Cons show ?case by (simp add: mentioned_def Un_assoc)
qed (simp add: mentioned_def)

lemma merge_accesses_last:
  "map_of (snd (fold merge_access xs maps)) =
     map_of (snd maps) ++ map_of (rev (map (\<lambda>(a, sa). ((a, sa_key sa), sa)) xs))"
proof (induction xs arbitrary: maps)
  case (Cons x xs)
  let ?e = "\<lambda>(a, sa). ((a, sa_key sa), sa)"
  have "map_of (snd (merge_access x maps)) = map_of (snd maps) ++ map_of [?e x]"
    by (cases x; cases maps) (simp add: merge_access_def Let_def)
  then have "map_of (snd (fold merge_access (x # xs) maps)) =
      (map_of (snd maps) ++ map_of [?e x]) ++ map_of (rev (map ?e xs))"
    by (simp only: fold_simps Cons.IH)
  then show ?case by (simp only: list.map rev.simps map_of_append map_add_assoc)
qed simp

lemma merge_lists_last:
  "map_of (snd (fold merge_list ls maps)) = map_of (snd maps) ++ map_of (rev (concat (map access_entries ls)))"
proof (induction ls arbitrary: maps)
  case (Cons l ls)
  have "map_of (snd (merge_list l maps)) = map_of (snd maps) ++ map_of (rev (access_entries l))"
    by (cases maps) (simp only: merge_list_def merge_accesses_last access_entries_def prod.case snd_conv)
  then have "map_of (snd (fold merge_list (l # ls) maps)) =
      (map_of (snd maps) ++ map_of (rev (access_entries l))) ++ map_of (rev (concat (map access_entries ls)))"
    by (simp only: fold_simps Cons.IH)
  then show ?case by (simp only: concat.simps list.map rev_append map_of_append map_add_assoc)
qed simp

lemma address_dedup [simp]: "acc_address (dedup_keys m) = acc_address m"
  by (simp add: dedup_keys_def)

lemma distinct_dedup_sorted: "sorted xs \<Longrightarrow> distinct (remdups_adj xs)"
  by (induction xs rule: remdups_adj.induct) auto

lemma distinct_dedup: "distinct (storage_keys (dedup_keys m))"
  by (simp add: dedup_keys_def distinct_dedup_sorted)

text \<open>Merging access lists gives a list that passes validation (unless nothing was accessed
  at all): it has one entry for each account that any of the lists mentions, and for each
  storage slot exactly the access recorded by the last list that mentions it, so earlier
  values of the slot, its original pre-value included, are dropped.\<close>

theorem merge_access_lists_spec:
  "validate_block_access_list (merge_access_lists ls) =
     (if mentioned ls = {} then Inl [EmptyAccessList] else Inr ()) \<and>
   acc_address ` set (accessed_accounts (merge_access_lists ls)) = mentioned ls \<and>
   map_of (access_entries (merge_access_lists ls)) = map_of (rev (concat (map access_entries ls)))"
proof -
  obtain accounts accesses where m: "fold merge_list ls ([], []) = (accounts, accesses)" by fastforce
  let ?l = "merge_access_lists ls"
  have acc: "accessed_accounts ?l = map (\<lambda>(_, x). dedup_keys x) accounts"
    and sto: "storage_accesses ?l = map (\<lambda>((a, _), sa). (a, sa)) accesses"
    by (simp_all add: merge_access_lists_def m)
  have "maps_ok (accounts, accesses)"
    using maps_ok_merge [of "([], [])" ls] by (simp add: m maps_ok_def)
  then have inv: "bt_inv accounts" "bt_inv accesses"
    and adr: "(a, x) \<in> set accounts \<Longrightarrow> acc_address x = a"
    and key: "((a, k), sa) \<in> set accesses \<Longrightarrow> sa_key sa = k \<and> a \<in> fst ` set accounts" for a x k sa
    by (auto simp: maps_ok_def bt_mem_iff map_of_eq_None_iff)
  have addresses: "map acc_address (accessed_accounts ?l) = map fst accounts"
    unfolding acc by (auto simp: adr)
  have entries: "access_entries ?l = accesses"
    unfolding access_entries_def sto by (simp, rule map_idI) (auto dest: key)
  have dom: "fst ` set accounts = mentioned ls"
    using merge_lists_dom [of ls "([], [])"] by (simp add: m)
  have none: "accessed_accounts ?l = [] \<longleftrightarrow> mentioned ls = {}"
    unfolding acc dom [symmetric] by simp
  have "map (\<lambda>access. (fst access, sa_key (snd access))) (storage_accesses ?l) = map fst accesses"
    unfolding sto by (auto dest: key)
  moreover have "fst ` set (storage_accesses ?l) \<subseteq> fst ` set accounts"
    unfolding sto by (auto dest: key)
  moreover have img: "acc_address ` set (accessed_accounts ?l) = fst ` set accounts"
    using addresses by (metis list.set_map)
  ultimately have wf: "well_formed ?l \<longleftrightarrow> mentioned ls \<noteq> {}"
    using bt_inv_distinct [OF inv(1)] bt_inv_distinct [OF inv(2)] none
    unfolding well_formed_def addresses by (simp add: acc distinct_dedup split: prod.splits)
  have "validate_block_access_list ?l = (if mentioned ls = {} then Inl [EmptyAccessList] else Inr ())"
  proof (cases "mentioned ls = {}")
    case True
    then have "accounts = []" using dom by auto
    moreover from this have "accesses = []"
      using key by (metis empty_iff image_empty list.set(1) list.set_intros(1) neq_Nil_conv old.prod.exhaust)
    ultimately show ?thesis
      using True by (simp add: validate_block_access_list_def acc sto finish_def err_if_def)
  qed (use wf in \<open>simp add: validate_access_list_iff\<close>)
  moreover have "map_of accesses = map_of (rev (concat (map access_entries ls)))"
    using merge_lists_last [of ls "([], [])"] by (simp add: m)
  ultimately show ?thesis
    using img dom entries by simp
qed

definition sample_access_list :: "u64 \<Rightarrow> Address list \<Rightarrow> BlockAccessList" where
  "sample_access_list n as =
     \<lparr>bal_block_number = n,
      accessed_accounts = map (\<lambda>a. \<lparr>acc_address = a, storage_keys = [1, 2], post_balance = None,
        post_nonce = Some 3, post_code_hash = None\<rparr>) as,
      storage_accesses = []\<rparr>"

theorem access_list_hash_canonical_witness:
  "access_list_payload (sample_access_list 7 [1, 2]) = access_list_payload (sample_access_list 7 [2, 1])"
proof -
  have "validate_block_access_list (sample_access_list 7 as) = Inr ()" if "as \<noteq> []" "distinct as" for as
    using that by (simp add: validate_access_list_iff well_formed_def sample_access_list_def comp_def)
  moreover have "counts_fit (sample_access_list 7 as)" if "length as < 2 ^ 64" for as
    using that by (simp add: counts_fit_def sample_access_list_def)
  moreover have "same_contents (sample_access_list 7 [1, 2]) (sample_access_list 7 [2, 1])"
    by (simp add: same_contents_def sample_access_list_def insert_commute)
  ultimately show ?thesis
    using access_list_hash_canonical [of "sample_access_list 7 [1, 2]" "sample_access_list 7 [2, 1]"] by simp
qed

end
