(* ===== verification/Lanes.thy ===== *)
theory Lanes
  imports Validation
begin

text \<open>
  Parallel execution lanes (EIP-8142), \<open>crates/eth2077-execution/src/eip8142.rs\<close>: the
  classification of a transaction, the assignment of a batch to lanes with its capacity and
  conflict checks, and the detection of conflicts between lanes.  The order in which a
  \<open>HashSet\<close> of keys is visited is the parameter \<open>it\<close>.  The floating-point statistics
  (\<open>compute_lane_stats\<close>, \<open>compute_parallelism_ratio\<close>) are not modelled.
\<close>

datatype LaneId = Transfer | TokenOps | DeFi | StateHeavy | SystemOps | BlobCarrying | Uncategorized

record LaneAssignment =
  la_tx_hash :: B256
  assigned_lane :: LaneId
  state_keys_accessed :: "B256 list"
  conflict_set :: "B256 set"
  gas_estimate :: u64

datatype LaneAssignmentError =
    EmptyTransaction
  | ConflictDetected B256 B256 B256
  | LaneCapacityExceeded LaneId nat nat
  | InvalidStateKeys

record LaneConfig =
  max_txs_per_lane :: nat
  max_total_gas_per_lane :: u64
  enable_conflict_detection :: bool
  parallel_lanes :: nat

definition default_lane_config :: LaneConfig where
  "default_lane_config =
     \<lparr>max_txs_per_lane = 128, max_total_gas_per_lane = 15000000, enable_conflict_detection = True,
      parallel_lanes = 4\<rparr>"

section \<open>Classification\<close>

definition is_system_address :: "Address \<Rightarrow> bool" where
  "is_system_address a \<longleftrightarrow>
     (\<forall>b \<in> set (take 19 (be_bytes a)). b = 0) \<and> 1 \<le> be_bytes a ! 19 \<and> be_bytes a ! 19 \<le> 0x20"

definition is_token_selector :: "bytes \<Rightarrow> bool" where
  "is_token_selector selector \<longleftrightarrow> selector \<in>
     {[0x09, 0x5E, 0xA7, 0xB3], [0xA9, 0x05, 0x9C, 0xBB], [0x23, 0xB8, 0x72, 0xDD],
      [0xA2, 0x2C, 0xB4, 0x65], [0x42, 0x84, 0x2E, 0x0E], [0xB8, 0x8D, 0x4F, 0xDE],
      [0xF2, 0x42, 0x43, 0x2A]}"

definition is_defi_selector :: "bytes \<Rightarrow> bool" where
  "is_defi_selector selector \<longleftrightarrow> selector \<in>
     {[0x38, 0xED, 0x17, 0x39], [0x18, 0xCB, 0xAF, 0xE5], [0x7F, 0xF3, 0x6A, 0xB5],
      [0x41, 0x4B, 0xF3, 0x89], [0x5C, 0x11, 0xD7, 0x95], [0xAC, 0x96, 0x50, 0xD8]}"

definition classify_transaction :: "Address \<Rightarrow> bytes \<Rightarrow> u128 \<Rightarrow> u8 \<Rightarrow> LaneId" where
  "classify_transaction to_address calldata val tx_type =
     (if tx_type = 0x03 then BlobCarrying
      else if is_system_address to_address then SystemOps
      else if calldata = [] \<and> 0 < val then Transfer
      else if 1024 < length calldata then StateHeavy
      else if 4 \<le> length calldata \<and> is_token_selector (take 4 calldata) then TokenOps
      else if 4 \<le> length calldata \<and> is_defi_selector (take 4 calldata) then DeFi
      else if be_bytes to_address ! 0 = 0xDE \<and> be_bytes to_address ! 1 = 0xF1 then DeFi
      else if be_bytes to_address ! 0 = 0x7E \<and> be_bytes to_address ! 1 = 0x20 then TokenOps
      else Uncategorized)"

section \<open>Assignment\<close>

definition normalize_keys :: "LaneAssignment \<Rightarrow> LaneAssignmentError + B256 set" where
  "normalize_keys a =
     (if 0 \<in> set (state_keys_accessed a) \<union> conflict_set a then Inl InvalidStateKeys
      else Inr (set (state_keys_accessed a) \<union> conflict_set a))"

record lane_state =
  grouped :: "(LaneId, nat list) hashmap"
  lane_gas :: "(LaneId, u64) hashmap"
  lane_keys :: "(LaneId, (B256, B256) hashmap) hashmap"

text \<open>\<open>map.entry(k).or_default()\<close>, read.\<close>

definition or_default :: "'v \<Rightarrow> ('k, 'v) hashmap \<Rightarrow> 'k \<Rightarrow> 'v" where
  "or_default d m k = (case map_of m k of Some v \<Rightarrow> v | None \<Rightarrow> d)"

definition check_conflict ::
    "B256 \<Rightarrow> (B256, B256) hashmap \<Rightarrow> B256 \<Rightarrow> LaneAssignmentError list \<times> (B256, B256) hashmap" where
  "check_conflict tx key_index key =
     (case map_of key_index key of
        Some existing \<Rightarrow> (err_if (existing \<noteq> tx) (ConflictDetected existing tx key), key_index)
      | None \<Rightarrow> ([], hm_insert key tx key_index))"

definition assign_step ::
    "(B256 set \<Rightarrow> B256 list) \<Rightarrow> LaneConfig \<Rightarrow> lane_state \<Rightarrow> nat \<times> LaneAssignment \<Rightarrow>
      LaneAssignmentError list \<times> lane_state" where
  "assign_step it config st entry =
     (case entry of (index, a) \<Rightarrow>
        if la_tx_hash a = 0 then ([EmptyTransaction], st)
        else case normalize_keys a of
          Inl err \<Rightarrow> ([err], st)
        | Inr keys \<Rightarrow>
            let lane = assigned_lane a;
                entries = or_default [] (grouped st) lane;
                next_count = Suc (length entries);
                next_gas = sat_add (or_default 0 (lane_gas st) lane) (gas_estimate a);
                (conflicts, index') =
                  (if enable_conflict_detection config
                   then scan (check_conflict (la_tx_hash a)) (or_default [] (lane_keys st) lane) (it keys)
                   else ([], or_default [] (lane_keys st) lane))
            in (err_if (max_txs_per_lane config < next_count)
                  (LaneCapacityExceeded lane next_count (max_txs_per_lane config)) @
                err_if (max_total_gas_per_lane config < next_gas)
                  (LaneCapacityExceeded lane (unat next_gas) (unat (max_total_gas_per_lane config))) @
                conflicts,
                \<lparr>grouped = hm_insert lane (entries @ [index]) (grouped st),
                 lane_gas = hm_insert lane next_gas (lane_gas st),
                 lane_keys = hm_insert lane index' (lane_keys st)\<rparr>))"

definition assign_to_lanes ::
    "(B256 set \<Rightarrow> B256 list) \<Rightarrow> LaneAssignment list \<Rightarrow> LaneConfig \<Rightarrow>
      LaneAssignmentError list + (LaneId, nat list) hashmap" where
  "assign_to_lanes it assignments config =
     (case scan (assign_step it config) \<lparr>grouped = [], lane_gas = [], lane_keys = []\<rparr>
             (enumerate 0 assignments) of
        (errors, st) \<Rightarrow> if errors = [] then Inr (grouped st) else Inl errors)"

section \<open>Conflicts between lanes\<close>

definition keys_or_none :: "LaneAssignment \<Rightarrow> B256 set" where
  "keys_or_none a = (case normalize_keys a of Inr keys \<Rightarrow> keys | Inl _ \<Rightarrow> {})"

definition pair_conflict :: "LaneAssignment list \<Rightarrow> nat \<Rightarrow> nat \<Rightarrow> (nat \<times> nat \<times> B256) list" where
  "pair_conflict as i j =
     (if assigned_lane (as ! i) = assigned_lane (as ! j) then []
      else case find (\<lambda>key. key \<in> keys_or_none (as ! j)) (sorted_list_of_set (keys_or_none (as ! i))) of
        Some key \<Rightarrow> [(i, j, key)]
      | None \<Rightarrow> [])"

definition detect_cross_lane_conflicts :: "LaneAssignment list \<Rightarrow> (nat \<times> nat \<times> B256) list" where
  "detect_cross_lane_conflicts as =
     concat (map (\<lambda>i. concat (map (pair_conflict as i) [Suc i..<length as])) [0..<length as])"

fun lane_discriminant :: "LaneId \<Rightarrow> u8" where
  "lane_discriminant Transfer = 0"
| "lane_discriminant TokenOps = 1"
| "lane_discriminant DeFi = 2"
| "lane_discriminant StateHeavy = 3"
| "lane_discriminant SystemOps = 4"
| "lane_discriminant BlobCarrying = 5"
| "lane_discriminant Uncategorized = 6"

definition compute_lane_commitment :: "(bytes \<Rightarrow> B256) \<Rightarrow> LaneId \<Rightarrow> B256 list \<Rightarrow> B256" where
  "compute_lane_commitment sha lane tx_hashes =
     sha (lane_discriminant lane # concat (map be_bytes (sort tx_hashes)))"

section \<open>What a successful assignment means\<close>

definition set_order :: "(B256 set \<Rightarrow> B256 list) \<Rightarrow> bool" where
  "set_order it \<longleftrightarrow> (\<forall>S. finite S \<longrightarrow> set (it S) = S \<and> distinct (it S))"

definition all_keys :: "LaneAssignment \<Rightarrow> B256 set" where
  "all_keys a = set (state_keys_accessed a) \<union> conflict_set a"

definition in_lane :: "LaneAssignment list \<Rightarrow> LaneId \<Rightarrow> nat list" where
  "in_lane as lane = filter (\<lambda>i. assigned_lane (as ! i) = lane) [0..<length as]"

definition lane_total :: "LaneAssignment list \<Rightarrow> LaneId \<Rightarrow> nat" where
  "lane_total as lane = (\<Sum>a\<leftarrow>filter (\<lambda>a. assigned_lane a = lane) as. unat (gas_estimate a))"

lemma or_default_insert:
  "or_default d (hm_insert k v m) k' = (if k' = k then v else or_default d m k')"
  by (simp add: or_default_def)

lemma in_lane_snoc:
  "in_lane (as @ [a]) lane = in_lane as lane @ (if assigned_lane a = lane then [length as] else [])"
proof -
  have "filter (\<lambda>i. assigned_lane ((as @ [a]) ! i) = lane) [0..<length as] = in_lane as lane"
    unfolding in_lane_def by (rule filter_cong) (simp_all add: nth_append)
  then show ?thesis by (simp add: in_lane_def)
qed

lemma check_conflict_cases:
  "fst (check_conflict tx m k) = [] \<longleftrightarrow> map_of m k \<in> {None, Some tx}"
  "fst (check_conflict tx m k) = [] \<Longrightarrow> map_of (snd (check_conflict tx m k)) = (map_of m)(k \<mapsto> tx)"
  by (auto simp: check_conflict_def fun_eq_iff split: option.splits)

lemma check_conflicts_pass:
  "fst (scan (check_conflict tx) m ks) = [] \<Longrightarrow>
     map_of (snd (scan (check_conflict tx) m ks)) k = (if k \<in> set ks then Some tx else map_of m k) \<and>
     (k \<in> set ks \<longrightarrow> map_of m k \<in> {None, Some tx})"
proof (induction ks arbitrary: m)
  case (Cons k' ks)
  have one: "fst (check_conflict tx m k') = []"
    and rest: "fst (scan (check_conflict tx) (snd (check_conflict tx m k')) ks) = []"
    using Cons.prems unfolding fst_scan_Cons by simp_all
  from Cons.IH [OF rest] check_conflict_cases [of tx m k'] one show ?case
    unfolding snd_scan_Cons by (auto split: if_splits)
qed simp

text \<open>
  The loop's memory after a prefix without errors: the lanes' indices, the saturated sums
  of gas, and for each key used in a lane the transaction that used it.
\<close>

definition lanes_inv :: "LaneConfig \<Rightarrow> LaneAssignment list \<Rightarrow> lane_state \<Rightarrow> bool" where
  "lanes_inv config as st \<longleftrightarrow>
     (\<forall>lane. or_default [] (grouped st) lane = in_lane as lane \<and>
        length (in_lane as lane) \<le> max_txs_per_lane config \<and>
        unat (or_default 0 (lane_gas st) lane) = min (lane_total as lane) (2 ^ 64 - 1) \<and>
        or_default 0 (lane_gas st) lane \<le> max_total_gas_per_lane config) \<and>
     (enable_conflict_detection config \<longrightarrow>
        (\<forall>a \<in> set as. \<forall>k \<in> all_keys a.
           map_of (or_default [] (lane_keys st) (assigned_lane a)) k = Some (la_tx_hash a)))"

lemma assign_step_inv:
  assumes "lanes_inv config as st" and "set_order it" and "finite (all_keys a)"
    and "assign_step it config st (length as, a) = ([], st')"
  shows "lanes_inv config (as @ [a]) st'"
proof -
  let ?lane = "assigned_lane a"
  let ?entries = "or_default [] (grouped st) ?lane"
  let ?gas = "sat_add (or_default 0 (lane_gas st) ?lane) (gas_estimate a)"
  let ?keys = "or_default [] (lane_keys st) ?lane"
  let ?scan = "if enable_conflict_detection config
     then scan (check_conflict (la_tx_hash a)) ?keys (it (all_keys a)) else ([], ?keys)"
  have st': "st' = \<lparr>grouped = hm_insert ?lane (?entries @ [length as]) (grouped st),
      lane_gas = hm_insert ?lane ?gas (lane_gas st),
      lane_keys = hm_insert ?lane (snd ?scan) (lane_keys st)\<rparr>"
    and caps: "Suc (length ?entries) \<le> max_txs_per_lane config" "?gas \<le> max_total_gas_per_lane config"
    and none: "fst ?scan = []"
    using assms(4)
    by (auto simp: assign_step_def normalize_keys_def all_keys_def Let_def not_less case_prod_unfold
        split: if_splits)
  have old: "or_default [] (grouped st) lane = in_lane as lane"
      "length (in_lane as lane) \<le> max_txs_per_lane config"
      "unat (or_default 0 (lane_gas st) lane) = min (lane_total as lane) (2 ^ 64 - 1)"
      "or_default 0 (lane_gas st) lane \<le> max_total_gas_per_lane config" for lane
    using assms(1) by (simp_all add: lanes_inv_def)
  have total: "lane_total (as @ [a]) lane =
      lane_total as lane + (if ?lane = lane then unat (gas_estimate a) else 0)" for lane
    by (simp add: lane_total_def)
  have "or_default [] (grouped st') lane = in_lane (as @ [a]) lane \<and>
      length (in_lane (as @ [a]) lane) \<le> max_txs_per_lane config \<and>
      unat (or_default 0 (lane_gas st') lane) = min (lane_total (as @ [a]) lane) (2 ^ 64 - 1) \<and>
      or_default 0 (lane_gas st') lane \<le> max_total_gas_per_lane config" for lane
    using caps old [of lane] old [of ?lane]
    by (cases "lane = ?lane") (simp_all add: st' or_default_insert in_lane_snoc total sat_simps)
  moreover have "map_of (or_default [] (lane_keys st') (assigned_lane b)) k = Some (la_tx_hash b)"
    if "enable_conflict_detection config" and "b \<in> set (as @ [a])" and "k \<in> all_keys b" for b k
  proof -
    have ks: "set (it (all_keys a)) = all_keys a" using assms(2,3) by (simp add: set_order_def)
    have new: "map_of (or_default [] (lane_keys st') ?lane) k =
        (if k \<in> all_keys a then Some (la_tx_hash a) else map_of ?keys k)" for k
      using none check_conflicts_pass [of "la_tx_hash a" ?keys "it (all_keys a)" k] that(1)
      by (simp add: st' or_default_insert ks)
    have "map_of (or_default [] (lane_keys st) (assigned_lane b)) k = Some (la_tx_hash b)" if "b \<in> set as"
      using assms(1) that \<open>enable_conflict_detection config\<close> \<open>k \<in> all_keys b\<close> by (simp add: lanes_inv_def)
    moreover have "la_tx_hash b = la_tx_hash a" if "map_of ?keys k = Some (la_tx_hash b)" "k \<in> all_keys a"
      using none check_conflicts_pass [of "la_tx_hash a" ?keys "it (all_keys a)" k] that
        \<open>enable_conflict_detection config\<close> ks by simp
    ultimately show ?thesis
      using that new by (cases "assigned_lane b = ?lane") (auto simp: st' or_default_insert)
  qed
  ultimately show ?thesis by (simp add: lanes_inv_def)
qed

lemma assign_all_inv:
  assumes "set_order it" and "\<forall>a \<in> set as. finite (all_keys a)"
    and "scan (assign_step it config) \<lparr>grouped = [], lane_gas = [], lane_keys = []\<rparr> (enumerate 0 as) = ([], st)"
  shows "lanes_inv config as st"
  using assms(2,3)
proof (induction as arbitrary: st rule: rev_induct)
  case Nil
  then show ?case by (auto simp: lanes_inv_def or_default_def in_lane_def lane_total_def)
next
  case (snoc a as)
  obtain es st1 where s1: "scan (assign_step it config) \<lparr>grouped = [], lane_gas = [], lane_keys = []\<rparr>
      (enumerate 0 as) = (es, st1)" by fastforce
  have "es = []" and step: "assign_step it config st1 (length as, a) = ([], st)"
    using snoc.prems(2) by (auto simp: enumerate_append_eq scan_append s1 split: prod.splits)
  then have "lanes_inv config as st1" using snoc s1 by simp
  from assign_step_inv [OF this assms(1) _ step] snoc.prems(1) show ?case by simp
qed

lemma hashes_and_keys_ok:
  "fst (scan (assign_step it config) st xs) = [] \<Longrightarrow> (i, a) \<in> set xs \<Longrightarrow>
     la_tx_hash a \<noteq> 0 \<and> 0 \<notin> all_keys a"
proof (induction xs arbitrary: st)
  case (Cons x xs)
  have "fst (assign_step it config st x) = []"
    and rest: "fst (scan (assign_step it config) (snd (assign_step it config st x)) xs) = []"
    using Cons.prems(1) unfolding fst_scan_Cons by simp_all
  then have "la_tx_hash (snd x) \<noteq> 0 \<and> 0 \<notin> all_keys (snd x)"
    by (auto simp: assign_step_def normalize_keys_def all_keys_def split: prod.splits if_splits)
  with Cons.IH [OF rest] Cons.prems(2) show ?case by auto
qed simp

lemma find_Some_mem: "find P xs = Some x \<Longrightarrow> x \<in> set xs \<and> P x"
  by (induction xs) (auto split: if_splits)

lemma pair_conflict_iff:
  assumes "finite (keys_or_none (as ! i))"
  shows "pair_conflict as i j = [] \<longleftrightarrow>
    assigned_lane (as ! i) = assigned_lane (as ! j) \<or> keys_or_none (as ! i) \<inter> keys_or_none (as ! j) = {}"
proof (cases "find (\<lambda>key. key \<in> keys_or_none (as ! j)) (sorted_list_of_set (keys_or_none (as ! i)))")
  case None
  then have "keys_or_none (as ! i) \<inter> keys_or_none (as ! j) = {}"
    using assms by (auto simp: find_None_iff)
  with None show ?thesis by (simp add: pair_conflict_def)
next
  case (Some k)
  then have "k \<in> set (sorted_list_of_set (keys_or_none (as ! i)))" and "k \<in> keys_or_none (as ! j)"
    using find_Some_mem [OF Some] by simp_all
  with Some show ?thesis using assms by (auto simp: pair_conflict_def)
qed

lemma no_cross_conflicts_iff:
  assumes "\<forall>a \<in> set as. finite (keys_or_none a)"
  shows "detect_cross_lane_conflicts as = [] \<longleftrightarrow>
    (\<forall>i j. i < j \<and> j < length as \<longrightarrow> assigned_lane (as ! i) = assigned_lane (as ! j) \<or>
       keys_or_none (as ! i) \<inter> keys_or_none (as ! j) = {})"
proof -
  have "detect_cross_lane_conflicts as = [] \<longleftrightarrow>
      (\<forall>i < length as. \<forall>j. i < j \<and> j < length as \<longrightarrow> pair_conflict as i j = [])"
    by (simp add: detect_cross_lane_conflicts_def) (meson Suc_le_eq atLeastLessThan_iff le0)
  also have "\<dots> \<longleftrightarrow> (\<forall>i j. i < j \<and> j < length as \<longrightarrow> pair_conflict as i j = [])"
    by (meson order.strict_trans)
  also have "\<dots> \<longleftrightarrow> (\<forall>i j. i < j \<and> j < length as \<longrightarrow> assigned_lane (as ! i) = assigned_lane (as ! j) \<or>
       keys_or_none (as ! i) \<inter> keys_or_none (as ! j) = {})"
  proof -
    have "pair_conflict as i j = [] \<longleftrightarrow> assigned_lane (as ! i) = assigned_lane (as ! j) \<or>
       keys_or_none (as ! i) \<inter> keys_or_none (as ! j) = {}" if "i < j" "j < length as" for i j
      using that assms by (intro pair_conflict_iff) simp
    then show ?thesis by blast
  qed
  finally show ?thesis .
qed

lemma no_cross_conflicts_all:
  assumes "\<forall>a \<in> set as. finite (keys_or_none a)"
  shows "detect_cross_lane_conflicts as = [] \<longleftrightarrow>
    (\<forall>a \<in> set as. \<forall>b \<in> set as. assigned_lane a \<noteq> assigned_lane b \<longrightarrow> keys_or_none a \<inter> keys_or_none b = {})"
    (is "_ \<longleftrightarrow> ?all")
proof
  assume none: "detect_cross_lane_conflicts as = []"
  show ?all
  proof (intro ballI impI)
    fix a b
    assume "a \<in> set as" and "b \<in> set as" and lanes: "assigned_lane a \<noteq> assigned_lane b"
    then obtain i j where ij: "i < length as" "as ! i = a" "j < length as" "as ! j = b"
      by (metis in_set_conv_nth)
    then have "i < j \<or> j < i" using lanes by (metis nat_neq_iff)
    then show "keys_or_none a \<inter> keys_or_none b = {}"
      using none no_cross_conflicts_iff [OF assms] ij lanes by (metis inf_commute)
  qed
next
  assume ?all
  then show "detect_cross_lane_conflicts as = []"
    unfolding no_cross_conflicts_iff [OF assms] by (metis nth_mem order.strict_trans)
qed

text \<open>C33.  A batch that \<open>assign_to_lanes\<close> accepts is split correctly: each lane lists exactly the
  transactions assigned to it, in order, no more than the configured number, with a total
  gas within the limit (saturating at \<open>2 ^ 64 - 1\<close>).  With conflict detection no two
  different transactions of a lane touch a common key, whatever happens between lanes; and
  the cross-lane check reports nothing exactly when no two transactions of different lanes
  do.  With both, no two different transactions of the whole batch touch a common key, so
  any interleaving of the lanes gives them disjoint state.\<close>

theorem lanes_independent:
  assumes "assign_to_lanes it as config = Inr lanes" and "set_order it"
    and "\<forall>a \<in> set as. finite (all_keys a)"
  shows "(\<forall>lane. or_default [] lanes lane = in_lane as lane \<and>
      length (in_lane as lane) \<le> max_txs_per_lane config \<and>
      min (lane_total as lane) (2 ^ 64 - 1) \<le> unat (max_total_gas_per_lane config)) \<and>
    (enable_conflict_detection config \<longrightarrow>
      (\<forall>a \<in> set as. \<forall>b \<in> set as. assigned_lane a = assigned_lane b \<and> la_tx_hash a \<noteq> la_tx_hash b \<longrightarrow>
         all_keys a \<inter> all_keys b = {})) \<and>
    (detect_cross_lane_conflicts as = [] \<longleftrightarrow>
      (\<forall>a \<in> set as. \<forall>b \<in> set as. assigned_lane a \<noteq> assigned_lane b \<longrightarrow> all_keys a \<inter> all_keys b = {})) \<and>
    (enable_conflict_detection config \<and> detect_cross_lane_conflicts as = [] \<longrightarrow>
      (\<forall>a \<in> set as. \<forall>b \<in> set as. la_tx_hash a \<noteq> la_tx_hash b \<longrightarrow> all_keys a \<inter> all_keys b = {}))"
proof -
  let ?start = "\<lparr>grouped = [], lane_gas = [], lane_keys = []\<rparr>"
  obtain st where st: "scan (assign_step it config) ?start (enumerate 0 as) = ([], st)" "lanes = grouped st"
    using assms(1) by (auto simp: assign_to_lanes_def split: prod.splits if_splits)
  have inv: "lanes_inv config as st"
    by (rule assign_all_inv [OF assms(2,3) st(1)])
  have nonzero: "0 \<notin> all_keys a" if "a \<in> set as" for a
  proof -
    obtain i where "(i, a) \<in> set (enumerate 0 as)"
      using \<open>a \<in> set as\<close> by (metis (no_types, lifting) image_iff list.set_map map_snd_enumerate prod.collapse)
    with hashes_and_keys_ok [of it config ?start "enumerate 0 as" i a] st(1) show ?thesis by simp
  qed
  then have keys: "keys_or_none a = all_keys a" if "a \<in> set as" for a
    using that by (simp add: keys_or_none_def normalize_keys_def all_keys_def)
  have same: "all_keys a \<inter> all_keys b = {}"
    if on: "enable_conflict_detection config" and ab: "a \<in> set as" "b \<in> set as"
      and differ: "assigned_lane a = assigned_lane b" "la_tx_hash a \<noteq> la_tx_hash b" for a b
  proof -
    have "map_of (or_default [] (lane_keys st) (assigned_lane c)) k = Some (la_tx_hash c)"
      if "c \<in> set as" "k \<in> all_keys c" for c k
      using inv that on by (simp add: lanes_inv_def)
    from this [OF ab(1)] this [OF ab(2)] differ show ?thesis by (metis disjoint_iff option.inject)
  qed
  have cross: "detect_cross_lane_conflicts as = [] \<longleftrightarrow>
      (\<forall>a \<in> set as. \<forall>b \<in> set as. assigned_lane a \<noteq> assigned_lane b \<longrightarrow> all_keys a \<inter> all_keys b = {})"
    using no_cross_conflicts_all [of as] assms(3) keys by simp
  have "all_keys a \<inter> all_keys b = {}"
    if "enable_conflict_detection config" "detect_cross_lane_conflicts as = []"
      "a \<in> set as" "b \<in> set as" "la_tx_hash a \<noteq> la_tx_hash b" for a b
    using same [OF that(1,3,4)] cross that by (cases "assigned_lane a = assigned_lane b") blast+
  moreover have "min (lane_total as lane) (2 ^ 64 - 1) \<le> unat (max_total_gas_per_lane config)" for lane
    using inv unfolding lanes_inv_def word_le_nat_alt by metis
  ultimately show ?thesis
    using inv st(2) same cross by (simp add: lanes_inv_def)
qed

definition sample_assignment :: "B256 \<Rightarrow> LaneId \<Rightarrow> B256 \<Rightarrow> LaneAssignment" where
  "sample_assignment h lane key =
     \<lparr>la_tx_hash = h, assigned_lane = lane, state_keys_accessed = [key], conflict_set = {},
      gas_estimate = 21000\<rparr>"

definition sample_batch :: "LaneAssignment list" where
  "sample_batch = [sample_assignment 1 Transfer 5, sample_assignment 2 DeFi 6]"

theorem lanes_independent_witness:
  "\<exists>lanes. assign_to_lanes sorted_list_of_set sample_batch default_lane_config = Inr lanes \<and>
     or_default [] lanes DeFi = [1]"
proof -
  have "\<exists>lanes. assign_to_lanes sorted_list_of_set sample_batch default_lane_config = Inr lanes"
    by (simp add: assign_to_lanes_def sample_batch_def sample_assignment_def default_lane_config_def
        assign_step_def normalize_keys_def or_default_def check_conflict_def err_if_def Let_def sat_add_def)
  then obtain lanes where ok: "assign_to_lanes sorted_list_of_set sample_batch default_lane_config = Inr lanes"
    by blast
  have "set_order sorted_list_of_set" by (simp add: set_order_def)
  moreover have "\<forall>a \<in> set sample_batch. finite (all_keys a)"
    by (simp add: sample_batch_def sample_assignment_def all_keys_def)
  ultimately have "or_default [] lanes DeFi = in_lane sample_batch DeFi"
    using lanes_independent [OF ok] by simp
  also have "\<dots> = [1]"
    by (simp add: in_lane_def sample_batch_def sample_assignment_def upt_rec)
  finally show ?thesis using ok by blast
qed

end
