(* ===== verification/Node_State.thy ===== *)
theory Node_State
  imports Json Validation "HOL-Library.Monad_Syntax"
begin

text \<open>
  The state of the node daemon \<open>crates/eth2077-node/src/bin/eth2077-devnetd.rs\<close>, and the
  functions that read values out of JSON requests.  Code of other crates is the record
  \<open>host\<close>: the \<open>hex\<close> crate, the 256-bit integers of \<open>ruint\<close>, Keccak, the JSON printer, the account
  lookup of revm's database, and the order in which the hash map of envelopes is visited.
  \<open>U256::from_be_slice\<close> panics on an argument it cannot represent; the function that
  stands for it returns \<open>None\<close> there, and \<open>None\<close> is a panic in whatever calls it.
\<close>

section \<open>Records\<close>

record EngineTxMeta =
  tm_hash :: string
  tm_from :: "string option"
  tm_nonce :: "u64 option"
  tm_gas_limit :: "u64 option"
  tm_gas_price :: "u128 option"
  tm_value :: "U256 option"

record Engine7732HeaderRecord =
  ph_slot :: u64
  ph_root :: string
  ph_parent_beacon_block_root :: "string option"
  ph_execution_block_hash :: "string option"
  ph_proposer :: "string option"
  ph_bid_value_wei :: "U256 option"
  ph_view_id :: "u64 option"
  ph_received_at_unix_s :: u64

record Engine7732EnvelopeRecord =
  pe_slot :: u64
  pe_root :: string
  pe_execution_block_hash :: "string option"
  pe_payload_body_hash :: "string option"
  pe_signer :: "string option"
  pe_data_available :: bool
  pe_revealed_at_unix_s :: u64

record Engine7732PenaltyRecord =
  pp_slot :: u64
  pp_state :: string
  pp_reason :: string
  pp_last_status :: string
  pp_activated_at_unix_s :: u64
  pp_recovered_at_unix_s :: "u64 option"

text \<open>
  The part of \<open>NodeState\<close> that the engine methods read and write.  The remaining fields (the
  transaction pool and index of the daemon, its market place and its figures for the status
  page) are untouched by them.
\<close>

record 'db NodeState =
  started_at_unix_s :: u64
  current_height :: u64
  engine_required_il_txs :: "string list"
  engine_required_il_meta :: "(string, EngineTxMeta) hashmap"
  engine_required_il_slot :: "u64 option"
  engine_required_il_updated_at_unix_s :: "u64 option"
  engine_focil_committee :: "string list"
  engine_focil_view_frozen :: bool
  engine_focil_frozen_slot :: "u64 option"
  engine_focil_frozen_il_root :: "string option"
  engine_focil_view_id :: "u64 option"
  engine_7732_headers_by_slot :: "(u64, string list) hashmap"
  engine_7732_headers_by_root :: "(string, Engine7732HeaderRecord) hashmap"
  engine_7732_envelopes_by_root :: "(string, Engine7732EnvelopeRecord) hashmap"
  engine_7732_penalties_by_slot :: "(u64, Engine7732PenaltyRecord) hashmap"
  evm_db :: 'db

text \<open>revm's \<open>AccountInfo\<close>; the code is given by its original bytes.\<close>

record DbAccountInfo =
  ai_balance :: U256
  ai_nonce :: u64
  ai_code_hash :: B256
  ai_code :: "bytes option"

record 'db host =
  hex_encode :: "bytes \<Rightarrow> string"
  hex_decode :: "string \<Rightarrow> bytes option"
  u256_from_be_slice :: "bytes \<Rightarrow> U256 option"
  u256_lower_hex :: "U256 \<Rightarrow> string"
  host_keccak :: "bytes \<Rightarrow> bytes"
  json_to_string :: "json \<Rightarrow> string option"
  db_basic :: "'db \<Rightarrow> Address \<Rightarrow> DbAccountInfo option \<times> 'db"
  envelope_order :: "(string \<times> Engine7732EnvelopeRecord) list \<Rightarrow> (string \<times> Engine7732EnvelopeRecord) list"

text \<open>\<open>build_state\<close>, for these fields.\<close>

definition build_state :: "'db \<Rightarrow> u64 \<Rightarrow> 'db NodeState" where
  "build_state db now =
     \<lparr>started_at_unix_s = now, current_height = 0,
      engine_required_il_txs = [], engine_required_il_meta = [], engine_required_il_slot = None,
      engine_required_il_updated_at_unix_s = None, engine_focil_committee = [],
      engine_focil_view_frozen = False, engine_focil_frozen_slot = None,
      engine_focil_frozen_il_root = None, engine_focil_view_id = None,
      engine_7732_headers_by_slot = [], engine_7732_headers_by_root = [],
      engine_7732_envelopes_by_root = [], engine_7732_penalties_by_slot = [], evm_db = db\<rparr>"

section \<open>Hexadecimal strings\<close>

definition rpc_hex_u64 :: "u64 \<Rightarrow> string" where
  "rpc_hex_u64 v = ''0x'' @ hex_digits (unat v)"

definition rpc_hex_u128 :: "u128 \<Rightarrow> string" where
  "rpc_hex_u128 v = ''0x'' @ hex_digits (unat v)"

definition parse_hex_u64 :: "string \<Rightarrow> u64 option" where
  "parse_hex_u64 input = from_str_radix16 (drop_prefix ''0x'' input)"

definition parse_hex_u128 :: "string \<Rightarrow> u128 option" where
  "parse_hex_u128 input = from_str_radix16 (drop_prefix ''0x'' input)"

definition parse_hex_bytes :: "'db host \<Rightarrow> string \<Rightarrow> bytes option" where
  "parse_hex_bytes host input =
     (let raw = drop_prefix ''0x'' (trim input) in
      if raw = [] then Some []
      else if \<not> list_all is_ascii_hexdigit raw then None
      else hex_decode host (if length raw mod 2 = 1 then CHR ''0'' # raw else raw))"

text \<open>The outer option is a panic of \<open>U256::from_be_slice\<close>, the inner one the function's result.\<close>

definition parse_hex_u256 :: "'db host \<Rightarrow> string \<Rightarrow> U256 option option" where
  "parse_hex_u256 host input =
     (case parse_hex_bytes host input of
        None \<Rightarrow> Some None
      | Some bs \<Rightarrow> map_option Some (u256_from_be_slice host bs))"

definition canonical_address :: "string \<Rightarrow> string option" where
  "canonical_address input =
     (let raw = drop_prefixes ''0x'' (trim input) in
      if length raw \<noteq> 40 \<or> \<not> list_all is_ascii_hexdigit raw then None
      else Some (''0x'' @ to_ascii_lowercase raw))"

definition address_from_hex :: "'db host \<Rightarrow> string \<Rightarrow> Address option" where
  "address_from_hex host input =
     do {
       canonical \<leftarrow> canonical_address input;
       bs \<leftarrow> parse_hex_bytes host canonical;
       if length bs \<noteq> 20 then None else Some (word_of_be bs)
     }"

definition bytes_to_hex :: "'db host \<Rightarrow> bytes \<Rightarrow> string" where
  "bytes_to_hex host data = ''0x'' @ hex_encode host data"

definition u256_to_hex :: "'db host \<Rightarrow> U256 \<Rightarrow> string" where
  "u256_to_hex host v = ''0x'' @ u256_lower_hex host v"

definition normalize_hash32 :: "string \<Rightarrow> string option" where
  "normalize_hash32 input =
     (let raw = drop_prefix ''0x'' (trim input) in
      if length raw \<noteq> 64 \<or> \<not> list_all is_ascii_hexdigit raw then None
      else Some (''0x'' @ to_ascii_lowercase raw))"

section \<open>Values of requests\<close>

definition parse_u64_value :: "json \<Rightarrow> u64 option" where
  "parse_u64_value input =
     (case as_u64 input of
        Some n \<Rightarrow> Some n
      | None \<Rightarrow>
          (case as_str input of
             Some s \<Rightarrow> or_else (parse_hex_u64 s) (parse_unsigned s)
           | None \<Rightarrow> None))"

definition parse_u128_value :: "json \<Rightarrow> u128 option" where
  "parse_u128_value input =
     (case as_u64 input of
        Some n \<Rightarrow> Some (ucast n)
      | None \<Rightarrow>
          (case as_str input of
             Some s \<Rightarrow> or_else (parse_hex_u128 s) (parse_unsigned s)
           | None \<Rightarrow> None))"

definition parse_bool_value :: "json \<Rightarrow> bool option" where
  "parse_bool_value input =
     (case as_bool input of
        Some b \<Rightarrow> Some b
      | None \<Rightarrow>
          (case as_str input of
             Some s \<Rightarrow>
               (let t = to_ascii_lowercase s in
                if t = ''true'' \<or> t = ''1'' then Some True
                else if t = ''false'' \<or> t = ''0'' then Some False
                else None)
           | None \<Rightarrow> None))"

definition parse_u256_value :: "'db host \<Rightarrow> json \<Rightarrow> U256 option option" where
  "parse_u256_value host input =
     (case as_u64 input of
        Some n \<Rightarrow> Some (Some (ucast n))
      | None \<Rightarrow>
          (case as_str input of
             Some s \<Rightarrow>
               do {
                 v \<leftarrow> parse_hex_u256 host s;
                 Some (or_else v (map_option ucast (parse_unsigned s :: u128 option)))
               }
           | None \<Rightarrow> Some None))"

definition normalize_hash32_value :: "json option \<Rightarrow> string option" where
  "normalize_hash32_value v = do { x \<leftarrow> v; s \<leftarrow> as_str x; normalize_hash32 s }"

text \<open>\<open>req.get("params").and_then(Value::as_array).and_then(|params| params.get(i))\<close>.\<close>

definition param :: "nat \<Rightarrow> json \<Rightarrow> json option" where
  "param i req = do { ps \<leftarrow> jget ''params'' req; items \<leftarrow> as_array ps; slice_get items i }"

text \<open>A \<open>u64\<close> under a key of the request, or else at a position of its parameters.\<close>

definition u64_of_req :: "string \<Rightarrow> nat \<Rightarrow> json \<Rightarrow> u64 option" where
  "u64_of_req k i req =
     or_else (Option.bind (jget k req) parse_u64_value) (Option.bind (param i req) parse_u64_value)"

definition bool_of_req :: "string \<Rightarrow> nat \<Rightarrow> json \<Rightarrow> bool option" where
  "bool_of_req k i req =
     or_else (Option.bind (jget k req) parse_bool_value) (Option.bind (param i req) parse_bool_value)"

text \<open>The decimal fallback is never reached by a short decimal string, which is read as hexadecimal.\<close>

lemma decimal_string_read_as_hex: "parse_u64_value (JString ''12'') = Some 18"
  by (simp add: parse_u64_value_def parse_hex_u64_def drop_prefix_def strip_prefix_def from_str_radix16_def
      decode_hex_nibble_def Let_def)

lemma normalize_hash32_length: "normalize_hash32 s = Some t \<Longrightarrow> length t = 66"
  by (auto simp: normalize_hash32_def Let_def to_ascii_lowercase_def split: if_splits)

end
