(* ===== verification/Payload_Timeliness.thy ===== *)
theory Payload_Timeliness
  imports Node_State
begin

text \<open>
  Enshrined proposer-builder separation (EIP-7732) in the node daemon
  \<open>crates/eth2077-node/src/bin/eth2077-devnetd.rs\<close>: builders register payload headers for a
  slot and later reveal the envelopes; the daemon tells for each slot whether the payloads
  were revealed in time, and keeps a penalty record for a slot whose payloads were not.
  The functions take the value of the clock as an argument.
\<close>

section \<open>Reading headers and envelopes\<close>

definition engine_7732_payload_header_source :: "json \<Rightarrow> json option" where
  "engine_7732_payload_header_source req =
     or_else (jget_any [''payloadHeader'', ''signedExecutionPayloadHeader'', ''executionPayloadHeader''] req)
       (param 0 req)"

definition engine_7732_payload_envelope_source :: "json \<Rightarrow> json option" where
  "engine_7732_payload_envelope_source req =
     or_else (jget_any [''payloadEnvelope'', ''signedExecutionPayloadEnvelope'', ''executionPayloadEnvelope''] req)
       (param 0 req)"

definition message_of :: "json \<Rightarrow> json" where
  "message_of source = unwrap_or (jget ''message'' source) source"

definition engine_7732_payload_header_root_from_value :: "json \<Rightarrow> string option" where
  "engine_7732_payload_header_root_from_value v =
     normalize_hash32_value (jget_any [''payloadHeaderRoot'', ''executionPayloadHeaderRoot'',
       ''headerRoot'', ''payloadRoot'', ''root''] (message_of v))"

text \<open>The given root, or else the hash of the printed message.\<close>

definition root_or_hash :: "'db host \<Rightarrow> json \<Rightarrow> string" where
  "root_or_hash host source =
     unwrap_or (engine_7732_payload_header_root_from_value source)
       (bytes_to_hex host (host_keccak host
          (ascii (unwrap_or (json_to_string host (message_of source)) ''{}''))))"

definition name_value :: "json option \<Rightarrow> string option" where
  "name_value v = do { x \<leftarrow> v; raw \<leftarrow> as_str x; Some (unwrap_or (canonical_address raw) raw) }"

definition slot_of_message :: "json \<Rightarrow> json \<Rightarrow> u64 \<Rightarrow> u64" where
  "slot_of_message message req fallback_slot =
     unwrap_or (or_else (Option.bind (jget ''slot'' message) parse_u64_value)
       (Option.bind (jget ''slot'' req) parse_u64_value)) fallback_slot"

definition time_of_message :: "string \<Rightarrow> json \<Rightarrow> json \<Rightarrow> u64 \<Rightarrow> u64" where
  "time_of_message k message req now =
     unwrap_or (Option.bind (or_else (jget k req) (jget k message)) parse_u64_value) now"

definition engine_7732_parse_header_record ::
    "'db host \<Rightarrow> u64 \<Rightarrow> json \<Rightarrow> u64 \<Rightarrow> (string + Engine7732HeaderRecord) option" where
  "engine_7732_parse_header_record host now req fallback_slot =
     (case engine_7732_payload_header_source req of
        None \<Rightarrow> Some (Inl ''missing payload header object'')
      | Some source \<Rightarrow>
          let message = message_of source in
          do {
            bid \<leftarrow> (case jget_any [''bidValue'', ''bidValueWei''] message of
                      None \<Rightarrow> Some None | Some v \<Rightarrow> parse_u256_value host v);
            Some (Inr
              \<lparr>ph_slot = slot_of_message message req fallback_slot,
               ph_root = root_or_hash host source,
               ph_parent_beacon_block_root =
                 normalize_hash32_value (jget_any [''parentBeaconBlockRoot'', ''parentRoot''] message),
               ph_execution_block_hash =
                 normalize_hash32_value (jget_any [''executionBlockHash'', ''blockHash''] message),
               ph_proposer = name_value (jget_any [''proposer'', ''proposerAddress'', ''builder''] message),
               ph_bid_value_wei = bid,
               ph_view_id = Option.bind (jget_any [''viewId'', ''view''] message) parse_u64_value,
               ph_received_at_unix_s = time_of_message ''receivedAtUnixS'' message req now\<rparr>)
          })"

definition engine_7732_parse_envelope_record ::
    "'db host \<Rightarrow> u64 \<Rightarrow> json \<Rightarrow> u64 \<Rightarrow> string + Engine7732EnvelopeRecord" where
  "engine_7732_parse_envelope_record host now req fallback_slot =
     (case engine_7732_payload_envelope_source req of
        None \<Rightarrow> Inl ''missing payload envelope object''
      | Some source \<Rightarrow>
          let message = message_of source in
          Inr
            \<lparr>pe_slot = slot_of_message message req fallback_slot,
             pe_root = root_or_hash host source,
             pe_execution_block_hash =
               normalize_hash32_value (jget_any [''executionBlockHash'', ''blockHash''] message),
             pe_payload_body_hash =
               normalize_hash32_value (jget_any [''payloadBodyHash'', ''payloadHash'', ''bodyRoot''] message),
             pe_signer = name_value (jget_any [''signer'', ''builder'', ''revealer''] message),
             pe_data_available = unwrap_or (Option.bind (jget ''dataAvailable'' message) as_bool) True,
             pe_revealed_at_unix_s = time_of_message ''revealedAtUnixS'' message req now\<rparr>)"

section \<open>Printing records\<close>

definition engine_7732_header_to_json :: "'db host \<Rightarrow> Engine7732HeaderRecord \<Rightarrow> json" where
  "engine_7732_header_to_json host h =
     JObject [(''slot'', JString (rpc_hex_u64 (ph_slot h))),
              (''payloadHeaderRoot'', JString (ph_root h)),
              (''parentBeaconBlockRoot'', jopt JString (ph_parent_beacon_block_root h)),
              (''executionBlockHash'', jopt JString (ph_execution_block_hash h)),
              (''proposer'', jopt JString (ph_proposer h)),
              (''bidValue'', jopt (\<lambda>v. JString (u256_to_hex host v)) (ph_bid_value_wei h)),
              (''viewId'', jopt (\<lambda>v. JString (rpc_hex_u64 v)) (ph_view_id h)),
              (''receivedAtUnixS'', jnum (ph_received_at_unix_s h))]"

definition engine_7732_envelope_to_json :: "Engine7732EnvelopeRecord \<Rightarrow> json" where
  "engine_7732_envelope_to_json e =
     JObject [(''slot'', JString (rpc_hex_u64 (pe_slot e))),
              (''payloadHeaderRoot'', JString (pe_root e)),
              (''executionBlockHash'', jopt JString (pe_execution_block_hash e)),
              (''payloadBodyHash'', jopt JString (pe_payload_body_hash e)),
              (''signer'', jopt JString (pe_signer e)),
              (''dataAvailable'', JBool (pe_data_available e)),
              (''revealedAtUnixS'', jnum (pe_revealed_at_unix_s e))]"

definition engine_7732_penalty_to_json :: "Engine7732PenaltyRecord \<Rightarrow> json" where
  "engine_7732_penalty_to_json p =
     JObject [(''slot'', JString (rpc_hex_u64 (pp_slot p))),
              (''state'', JString (pp_state p)),
              (''reason'', JString (pp_reason p)),
              (''lastStatus'', JString (pp_last_status p)),
              (''activatedAtUnixS'', jnum (pp_activated_at_unix_s p)),
              (''recoveredAtUnixS'', jopt jnum (pp_recovered_at_unix_s p))]"

section \<open>Registration\<close>

definition engine_7732_header_conflicts :: "Engine7732HeaderRecord \<Rightarrow> Engine7732HeaderRecord \<Rightarrow> bool" where
  "engine_7732_header_conflicts existing incoming \<longleftrightarrow>
     ph_slot existing \<noteq> ph_slot incoming
     \<or> ph_root existing \<noteq> ph_root incoming
     \<or> ph_parent_beacon_block_root existing \<noteq> ph_parent_beacon_block_root incoming
     \<or> ph_execution_block_hash existing \<noteq> ph_execution_block_hash incoming
     \<or> ph_proposer existing \<noteq> ph_proposer incoming
     \<or> ph_bid_value_wei existing \<noteq> ph_bid_value_wei incoming
     \<or> ph_view_id existing \<noteq> ph_view_id incoming"

definition engine_7732_envelope_conflicts :: "Engine7732EnvelopeRecord \<Rightarrow> Engine7732EnvelopeRecord \<Rightarrow> bool" where
  "engine_7732_envelope_conflicts existing incoming \<longleftrightarrow>
     pe_slot existing \<noteq> pe_slot incoming
     \<or> pe_root existing \<noteq> pe_root incoming
     \<or> pe_execution_block_hash existing \<noteq> pe_execution_block_hash incoming
     \<or> pe_payload_body_hash existing \<noteq> pe_payload_body_hash incoming
     \<or> pe_signer existing \<noteq> pe_signer incoming
     \<or> pe_data_available existing \<noteq> pe_data_available incoming"

definition slot_roots :: "'db NodeState \<Rightarrow> u64 \<Rightarrow> string list" where
  "slot_roots st slot = unwrap_or (map_of (engine_7732_headers_by_slot st) slot) []"

text \<open>\<open>entry(slot).or_default()\<close>, and \<open>push\<close> unless the root is there.\<close>

definition add_slot_root :: "'db NodeState \<Rightarrow> u64 \<Rightarrow> string \<Rightarrow> 'db NodeState" where
  "add_slot_root st slot root =
     (let roots = slot_roots st slot in
      st\<lparr>engine_7732_headers_by_slot :=
           hm_insert slot (if root \<in> set roots then roots else roots @ [root])
             (engine_7732_headers_by_slot st)\<rparr>)"

definition invalid_response :: "string \<Rightarrow> json" where
  "invalid_response err = JObject [(''status'', JString ''INVALID''), (''validationError'', JString err)]"

definition header_accepted :: "'db host \<Rightarrow> string \<Rightarrow> Engine7732HeaderRecord \<Rightarrow> string \<Rightarrow> nat \<Rightarrow> json" where
  "header_accepted host replay h root known =
     JObject [(''status'', JString ''ACCEPTED''),
              (''replayStatus'', JString replay),
              (''slot'', JString (rpc_hex_u64 (ph_slot h))),
              (''payloadHeaderRoot'', JString root),
              (''knownHeadersAtSlot'', JString (rpc_hex_u64 (of_nat known))),
              (''header'', engine_7732_header_to_json host h)]"

definition store_header ::
    "'db host \<Rightarrow> 'db NodeState \<Rightarrow> Engine7732HeaderRecord \<Rightarrow> json \<times> 'db NodeState" where
  "store_header host st h =
     (let root = ph_root h in
      case map_of (engine_7732_headers_by_root st) root of
        Some existing \<Rightarrow>
          if engine_7732_header_conflicts existing h then
            (JObject [(''status'', JString ''INVALID''),
               (''validationError'', JString (''conflicting header replay for root '' @ root)),
               (''existingHeader'', engine_7732_header_to_json host existing),
               (''incomingHeader'', engine_7732_header_to_json host h)], st)
          else
            let st1 = add_slot_root st (ph_slot existing) root in
            (header_accepted host ''DUPLICATE'' existing root (length (slot_roots st1 (ph_slot existing))), st1)
      | None \<Rightarrow>
          let st1 = add_slot_root
                (st\<lparr>engine_7732_headers_by_root := hm_insert root h (engine_7732_headers_by_root st)\<rparr>)
                (ph_slot h) root
          in (header_accepted host ''NEW'' h root (length (slot_roots st1 (ph_slot h))), st1))"

definition engine_7732_register_payload_header_response ::
    "'db host \<Rightarrow> u64 \<Rightarrow> 'db NodeState \<Rightarrow> json \<Rightarrow> (json \<times> 'db NodeState) option" where
  "engine_7732_register_payload_header_response host now st req =
     map_option
       (\<lambda>parsed. case parsed of Inl err \<Rightarrow> (invalid_response err, st) | Inr h \<Rightarrow> store_header host st h)
       (engine_7732_parse_header_record host now req (sat_add (current_height st) 1))"

definition envelope_accepted :: "string \<Rightarrow> Engine7732EnvelopeRecord \<Rightarrow> string \<Rightarrow> string \<Rightarrow> json" where
  "envelope_accepted replay e root linkage =
     JObject [(''status'', JString ''ACCEPTED''),
              (''replayStatus'', JString replay),
              (''slot'', JString (rpc_hex_u64 (pe_slot e))),
              (''payloadHeaderRoot'', JString root),
              (''linkageStatus'', JString linkage),
              (''envelope'', engine_7732_envelope_to_json e)]"

text \<open>The rest of the method, once the slot of a known header agrees.\<close>

definition store_envelope ::
    "'db NodeState \<Rightarrow> Engine7732EnvelopeRecord \<Rightarrow> string \<Rightarrow> string \<Rightarrow> json \<times> 'db NodeState" where
  "store_envelope st e root linkage =
     (case map_of (engine_7732_envelopes_by_root st) root of
        Some existing \<Rightarrow>
          if engine_7732_envelope_conflicts existing e then
            (JObject [(''status'', JString ''INVALID''),
               (''validationError'', JString (''conflicting envelope replay for root '' @ root)),
               (''existingEnvelope'', engine_7732_envelope_to_json existing),
               (''incomingEnvelope'', engine_7732_envelope_to_json e)], st)
          else (envelope_accepted ''DUPLICATE'' existing root linkage, st)
      | None \<Rightarrow>
          (envelope_accepted ''NEW'' e root linkage,
           st\<lparr>engine_7732_envelopes_by_root := hm_insert root e (engine_7732_envelopes_by_root st)\<rparr>))"

definition engine_7732_register_payload_envelope_response ::
    "'db host \<Rightarrow> u64 \<Rightarrow> 'db NodeState \<Rightarrow> json \<Rightarrow> json \<times> 'db NodeState" where
  "engine_7732_register_payload_envelope_response host now st req =
     (case engine_7732_parse_envelope_record host now req (sat_add (current_height st) 1) of
        Inl err \<Rightarrow> (invalid_response err, st)
      | Inr e \<Rightarrow>
          let root = pe_root e in
          (case map_of (engine_7732_headers_by_root st) root of
             Some h \<Rightarrow>
               if ph_slot h \<noteq> pe_slot e then
                 (invalid_response (''envelope slot mismatch for root '' @ root @ '': header slot '' @
                    decimal (unat (ph_slot h)) @ '', envelope slot '' @ decimal (unat (pe_slot e))), st)
               else store_envelope st e root ''LINKED''
           | None \<Rightarrow> store_envelope st e root ''ORPHAN''))"

section \<open>Timeliness and penalties\<close>

definition engine_7732_is_timeliness_violation :: "string \<Rightarrow> bool" where
  "engine_7732_is_timeliness_violation status \<longleftrightarrow>
     status = ''WITHHELD'' \<or> status = ''PARTIAL_WITHHOLD'' \<or> status = ''LATE_REVEAL''"

definition engine_7732_update_penalty_state ::
    "'db NodeState \<Rightarrow> u64 \<Rightarrow> string \<Rightarrow> string \<Rightarrow> u64 \<Rightarrow> Engine7732PenaltyRecord option \<times> 'db NodeState" where
  "engine_7732_update_penalty_state st slot status reason now =
     (if engine_7732_is_timeliness_violation status then
        let record0 = unwrap_or (map_of (engine_7732_penalties_by_slot st) slot)
              \<lparr>pp_slot = slot, pp_state = ''ACTIVE'', pp_reason = reason, pp_last_status = status,
               pp_activated_at_unix_s = now, pp_recovered_at_unix_s = None\<rparr>;
            record1 = (if pp_state record0 \<noteq> ''ACTIVE''
              then record0\<lparr>pp_activated_at_unix_s := now, pp_recovered_at_unix_s := None\<rparr> else record0);
            record = record1\<lparr>pp_state := ''ACTIVE'', pp_reason := reason, pp_last_status := status\<rparr>
        in (Some record,
            st\<lparr>engine_7732_penalties_by_slot := hm_insert slot record (engine_7732_penalties_by_slot st)\<rparr>)
      else case map_of (engine_7732_penalties_by_slot st) slot of
        Some existing \<Rightarrow>
          let existing1 = existing\<lparr>pp_last_status := status\<rparr>;
              record = (if pp_state existing1 \<noteq> ''RECOVERED''
                then existing1\<lparr>pp_state := ''RECOVERED'', pp_reason := reason,
                               pp_recovered_at_unix_s := Some now\<rparr> else existing1)
          in (Some record,
              st\<lparr>engine_7732_penalties_by_slot := hm_insert slot record (engine_7732_penalties_by_slot st)\<rparr>)
      | None \<Rightarrow> (None, st))"

definition engine_7732_slot_deadline_unix_s :: "'db NodeState \<Rightarrow> u64 \<Rightarrow> u64" where
  "engine_7732_slot_deadline_unix_s st slot =
     sat_add (sat_add (started_at_unix_s st) (sat_mul slot 12)) 12"

definition engine_7732_current_unix_s_from_req_with_param :: "json \<Rightarrow> nat \<Rightarrow> u64 option" where
  "engine_7732_current_unix_s_from_req_with_param req i = u64_of_req ''currentUnixS'' i req"

definition engine_7732_current_unix_s_from_req :: "json \<Rightarrow> u64 option" where
  "engine_7732_current_unix_s_from_req req = engine_7732_current_unix_s_from_req_with_param req 1"

text \<open>The three lists the roots of a slot are sorted into, and the envelopes without a header.\<close>

definition revealed_on_time :: "'db NodeState \<Rightarrow> u64 \<Rightarrow> string \<Rightarrow> bool" where
  "revealed_on_time st deadline root =
     (case map_of (engine_7732_envelopes_by_root st) root of
        Some e \<Rightarrow> pe_revealed_at_unix_s e \<le> deadline | None \<Rightarrow> False)"

definition late_reveal :: "'db NodeState \<Rightarrow> u64 \<Rightarrow> string \<Rightarrow> bool" where
  "late_reveal st deadline root =
     (case map_of (engine_7732_envelopes_by_root st) root of
        Some e \<Rightarrow> \<not> pe_revealed_at_unix_s e \<le> deadline | None \<Rightarrow> False)"

definition pending_reveal :: "'db NodeState \<Rightarrow> string \<Rightarrow> bool" where
  "pending_reveal st root \<longleftrightarrow> map_of (engine_7732_envelopes_by_root st) root = None"

definition orphan_roots :: "'db host \<Rightarrow> 'db NodeState \<Rightarrow> u64 \<Rightarrow> string list" where
  "orphan_roots host st slot =
     map fst (filter (\<lambda>(_, e). pe_slot e = slot \<and>
         map_of (engine_7732_headers_by_root st) (pe_root e) = None)
       (envelope_order host (engine_7732_envelopes_by_root st)))"

definition aggregate_status :: "'db host \<Rightarrow> 'db NodeState \<Rightarrow> u64 \<Rightarrow> u64 \<Rightarrow> string" where
  "aggregate_status host st slot now =
     (let roots = slot_roots st slot;
          deadline = engine_7732_slot_deadline_unix_s st slot;
          deadline_passed = (deadline < now);
          on_time = filter (revealed_on_time st deadline) roots;
          late = filter (late_reveal st deadline) roots;
          pending = filter (pending_reveal st) roots;
          orphans = orphan_roots host st slot
      in if roots = [] \<and> orphans = [] then ''UNKNOWN''
         else if roots = [] \<and> orphans \<noteq> [] then ''ORPHAN_ENVELOPE''
         else if pending = [] \<and> late \<noteq> [] then ''LATE_REVEAL''
         else if pending = [] then ''REVEALED''
         else if deadline_passed \<and> on_time = [] \<and> late = [] then ''WITHHELD''
         else if deadline_passed then ''PARTIAL_WITHHOLD''
         else if on_time = [] then ''HEADER_ONLY''
         else ''PARTIAL_REVEAL'')"

definition count_hex :: "nat \<Rightarrow> json" where
  "count_hex n = JString (rpc_hex_u64 (of_nat n))"

definition engine_7732_slot_status_response :: "'db host \<Rightarrow> 'db NodeState \<Rightarrow> u64 \<Rightarrow> u64 \<Rightarrow> json" where
  "engine_7732_slot_status_response host st slot now =
     (let roots = slot_roots st slot;
          deadline = engine_7732_slot_deadline_unix_s st slot
      in JObject
        [(''slot'', JString (rpc_hex_u64 slot)),
         (''aggregateStatus'', JString (aggregate_status host st slot now)),
         (''headerRoots'', jstrings roots),
         (''revealedOnTime'', jstrings (filter (revealed_on_time st deadline) roots)),
         (''lateReveals'', jstrings (filter (late_reveal st deadline) roots)),
         (''pendingReveals'', jstrings (filter (pending_reveal st) roots)),
         (''orphanEnvelopes'', jstrings (orphan_roots host st slot)),
         (''headerCount'', count_hex (length roots)),
         (''revealedCount'', count_hex (length (filter (\<lambda>r. \<not> pending_reveal st r) roots))),
         (''lateRevealCount'', count_hex (length (filter (late_reveal st deadline) roots))),
         (''deadlineUnixS'', jnum deadline),
         (''currentUnixS'', jnum now),
         (''deadlinePassed'', JBool (deadline < now)),
         (''penalty'', jopt engine_7732_penalty_to_json (map_of (engine_7732_penalties_by_slot st) slot))])"

text \<open>
  What \<open>engine_forkchoiceUpdatedV3\<close> and \<open>engine_newPayloadV3\<close> both begin with: read the status of
  the slot, record or lift its penalty, and refuse a slot in violation.
\<close>

definition violation_text :: "u64 \<Rightarrow> string \<Rightarrow> string" where
  "violation_text slot status =
     ''EIP-7732 timeliness violation for slot '' @ decimal (unat slot) @ '': '' @ status"

definition timeliness_check ::
    "'db host \<Rightarrow> 'db NodeState \<Rightarrow> u64 \<Rightarrow> u64 \<Rightarrow> json \<times> string \<times> json \<times> 'db NodeState" where
  "timeliness_check host st slot now =
     (let timeliness = engine_7732_slot_status_response host st slot now;
          status = unwrap_or (Option.bind (jget ''aggregateStatus'' timeliness) as_str) ''UNKNOWN'';
          reason = (if engine_7732_is_timeliness_violation status then violation_text slot status
                    else ''EIP-7732 timeliness recovered'');
          (record, st1) = engine_7732_update_penalty_state st slot status reason now
      in (timeliness, status, jopt engine_7732_penalty_to_json record, st1))"

section \<open>Queries\<close>

text \<open>A root of the request: under its key, or the first parameter.\<close>

definition root_of_req :: "json \<Rightarrow> string option" where
  "root_of_req req = normalize_hash32_value (or_else (jget ''payloadHeaderRoot'' req) (param 0 req))"

text \<open>The slot a query is about: given, or that of a known root, or the next one.\<close>

definition query_slot :: "'db NodeState \<Rightarrow> json \<Rightarrow> u64" where
  "query_slot st req =
     (let root = root_of_req req in
      unwrap_or
        (or_else (u64_of_req ''slot'' 0 req)
          (or_else (do { r \<leftarrow> root; h \<leftarrow> map_of (engine_7732_headers_by_root st) r; Some (ph_slot h) })
            (do { r \<leftarrow> root; e \<leftarrow> map_of (engine_7732_envelopes_by_root st) r; Some (pe_slot e) })))
        (sat_add (current_height st) 1))"

definition engine_7732_get_payload_timeliness_response ::
    "'db host \<Rightarrow> u64 \<Rightarrow> 'db NodeState \<Rightarrow> json \<Rightarrow> json" where
  "engine_7732_get_payload_timeliness_response host now st req =
     engine_7732_slot_status_response host st (query_slot st req)
       (unwrap_or (engine_7732_current_unix_s_from_req req) now)"

definition engine_7732_penalty_slot_snapshot :: "'db host \<Rightarrow> 'db NodeState \<Rightarrow> u64 \<Rightarrow> u64 \<Rightarrow> json" where
  "engine_7732_penalty_slot_snapshot host st slot now =
     (let penalty = jopt engine_7732_penalty_to_json (map_of (engine_7732_penalties_by_slot st) slot)
      in JObject
        [(''slot'', JString (rpc_hex_u64 slot)),
         (''penalized'', JBool (is_object penalty)),
         (''penaltyState'', JString (unwrap_or (Option.bind (jget ''state'' penalty) as_str) ''NONE'')),
         (''penalty'', penalty),
         (''timeliness'', engine_7732_slot_status_response host st slot now)])"

definition engine_7732_get_payload_penalty_response ::
    "'db host \<Rightarrow> u64 \<Rightarrow> 'db NodeState \<Rightarrow> json \<Rightarrow> json" where
  "engine_7732_get_payload_penalty_response host now st req =
     engine_7732_penalty_slot_snapshot host st (query_slot st req)
       (unwrap_or (engine_7732_current_unix_s_from_req req) now)"

definition engine_7732_get_payload_header_response :: "'db host \<Rightarrow> 'db NodeState \<Rightarrow> json \<Rightarrow> json" where
  "engine_7732_get_payload_header_response host st req =
     jopt (engine_7732_header_to_json host)
       (Option.bind (root_of_req req) (map_of (engine_7732_headers_by_root st)))"

definition engine_7732_get_payload_envelope_response :: "'db NodeState \<Rightarrow> json \<Rightarrow> json" where
  "engine_7732_get_payload_envelope_response st req =
     jopt engine_7732_envelope_to_json
       (Option.bind (root_of_req req) (map_of (engine_7732_envelopes_by_root st)))"

definition engine_7732_headers_by_slot_snapshot :: "'db host \<Rightarrow> 'db NodeState \<Rightarrow> u64 \<Rightarrow> json" where
  "engine_7732_headers_by_slot_snapshot host st slot =
     (let roots = slot_roots st slot in
      JObject
        [(''slot'', JString (rpc_hex_u64 slot)),
         (''headerRoots'', jstrings roots),
         (''headers'', JArray (map (engine_7732_header_to_json host)
            (List.map_filter (map_of (engine_7732_headers_by_root st)) roots))),
         (''headerCount'', count_hex (length roots)),
         (''revealedEnvelopeCount'', count_hex (length (filter (\<lambda>r. \<not> pending_reveal st r) roots)))])"

definition next_slot :: "'db NodeState \<Rightarrow> u64" where
  "next_slot st = sat_add (current_height st) 1"

definition engine_7732_get_payload_headers_by_slot_response ::
    "'db host \<Rightarrow> 'db NodeState \<Rightarrow> json \<Rightarrow> json" where
  "engine_7732_get_payload_headers_by_slot_response host st req =
     engine_7732_headers_by_slot_snapshot host st (unwrap_or (u64_of_req ''slot'' 0 req) (next_slot st))"

text \<open>
  Envelopes of a slot.  The source sorts the orphans by root; roots are the keys of a hash
  map, so the order of equal roots does not matter.
\<close>

definition orphan_envelopes :: "'db host \<Rightarrow> 'db NodeState \<Rightarrow> u64 \<Rightarrow> (string \<times> Engine7732EnvelopeRecord) list" where
  "orphan_envelopes host st slot =
     filter (\<lambda>(root, e). pe_slot e = slot \<and> map_of (engine_7732_headers_by_root st) root = None)
       (envelope_order host (engine_7732_envelopes_by_root st))"

fun str_le :: "string \<Rightarrow> string \<Rightarrow> bool" where
  "str_le [] _ = True"
| "str_le (_ # _) [] = False"
| "str_le (c # cs) (d # ds) \<longleftrightarrow> (of_char c :: nat) < of_char d \<or> c = d \<and> str_le cs ds"

definition engine_7732_envelopes_by_slot_snapshot :: "'db host \<Rightarrow> 'db NodeState \<Rightarrow> u64 \<Rightarrow> bool \<Rightarrow> json" where
  "engine_7732_envelopes_by_slot_snapshot host st slot include_orphans =
     (let roots = slot_roots st slot;
          orphans = orphan_envelopes host st slot
      in JObject
        [(''slot'', JString (rpc_hex_u64 slot)),
         (''headerRoots'', jstrings roots),
         (''linkedEnvelopes'', JArray (map engine_7732_envelope_to_json
            (List.map_filter (map_of (engine_7732_envelopes_by_root st)) roots))),
         (''missingReveals'', jstrings (filter (pending_reveal st) roots)),
         (''orphanEnvelopes'', JArray (if include_orphans
            then map (\<lambda>x. engine_7732_envelope_to_json (snd x)) (sort_by (\<lambda>a b. str_le (fst a) (fst b)) orphans)
            else [])),
         (''knownHeadersAtSlot'', count_hex (length roots)),
         (''linkedEnvelopeCount'', count_hex (length (filter (\<lambda>r. \<not> pending_reveal st r) roots))),
         (''missingRevealCount'', count_hex (length (filter (pending_reveal st) roots))),
         (''orphanEnvelopeCount'', count_hex (length orphans)),
         (''includeOrphans'', JBool include_orphans)])"

definition engine_7732_get_payload_envelopes_by_slot_response ::
    "'db host \<Rightarrow> 'db NodeState \<Rightarrow> json \<Rightarrow> json" where
  "engine_7732_get_payload_envelopes_by_slot_response host st req =
     engine_7732_envelopes_by_slot_snapshot host st (unwrap_or (u64_of_req ''slot'' 0 req) (next_slot st))
       (unwrap_or (bool_of_req ''includeOrphans'' 1 req) False)"

subsection \<open>Ranges of slots\<close>

definition MAX_SLOT_WINDOW :: u64 where
  "MAX_SLOT_WINDOW = 256"

record slot_window =
  start_slot :: u64
  end_slot :: u64
  effective_end_slot :: u64
  requested_slots :: u64
  slot_count :: u64

text \<open>The bounds of a range request, as the four range methods compute them.\<close>

definition window_of_req :: "'db NodeState \<Rightarrow> json \<Rightarrow> string + slot_window" where
  "window_of_req st req =
     (let start = unwrap_or (u64_of_req ''startSlot'' 0 req) (next_slot st);
          stop = unwrap_or (u64_of_req ''endSlot'' 1 req) start
      in if stop < start then
           Inl (''invalid range: startSlot '' @ decimal (unat start) @ '' exceeds endSlot '' @ decimal (unat stop))
         else
           let requested = sat_add (sat_sub stop start) 1;
               n = min requested MAX_SLOT_WINDOW
           in Inr \<lparr>start_slot = start, end_slot = stop, effective_end_slot = sat_add start (sat_sub n 1),
                   requested_slots = requested, slot_count = n\<rparr>)"

text \<open>\<open>start_slot..=effective_end_slot\<close>.\<close>

definition slots_of :: "slot_window \<Rightarrow> u64 list" where
  "slots_of w = map of_nat [unat (start_slot w)..<Suc (unat (effective_end_slot w))]"

definition window_fields :: "slot_window \<Rightarrow> (string \<times> json) list" where
  "window_fields w =
     [(''status'', JString ''OK''),
      (''startSlot'', JString (rpc_hex_u64 (start_slot w))),
      (''endSlot'', JString (rpc_hex_u64 (end_slot w))),
      (''effectiveEndSlot'', JString (rpc_hex_u64 (effective_end_slot w))),
      (''requestedSlotCount'', JString (rpc_hex_u64 (requested_slots w))),
      (''slotCount'', JString (rpc_hex_u64 (slot_count w))),
      (''windowClamped'', JBool (slot_count w < requested_slots w))]"

definition engine_7732_get_payload_timeliness_by_range_response ::
    "'db host \<Rightarrow> u64 \<Rightarrow> 'db NodeState \<Rightarrow> json \<Rightarrow> json" where
  "engine_7732_get_payload_timeliness_by_range_response host now st req =
     (case window_of_req st req of
        Inl err \<Rightarrow> invalid_response err
      | Inr w \<Rightarrow>
          let current = unwrap_or (engine_7732_current_unix_s_from_req_with_param req 2) now in
          JObject (window_fields w @
            [(''currentUnixS'', jnum current),
             (''slots'', JArray (map (\<lambda>s. engine_7732_slot_status_response host st s current) (slots_of w)))]))"

definition penalty_state_is :: "string \<Rightarrow> json \<Rightarrow> bool" where
  "penalty_state_is s v \<longleftrightarrow> Option.bind (jget ''penaltyState'' v) as_str = Some s"

definition engine_7732_get_payload_penalties_by_range_response ::
    "'db host \<Rightarrow> u64 \<Rightarrow> 'db NodeState \<Rightarrow> json \<Rightarrow> json" where
  "engine_7732_get_payload_penalties_by_range_response host now st req =
     (case window_of_req st req of
        Inl err \<Rightarrow> invalid_response err
      | Inr w \<Rightarrow>
          let current = unwrap_or (engine_7732_current_unix_s_from_req_with_param req 2) now;
              slots = map (\<lambda>s. engine_7732_penalty_slot_snapshot host st s current) (slots_of w)
          in JObject (window_fields w @
            [(''currentUnixS'', jnum current),
             (''activePenaltyCount'', count_hex (length (filter (penalty_state_is ''ACTIVE'') slots))),
             (''recoveredPenaltyCount'', count_hex (length (filter (penalty_state_is ''RECOVERED'') slots))),
             (''slots'', JArray slots)]))"

definition engine_7732_get_payload_headers_by_range_response ::
    "'db host \<Rightarrow> 'db NodeState \<Rightarrow> json \<Rightarrow> json" where
  "engine_7732_get_payload_headers_by_range_response host st req =
     (case window_of_req st req of
        Inl err \<Rightarrow> invalid_response err
      | Inr w \<Rightarrow>
          JObject (window_fields w @
            [(''slots'', JArray (map (engine_7732_headers_by_slot_snapshot host st) (slots_of w)))]))"

definition engine_7732_get_payload_envelopes_by_range_response ::
    "'db host \<Rightarrow> 'db NodeState \<Rightarrow> json \<Rightarrow> json" where
  "engine_7732_get_payload_envelopes_by_range_response host st req =
     (let include_orphans = unwrap_or (bool_of_req ''includeOrphans'' 2 req) False in
      case window_of_req st req of
        Inl err \<Rightarrow> invalid_response err
      | Inr w \<Rightarrow>
          JObject (window_fields w @
            [(''includeOrphans'', JBool include_orphans),
             (''slots'', JArray (map (\<lambda>s. engine_7732_envelopes_by_slot_snapshot host st s include_orphans)
                (slots_of w)))]))"

section \<open>The tables\<close>

text \<open>
  The index by slot lists exactly the headers of the slot, each once; headers, envelopes and
  penalties are stored under their own keys; a penalty is active or has a time of
  recovery.
\<close>

definition headers_ok :: "'db NodeState \<Rightarrow> bool" where
  "headers_ok st \<longleftrightarrow>
     (\<forall>root h. map_of (engine_7732_headers_by_root st) root = Some h \<longrightarrow> ph_root h = root) \<and>
     (\<forall>slot. distinct (slot_roots st slot) \<and>
        set (slot_roots st slot) =
          {root. \<exists>h. map_of (engine_7732_headers_by_root st) root = Some h \<and> ph_slot h = slot})"

definition envelopes_ok :: "'db NodeState \<Rightarrow> bool" where
  "envelopes_ok st \<longleftrightarrow> hm_inv (engine_7732_envelopes_by_root st) \<and>
     (\<forall>root e. map_of (engine_7732_envelopes_by_root st) root = Some e \<longrightarrow> pe_root e = root)"

definition penalty_ok :: "u64 \<Rightarrow> Engine7732PenaltyRecord \<Rightarrow> bool" where
  "penalty_ok slot p \<longleftrightarrow> pp_slot p = slot \<and>
     (pp_state p = ''ACTIVE'' \<and> pp_recovered_at_unix_s p = None \<or>
      pp_state p = ''RECOVERED'' \<and> pp_recovered_at_unix_s p \<noteq> None)"

definition penalties_ok :: "'db NodeState \<Rightarrow> bool" where
  "penalties_ok st \<longleftrightarrow>
     (\<forall>slot p. map_of (engine_7732_penalties_by_slot st) slot = Some p \<longrightarrow> penalty_ok slot p)"

definition tables_ok :: "'db NodeState \<Rightarrow> bool" where
  "tables_ok st \<longleftrightarrow> headers_ok st \<and> envelopes_ok st \<and> penalties_ok st"

lemma slot_roots_add [simp]:
  "slot_roots (add_slot_root st slot root) slot' =
     (if slot' = slot then
        if root \<in> set (slot_roots st slot) then slot_roots st slot else slot_roots st slot @ [root]
      else slot_roots st slot')"
  by (simp add: slot_roots_def add_slot_root_def Let_def)

lemma add_slot_root_known:
  assumes "headers_ok st" and "map_of (engine_7732_headers_by_root st) root = Some h"
  shows "slot_roots (add_slot_root st (ph_slot h) root) = slot_roots st"
  using assms by (auto simp: fun_eq_iff headers_ok_def)

lemma add_slot_root_frame [simp]:
  "engine_7732_headers_by_root (add_slot_root st slot root) = engine_7732_headers_by_root st"
  "engine_7732_envelopes_by_root (add_slot_root st slot root) = engine_7732_envelopes_by_root st"
  "engine_7732_penalties_by_slot (add_slot_root st slot root) = engine_7732_penalties_by_slot st"
  "started_at_unix_s (add_slot_root st slot root) = started_at_unix_s st"
  "current_height (add_slot_root st slot root) = current_height st"
  "evm_db (add_slot_root st slot root) = evm_db st"
  by (simp_all add: add_slot_root_def Let_def)

lemma slot_roots_more [simp]:
  "slot_roots (st\<lparr>engine_7732_headers_by_root := a\<rparr>) = slot_roots st"
  "slot_roots (st\<lparr>engine_7732_envelopes_by_root := b\<rparr>) = slot_roots st"
  "slot_roots (st\<lparr>engine_7732_penalties_by_slot := c\<rparr>) = slot_roots st"
  by (simp_all add: slot_roots_def fun_eq_iff)

lemma headers_ok_add_new:
  assumes "headers_ok st" and "map_of (engine_7732_headers_by_root st) (ph_root h) = None"
  shows "headers_ok (add_slot_root
    (st\<lparr>engine_7732_headers_by_root := hm_insert (ph_root h) h (engine_7732_headers_by_root st)\<rparr>)
    (ph_slot h) (ph_root h))"
proof -
  have old: "ph_root h \<notin> set (slot_roots st slot)" for slot
    using assms by (auto simp: headers_ok_def)
  show ?thesis
    unfolding headers_ok_def
  proof (intro conjI allI impI)
    fix slot
    show "set (slot_roots (add_slot_root (st\<lparr>engine_7732_headers_by_root :=
        hm_insert (ph_root h) h (engine_7732_headers_by_root st)\<rparr>) (ph_slot h) (ph_root h)) slot) =
      {root. \<exists>g. map_of (engine_7732_headers_by_root (add_slot_root (st\<lparr>engine_7732_headers_by_root :=
        hm_insert (ph_root h) h (engine_7732_headers_by_root st)\<rparr>) (ph_slot h) (ph_root h))) root = Some g \<and>
        ph_slot g = slot}"
      using assms old by (auto simp: headers_ok_def split: if_splits)
  qed (use assms old in \<open>auto simp: headers_ok_def split: if_splits\<close>)
qed

text \<open>Replaying a registered header changes nothing at all.\<close>

lemma add_slot_root_id:
  assumes "headers_ok st" and "map_of (engine_7732_headers_by_root st) root = Some h"
  shows "add_slot_root st (ph_slot h) root = st"
proof -
  have mem: "root \<in> set (slot_roots st (ph_slot h))" using assms by (auto simp: headers_ok_def)
  then have "map_of (engine_7732_headers_by_slot st) (ph_slot h) = Some (slot_roots st (ph_slot h))"
    by (cases "map_of (engine_7732_headers_by_slot st) (ph_slot h)") (simp_all add: slot_roots_def)
  then show ?thesis
    using mem by (simp add: add_slot_root_def Let_def hm_insert_def update_triv)
qed

inductive header_registered :: "'db NodeState \<Rightarrow> 'db NodeState \<Rightarrow> bool" where
  unchanged: "header_registered st st"
| added: "map_of (engine_7732_headers_by_root st) (ph_root h) = None \<Longrightarrow>
    header_registered st (add_slot_root
      (st\<lparr>engine_7732_headers_by_root := hm_insert (ph_root h) h (engine_7732_headers_by_root st)\<rparr>)
      (ph_slot h) (ph_root h))"

lemma store_header_effect: "headers_ok st \<Longrightarrow> header_registered st (snd (store_header host st h))"
  by (simp add: store_header_def Let_def add_slot_root_id header_registered.intros split: option.split)

lemma register_header_effect:
  assumes "headers_ok st" and "engine_7732_register_payload_header_response host now st req = Some (resp, st')"
  shows "header_registered st st'"
proof -
  from assms(2) obtain parsed where parsed:
      "(case parsed of Inl err \<Rightarrow> (invalid_response err, st) | Inr h \<Rightarrow> store_header host st h) = (resp, st')"
    unfolding engine_7732_register_payload_header_response_def map_option_eq_Some by blast
  show ?thesis
  proof (cases parsed)
    case (Inl err)
    with parsed show ?thesis by (simp add: header_registered.unchanged)
  next
    case (Inr h)
    with parsed store_header_effect [OF assms(1), of host h] show ?thesis by simp
  qed
qed

lemma header_registered_ok:
  assumes "header_registered st st'" and "tables_ok st"
  shows "tables_ok st'"
  using assms
  by cases (auto simp: tables_ok_def headers_ok_add_new envelopes_ok_def penalties_ok_def)

inductive envelope_registered :: "'db NodeState \<Rightarrow> 'db NodeState \<Rightarrow> bool" where
  unchanged: "envelope_registered st st"
| added: "map_of (engine_7732_envelopes_by_root st) (pe_root e) = None \<Longrightarrow>
    (\<forall>h. map_of (engine_7732_headers_by_root st) (pe_root e) = Some h \<longrightarrow> ph_slot h = pe_slot e) \<Longrightarrow>
    envelope_registered st
      (st\<lparr>engine_7732_envelopes_by_root := hm_insert (pe_root e) e (engine_7732_envelopes_by_root st)\<rparr>)"

lemma register_envelope_effect:
  "envelope_registered st (snd (engine_7732_register_payload_envelope_response host now st req))"
  by (auto simp: engine_7732_register_payload_envelope_response_def store_envelope_def Let_def
      split: sum.splits option.splits intro: envelope_registered.intros)

lemma envelope_registered_ok:
  assumes "envelope_registered st st'" and "tables_ok st"
  shows "tables_ok st'"
  using assms
  by cases (auto simp: tables_ok_def headers_ok_def envelopes_ok_def penalties_ok_def split: if_splits)

text \<open>What one check does to the record of its slot.\<close>

definition penalty_next ::
    "u64 \<Rightarrow> string \<Rightarrow> string \<Rightarrow> u64 \<Rightarrow> Engine7732PenaltyRecord option \<Rightarrow> Engine7732PenaltyRecord option" where
  "penalty_next slot status reason now old =
     (if engine_7732_is_timeliness_violation status then
        Some \<lparr>pp_slot = slot, pp_state = ''ACTIVE'', pp_reason = reason, pp_last_status = status,
              pp_activated_at_unix_s =
                (case old of Some p \<Rightarrow> if pp_state p = ''ACTIVE'' then pp_activated_at_unix_s p else now
                 | None \<Rightarrow> now),
              pp_recovered_at_unix_s = None\<rparr>
      else map_option (\<lambda>p.
        if pp_state p = ''RECOVERED'' then p\<lparr>pp_last_status := status\<rparr>
        else p\<lparr>pp_last_status := status, pp_state := ''RECOVERED'', pp_reason := reason,
               pp_recovered_at_unix_s := Some now\<rparr>) old)"

lemma map_of_update_penalty:
  assumes "penalties_ok st"
  shows "map_of (engine_7732_penalties_by_slot (snd (engine_7732_update_penalty_state st slot status reason now))) =
    (map_of (engine_7732_penalties_by_slot st))
      (slot := penalty_next slot status reason now (map_of (engine_7732_penalties_by_slot st) slot))"
proof (cases "map_of (engine_7732_penalties_by_slot st) slot")
  case None
  then show ?thesis
    by (auto simp: engine_7732_update_penalty_state_def penalty_next_def Let_def)
next
  case (Some p)
  then have "penalty_ok slot p" using assms by (simp add: penalties_ok_def)
  with Some show ?thesis
    by (cases p) (auto simp: engine_7732_update_penalty_state_def penalty_next_def penalty_ok_def Let_def)
qed

lemma penalty_next_ok:
  assumes "\<forall>p. old = Some p \<longrightarrow> penalty_ok slot p" and "penalty_next slot status reason now old = Some p"
  shows "penalty_ok slot p"
  using assms by (cases old) (auto simp: penalty_next_def penalty_ok_def split: if_splits)

lemma update_penalty_frame [simp]:
  "engine_7732_headers_by_slot (snd (engine_7732_update_penalty_state st slot status reason now)) =
     engine_7732_headers_by_slot st"
  "engine_7732_headers_by_root (snd (engine_7732_update_penalty_state st slot status reason now)) =
     engine_7732_headers_by_root st"
  "engine_7732_envelopes_by_root (snd (engine_7732_update_penalty_state st slot status reason now)) =
     engine_7732_envelopes_by_root st"
  "slot_roots (snd (engine_7732_update_penalty_state st slot status reason now)) = slot_roots st"
  by (simp_all add: engine_7732_update_penalty_state_def Let_def split: option.split)

lemma update_penalty_ok:
  assumes "tables_ok st"
  shows "tables_ok (snd (engine_7732_update_penalty_state st slot status reason now))"
proof -
  have "penalties_ok st" using assms by (simp add: tables_ok_def)
  then have "penalties_ok (snd (engine_7732_update_penalty_state st slot status reason now))"
    unfolding penalties_ok_def map_of_update_penalty [OF \<open>penalties_ok st\<close>]
    by simp (blast intro: penalty_next_ok)
  with assms show ?thesis by (simp add: tables_ok_def headers_ok_def envelopes_ok_def)
qed

section \<open>What the penalty of a slot says\<close>

text \<open>A sequence of checks of one slot, each with its status, reason and time.\<close>

type_synonym slot_check = "string \<times> string \<times> u64"

definition run_checks :: "u64 \<Rightarrow> slot_check list \<Rightarrow> 'db NodeState \<Rightarrow> 'db NodeState" where
  "run_checks slot = fold (\<lambda>(status, reason, now) st.
     snd (engine_7732_update_penalty_state st slot status reason now))"

definition violates :: "slot_check \<Rightarrow> bool" where
  "violates c \<longleftrightarrow> engine_7732_is_timeliness_violation (fst c)"

definition check_time :: "slot_check \<Rightarrow> u64" where
  "check_time c = snd (snd c)"

definition next_penalty :: "u64 \<Rightarrow> slot_check \<Rightarrow> Engine7732PenaltyRecord option \<Rightarrow> Engine7732PenaltyRecord option" where
  "next_penalty slot c = penalty_next slot (fst c) (fst (snd c)) (check_time c)"

lemma run_checks_simps [simp]:
  "run_checks slot [] st = st"
  "run_checks slot (c # cs) st = run_checks slot cs
     (snd (engine_7732_update_penalty_state st slot (fst c) (fst (snd c)) (check_time c)))"
  by (simp_all add: run_checks_def check_time_def case_prod_unfold)

lemma run_checks_ok: "tables_ok st \<Longrightarrow> tables_ok (run_checks slot cs st)"
  by (induction cs arbitrary: st) (simp_all add: update_penalty_ok)

lemma run_checks_penalties:
  "tables_ok st \<Longrightarrow> map_of (engine_7732_penalties_by_slot (run_checks slot cs st)) slot =
     fold (next_penalty slot) cs (map_of (engine_7732_penalties_by_slot st) slot)"
proof (induction cs arbitrary: st)
  case (Cons c cs)
  from Cons.prems have "penalties_ok st" by (simp add: tables_ok_def)
  with Cons show ?case by (simp add: update_penalty_ok map_of_update_penalty next_penalty_def)
qed simp

lemma next_penalty_violates:
  "violates c \<Longrightarrow> next_penalty slot c old =
     Some \<lparr>pp_slot = slot, pp_state = ''ACTIVE'', pp_reason = fst (snd c), pp_last_status = fst c,
           pp_activated_at_unix_s =
             (case old of Some p \<Rightarrow> if pp_state p = ''ACTIVE'' then pp_activated_at_unix_s p else check_time c
              | None \<Rightarrow> check_time c),
           pp_recovered_at_unix_s = None\<rparr>"
  by (simp add: next_penalty_def penalty_next_def violates_def)

lemma next_penalty_quiet:
  "\<not> violates c \<Longrightarrow> next_penalty slot c old =
     map_option (\<lambda>p. if pp_state p = ''RECOVERED'' then p\<lparr>pp_last_status := fst c\<rparr>
       else p\<lparr>pp_last_status := fst c, pp_state := ''RECOVERED'', pp_reason := fst (snd c),
              pp_recovered_at_unix_s := Some (check_time c)\<rparr>) old"
  by (simp add: next_penalty_def penalty_next_def violates_def)

lemma quiet_penalty:
  "cs = [] \<or> \<not> violates (last cs) \<Longrightarrow>
     fold (next_penalty slot) cs None = Some p \<Longrightarrow> pp_state p = ''RECOVERED''"
  by (cases cs rule: rev_cases) (auto simp del: split_paired_All simp: next_penalty_quiet)

lemma violating_penalty:
  assumes "vs \<noteq> []" and "\<forall>c \<in> set vs. violates c"
    and "\<forall>p. old = Some p \<longrightarrow> pp_state p \<noteq> ''ACTIVE''"
  shows "\<exists>p. fold (next_penalty slot) vs old = Some p \<and> pp_state p = ''ACTIVE'' \<and>
    pp_activated_at_unix_s p = check_time (hd vs) \<and> pp_recovered_at_unix_s p = None \<and>
    pp_last_status p = fst (last vs)"
  using assms
proof (induction vs rule: rev_nonempty_induct)
  case (single c)
  then show ?case by (auto simp: next_penalty_violates split: option.split)
next
  case (snoc c cs)
  then obtain p where "fold (next_penalty slot) cs old = Some p" and "pp_state p = ''ACTIVE''"
    and "pp_activated_at_unix_s p = check_time (hd cs)" by auto
  with snoc.prems snoc.hyps show ?case by (simp add: next_penalty_violates)
qed

lemma recovering_penalty:
  assumes "\<forall>c \<in> set gs. \<not> violates c" and "pp_state p = ''ACTIVE''" and "pp_recovered_at_unix_s p = None"
  shows "\<exists>q. fold (next_penalty slot) gs (Some p) = Some q \<and>
    pp_state q = (if gs = [] then ''ACTIVE'' else ''RECOVERED'') \<and>
    pp_activated_at_unix_s q = pp_activated_at_unix_s p \<and>
    pp_recovered_at_unix_s q = (if gs = [] then None else Some (check_time (hd gs))) \<and>
    pp_last_status q = (if gs = [] then pp_last_status p else fst (last gs))"
  using assms
proof (induction gs rule: rev_induct)
  case Nil
  then show ?case by simp
next
  case (snoc c cs)
  then obtain q where "fold (next_penalty slot) cs (Some p) = Some q"
    and "pp_state q = (if cs = [] then ''ACTIVE'' else ''RECOVERED'')"
    and "pp_activated_at_unix_s q = pp_activated_at_unix_s p"
    and "pp_recovered_at_unix_s q = (if cs = [] then None else Some (check_time (hd cs)))" by auto
  with snoc.prems show ?case by (cases cs) (simp_all add: next_penalty_quiet)
qed

text \<open>The penalty record of a slot tells its history: after any checks of the slot whose last
  violations are the run \<open>vs\<close>, followed by the checks \<open>gs\<close> that found none, it is active since
  the first check of the run if \<open>gs\<close> is empty, and otherwise recovered at the first check of \<open>gs\<close>;
  a slot that was never found in violation has no record.\<close>

theorem penalty_history:
  assumes "tables_ok st" and "map_of (engine_7732_penalties_by_slot st) slot = None"
    and "cs = pre @ vs @ gs" and "pre = [] \<or> \<not> violates (last pre)"
    and "\<forall>c \<in> set vs. violates c" and "\<forall>c \<in> set gs. \<not> violates c" and "vs = [] \<longrightarrow> pre = []"
  shows "case map_of (engine_7732_penalties_by_slot (run_checks slot cs st)) slot of
      None \<Rightarrow> vs = []
    | Some p \<Rightarrow> vs \<noteq> [] \<and>
        pp_state p = (if gs = [] then ''ACTIVE'' else ''RECOVERED'') \<and>
        pp_activated_at_unix_s p = check_time (hd vs) \<and>
        pp_recovered_at_unix_s p = (if gs = [] then None else Some (check_time (hd gs))) \<and>
        pp_last_status p = fst (last cs)"
proof (cases "vs = []")
  case True
  have "fold (next_penalty slot) gs None = None"
    using assms(6) by (induction gs) (simp_all add: next_penalty_quiet)
  with True assms show ?thesis by (simp add: run_checks_penalties)
next
  case False
  let ?old = "fold (next_penalty slot) pre None"
  have "\<forall>p. ?old = Some p \<longrightarrow> pp_state p \<noteq> ''ACTIVE''" using quiet_penalty [OF assms(4)] by fastforce
  from violating_penalty [OF False assms(5) this] obtain p
    where p: "fold (next_penalty slot) vs ?old = Some p" "pp_state p = ''ACTIVE''"
      "pp_activated_at_unix_s p = check_time (hd vs)" "pp_recovered_at_unix_s p = None"
      "pp_last_status p = fst (last vs)" by blast
  from recovering_penalty [OF assms(6) p(2,4), of slot] obtain q
    where q: "fold (next_penalty slot) gs (Some p) = Some q"
      "pp_state q = (if gs = [] then ''ACTIVE'' else ''RECOVERED'')"
      "pp_activated_at_unix_s q = pp_activated_at_unix_s p"
      "pp_recovered_at_unix_s q = (if gs = [] then None else Some (check_time (hd gs)))"
      "pp_last_status q = (if gs = [] then pp_last_status p else fst (last gs))" by blast
  have "map_of (engine_7732_penalties_by_slot (run_checks slot cs st)) slot = Some q"
    using assms(1-3) p(1) q(1) by (simp add: run_checks_penalties)
  with q p(3,5) False assms(3) show ?thesis by simp
qed

section \<open>What the status of a slot says\<close>

lemma slot_roots_iff:
  "headers_ok st \<Longrightarrow> root \<in> set (slot_roots st slot) \<longleftrightarrow>
     (\<exists>h. map_of (engine_7732_headers_by_root st) root = Some h \<and> ph_slot h = slot)"
  by (simp add: headers_ok_def)

lemma reveal_cases:
  "revealed_on_time st deadline root \<longleftrightarrow> \<not> pending_reveal st root \<and> \<not> late_reveal st deadline root"
  by (auto simp: revealed_on_time_def late_reveal_def pending_reveal_def split: option.splits)

lemma aggregate_violation:
  assumes "slot_roots st slot \<noteq> []"
  shows "engine_7732_is_timeliness_violation (aggregate_status host st slot now) \<longleftrightarrow>
    (if \<exists>r \<in> set (slot_roots st slot). pending_reveal st r
     then engine_7732_slot_deadline_unix_s st slot < now
     else \<exists>r \<in> set (slot_roots st slot). late_reveal st (engine_7732_slot_deadline_unix_s st slot) r)"
  using assms
  by (auto simp: engine_7732_is_timeliness_violation_def aggregate_status_def Let_def filter_empty_conv)

lemma aggregate_revealed:
  "aggregate_status host st slot now = ''REVEALED'' \<longleftrightarrow> slot_roots st slot \<noteq> [] \<and>
     (\<forall>r \<in> set (slot_roots st slot). revealed_on_time st (engine_7732_slot_deadline_unix_s st slot) r)"
  by (auto simp: aggregate_status_def Let_def filter_empty_conv reveal_cases)

lemma aggregate_no_headers:
  "slot_roots st slot = [] \<Longrightarrow> \<not> engine_7732_is_timeliness_violation (aggregate_status host st slot now)"
  by (auto simp: engine_7732_is_timeliness_violation_def aggregate_status_def Let_def)

text \<open>C27.  The status of a slot is right.  It is \<open>REVEALED\<close> exactly when headers are registered for
  the slot and each has an envelope revealed by the deadline, twelve seconds after the start of the
  slot.  The slot is in violation exactly when some header registered for it has no envelope and the
  deadline has passed, or all have one and one was revealed late.  If, besides, no envelope claims to
  have been revealed in the future (the time comes from the request that registers it), that means:
  the deadline has passed and some header has no envelope revealed by then.\<close>

theorem timeliness_status_sound:
  fixes host :: "'db host" and st :: "'db NodeState" and slot now :: u64
  assumes "headers_ok st"
  defines "deadline \<equiv> engine_7732_slot_deadline_unix_s st slot"
    and "registered \<equiv> \<lambda>root. \<exists>h. map_of (engine_7732_headers_by_root st) root = Some h \<and> ph_slot h = slot"
    and "violation \<equiv> engine_7732_is_timeliness_violation (aggregate_status host st slot now)"
  shows "unat deadline = min (unat (started_at_unix_s st) + 12 * unat slot + 12) (2 ^ 64 - 1) \<and>
    (aggregate_status host st slot now = ''REVEALED'' \<longleftrightarrow>
      (\<exists>root. registered root) \<and> (\<forall>root. registered root \<longrightarrow> revealed_on_time st deadline root)) \<and>
    (violation \<longleftrightarrow>
      deadline < now \<and> (\<exists>root. registered root \<and> pending_reveal st root) \<or>
      (\<forall>root. registered root \<longrightarrow> \<not> pending_reveal st root) \<and>
        (\<exists>root. registered root \<and> late_reveal st deadline root)) \<and>
    ((\<forall>root e. map_of (engine_7732_envelopes_by_root st) root = Some e \<longrightarrow> pe_revealed_at_unix_s e \<le> now) \<longrightarrow>
      (violation \<longleftrightarrow> deadline < now \<and> (\<exists>root. registered root \<and> \<not> revealed_on_time st deadline root)))"
proof -
  let ?roots = "slot_roots st slot"
  have roots: "root \<in> set ?roots \<longleftrightarrow> registered root" for root
    unfolding registered_def by (rule slot_roots_iff [OF assms(1)])
  then have some: "?roots \<noteq> [] \<longleftrightarrow> (\<exists>root. registered root)" by (metis ex_in_conv set_empty)
  have "unat deadline = min (unat (started_at_unix_s st) + 12 * unat slot + 12) (2 ^ 64 - 1)"
    by (simp add: deadline_def engine_7732_slot_deadline_unix_s_def sat_simps)
  moreover have "aggregate_status host st slot now = ''REVEALED'' \<longleftrightarrow>
      (\<exists>root. registered root) \<and> (\<forall>root. registered root \<longrightarrow> revealed_on_time st deadline root)"
    unfolding aggregate_revealed some Ball_def roots deadline_def ..
  moreover have exact: "violation \<longleftrightarrow>
      deadline < now \<and> (\<exists>root. registered root \<and> pending_reveal st root) \<or>
      (\<forall>root. registered root \<longrightarrow> \<not> pending_reveal st root) \<and>
        (\<exists>root. registered root \<and> late_reveal st deadline root)"
  proof (cases "?roots = []")
    case True
    with some aggregate_no_headers [OF True] show ?thesis by (simp add: violation_def)
  next
    case False
    from aggregate_violation [OF this, of host now] show ?thesis
      unfolding violation_def deadline_def Bex_def roots by auto
  qed
  moreover have "violation \<longleftrightarrow> deadline < now \<and> (\<exists>root. registered root \<and> \<not> revealed_on_time st deadline root)"
    if "\<forall>root e. map_of (engine_7732_envelopes_by_root st) root = Some e \<longrightarrow> pe_revealed_at_unix_s e \<le> now"
  proof -
    have "late_reveal st deadline root \<Longrightarrow> deadline < now" for root
      using that by (force simp: late_reveal_def split: option.splits)
    then show ?thesis unfolding exact reveal_cases by blast
  qed
  ultimately show ?thesis by blast
qed

section \<open>Ranges are bounded\<close>

text \<open>A range query answers for at most 256 slots, whatever range is asked for: for the slots from
  the start on, in order and without gaps, as many of them as the range has, and none after its
  end; an empty range is refused.\<close>

theorem slot_window_bounds:
  "case window_of_req st req of
     Inl _ \<Rightarrow> \<exists>a b. u64_of_req ''endSlot'' 1 req = Some b \<and> b < a \<and>
       a = unwrap_or (u64_of_req ''startSlot'' 0 req) (next_slot st)
   | Inr w \<Rightarrow>
       map unat (slots_of w) = [unat (start_slot w)..<unat (start_slot w) + length (slots_of w)] \<and>
       length (slots_of w) = min 256 (unat (end_slot w) - unat (start_slot w) + 1) \<and>
       unat (slot_count w) = length (slots_of w) \<and> start_slot w \<le> end_slot w"
proof (cases "window_of_req st req")
  case (Inl err)
  then show ?thesis
    by (cases "u64_of_req ''endSlot'' 1 req") (auto simp: window_of_req_def Let_def split: if_splits)
next
  case (Inr w)
  then have le: "start_slot w \<le> end_slot w"
    and n: "slot_count w = min (sat_add (sat_sub (end_slot w) (start_slot w)) 1) MAX_SLOT_WINDOW"
    and stop: "effective_end_slot w = sat_add (start_slot w) (sat_sub (slot_count w) 1)"
    by (auto simp: window_of_req_def Let_def split: if_splits)
  let ?a = "unat (start_slot w)" and ?b = "unat (end_slot w)"
  have ab: "?a \<le> ?b" "?b < 2 ^ 64" using le unat_le_max [of "end_slot w"] by (simp_all add: word_le_nat_alt)
  have count: "unat (slot_count w) = min 256 (?b - ?a + 1)"
    using ab unfolding n by (simp add: sat_simps MAX_SLOT_WINDOW_def min_def word_le_nat_alt)
  have last: "unat (effective_end_slot w) = ?a + unat (slot_count w) - 1"
    using ab count unfolding stop by (simp add: sat_simps)
  have len: "length (slots_of w) = unat (slot_count w)"
    using ab count by (simp add: slots_of_def last)
  have "map unat (slots_of w) = map (\<lambda>i. unat (of_nat i :: u64)) [?a..<?a + unat (slot_count w)]"
    using ab count by (simp add: slots_of_def last Suc_diff_Suc)
  also have "\<dots> = map (\<lambda>i. i) [?a..<?a + unat (slot_count w)]"
    using ab count by (intro map_cong) (auto simp: unsigned_of_nat take_bit_nat_eq_self)
  finally show ?thesis using Inr len count le by simp
qed

section \<open>Registering headers and envelopes\<close>

lemma store_header_new:
  assumes "headers_ok st" and "map_of (engine_7732_headers_by_root st) (ph_root h) = None"
    and "store_header host st h = (resp, st')"
  shows "jget ''status'' resp = Some (JString ''ACCEPTED'')" and "jget ''replayStatus'' resp = Some (JString ''NEW'')"
    and "map_of (engine_7732_headers_by_root st') = (map_of (engine_7732_headers_by_root st))(ph_root h \<mapsto> h)"
    and "slot_roots st' = (slot_roots st)(ph_slot h := slot_roots st (ph_slot h) @ [ph_root h])"
    and "engine_7732_envelopes_by_root st' = engine_7732_envelopes_by_root st"
proof -
  have "ph_root h \<notin> set (slot_roots st (ph_slot h))" using assms(1,2) by (simp add: slot_roots_iff)
  with assms show "jget ''status'' resp = Some (JString ''ACCEPTED'')"
    and "jget ''replayStatus'' resp = Some (JString ''NEW'')"
    and "map_of (engine_7732_headers_by_root st') = (map_of (engine_7732_headers_by_root st))(ph_root h \<mapsto> h)"
    and "slot_roots st' = (slot_roots st)(ph_slot h := slot_roots st (ph_slot h) @ [ph_root h])"
    and "engine_7732_envelopes_by_root st' = engine_7732_envelopes_by_root st"
    by (auto simp: store_header_def header_accepted_def Let_def fun_eq_iff)
qed

lemma header_conflicts_iff:
  "engine_7732_header_conflicts old h \<longleftrightarrow> old\<lparr>ph_received_at_unix_s := ph_received_at_unix_s h\<rparr> \<noteq> h"
  by (cases old; cases h) (auto simp: engine_7732_header_conflicts_def)

text \<open>Registering a header: one with a new root is accepted, stored, and listed last for its slot;
  one whose root is known changes nothing, and is accepted as a duplicate exactly when it repeats
  the stored header, up to the time it was received, and refused as a conflict otherwise.\<close>

theorem header_registration_outcome:
  assumes "headers_ok st"
    and "engine_7732_parse_header_record host now req (sat_add (current_height st) 1) = Some (Inr h)"
  shows "\<exists>resp st'. engine_7732_register_payload_header_response host now st req = Some (resp, st') \<and>
    (case map_of (engine_7732_headers_by_root st) (ph_root h) of
       None \<Rightarrow> jget ''status'' resp = Some (JString ''ACCEPTED'') \<and>
         jget ''replayStatus'' resp = Some (JString ''NEW'') \<and>
         map_of (engine_7732_headers_by_root st') = (map_of (engine_7732_headers_by_root st))(ph_root h \<mapsto> h) \<and>
         slot_roots st' = (slot_roots st)(ph_slot h := slot_roots st (ph_slot h) @ [ph_root h])
     | Some old \<Rightarrow> st' = st \<and>
         (if old\<lparr>ph_received_at_unix_s := ph_received_at_unix_s h\<rparr> = h
          then jget ''status'' resp = Some (JString ''ACCEPTED'') \<and>
            jget ''replayStatus'' resp = Some (JString ''DUPLICATE'')
          else jget ''status'' resp = Some (JString ''INVALID'')))"
proof -
  obtain resp st' where r: "store_header host st h = (resp, st')" by fastforce
  have reg: "engine_7732_register_payload_header_response host now st req = Some (resp, st')"
    using assms(2) r by (simp add: engine_7732_register_payload_header_response_def)
  show ?thesis
  proof (cases "map_of (engine_7732_headers_by_root st) (ph_root h)")
    case None
    with reg store_header_new [OF assms(1) None r] show ?thesis by simp
  next
    case (Some old)
    have "st' = st \<and> (if engine_7732_header_conflicts old h
        then jget ''status'' resp = Some (JString ''INVALID'')
        else jget ''status'' resp = Some (JString ''ACCEPTED'') \<and>
          jget ''replayStatus'' resp = Some (JString ''DUPLICATE''))"
      using r Some add_slot_root_id [OF assms(1) Some]
      by (auto simp: store_header_def header_accepted_def Let_def split: if_splits)
    with reg Some show ?thesis unfolding header_conflicts_iff by (simp split: if_splits)
  qed
qed

text \<open>The slot of an envelope is compared with the slot of its header only when the header comes
  first.  For a header and an envelope with the same root and different slots, registering the
  header first makes the envelope be refused; registering the envelope first makes the daemon
  accept both, and the header then counts as revealed.\<close>

theorem envelope_first_skips_slot_check:
  assumes "headers_ok st"
    and "engine_7732_parse_header_record host now hreq (sat_add (current_height st) 1) = Some (Inr h)"
    and "engine_7732_parse_envelope_record host now ereq (sat_add (current_height st) 1) = Inr e"
    and "ph_root h = pe_root e" and "ph_slot h \<noteq> pe_slot e"
    and "map_of (engine_7732_headers_by_root st) (pe_root e) = None"
    and "map_of (engine_7732_envelopes_by_root st) (pe_root e) = None"
  shows "(\<exists>r1 st1 r2. engine_7732_register_payload_header_response host now st hreq = Some (r1, st1) \<and>
      engine_7732_register_payload_envelope_response host now st1 ereq = (r2, st1) \<and>
      jget ''status'' r2 = Some (JString ''INVALID'')) \<and>
    (\<exists>r1 st1 r2 st2. engine_7732_register_payload_envelope_response host now st ereq = (r1, st1) \<and>
      engine_7732_register_payload_header_response host now st1 hreq = Some (r2, st2) \<and>
      jget ''status'' r1 = Some (JString ''ACCEPTED'') \<and> jget ''status'' r2 = Some (JString ''ACCEPTED'') \<and>
      map_of (engine_7732_headers_by_root st2) (ph_root h) = Some h \<and>
      map_of (engine_7732_envelopes_by_root st2) (ph_root h) = Some e)"
proof
  obtain r1 st1 where r: "store_header host st h = (r1, st1)" by fastforce
  have new: "map_of (engine_7732_headers_by_root st) (ph_root h) = None" using assms(4,6) by simp
  note s = store_header_new [OF assms(1) new r]
  have "current_height st1 = current_height st"
    using r new by (auto simp: store_header_def Let_def)
  then show "\<exists>r1 st1 r2. engine_7732_register_payload_header_response host now st hreq = Some (r1, st1) \<and>
      engine_7732_register_payload_envelope_response host now st1 ereq = (r2, st1) \<and>
      jget ''status'' r2 = Some (JString ''INVALID'')"
    using assms(2-5) r s(3)
    by (simp add: engine_7732_register_payload_header_response_def invalid_response_def
        engine_7732_register_payload_envelope_response_def)
next
  define st1 where "st1 = st\<lparr>engine_7732_envelopes_by_root :=
    hm_insert (pe_root e) e (engine_7732_envelopes_by_root st)\<rparr>"
  have ok: "headers_ok st1" using assms(1) by (simp add: headers_ok_def st1_def)
  obtain r2 st2 where r: "store_header host st1 h = (r2, st2)" by fastforce
  have new: "map_of (engine_7732_headers_by_root st1) (ph_root h) = None" using assms(4,6) by (simp add: st1_def)
  note s = store_header_new [OF ok new r]
  have "engine_7732_register_payload_envelope_response host now st ereq =
      (envelope_accepted ''NEW'' e (pe_root e) ''ORPHAN'', st1)"
    using assms(3,6,7)
    by (simp add: engine_7732_register_payload_envelope_response_def store_envelope_def st1_def Let_def)
  moreover have "engine_7732_register_payload_header_response host now st1 hreq = Some (r2, st2)"
    using assms(2) r by (simp add: engine_7732_register_payload_header_response_def st1_def)
  moreover have "map_of (engine_7732_envelopes_by_root st2) (ph_root h) = Some e"
    using s(5) assms(4) by (simp add: st1_def)
  ultimately show "\<exists>r1 st1 r2 st2. engine_7732_register_payload_envelope_response host now st ereq = (r1, st1) \<and>
      engine_7732_register_payload_header_response host now st1 hreq = Some (r2, st2) \<and>
      jget ''status'' r1 = Some (JString ''ACCEPTED'') \<and> jget ''status'' r2 = Some (JString ''ACCEPTED'') \<and>
      map_of (engine_7732_headers_by_root st2) (ph_root h) = Some h \<and>
      map_of (engine_7732_envelopes_by_root st2) (ph_root h) = Some e"
    using s(1,3) by (simp add: envelope_accepted_def)
qed

text \<open>A bid that the integer type refuses takes the daemon down.\<close>

lemma oversized_bid_panics:
  assumes "engine_7732_payload_header_source req = Some source"
    and "jget ''bidValue'' (message_of source) = Some (JString s)"
    and "parse_hex_bytes host s = Some bs" and "u256_from_be_slice host bs = None"
  shows "engine_7732_register_payload_header_response host now st req = None"
  using assms
  by (simp add: engine_7732_register_payload_header_response_def engine_7732_parse_header_record_def
      parse_u256_value_def parse_hex_u256_def Let_def)

section \<open>Instances\<close>

definition sample_host :: "unit host" where
  "sample_host =
     \<lparr>hex_encode = (\<lambda>_. ''00''), hex_decode = (\<lambda>_. Some []), u256_from_be_slice = (\<lambda>_. Some 0),
      u256_lower_hex = (\<lambda>_. ''0''), host_keccak = (\<lambda>bs. bs), json_to_string = (\<lambda>_. Some []),
      db_basic = (\<lambda>db _. (None, db)), envelope_order = (\<lambda>xs. xs)\<rparr>"

definition sample_header_req :: "u64 \<Rightarrow> json" where
  "sample_header_req slot = JObject [(''payloadHeader'', JObject []), (''slot'', jnum slot)]"

definition sample_envelope_req :: "u64 \<Rightarrow> json" where
  "sample_envelope_req slot = JObject [(''payloadEnvelope'', JObject []), (''slot'', jnum slot)]"

lemma start_headers_ok: "headers_ok (build_state db now)"
  by (simp add: headers_ok_def build_state_def slot_roots_def)

lemma start_tables_ok: "tables_ok (build_state db now)"
  unfolding tables_ok_def using start_headers_ok by (simp add: envelopes_ok_def penalties_ok_def build_state_def)

lemmas sample_defs = sample_host_def sample_header_req_def sample_envelope_req_def build_state_def jnum_def
  engine_7732_parse_header_record_def engine_7732_parse_envelope_record_def
  engine_7732_payload_header_source_def engine_7732_payload_envelope_source_def message_of_def
  slot_of_message_def time_of_message_def parse_u64_value_def root_or_hash_def bytes_to_hex_def
  engine_7732_payload_header_root_from_value_def normalize_hash32_value_def ascii_def name_value_def

theorem penalty_history_witness:
  "case map_of (engine_7732_penalties_by_slot
      (run_checks 3 [(''WITHHELD'', ''late'', 60), (''REVEALED'', ''ok'', 70)] (build_state () 0))) 3 of
     None \<Rightarrow> False
   | Some p \<Rightarrow> pp_state p = ''RECOVERED'' \<and> pp_activated_at_unix_s p = 60 \<and> pp_recovered_at_unix_s p = Some 70"
  using penalty_history [OF start_tables_ok, of "()" 0 3 "[(''WITHHELD'', ''late'', 60), (''REVEALED'', ''ok'', 70)]"
      "[]" "[(''WITHHELD'', ''late'', 60)]" "[(''REVEALED'', ''ok'', 70)]"]
  by (simp add: violates_def check_time_def engine_7732_is_timeliness_violation_def
      build_state_def [of "()" 0] split: option.splits)

lemma sample_parses:
  "engine_7732_parse_header_record sample_host 5 (sample_header_req slot) fallback =
     Some (Inr \<lparr>ph_slot = slot, ph_root = ''0x00'', ph_parent_beacon_block_root = None,
       ph_execution_block_hash = None, ph_proposer = None, ph_bid_value_wei = None, ph_view_id = None,
       ph_received_at_unix_s = 5\<rparr>)"
  "engine_7732_parse_envelope_record sample_host 5 (sample_envelope_req slot) fallback =
     Inr \<lparr>pe_slot = slot, pe_root = ''0x00'', pe_execution_block_hash = None, pe_payload_body_hash = None,
       pe_signer = None, pe_data_available = True, pe_revealed_at_unix_s = 5\<rparr>"
  by (simp_all add: sample_defs)

lemma start_empty [simp]:
  "engine_7732_headers_by_root (build_state db now) = []"
  "engine_7732_envelopes_by_root (build_state db now) = []"
  "current_height (build_state db now) = 0"
  by (simp_all add: build_state_def)

definition sample_registered :: "unit NodeState" where
  "sample_registered =
     snd (the (engine_7732_register_payload_header_response sample_host 5 (build_state () 0) (sample_header_req 3)))"

theorem timeliness_status_sound_witness:
  "engine_7732_is_timeliness_violation (aggregate_status sample_host sample_registered 3 1000)"
proof -
  have reg: "engine_7732_headers_by_root sample_registered =
      [(''0x00'', \<lparr>ph_slot = 3, ph_root = ''0x00'', ph_parent_beacon_block_root = None,
        ph_execution_block_hash = None, ph_proposer = None, ph_bid_value_wei = None, ph_view_id = None,
        ph_received_at_unix_s = 5\<rparr>)]"
    and envs: "engine_7732_envelopes_by_root sample_registered = []"
    and start: "started_at_unix_s sample_registered = 0"
    by (simp_all add: sample_registered_def engine_7732_register_payload_header_response_def sample_parses
        store_header_def Let_def) (simp add: build_state_def)
  have "tables_ok sample_registered"
    by (simp add: sample_registered_def engine_7732_register_payload_header_response_def sample_parses
        header_registered_ok [OF store_header_effect [OF start_headers_ok] start_tables_ok])
  then have "headers_ok sample_registered" by (simp add: tables_ok_def)
  note spec = timeliness_status_sound [OF this, of 3 sample_host 1000]
  have "engine_7732_slot_deadline_unix_s sample_registered 3 < 1000"
    using spec [THEN conjunct1] by (simp add: start word_less_nat_alt)
  moreover have "\<exists>h. map_of (engine_7732_headers_by_root sample_registered) ''0x00'' = Some h \<and> ph_slot h = 3"
    by (simp add: reg)
  moreover have "\<not> revealed_on_time sample_registered deadline ''0x00''" for deadline
    by (simp add: revealed_on_time_def envs)
  moreover have "\<forall>root e. map_of (engine_7732_envelopes_by_root sample_registered) root = Some e \<longrightarrow>
      pe_revealed_at_unix_s e \<le> 1000" by (simp add: envs)
  ultimately show ?thesis using spec [THEN conjunct2, THEN conjunct2, THEN conjunct2] by blast
qed

theorem header_registration_outcome_witness:
  "\<exists>resp st'. engine_7732_register_payload_header_response sample_host 5 (build_state () 0) (sample_header_req 3) =
     Some (resp, st') \<and> jget ''replayStatus'' resp = Some (JString ''NEW'')"
  using header_registration_outcome [OF start_headers_ok [of "()" 0] sample_parses(1) [of 3]] by auto

theorem envelope_first_skips_slot_check_witness:
  "\<exists>r1 st1 r2 st2. engine_7732_register_payload_envelope_response sample_host 5 (build_state () 0)
      (sample_envelope_req 4) = (r1, st1) \<and>
    engine_7732_register_payload_header_response sample_host 5 st1 (sample_header_req 3) = Some (r2, st2) \<and>
    jget ''status'' r2 = Some (JString ''ACCEPTED'')"
  using envelope_first_skips_slot_check [OF start_headers_ok [of "()" 0] sample_parses(1) [of 3] sample_parses(2) [of 4]]
  by auto

end
