(* ===== verification/Inclusion_Lists.thy ===== *)
theory Inclusion_Lists
  imports Payload_Timeliness
begin

text \<open>
  Fork-choice enforced inclusion lists in the node daemon
  \<open>crates/eth2077-node/src/bin/eth2077-devnetd.rs\<close>: a fork-choice update sets the list of
  transactions the next payload must include, asking for the list freezes it for its slot, and
  a new payload is checked against it.  The last part is the dispatch of all engine methods
  and the states they can reach.
\<close>

section \<open>Reading inclusion lists and payloads\<close>

definition EngineTxMeta_hash :: "string \<Rightarrow> EngineTxMeta" where
  "EngineTxMeta_hash h =
     \<lparr>tm_hash = h, tm_from = None, tm_nonce = None, tm_gas_limit = None, tm_gas_price = None, tm_value = None\<rparr>"

text \<open>One item: the outer option is a panic, the inner one \<open>None\<close> for an item that is skipped.\<close>

definition tx_meta_of_item :: "'db host \<Rightarrow> json \<Rightarrow> EngineTxMeta option option" where
  "tx_meta_of_item host item =
     (case Option.bind (as_str item) normalize_hash32 of
        Some h \<Rightarrow> Some (Some (EngineTxMeta_hash h))
      | None \<Rightarrow>
          if is_object item then
            (case normalize_hash32_value (jget_any [''hash'', ''txHash'', ''transactionHash''] item) of
               None \<Rightarrow> Some None
             | Some h \<Rightarrow>
                 do {
                   v \<leftarrow> (case jget ''value'' item of None \<Rightarrow> Some None | Some x \<Rightarrow> parse_u256_value host x);
                   Some (Some
                     \<lparr>tm_hash = h,
                      tm_from = do { x \<leftarrow> jget ''from'' item; s \<leftarrow> as_str x; canonical_address s },
                      tm_nonce = Option.bind (jget ''nonce'' item) parse_u64_value,
                      tm_gas_limit = Option.bind (jget_any [''gas'', ''gasLimit''] item) parse_u64_value,
                      tm_gas_price = Option.bind (jget_any [''maxFeePerGas'', ''gasPrice''] item) parse_u128_value,
                      tm_value = v\<rparr>)
                 })
          else Some None)"

fun dedup_metas :: "'db host \<Rightarrow> string set \<Rightarrow> json list \<Rightarrow> EngineTxMeta list option" where
  "dedup_metas host seen [] = Some []"
| "dedup_metas host seen (item # items) =
     (case tx_meta_of_item host item of
        None \<Rightarrow> None
      | Some None \<Rightarrow> dedup_metas host seen items
      | Some (Some m) \<Rightarrow>
          if tm_hash m \<in> seen then dedup_metas host seen items
          else map_option (Cons m) (dedup_metas host (insert (tm_hash m) seen) items))"

definition dedup_tx_meta_array :: "'db host \<Rightarrow> json \<Rightarrow> EngineTxMeta list option" where
  "dedup_tx_meta_array host v =
     (case as_array v of None \<Rightarrow> Some [] | Some items \<Rightarrow> dedup_metas host {} items)"

definition payload_attributes_from_engine_request :: "json \<Rightarrow> json option" where
  "payload_attributes_from_engine_request req =
     or_else (jget ''payloadAttributes'' req) (Option.bind (param 1 req) (jget ''payloadAttributes''))"

definition execution_payload_from_engine_request :: "json \<Rightarrow> json option" where
  "execution_payload_from_engine_request req =
     or_else (jget ''executionPayload'' req)
       (Option.bind (param 0 req) (\<lambda>payload. or_else (jget ''executionPayload'' payload) (Some payload)))"

definition engine_request_has_inclusion_list :: "json \<Rightarrow> bool" where
  "engine_request_has_inclusion_list req =
     (case payload_attributes_from_engine_request req of
        None \<Rightarrow> False
      | Some attrs \<Rightarrow> jget ''inclusionListTransactions'' attrs \<noteq> None \<or> jget ''inclusionList'' attrs \<noteq> None)"

definition engine_collect_inclusion_list_entries :: "'db host \<Rightarrow> json \<Rightarrow> EngineTxMeta list option" where
  "engine_collect_inclusion_list_entries host req =
     (case payload_attributes_from_engine_request req of
        None \<Rightarrow> Some []
      | Some attrs \<Rightarrow>
          (case jget ''inclusionListTransactions'' attrs of
             Some txs \<Rightarrow> dedup_tx_meta_array host txs
           | None \<Rightarrow>
               (case jget ''inclusionList'' attrs of
                  Some il \<Rightarrow> dedup_tx_meta_array host (unwrap_or (jget ''transactions'' il) il)
                | None \<Rightarrow> Some [])))"

definition engine_collect_payload_transaction_entries :: "'db host \<Rightarrow> json \<Rightarrow> EngineTxMeta list option" where
  "engine_collect_payload_transaction_entries host req =
     (case or_else (Option.bind (execution_payload_from_engine_request req) (jget ''transactions''))
             (jget ''transactions'' req) of
        Some txs \<Rightarrow> dedup_tx_meta_array host txs
      | None \<Rightarrow> Some [])"

fun dedup_members :: "string set \<Rightarrow> json list \<Rightarrow> string list" where
  "dedup_members seen [] = []"
| "dedup_members seen (item # items) =
     (case as_str item of
        None \<Rightarrow> dedup_members seen items
      | Some raw \<Rightarrow>
          let member = unwrap_or (canonical_address raw) (to_ascii_lowercase (trim raw)) in
          if member \<in> seen then dedup_members seen items
          else member # dedup_members (insert member seen) items)"

definition dedup_string_array :: "json \<Rightarrow> string list" where
  "dedup_string_array v = (case as_array v of None \<Rightarrow> [] | Some items \<Rightarrow> dedup_members {} items)"

definition engine_collect_committee_members :: "json \<Rightarrow> string list" where
  "engine_collect_committee_members req =
     (case payload_attributes_from_engine_request req of
        None \<Rightarrow> []
      | Some attrs \<Rightarrow>
          (case or_else (jget_any [''inclusionListCommittee'', ''committee''] attrs)
                  (Option.bind (jget ''inclusionList'' attrs) (jget ''committee'')) of
             Some committee \<Rightarrow> dedup_string_array committee
           | None \<Rightarrow> []))"

definition engine_slot_from_payload_attributes :: "json \<Rightarrow> u64 option" where
  "engine_slot_from_payload_attributes req =
     do { attrs \<leftarrow> payload_attributes_from_engine_request req; v \<leftarrow> jget ''slot'' attrs; parse_u64_value v }"

definition engine_view_id_from_payload_attributes :: "json \<Rightarrow> u64 option" where
  "engine_view_id_from_payload_attributes req =
     do {
       attrs \<leftarrow> payload_attributes_from_engine_request req;
       v \<leftarrow> jget_any [''viewId'', ''view''] attrs;
       parse_u64_value v
     }"

definition engine_payload_slot :: "json \<Rightarrow> u64 option" where
  "engine_payload_slot req =
     or_else (Option.bind (jget ''slot'' req) parse_u64_value)
       (or_else
         (do { p \<leftarrow> execution_payload_from_engine_request req; v \<leftarrow> jget ''slot'' p; parse_u64_value v })
         (do { p \<leftarrow> execution_payload_from_engine_request req; v \<leftarrow> jget ''blockNumber'' p; parse_u64_value v }))"

definition engine_inclusion_list_root :: "'db host \<Rightarrow> string list \<Rightarrow> string" where
  "engine_inclusion_list_root host hashes = bytes_to_hex host (host_keccak host (ascii (join '','' hashes)))"

section \<open>The methods\<close>

definition engine_tx_meta_to_json :: "'db host \<Rightarrow> EngineTxMeta \<Rightarrow> json" where
  "engine_tx_meta_to_json host m =
     JObject [(''hash'', JString (tm_hash m)),
              (''from'', jopt JString (tm_from m)),
              (''nonce'', jopt (\<lambda>v. JString (rpc_hex_u64 v)) (tm_nonce m)),
              (''gas'', jopt (\<lambda>v. JString (rpc_hex_u64 v)) (tm_gas_limit m)),
              (''maxFeePerGas'', jopt (\<lambda>v. JString (rpc_hex_u128 v)) (tm_gas_price m)),
              (''value'', jopt (\<lambda>v. JString (u256_to_hex host v)) (tm_value m))]"

definition hex_opt :: "u64 option \<Rightarrow> json" where
  "hex_opt = jopt (\<lambda>v. JString (rpc_hex_u64 v))"

definition freeze_view :: "'db host \<Rightarrow> 'db NodeState \<Rightarrow> u64 \<Rightarrow> 'db NodeState" where
  "freeze_view host st slot =
     st\<lparr>engine_focil_view_frozen := True,
        engine_focil_frozen_slot := Some slot,
        engine_focil_frozen_il_root := Some (engine_inclusion_list_root host (engine_required_il_txs st)),
        engine_focil_view_id := or_else (engine_focil_view_id st) (Some slot)\<rparr>"

definition engine_get_inclusion_list_response ::
    "'db host \<Rightarrow> 'db NodeState \<Rightarrow> json \<Rightarrow> json \<times> 'db NodeState" where
  "engine_get_inclusion_list_response host st req =
     (let slot = unwrap_or (or_else (u64_of_req ''slot'' 0 req) (engine_required_il_slot st)) (next_slot st);
          st1 = (if engine_required_il_slot st = Some slot then freeze_view host st slot else st)
      in (JObject
           [(''slot'', JString (rpc_hex_u64 slot)),
            (''transactions'', jstrings (engine_required_il_txs st1)),
            (''transactionDetails'', JArray (map (engine_tx_meta_to_json host)
               (List.map_filter (map_of (engine_required_il_meta st1)) (engine_required_il_txs st1)))),
            (''committee'', jstrings (engine_focil_committee st1)),
            (''viewId'', hex_opt (engine_focil_view_id st1)),
            (''viewFreeze'', JObject
               [(''frozen'', JBool (engine_focil_view_frozen st1)),
                (''slot'', hex_opt (engine_focil_frozen_slot st1)),
                (''inclusionListRoot'', jopt JString (engine_focil_frozen_il_root st1))]),
            (''maxBytesPerInclusionList'', JString ''0x2000''),
            (''updatedAtUnixS'', jopt jnum (engine_required_il_updated_at_unix_s st1))],
          st1))"

definition focil_json :: "'db NodeState \<Rightarrow> json" where
  "focil_json st =
     JObject [(''requiredTransactions'', count_hex (length (engine_required_il_txs st))),
              (''slot'', hex_opt (engine_required_il_slot st)),
              (''viewId'', hex_opt (engine_focil_view_id st)),
              (''viewFrozen'', JBool (engine_focil_view_frozen st)),
              (''committeeSize'', count_hex (length (engine_focil_committee st))),
              (''frozenInclusionListRoot'', jopt JString (engine_focil_frozen_il_root st))]"

definition payload_status_json :: "string \<Rightarrow> json \<Rightarrow> json" where
  "payload_status_json status err =
     JObject [(''status'', JString status), (''latestValidHash'', JString ''0x00''), (''validationError'', err)]"

definition fc_slot :: "'db NodeState \<Rightarrow> json \<Rightarrow> u64" where
  "fc_slot st req =
     unwrap_or (or_else (engine_slot_from_payload_attributes req) (engine_required_il_slot st)) (next_slot st)"

text \<open>The inclusion list of an update: its entries and, when the request has one, their root.\<close>

definition il_update :: "'db host \<Rightarrow> json \<Rightarrow> EngineTxMeta list option" where
  "il_update host req =
     (if engine_request_has_inclusion_list req then engine_collect_inclusion_list_entries host req else Some [])"

definition frozen_conflict :: "'db host \<Rightarrow> 'db NodeState \<Rightarrow> u64 \<Rightarrow> json \<Rightarrow> EngineTxMeta list \<Rightarrow> bool" where
  "frozen_conflict host st slot req entries \<longleftrightarrow>
     engine_focil_view_frozen st \<and> engine_focil_frozen_slot st = Some slot \<and>
     engine_request_has_inclusion_list req \<and>
     Some (engine_inclusion_list_root host (map tm_hash entries)) \<noteq> engine_focil_frozen_il_root st"

definition unfreeze :: "'db NodeState \<Rightarrow> u64 \<Rightarrow> 'db NodeState" where
  "unfreeze st slot =
     (if engine_focil_view_frozen st \<and> engine_focil_frozen_slot st \<noteq> Some slot
      then st\<lparr>engine_focil_view_frozen := False, engine_focil_frozen_slot := None,
              engine_focil_frozen_il_root := None\<rparr>
      else st)"

text \<open>The state after an accepted update; \<open>now\<close> is the second reading of the clock.\<close>

definition apply_update :: "'db NodeState \<Rightarrow> u64 \<Rightarrow> json \<Rightarrow> EngineTxMeta list \<Rightarrow> u64 \<Rightarrow> 'db NodeState" where
  "apply_update st slot req entries now =
     (let st1 = unfreeze st slot;
          committee = engine_collect_committee_members req;
          st2 = (if committee \<noteq> [] then st1\<lparr>engine_focil_committee := committee\<rparr> else st1);
          st3 = st2\<lparr>engine_focil_view_id := or_else (engine_view_id_from_payload_attributes req) (Some slot)\<rparr>
      in if engine_request_has_inclusion_list req then
           st3\<lparr>engine_required_il_txs := map tm_hash entries,
               engine_required_il_meta := fold (\<lambda>m. hm_insert (tm_hash m) m) entries [],
               engine_required_il_slot := Some slot,
               engine_required_il_updated_at_unix_s := Some now\<rparr>
         else st3)"

definition engine_forkchoice_updated_response ::
    "'db host \<Rightarrow> u64 \<Rightarrow> u64 \<Rightarrow> 'db NodeState \<Rightarrow> json \<Rightarrow> (json \<times> 'db NodeState) option" where
  "engine_forkchoice_updated_response host now now2 st req =
     (let slot = fc_slot st req;
          (timeliness, status, penalty, st1) =
            timeliness_check host st slot (unwrap_or (engine_7732_current_unix_s_from_req req) now)
      in if engine_7732_is_timeliness_violation status then
           Some (JObject
             [(''payloadStatus'', payload_status_json ''INVALID'' (JString (violation_text slot status))),
              (''payloadId'', JNull),
              (''timeliness'', timeliness),
              (''penalty'', penalty)], st1)
         else do {
           entries \<leftarrow> il_update host req;
           if frozen_conflict host st1 slot req entries then
             Some (JObject
               [(''payloadStatus'', payload_status_json ''INVALID'' (JString (''FOCIL view frozen for slot '' @
                   decimal (unat slot) @ ''; inclusion list is immutable''))),
                (''payloadId'', JNull),
                (''focil'', focil_json st1)], st1)
           else
             let st2 = apply_update st1 slot req entries now2 in
             Some (JObject
               [(''payloadStatus'', payload_status_json ''VALID'' JNull),
                (''payloadId'', JString ''0x0000000000000000''),
                (''timeliness'', timeliness),
                (''penalty'', penalty),
                (''focil'', focil_json st2)], st2)
         })"

section \<open>Checking a payload\<close>

definition ENGINE_BLOCK_GAS_LIMIT :: u64 where
  "ENGINE_BLOCK_GAS_LIMIT = 30000000"

definition account_nonce_from_db :: "'db host \<Rightarrow> 'db \<Rightarrow> Address \<Rightarrow> u64 \<times> 'db" where
  "account_nonce_from_db host db a =
     (case db_basic host db a of (info, db') \<Rightarrow> ((case info of Some a \<Rightarrow> ai_nonce a | None \<Rightarrow> 0), db'))"

definition account_balance_from_db :: "'db host \<Rightarrow> 'db \<Rightarrow> Address \<Rightarrow> U256 \<times> 'db" where
  "account_balance_from_db host db a =
     (case db_basic host db a of (info, db') \<Rightarrow> ((case info of Some a \<Rightarrow> ai_balance a | None \<Rightarrow> 0), db'))"

text \<open>A field of the inclusion list against the field of the payload.\<close>

definition field_check :: "'a option \<Rightarrow> 'a option \<Rightarrow> ('a \<Rightarrow> 'a \<Rightarrow> string) \<Rightarrow> string \<Rightarrow> string list" where
  "field_check required got mismatch missing =
     (case required of
        None \<Rightarrow> []
      | Some r \<Rightarrow>
          (case got of
             Some p \<Rightarrow> err_if (p \<noteq> r) (mismatch r p)
           | None \<Rightarrow> [missing]))"

definition mismatch_text :: "string \<Rightarrow> string \<Rightarrow> ('a \<Rightarrow> string) \<Rightarrow> 'a \<Rightarrow> 'a \<Rightarrow> string" where
  "mismatch_text h what show_value r p =
     h @ '': '' @ what @ '' mismatch (required '' @ show_value r @ '', got '' @ show_value p @ '')''"

definition meta_checks :: "'db host \<Rightarrow> EngineTxMeta \<Rightarrow> EngineTxMeta \<Rightarrow> string \<Rightarrow> string list" where
  "meta_checks host req got h =
     field_check (tm_from req) (tm_from got) (mismatch_text h ''sender'' (\<lambda>s. s))
       (h @ '': payload sender missing'') @
     field_check (tm_nonce req) (tm_nonce got) (mismatch_text h ''nonce'' (\<lambda>v. decimal (unat v)))
       (h @ '': payload nonce missing'') @
     field_check (tm_gas_limit req) (tm_gas_limit got) (mismatch_text h ''gas'' (\<lambda>v. decimal (unat v)))
       (h @ '': payload gas missing'') @
     field_check (tm_gas_price req) (tm_gas_price got)
       (mismatch_text h ''gas price'' (\<lambda>v. ''0x'' @ hex_digits (unat v)))
       (h @ '': payload gas price missing'') @
     field_check (tm_value req) (tm_value got) (mismatch_text h ''value'' (u256_to_hex host))
       (h @ '': payload value missing'')"

definition payload_meta :: "EngineTxMeta list \<Rightarrow> (string, EngineTxMeta) hashmap" where
  "payload_meta entries = fold (\<lambda>m. hm_insert (tm_hash m) m) entries []"

definition required_checks :: "'db host \<Rightarrow> 'db NodeState \<Rightarrow> EngineTxMeta list \<Rightarrow> string list" where
  "required_checks host st entries =
     concat (map (\<lambda>h.
       case (map_of (engine_required_il_meta st) h, map_of (payload_meta entries) h) of
         (Some req, Some got) \<Rightarrow> meta_checks host req got h
       | _ \<Rightarrow> []) (engine_required_il_txs st))"

record 'db il_simulation =
  simulated_nonce :: "(string, u64) hashmap"
  simulated_balance :: "(string, U256) hashmap"
  total_known_gas :: u64
  unknown_gas_count :: nat
  sim_db :: 'db

definition count_gas :: "EngineTxMeta \<Rightarrow> 'db il_simulation \<Rightarrow> 'db il_simulation" where
  "count_gas m s =
     (case tm_gas_limit m of
        Some g \<Rightarrow> s\<lparr>total_known_gas := sat_add (total_known_gas s) g\<rparr>
      | None \<Rightarrow> s\<lparr>unknown_gas_count := unknown_gas_count s + 1\<rparr>)"

text \<open>\<open>entry(k).or_insert_with(f)\<close>, where \<open>f\<close> reads the database.\<close>

definition expected_nonce ::
    "'db host \<Rightarrow> Address \<Rightarrow> string \<Rightarrow> 'db il_simulation \<Rightarrow> u64 \<times> 'db il_simulation" where
  "expected_nonce host sender from_str s =
     (case map_of (simulated_nonce s) from_str of
        Some n \<Rightarrow> (n, s)
      | None \<Rightarrow>
          (case account_nonce_from_db host (sim_db s) sender of (n, db) \<Rightarrow>
             (n, s\<lparr>simulated_nonce := hm_insert from_str n (simulated_nonce s), sim_db := db\<rparr>)))"

definition simulated_funds ::
    "'db host \<Rightarrow> Address \<Rightarrow> string \<Rightarrow> 'db il_simulation \<Rightarrow> U256 \<times> 'db il_simulation" where
  "simulated_funds host sender from_str s =
     (case map_of (simulated_balance s) from_str of
        Some b \<Rightarrow> (b, s)
      | None \<Rightarrow>
          (case account_balance_from_db host (sim_db s) sender of (b, db) \<Rightarrow>
             (b, s\<lparr>simulated_balance := hm_insert from_str b (simulated_balance s), sim_db := db\<rparr>)))"

text \<open>\<open>U256::from(gas_limit) * U256::from(gas_price) + value\<close>, which wraps at \<open>2 ^ 256\<close>.\<close>

definition required_wei :: "u64 \<Rightarrow> u128 \<Rightarrow> U256 \<Rightarrow> U256" where
  "required_wei gas price v = ucast gas * ucast price + v"

definition charge ::
    "'db host \<Rightarrow> Address \<Rightarrow> string \<Rightarrow> EngineTxMeta \<Rightarrow> 'db il_simulation \<Rightarrow> string list \<times> 'db il_simulation" where
  "charge host sender from_str m s =
     (case (tm_gas_limit m, tm_gas_price m, tm_value m) of
        (Some g, Some p, Some v) \<Rightarrow>
          (case simulated_funds host sender from_str s of (b, s1) \<Rightarrow>
             let need = required_wei g p v in
             if b < need then
               ([tm_hash m @ '': insufficient balance (need '' @ u256_to_hex host need @ '', have '' @
                 u256_to_hex host b @ '')''], s1)
             else ([], s1\<lparr>simulated_balance := hm_insert from_str (b - need) (simulated_balance s1)\<rparr>))
      | _ \<Rightarrow> ([], s))"

definition gas_limit_errors :: "EngineTxMeta \<Rightarrow> string list" where
  "gas_limit_errors m =
     (case tm_gas_limit m of
        Some g \<Rightarrow> err_if (ENGINE_BLOCK_GAS_LIMIT < g)
          (tm_hash m @ '': gas limit '' @ decimal (unat g) @ '' exceeds block gas limit '' @
           decimal (unat ENGINE_BLOCK_GAS_LIMIT))
      | None \<Rightarrow> [])"

definition bump_nonce :: "string \<Rightarrow> u64 \<Rightarrow> EngineTxMeta \<Rightarrow> 'db il_simulation \<Rightarrow> 'db il_simulation" where
  "bump_nonce from_str expected m s =
     (if tm_nonce m \<noteq> None
      then s\<lparr>simulated_nonce := hm_insert from_str (sat_add expected 1) (simulated_nonce s)\<rparr> else s)"

text \<open>The body of the loop over the transactions of the payload.\<close>

definition simulate_tx ::
    "'db host \<Rightarrow> string list \<Rightarrow> 'db il_simulation \<Rightarrow> EngineTxMeta \<Rightarrow> string list \<times> 'db il_simulation" where
  "simulate_tx host required s0 m =
     (let s = count_gas m s0 in
      if tm_hash m \<notin> set required then ([], s)
      else case tm_from m of
        None \<Rightarrow> ([], s)
      | Some from_str \<Rightarrow>
          (case address_from_hex host from_str of
             None \<Rightarrow> ([tm_hash m @ '': sender is not a valid address''], s)
           | Some sender \<Rightarrow>
               (case expected_nonce host sender from_str s of (expected, s1) \<Rightarrow>
                  if tm_nonce m \<noteq> None \<and> tm_nonce m \<noteq> Some expected then
                    ([tm_hash m @ '': nonce '' @ decimal (unat (the (tm_nonce m))) @
                      '' does not match expected '' @ decimal (unat expected)], s1)
                  else
                    (case charge host sender from_str m s1 of (errs, s2) \<Rightarrow>
                       (gas_limit_errors m @ errs, bump_nonce from_str expected m s2)))))"

definition payload_checks ::
    "'db host \<Rightarrow> 'db NodeState \<Rightarrow> EngineTxMeta list \<Rightarrow> string list \<times> 'db NodeState" where
  "payload_checks host st entries =
     (let required = engine_required_il_txs st;
          s0 = \<lparr>simulated_nonce = [], simulated_balance = [], total_known_gas = 0,
                unknown_gas_count = 0, sim_db = evm_db st\<rparr>;
          (errs, s) = scan (simulate_tx host required) s0 entries
      in (required_checks host st entries @ errs @
          err_if (unknown_gas_count s = 0 \<and> entries \<noteq> [] \<and>
                  ENGINE_BLOCK_GAS_LIMIT < total_known_gas s \<and> required \<noteq> [])
            (''payload gas '' @ decimal (unat (total_known_gas s)) @ '' exceeds block gas limit '' @
             decimal (unat ENGINE_BLOCK_GAS_LIMIT)),
          st\<lparr>evm_db := sim_db s\<rparr>))"

definition new_payload_json :: "string \<Rightarrow> string \<Rightarrow> json \<Rightarrow> json \<Rightarrow> json \<Rightarrow> json" where
  "new_payload_json status latest err timeliness penalty =
     JObject [(''status'', JString status), (''latestValidHash'', JString latest), (''validationError'', err),
              (''timeliness'', timeliness), (''penalty'', penalty)]"

definition payload_slot :: "'db NodeState \<Rightarrow> json \<Rightarrow> u64" where
  "payload_slot st req = unwrap_or (or_else (engine_payload_slot req) (engine_required_il_slot st)) (next_slot st)"

definition missing_required :: "'db NodeState \<Rightarrow> EngineTxMeta list \<Rightarrow> string list" where
  "missing_required st entries = filter (\<lambda>tx. tx \<notin> tm_hash ` set entries) (engine_required_il_txs st)"

definition latest_valid_hash :: "json \<Rightarrow> string" where
  "latest_valid_hash req =
     unwrap_or (normalize_hash32_value
       (Option.bind (execution_payload_from_engine_request req) (jget ''blockHash''))) ''0x00''"

definition judge_checks :: "string list \<times> 'db NodeState \<Rightarrow> string \<times> json \<times> 'db NodeState" where
  "judge_checks result =
     (case result of (checks, st) \<Rightarrow>
        if checks = [] then (''VALID'', JNull, st)
        else (''INCLUSION_LIST_UNSATISFIED'', JString (join ''; '' (take 3 checks)), st))"

definition missing_text :: "string list \<Rightarrow> string" where
  "missing_text missing =
     ''missing '' @ decimal (length missing) @ '' inclusion-list tx(s): '' @ join '', '' (take 3 missing)"

definition frozen_text :: "u64 \<Rightarrow> u64 \<Rightarrow> string" where
  "frozen_text frozen_slot slot =
     ''FOCIL view frozen at slot '' @ decimal (unat frozen_slot) @ ''; payload targets slot '' @
     decimal (unat slot)"

text \<open>The verdict on a payload and its explanation, once the status of its slot is known.\<close>

definition judge_payload ::
    "'db host \<Rightarrow> 'db NodeState \<Rightarrow> u64 \<Rightarrow> string \<Rightarrow> EngineTxMeta list \<Rightarrow> string list \<Rightarrow>
      string \<times> json \<times> 'db NodeState" where
  "judge_payload host st slot status entries missing =
     (if engine_7732_is_timeliness_violation status then
        (''INVALID'', JString (violation_text slot status), st)
      else if missing \<noteq> [] then
        (''INCLUSION_LIST_UNSATISFIED'', JString (missing_text missing), st)
      else case (engine_focil_view_frozen st, engine_focil_frozen_slot st) of
        (True, Some frozen_slot) \<Rightarrow>
          if slot \<noteq> frozen_slot then
            (''INCLUSION_LIST_UNSATISFIED'', JString (frozen_text frozen_slot slot), st)
          else judge_checks (payload_checks host st entries)
      | _ \<Rightarrow> judge_checks (payload_checks host st entries))"

definition engine_new_payload_response ::
    "'db host \<Rightarrow> u64 \<Rightarrow> 'db NodeState \<Rightarrow> json \<Rightarrow> (json \<times> 'db NodeState) option" where
  "engine_new_payload_response host now st req =
     do {
       entries \<leftarrow> engine_collect_payload_transaction_entries host req;
       let slot = payload_slot st req;
           (timeliness, status, penalty, st1) =
             timeliness_check host st slot (unwrap_or (engine_7732_current_unix_s_from_req req) now);
           (verdict, err, st2) =
             judge_payload host st1 slot status entries (missing_required st entries)
       in Some (new_payload_json verdict (latest_valid_hash req) err timeliness penalty, st2)
     }"

section \<open>Dispatch\<close>

definition jsonrpc_response :: "json \<Rightarrow> json \<Rightarrow> json" where
  "jsonrpc_response id_value res = JObject [(''jsonrpc'', JString ''2.0''), (''id'', id_value), (''result'', res)]"

text \<open>
  The arms of \<open>handle_jsonrpc\<close> for the engine methods; \<open>None\<close> for any other method.  Inside,
  \<open>None\<close> is a panic.
\<close>

definition engine_dispatch ::
    "'db host \<Rightarrow> u64 \<Rightarrow> u64 \<Rightarrow> 'db NodeState \<Rightarrow> string \<Rightarrow> json \<Rightarrow> (json \<times> 'db NodeState) option option" where
  "engine_dispatch host now now2 st meth req =
     (if meth = ''engine_getInclusionListV1'' then
        Some (Some (engine_get_inclusion_list_response host st req))
      else if meth = ''engine_forkchoiceUpdatedV3'' then
        Some (engine_forkchoice_updated_response host now now2 st req)
      else if meth = ''engine_newPayloadV3'' then Some (engine_new_payload_response host now st req)
      else if meth = ''engine_registerExecutionPayloadHeaderV1'' then
        Some (engine_7732_register_payload_header_response host now st req)
      else if meth = ''engine_registerExecutionPayloadEnvelopeV1'' then
        Some (Some (engine_7732_register_payload_envelope_response host now st req))
      else if meth = ''engine_getPayloadTimelinessV1'' then
        Some (Some (engine_7732_get_payload_timeliness_response host now st req, st))
      else if meth = ''engine_getPayloadTimelinessByRangeV1'' then
        Some (Some (engine_7732_get_payload_timeliness_by_range_response host now st req, st))
      else if meth = ''engine_getPayloadPenaltyV1'' then
        Some (Some (engine_7732_get_payload_penalty_response host now st req, st))
      else if meth = ''engine_getPayloadPenaltiesByRangeV1'' then
        Some (Some (engine_7732_get_payload_penalties_by_range_response host now st req, st))
      else if meth = ''engine_getExecutionPayloadHeaderV1'' then
        Some (Some (engine_7732_get_payload_header_response host st req, st))
      else if meth = ''engine_getExecutionPayloadHeadersBySlotV1'' then
        Some (Some (engine_7732_get_payload_headers_by_slot_response host st req, st))
      else if meth = ''engine_getExecutionPayloadHeadersByRangeV1'' then
        Some (Some (engine_7732_get_payload_headers_by_range_response host st req, st))
      else if meth = ''engine_getExecutionPayloadEnvelopeV1'' then
        Some (Some (engine_7732_get_payload_envelope_response st req, st))
      else if meth = ''engine_getExecutionPayloadEnvelopesBySlotV1'' then
        Some (Some (engine_7732_get_payload_envelopes_by_slot_response host st req, st))
      else if meth = ''engine_getExecutionPayloadEnvelopesByRangeV1'' then
        Some (Some (engine_7732_get_payload_envelopes_by_range_response host st req, st))
      else None)"

definition handle_engine ::
    "'db host \<Rightarrow> u64 \<Rightarrow> u64 \<Rightarrow> 'db NodeState \<Rightarrow> json \<Rightarrow> (json \<times> 'db NodeState) option option" where
  "handle_engine host now now2 st req =
     map_option (map_option (\<lambda>(res, st'). (jsonrpc_response (unwrap_or (jget ''id'' req) JNull) res, st')))
       (engine_dispatch host now now2 st (unwrap_or (Option.bind (jget ''method'' req) as_str) []) req)"

section \<open>What a call can do to the state\<close>

abbreviation penalised :: "'db NodeState \<Rightarrow> u64 \<Rightarrow> string \<Rightarrow> string \<Rightarrow> u64 \<Rightarrow> 'db NodeState" where
  "penalised st slot status reason now \<equiv> snd (engine_7732_update_penalty_state st slot status reason now)"

text \<open>
  The effects of the engine methods.  The label is the slot of a fork-choice update, and
  \<open>None\<close> for the other methods.
\<close>

inductive engine_effect :: "'db host \<Rightarrow> 'db NodeState \<Rightarrow> u64 option \<Rightarrow> 'db NodeState \<Rightarrow> bool"
  for host :: "'db host" and st :: "'db NodeState" where
  query: "engine_effect host st l st"
| freeze: "engine_required_il_slot st = Some slot \<Longrightarrow> engine_effect host st None (freeze_view host st slot)"
| checked: "engine_effect host st l ((penalised st slot status reason now)\<lparr>evm_db := db\<rparr>)"
| updated: "il_update host req = Some entries \<Longrightarrow> \<not> frozen_conflict host st slot req entries \<Longrightarrow>
    engine_effect host st (Some slot) (apply_update (penalised st slot status reason now) slot req entries now2)"
| header: "header_registered st st' \<Longrightarrow> engine_effect host st None st'"
| envelope: "envelope_registered st st' \<Longrightarrow> engine_effect host st None st'"

lemma penalised_frame [simp]:
  "engine_required_il_txs (penalised st slot status reason now) = engine_required_il_txs st"
  "engine_required_il_meta (penalised st slot status reason now) = engine_required_il_meta st"
  "engine_required_il_slot (penalised st slot status reason now) = engine_required_il_slot st"
  "engine_focil_view_frozen (penalised st slot status reason now) = engine_focil_view_frozen st"
  "engine_focil_frozen_slot (penalised st slot status reason now) = engine_focil_frozen_slot st"
  "engine_focil_frozen_il_root (penalised st slot status reason now) = engine_focil_frozen_il_root st"
  "current_height (penalised st slot status reason now) = current_height st"
  "evm_db (penalised st slot status reason now) = evm_db st"
  by (simp_all add: engine_7732_update_penalty_state_def Let_def split: option.split)

lemma frozen_conflict_penalised [simp]:
  "frozen_conflict host (penalised st slot' status reason now) slot req entries =
     frozen_conflict host st slot req entries"
  by (simp add: frozen_conflict_def)

lemma evm_db_id [simp]: "(st :: 'db NodeState)\<lparr>evm_db := evm_db st\<rparr> = st"
  by simp

lemma status_field:
  "jget ''aggregateStatus'' (engine_7732_slot_status_response host st slot now) =
     Some (JString (aggregate_status host st slot now))"
  by (simp add: engine_7732_slot_status_response_def Let_def)

definition check_reason :: "u64 \<Rightarrow> string \<Rightarrow> string" where
  "check_reason slot status =
     (if engine_7732_is_timeliness_violation status then violation_text slot status
      else ''EIP-7732 timeliness recovered'')"

lemma timeliness_check_eq:
  fixes host :: "'db host"
  defines "status \<equiv> aggregate_status host"
  shows "timeliness_check host st slot now =
    (engine_7732_slot_status_response host st slot now, status st slot now,
     jopt engine_7732_penalty_to_json (fst (engine_7732_update_penalty_state st slot (status st slot now)
       (check_reason slot (status st slot now)) now)),
     penalised st slot (status st slot now) (check_reason slot (status st slot now)) now)"
  by (simp add: timeliness_check_def status_def status_field check_reason_def Let_def case_prod_unfold)

lemma checked_same: "engine_effect host st l (penalised st slot status reason now)"
  using engine_effect.checked [where host = host and st = st and l = l and slot = slot and status = status
      and reason = reason and now = now and db = "evm_db (penalised st slot status reason now)"]
  by (simp only: evm_db_id)

lemma forkchoice_effect:
  assumes "engine_forkchoice_updated_response host now now2 st req = Some (resp, st')"
  shows "engine_effect host st (Some (fc_slot st req)) st'"
proof -
  define slot time st1 where "slot = fc_slot st req"
    and "time = unwrap_or (engine_7732_current_unix_s_from_req req) now"
    and "st1 = penalised st slot (aggregate_status host st slot time)
      (check_reason slot (aggregate_status host st slot time)) time"
  note defs = slot_def [symmetric] time_def [symmetric] timeliness_check_eq st1_def [symmetric]
  show ?thesis
  proof (cases "engine_7732_is_timeliness_violation (aggregate_status host st slot time)")
    case True
    with assms have "st' = st1" by (simp add: engine_forkchoice_updated_response_def Let_def defs)
    then show ?thesis by (simp only: st1_def checked_same)
  next
    case False
    with assms obtain entries where entries: "il_update host req = Some entries"
      and st': "st' = (if frozen_conflict host st1 slot req entries then st1
        else apply_update st1 slot req entries now2)"
      by (cases "il_update host req")
        (simp_all add: engine_forkchoice_updated_response_def Let_def defs split: if_splits)
    show ?thesis
    proof (cases "frozen_conflict host st slot req entries")
      case True
      then have "st' = st1" using st' by (simp add: st1_def)
      then show ?thesis by (simp only: st1_def checked_same)
    next
      case False
      then have "st' = apply_update st1 slot req entries now2" using st' by (simp add: st1_def)
      then show ?thesis using engine_effect.updated [OF entries False] by (simp only: st1_def slot_def)
    qed
  qed
qed

lemma judge_payload_state:
  "\<exists>db. snd (snd (judge_payload host st slot status entries missing)) = st\<lparr>evm_db := db\<rparr>"
proof -
  have "\<exists>db. snd (payload_checks host st entries) = st\<lparr>evm_db := db\<rparr>"
    by (auto simp: payload_checks_def Let_def case_prod_unfold)
  moreover have "snd (snd (judge_checks r)) = snd r" for r :: "string list \<times> 'a NodeState"
    by (simp add: judge_checks_def case_prod_unfold)
  moreover have "\<exists>db. st = st\<lparr>evm_db := db\<rparr>" by (rule exI [of _ "evm_db st"]) simp
  ultimately show ?thesis
    by (simp add: judge_payload_def split: bool.split option.split)
qed

lemma new_payload_effect:
  assumes "engine_new_payload_response host now st req = Some (resp, st')"
  shows "engine_effect host st None st'"
proof -
  define time st1 where "time = unwrap_or (engine_7732_current_unix_s_from_req req) now"
    and "st1 = penalised st (payload_slot st req) (aggregate_status host st (payload_slot st req) time)
      (check_reason (payload_slot st req) (aggregate_status host st (payload_slot st req) time)) time"
  note defs = time_def [symmetric] timeliness_check_eq st1_def [symmetric]
  from assms obtain entries where "st' = snd (snd (judge_payload host st1 (payload_slot st req)
      (aggregate_status host st (payload_slot st req) time) entries (missing_required st entries)))"
    by (cases "engine_collect_payload_transaction_entries host req")
      (auto simp add: engine_new_payload_response_def Let_def defs case_prod_unfold)
  then obtain db where "st' = st1\<lparr>evm_db := db\<rparr>" using judge_payload_state by metis
  then show ?thesis by (simp only: st1_def engine_effect.checked)
qed

lemma get_inclusion_list_effect:
  "engine_effect host st None (snd (engine_get_inclusion_list_response host st req))"
  by (simp add: engine_get_inclusion_list_response_def Let_def engine_effect.intros)

definition call_label :: "'db NodeState \<Rightarrow> string \<Rightarrow> json \<Rightarrow> u64 option" where
  "call_label st meth req = (if meth = ''engine_forkchoiceUpdatedV3'' then Some (fc_slot st req) else None)"

lemma dispatch_effect:
  assumes "headers_ok st" and "engine_dispatch host now now2 st meth req = Some (Some (resp, st'))"
  shows "engine_effect host st (call_label st meth req) st'"
proof -
  note get_inclusion_list_effect [of host st req] register_envelope_effect [of st host now req]
  with assms show ?thesis
    unfolding engine_dispatch_def call_label_def
    by (auto split: if_splits intro: forkchoice_effect new_payload_effect engine_effect.query
        engine_effect.header [OF register_header_effect] engine_effect.envelope)
qed

section \<open>Reachable states\<close>

text \<open>
  The required list has no duplicates, each entry is a normalised hash with its metadata, and
  while the view is frozen the list belongs to the frozen slot and has the frozen root.
\<close>

definition focil_ok :: "'db host \<Rightarrow> 'db NodeState \<Rightarrow> bool" where
  "focil_ok host st \<longleftrightarrow>
     distinct (engine_required_il_txs st) \<and>
     (\<forall>h \<in> set (engine_required_il_txs st). length h = 66) \<and>
     (\<forall>h. map_of (engine_required_il_meta st) h \<noteq> None \<longleftrightarrow> h \<in> set (engine_required_il_txs st)) \<and>
     (engine_focil_view_frozen st \<longrightarrow>
        engine_focil_frozen_slot st \<noteq> None \<and>
        engine_required_il_slot st = engine_focil_frozen_slot st \<and>
        engine_focil_frozen_il_root st = Some (engine_inclusion_list_root host (engine_required_il_txs st)))"

lemma tx_meta_of_item_length:
  "tx_meta_of_item host item = Some (Some m) \<Longrightarrow> length (tm_hash m) = 66"
  by (auto simp: tx_meta_of_item_def EngineTxMeta_hash_def normalize_hash32_value_def bind_eq_Some_conv
      normalize_hash32_length split: option.splits if_splits)

lemma dedup_metas_distinct:
  assumes "dedup_metas host seen items = Some ms"
  shows "distinct (map tm_hash ms) \<and> tm_hash ` set ms \<inter> seen = {} \<and> (\<forall>m \<in> set ms. length (tm_hash m) = 66)"
  using assms
proof (induction host seen items arbitrary: ms rule: dedup_metas.induct)
  case (2 host seen item items)
  show ?case
  proof (cases "tx_meta_of_item host item")
    case None
    with 2 show ?thesis by simp
  next
    case (Some entry)
    show ?thesis
    proof (cases entry)
      case None
      with 2 Some show ?thesis by simp
    next
      case e: (Some m)
      show ?thesis
      proof (cases "tm_hash m \<in> seen")
        case True
        with 2 Some e show ?thesis by simp
      next
        case False
        with 2(4) Some e obtain ms' where ms': "dedup_metas host (insert (tm_hash m) seen) items = Some ms'"
          and "ms = m # ms'" by auto
        with 2(3) [OF Some e False ms'] False tx_meta_of_item_length Some e show ?thesis by auto
      qed
    qed
  qed
qed simp

lemma il_update_distinct:
  "il_update host req = Some ms \<Longrightarrow>
     distinct (map tm_hash ms) \<and> (\<forall>m \<in> set ms. length (tm_hash m) = 66)"
  by (auto simp: il_update_def engine_collect_inclusion_list_entries_def dedup_tx_meta_array_def
      dest!: dedup_metas_distinct split: if_splits option.splits)

lemma map_of_fold_metas:
  "map_of (fold (\<lambda>m. hm_insert (tm_hash m) m) ms acc) =
     map_of acc ++ map_of (map (\<lambda>m. (tm_hash m, m)) (rev ms))"
  by (induction ms arbitrary: acc) simp_all

lemma metas_dom:
  "map_of (fold (\<lambda>m. hm_insert (tm_hash m) m) ms []) h \<noteq> None \<longleftrightarrow> h \<in> tm_hash ` set ms"
  by (simp add: map_of_fold_metas map_of_eq_None_iff image_image)

lemma apply_update_view:
  "engine_focil_view_frozen (apply_update st slot req ms now) = engine_focil_view_frozen (unfreeze st slot)"
  "engine_focil_frozen_slot (apply_update st slot req ms now) = engine_focil_frozen_slot (unfreeze st slot)"
  "engine_focil_frozen_il_root (apply_update st slot req ms now) = engine_focil_frozen_il_root (unfreeze st slot)"
  by (simp_all add: apply_update_def Let_def)

lemma apply_update_frozen:
  "engine_focil_view_frozen (apply_update st slot req ms now) \<longleftrightarrow>
     engine_focil_view_frozen st \<and> engine_focil_frozen_slot st = Some slot"
  "engine_focil_view_frozen (apply_update st slot req ms now) \<Longrightarrow>
     engine_focil_frozen_slot (apply_update st slot req ms now) = engine_focil_frozen_slot st \<and>
     engine_focil_frozen_il_root (apply_update st slot req ms now) = engine_focil_frozen_il_root st"
  unfolding apply_update_view by (auto simp: unfreeze_def)

lemma apply_update_list:
  "engine_required_il_txs (apply_update st slot req ms now) =
     (if engine_request_has_inclusion_list req then map tm_hash ms else engine_required_il_txs st)"
  "engine_required_il_slot (apply_update st slot req ms now) =
     (if engine_request_has_inclusion_list req then Some slot else engine_required_il_slot st)"
  "engine_required_il_meta (apply_update st slot req ms now) =
     (if engine_request_has_inclusion_list req then fold (\<lambda>m. hm_insert (tm_hash m) m) ms []
      else engine_required_il_meta st)"
  by (simp_all add: apply_update_def unfreeze_def Let_def)

lemma focil_ok_update:
  assumes "focil_ok host st" and "il_update host req = Some ms" and "\<not> frozen_conflict host st slot req ms"
  shows "focil_ok host (apply_update (penalised st slot status reason now) slot req ms now2)"
  (is "focil_ok host ?st")
proof (cases "engine_request_has_inclusion_list req")
  case True
  have "engine_focil_frozen_il_root ?st = Some (engine_inclusion_list_root host (map tm_hash ms))"
    and "engine_focil_frozen_slot ?st = Some slot" if "engine_focil_view_frozen ?st"
    using that apply_update_frozen [of "penalised st slot status reason now" slot req ms now2] assms(3) True
    by (simp_all add: frozen_conflict_def)
  with True il_update_distinct [OF assms(2)] show ?thesis
    unfolding focil_ok_def apply_update_list by (simp add: metas_dom del: not_None_eq)
next
  case False
  with assms(1) apply_update_frozen [of "penalised st slot status reason now" slot req ms now2] show ?thesis
    unfolding focil_ok_def apply_update_list by auto
qed

lemma header_registered_frame:
  assumes "header_registered st st'"
  shows "focil_ok host st' = focil_ok host st"
  using assms by cases (simp_all add: focil_ok_def add_slot_root_def Let_def)

lemma envelope_registered_frame:
  assumes "envelope_registered st st'"
  shows "focil_ok host st' = focil_ok host st"
  using assms by cases (simp_all add: focil_ok_def)

lemma effect_focil_ok:
  assumes "engine_effect host st l st'" and "focil_ok host st"
  shows "focil_ok host st'"
  using assms
proof cases
  case (freeze slot)
  with assms(2) show ?thesis by (simp add: focil_ok_def freeze_view_def)
next
  case (checked db slot status reason now)
  with assms(2) show ?thesis by (simp add: focil_ok_def)
next
  case (updated req ms slot status reason now now2)
  from focil_ok_update [OF assms(2) updated(3,4)] show ?thesis unfolding updated(2) .
qed (simp_all add: header_registered_frame envelope_registered_frame)

lemma tables_ok_cong:
  assumes "engine_7732_headers_by_slot st' = engine_7732_headers_by_slot st"
    and "engine_7732_headers_by_root st' = engine_7732_headers_by_root st"
    and "engine_7732_envelopes_by_root st' = engine_7732_envelopes_by_root st"
    and "engine_7732_penalties_by_slot st' = engine_7732_penalties_by_slot st"
  shows "tables_ok st' = tables_ok st"
  using assms
  by (simp add: tables_ok_def headers_ok_def envelopes_ok_def penalties_ok_def slot_roots_def)

lemma apply_update_tables:
  "engine_7732_headers_by_slot (apply_update st slot req ms now) = engine_7732_headers_by_slot st"
  "engine_7732_headers_by_root (apply_update st slot req ms now) = engine_7732_headers_by_root st"
  "engine_7732_envelopes_by_root (apply_update st slot req ms now) = engine_7732_envelopes_by_root st"
  "engine_7732_penalties_by_slot (apply_update st slot req ms now) = engine_7732_penalties_by_slot st"
  by (simp_all add: apply_update_def unfreeze_def Let_def)

lemma effect_tables_ok:
  assumes "engine_effect host st l st'" and "tables_ok st"
  shows "tables_ok st'"
  using assms
proof cases
  case (freeze slot)
  then have "tables_ok st' = tables_ok st" by (intro tables_ok_cong) (simp_all add: freeze_view_def)
  with assms(2) show ?thesis by simp
next
  case (checked db slot status reason now)
  have "tables_ok st' = tables_ok (penalised st slot status reason now)"
    unfolding checked by (intro tables_ok_cong) simp_all
  with update_penalty_ok [OF assms(2)] show ?thesis by simp
next
  case (updated req ms slot status reason now now2)
  have "tables_ok st' = tables_ok (penalised st slot status reason now)"
    unfolding updated by (intro tables_ok_cong) (simp_all only: apply_update_tables)
  with update_penalty_ok [OF assms(2)] show ?thesis by simp
qed (use header_registered_ok envelope_registered_ok in blast)+

text \<open>
  A step of the daemon, as far as the engine methods see it: one of their calls, labelled as
  above, or anything else, which may change the height and the accounts.
\<close>

inductive engine_step :: "'db host \<Rightarrow> u64 option \<Rightarrow> 'db NodeState \<Rightarrow> 'db NodeState \<Rightarrow> bool"
  for host :: "'db host" where
  call: "engine_dispatch host now now2 st meth req = Some (Some (resp, st')) \<Longrightarrow>
    engine_step host (call_label st meth req) st st'"
| other: "engine_step host None st (st\<lparr>current_height := h, evm_db := db\<rparr>)"

abbreviation engine_steps :: "'db host \<Rightarrow> 'db NodeState \<Rightarrow> 'db NodeState \<Rightarrow> bool" where
  "engine_steps host \<equiv> (\<lambda>st st'. \<exists>l. engine_step host l st st')\<^sup>*\<^sup>*"

definition engine_inv :: "'db host \<Rightarrow> 'db NodeState \<Rightarrow> bool" where
  "engine_inv host st \<longleftrightarrow> tables_ok st \<and> focil_ok host st"

lemma engine_step_effect:
  assumes "engine_step host l st st'" and "engine_inv host st"
  shows "engine_effect host st l st' \<or> (\<exists>h db. st' = st\<lparr>current_height := h, evm_db := db\<rparr>)"
  using assms
proof cases
  case (call now now2 meth req resp)
  with assms(2) show ?thesis
    using dispatch_effect [of st host now now2 meth req resp st']
    by (simp add: engine_inv_def tables_ok_def)
qed blast

lemma engine_step_inv:
  assumes "engine_step host l st st'" and "engine_inv host st"
  shows "engine_inv host st'"
  using engine_step_effect [OF assms]
proof
  assume "engine_effect host st l st'"
  with assms(2) show ?thesis
    unfolding engine_inv_def using effect_tables_ok effect_focil_ok by blast
next
  assume "\<exists>h db. st' = st\<lparr>current_height := h, evm_db := db\<rparr>"
  then obtain h db where st': "st' = st\<lparr>current_height := h, evm_db := db\<rparr>" by blast
  have "tables_ok st' = tables_ok st" unfolding st' by (intro tables_ok_cong) simp_all
  with assms(2) show ?thesis by (simp add: engine_inv_def focil_ok_def st')
qed

lemma engine_inv_start: "engine_inv host (build_state db now)"
  by (simp add: engine_inv_def tables_ok_def headers_ok_def envelopes_ok_def penalties_ok_def focil_ok_def
      build_state_def slot_roots_def)

lemma engine_steps_inv: "engine_steps host st st' \<Longrightarrow> engine_inv host st \<Longrightarrow> engine_inv host st'"
  by (induction rule: rtranclp_induct) (blast intro: engine_step_inv)+

text \<open>C24.  In every state the daemon can reach by engine calls, in whatever order and with whatever
  requests: the index of headers by slot lists exactly the registered headers of each slot, each
  once; headers, envelopes and penalties are stored under their own keys; a penalty is active or
  has a recovery time; the required inclusion list has no duplicates and metadata for exactly its
  entries; and while a view is frozen, the list is the one of the frozen slot and root.\<close>

theorem engine_reachable_inv:
  assumes "engine_steps host (build_state db now) st"
  shows "headers_ok st \<and> envelopes_ok st \<and> penalties_ok st \<and> focil_ok host st"
  using engine_steps_inv [OF assms engine_inv_start] by (simp add: engine_inv_def tables_ok_def)

section \<open>Registrations are permanent\<close>

lemma effect_registrations:
  assumes "engine_effect host st l st'"
  shows "map_of (engine_7732_headers_by_root st) \<subseteq>\<^sub>m map_of (engine_7732_headers_by_root st')"
    and "map_of (engine_7732_envelopes_by_root st) \<subseteq>\<^sub>m map_of (engine_7732_envelopes_by_root st')"
proof -
  have "map_of (engine_7732_headers_by_root st) \<subseteq>\<^sub>m map_of (engine_7732_headers_by_root st') \<and>
    map_of (engine_7732_envelopes_by_root st) \<subseteq>\<^sub>m map_of (engine_7732_envelopes_by_root st')"
    using assms
  proof cases
    case header
    from header(2) show ?thesis by cases (auto simp: map_le_def)
  next
    case envelope
    from envelope(2) show ?thesis by cases (auto simp: map_le_def)
  qed (simp_all add: freeze_view_def apply_update_tables)
  then show "map_of (engine_7732_headers_by_root st) \<subseteq>\<^sub>m map_of (engine_7732_headers_by_root st')"
    and "map_of (engine_7732_envelopes_by_root st) \<subseteq>\<^sub>m map_of (engine_7732_envelopes_by_root st')"
    by blast+
qed

lemma step_registrations:
  assumes "engine_step host l st st'" and "engine_inv host st"
  shows "map_of (engine_7732_headers_by_root st) \<subseteq>\<^sub>m map_of (engine_7732_headers_by_root st') \<and>
    map_of (engine_7732_envelopes_by_root st) \<subseteq>\<^sub>m map_of (engine_7732_envelopes_by_root st')"
  using engine_step_effect [OF assms]
proof
  assume "engine_effect host st l st'"
  then show ?thesis by (simp add: effect_registrations)
qed auto

text \<open>C40.  The first registration wins for good: once a header or an envelope is registered for a
  root, no later call changes or removes it, whatever is registered afterwards for the same
  root.\<close>

theorem registrations_permanent:
  assumes "engine_steps host (build_state db now) st" and "engine_steps host st st'"
  shows "(map_of (engine_7732_headers_by_root st) root = Some h \<longrightarrow>
      map_of (engine_7732_headers_by_root st') root = Some h) \<and>
    (map_of (engine_7732_envelopes_by_root st) root = Some e \<longrightarrow>
      map_of (engine_7732_envelopes_by_root st') root = Some e)"
proof -
  have inv: "engine_inv host st" by (rule engine_steps_inv [OF assms(1) engine_inv_start])
  have "map_of (engine_7732_headers_by_root st) \<subseteq>\<^sub>m map_of (engine_7732_headers_by_root st') \<and>
    map_of (engine_7732_envelopes_by_root st) \<subseteq>\<^sub>m map_of (engine_7732_envelopes_by_root st')"
    using assms(2)
  proof (induction rule: rtranclp_induct)
    case base
    show ?case by simp
  next
    case (step st1 st2)
    from step(2) step_registrations engine_steps_inv [OF step(1) inv] step(3) show ?case
      by (meson map_le_trans)
  qed
  then show ?thesis by (auto simp: map_le_def dom_def)
qed

section \<open>A frozen inclusion list does not change\<close>

lemma join_length: "xs \<noteq> [] \<Longrightarrow> \<forall>x \<in> set xs. length x = 66 \<Longrightarrow> 66 \<le> length (join sep xs)"
  by (induction sep xs rule: join.induct) auto

lemma join_inj:
  "\<forall>x \<in> set xs. length x = 66 \<Longrightarrow> \<forall>y \<in> set ys. length y = 66 \<Longrightarrow>
     join '','' xs = join '','' ys \<Longrightarrow> xs = ys"
proof (induction "'',''" xs arbitrary: ys rule: join.induct)
  case 1
  then show ?case using join_length [of ys "'',''"] by (cases ys) auto
next
  case (2 x)
  have "ys \<noteq> []" using 2 by auto
  show ?case
  proof (cases ys rule: remdups_adj.cases)
    case (3 y z zs)
    then have "length (join '','' ys) > 66" using 2(2) by simp
    then show ?thesis using 2 by simp
  qed (use 2 \<open>ys \<noteq> []\<close> in auto)
next
  case (3 x y xs)
  show ?case
  proof (cases ys rule: remdups_adj.cases)
    case (3 u v vs)
    with "3.prems" "3.hyps" [of "v # vs"] show ?thesis by auto
  qed (use "3.prems" in auto)
qed

lemma join_ascii_inj:
  assumes "ascii (join '','' xs) = ascii (join '','' ys)"
    and "\<forall>x \<in> set xs. length x = 66" and "\<forall>y \<in> set ys. length y = 66"
  shows "xs = ys"
  using join_inj [OF assms(2,3)] assms(1) by (simp add: ascii_eq_iff)

text \<open>Two byte strings that the root of an inclusion list confuses.\<close>

definition hash_collision :: "'db host \<Rightarrow> bool" where
  "hash_collision host \<longleftrightarrow>
     (\<exists>a b. a \<noteq> b \<and> bytes_to_hex host (host_keccak host a) = bytes_to_hex host (host_keccak host b))"

lemma same_root_same_list:
  assumes "focil_ok host st" and "focil_ok host st'"
    and "engine_inclusion_list_root host (engine_required_il_txs st') =
      engine_inclusion_list_root host (engine_required_il_txs st)"
  shows "engine_required_il_txs st' = engine_required_il_txs st \<or> hash_collision host"
proof (cases "ascii (join '','' (engine_required_il_txs st')) = ascii (join '','' (engine_required_il_txs st))")
  case True
  with assms(1,2) have "engine_required_il_txs st' = engine_required_il_txs st"
    by (intro join_ascii_inj) (simp_all add: focil_ok_def)
  then show ?thesis ..
next
  case False
  with assms(3) show ?thesis unfolding hash_collision_def engine_inclusion_list_root_def by blast
qed

definition frozen_at :: "'db NodeState \<Rightarrow> u64 \<Rightarrow> string \<Rightarrow> bool" where
  "frozen_at st slot root \<longleftrightarrow> engine_focil_view_frozen st \<and> engine_focil_frozen_slot st = Some slot \<and>
     engine_focil_frozen_il_root st = Some root"

lemma effect_frozen:
  assumes "engine_effect host st l st'" and "focil_ok host st" and "frozen_at st slot root"
    and "l \<in> {None, Some slot}"
  shows "frozen_at st' slot root"
  using assms(1)
proof cases
  case (updated req ms slot' status reason now now2)
  with assms(4) have "slot' = slot" by simp
  with assms(3) updated(4) show ?thesis
    unfolding updated(2) by (simp add: frozen_at_def apply_update_view unfreeze_def)
next
  case header
  from header(2) assms(3) show ?thesis by cases (simp_all add: frozen_at_def add_slot_root_def Let_def)
next
  case envelope
  from envelope(2) assms(3) show ?thesis by cases (simp_all add: frozen_at_def)
qed (use assms(2,3) in \<open>auto simp: frozen_at_def freeze_view_def focil_ok_def\<close>)

text \<open>C25.  Freezing fixes the transactions of the list: from a reachable state whose view is frozen for
  a slot, no sequence of engine calls without a fork-choice update for another slot changes the list
  of required transaction hashes or its root, or unfreezes the view; the hashes could only differ if
  two different lists had the same root.  Nothing is claimed of the metadata of those transactions and of
  the committee, which are not frozen.\<close>

theorem frozen_list_immutable:
  assumes "engine_steps host (build_state db now) st" and "frozen_at st slot root"
    and "(\<lambda>a b. engine_step host None a b \<or> engine_step host (Some slot) a b)\<^sup>*\<^sup>* st st'"
  shows "frozen_at st' slot root \<and> root = engine_inclusion_list_root host (engine_required_il_txs st') \<and>
    (engine_required_il_txs st' = engine_required_il_txs st \<or> hash_collision host)"
proof -
  have inv: "engine_inv host st" by (rule engine_steps_inv [OF assms(1) engine_inv_start])
  have step: "frozen_at b slot root \<and> engine_inv host b"
    if "engine_step host None a b \<or> engine_step host (Some slot) a b" and "frozen_at a slot root"
      and "engine_inv host a" for a b
  proof -
    from that(1) obtain l where l: "engine_step host l a b" "l \<in> {None, Some slot}" by blast
    from engine_step_effect [OF l(1) that(3)] have "frozen_at b slot root"
    proof
      assume "engine_effect host a l b"
      from effect_frozen [OF this _ that(2) l(2)] that(3) show ?thesis by (simp add: engine_inv_def)
    qed (use that(2) in \<open>auto simp: frozen_at_def\<close>)
    with engine_step_inv [OF l(1) that(3)] show ?thesis by blast
  qed
  have "frozen_at st' slot root \<and> engine_inv host st'"
    using assms(3) by (induction rule: rtranclp_induct) (use assms(2) inv step in blast)+
  then have end_state: "frozen_at st' slot root" "focil_ok host st'" by (simp_all add: engine_inv_def)
  moreover from end_state have root': "root = engine_inclusion_list_root host (engine_required_il_txs st')"
    by (simp add: frozen_at_def focil_ok_def)
  moreover have "root = engine_inclusion_list_root host (engine_required_il_txs st)"
    using assms(2) inv by (simp add: frozen_at_def focil_ok_def engine_inv_def)
  ultimately show ?thesis
    using same_root_same_list [of host st st'] inv by (simp add: engine_inv_def)
qed

text \<open>C31.  What the freeze lets through.  A fork-choice update for the frozen slot that carries an inclusion
  list, in a slot without timeliness violation, is answered \<open>INVALID\<close> and changes neither the list, its
  metadata nor the committee when the root of its hashes is not the frozen one.  When it is, the update
  is \<open>VALID\<close>, and although the view stays frozen, the metadata required of the transactions (sender,
  nonce, gas, price, value) become those of the update, and so does the committee if it names one.\<close>

theorem frozen_update_outcome:
  assumes "frozen_at st slot root" and "fc_slot st req = slot" and "engine_request_has_inclusion_list req"
    and "il_update host req = Some entries"
    and "\<not> engine_7732_is_timeliness_violation
      (aggregate_status host st slot (unwrap_or (engine_7732_current_unix_s_from_req req) now))"
  shows "\<exists>resp payload st'. engine_forkchoice_updated_response host now now2 st req = Some (resp, st') \<and>
    jget ''payloadStatus'' resp = Some payload \<and> frozen_at st' slot root \<and>
    (if engine_inclusion_list_root host (map tm_hash entries) = root
     then jget ''status'' payload = Some (JString ''VALID'') \<and>
       engine_required_il_txs st' = map tm_hash entries \<and>
       (\<forall>m \<in> set entries. map_of (engine_required_il_meta st') (tm_hash m) = Some m) \<and>
       engine_focil_committee st' = (if engine_collect_committee_members req = [] then engine_focil_committee st
         else engine_collect_committee_members req)
     else jget ''status'' payload = Some (JString ''INVALID'') \<and>
       engine_required_il_txs st' = engine_required_il_txs st \<and>
       engine_required_il_meta st' = engine_required_il_meta st \<and>
       engine_focil_committee st' = engine_focil_committee st)"
proof -
  define time where "time = unwrap_or (engine_7732_current_unix_s_from_req req) now"
  define st1 where "st1 = penalised st slot (aggregate_status host st slot time)
      (check_reason slot (aggregate_status host st slot time)) time"
  have frame: "engine_focil_committee st1 = engine_focil_committee st" "frozen_at st1 slot root"
    "engine_required_il_txs st1 = engine_required_il_txs st" "engine_required_il_meta st1 = engine_required_il_meta st"
    using assms(1) by (simp_all add: st1_def frozen_at_def)
      (simp add: engine_7732_update_penalty_state_def Let_def split: option.split)
  have conflict: "frozen_conflict host st1 slot req entries \<longleftrightarrow>
      engine_inclusion_list_root host (map tm_hash entries) \<noteq> root"
    using frame(2) assms(3) by (simp add: frozen_conflict_def frozen_at_def)
  note call = engine_forkchoice_updated_response_def Let_def assms(2,4) timeliness_check_eq
    time_def [symmetric] st1_def [symmetric] assms(5) [folded time_def] payload_status_json_def
  show ?thesis
  proof (cases "engine_inclusion_list_root host (map tm_hash entries) = root")
    case True
    let ?st' = "apply_update st1 slot req entries now2"
    have "frozen_at ?st' slot root"
      using frame(2) by (simp add: frozen_at_def apply_update_view unfreeze_def)
    moreover have "map_of (engine_required_il_meta ?st') (tm_hash m) = Some m" if "m \<in> set entries" for m
      using that il_update_distinct [OF assms(4)] assms(3)
      by (auto simp: apply_update_list map_of_fold_metas rev_map [symmetric] comp_def intro!: map_of_is_SomeI)
    moreover have "engine_focil_committee ?st' = (if engine_collect_committee_members req = []
        then engine_focil_committee st else engine_collect_committee_members req)"
      using frame(1) by (simp add: apply_update_def unfreeze_def Let_def)
    ultimately show ?thesis using True conflict assms(3) by (simp add: call apply_update_list)
  next
    case False
    then show ?thesis using conflict frame by (simp add: call)
  qed
qed

section \<open>What a valid payload guarantees\<close>

text \<open>A payload transaction agrees with the metadata of the list in every field the list gives.\<close>

definition agrees :: "EngineTxMeta \<Rightarrow> EngineTxMeta \<Rightarrow> bool" where
  "agrees req got \<longleftrightarrow>
     tm_from req \<in> {None, tm_from got} \<and> tm_nonce req \<in> {None, tm_nonce got} \<and>
     tm_gas_limit req \<in> {None, tm_gas_limit got} \<and> tm_gas_price req \<in> {None, tm_gas_price got} \<and>
     tm_value req \<in> {None, tm_value got}"

lemma field_check_Nil: "field_check required got mismatch missing = [] \<longleftrightarrow> required \<in> {None, got}"
  by (auto simp: field_check_def split: option.splits)

lemma meta_checks_Nil: "meta_checks host req got h = [] \<longleftrightarrow> agrees req got"
  by (simp add: meta_checks_def field_check_Nil agrees_def)

lemma expected_nonce_gas:
  "total_known_gas (snd (expected_nonce host a f s)) = total_known_gas s"
  "unknown_gas_count (snd (expected_nonce host a f s)) = unknown_gas_count s"
  by (simp_all add: expected_nonce_def case_prod_unfold split: option.split)

lemma charge_gas:
  "total_known_gas (snd (charge host a f m s)) = total_known_gas s"
  "unknown_gas_count (snd (charge host a f m s)) = unknown_gas_count s"
  by (simp_all add: charge_def simulated_funds_def Let_def case_prod_unfold split: option.split)

lemma simulate_tx_gas:
  "total_known_gas (snd (simulate_tx host required s m)) = total_known_gas (count_gas m s)"
  "unknown_gas_count (snd (simulate_tx host required s m)) = unknown_gas_count (count_gas m s)"
  by (simp_all add: simulate_tx_def bump_nonce_def Let_def case_prod_unfold expected_nonce_gas charge_gas
      split: option.split)

lemma simulation_gas:
  assumes "\<forall>m \<in> set ms. tm_gas_limit m \<noteq> None"
  shows "unknown_gas_count (snd (scan (simulate_tx host required) s ms)) = unknown_gas_count s \<and>
    unat (total_known_gas (snd (scan (simulate_tx host required) s ms))) =
      min (unat (total_known_gas s) + (\<Sum>m \<leftarrow> ms. unat (the (tm_gas_limit m)))) (2 ^ 64 - 1)"
  using assms
proof (induction ms arbitrary: s)
  case Nil
  show ?case using unat_le_max [of "total_known_gas s"] by simp
next
  case (Cons m ms)
  then obtain g where g: "tm_gas_limit m = Some g" by auto
  from Cons.IH [of "snd (simulate_tx host required s m)"] Cons.prems g show ?case
    by (simp add: snd_scan_Cons simulate_tx_gas count_gas_def sat_simps del: scan.simps)
qed

lemma new_payload_verdict:
  assumes "engine_new_payload_response host now st req = Some (resp, st')"
    and "jget ''status'' resp = Some (JString ''VALID'')"
  obtains entries st1 status where "engine_collect_payload_transaction_entries host req = Some entries"
    and "status = aggregate_status host st (payload_slot st req)
      (unwrap_or (engine_7732_current_unix_s_from_req req) now)"
    and "\<exists>reason now. st1 = penalised st (payload_slot st req) status reason now"
    and "fst (judge_payload host st1 (payload_slot st req) status entries (missing_required st entries)) = ''VALID''"
proof -
  define time where "time = unwrap_or (engine_7732_current_unix_s_from_req req) now"
  define status where "status = aggregate_status host st (payload_slot st req) time"
  define st1 where "st1 = penalised st (payload_slot st req) status (check_reason (payload_slot st req) status) time"
  note defs = time_def [symmetric] timeliness_check_eq status_def [symmetric] st1_def [symmetric]
  from assms(1) obtain entries
    where entries: "engine_collect_payload_transaction_entries host req = Some entries"
    by (cases "engine_collect_payload_transaction_entries host req") (simp_all add: engine_new_payload_response_def)
  have "fst (judge_payload host st1 (payload_slot st req) status entries (missing_required st entries)) = ''VALID''"
    using assms entries
    by (auto simp add: engine_new_payload_response_def Let_def defs case_prod_unfold new_payload_json_def)
  from that [OF entries status_def [unfolded time_def] _ this] show ?thesis unfolding st1_def by blast
qed

lemma judge_payload_valid:
  assumes "fst (judge_payload host st slot status entries missing) = ''VALID''"
  shows "\<not> engine_7732_is_timeliness_violation status" and "missing = []"
    and "engine_focil_view_frozen st \<Longrightarrow> engine_focil_frozen_slot st \<in> {None, Some slot}"
    and "fst (payload_checks host st entries) = []"
proof -
  have checks: "fst (judge_checks r) = ''VALID'' \<longleftrightarrow> fst r = []" for r :: "string list \<times> 'a NodeState"
    by (simp add: judge_checks_def case_prod_unfold)
  from assms show "\<not> engine_7732_is_timeliness_violation status" and "missing = []"
    and "engine_focil_view_frozen st \<Longrightarrow> engine_focil_frozen_slot st \<in> {None, Some slot}"
    and "fst (payload_checks host st entries) = []"
    by (auto simp: judge_payload_def checks split: if_splits bool.splits option.splits)
qed

lemma payload_checks_pass:
  assumes "fst (payload_checks host st entries) = []" and "distinct (map tm_hash entries)"
    and "h \<in> set (engine_required_il_txs st)" and "map_of (engine_required_il_meta st) h = Some r"
    and "m \<in> set entries" and "tm_hash m = h"
  shows "agrees r m"
proof -
  have "map_of (payload_meta entries) h = Some m"
    using assms(2,5,6)
    by (auto simp: payload_meta_def map_of_fold_metas comp_def rev_map [symmetric] intro!: map_of_is_SomeI)
  moreover have "required_checks host st entries = []"
    using assms(1) by (simp add: payload_checks_def Let_def case_prod_unfold)
  ultimately have "meta_checks host r m h = []"
    using assms(3,4) by (auto simp: required_checks_def)
  then show ?thesis by (simp only: meta_checks_Nil)
qed

lemma collected_distinct:
  "engine_collect_payload_transaction_entries host req = Some ms \<Longrightarrow> distinct (map tm_hash ms)"
  by (auto simp: engine_collect_payload_transaction_entries_def dedup_tx_meta_array_def
      dest!: dedup_metas_distinct split: option.splits)

lemma payload_checks_gas:
  assumes "fst (payload_checks host st entries) = []" and "\<forall>m \<in> set entries. tm_gas_limit m \<noteq> None"
    and "engine_required_il_txs st \<noteq> []"
  shows "(\<Sum>m \<leftarrow> entries. unat (the (tm_gas_limit m))) \<le> 30000000"
proof (cases "entries = []")
  case False
  with assms simulation_gas [OF assms(2), where host = host and required = "engine_required_il_txs st"
      and s = "\<lparr>simulated_nonce = [], simulated_balance = [], total_known_gas = 0, unknown_gas_count = 0,
        sim_db = evm_db st\<rparr>"]
  show ?thesis
    by (auto simp: payload_checks_def Let_def case_prod_unfold ENGINE_BLOCK_GAS_LIMIT_def word_less_nat_alt)
qed simp

text \<open>C26.  A payload is answered \<open>VALID\<close> only if it honours the inclusion list: every required
  transaction is in it, agreeing with the list in each field the list gives; a frozen view is for the
  payload's slot; the slot is not in violation of timeliness; and if all gas limits are given and
  the list is not empty, they add up to at most the block gas limit.\<close>

theorem valid_payload_honours_list:
  assumes "engine_steps host (build_state db0 now0) st"
    and "engine_new_payload_response host now st req = Some (resp, st')"
    and "jget ''status'' resp = Some (JString ''VALID'')"
  shows "\<exists>entries. engine_collect_payload_transaction_entries host req = Some entries \<and>
    (\<forall>h \<in> set (engine_required_il_txs st). \<exists>m \<in> set entries. tm_hash m = h \<and>
       (\<exists>r. map_of (engine_required_il_meta st) h = Some r \<and> agrees r m)) \<and>
    (engine_focil_view_frozen st \<longrightarrow> engine_focil_frozen_slot st = Some (payload_slot st req)) \<and>
    \<not> engine_7732_is_timeliness_violation (aggregate_status host st (payload_slot st req)
       (unwrap_or (engine_7732_current_unix_s_from_req req) now)) \<and>
    ((\<forall>m \<in> set entries. tm_gas_limit m \<noteq> None) \<and> engine_required_il_txs st \<noteq> [] \<longrightarrow>
       (\<Sum>m \<leftarrow> entries. unat (the (tm_gas_limit m))) \<le> 30000000)"
proof -
  have ok: "focil_ok host st"
    using engine_steps_inv [OF assms(1) engine_inv_start] by (simp add: engine_inv_def)
  obtain entries st1 status reason time
    where entries: "engine_collect_payload_transaction_entries host req = Some entries"
      and status: "status = aggregate_status host st (payload_slot st req)
        (unwrap_or (engine_7732_current_unix_s_from_req req) now)"
      and st1: "st1 = penalised st (payload_slot st req) status reason time"
      and valid: "fst (judge_payload host st1 (payload_slot st req) status entries
        (missing_required st entries)) = ''VALID''"
    using new_payload_verdict [OF assms(2,3)] by metis
  note good = judge_payload_valid [OF valid]
  have included: "\<exists>m \<in> set entries. tm_hash m = h \<and>
      (\<exists>r. map_of (engine_required_il_meta st) h = Some r \<and> agrees r m)"
    if h: "h \<in> set (engine_required_il_txs st)" for h
  proof -
    from good(2) h obtain m where m: "m \<in> set entries" "tm_hash m = h"
      by (auto simp: missing_required_def filter_empty_conv)
    from ok h obtain r where r: "map_of (engine_required_il_meta st) h = Some r"
      by (fastforce simp: focil_ok_def)
    have "agrees r m"
      using payload_checks_pass [OF good(4) collected_distinct [OF entries], of h r m] h r m by (simp add: st1)
    with m r show ?thesis by blast
  qed
  have frozen: "engine_focil_frozen_slot st = Some (payload_slot st req)" if "engine_focil_view_frozen st"
    using good(3) that ok by (auto simp: st1 focil_ok_def)
  show ?thesis
    using entries included frozen good(1) status payload_checks_gas [OF good(4)] by (auto simp: st1)
qed

section \<open>The balance check wraps\<close>

text \<open>
  A value close to \<open>2 ^ 256\<close> makes the amount a transaction needs wrap around to nothing, so the
  balance check lets it through for an account that owns nothing.
\<close>

lemma required_wei_wraps: "required_wei 1 1 (- 1) = 0"
  by (simp add: required_wei_def)

lemma unfunded_value_passes:
  assumes "tm_gas_limit m = Some 1" and "tm_gas_price m = Some 1" and "tm_value m = Some (- 1)"
  shows "fst (charge host sender from_str m s) = []"
  using assms by (simp add: charge_def required_wei_wraps Let_def case_prod_unfold)

section \<open>Instances\<close>

definition sample_tx_hash :: string where
  "sample_tx_hash = ''0x'' @ replicate 64 CHR ''a''"

definition sample_fcu :: json where
  "sample_fcu = JObject [(''payloadAttributes'',
     JObject [(''slot'', jnum 1), (''inclusionListTransactions'', JArray [JString sample_tx_hash])])]"

definition sample_payload_req :: json where
  "sample_payload_req = JObject [(''slot'', jnum 1), (''transactions'', JArray [JString sample_tx_hash])]"

definition sample_listed :: "unit NodeState" where
  "sample_listed = (build_state () 0)
     \<lparr>engine_focil_view_id := Some 1,
      engine_required_il_txs := [sample_tx_hash],
      engine_required_il_meta := [(sample_tx_hash, EngineTxMeta_hash sample_tx_hash)],
      engine_required_il_slot := Some 1,
      engine_required_il_updated_at_unix_s := Some 6\<rparr>"

definition sample_frozen :: "unit NodeState" where
  "sample_frozen = freeze_view sample_host sample_listed 1"

lemma trim_id: "s \<noteq> [] \<Longrightarrow> \<not> is_ascii_whitespace (hd s) \<Longrightarrow> \<not> is_ascii_whitespace (last s) \<Longrightarrow> trim s = s"
proof -
  assume s: "s \<noteq> []" "\<not> is_ascii_whitespace (hd s)" "\<not> is_ascii_whitespace (last s)"
  have "dropWhile is_ascii_whitespace s = s" using s(1,2) by (cases s) simp_all
  moreover have "dropWhile is_ascii_whitespace (rev s) = rev s"
    using s(1,3) by (cases s rule: rev_cases) simp_all
  ultimately show "trim s = s" by (simp add: trim_def)
qed

lemma sample_hash_normal: "normalize_hash32 sample_tx_hash = Some sample_tx_hash"
proof -
  have "trim sample_tx_hash = sample_tx_hash"
    by (rule trim_id) (simp_all add: sample_tx_hash_def is_ascii_whitespace_def)
  then show ?thesis
    by (simp add: normalize_hash32_def sample_tx_hash_def drop_prefix_def strip_prefix_def
        is_ascii_hexdigit_def to_ascii_lowercase_def Let_def list_all_iff)
qed

lemma sample_quiet:
  fixes st :: "unit NodeState"
  assumes "engine_7732_headers_by_slot st = []" and "engine_7732_envelopes_by_root st = []"
    and "engine_7732_penalties_by_slot st = []"
  shows "aggregate_status sample_host st slot now = ''UNKNOWN''"
    and "penalised st slot ''UNKNOWN'' reason now = st"
  using assms
  by (simp_all add: aggregate_status_def slot_roots_def orphan_roots_def sample_host_def Let_def
      engine_7732_update_penalty_state_def engine_7732_is_timeliness_violation_def)

lemma sample_listed_call:
  "\<exists>resp. engine_forkchoice_updated_response sample_host 5 6 (build_state () 0) sample_fcu =
     Some (resp, sample_listed)"
proof -
  have entries: "il_update sample_host sample_fcu = Some [EngineTxMeta_hash sample_tx_hash]"
    and il: "engine_request_has_inclusion_list sample_fcu"
    and slot: "fc_slot (build_state () 0) sample_fcu = 1"
    by (simp_all add: il_update_def engine_request_has_inclusion_list_def fc_slot_def sample_fcu_def jnum_def
        engine_collect_inclusion_list_entries_def payload_attributes_from_engine_request_def
        dedup_tx_meta_array_def tx_meta_of_item_def sample_hash_normal parse_u64_value_def
        engine_slot_from_payload_attributes_def)
  have quiet: "aggregate_status sample_host (build_state () 0) 1 now = ''UNKNOWN''"
    "penalised (build_state () 0) 1 ''UNKNOWN'' reason now = build_state () 0" for now reason
    by (rule sample_quiet; simp add: build_state_def)+
  have "apply_update (build_state () 0) 1 sample_fcu [EngineTxMeta_hash sample_tx_hash] 6 = sample_listed"
    using il
    by (simp add: apply_update_def sample_listed_def unfreeze_def build_state_def EngineTxMeta_hash_def
        engine_collect_committee_members_def engine_view_id_from_payload_attributes_def sample_fcu_def
        payload_attributes_from_engine_request_def Let_def)
  moreover have "\<not> frozen_conflict sample_host (build_state () 0) 1 sample_fcu entries" for entries
    by (simp add: frozen_conflict_def build_state_def)
  ultimately show ?thesis
    using entries slot quiet
    by (simp add: engine_forkchoice_updated_response_def timeliness_check_eq
        engine_7732_is_timeliness_violation_def)
qed

lemma sample_frozen_call: "\<exists>resp. engine_get_inclusion_list_response sample_host sample_listed (JObject []) =
    (resp, sample_frozen)"
  by (simp add: engine_get_inclusion_list_response_def sample_frozen_def sample_listed_def u64_of_req_def param_def
      Let_def)

lemma sample_frozen_steps: "engine_steps sample_host (build_state () 0) sample_frozen"
proof (rule converse_rtranclp_into_rtranclp, rule_tac [2] r_into_rtranclp)
  obtain resp where "engine_dispatch sample_host 5 6 (build_state () 0) ''engine_forkchoiceUpdatedV3'' sample_fcu =
      Some (Some (resp, sample_listed))"
    using sample_listed_call by (auto simp: engine_dispatch_def)
  then show "\<exists>l. engine_step sample_host l (build_state () 0) sample_listed" using engine_step.call by blast
  obtain resp2 where "engine_dispatch sample_host 5 6 sample_listed ''engine_getInclusionListV1'' (JObject []) =
      Some (Some (resp2, sample_frozen))"
    using sample_frozen_call by (auto simp: engine_dispatch_def)
  then show "\<exists>l. engine_step sample_host l sample_listed sample_frozen" using engine_step.call by blast
qed

theorem engine_reachable_inv_witness:
  "headers_ok sample_frozen \<and> envelopes_ok sample_frozen \<and> penalties_ok sample_frozen \<and>
   focil_ok sample_host sample_frozen"
  by (rule engine_reachable_inv [OF sample_frozen_steps])

theorem frozen_list_immutable_witness:
  "frozen_at sample_frozen 1 (engine_inclusion_list_root sample_host [sample_tx_hash])"
proof -
  have "frozen_at sample_frozen 1 (engine_inclusion_list_root sample_host [sample_tx_hash])"
    by (simp add: frozen_at_def sample_frozen_def sample_listed_def freeze_view_def)
  from frozen_list_immutable [OF sample_frozen_steps this rtranclp.rtrancl_refl] show ?thesis by blast
qed

text \<open>The update that adds a required nonce to the frozen list.\<close>

definition sample_nonce_fcu :: json where
  "sample_nonce_fcu = JObject [(''payloadAttributes'',
     JObject [(''slot'', jnum 1),
       (''inclusionListTransactions'', JArray [JObject [(''hash'', JString sample_tx_hash), (''nonce'', jnum 7)]])])]"

theorem frozen_update_outcome_witness:
  "\<exists>resp st' m. engine_forkchoice_updated_response sample_host 5 6 sample_frozen sample_nonce_fcu = Some (resp, st') \<and>
     frozen_at st' 1 (engine_inclusion_list_root sample_host [sample_tx_hash]) \<and>
     map_of (engine_required_il_meta sample_frozen) sample_tx_hash = Some (EngineTxMeta_hash sample_tx_hash) \<and>
     map_of (engine_required_il_meta st') sample_tx_hash = Some m \<and> tm_nonce m = Some 7"
proof -
  let ?m = "(EngineTxMeta_hash sample_tx_hash)\<lparr>tm_nonce := Some 7\<rparr>"
  have entries: "il_update sample_host sample_nonce_fcu = Some [?m]"
    and il: "engine_request_has_inclusion_list sample_nonce_fcu"
    and slot: "fc_slot sample_frozen sample_nonce_fcu = 1"
    by (simp_all add: il_update_def engine_request_has_inclusion_list_def fc_slot_def sample_nonce_fcu_def jnum_def
        engine_collect_inclusion_list_entries_def payload_attributes_from_engine_request_def
        dedup_tx_meta_array_def tx_meta_of_item_def sample_hash_normal parse_u64_value_def EngineTxMeta_hash_def
        normalize_hash32_value_def engine_slot_from_payload_attributes_def)
  have quiet: "aggregate_status sample_host sample_frozen 1 now = ''UNKNOWN''" for now
    by (rule sample_quiet; simp add: sample_frozen_def sample_listed_def freeze_view_def build_state_def)+
  have frozen: "frozen_at sample_frozen 1 (engine_inclusion_list_root sample_host [sample_tx_hash])"
    and meta: "map_of (engine_required_il_meta sample_frozen) sample_tx_hash = Some (EngineTxMeta_hash sample_tx_hash)"
    by (simp_all add: frozen_at_def sample_frozen_def sample_listed_def freeze_view_def)
  have "\<not> engine_7732_is_timeliness_violation (aggregate_status sample_host sample_frozen 1 now)" for now
    unfolding quiet by (simp add: engine_7732_is_timeliness_violation_def)
  from frozen_update_outcome [OF frozen slot il entries this, of 5 6] meta show ?thesis
    by (auto simp: EngineTxMeta_hash_def)
qed

theorem registrations_permanent_witness:
  "map_of (engine_7732_headers_by_root (sample_registered\<lparr>current_height := 9\<rparr>)) ''0x00'' =
     map_of (engine_7732_headers_by_root sample_registered) ''0x00''"
proof -
  obtain resp where "engine_7732_register_payload_header_response sample_host 5 (build_state () 0)
      (sample_header_req 3) = Some (resp, sample_registered)"
    by (auto simp: sample_registered_def engine_7732_register_payload_header_response_def sample_parses
        prod_eq_iff)
  then have "engine_dispatch sample_host 5 6 (build_state () 0) ''engine_registerExecutionPayloadHeaderV1''
      (sample_header_req 3) = Some (Some (resp, sample_registered))" by (simp add: engine_dispatch_def)
  then have steps: "engine_steps sample_host (build_state () 0) sample_registered"
    using engine_step.call by (blast intro: r_into_rtranclp)
  have other: "sample_registered\<lparr>current_height := 9, evm_db := ()\<rparr> = sample_registered\<lparr>current_height := 9\<rparr>"
    by (cases sample_registered) simp
  have "engine_steps sample_host sample_registered (sample_registered\<lparr>current_height := 9\<rparr>)"
    using engine_step.other [where host = sample_host and st = sample_registered and h = 9 and db = "()"]
    unfolding other by (intro r_into_rtranclp exI [of _ None])
  from registrations_permanent [OF steps this, of "''0x00''"] show ?thesis
    by (cases "map_of (engine_7732_headers_by_root sample_registered) ''0x00''") simp_all
qed

lemma sample_payload_entries:
  "engine_collect_payload_transaction_entries sample_host sample_payload_req =
     Some [EngineTxMeta_hash sample_tx_hash]"
  by (simp add: engine_collect_payload_transaction_entries_def sample_payload_req_def
      execution_payload_from_engine_request_def param_def dedup_tx_meta_array_def tx_meta_of_item_def
      sample_hash_normal)

lemma sample_payload_valid:
  "\<exists>resp st'. engine_new_payload_response sample_host 5 sample_frozen sample_payload_req = Some (resp, st') \<and>
     jget ''status'' resp = Some (JString ''VALID'')"
proof -
  have slot: "payload_slot sample_frozen sample_payload_req = 1"
    by (simp add: payload_slot_def engine_payload_slot_def sample_payload_req_def parse_u64_value_def jnum_def)
  have quiet: "aggregate_status sample_host sample_frozen 1 now = ''UNKNOWN''"
    "penalised sample_frozen 1 ''UNKNOWN'' reason now = sample_frozen" for now reason
    by (rule sample_quiet; simp add: sample_frozen_def sample_listed_def freeze_view_def build_state_def)+
  have "missing_required sample_frozen [EngineTxMeta_hash sample_tx_hash] = []"
    by (simp add: missing_required_def sample_frozen_def sample_listed_def freeze_view_def EngineTxMeta_hash_def)
  moreover have "fst (judge_payload sample_host sample_frozen 1 ''UNKNOWN'' [EngineTxMeta_hash sample_tx_hash] []) =
      ''VALID''"
    by (simp add: judge_payload_def engine_7732_is_timeliness_violation_def sample_frozen_def sample_listed_def
        freeze_view_def judge_checks_def payload_checks_def required_checks_def payload_meta_def
        EngineTxMeta_hash_def meta_checks_def field_check_def simulate_tx_def count_gas_def Let_def)
  ultimately show ?thesis
    using sample_payload_entries slot quiet
    by (simp add: engine_new_payload_response_def timeliness_check_eq new_payload_json_def case_prod_unfold Let_def)
qed

theorem valid_payload_honours_list_witness:
  "\<exists>m \<in> {EngineTxMeta_hash sample_tx_hash}. tm_hash m \<in> set (engine_required_il_txs sample_frozen)"
proof -
  obtain resp st' where "engine_new_payload_response sample_host 5 sample_frozen sample_payload_req = Some (resp, st')"
    and "jget ''status'' resp = Some (JString ''VALID'')" using sample_payload_valid by blast
  from valid_payload_honours_list [OF sample_frozen_steps this] sample_payload_entries
  have "\<forall>h \<in> set (engine_required_il_txs sample_frozen). tm_hash (EngineTxMeta_hash sample_tx_hash) = h" by simp
  then show ?thesis by (simp add: sample_frozen_def sample_listed_def freeze_view_def)
qed

end
