(* ===== verification/Daemon_State.thy ===== *)
theory Daemon_State
  imports Inclusion_Lists
begin

text \<open>
  The whole \<open>NodeState\<close> of the daemon (\<open>crates/eth2077-node/src/bin/eth2077-devnetd.rs\<close>): the
  record \<open>DaemonState\<close> adds to the fields the engine methods use those of the transaction
  index, the market place and the status page.  \<open>engine_part\<close> forgets the added fields, and the
  engine methods run on that part.  \<open>node_host\<close> adds to the external code the RLP reader, the
  EVM and its database, the default hasher of the standard library, whose algorithm is
  unspecified, the JSON reader, and the one floating-point division of the status page.  The
  errors of the in-memory database have an empty type, so its functions are total here.
\<close>

section \<open>Records\<close>

record TxRecord =
  tr_hash :: string
  tr_from :: string
  tr_to :: "string option"
  tr_nonce :: u64
  tr_gas :: u64
  tr_gas_price :: u128
  tr_max_priority_fee_per_gas :: "u128 option"
  tr_max_fee_per_blob_gas :: "u128 option"
  tr_blob_versioned_hashes :: "string list"
  tr_authorization_list_len :: nat
  tr_value :: string
  tr_input :: string
  tr_type :: string
  tr_contract_address :: "string option"
  tr_block_number :: "u64 option"
  tr_block_hash :: "string option"
  tr_transaction_index :: "u64 option"

record TxLogRecord =
  tl_address :: string
  tl_topics :: "string list"
  tl_data :: string
  tl_block_number :: "u64 option"
  tl_block_hash :: "string option"
  tl_transaction_hash :: "string option"
  tl_transaction_index :: "u64 option"
  tl_log_index :: "u64 option"

record TxReceiptRecord =
  rc_tx_hash :: string
  rc_from :: string
  rc_to :: "string option"
  rc_contract_address :: "string option"
  rc_gas_used :: u64
  rc_cumulative_gas_used :: u64
  rc_effective_gas_price :: u64
  rc_type :: string
  rc_status :: bool
  rc_logs_bloom :: string
  rc_block_number :: "u64 option"
  rc_block_hash :: "string option"
  rc_transaction_index :: "u64 option"
  rc_logs :: "TxLogRecord list"

record SignedAuthorization =
  sa_chain_id :: U256
  sa_address :: Address
  sa_nonce :: u64
  sa_y_parity :: u8
  sa_r :: U256
  sa_s :: U256

record DecodedRawTx =
  dt_tx_type :: u8
  dt_chain_id :: "u64 option"
  dt_nonce :: u64
  dt_gas_limit :: u64
  dt_gas_price :: u128
  dt_max_priority_fee_per_gas :: "u128 option"
  dt_max_fee_per_blob_gas :: "u128 option"
  dt_blob_hashes :: "B256 list"
  dt_authorizations :: "SignedAuthorization list"
  dt_to :: "Address option"
  dt_value :: U256
  dt_data :: bytes

text \<open>A log of revm, with the bytes of its topics and data.\<close>

record EvmLog =
  el_address :: Address
  el_topics :: "B256 list"
  el_data :: bytes

record EvmExecOutcome =
  eo_gas_used :: u64
  eo_status :: bool
  eo_output :: bytes
  eo_contract_address :: "Address option"
  eo_logs :: "EvmLog list"

record MarketNft =
  nft_token_id :: u64
  nft_name :: string
  nft_description :: string
  nft_image :: string
  nft_owner :: string
  nft_listed :: bool
  nft_price_wei :: u128
  nft_created_at_unix_s :: u64
  nft_last_tx_hash :: "string option"

record MarketReceipt =
  mr_tx_hash :: string
  mr_token_id :: u64
  mr_buyer :: string
  mr_seller :: string
  mr_price_wei :: u128
  mr_chain_id :: u64
  mr_block_number_hint :: u64
  mr_timestamp_unix_s :: u64
  mr_signature :: string

record 'db DaemonState = "'db NodeState" +
  node_id :: nat
  nodes :: nat
  rpc_port :: "16 word"
  p2p_port :: "16 word"
  chain_id :: u64
  network :: string
  finalized_height :: u64
  peers_target :: nat
  peers_connected :: nat
  ingress_capacity_tps :: "64 word"
  execution_capacity_tps :: "64 word"
  oob_capacity_tps :: "64 word"
  bridge_replay_safe :: bool
  pending_txs :: "string list"
  txs :: "(string, TxRecord) hashmap"
  block_txs :: "(u64, string list) hashmap"
  block_timestamps :: "(u64, u64) hashmap"
  nonce_by_address :: "(string, u64) hashmap"
  pending_nonce_address_hint :: "string option"
  tx_counter :: u64
  tx_receipts :: "(string, TxReceiptRecord) hashmap"
  market_nfts :: "(u64, MarketNft) hashmap"
  next_market_token_id :: u64
  market_receipts :: "(string, MarketReceipt) hashmap"

section \<open>External code\<close>

text \<open>
  What \<open>execute_evm_transaction\<close> hands to revm: the environment of the block and of the
  transaction, as the builder calls set them.  \<open>te_chain_id\<close> and the fee fields are
  \<open>None\<close> where the builder call is not made.
\<close>

record BlockEnv =
  be_number :: U256
  be_timestamp :: U256
  be_basefee :: u64
  be_gas_limit :: u64

datatype TxKind = Call Address | Create

record TxEnv =
  te_tx_type :: u8
  te_caller :: Address
  te_gas_limit :: u64
  te_max_fee_per_gas :: u128
  te_nonce :: u64
  te_chain_id :: "u64 option"
  te_value :: U256
  te_data :: bytes
  te_gas_priority_fee :: "u128 option"
  te_blob :: "(u128 \<times> B256 list) option"
  te_authorization_list :: "SignedAuthorization list option"
  te_kind :: TxKind

text \<open>
  \<open>evm_transact commit cfg_chain_id block tx db\<close> is \<open>transact_commit\<close> or \<open>transact\<close>: an error
  message, or the outcome and the database afterwards.  An \<open>Rlp\<close> is a view of bytes.
\<close>

record 'db node_host = "'db host" +
  rlp_is_list :: "bytes \<Rightarrow> bool"
  rlp_at :: "bytes \<Rightarrow> nat \<Rightarrow> string + bytes"
  rlp_val_at :: "bytes \<Rightarrow> nat \<Rightarrow> string + bytes"
  rlp_item_count :: "bytes \<Rightarrow> string + nat"
  evm_transact :: "bool \<Rightarrow> u64 \<Rightarrow> BlockEnv \<Rightarrow> TxEnv \<Rightarrow> 'db \<Rightarrow> string + EvmExecOutcome \<times> 'db"
  db_default :: 'db
  account_info_default :: DbAccountInfo
  db_insert_account_info :: "'db \<Rightarrow> Address \<Rightarrow> DbAccountInfo \<Rightarrow> 'db"
  db_code_by_hash :: "'db \<Rightarrow> B256 \<Rightarrow> bytes \<times> 'db"
  db_storage :: "'db \<Rightarrow> Address \<Rightarrow> U256 \<Rightarrow> U256 \<times> 'db"
  calc_blob_gasprice :: "u64 \<Rightarrow> u128"
  evm_logs_bloom :: "EvmLog list \<Rightarrow> bytes"
  default_hash :: "string \<Rightarrow> u64 \<Rightarrow> u64 \<Rightarrow> u64"
  json_from_str :: "string \<Rightarrow> json option"
  f64_quotient :: "u64 \<Rightarrow> u64 \<Rightarrow> 64 word"
  nft_order :: "(u64 \<times> MarketNft) list \<Rightarrow> (u64 \<times> MarketNft) list"

abbreviation base_host :: "'db node_host \<Rightarrow> 'db host" where
  "base_host \<equiv> host.truncate"

section \<open>The engine part of the state\<close>

abbreviation engine_part :: "'db DaemonState \<Rightarrow> 'db NodeState" where
  "engine_part \<equiv> NodeState.truncate"

definition with_engine :: "'db NodeState \<Rightarrow> 'db DaemonState \<Rightarrow> 'db DaemonState" where
  "with_engine e st = NodeState.extend e (NodeState.more st)"

lemma engine_part_with_engine [simp]: "engine_part (with_engine e st) = e"
  by (simp add: with_engine_def NodeState.defs)

lemma with_engine_part [simp]: "with_engine (engine_part st) st = st"
  by (cases st) (simp add: with_engine_def NodeState.defs)

lemma with_engine_frame [simp]:
  "chain_id (with_engine e st) = chain_id st"
  "finalized_height (with_engine e st) = finalized_height st"
  "pending_txs (with_engine e st) = pending_txs st"
  "txs (with_engine e st) = txs st"
  "block_txs (with_engine e st) = block_txs st"
  "block_timestamps (with_engine e st) = block_timestamps st"
  "nonce_by_address (with_engine e st) = nonce_by_address st"
  "pending_nonce_address_hint (with_engine e st) = pending_nonce_address_hint st"
  "tx_counter (with_engine e st) = tx_counter st"
  "tx_receipts (with_engine e st) = tx_receipts st"
  "market_nfts (with_engine e st) = market_nfts st"
  "next_market_token_id (with_engine e st) = next_market_token_id st"
  "market_receipts (with_engine e st) = market_receipts st"
  by (cases st; simp add: with_engine_def NodeState.defs)+

lemma with_engine_fields [simp]:
  "current_height (with_engine e st) = current_height e"
  "started_at_unix_s (with_engine e st) = started_at_unix_s e"
  "evm_db (with_engine e st) = evm_db e"
  by (simp_all add: with_engine_def NodeState.defs)

lemma engine_part_fields [simp]:
  "current_height (engine_part st) = current_height st"
  "started_at_unix_s (engine_part st) = started_at_unix_s st"
  "evm_db (engine_part st) = evm_db st"
  by (simp_all add: NodeState.defs)

section \<open>Start-up\<close>

text \<open>The fields of \<open>Config\<close> that \<open>build_state\<close> reads, and the figures it gets from \<open>bootstrap\<close>.\<close>

record Config =
  cfg_node_id :: nat
  cfg_nodes :: nat
  cfg_rpc_port :: "16 word"
  cfg_p2p_port :: "16 word"

record Figures =
  fig_ingress :: "64 word"
  fig_execution :: "64 word"
  fig_oob :: "64 word"
  fig_bridge_replay_safe :: bool

definition MARKET_MERCHANT_ADDRESS :: string where
  "MARKET_MERCHANT_ADDRESS = ''0x'' @ replicate 40 (CHR ''1'')"

definition seed_nft :: "u64 \<Rightarrow> u64 \<times> string \<times> string \<times> string \<times> u128 \<Rightarrow> MarketNft" where
  "seed_nft now = (\<lambda>(token_id, name, description, image, price_wei).
     \<lparr>nft_token_id = token_id, nft_name = name, nft_description = description, nft_image = image,
      nft_owner = MARKET_MERCHANT_ADDRESS, nft_listed = True, nft_price_wei = price_wei,
      nft_created_at_unix_s = now, nft_last_tx_hash = None\<rparr>)"

definition market_seed :: "(u64 \<times> string \<times> string \<times> string \<times> u128) list" where
  "market_seed =
     [(1, ''Citadel Genesis #1'', ''First generation ETH2077 demo marketplace NFT'',
       ''https://picsum.photos/seed/eth2077-genesis-1/640/640'', 1500000000000000),
      (2, ''Citadel Genesis #2'', ''Proof-of-concept NFT for ETH2077 marketplace flows'',
       ''https://picsum.photos/seed/eth2077-genesis-2/640/640'', 2000000000000000),
      (3, ''Citadel Genesis #3'', ''Live devnet collectible settled through MetaMask'',
       ''https://picsum.photos/seed/eth2077-genesis-3/640/640'', 3000000000000000)]"

definition seed_market_nfts :: "u64 \<Rightarrow> (u64, MarketNft) hashmap" where
  "seed_market_nfts now = fold (\<lambda>entry. hm_insert (fst entry) (seed_nft now entry)) market_seed []"

definition start_state ::
    "'db node_host \<Rightarrow> Config \<Rightarrow> Figures \<Rightarrow> json \<Rightarrow> u64 \<Rightarrow> 'db DaemonState" where
  "start_state nh cfg fig chain_spec now =
     \<lparr>started_at_unix_s = now, current_height = 0,
      engine_required_il_txs = [], engine_required_il_meta = [], engine_required_il_slot = None,
      engine_required_il_updated_at_unix_s = None, engine_focil_committee = [],
      engine_focil_view_frozen = False, engine_focil_frozen_slot = None,
      engine_focil_frozen_il_root = None, engine_focil_view_id = None,
      engine_7732_headers_by_slot = [], engine_7732_headers_by_root = [],
      engine_7732_envelopes_by_root = [], engine_7732_penalties_by_slot = [],
      evm_db = db_default nh,
      node_id = cfg_node_id cfg, nodes = cfg_nodes cfg, rpc_port = cfg_rpc_port cfg,
      p2p_port = cfg_p2p_port cfg,
      chain_id = unwrap_or (Option.bind (jget ''chain_id'' chain_spec) as_u64) 0,
      network = unwrap_or (Option.bind (jget ''name'' chain_spec) as_str) ''eth2077-devnet'',
      finalized_height = 0, peers_target = cfg_nodes cfg - 1, peers_connected = cfg_nodes cfg - 1,
      ingress_capacity_tps = fig_ingress fig, execution_capacity_tps = fig_execution fig,
      oob_capacity_tps = fig_oob fig, bridge_replay_safe = fig_bridge_replay_safe fig,
      pending_txs = [], txs = [], block_txs = [], block_timestamps = [(0, now)],
      nonce_by_address = [], pending_nonce_address_hint = None, tx_counter = 0, tx_receipts = [],
      market_nfts = seed_market_nfts now, next_market_token_id = 4, market_receipts = []\<rparr>"

lemma engine_part_start [simp]:
  "engine_part (start_state nh cfg fig chain_spec now) = build_state (db_default nh) now"
  by (simp add: start_state_def build_state_def NodeState.defs)

lemma seed_market_nfts_eq:
  "seed_market_nfts now = map (\<lambda>entry. (fst entry, seed_nft now entry)) market_seed"
  by (simp add: seed_market_nfts_def market_seed_def)

end
