(* ===== verification/Raw_Tx.thy ===== *)
theory Raw_Tx
  imports Daemon_State
begin

text \<open>
  Raw transactions: \<open>hex_to_u64_be\<close> to \<open>decode_raw_tx\<close> of the daemon, for legacy transactions and
  the types 1 to 4.  A function here returns, fails with a message, or panics, which only
  \<open>U256::from_be_slice\<close> can.  The decoder is the inverse of the encoding the Ethereum
  documents prescribe: \<open>tx_item\<close> is the RLP item of a transaction, and decoding its encoding gives the
  transaction back.
\<close>

section \<open>Outcomes\<close>

datatype 'a outcome = Panicked | Failed string | Returned 'a

fun and_then :: "'a outcome \<Rightarrow> ('a \<Rightarrow> 'b outcome) \<Rightarrow> 'b outcome" where
  "and_then Panicked f = Panicked"
| "and_then (Failed e) f = Failed e"
| "and_then (Returned x) f = f x"

text \<open>\<open>result.map_err(f)\<close> of a result of the RLP reader.\<close>

definition map_err :: "(string \<Rightarrow> string) \<Rightarrow> string + 'a \<Rightarrow> 'a outcome" where
  "map_err f r = (case r of Inl e \<Rightarrow> Failed (f e) | Inr v \<Rightarrow> Returned v)"

lemma and_then_Returned: "and_then m f = Returned y \<longleftrightarrow> (\<exists>x. m = Returned x \<and> f x = Returned y)"
  by (cases m) simp_all

lemma and_then_Panicked: "and_then m f = Panicked \<longleftrightarrow> m = Panicked \<or> (\<exists>x. m = Returned x \<and> f x = Panicked)"
  by (cases m) simp_all

lemma map_err_Inr [simp]: "map_err f (Inr v) = Returned v"
  by (simp add: map_err_def)

lemma map_err_no_panic [simp]: "map_err f r \<noteq> Panicked"
  by (simp add: map_err_def split: sum.split)

section \<open>Fields\<close>

text \<open>\<open>out = (out << 8) | b\<close> for each byte; the shift drops what does not fit.\<close>

definition shift_in :: "bytes \<Rightarrow> 'a::len word" where
  "shift_in bs = foldl (\<lambda>out b. or (push_bit 8 out) (ucast b)) 0 bs"

definition hex_to_u64_be :: "bytes \<Rightarrow> u64 outcome" where
  "hex_to_u64_be bs = (if 8 < length bs then Failed ''integer overflows u64'' else Returned (shift_in bs))"

definition hex_to_u128_be :: "bytes \<Rightarrow> u128 outcome" where
  "hex_to_u128_be bs = (if 16 < length bs then Failed ''integer overflows u128'' else Returned (shift_in bs))"

definition field_error :: "string \<Rightarrow> nat \<Rightarrow> string \<Rightarrow> string" where
  "field_error what idx e = ''invalid '' @ what @ '' field '' @ decimal idx @ '': '' @ e"

definition rlp_raw :: "'db node_host \<Rightarrow> string \<Rightarrow> bytes \<Rightarrow> nat \<Rightarrow> bytes outcome" where
  "rlp_raw nh what rlp idx = map_err (field_error what idx) (rlp_val_at nh rlp idx)"

definition rlp_u64 :: "'db node_host \<Rightarrow> bytes \<Rightarrow> nat \<Rightarrow> u64 outcome" where
  "rlp_u64 nh rlp idx = and_then (rlp_raw nh ''u64'' rlp idx) hex_to_u64_be"

definition rlp_u128 :: "'db node_host \<Rightarrow> bytes \<Rightarrow> nat \<Rightarrow> u128 outcome" where
  "rlp_u128 nh rlp idx = and_then (rlp_raw nh ''u128'' rlp idx) hex_to_u128_be"

definition u256_of_slice :: "'db node_host \<Rightarrow> bytes \<Rightarrow> U256 outcome" where
  "u256_of_slice nh bs = (case u256_from_be_slice nh bs of None \<Rightarrow> Panicked | Some v \<Rightarrow> Returned v)"

definition rlp_u256 :: "'db node_host \<Rightarrow> bytes \<Rightarrow> nat \<Rightarrow> U256 outcome" where
  "rlp_u256 nh rlp idx = and_then (rlp_raw nh ''u256'' rlp idx) (u256_of_slice nh)"

definition rlp_bytes :: "'db node_host \<Rightarrow> bytes \<Rightarrow> nat \<Rightarrow> bytes outcome" where
  "rlp_bytes nh rlp idx = rlp_raw nh ''bytes'' rlp idx"

definition rlp_optional_address :: "'db node_host \<Rightarrow> bytes \<Rightarrow> nat \<Rightarrow> Address option outcome" where
  "rlp_optional_address nh rlp idx =
     and_then (rlp_raw nh ''address'' rlp idx) (\<lambda>raw.
       if raw = [] then Returned None
       else if length raw = 20 then Returned (Some (word_of_be raw))
       else Failed (''invalid address length at field '' @ decimal idx @ '': '' @ decimal (length raw)))"

text \<open>A list field: its view and the number of its items.\<close>

definition rlp_list_field ::
    "'db node_host \<Rightarrow> string \<Rightarrow> string \<Rightarrow> string \<Rightarrow> bytes \<Rightarrow> nat \<Rightarrow> (bytes \<times> nat) outcome" where
  "rlp_list_field nh what not_list counting rlp idx =
     and_then (map_err (field_error what idx) (rlp_at nh rlp idx)) (\<lambda>list.
     if \<not> rlp_is_list nh list then Failed (''field '' @ decimal idx @ not_list)
     else and_then
       (map_err (\<lambda>e. ''failed counting '' @ counting @ '' items at field '' @ decimal idx @ '': '' @ e)
         (rlp_item_count nh list)) (\<lambda>count.
     Returned (list, count)))"

text \<open>The loop \<open>for i in 0..count\<close> that pushes one parsed item after another.\<close>

fun parse_items :: "(nat \<Rightarrow> 'a outcome) \<Rightarrow> nat list \<Rightarrow> 'a list outcome" where
  "parse_items f [] = Returned []"
| "parse_items f (i # is) = and_then (f i) (\<lambda>x. and_then (parse_items f is) (\<lambda>xs. Returned (x # xs)))"

definition at_item :: "nat \<Rightarrow> nat \<Rightarrow> string" where
  "at_item idx i = ''field '' @ decimal idx @ ''['' @ decimal i @ '']: ''"

definition parse_b256_item :: "'db node_host \<Rightarrow> nat \<Rightarrow> bytes \<Rightarrow> nat \<Rightarrow> B256 outcome" where
  "parse_b256_item nh idx list i =
     and_then (map_err (\<lambda>e. ''invalid b256 element '' @ decimal i @ '' at field '' @ decimal idx @ '': '' @ e)
       (rlp_val_at nh list i)) (\<lambda>raw.
     if length raw \<noteq> 32 then
       Failed (''invalid b256 length at '' @ at_item idx i @ decimal (length raw) @ '' (expected 32)'')
     else Returned (word_of_be raw))"

definition rlp_b256_list :: "'db node_host \<Rightarrow> bytes \<Rightarrow> nat \<Rightarrow> B256 list outcome" where
  "rlp_b256_list nh rlp idx =
     and_then (rlp_list_field nh ''list'' '' must be a list'' ''list'' rlp idx) (\<lambda>(list, count).
       parse_items (parse_b256_item nh idx list) [0..<count])"

definition parse_authorization :: "'db node_host \<Rightarrow> nat \<Rightarrow> bytes \<Rightarrow> nat \<Rightarrow> SignedAuthorization outcome" where
  "parse_authorization nh idx list i =
     and_then (map_err (\<lambda>e. ''invalid authorization entry '' @ decimal i @ '' in field '' @ decimal idx @ '': '' @ e)
       (rlp_at nh list i)) (\<lambda>auth.
     if \<not> rlp_is_list nh auth then
       Failed (''authorization entry '' @ decimal i @ '' in field '' @ decimal idx @ '' must be a list'')
     else
     and_then (rlp_u256 nh auth 0) (\<lambda>chain.
     and_then (map_err (\<lambda>e. ''invalid authorization address at '' @ at_item idx i @ e)
       (rlp_val_at nh auth 1)) (\<lambda>address_raw.
     if length address_raw \<noteq> 20 then
       Failed (''invalid authorization address length at '' @ at_item idx i @ decimal (length address_raw))
     else
     and_then (rlp_u64 nh auth 2) (\<lambda>nonce.
     and_then (rlp_u64 nh auth 3) (\<lambda>y_parity_raw.
     if 1 < y_parity_raw then
       Failed (''invalid y_parity at '' @ at_item idx i @ decimal (unat y_parity_raw) @ '' (expected 0 or 1)'')
     else
     and_then (rlp_u256 nh auth 4) (\<lambda>r.
     and_then (rlp_u256 nh auth 5) (\<lambda>s.
     Returned \<lparr>sa_chain_id = chain, sa_address = word_of_be address_raw, sa_nonce = nonce,
       sa_y_parity = ucast y_parity_raw, sa_r = r, sa_s = s\<rparr>)))))))"

definition rlp_signed_authorization_list ::
    "'db node_host \<Rightarrow> bytes \<Rightarrow> nat \<Rightarrow> SignedAuthorization list outcome" where
  "rlp_signed_authorization_list nh rlp idx =
     and_then (rlp_list_field nh ''authorization list'' '' must be an authorization list''
         ''authorization list'' rlp idx) (\<lambda>(list, count).
       parse_items (parse_authorization nh idx list) [0..<count])"

section \<open>Transactions\<close>

definition decode_legacy :: "'db node_host \<Rightarrow> bytes \<Rightarrow> DecodedRawTx outcome" where
  "decode_legacy nh rlp =
     and_then (rlp_u64 nh rlp 0) (\<lambda>nonce.
     and_then (rlp_u128 nh rlp 1) (\<lambda>gas_price.
     and_then (rlp_u64 nh rlp 2) (\<lambda>gas_limit.
     and_then (rlp_optional_address nh rlp 3) (\<lambda>to.
     and_then (rlp_u256 nh rlp 4) (\<lambda>value.
     and_then (rlp_bytes nh rlp 5) (\<lambda>data.
     Returned \<lparr>dt_tx_type = 0, dt_chain_id = None, dt_nonce = nonce, dt_gas_limit = gas_limit,
       dt_gas_price = gas_price, dt_max_priority_fee_per_gas = None, dt_max_fee_per_blob_gas = None,
       dt_blob_hashes = [], dt_authorizations = [], dt_to = to, dt_value = value, dt_data = data\<rparr>))))))"

definition decode_2930 :: "'db node_host \<Rightarrow> bytes \<Rightarrow> DecodedRawTx outcome" where
  "decode_2930 nh rlp =
     and_then (rlp_u64 nh rlp 0) (\<lambda>chain.
     and_then (rlp_u64 nh rlp 1) (\<lambda>nonce.
     and_then (rlp_u128 nh rlp 2) (\<lambda>gas_price.
     and_then (rlp_u64 nh rlp 3) (\<lambda>gas_limit.
     and_then (rlp_optional_address nh rlp 4) (\<lambda>to.
     and_then (rlp_u256 nh rlp 5) (\<lambda>value.
     and_then (rlp_bytes nh rlp 6) (\<lambda>data.
     Returned \<lparr>dt_tx_type = 1, dt_chain_id = Some chain, dt_nonce = nonce, dt_gas_limit = gas_limit,
       dt_gas_price = gas_price, dt_max_priority_fee_per_gas = None, dt_max_fee_per_blob_gas = None,
       dt_blob_hashes = [], dt_authorizations = [], dt_to = to, dt_value = value, dt_data = data\<rparr>)))))))"

definition decode_1559 :: "'db node_host \<Rightarrow> bytes \<Rightarrow> DecodedRawTx outcome" where
  "decode_1559 nh rlp =
     and_then (rlp_u64 nh rlp 0) (\<lambda>chain.
     and_then (rlp_u64 nh rlp 1) (\<lambda>nonce.
     and_then (rlp_u128 nh rlp 2) (\<lambda>max_priority.
     and_then (rlp_u128 nh rlp 3) (\<lambda>max_fee.
     and_then (rlp_u64 nh rlp 4) (\<lambda>gas_limit.
     and_then (rlp_optional_address nh rlp 5) (\<lambda>to.
     and_then (rlp_u256 nh rlp 6) (\<lambda>value.
     and_then (rlp_bytes nh rlp 7) (\<lambda>data.
     Returned \<lparr>dt_tx_type = 2, dt_chain_id = Some chain, dt_nonce = nonce, dt_gas_limit = gas_limit,
       dt_gas_price = max_fee, dt_max_priority_fee_per_gas = Some max_priority,
       dt_max_fee_per_blob_gas = None, dt_blob_hashes = [], dt_authorizations = [], dt_to = to,
       dt_value = value, dt_data = data\<rparr>))))))))"

definition check_access_list :: "'db node_host \<Rightarrow> bytes \<Rightarrow> unit outcome" where
  "check_access_list nh rlp =
     and_then (map_err (field_error ''access list'' 8) (rlp_at nh rlp 8)) (\<lambda>access_list.
     if \<not> rlp_is_list nh access_list then Failed ''invalid access list field 8: expected list''
     else Returned ())"

definition decode_4844 :: "'db node_host \<Rightarrow> bytes \<Rightarrow> DecodedRawTx outcome" where
  "decode_4844 nh rlp =
     and_then (rlp_u64 nh rlp 0) (\<lambda>chain.
     and_then (rlp_u64 nh rlp 1) (\<lambda>nonce.
     and_then (rlp_u128 nh rlp 2) (\<lambda>max_priority.
     and_then (rlp_u128 nh rlp 3) (\<lambda>max_fee.
     and_then (rlp_u64 nh rlp 4) (\<lambda>gas_limit.
     and_then (rlp_optional_address nh rlp 5) (\<lambda>to.
     and_then (rlp_u256 nh rlp 6) (\<lambda>value.
     and_then (rlp_bytes nh rlp 7) (\<lambda>data.
     and_then (check_access_list nh rlp) (\<lambda>_.
     and_then (rlp_u128 nh rlp 9) (\<lambda>max_fee_per_blob_gas.
     and_then (rlp_b256_list nh rlp 10) (\<lambda>blob_hashes.
     Returned \<lparr>dt_tx_type = 3, dt_chain_id = Some chain, dt_nonce = nonce, dt_gas_limit = gas_limit,
       dt_gas_price = max_fee, dt_max_priority_fee_per_gas = Some max_priority,
       dt_max_fee_per_blob_gas = Some max_fee_per_blob_gas, dt_blob_hashes = blob_hashes,
       dt_authorizations = [], dt_to = to, dt_value = value, dt_data = data\<rparr>)))))))))))"

definition decode_7702 :: "'db node_host \<Rightarrow> bytes \<Rightarrow> DecodedRawTx outcome" where
  "decode_7702 nh rlp =
     and_then (rlp_u64 nh rlp 0) (\<lambda>chain.
     and_then (rlp_u64 nh rlp 1) (\<lambda>nonce.
     and_then (rlp_u128 nh rlp 2) (\<lambda>max_priority.
     and_then (rlp_u128 nh rlp 3) (\<lambda>max_fee.
     and_then (rlp_u64 nh rlp 4) (\<lambda>gas_limit.
     and_then (rlp_optional_address nh rlp 5) (\<lambda>to.
     if to = None then Failed ''EIP-7702 transaction must include destination address''
     else
     and_then (rlp_u256 nh rlp 6) (\<lambda>value.
     and_then (rlp_bytes nh rlp 7) (\<lambda>data.
     and_then (check_access_list nh rlp) (\<lambda>_.
     and_then (rlp_signed_authorization_list nh rlp 9) (\<lambda>authorizations.
     if authorizations = [] then Failed ''EIP-7702 authorization list must not be empty''
     else
     Returned \<lparr>dt_tx_type = 4, dt_chain_id = Some chain, dt_nonce = nonce, dt_gas_limit = gas_limit,
       dt_gas_price = max_fee, dt_max_priority_fee_per_gas = Some max_priority,
       dt_max_fee_per_blob_gas = None, dt_blob_hashes = [], dt_authorizations = authorizations,
       dt_to = to, dt_value = value, dt_data = data\<rparr>))))))))))"

text \<open>\<open>{:02x}\<close> of a byte.\<close>

definition hex2 :: "u8 \<Rightarrow> string" where
  "hex2 b = [hex_char (unat b div 16), hex_char (unat b mod 16)]"

definition decode_typed :: "'db node_host \<Rightarrow> u8 \<Rightarrow> bytes \<Rightarrow> DecodedRawTx outcome" where
  "decode_typed nh tx_type rlp =
     (if \<not> rlp_is_list nh rlp then
        Failed (''typed transaction 0x'' @ hex2 tx_type @ '' is not an RLP list'')
      else if tx_type = 1 then decode_2930 nh rlp
      else if tx_type = 2 then decode_1559 nh rlp
      else if tx_type = 3 then decode_4844 nh rlp
      else if tx_type = 4 then decode_7702 nh rlp
      else Failed (''unsupported typed transaction: 0x'' @ hex2 tx_type @
        '' (supported: legacy, 0x01, 0x02, 0x03, 0x04)''))"

definition decode_raw_tx :: "'db node_host \<Rightarrow> string \<Rightarrow> DecodedRawTx outcome" where
  "decode_raw_tx nh raw_tx =
     (case parse_hex_bytes (base_host nh) raw_tx of
        None \<Rightarrow> Failed ''raw transaction is not valid hex''
      | Some [] \<Rightarrow> Failed ''raw transaction payload is empty''
      | Some (b # payload) \<Rightarrow>
          if 0xc0 \<le> b then
            (if \<not> rlp_is_list nh (b # payload) then Failed ''legacy transaction is not an RLP list''
             else decode_legacy nh (b # payload))
          else decode_typed nh b payload)"

section \<open>Integers\<close>

lemma shift_in_step: "or (push_bit 8 out) (ucast (b :: u8)) = out * 256 + ucast b" for out :: "'a::len word"
proof -
  have "\<not> (bit (push_bit 8 out) n \<and> bit (ucast b :: 'a word) n)" for n
    by (auto simp: bit_push_bit_iff bit_ucast_iff dest: bit_imp_le_length)
  then have "or (push_bit 8 out) (ucast b) = push_bit 8 out + (ucast b :: 'a word)"
    by (intro disjunctive_add_eq_or [symmetric] bit_eqI) (auto simp: bit_and_iff)
  then show ?thesis by (simp add: push_bit_eq_mult mult.commute)
qed

lemma shift_in_eq: "shift_in bs = (of_nat (of_be bs) :: 'a::len word)"
proof (induction bs rule: rev_induct)
  case (snoc b bs)
  have "(of_nat (unat b) :: 'a word) = ucast b" by (simp add: of_nat_unat)
  with snoc show ?case by (simp add: shift_in_def shift_in_step mult.commute)
qed (simp add: shift_in_def)

text \<open>The shortest big-endian byte string of a number, the form in which transactions carry integers.\<close>

definition be_min :: "nat \<Rightarrow> bytes" where
  "be_min v = dropWhile (\<lambda>b. b = 0) (be_nat 32 v)"

lemma of_be_dropWhile: "of_be (dropWhile (\<lambda>b. b = 0) bs) = of_be bs"
  by (induction bs) (simp_all add: of_be_Cons)

lemma of_be_be_min: "v < 2 ^ 256 \<Longrightarrow> of_be (be_min v) = v"
  by (simp add: be_min_def of_be_dropWhile of_be_be_nat power_256)

lemma of_be_lower:
  assumes "bs \<noteq> []" and "hd bs \<noteq> 0"
  shows "256 ^ (length bs - 1) \<le> of_be bs"
proof (cases bs)
  case (Cons b rest)
  with assms(2) have "1 \<le> unat b" by (simp add: unat_gt_0 Suc_le_eq)
  then have "1 * 256 ^ length rest \<le> unat b * 256 ^ length rest" by (rule mult_le_mono1)
  also have "\<dots> \<le> of_be bs" by (simp add: Cons of_be_Cons)
  finally show ?thesis by (simp add: Cons)
qed (use assms in simp)

lemma length_be_min:
  assumes "v < 2 ^ 256" and "v < 256 ^ k"
  shows "length (be_min v) \<le> k"
proof (cases "be_min v = []")
  case False
  then have "hd (be_min v) \<noteq> 0" unfolding be_min_def by (rule hd_dropWhile)
  with False of_be_lower [of "be_min v"] of_be_be_min [OF assms(1)]
  have "256 ^ (length (be_min v) - 1) \<le> v" by simp
  also note assms(2)
  finally have "length (be_min v) - 1 < k" by (rule power_less_imp_less_exp [rotated]) simp
  then show ?thesis by simp
qed simp

section \<open>The encoding the documents prescribe\<close>

text \<open>
  An RLP item is a byte string or a list of items.  \<open>rlp_reads\<close> is what the decoder relies on in the
  RLP reader for one item: a view of the encoding of a list gives its length and the
  encodings and byte strings of its elements, and so for these.
\<close>

datatype rlp_item = Str bytes | Items "rlp_item list"

fun rlp_reads :: "'db node_host \<Rightarrow> (rlp_item \<Rightarrow> bytes) \<Rightarrow> rlp_item \<Rightarrow> bool" where
  "rlp_reads nh enc (Str bs) \<longleftrightarrow> \<not> rlp_is_list nh (enc (Str bs))"
| "rlp_reads nh enc (Items its) \<longleftrightarrow>
     rlp_is_list nh (enc (Items its)) \<and>
     rlp_item_count nh (enc (Items its)) = Inr (length its) \<and>
     list_all (\<lambda>i. rlp_at nh (enc (Items its)) i = Inr (enc (its ! i)) \<and>
       (case its ! i of Str bs \<Rightarrow> rlp_val_at nh (enc (Items its)) i = Inr bs | _ \<Rightarrow> True)) [0..<length its] \<and>
     list_all (rlp_reads nh enc) its"

text \<open>The \<open>hex\<close> crate reads what it prints, and 256-bit integers are read from up to 32 bytes.\<close>

definition hex_crate :: "'db node_host \<Rightarrow> bool" where
  "hex_crate nh \<longleftrightarrow>
     (\<forall>bs. hex_decode nh (hex_encode nh bs) = Some bs \<and> length (hex_encode nh bs) = 2 * length bs \<and>
       list_all is_ascii_hexdigit (hex_encode nh bs))"

definition ruint_slices :: "'db node_host \<Rightarrow> bool" where
  "ruint_slices nh \<longleftrightarrow>
     (\<forall>bs. u256_from_be_slice nh bs = (if length bs \<le> 32 then Some (word_of_be bs) else None))"

definition num :: "'a::len word \<Rightarrow> rlp_item" where
  "num w = Str (be_min (unat w))"

definition address_item :: "Address option \<Rightarrow> rlp_item" where
  "address_item a = Str (case a of None \<Rightarrow> [] | Some w \<Rightarrow> be_bytes w)"

definition authorization_item :: "SignedAuthorization \<Rightarrow> rlp_item" where
  "authorization_item a =
     Items [num (sa_chain_id a), Str (be_bytes (sa_address a)), num (sa_nonce a), num (sa_y_parity a),
       num (sa_r a), num (sa_s a)]"

text \<open>
  The item of a transaction, with an access list \<open>al\<close> and the items \<open>sig\<close> of its signature,
  which the decoder does not look at.
\<close>

definition tx_item :: "rlp_item list \<Rightarrow> rlp_item list \<Rightarrow> DecodedRawTx \<Rightarrow> rlp_item" where
  "tx_item al sig tx =
     (let chain = num (the (dt_chain_id tx));
          dest = address_item (dt_to tx);
          fees = [num (the (dt_max_priority_fee_per_gas tx)), num (dt_gas_price tx)];
          call = [num (dt_gas_limit tx), dest, num (dt_value tx), Str (dt_data tx)] in
      if dt_tx_type tx = 0 then Items (num (dt_nonce tx) # num (dt_gas_price tx) # call @ sig)
      else if dt_tx_type tx = 1 then
        Items (chain # num (dt_nonce tx) # num (dt_gas_price tx) # call @ Items al # sig)
      else if dt_tx_type tx = 2 then Items (chain # num (dt_nonce tx) # fees @ call @ Items al # sig)
      else if dt_tx_type tx = 3 then
        Items (chain # num (dt_nonce tx) # fees @ call @ Items al # num (the (dt_max_fee_per_blob_gas tx)) #
          Items (map (\<lambda>h. Str (be_bytes h)) (dt_blob_hashes tx)) # sig)
      else
        Items (chain # num (dt_nonce tx) # fees @ call @ Items al #
          Items (map authorization_item (dt_authorizations tx)) # sig))"

text \<open>A transaction has the fields of its type and no others.\<close>

definition tx_fits :: "DecodedRawTx \<Rightarrow> bool" where
  "tx_fits tx \<longleftrightarrow>
     dt_tx_type tx \<le> 4 \<and>
     (dt_chain_id tx = None \<longleftrightarrow> dt_tx_type tx = 0) \<and>
     (dt_max_priority_fee_per_gas tx = None \<longleftrightarrow> dt_tx_type tx \<in> {0, 1}) \<and>
     (dt_max_fee_per_blob_gas tx = None \<longleftrightarrow> dt_tx_type tx \<noteq> 3) \<and>
     (dt_blob_hashes tx = [] \<or> dt_tx_type tx = 3) \<and>
     (dt_authorizations tx = [] \<longleftrightarrow> dt_tx_type tx \<noteq> 4) \<and>
     (dt_tx_type tx = 4 \<longrightarrow> dt_to tx \<noteq> None) \<and>
     (\<forall>a \<in> set (dt_authorizations tx). sa_y_parity a \<le> 1)"

definition raw_bytes :: "(rlp_item \<Rightarrow> bytes) \<Rightarrow> rlp_item list \<Rightarrow> rlp_item list \<Rightarrow> DecodedRawTx \<Rightarrow> bytes" where
  "raw_bytes enc al sig tx =
     (let payload = enc (tx_item al sig tx) in if dt_tx_type tx = 0 then payload else dt_tx_type tx # payload)"

section \<open>Decoding the encoding\<close>

lemma reads_at:
  assumes "rlp_reads nh enc (Items its)" and "i < length its"
  shows "rlp_at nh (enc (Items its)) i = Inr (enc (its ! i))"
    and "its ! i = Str bs \<Longrightarrow> rlp_val_at nh (enc (Items its)) i = Inr bs"
    and "rlp_reads nh enc (its ! i)"
proof -
  from assms have at: "\<forall>i \<in> {0..<length its}. rlp_at nh (enc (Items its)) i = Inr (enc (its ! i)) \<and>
      (case its ! i of Str bs \<Rightarrow> rlp_val_at nh (enc (Items its)) i = Inr bs | _ \<Rightarrow> True)"
    and "\<forall>x \<in> set its. rlp_reads nh enc x" by (simp_all add: list_all_iff)
  then show "rlp_reads nh enc (its ! i)" using assms(2) by simp
  from bspec [OF at, of i] assms(2) show "rlp_at nh (enc (Items its)) i = Inr (enc (its ! i))"
    and "its ! i = Str bs \<Longrightarrow> rlp_val_at nh (enc (Items its)) i = Inr bs" by simp_all
qed

lemma word_of_be_min:
  assumes "LENGTH('a::len) \<le> 256"
  shows "word_of_be (be_min (unat (w :: 'a word))) = w"
proof -
  have "unat w < 2 ^ LENGTH('a)" by (rule unsigned_less)
  also have "(2::nat) ^ LENGTH('a) \<le> 2 ^ 256" using assms by (rule power_increasing) simp
  finally show ?thesis by (simp add: word_of_be_def of_be_be_min)
qed

lemma length_be_min_word:
  assumes "LENGTH('a::len) = 8 * k" and "k \<le> 32"
  shows "length (be_min (unat (w :: 'a word))) \<le> k"
proof -
  have "unat w < 2 ^ (8 * k)" using unsigned_less [of w, where 'a = nat] by (simp add: assms)
  moreover have "(2::nat) ^ (8 * k) \<le> 2 ^ 256" using assms(2) by (intro power_increasing) simp_all
  ultimately show ?thesis by (intro length_be_min) (simp_all add: power_256)
qed

lemma raw_field:
  "rlp_reads nh enc (Items its) \<Longrightarrow> i < length its \<Longrightarrow> its ! i = Str bs \<Longrightarrow>
     rlp_raw nh what (enc (Items its)) i = Returned bs"
  by (simp add: rlp_raw_def reads_at del: rlp_reads.simps)

lemma u64_field:
  "rlp_reads nh enc (Items its) \<Longrightarrow> i < length its \<Longrightarrow> its ! i = num w \<Longrightarrow>
     rlp_u64 nh (enc (Items its)) i = Returned w"
  using length_be_min_word [of 8 w] word_of_be_min [of w]
  by (simp add: rlp_u64_def num_def raw_field hex_to_u64_be_def shift_in_eq word_of_be_def del: rlp_reads.simps)

lemma u128_field:
  "rlp_reads nh enc (Items its) \<Longrightarrow> i < length its \<Longrightarrow> its ! i = num w \<Longrightarrow>
     rlp_u128 nh (enc (Items its)) i = Returned w"
  using length_be_min_word [of 16 w] word_of_be_min [of w]
  by (simp add: rlp_u128_def num_def raw_field hex_to_u128_be_def shift_in_eq word_of_be_def del: rlp_reads.simps)

lemma u256_field:
  "ruint_slices nh \<Longrightarrow> rlp_reads nh enc (Items its) \<Longrightarrow> i < length its \<Longrightarrow> its ! i = num w \<Longrightarrow>
     rlp_u256 nh (enc (Items its)) i = Returned w"
  using length_be_min_word [of 32 w] word_of_be_min [of w]
  by (simp add: rlp_u256_def num_def raw_field u256_of_slice_def ruint_slices_def del: rlp_reads.simps)

lemma word_of_be_bytes [simp]: "8 dvd LENGTH('a) \<Longrightarrow> word_of_be (be_bytes w) = (w :: 'a::len word)"
  by (simp add: word_of_be_def of_be_be_bytes)

lemma address_field:
  "rlp_reads nh enc (Items its) \<Longrightarrow> i < length its \<Longrightarrow> its ! i = address_item a \<Longrightarrow>
     rlp_optional_address nh (enc (Items its)) i = Returned a"
  by (cases a) (auto simp: rlp_optional_address_def address_item_def raw_field simp del: rlp_reads.simps
      dest: arg_cong [where f = length])

lemma bytes_field:
  "rlp_reads nh enc (Items its) \<Longrightarrow> i < length its \<Longrightarrow> its ! i = Str bs \<Longrightarrow>
     rlp_bytes nh (enc (Items its)) i = Returned bs"
  by (simp add: rlp_bytes_def raw_field del: rlp_reads.simps)

lemma list_field:
  assumes "rlp_reads nh enc (Items its)" and "i < length its" and "its ! i = Items xs"
  shows "rlp_list_field nh what not_list counting (enc (Items its)) i = Returned (enc (Items xs), length xs)"
    and "rlp_reads nh enc (Items xs)" and "rlp_is_list nh (enc (Items xs))"
proof -
  show reads: "rlp_reads nh enc (Items xs)" using reads_at(3) [OF assms(1,2)] assms(3) by simp
  with reads_at(1) [OF assms(1,2)] assms(3)
  show "rlp_list_field nh what not_list counting (enc (Items its)) i = Returned (enc (Items xs), length xs)"
    by (simp add: rlp_list_field_def)
  from reads show "rlp_is_list nh (enc (Items xs))" by simp
qed

lemma access_list_field:
  assumes "rlp_reads nh enc (Items its)" and "8 < length its" and "its ! 8 = Items al"
  shows "check_access_list nh (enc (Items its)) = Returned ()"
  using list_field(3) [OF assms] reads_at(1) [OF assms(1,2)] assms(3) by (simp add: check_access_list_def)

lemma parse_items_nth:
  assumes "\<And>j. j < length xs \<Longrightarrow> f j = Returned (xs ! j)"
  shows "parse_items f [0..<length xs] = Returned xs"
proof -
  have "parse_items f is = Returned (map (\<lambda>j. xs ! j) is)" if "\<forall>j \<in> set is. j < length xs" for "is"
    using that assms by (induction "is") simp_all
  from this [of "[0..<length xs]"] show ?thesis by (simp add: map_nth)
qed

lemma unat_parity: "unat (ucast (b :: u8) :: u64) = unat b"
  by (simp add: unsigned_ucast_eq take_bit_nat_eq_self less_le_trans [OF unsigned_less])

lemma b256_list_field:
  assumes "rlp_reads nh enc (Items its)" and "i < length its"
    and "its ! i = Items (map (\<lambda>h. Str (be_bytes h)) hs)"
  shows "rlp_b256_list nh (enc (Items its)) i = Returned hs"
proof -
  note list = list_field [OF assms]
  have "parse_b256_item nh i (enc (Items (map (\<lambda>h. Str (be_bytes h)) hs))) j = Returned (hs ! j)"
    if "j < length hs" for j
    using reads_at(2) [OF list(2), of j] that by (simp add: parse_b256_item_def)
  from parse_items_nth [OF this] show ?thesis by (simp add: rlp_b256_list_def list)
qed

lemma parse_authorization_item:
  assumes "ruint_slices nh" and "rlp_reads nh enc (Items xs)" and "j < length xs"
    and "xs ! j = authorization_item a" and "sa_y_parity a \<le> 1"
  shows "parse_authorization nh idx (enc (Items xs)) j = Returned a"
proof -
  note item = list_field [OF assms(2,3), OF assms(4) [unfolded authorization_item_def]]
  note at = reads_at(1) [OF assms(2,3), unfolded assms(4) authorization_item_def]
  have parity: "num (sa_y_parity a) = num (ucast (sa_y_parity a) :: u64)" by (simp add: num_def unat_parity)
  have "\<not> 1 < (ucast (sa_y_parity a) :: u64)" using assms(5) by (simp add: word_le_nat_alt word_less_nat_alt unat_parity)
  moreover have "(ucast (ucast (sa_y_parity a) :: u64) :: u8) = sa_y_parity a"
    by (rule bit_word_eqI) (simp add: bit_ucast_iff)
  ultimately show ?thesis
    using reads_at(2) [OF item(2), of 1]
    by (simp add: parse_authorization_def at item(3) u256_field [OF assms(1) item(2)] u64_field [OF item(2)]
        u64_field [OF item(2) _ trans [OF _ parity]])
qed

lemma authorization_list_field:
  assumes "ruint_slices nh" and "rlp_reads nh enc (Items its)" and "i < length its"
    and "its ! i = Items (map authorization_item as)" and "\<forall>a \<in> set as. sa_y_parity a \<le> 1"
  shows "rlp_signed_authorization_list nh (enc (Items its)) i = Returned as"
proof -
  note list = list_field [OF assms(2,3,4)]
  have "parse_authorization nh i (enc (Items (map authorization_item as))) j = Returned (as ! j)"
    if "j < length as" for j
    using that assms(5) by (intro parse_authorization_item [OF assms(1) list(2)]) simp_all
  from parse_items_nth [OF this] show ?thesis by (simp add: rlp_signed_authorization_list_def list)
qed

lemma hexdigit_plain: "is_ascii_hexdigit c \<Longrightarrow> \<not> is_ascii_whitespace c"
  by (auto simp: is_ascii_hexdigit_def is_ascii_whitespace_def Let_def)

lemma parse_hex_bytes_encode:
  assumes "hex_crate nh"
  shows "parse_hex_bytes (base_host nh) (bytes_to_hex (base_host nh) bs) = Some bs"
proof -
  define digits where "digits = hex_encode nh bs"
  have digits: "list_all is_ascii_hexdigit digits" "length digits = 2 * length bs" "hex_decode nh digits = Some bs"
    using assms unfolding hex_crate_def digits_def by blast+
  have "\<not> is_ascii_whitespace (last (''0x'' @ digits))"
  proof (cases digits rule: rev_cases)
    case Nil
    then show ?thesis by (simp add: is_ascii_whitespace_def)
  next
    case (snoc front c)
    with digits(1) hexdigit_plain show ?thesis by simp
  qed
  then have "trim (''0x'' @ digits) = ''0x'' @ digits" by (intro trim_id) (simp_all add: is_ascii_whitespace_def)
  then have "drop_prefix ''0x'' (trim (''0x'' @ digits)) = digits" by (simp add: drop_prefix_def strip_prefix_def)
  with digits show ?thesis
    by (auto simp: parse_hex_bytes_def bytes_to_hex_def digits_def [symmetric] host.defs Let_def)
qed

lemmas fields_read = u64_field u128_field address_field bytes_field access_list_field b256_list_field

lemma decode_legacy_item:
  assumes "ruint_slices nh" and "tx_fits tx" and "rlp_reads nh enc (tx_item al sig tx)" and "dt_tx_type tx = 0"
  shows "decode_legacy nh (enc (tx_item al sig tx)) = Returned tx"
proof -
  have its: "tx_item al sig tx = Items (num (dt_nonce tx) # num (dt_gas_price tx) #
    num (dt_gas_limit tx) # address_item (dt_to tx) # num (dt_value tx) # Str (dt_data tx) # sig)"
    using assms(4) by (simp add: tx_item_def)
  show ?thesis
    using assms(2,4)
    by (simp add: its decode_legacy_def fields_read [OF assms(3) [unfolded its]]
        u256_field [OF assms(1) assms(3) [unfolded its]] tx_fits_def)
qed

lemma decode_2930_item:
  assumes "ruint_slices nh" and "tx_fits tx" and "rlp_reads nh enc (tx_item al sig tx)" and "dt_tx_type tx = 1"
  shows "decode_2930 nh (enc (tx_item al sig tx)) = Returned tx"
proof -
  have its: "tx_item al sig tx = Items (num (the (dt_chain_id tx)) # num (dt_nonce tx) #
    num (dt_gas_price tx) # num (dt_gas_limit tx) # address_item (dt_to tx) # num (dt_value tx) #
    Str (dt_data tx) # Items al # sig)"
    using assms(4) by (simp add: tx_item_def)
  show ?thesis
    using assms(2,4)
    by (auto simp add: its decode_2930_def fields_read [OF assms(3) [unfolded its]]
        u256_field [OF assms(1) assms(3) [unfolded its]] tx_fits_def)
qed

lemma decode_1559_item:
  assumes "ruint_slices nh" and "tx_fits tx" and "rlp_reads nh enc (tx_item al sig tx)" and "dt_tx_type tx = 2"
  shows "decode_1559 nh (enc (tx_item al sig tx)) = Returned tx"
proof -
  have its: "tx_item al sig tx = Items (num (the (dt_chain_id tx)) # num (dt_nonce tx) #
    num (the (dt_max_priority_fee_per_gas tx)) # num (dt_gas_price tx) # num (dt_gas_limit tx) #
    address_item (dt_to tx) # num (dt_value tx) # Str (dt_data tx) # Items al # sig)"
    using assms(4) by (simp add: tx_item_def)
  show ?thesis
    using assms(2,4)
    by (auto simp add: its decode_1559_def fields_read [OF assms(3) [unfolded its]]
        u256_field [OF assms(1) assms(3) [unfolded its]] tx_fits_def)
qed

lemma decode_4844_item:
  assumes "ruint_slices nh" and "tx_fits tx" and "rlp_reads nh enc (tx_item al sig tx)" and "dt_tx_type tx = 3"
  shows "decode_4844 nh (enc (tx_item al sig tx)) = Returned tx"
proof -
  have its: "tx_item al sig tx = Items (num (the (dt_chain_id tx)) # num (dt_nonce tx) #
    num (the (dt_max_priority_fee_per_gas tx)) # num (dt_gas_price tx) # num (dt_gas_limit tx) #
    address_item (dt_to tx) # num (dt_value tx) # Str (dt_data tx) # Items al #
    num (the (dt_max_fee_per_blob_gas tx)) # Items (map (\<lambda>h. Str (be_bytes h)) (dt_blob_hashes tx)) # sig)"
    using assms(4) by (simp add: tx_item_def)
  show ?thesis
    using assms(2,4)
    by (auto simp add: its decode_4844_def fields_read [OF assms(3) [unfolded its]]
        u256_field [OF assms(1) assms(3) [unfolded its]] tx_fits_def)
qed

lemma decode_7702_item:
  assumes "ruint_slices nh" and "tx_fits tx" and "rlp_reads nh enc (tx_item al sig tx)" and "dt_tx_type tx = 4"
  shows "decode_7702 nh (enc (tx_item al sig tx)) = Returned tx"
proof -
  have its: "tx_item al sig tx = Items (num (the (dt_chain_id tx)) # num (dt_nonce tx) #
    num (the (dt_max_priority_fee_per_gas tx)) # num (dt_gas_price tx) # num (dt_gas_limit tx) #
    address_item (dt_to tx) # num (dt_value tx) # Str (dt_data tx) # Items al #
    Items (map authorization_item (dt_authorizations tx)) # sig)"
    using assms(4) by (simp add: tx_item_def)
  show ?thesis
    using assms(2,4)
    by (auto simp add: its decode_7702_def fields_read [OF assms(3) [unfolded its]]
        u256_field [OF assms(1) assms(3) [unfolded its]]
        authorization_list_field [OF assms(1) assms(3) [unfolded its]] tx_fits_def)
qed

lemmas decode_items = decode_legacy_item decode_2930_item decode_1559_item decode_4844_item decode_7702_item

lemma tx_types:
  assumes "tx_fits tx"
  shows "dt_tx_type tx \<in> {0, 1, 2, 3, 4}"
proof -
  have "t \<in> {0, 1, 2, 3, 4}" if "t \<le> 4" for t :: u8
  proof -
    from that have "unat t \<in> {0, 1, 2, 3, 4}" by (auto simp: word_le_nat_alt)
    then have "of_nat (unat t) \<in> {0, 1, 2, 3, 4 :: u8}" by (elim insertE) simp_all
    then show ?thesis by simp
  qed
  with assms show ?thesis unfolding tx_fits_def by blast
qed

lemma raw_tx_decodes:
  assumes "hex_crate nh" and "ruint_slices nh" and "rlp_reads nh enc (tx_item al sig tx)"
    and "\<exists>rest. enc (tx_item al sig tx) = b # rest" and "0xc0 \<le> b" and "tx_fits tx"
  shows "decode_raw_tx nh (bytes_to_hex (base_host nh) (raw_bytes enc al sig tx)) = Returned tx"
proof -
  obtain rest where enc: "enc (tx_item al sig tx) = b # rest" using assms(4) by blast
  have list: "rlp_is_list nh (enc (tx_item al sig tx))"
    using assms(3) by (cases "tx_item al sig tx") (simp_all add: tx_item_def Let_def split: if_splits)
  note decode = decode_items [OF assms(2,6,3)]
  have "\<not> 0xc0 \<le> (1 :: u8)" by (simp add: word_le_nat_alt)
  then have "decode_raw_tx nh (bytes_to_hex (base_host nh) (raw_bytes enc al sig tx)) =
      (if dt_tx_type tx = 0 then decode_legacy nh (enc (tx_item al sig tx))
       else decode_typed nh (dt_tx_type tx) (enc (tx_item al sig tx)))"
    using tx_types [OF assms(6)] enc list assms(5)
    by (auto simp: decode_raw_tx_def parse_hex_bytes_encode [OF assms(1)] raw_bytes_def Let_def)
  also have "\<dots> = Returned tx"
    using tx_types [OF assms(6)] list decode by (auto simp: decode_typed_def)
  finally show ?thesis .
qed

text \<open>C8.  Decoding a raw transaction gives back the transaction that was encoded, for legacy
  transactions and the types 1 to 4: for the bytes that the Ethereum documents prescribe for a
  transaction (its type, then the RLP list of its fields, integers in their shortest form), printed as a
  hexadecimal string, with any access list and any signature.\<close>

theorem raw_tx_roundtrip:
  assumes "hex_crate nh" and "ruint_slices nh" and "rlp_reads nh enc (tx_item al sig tx)"
    and "\<exists>rest. enc (tx_item al sig tx) = b # rest" and "0xc0 \<le> b" and "tx_fits tx"
  shows "decode_raw_tx nh (bytes_to_hex (base_host nh) (raw_bytes enc al sig tx)) = Returned tx"
  using assms by (rule raw_tx_decodes)

text \<open>A field of more than 32 bytes where a 256-bit integer is read is a panic and not an error.\<close>

theorem oversized_value_panics:
  assumes "hex_crate nh" and "ruint_slices nh" and "rlp_reads nh enc (Items its)"
    and "enc (Items its) = b # rest" and "0xc0 \<le> b"
    and "its = num (n :: u64) # num (p :: u128) # num (g :: u64) # address_item a # Str bs # others"
    and "32 < length bs"
  shows "decode_raw_tx nh (bytes_to_hex (base_host nh) (enc (Items its))) = Panicked"
proof -
  note read = fields_read [OF assms(3)] raw_field [OF assms(3)]
  have "rlp_raw nh ''u256'' (enc (Items its)) 4 = Returned bs" by (rule read) (simp_all add: assms(6))
  then have "rlp_u256 nh (enc (Items its)) 4 = Panicked"
    using assms(2,7) by (simp add: rlp_u256_def u256_of_slice_def ruint_slices_def)
  moreover have "rlp_u64 nh (enc (Items its)) 0 = Returned n" "rlp_u128 nh (enc (Items its)) 1 = Returned p"
    "rlp_u64 nh (enc (Items its)) 2 = Returned g" "rlp_optional_address nh (enc (Items its)) 3 = Returned a"
    by (rule read; simp add: assms(6))+
  ultimately have "decode_legacy nh (enc (Items its)) = Panicked" by (simp add: decode_legacy_def)
  with assms(1,3,4,5) show ?thesis by (simp add: decode_raw_tx_def parse_hex_bytes_encode)
qed

section \<open>Instances\<close>

text \<open>A host with the short forms of RLP, hexadecimal digits, and accounts in an association list.\<close>

fun rlp_enc :: "rlp_item \<Rightarrow> bytes" where
  "rlp_enc (Str bs) =
     (if length bs = 1 \<and> hd bs < 0x80 then bs else of_nat (0x80 + length bs) # bs)"
| "rlp_enc (Items its) = (let body = concat (map rlp_enc its) in of_nat (0xc0 + length body) # body)"

text \<open>The length of the first item of a sequence, with its header; and the items of a sequence.\<close>

fun item_length :: "bytes \<Rightarrow> nat" where
  "item_length [] = 0"
| "item_length (b # bs) =
     (if b < 0x80 then 1 else if b < 0xc0 then Suc (unat (b - 0x80)) else Suc (unat (b - 0xc0)))"

function split_items :: "bytes \<Rightarrow> bytes list" where
  "split_items [] = []"
| "split_items (b # bs) =
     take (item_length (b # bs)) (b # bs) # split_items (drop (item_length (b # bs)) (b # bs))"
  by pat_completeness auto

termination split_items
  by (relation "measure length") auto

definition str_of :: "bytes \<Rightarrow> string + bytes" where
  "str_of bs =
     (case bs of
        [] \<Rightarrow> Inl ''RlpIsTooShort''
      | b # rest \<Rightarrow> if b < 0x80 then Inr [b] else if b < 0xc0 then Inr rest else Inl ''RlpExpectedToBeData'')"

definition view_at :: "bytes \<Rightarrow> nat \<Rightarrow> string + bytes" where
  "view_at bs i =
     (case slice_get (split_items (tl bs)) i of Some item \<Rightarrow> Inr item | None \<Rightarrow> Inl ''RlpIsTooShort'')"

type_synonym accounts = "(Address, DbAccountInfo) hashmap"

definition sample_account :: DbAccountInfo where
  "sample_account = \<lparr>ai_balance = 0, ai_nonce = 0, ai_code_hash = 0, ai_code = None\<rparr>"

text \<open>Its EVM refuses a transaction with the wrong nonce and otherwise only counts the nonce.\<close>

definition sample_transact ::
    "bool \<Rightarrow> u64 \<Rightarrow> BlockEnv \<Rightarrow> TxEnv \<Rightarrow> accounts \<Rightarrow> string + EvmExecOutcome \<times> accounts" where
  "sample_transact commit cid block tx db =
     (let a = (case map_of db (te_caller tx) of Some a \<Rightarrow> a | None \<Rightarrow> sample_account) in
      if ai_nonce a \<noteq> te_nonce tx then Inl ''nonce''
      else Inr (\<lparr>eo_gas_used = 21000, eo_status = True, eo_output = [], eo_contract_address = None, eo_logs = []\<rparr>,
        if commit then hm_insert (te_caller tx) (a\<lparr>ai_nonce := ai_nonce a + 1\<rparr>) db else db))"

definition plain_hex :: "bytes \<Rightarrow> string" where
  "plain_hex bs = drop 2 (encode_hex_bytes bs)"

definition node :: "accounts node_host" where
  "node =
     \<lparr>hex_encode = plain_hex, hex_decode = decode_hex_pairs,
      u256_from_be_slice = (\<lambda>bs. if length bs \<le> 32 then Some (word_of_be bs) else None),
      u256_lower_hex = (\<lambda>w. hex_digits (unat w)), host_keccak = (\<lambda>bs. bs), json_to_string = (\<lambda>_. Some []),
      db_basic = (\<lambda>db a. (map_of db a, db)), envelope_order = (\<lambda>xs. xs),
      rlp_is_list = (\<lambda>bs. bs \<noteq> [] \<and> 0xc0 \<le> hd bs), rlp_at = view_at,
      rlp_val_at = (\<lambda>bs i. case view_at bs i of Inl e \<Rightarrow> Inl e | Inr item \<Rightarrow> str_of item),
      rlp_item_count = (\<lambda>bs. Inr (length (split_items (tl bs)))),
      evm_transact = sample_transact, db_default = [], account_info_default = sample_account,
      db_insert_account_info = (\<lambda>db a info. hm_insert a info db), db_code_by_hash = (\<lambda>db _. ([], db)),
      db_storage = (\<lambda>db _ _. (0, db)), calc_blob_gasprice = (\<lambda>_. 1), evm_logs_bloom = (\<lambda>_. []),
      default_hash = (\<lambda>_ c salt. c + salt), json_from_str = (\<lambda>_. None), f64_quotient = (\<lambda>_ _. 0),
      nft_order = (\<lambda>xs. xs)\<rparr>"

lemma hex_char_digit: "n < 16 \<Longrightarrow> is_ascii_hexdigit (hex_char n)"
  using hex_char_cases [of n] by (auto simp: is_ascii_hexdigit_def)

lemma node_hex: "hex_crate node"
proof -
  have "list_all is_ascii_hexdigit (plain_hex bs) \<and> length (plain_hex bs) = 2 * length bs" for bs
    by (induction bs) (simp_all add: plain_hex_def encode_hex_bytes_def hex_char_digit nibbles)
  moreover have "decode_hex_pairs (plain_hex bs) = Some bs" for bs
    using decode_hex_pairs_encode [of bs] by (simp add: plain_hex_def encode_hex_bytes_def)
  ultimately show ?thesis by (simp add: hex_crate_def node_def)
qed

lemma node_ruint: "ruint_slices node"
  by (simp add: ruint_slices_def node_def)

definition sample_tx :: DecodedRawTx where
  "sample_tx =
     \<lparr>dt_tx_type = 0, dt_chain_id = None, dt_nonce = 0, dt_gas_limit = 3, dt_gas_price = 2,
      dt_max_priority_fee_per_gas = None, dt_max_fee_per_blob_gas = None, dt_blob_hashes = [],
      dt_authorizations = [], dt_to = None, dt_value = 4, dt_data = [0xff]\<rparr>"

lemma be_min_small:
  assumes "v < 256"
  shows "be_min v = (if v = 0 then [] else [of_nat v])"
proof -
  have zero: "be_nat n 0 = replicate n 0" for n by (induction n) (simp_all add: replicate_append_same)
  have "be_nat 32 v = replicate 31 0 @ [of_nat v]"
    using be_nat.simps(2) [of 31 v] assms by (simp add: zero)
  moreover have "(of_nat v :: u8) = 0 \<longleftrightarrow> v = 0"
    using assms unat_of_nat_u8 [of v] unsigned_eq_0_iff [of "of_nat v :: u8", where 'a = nat] by auto
  ultimately show ?thesis by (simp add: be_min_def dropWhile_append)
qed

lemma sample_tx_item:
  "tx_item [] [] sample_tx = Items [Str [], Str [2], Str [3], Str [], Str [4], Str [0xff]]"
  by (simp add: tx_item_def sample_tx_def num_def address_item_def be_min_small)

lemma sample_tx_enc: "rlp_enc (tx_item [] [] sample_tx) = [0xc7, 0x80, 2, 3, 0x80, 4, 0x81, 0xff]"
  by (simp add: sample_tx_item)

lemma sample_tx_reads: "rlp_reads node rlp_enc (tx_item [] [] sample_tx)"
  by (simp add: sample_tx_item node_def view_at_def str_of_def slice_get_def upt_rec)

lemma sample_tx_fits: "tx_fits sample_tx"
  by (simp add: tx_fits_def sample_tx_def)

definition sample_raw :: string where
  "sample_raw = bytes_to_hex (base_host node) (raw_bytes rlp_enc [] [] sample_tx)"

lemma sample_decodes: "decode_raw_tx node sample_raw = Returned sample_tx"
  unfolding sample_raw_def
  by (rule raw_tx_decodes [where b = "0xc7", OF node_hex node_ruint sample_tx_reads _ _ sample_tx_fits])
    (simp_all add: sample_tx_enc)

theorem raw_tx_roundtrip_witness:
  "decode_raw_tx node (bytes_to_hex (base_host node) (raw_bytes rlp_enc [] [] sample_tx)) = Returned sample_tx"
  by (rule raw_tx_roundtrip [where b = "0xc7", OF node_hex node_ruint sample_tx_reads _ _ sample_tx_fits])
    (simp_all add: sample_tx_enc)

end
