(* ===== verification/Tx_Index.thy ===== *)
theory Tx_Index
  imports Raw_Tx
begin

text \<open>
  The transaction index of the daemon: fake block hashes, the JSON of transactions,
  receipts and blocks, execution of transactions on revm's database, submission of raw
  transactions, and the block ticker, which moves the pending transactions into the next block.
  \<open>index_ok\<close> is the invariant of the index: a known transaction is pending, or at the position
  its record names in the block its record names.
\<close>

section \<open>Block hashes\<close>

definition hex_all :: "bytes \<Rightarrow> string" where
  "hex_all bs = concat (map hex2 bs)"

definition block_hash :: "u64 \<Rightarrow> string" where
  "block_hash height = ''0x'' @ hex_all (be_bytes (sat_add height 1) @ replicate 24 0)"

definition block_number_from_hash :: "string \<Rightarrow> u64 option" where
  "block_number_from_hash h =
     (let raw = drop_prefix ''0x'' h in
      if length raw \<noteq> 64 \<or> \<not> list_all is_ascii_hexdigit raw then None
      else case parse_hex_u64 (take 16 raw) of
        None \<Rightarrow> None
      | Some n \<Rightarrow> if 1 \<le> n then Some (n - 1) else None)"

text \<open>\<open>{:016x}\<close> and the like.\<close>

definition hex_pad :: "nat \<Rightarrow> nat \<Rightarrow> string" where
  "hex_pad k n = (let s = hex_digits n in replicate (k - length s) (CHR ''0'') @ s)"

definition pseudo_tx_hash :: "'db node_host \<Rightarrow> string \<Rightarrow> u64 \<Rightarrow> string" where
  "pseudo_tx_hash nh raw_tx counter =
     ''0x'' @ concat (map (\<lambda>salt. hex_pad 16 (unat (default_hash nh raw_tx counter salt))) [0, 1, 2, 3])"

definition address_to_hex :: "'db node_host \<Rightarrow> Address \<Rightarrow> string" where
  "address_to_hex nh a = ''0x'' @ hex_encode nh (be_bytes a)"

definition b256_to_hex :: "'db node_host \<Rightarrow> B256 \<Rightarrow> string" where
  "b256_to_hex nh v = ''0x'' @ hex_encode nh (be_bytes v)"

section \<open>Responses\<close>

definition jhex :: "u64 \<Rightarrow> json" where
  "jhex v = JString (rpc_hex_u64 v)"

definition jhex128 :: "u128 \<Rightarrow> json" where
  "jhex128 v = JString (rpc_hex_u128 v)"

definition jsonrpc_error :: "json \<Rightarrow> int \<Rightarrow> string \<Rightarrow> json" where
  "jsonrpc_error id_value code message =
     JObject [(''jsonrpc'', JString ''2.0''), (''id'', id_value),
       (''error'', JObject [(''code'', JNumber (NegInt (of_int code))), (''message'', JString message)])]"

definition tx_to_json :: "TxRecord \<Rightarrow> u64 \<Rightarrow> json" where
  "tx_to_json tx chain =
     JObject
       [(''hash'', JString (tr_hash tx)),
        (''nonce'', jhex (tr_nonce tx)),
        (''blockHash'', jopt JString (tr_block_hash tx)),
        (''blockNumber'', jopt jhex (tr_block_number tx)),
        (''transactionIndex'', jopt jhex (tr_transaction_index tx)),
        (''from'', JString (tr_from tx)),
        (''to'', jopt JString (tr_to tx)),
        (''value'', JString (tr_value tx)),
        (''gas'', jhex (tr_gas tx)),
        (''gasPrice'', jhex128 (tr_gas_price tx)),
        (''maxPriorityFeePerGas'', jopt jhex128 (tr_max_priority_fee_per_gas tx)),
        (''maxFeePerBlobGas'', jopt jhex128 (tr_max_fee_per_blob_gas tx)),
        (''blobVersionedHashes'', jstrings (tr_blob_versioned_hashes tx)),
        (''authorizationListLength'', jhex (of_nat (tr_authorization_list_len tx))),
        (''input'', JString (tr_input tx)),
        (''type'', JString (tr_type tx)),
        (''chainId'', jhex chain),
        (''v'', JString ''0x1''),
        (''r'', JString ''0x0''),
        (''s'', JString ''0x0'')]"

definition tx_logs_from_revm :: "'db node_host \<Rightarrow> string \<Rightarrow> EvmLog list \<Rightarrow> TxLogRecord list" where
  "tx_logs_from_revm nh tx_hash logs =
     map (\<lambda>log.
       \<lparr>tl_address = address_to_hex nh (el_address log), tl_topics = map (b256_to_hex nh) (el_topics log),
        tl_data = bytes_to_hex (base_host nh) (el_data log), tl_block_number = None, tl_block_hash = None,
        tl_transaction_hash = Some tx_hash, tl_transaction_index = None, tl_log_index = None\<rparr>) logs"

definition tx_log_to_json :: "TxLogRecord \<Rightarrow> json" where
  "tx_log_to_json log =
     JObject
       [(''address'', JString (tl_address log)),
        (''topics'', jstrings (tl_topics log)),
        (''data'', JString (tl_data log)),
        (''blockNumber'', jopt jhex (tl_block_number log)),
        (''blockHash'', jopt JString (tl_block_hash log)),
        (''transactionHash'', jopt JString (tl_transaction_hash log)),
        (''transactionIndex'', jopt jhex (tl_transaction_index log)),
        (''logIndex'', jopt jhex (tl_log_index log)),
        (''removed'', JBool False)]"

definition tx_receipt_json :: "TxReceiptRecord \<Rightarrow> json option" where
  "tx_receipt_json receipt =
     do {
       block_number \<leftarrow> rc_block_number receipt;
       bhash \<leftarrow> rc_block_hash receipt;
       Some (JObject
         [(''transactionHash'', JString (rc_tx_hash receipt)),
          (''transactionIndex'', jhex (unwrap_or (rc_transaction_index receipt) 0)),
          (''blockHash'', JString bhash),
          (''blockNumber'', jhex block_number),
          (''from'', JString (rc_from receipt)),
          (''to'', jopt JString (rc_to receipt)),
          (''cumulativeGasUsed'', jhex (rc_cumulative_gas_used receipt)),
          (''gasUsed'', jhex (rc_gas_used receipt)),
          (''contractAddress'', jopt JString (rc_contract_address receipt)),
          (''logs'', JArray (map tx_log_to_json (rc_logs receipt))),
          (''logsBloom'', JString (rc_logs_bloom receipt)),
          (''status'', JString (if rc_status receipt then ''0x1'' else ''0x0'')),
          (''type'', JString (rc_type receipt)),
          (''effectiveGasPrice'', jhex (rc_effective_gas_price receipt))])
     }"

definition zeros_hex :: "nat \<Rightarrow> string" where
  "zeros_hex n = ''0x'' @ replicate n (CHR ''0'')"

definition empty_block_template :: "u64 \<Rightarrow> u64 \<Rightarrow> json" where
  "empty_block_template number timestamp =
     JObject
       [(''number'', jhex number),
        (''hash'', JString (block_hash number)),
        (''parentHash'', JString (if number = 0 then zeros_hex 64 else block_hash (sat_sub number 1))),
        (''nonce'', JString (zeros_hex 16)),
        (''sha3Uncles'', JString ''0x1dcc4de8dec75d7aab85b567b6ccd41ad312451b948a7413f0a142fd40d49347''),
        (''logsBloom'', JString (zeros_hex 512)),
        (''transactionsRoot'', JString ''0x56e81f171bcc55a6ff8345e69d706d3b9f2f4f4b6a4f0f4d8f4f0f4d8f4f0f4d''),
        (''stateRoot'', JString (zeros_hex 64)),
        (''receiptsRoot'', JString (zeros_hex 64)),
        (''miner'', JString (zeros_hex 40)),
        (''difficulty'', JString ''0x0''),
        (''totalDifficulty'', JString ''0x0''),
        (''extraData'', JString ''0x65746832303737''),
        (''size'', JString ''0x0''),
        (''gasLimit'', JString ''0x1c9c380''),
        (''gasUsed'', JString ''0x0''),
        (''timestamp'', jhex timestamp),
        (''transactions'', JArray []),
        (''uncles'', JArray []),
        (''baseFeePerGas'', JString ''0x3b9aca00'')]"

definition block_by_tag :: "'db DaemonState \<Rightarrow> string \<Rightarrow> u64 option" where
  "block_by_tag st tag =
     (if tag = ''latest'' \<or> tag = ''pending'' then Some (current_height st)
      else if tag = ''finalized'' then Some (finalized_height st)
      else if tag = ''earliest'' then Some 0
      else parse_hex_u64 tag)"

text \<open>\<open>obj.insert(key, value)\<close> on an object.\<close>

fun jset :: "string \<Rightarrow> json \<Rightarrow> json \<Rightarrow> json" where
  "jset k v (JObject entries) = JObject (hm_insert k v entries)"
| "jset _ _ v' = v'"

definition build_block_response :: "'db DaemonState \<Rightarrow> u64 \<Rightarrow> bool \<Rightarrow> json" where
  "build_block_response st number full_txs =
     (let ts = unwrap_or (map_of (block_timestamps st) number) (started_at_unix_s st);
          tx_hashes = unwrap_or (map_of (block_txs st) number) [];
          tx_payload =
            (if full_txs then JArray (map (\<lambda>tx. tx_to_json tx (chain_id st)) (List.map_filter (map_of (txs st)) tx_hashes))
             else jstrings tx_hashes) in
      jset ''size'' (jhex (120 + of_nat (length tx_hashes) * 128))
        (jset ''gasUsed'' (jhex (of_nat (length tx_hashes) * 21000))
          (jset ''transactions'' tx_payload (empty_block_template number ts))))"

section \<open>Execution\<close>

definition set_account_balance_in_db :: "'db node_host \<Rightarrow> 'db \<Rightarrow> Address \<Rightarrow> U256 \<Rightarrow> 'db" where
  "set_account_balance_in_db nh db address balance =
     (case db_basic nh db address of (info, db') \<Rightarrow>
        db_insert_account_info nh db' address ((unwrap_or info (account_info_default nh))\<lparr>ai_balance := balance\<rparr>))"

definition code_hex :: "'db node_host \<Rightarrow> bytes \<Rightarrow> string" where
  "code_hex nh raw = (if raw = [] then ''0x'' else bytes_to_hex (base_host nh) raw)"

definition code_hex_from_db :: "'db node_host \<Rightarrow> 'db \<Rightarrow> Address \<Rightarrow> string \<times> 'db" where
  "code_hex_from_db nh db address =
     (case db_basic nh db address of
        (None, db') \<Rightarrow> (''0x'', db')
      | (Some info, db') \<Rightarrow>
          (case ai_code info of
             Some raw \<Rightarrow> (code_hex nh raw, db')
           | None \<Rightarrow>
               if ai_code_hash info = 0 then (''0x'', db')
               else case db_code_by_hash nh db' (ai_code_hash info) of (raw, db'') \<Rightarrow> (code_hex nh raw, db'')))"

definition storage_hex_from_db :: "'db node_host \<Rightarrow> 'db \<Rightarrow> Address \<Rightarrow> U256 \<Rightarrow> string \<times> 'db" where
  "storage_hex_from_db nh db address slot =
     (case db_storage nh db address slot of (v, db') \<Rightarrow> (''0x'' @ hex_pad 64 (unat v), db'))"

definition tx_env :: "'db DaemonState \<Rightarrow> Address \<Rightarrow> DecodedRawTx \<Rightarrow> TxEnv" where
  "tx_env st caller decoded =
     \<lparr>te_tx_type = dt_tx_type decoded, te_caller = caller, te_gas_limit = max (dt_gas_limit decoded) 21000,
      te_max_fee_per_gas = dt_gas_price decoded, te_nonce = dt_nonce decoded,
      te_chain_id = or_else (dt_chain_id decoded) (Some (chain_id st)), te_value = dt_value decoded,
      te_data = dt_data decoded, te_gas_priority_fee = dt_max_priority_fee_per_gas decoded,
      te_blob = map_option (\<lambda>fee. (fee, dt_blob_hashes decoded)) (dt_max_fee_per_blob_gas decoded),
      te_authorization_list =
        (if dt_authorizations decoded = [] then None else Some (dt_authorizations decoded)),
      te_kind = (case dt_to decoded of Some to \<Rightarrow> Call to | None \<Rightarrow> Create)\<rparr>"

text \<open>
  \<open>std::mem::take\<close> leaves the default database in the state; an error of the EVM returns before
  the database is put back.
\<close>

definition execute_evm_transaction ::
    "'db node_host \<Rightarrow> 'db DaemonState \<Rightarrow> Address \<Rightarrow> DecodedRawTx \<Rightarrow> bool \<Rightarrow> u64 \<Rightarrow> u64 \<Rightarrow>
      (string + EvmExecOutcome) \<times> 'db DaemonState" where
  "execute_evm_transaction nh st caller decoded commit block_number block_timestamp =
     (let st0 = st\<lparr>evm_db := db_default nh\<rparr>;
          (info, db1) = db_basic nh (evm_db st) caller;
          db2 = (case info of
                   None \<Rightarrow> db_insert_account_info nh db1 caller (account_info_default nh)
                 | Some _ \<Rightarrow> db1);
          block = \<lparr>be_number = ucast block_number, be_timestamp = ucast block_timestamp, be_basefee = 0,
                   be_gas_limit = 30000000\<rparr> in
      case evm_transact nh commit (chain_id st) block (tx_env st caller decoded) db2 of
        Inl e \<Rightarrow> (Inl ((if commit then ''evm transaction failed: '' else ''evm call failed: '') @ e), st0)
      | Inr (out, db') \<Rightarrow> (Inr out, st0\<lparr>evm_db := db'\<rparr>))"

section \<open>Submission\<close>

definition new_tx_record ::
    "'db node_host \<Rightarrow> string \<Rightarrow> string \<Rightarrow> DecodedRawTx \<Rightarrow> EvmExecOutcome \<Rightarrow> TxRecord" where
  "new_tx_record nh tx_hash caller_str decoded out =
     \<lparr>tr_hash = tx_hash, tr_from = caller_str, tr_to = map_option (address_to_hex nh) (dt_to decoded),
      tr_nonce = dt_nonce decoded, tr_gas = dt_gas_limit decoded, tr_gas_price = dt_gas_price decoded,
      tr_max_priority_fee_per_gas = dt_max_priority_fee_per_gas decoded,
      tr_max_fee_per_blob_gas = dt_max_fee_per_blob_gas decoded,
      tr_blob_versioned_hashes = map (b256_to_hex nh) (dt_blob_hashes decoded),
      tr_authorization_list_len = length (dt_authorizations decoded),
      tr_value = u256_to_hex (base_host nh) (dt_value decoded),
      tr_input = bytes_to_hex (base_host nh) (dt_data decoded),
      tr_type = ''0x'' @ hex_digits (unat (dt_tx_type decoded)),
      tr_contract_address = map_option (address_to_hex nh) (eo_contract_address out),
      tr_block_number = None, tr_block_hash = None, tr_transaction_index = None\<rparr>"

definition new_receipt ::
    "'db node_host \<Rightarrow> TxRecord \<Rightarrow> DecodedRawTx \<Rightarrow> EvmExecOutcome \<Rightarrow> TxReceiptRecord" where
  "new_receipt nh tx decoded out =
     \<lparr>rc_tx_hash = tr_hash tx, rc_from = tr_from tx, rc_to = tr_to tx,
      rc_contract_address = tr_contract_address tx, rc_gas_used = eo_gas_used out,
      rc_cumulative_gas_used = eo_gas_used out,
      rc_effective_gas_price = ucast (min (dt_gas_price decoded) (ucast (- 1 :: u64))),
      rc_type = tr_type tx, rc_status = eo_status out,
      rc_logs_bloom = bytes_to_hex (base_host nh) (evm_logs_bloom nh (eo_logs out)),
      rc_block_number = None, rc_block_hash = None, rc_transaction_index = None,
      rc_logs = tx_logs_from_revm nh (tr_hash tx) (eo_logs out)\<rparr>"

text \<open>The part of \<open>eth_sendRawTransaction\<close> after a successful execution.\<close>

definition record_tx ::
    "'db node_host \<Rightarrow> 'db DaemonState \<Rightarrow> string \<Rightarrow> string \<Rightarrow> DecodedRawTx \<Rightarrow> EvmExecOutcome \<Rightarrow> 'db DaemonState" where
  "record_tx nh st tx_hash caller_str decoded out =
     (let tx = new_tx_record nh tx_hash caller_str decoded out in
      st\<lparr>pending_nonce_address_hint := None, tx_counter := sat_add (tx_counter st) 1,
         nonce_by_address := hm_insert caller_str (sat_add (dt_nonce decoded) 1) (nonce_by_address st),
         pending_txs := pending_txs st @ [tx_hash], txs := hm_insert tx_hash tx (txs st),
         tx_receipts := hm_insert tx_hash (new_receipt nh tx decoded out) (tx_receipts st)\<rparr>)"

definition raw_tx_hash :: "'db node_host \<Rightarrow> string \<Rightarrow> string" where
  "raw_tx_hash nh raw_tx =
     bytes_to_hex (base_host nh) (host_keccak nh (unwrap_or (parse_hex_bytes (base_host nh) raw_tx) []))"

text \<open>\<open>started_at_unix_s\<close> plus twelve seconds for each block.\<close>

definition slot_time :: "'db DaemonState \<Rightarrow> u64 \<Rightarrow> u64" where
  "slot_time st block_number = sat_add (started_at_unix_s st) (sat_mul block_number 12)"

text \<open>A method answers with a response, or an error code and message.\<close>

type_synonym answer = "(int \<times> string) + json"

definition submit_decoded ::
    "'db node_host \<Rightarrow> 'db DaemonState \<Rightarrow> string \<Rightarrow> DecodedRawTx \<Rightarrow> answer \<times> 'db DaemonState" where
  "submit_decoded nh st raw_tx decoded =
     (if dt_chain_id decoded \<noteq> None \<and> dt_chain_id decoded \<noteq> Some (chain_id st) then
        (Inl (-32000, ''chain id mismatch: tx uses '' @ decimal (unat (the (dt_chain_id decoded))) @
           '', node is '' @ decimal (unat (chain_id st))), st)
      else case pending_nonce_address_hint st of
        None \<Rightarrow>
          (Inl (-32000, ''missing sender hint; call eth_getTransactionCount(address) before eth_sendRawTransaction''), st)
      | Some caller_str \<Rightarrow>
          (case address_from_hex (base_host nh) caller_str of
             None \<Rightarrow> (Inl (-32000, ''pending sender hint is not a valid address''), st)
           | Some caller \<Rightarrow>
               (let tx_hash = raw_tx_hash nh raw_tx;
                    block_number_hint = sat_add (current_height st) 1 in
                case execute_evm_transaction nh st caller decoded True block_number_hint
                       (slot_time st block_number_hint) of
                  (Inl err, st') \<Rightarrow> (Inl (-32000, ''transaction rejected: '' @ err), st')
                | (Inr out, st') \<Rightarrow>
                    (Inr (JString tx_hash), record_tx nh st' tx_hash caller_str decoded out))))"

definition send_raw_transaction ::
    "'db node_host \<Rightarrow> 'db DaemonState \<Rightarrow> string \<Rightarrow> (answer \<times> 'db DaemonState) option" where
  "send_raw_transaction nh st raw_tx =
     (case decode_raw_tx nh raw_tx of
        Panicked \<Rightarrow> None
      | Failed err \<Rightarrow> Some (Inl (-32602, ''invalid raw tx: '' @ err), st)
      | Returned decoded \<Rightarrow> Some (submit_decoded nh st raw_tx decoded))"

section \<open>The block ticker\<close>

text \<open>\<open>if let Some(v) = map.get_mut(&k) { ... }\<close>\<close>

definition hm_modify :: "'k \<Rightarrow> ('v \<Rightarrow> 'v) \<Rightarrow> ('k, 'v) hashmap \<Rightarrow> ('k, 'v) hashmap" where
  "hm_modify k f m = (case map_of m k of None \<Rightarrow> m | Some v \<Rightarrow> hm_insert k (f v) m)"

fun number_logs :: "u64 \<Rightarrow> string \<Rightarrow> string \<Rightarrow> u64 \<Rightarrow> u64 \<Rightarrow> TxLogRecord list \<Rightarrow> TxLogRecord list \<times> u64" where
  "number_logs n bh h idx next [] = ([], next)"
| "number_logs n bh h idx next (log # logs) =
     (let (rest, next') = number_logs n bh h idx (sat_add next 1) logs in
      (log\<lparr>tl_block_number := Some n, tl_block_hash := Some bh, tl_transaction_hash := Some h,
         tl_transaction_index := Some idx, tl_log_index := Some next\<rparr> # rest, next'))"

text \<open>The counters \<open>cumulative_gas_used\<close> and \<open>next_log_index\<close> run through the loop.\<close>

type_synonym mining = "(string, TxRecord) hashmap \<times> (string, TxReceiptRecord) hashmap \<times> u64 \<times> u64"

definition place_tx :: "u64 \<Rightarrow> string \<Rightarrow> u64 \<Rightarrow> TxRecord \<Rightarrow> TxRecord" where
  "place_tx n bh idx tx =
     tx\<lparr>tr_block_number := Some n, tr_block_hash := Some bh, tr_transaction_index := Some idx\<rparr>"

definition place_receipt ::
    "u64 \<Rightarrow> string \<Rightarrow> u64 \<Rightarrow> u64 \<Rightarrow> TxLogRecord list \<Rightarrow> TxReceiptRecord \<Rightarrow> TxReceiptRecord" where
  "place_receipt n bh idx cumulative logs r =
     r\<lparr>rc_cumulative_gas_used := cumulative, rc_block_number := Some n, rc_block_hash := Some bh,
       rc_transaction_index := Some idx, rc_logs := logs\<rparr>"

definition mine_tx :: "u64 \<Rightarrow> string \<Rightarrow> nat \<times> string \<Rightarrow> mining \<Rightarrow> mining" where
  "mine_tx n bh = (\<lambda>(i, h) (txmap, receipts, cumulative, next_log).
     let idx = of_nat i;
         txmap' = hm_modify h (place_tx n bh idx) txmap in
     case map_of receipts h of
       None \<Rightarrow> (txmap', receipts, cumulative, next_log)
     | Some r \<Rightarrow>
         (let cumulative' = sat_add cumulative (rc_gas_used r);
              (logs, next_log') = number_logs n bh h idx next_log (rc_logs r) in
          (txmap', hm_insert h (place_receipt n bh idx cumulative' logs r) receipts, cumulative', next_log')))"

definition mine_pending :: "u64 \<Rightarrow> string list \<Rightarrow> (string, TxRecord) hashmap \<Rightarrow> (string, TxReceiptRecord) hashmap \<Rightarrow> mining" where
  "mine_pending n hashes txmap receipts =
     fold (mine_tx n (block_hash n)) (enumerate 0 hashes) (txmap, receipts, 0, 0)"

definition tick :: "u64 \<Rightarrow> 'db DaemonState \<Rightarrow> 'db DaemonState" where
  "tick now st =
     (let n = sat_add (current_height st) 1;
          st1 = st\<lparr>current_height := n, finalized_height := sat_sub n 2,
                   block_timestamps := hm_insert n now (block_timestamps st), pending_txs := []\<rparr> in
      if pending_txs st = [] then st1
      else case mine_pending n (pending_txs st) (txs st) (tx_receipts st) of
        (txmap, receipts, _, _) \<Rightarrow>
          st1\<lparr>block_txs := hm_insert n (pending_txs st) (block_txs st), txs := txmap, tx_receipts := receipts\<rparr>)"

section \<open>Hashes and numbers\<close>

lemma hex2_digits: "list_all is_ascii_hexdigit (hex2 b)" "parse_digits acc (hex2 b) = Some (acc * 256 + unat b)"
proof -
  have less: "unat b div 16 < 16" using unsigned_less [of b, where 'a = nat] by simp
  then show "list_all is_ascii_hexdigit (hex2 b)" by (simp add: hex2_def hex_char_digit)
  have "(acc * 16 + unat b div 16) * 16 + unat b mod 16 = acc * 256 + unat b"
    using div_mult_mod_eq [of "unat b" 16] by simp
  then show "parse_digits acc (hex2 b) = Some (acc * 256 + unat b)"
    using less by (simp add: hex2_def decode_hex_char)
qed

lemma length_hex_all [simp]: "length (hex_all bs) = 2 * length bs"
  by (induction bs) (simp_all add: hex_all_def hex2_def)

lemma hex_all_append: "hex_all (as @ bs) = hex_all as @ hex_all bs"
  by (simp add: hex_all_def)

lemma hex_all_digits: "list_all is_ascii_hexdigit (hex_all bs)"
  by (induction bs) (simp_all add: hex_all_def hex2_digits)

lemma parse_hex_all: "parse_digits acc (hex_all bs) = Some (acc * 256 ^ length bs + of_be bs)"
proof (induction bs rule: rev_induct)
  case (snoc b bs)
  then show ?case by (simp add: hex_all_append parse_digits_append) (simp add: hex_all_def hex2_digits algebra_simps)
qed (simp add: hex_all_def)

lemma hexdigit_not: "is_ascii_hexdigit c \<Longrightarrow> c \<noteq> CHR ''x'' \<and> c \<noteq> CHR ''+''"
  by (auto simp: is_ascii_hexdigit_def)

lemma hexdigits_no_prefix:
  assumes "list_all is_ascii_hexdigit s"
  shows "drop_prefix ''0x'' s = s"
proof -
  have "take 2 s \<noteq> ''0x''"
  proof
    assume "take 2 s = ''0x''"
    then have "CHR ''x'' \<in> set (take 2 s)" by simp
    then have "CHR ''x'' \<in> set s" by (rule in_set_takeD)
    with assms hexdigit_not show False by (auto simp: list_all_iff)
  qed
  then show ?thesis by (simp add: drop_prefix_def strip_prefix_def numeral_2_eq_2)
qed

lemma parse_hex_u64_all:
  assumes "length bs = 8"
  shows "parse_hex_u64 (hex_all bs) = Some (word_of_be bs)"
proof -
  have "of_be bs < 2 ^ 64" using of_be_less [of bs] assms by (simp add: power_256)
  moreover have "hex_all bs \<noteq> []" using assms length_hex_all [of bs] by fastforce
  moreover have "hd (hex_all bs) \<noteq> CHR ''+''"
    using hex_all_digits [of bs] hexdigit_not \<open>hex_all bs \<noteq> []\<close> by (cases "hex_all bs") auto
  ultimately show ?thesis
    by (simp add: parse_hex_u64_def hexdigits_no_prefix hex_all_digits from_str_radix16_def parse_hex_all
        word_of_be_def)
qed

lemma hex_all_zeros: "hex_all (replicate n 0) = replicate (2 * n) (CHR ''0'')"
  by (induction n) (simp_all add: hex_all_def hex2_def hex_char_def)

lemma block_number_of_bytes:
  assumes "length bs = 32"
  shows "block_number_from_hash (''0x'' @ hex_all bs) =
    (let n = word_of_be (take 8 bs) in if 1 \<le> n then Some (n - 1) else None)"
proof -
  have "drop_prefix ''0x'' (''0x'' @ hex_all bs) = hex_all bs" by (simp add: drop_prefix_def strip_prefix_def)
  moreover have "take 16 (hex_all bs) = hex_all (take 8 bs)"
    using hex_all_append [of "take 8 bs" "drop 8 bs"] assms by (simp add: append_eq_conv_conj)
  ultimately show ?thesis
    using assms by (simp add: block_number_from_hash_def hex_all_digits parse_hex_u64_all Let_def)
qed

lemma zero_hash_no_block: "block_number_from_hash (zeros_hex 64) = None"
proof -
  have "of_be (replicate n 0) = 0" for n by (induction n) (simp_all add: of_be_Cons)
  then have "word_of_be (take 8 (replicate 32 0)) = (0 :: u64)" by (simp add: word_of_be_def)
  moreover have "zeros_hex 64 = ''0x'' @ hex_all (replicate 32 0)"
    by (simp add: zeros_hex_def hex_all_zeros)
  ultimately show ?thesis
    using block_number_of_bytes [of "replicate 32 0"] by (simp add: Let_def)
qed

lemma block_number_of_hash:
  assumes "h < - 1"
  shows "block_number_from_hash (block_hash h) = Some h"
proof -
  have h: "unat h < 2 ^ 64 - 1" using assms by (simp add: word_less_nat_alt unat_minus_one_word_max)
  then have "1 \<le> sat_add h 1" by (simp add: word_le_nat_alt sat_simps)
  moreover have "sat_add h 1 - 1 = h" using h by (simp add: sat_add_def)
  ultimately show ?thesis
    unfolding block_hash_def by (subst block_number_of_bytes) (simp_all add: Let_def)
qed

text \<open>The made-up hash of a block tells its number: for every height but the largest, the hash of
  a height is a 32-byte hexadecimal string from which the height is read back.  Different heights
  have different hashes, and no hash is the zero hash that stands for the parent of genesis.\<close>

theorem block_hash_roundtrip:
  assumes "h < - 1"
  shows "block_number_from_hash (block_hash h) = Some h \<and> length (block_hash h) = 66 \<and>
    block_hash h \<noteq> zeros_hex 64"
proof -
  have "length (block_hash h) = 66" by (simp add: block_hash_def)
  with block_number_of_hash [OF assms] zero_hash_no_block show ?thesis by auto
qed

theorem block_hash_roundtrip_witness: "block_number_from_hash (block_hash 5) = Some 5"
  using block_hash_roundtrip [of 5] by (simp add: word_less_nat_alt unat_minus_one_word_max)

section \<open>What mining does\<close>

lemma map_of_hm_modify: "map_of (hm_modify k f m) = (map_of m)(k := map_option f (map_of m k))"
  by (auto simp: hm_modify_def fun_upd_idem split: option.splits)

lemma hm_inv_modify [simp]: "hm_inv m \<Longrightarrow> hm_inv (hm_modify k f m)"
  by (simp add: hm_modify_def split: option.splits)

lemma place_tx_twice [simp]: "place_tx n bh i (place_tx n bh j tx) = place_tx n bh i tx"
  by (simp add: place_tx_def)

lemma place_receipt_twice [simp]:
  "place_receipt n bh i c ls (place_receipt n bh j d ls' r) = place_receipt n bh i c ls r"
  by (simp add: place_receipt_def)

lemma length_number_logs [simp]: "length (fst (number_logs n bh h idx k logs)) = length logs"
  by (induction logs arbitrary: k) (simp_all add: case_prod_unfold Let_def)

lemma number_logs_next:
  "unat k + length logs < 2 ^ 64 \<Longrightarrow> snd (number_logs n bh h idx k logs) = k + of_nat (length logs)"
  by (induction logs arbitrary: k) (simp_all add: case_prod_unfold Let_def sat_add_def unat_word_ariths)

lemma number_logs_index:
  assumes "unat k + length logs < 2 ^ 64"
  shows "map tl_log_index (fst (number_logs n bh h idx k logs)) =
    map (\<lambda>j. Some (k + of_nat j)) [0..<length logs]"
  using assms
proof (induction logs arbitrary: k)
  case (Cons log logs)
  then have "sat_add k 1 = k + 1" "unat (k + 1) + length logs < 2 ^ 64"
    by (simp_all add: sat_add_def unat_word_ariths)
  with Cons.IH [of "k + 1"] show ?case
    by (simp add: case_prod_unfold Let_def upt_conv_Cons map_Suc_upt [symmetric] comp_def algebra_simps del: upt_Suc)
qed simp

lemma fst_mine_tx: "fst (mine_tx n bh (i, h) acc) = hm_modify h (place_tx n bh (of_nat i)) (fst acc)"
  by (simp add: mine_tx_def case_prod_unfold Let_def split: option.split)

lemma mined_snoc:
  "fold (mine_tx n bh) (enumerate 0 (hs @ [h])) acc =
     mine_tx n bh (length hs, h) (fold (mine_tx n bh) (enumerate 0 hs) acc)"
  by (simp add: enumerate_append_eq)

text \<open>The record of a transaction is placed at its last position in the block.\<close>

lemma mined_tx:
  fixes acc :: mining and n bh
  defines "after \<equiv> \<lambda>hs. fst (fold (mine_tx n bh) (enumerate 0 hs) acc)"
  shows "map_of (fst acc) h = None \<Longrightarrow> map_of (after hs) h = None"
    and "map_of (fst acc) h = Some tx \<Longrightarrow> h \<notin> set hs \<Longrightarrow> map_of (after hs) h = Some tx"
    and "map_of (fst acc) h = Some tx \<Longrightarrow> h \<in> set hs \<Longrightarrow>
      \<exists>i < length hs. hs ! i = h \<and> map_of (after hs) h = Some (place_tx n bh (of_nat i) tx)"
proof -
  have step: "after (hs @ [x]) = hm_modify x (place_tx n bh (of_nat (length hs))) (after hs)" for hs x
    unfolding after_def mined_snoc fst_mine_tx ..
  have start: "after [] = fst acc" by (simp add: after_def)
  show "map_of (fst acc) h = None \<Longrightarrow> map_of (after hs) h = None"
    by (induction hs rule: rev_induct) (auto simp: start step map_of_hm_modify)
  show same: "map_of (fst acc) h = Some tx \<Longrightarrow> h \<notin> set hs \<Longrightarrow> map_of (after hs) h = Some tx" for hs
    by (induction hs rule: rev_induct) (simp_all add: start step map_of_hm_modify)
  show "\<exists>i < length hs. hs ! i = h \<and> map_of (after hs) h = Some (place_tx n bh (of_nat i) tx)"
    if "map_of (fst acc) h = Some tx" "h \<in> set hs" using that(2)
  proof (induction hs rule: rev_induct)
    case (snoc x hs)
    show ?case
    proof (cases "x = h")
      case True
      have "map_option (place_tx n bh (of_nat (length hs))) (map_of (after hs) h) =
          Some (place_tx n bh (of_nat (length hs)) tx)"
        using snoc.IH same [OF that(1)] by (cases "h \<in> set hs") auto
      with True show ?thesis by (intro exI [of _ "length hs"]) (simp add: step map_of_hm_modify)
    next
      case False
      with snoc obtain i where "i < length hs" "hs ! i = h" "map_of (after hs) h = Some (place_tx n bh (of_nat i) tx)"
        by auto
      with False show ?thesis by (intro exI [of _ i]) (simp add: step map_of_hm_modify nth_append)
    qed
  qed simp
qed

definition gas_of :: "(string, TxReceiptRecord) hashmap \<Rightarrow> string \<Rightarrow> u64" where
  "gas_of receipts h = (case map_of receipts h of None \<Rightarrow> 0 | Some r \<Rightarrow> rc_gas_used r)"

definition logs_of :: "(string, TxReceiptRecord) hashmap \<Rightarrow> string \<Rightarrow> nat" where
  "logs_of receipts h = (case map_of receipts h of None \<Rightarrow> 0 | Some r \<Rightarrow> length (rc_logs r))"

lemma mine_tx_receipts:
  "map_of (fst (snd (mine_tx n bh (i, h) acc))) =
     (case map_of (fst (snd acc)) h of
        None \<Rightarrow> map_of (fst (snd acc))
      | Some r \<Rightarrow> (map_of (fst (snd acc)))(h \<mapsto>
          place_receipt n bh (of_nat i) (sat_add (fst (snd (snd acc))) (rc_gas_used r))
            (fst (number_logs n bh h (of_nat i) (snd (snd (snd acc))) (rc_logs r))) r))"
  "fst (snd (snd (mine_tx n bh (i, h) acc))) = sat_add (fst (snd (snd acc))) (gas_of (fst (snd acc)) h)"
  "snd (snd (snd (mine_tx n bh (i, h) acc))) =
     (case map_of (fst (snd acc)) h of
        None \<Rightarrow> snd (snd (snd acc))
      | Some r \<Rightarrow> snd (number_logs n bh h (of_nat i) (snd (snd (snd acc))) (rc_logs r)))"
  by (simp_all add: mine_tx_def gas_of_def case_prod_unfold Let_def split: option.split)

text \<open>Mining changes neither which receipts there are nor their gas nor how many logs they have.\<close>

lemma mined_counts:
  fixes receipts :: "(string, TxReceiptRecord) hashmap" and n bh txmap c l
  defines "after \<equiv> \<lambda>hs. fold (mine_tx n bh) (enumerate 0 hs) (txmap, receipts, c, l)"
  shows "gas_of (fst (snd (after hs))) h = gas_of receipts h"
    and "logs_of (fst (snd (after hs))) h = logs_of receipts h"
    and "(map_of (fst (snd (after hs))) h = None) = (map_of receipts h = None)"
proof -
  have step: "after (hs @ [x]) = mine_tx n bh (length hs, x) (after hs)" for hs x
    unfolding after_def mined_snoc ..
  have start: "after [] = (txmap, receipts, c, l)" by (simp add: after_def)
  show "gas_of (fst (snd (after hs))) h = gas_of receipts h"
    by (induction hs rule: rev_induct)
      (auto simp: start step gas_of_def mine_tx_receipts place_receipt_def split: option.splits)
  show "logs_of (fst (snd (after hs))) h = logs_of receipts h"
    by (induction hs rule: rev_induct)
      (auto simp: start step logs_of_def mine_tx_receipts place_receipt_def split: option.splits)
  show "(map_of (fst (snd (after hs))) h = None) = (map_of receipts h = None)"
    by (induction hs rule: rev_induct) (auto simp: start step mine_tx_receipts split: option.splits)
qed

lemma mined_gas:
  "fst (snd (snd (fold (mine_tx n bh) (enumerate 0 hs) (txmap, receipts, c, l)))) =
     foldl sat_add c (map (gas_of receipts) hs)"
  by (induction hs rule: rev_induct)
    (simp_all only: mined_snoc mine_tx_receipts(2) mined_counts, simp_all)

lemma mined_logs:
  assumes "unat l + sum_list (map (logs_of receipts) hs) < 2 ^ 64"
  shows "snd (snd (snd (fold (mine_tx n bh) (enumerate 0 hs) (txmap, receipts, c, l)))) =
    l + of_nat (sum_list (map (logs_of receipts) hs))"
  using assms
proof (induction hs rule: rev_induct)
  case (snoc h hs)
  let ?acc = "fold (mine_tx n bh) (enumerate 0 hs) (txmap, receipts, c, l)"
  have l: "snd (snd (snd ?acc)) = l + of_nat (sum_list (map (logs_of receipts) hs))" using snoc by simp
  have "unat (l + of_nat (sum_list (map (logs_of receipts) hs)) :: u64) =
      unat l + sum_list (map (logs_of receipts) hs)"
    using snoc.prems by (simp add: unat_word_ariths unsigned_of_nat take_bit_nat_eq_self)
  then have "unat (snd (snd (snd ?acc))) + logs_of (fst (snd ?acc)) h < 2 ^ 64"
    using snoc.prems by (simp add: l mined_counts)
  then have "snd (snd (snd (mine_tx n bh (length hs, h) ?acc))) =
      snd (snd (snd ?acc)) + of_nat (logs_of (fst (snd ?acc)) h)"
    by (auto simp: mine_tx_receipts logs_of_def number_logs_next split: option.splits)
  then show ?case unfolding mined_snoc by (simp add: l mined_counts)
qed simp

lemma mined_others:
  "h \<notin> snd ` set steps \<Longrightarrow> map_of (fst (snd (fold (mine_tx n bh) steps acc))) h = map_of (fst (snd acc)) h"
proof (induction steps arbitrary: acc)
  case (Cons s steps)
  obtain i x where s: "s = (i, x)" by force
  with Cons have "map_of (fst (snd (mine_tx n bh (i, x) acc))) h = map_of (fst (snd acc)) h"
    by (auto simp: mine_tx_receipts split: option.splits)
  with Cons s show ?case by simp
qed simp

lemma mined_absent:
  "h \<notin> set hs \<Longrightarrow>
     map_of (fst (snd (fold (mine_tx n bh) (enumerate k hs) acc))) h = map_of (fst (snd acc)) h"
  using mined_others [of h "enumerate k hs"] map_snd_enumerate [of k hs] by (metis set_map)

lemma mined_receipt:
  fixes n bh txmap c l and receipts :: "(string, TxReceiptRecord) hashmap"
  defines "after \<equiv> \<lambda>hs. fold (mine_tx n bh) (enumerate 0 hs) (txmap, receipts, c, l)"
  assumes "map_of receipts h = Some r" and "h \<in> set hs"
  shows "\<exists>i < length hs. \<exists>c' ls. hs ! i = h \<and>
    map_of (fst (snd (after hs))) h = Some (place_receipt n bh (of_nat i) c' ls r)"
  using assms(3)
proof (induction hs rule: rev_induct)
  case (snoc x hs)
  have step: "after (hs @ [x]) = mine_tx n bh (length hs, x) (after hs)"
    unfolding after_def mined_snoc ..
  show ?case
  proof (cases "x = h")
    case True
    have "\<exists>i c' ls. map_of (fst (snd (after hs))) h \<in> {Some r, Some (place_receipt n bh i c' ls r)}"
    proof (cases "h \<in> set hs")
      case False
      then have "map_of (fst (snd (after hs))) h = Some r"
        using assms(2) by (simp add: after_def mined_absent)
      then show ?thesis by blast
    qed (use snoc.IH in blast)
    with True show ?thesis by (intro exI [of _ "length hs"], auto simp: step [unfolded True] mine_tx_receipts, blast+)
  next
    case False
    with snoc obtain i c' ls where "i < length hs" "hs ! i = h"
      "map_of (fst (snd (after hs))) h = Some (place_receipt n bh (of_nat i) c' ls r)" by auto
    with False show ?thesis
      by (intro exI [of _ i]) (auto simp: step mine_tx_receipts nth_append split: option.splits)
  qed
qed simp

lemma mined_receipt_exact:
  fixes n bh txmap c l and receipts :: "(string, TxReceiptRecord) hashmap"
  defines "after \<equiv> \<lambda>hs. fold (mine_tx n bh) (enumerate 0 hs) (txmap, receipts, c, l)"
  assumes "map_of receipts (hs ! i) = Some r" and "i < length hs" and "distinct hs"
  shows "map_of (fst (snd (after hs))) (hs ! i) =
    Some (place_receipt n bh (of_nat i) (foldl sat_add c (map (gas_of receipts) (take (Suc i) hs)))
      (fst (number_logs n bh (hs ! i) (of_nat i) (snd (snd (snd (after (take i hs))))) (rc_logs r))) r)"
proof -
  have split: "hs = take i hs @ [hs ! i] @ drop (Suc i) hs" using assms(3) by (simp add: id_take_nth_drop)
  have fresh: "hs ! i \<notin> set (take i hs)" "hs ! i \<notin> set (drop (Suc i) hs)"
    using assms(4) split by (metis distinct_append distinct_singleton disjoint_iff list.set_intros(1) set_append UnCI)+
  have "after hs = fold (mine_tx n bh) (enumerate (Suc i) (drop (Suc i) hs)) (after (take i hs @ [hs ! i]))"
    using assms(3) by (subst (1) split) (simp add: after_def enumerate_append_eq del: append_take_drop_id)
  with fresh(2) have "map_of (fst (snd (after hs))) (hs ! i) = map_of (fst (snd (after (take i hs @ [hs ! i])))) (hs ! i)"
    by (simp add: mined_absent)
  moreover have "map_of (fst (snd (after (take i hs)))) (hs ! i) = Some r"
    using assms(2) fresh(1) by (simp add: after_def mined_absent)
  moreover have "after (take i hs @ [hs ! i]) = mine_tx n bh (i, hs ! i) (after (take i hs))"
    unfolding after_def mined_snoc using assms(3) by simp
  moreover have "fst (snd (snd (after (take i hs)))) = foldl sat_add c (map (gas_of receipts) (take i hs))"
    unfolding after_def by (rule mined_gas)
  moreover have "rc_gas_used r = gas_of receipts (hs ! i)" using assms(2) by (simp add: gas_of_def)
  ultimately show ?thesis using assms(3) by (simp add: mine_tx_receipts take_Suc_conv_app_nth)
qed

section \<open>The ticker\<close>

lemma tick_fields:
  "current_height (tick now st) = sat_add (current_height st) 1"
  "finalized_height (tick now st) = sat_sub (sat_add (current_height st) 1) 2"
  "pending_txs (tick now st) = []"
  "block_timestamps (tick now st) = hm_insert (sat_add (current_height st) 1) now (block_timestamps st)"
  "block_txs (tick now st) = (if pending_txs st = [] then block_txs st
     else hm_insert (sat_add (current_height st) 1) (pending_txs st) (block_txs st))"
  "txs (tick now st) = fst (mine_pending (sat_add (current_height st) 1) (pending_txs st) (txs st) (tx_receipts st))"
  "tx_receipts (tick now st) =
     fst (snd (mine_pending (sat_add (current_height st) 1) (pending_txs st) (txs st) (tx_receipts st)))"
  by (simp_all add: tick_def mine_pending_def Let_def case_prod_unfold)

lemma tick_frame:
  "market_nfts (tick now st) = market_nfts st" "market_receipts (tick now st) = market_receipts st"
  "next_market_token_id (tick now st) = next_market_token_id st" "evm_db (tick now st) = evm_db st"
  "engine_part (tick now st) = (engine_part st)\<lparr>current_height := sat_add (current_height st) 1\<rparr>"
  by (simp_all add: tick_def Let_def case_prod_unfold NodeState.defs)

lemma unat_foldl_sat_add:
  "unat (foldl sat_add c ws) = min (unat c + sum_list (map unat ws)) (2 ^ LENGTH('a) - 1)"
  for c :: "'a::len word"
proof (induction ws arbitrary: c)
  case Nil
  then show ?case using unat_le_max [of c] by simp
qed (simp add: sat_simps)

lemma tick_receipt_placed:
  assumes "current_height st < - 1" and "distinct (pending_txs st)" and "i < length (pending_txs st)"
    and "map_of (tx_receipts st) (pending_txs st ! i) = Some r"
  defines "n \<equiv> current_height st + 1"
    and "L \<equiv> \<Sum>h \<leftarrow> take i (pending_txs st). logs_of (tx_receipts st) h"
  shows "\<exists>r'. map_of (tx_receipts (tick now st)) (pending_txs st ! i) = Some r' \<and>
    rc_block_number r' = Some n \<and> rc_block_hash r' = Some (block_hash n) \<and>
    rc_transaction_index r' = Some (of_nat i) \<and> rc_gas_used r' = rc_gas_used r \<and>
    unat (rc_cumulative_gas_used r') =
      min (\<Sum>h \<leftarrow> take (Suc i) (pending_txs st). unat (gas_of (tx_receipts st) h)) (2 ^ 64 - 1) \<and>
    (sum_list (map (logs_of (tx_receipts st)) (pending_txs st)) < 2 ^ 64 \<longrightarrow>
      map tl_log_index (rc_logs r') = map (\<lambda>j. Some (of_nat (L + j))) [0..<length (rc_logs r)])"
proof -
  let ?hs = "pending_txs st" and ?rs = "tx_receipts st"
  have n: "sat_add (current_height st) 1 = n"
    using assms(1) by (simp add: n_def sat_add_def word_less_nat_alt unat_minus_one_word_max)
  let ?before = "fold (mine_tx n (block_hash n)) (enumerate 0 (take i ?hs)) (txs st, ?rs, 0, 0)"
  define r' where "r' = place_receipt n (block_hash n) (of_nat i)
    (foldl sat_add 0 (map (gas_of ?rs) (take (Suc i) ?hs)))
    (fst (number_logs n (block_hash n) (?hs ! i) (of_nat i) (snd (snd (snd ?before))) (rc_logs r))) r"
  have logs: "map tl_log_index (rc_logs r') = map (\<lambda>j. Some (of_nat (L + j))) [0..<length (rc_logs r)]"
    if small: "sum_list (map (logs_of ?rs) ?hs) < 2 ^ 64"
  proof -
    have "sum_list (map (logs_of ?rs) ?hs) =
        L + logs_of ?rs (?hs ! i) + sum_list (map (logs_of ?rs) (drop (Suc i) ?hs))"
      unfolding L_def using assms(3) by (subst (1) id_take_nth_drop [OF assms(3)]) simp
    with assms(4) small have L: "L + length (rc_logs r) < 2 ^ 64" by (simp add: logs_of_def)
    have next_log: "snd (snd (snd ?before)) = of_nat L"
      using mined_logs [of 0 ?rs "take i ?hs"] L by (simp add: L_def)
    have unat_L: "unat (of_nat L :: u64) = L" using L by (simp add: unsigned_of_nat take_bit_nat_eq_self)
    show ?thesis
      using number_logs_index [of "of_nat L" "rc_logs r"] L unat_L
      by (simp add: r'_def next_log place_receipt_def)
  qed
  have "map_of (tx_receipts (tick now st)) (?hs ! i) = Some r'"
    using mined_receipt_exact [OF assms(4,3,2)] by (simp add: tick_fields n mine_pending_def r'_def)
  moreover have "unat (rc_cumulative_gas_used r') =
      min (\<Sum>h \<leftarrow> take (Suc i) ?hs. unat (gas_of ?rs h)) (2 ^ 64 - 1)"
    by (simp add: r'_def place_receipt_def unat_foldl_sat_add comp_def)
  moreover have "rc_block_number r' = Some n" "rc_block_hash r' = Some (block_hash n)"
    "rc_transaction_index r' = Some (of_nat i)" "rc_gas_used r' = rc_gas_used r"
    by (simp_all add: r'_def place_receipt_def)
  ultimately show ?thesis using logs by blast
qed

lemma tick_tx_placed:
  assumes "current_height st < - 1" and "distinct (pending_txs st)" and "i < length (pending_txs st)"
  defines "n \<equiv> current_height st + 1"
  shows "map_of (txs (tick now st)) (pending_txs st ! i) =
    map_option (place_tx n (block_hash n) (of_nat i)) (map_of (txs st) (pending_txs st ! i))"
proof -
  let ?hs = "pending_txs st" and ?acc = "(txs st, tx_receipts st, 0, 0) :: mining"
  have n: "sat_add (current_height st) 1 = n"
    using assms(1) by (simp add: n_def sat_add_def word_less_nat_alt unat_minus_one_word_max)
  note after = mined_tx [where acc = ?acc and hs = ?hs and h = "?hs ! i" and n = n and bh = "block_hash n"]
  show ?thesis
  proof (cases "map_of (txs st) (?hs ! i)")
    case None
    with after(1) show ?thesis by (simp add: tick_fields n mine_pending_def)
  next
    case (Some tx)
    with after(3) assms(3) obtain j where "j < length ?hs" "?hs ! j = ?hs ! i"
      "map_of (fst (fold (mine_tx n (block_hash n)) (enumerate 0 ?hs) ?acc)) (?hs ! i) =
        Some (place_tx n (block_hash n) (of_nat j) tx)" by auto
    moreover from this assms(2,3) have "j = i" by (simp add: nth_eq_iff_index_eq)
    ultimately show ?thesis using Some by (simp add: tick_fields n mine_pending_def)
  qed
qed

text \<open>C13.  The ticker makes the next block of the pending transactions (each is pending once), in the order of
  their arrival: the height grows by one, the finalised height follows two behind (and stays zero below
  two), nothing is pending afterwards, and the block lists exactly what was pending, whether or not it has a
  receipt.  The record of each included transaction gets the number and hash of the block and its position.
  So does its receipt, if it has one, with the gas of all receipts up to and with its own as cumulative gas
  (saturating), and its logs are numbered through the block, unless the block has \<open>2 ^ 64\<close> logs.\<close>

theorem tick_includes_pending:
  fixes st :: "'db DaemonState" and now :: u64
  assumes "current_height st < - 1" and "distinct (pending_txs st)"
  defines "n \<equiv> current_height st + 1" and "hs \<equiv> pending_txs st" and "st' \<equiv> tick now st"
  shows "current_height st' = n \<and> unat (finalized_height st') = unat n - 2 \<and> pending_txs st' = [] \<and>
    map_of (block_txs st') n = (if hs = [] then map_of (block_txs st) n else Some hs) \<and>
    (\<forall>i < length hs.
      map_of (txs st') (hs ! i) = map_option (\<lambda>tx. tx\<lparr>tr_block_number := Some n, tr_block_hash := Some (block_hash n),
        tr_transaction_index := Some (of_nat i)\<rparr>) (map_of (txs st) (hs ! i)) \<and>
      (\<forall>r. map_of (tx_receipts st) (hs ! i) = Some r \<longrightarrow>
        (\<exists>r'. map_of (tx_receipts st') (hs ! i) = Some r' \<and>
          rc_block_number r' = Some n \<and> rc_block_hash r' = Some (block_hash n) \<and>
          rc_transaction_index r' = Some (of_nat i) \<and> rc_gas_used r' = rc_gas_used r \<and>
          unat (rc_cumulative_gas_used r') =
            min (\<Sum>h \<leftarrow> take (Suc i) hs. unat (gas_of (tx_receipts st) h)) (2 ^ 64 - 1) \<and>
          (sum_list (map (logs_of (tx_receipts st)) hs) < 2 ^ 64 \<longrightarrow>
            map tl_log_index (rc_logs r') =
              map (\<lambda>j. Some (of_nat ((\<Sum>h \<leftarrow> take i hs. logs_of (tx_receipts st) h) + j)))
                [0..<length (rc_logs r)]))))"
proof -
  have n: "sat_add (current_height st) 1 = n"
    using assms(1) by (simp add: n_def sat_add_def word_less_nat_alt unat_minus_one_word_max)
  have "current_height st' = n \<and> unat (finalized_height st') = unat n - 2 \<and> pending_txs st' = [] \<and>
    map_of (block_txs st') n = (if hs = [] then map_of (block_txs st) n else Some hs)"
    by (simp add: st'_def hs_def tick_fields n unat_sat_sub)
  moreover have "map_of (txs st') (hs ! i) = map_option (\<lambda>tx. tx\<lparr>tr_block_number := Some n,
      tr_block_hash := Some (block_hash n), tr_transaction_index := Some (of_nat i)\<rparr>) (map_of (txs st) (hs ! i))"
    if "i < length hs" for i
    using tick_tx_placed [OF assms(1,2), of i now] that unfolding st'_def hs_def n_def place_tx_def [abs_def] .
  moreover have "\<exists>r'. map_of (tx_receipts st') (hs ! i) = Some r' \<and>
      rc_block_number r' = Some n \<and> rc_block_hash r' = Some (block_hash n) \<and>
      rc_transaction_index r' = Some (of_nat i) \<and> rc_gas_used r' = rc_gas_used r \<and>
      unat (rc_cumulative_gas_used r') =
        min (\<Sum>h \<leftarrow> take (Suc i) hs. unat (gas_of (tx_receipts st) h)) (2 ^ 64 - 1) \<and>
      (sum_list (map (logs_of (tx_receipts st)) hs) < 2 ^ 64 \<longrightarrow>
        map tl_log_index (rc_logs r') =
          map (\<lambda>j. Some (of_nat ((\<Sum>h \<leftarrow> take i hs. logs_of (tx_receipts st) h) + j))) [0..<length (rc_logs r)])"
    if "i < length hs" and "map_of (tx_receipts st) (hs ! i) = Some r" for i r
    unfolding st'_def hs_def n_def by (rule tick_receipt_placed [OF assms(1,2) that [unfolded hs_def]])
  ultimately show ?thesis by (intro conjI allI impI) (elim conjE, assumption | blast)+
qed

section \<open>The invariant of the index\<close>

text \<open>
  Where a transaction is, given the three fields that say so: pending, or at its position in
  its block.
\<close>

definition placed :: "'db DaemonState \<Rightarrow> string \<Rightarrow> u64 option \<Rightarrow> string option \<Rightarrow> u64 option \<Rightarrow> bool" where
  "placed st h bn bh ti \<longleftrightarrow>
     (case bn of
        None \<Rightarrow> bh = None \<and> ti = None \<and> h \<in> set (pending_txs st)
      | Some n \<Rightarrow> bh = Some (block_hash n) \<and>
          (\<exists>hs i. map_of (block_txs st) n = Some hs \<and> i < length hs \<and> hs ! i = h \<and> ti = Some (of_nat i)))"

definition txs_ok :: "'db DaemonState \<Rightarrow> bool" where
  "txs_ok st \<longleftrightarrow>
     (\<forall>h tx. map_of (txs st) h = Some tx \<longrightarrow>
        tr_hash tx = h \<and> placed st h (tr_block_number tx) (tr_block_hash tx) (tr_transaction_index tx))"

definition receipts_ok :: "'db DaemonState \<Rightarrow> bool" where
  "receipts_ok st \<longleftrightarrow>
     (\<forall>h r. map_of (tx_receipts st) h = Some r \<longrightarrow>
        rc_tx_hash r = h \<and> map_of (txs st) h \<noteq> None \<and>
        placed st h (rc_block_number r) (rc_block_hash r) (rc_transaction_index r))"

definition blocks_ok :: "'db DaemonState \<Rightarrow> bool" where
  "blocks_ok st \<longleftrightarrow>
     (\<forall>n hs. map_of (block_txs st) n = Some hs \<longrightarrow>
        n \<le> current_height st \<and> hs \<noteq> [] \<and> (\<forall>h \<in> set hs. map_of (txs st) h \<noteq> None)) \<and>
     (\<forall>h \<in> set (pending_txs st). map_of (txs st) h \<noteq> None) \<and>
     finalized_height st = sat_sub (current_height st) 2"

definition index_ok :: "'db DaemonState \<Rightarrow> bool" where
  "index_ok st \<longleftrightarrow> txs_ok st \<and> receipts_ok st \<and> blocks_ok st"

lemmas index_defs = index_ok_def txs_ok_def receipts_ok_def blocks_ok_def

text \<open>The invariant depends on these fields only.\<close>

definition same_index :: "'db DaemonState \<Rightarrow> 'db DaemonState \<Rightarrow> bool" where
  "same_index st st' \<longleftrightarrow>
     txs st' = txs st \<and> tx_receipts st' = tx_receipts st \<and> pending_txs st' = pending_txs st \<and>
     block_txs st' = block_txs st \<and> current_height st' = current_height st \<and>
     finalized_height st' = finalized_height st"

lemma same_index_ok:
  assumes "same_index st st'" and "index_ok st"
  shows "index_ok st'"
proof -
  have "placed st' = placed st" using assms(1) by (intro ext) (simp add: placed_def same_index_def split: option.split)
  with assms show ?thesis unfolding same_index_def index_defs by simp
qed

lemma same_index_refl [simp]: "same_index st st"
  by (simp add: same_index_def)

lemma index_ok_start: "index_ok (start_state nh cfg fig chain_spec now)"
  by (simp add: index_defs start_state_def sat_sub_def)

text \<open>Recording a transaction, with or without a receipt.\<close>

lemma placed_new:
  assumes "pending_txs st' = pending_txs st @ [h]" and "block_txs st' = block_txs st"
  shows "placed st g bn bh ti \<Longrightarrow> placed st' g bn bh ti" and "placed st' h None None None"
  using assms by (auto simp: placed_def split: option.splits)

lemma index_ok_record:
  assumes "index_ok st" and "tr_hash tx = h" "tr_block_number tx = None" "tr_block_hash tx = None"
      "tr_transaction_index tx = None"
    and st': "pending_txs st' = pending_txs st @ [h]" "txs st' = hm_insert h tx (txs st)"
      "block_txs st' = block_txs st" "current_height st' = current_height st"
      "finalized_height st' = finalized_height st"
    and receipts: "tx_receipts st' = tx_receipts st \<or>
      (\<exists>r. tx_receipts st' = hm_insert h r (tx_receipts st) \<and> rc_tx_hash r = h \<and> rc_block_number r = None \<and>
        rc_block_hash r = None \<and> rc_transaction_index r = None)"
  shows "index_ok st'"
proof -
  note new = placed_new [OF st'(1,3)]
  have "txs_ok st'" using assms(1-5) new unfolding index_ok_def txs_ok_def st'(2) by auto
  moreover have "receipts_ok st'"
    using receipts assms(1) new unfolding index_ok_def receipts_ok_def by (auto simp: st'(2))
  moreover have "blocks_ok st'" using assms(1) by (auto simp: index_ok_def blocks_ok_def st')
  ultimately show ?thesis by (simp add: index_ok_def)
qed

lemma index_ok_record_tx: "index_ok st \<Longrightarrow> index_ok (record_tx nh st tx_hash caller decoded out)"
  by (rule index_ok_record [where h = tx_hash and tx = "new_tx_record nh tx_hash caller decoded out"])
    (auto simp: record_tx_def new_tx_record_def new_receipt_def Let_def)

lemma height_below:
  assumes "current_height st < - 1"
  shows "sat_add (current_height st) 1 = current_height st + 1" and "current_height st < current_height st + 1"
  using assms by (simp_all add: sat_add_def word_less_nat_alt unat_minus_one_word_max unat_word_ariths)

text \<open>An old place is kept by a tick, and a pending transaction gets its place in the new block.\<close>

lemma placed_tick:
  assumes "current_height st < - 1" and "blocks_ok st" and "placed st h (Some n) bh ti"
  shows "placed (tick now st) h (Some n) bh ti"
proof -
  from assms(2,3) have "n \<le> current_height st" by (auto simp: placed_def blocks_ok_def)
  then have "n \<noteq> sat_add (current_height st) 1" using height_below [OF assms(1)] by auto
  with assms(3) show ?thesis by (auto simp: placed_def tick_fields)
qed

lemma placed_mined:
  "i < length (pending_txs st) \<Longrightarrow> pending_txs st ! i = h \<Longrightarrow> n = sat_add (current_height st) 1 \<Longrightarrow>
     placed (tick now st) h (Some n) (Some (block_hash n)) (Some (of_nat i))"
  by (auto simp: placed_def tick_fields)

lemma tick_tx:
  assumes "map_of (txs (tick now st)) h = Some tx'"
  obtains tx where "map_of (txs st) h = Some tx" "h \<notin> set (pending_txs st)" "tx' = tx"
  | tx i where "map_of (txs st) h = Some tx" "i < length (pending_txs st)" "pending_txs st ! i = h"
      "tx' = place_tx (sat_add (current_height st) 1) (block_hash (sat_add (current_height st) 1)) (of_nat i) tx"
proof (cases "map_of (txs st) h")
  case None
  with assms mined_tx(1) [where acc = "(txs st, tx_receipts st, 0, 0)"] show ?thesis
    by (simp add: tick_fields mine_pending_def)
next
  case (Some tx)
  note after = mined_tx(2,3) [where acc = "(txs st, tx_receipts st, 0, 0)", simplified, OF Some]
  show ?thesis
  proof (cases "h \<in> set (pending_txs st)")
    case True
    let ?n = "sat_add (current_height st) 1"
    obtain i where "i < length (pending_txs st)" "pending_txs st ! i = h"
      "map_of (txs (tick now st)) h = Some (place_tx ?n (block_hash ?n) (of_nat i) tx)"
      using after(2) [OF True, of ?n "block_hash ?n"] by (auto simp: tick_fields mine_pending_def)
    with that(2) [OF Some] assms show ?thesis by simp
  next
    case False
    with after(1) [OF False] assms Some that(1) show ?thesis by (simp add: tick_fields mine_pending_def)
  qed
qed

lemma tick_receipt:
  assumes "map_of (tx_receipts (tick now st)) h = Some r'"
  obtains r where "map_of (tx_receipts st) h = Some r" "h \<notin> set (pending_txs st)" "r' = r"
  | r i c ls where "map_of (tx_receipts st) h = Some r" "i < length (pending_txs st)" "pending_txs st ! i = h"
      "r' = place_receipt (sat_add (current_height st) 1) (block_hash (sat_add (current_height st) 1)) (of_nat i) c ls r"
proof (cases "map_of (tx_receipts st) h")
  case None
  with assms mined_counts(3) show ?thesis by (metis tick_fields(7) mine_pending_def option.distinct(1))
next
  case (Some r)
  show ?thesis
  proof (cases "h \<in> set (pending_txs st)")
    case True
    let ?n = "sat_add (current_height st) 1"
    obtain i c ls where "i < length (pending_txs st)" "pending_txs st ! i = h"
      "map_of (tx_receipts (tick now st)) h = Some (place_receipt ?n (block_hash ?n) (of_nat i) c ls r)"
      using mined_receipt [OF Some True, of ?n "block_hash ?n" "txs st" 0 0]
      by (auto simp: tick_fields mine_pending_def)
    moreover from this assms have "r' = place_receipt ?n (block_hash ?n) (of_nat i) c ls r" by simp
    ultimately show ?thesis using that(2) [OF Some] by blast
  next
    case False
    with mined_absent [OF False] assms Some that(1) show ?thesis by (simp add: tick_fields mine_pending_def)
  qed
qed

lemma mined_dom: "map_of (fst (fold (mine_tx n bh) (enumerate 0 hs) acc)) h = None \<longleftrightarrow> map_of (fst acc) h = None"
  by (induction hs rule: rev_induct) (auto simp only: mined_snoc fst_mine_tx map_of_hm_modify
      fun_upd_apply option.map_disc_iff enumerate_simps fold.simps id_apply split: if_splits)

lemma tick_dom: "map_of (txs (tick now st)) h = None \<longleftrightarrow> map_of (txs st) h = None"
  by (simp add: tick_fields mine_pending_def mined_dom)

lemma index_ok_tick:
  assumes "index_ok st" and "current_height st < - 1"
  shows "index_ok (tick now st)"
proof -
  have blocks: "blocks_ok st" using assms(1) by (simp add: index_ok_def)
  have "txs_ok (tick now st)"
    unfolding txs_ok_def
  proof (intro allI impI)
    fix h tx' assume "map_of (txs (tick now st)) h = Some tx'"
    then show "tr_hash tx' = h \<and> placed (tick now st) h (tr_block_number tx') (tr_block_hash tx') (tr_transaction_index tx')"
    proof (cases rule: tick_tx)
      case (1 tx)
      with assms(1) have tx: "tr_hash tx = h" "placed st h (tr_block_number tx) (tr_block_hash tx) (tr_transaction_index tx)"
        by (auto simp: index_ok_def txs_ok_def)
      with 1(2) obtain n where "tr_block_number tx = Some n" by (auto simp: placed_def split: option.splits)
      with tx 1 placed_tick [OF assms(2) blocks] show ?thesis by simp
    next
      case (2 tx i)
      with assms(1) have "tr_hash tx = h" by (auto simp: index_ok_def txs_ok_def)
      with 2(4) placed_mined [OF 2(2,3) refl] show ?thesis by (simp add: place_tx_def)
    qed
  qed
  moreover have "receipts_ok (tick now st)"
    unfolding receipts_ok_def
  proof (intro allI impI)
    fix h r' assume "map_of (tx_receipts (tick now st)) h = Some r'"
    then show "rc_tx_hash r' = h \<and> map_of (txs (tick now st)) h \<noteq> None \<and>
      placed (tick now st) h (rc_block_number r') (rc_block_hash r') (rc_transaction_index r')"
    proof (cases rule: tick_receipt)
      case (1 r)
      with assms(1) have r: "rc_tx_hash r = h" "map_of (txs st) h \<noteq> None"
        "placed st h (rc_block_number r) (rc_block_hash r) (rc_transaction_index r)"
        by (auto simp: index_ok_def receipts_ok_def)
      with 1(2) obtain n where "rc_block_number r = Some n" by (auto simp: placed_def split: option.splits)
      with r 1 placed_tick [OF assms(2) blocks] show ?thesis by (simp add: tick_dom)
    next
      case (2 r i c ls)
      with assms(1) have "rc_tx_hash r = h" "map_of (txs st) h \<noteq> None" by (auto simp: index_ok_def receipts_ok_def)
      with 2(4) placed_mined [OF 2(2,3) refl] show ?thesis by (simp add: place_receipt_def tick_dom)
    qed
  qed
  moreover have "blocks_ok (tick now st)"
    using blocks height_below [OF assms(2)]
    by (fastforce simp: blocks_ok_def tick_fields(1-5) tick_dom split: if_splits)
  ultimately show ?thesis by (simp add: index_ok_def)
qed

section \<open>Submitting a transaction\<close>

lemma execute_state:
  "\<exists>db. snd (execute_evm_transaction nh st caller decoded commit n ts) = st\<lparr>evm_db := db\<rparr>"
  by (auto simp: execute_evm_transaction_def Let_def case_prod_unfold split: sum.split)

lemma execute_error:
  "execute_evm_transaction nh st caller decoded commit n ts = (Inl e, st') \<Longrightarrow> st' = st\<lparr>evm_db := db_default nh\<rparr>"
  by (auto simp: execute_evm_transaction_def Let_def case_prod_unfold split: sum.splits)

lemma submit_rejected:
  assumes "submit_decoded nh st raw decoded = (Inl err, st')"
  shows "st' = st \<or> st' = st\<lparr>evm_db := db_default nh\<rparr>"
  using assms by (auto simp: submit_decoded_def Let_def dest: execute_error split: if_splits option.splits sum.splits prod.splits)

lemma submit_accepted:
  assumes "submit_decoded nh st raw decoded = (Inr res, st')"
  shows "\<exists>caller_str out db. res = JString (raw_tx_hash nh raw) \<and> pending_nonce_address_hint st = Some caller_str \<and>
    st' = record_tx nh (st\<lparr>evm_db := db\<rparr>) (raw_tx_hash nh raw) caller_str decoded out"
proof -
  from assms obtain caller_str caller out st1
    where hint: "pending_nonce_address_hint st = Some caller_str"
      and exec: "execute_evm_transaction nh st caller decoded True (sat_add (current_height st) 1)
        (slot_time st (sat_add (current_height st) 1)) = (Inr out, st1)"
      and st': "st' = record_tx nh st1 (raw_tx_hash nh raw) caller_str decoded out"
      and res: "res = JString (raw_tx_hash nh raw)"
    by (auto simp: submit_decoded_def Let_def split: if_splits option.splits sum.splits prod.splits)
  moreover obtain db where "st1 = st\<lparr>evm_db := db\<rparr>" using execute_state exec by (metis snd_conv)
  ultimately show ?thesis by blast
qed

lemma index_ok_evm_db [simp]: "index_ok (st\<lparr>evm_db := db\<rparr>) = index_ok st"
proof -
  have "same_index st (st\<lparr>evm_db := db\<rparr>)" "same_index (st\<lparr>evm_db := db\<rparr>) st" by (simp_all add: same_index_def)
  then show ?thesis using same_index_ok by blast
qed

lemma index_ok_send:
  assumes "send_raw_transaction nh st raw = Some (answer, st')" and "index_ok st"
  shows "index_ok st'"
proof -
  have "index_ok st1" if "submit_decoded nh st raw decoded = (answer, st1)" for decoded st1
  proof (cases answer)
    case (Inl err)
    with submit_rejected that assms(2) show ?thesis by fastforce
  next
    case (Inr res)
    with submit_accepted that obtain caller out db
      where "st1 = record_tx nh (st\<lparr>evm_db := db\<rparr>) (raw_tx_hash nh raw) caller decoded out" by blast
    with index_ok_record_tx [of "st\<lparr>evm_db := db\<rparr>"] assms(2) show ?thesis by simp
  qed
  with assms show ?thesis by (auto simp: send_raw_transaction_def split: outcome.splits)
qed

text \<open>C12.  A raw transaction that is accepted is in the next block: the answer is its hash, and after the
  next tick the block lists the hash, the transaction and its receipt name that block, and a
  receipt is served.\<close>

theorem accepted_tx_is_mined:
  assumes "send_raw_transaction nh st raw = Some (Inr res, st')" and "current_height st < - 1"
  defines "h \<equiv> raw_tx_hash nh raw" and "n \<equiv> current_height st + 1"
  shows "\<exists>tx r j hs. res = JString h \<and>
    map_of (block_txs (tick now st')) n = Some hs \<and> h \<in> set hs \<and>
    map_of (txs (tick now st')) h = Some tx \<and> tr_block_number tx = Some n \<and>
    tr_block_hash tx = Some (block_hash n) \<and>
    map_of (tx_receipts (tick now st')) h = Some r \<and> rc_block_number r = Some n \<and>
    rc_transaction_index r = tr_transaction_index tx \<and> tx_receipt_json r = Some j"
proof -
  from assms(1) obtain decoded where "submit_decoded nh st raw decoded = (Inr res, st')"
    by (auto simp: send_raw_transaction_def split: outcome.splits)
  from submit_accepted [OF this] obtain caller out db where res: "res = JString h"
    and st': "st' = record_tx nh (st\<lparr>evm_db := db\<rparr>) h caller decoded out" unfolding h_def by blast
  have fields: "pending_txs st' = pending_txs st @ [h]" "current_height st' = current_height st"
    and known: "map_of (txs st') h \<noteq> None" "map_of (tx_receipts st') h \<noteq> None"
    by (simp_all add: st' record_tx_def Let_def)
  have n: "sat_add (current_height st') 1 = n" using height_below assms(2) by (simp add: fields n_def)
  let ?before = "fold (mine_tx n (block_hash n)) (enumerate 0 (pending_txs st)) (txs st', tx_receipts st', 0, 0)"
  let ?last = "of_nat (length (pending_txs st)) :: u64"
  have acc: "mine_pending n (pending_txs st') (txs st') (tx_receipts st') =
      mine_tx n (block_hash n) (length (pending_txs st), h) ?before"
    unfolding fields mine_pending_def mined_snoc ..
  obtain tx where "map_of (fst ?before) h = Some tx" using known(1) mined_dom [of n "block_hash n"] by fastforce
  then have "map_of (txs (tick now st')) h = Some (place_tx n (block_hash n) ?last tx)"
    by (simp add: tick_fields n acc fst_mine_tx map_of_hm_modify)
  moreover obtain r where "map_of (fst (snd ?before)) h = Some r"
    using known(2) mined_counts(3) [of n "block_hash n" "pending_txs st" "txs st'" "tx_receipts st'" 0 0 h] by auto
  then obtain c ls where "map_of (tx_receipts (tick now st')) h = Some (place_receipt n (block_hash n) ?last c ls r)"
    by (simp add: tick_fields n acc mine_tx_receipts)
  moreover have "map_of (block_txs (tick now st')) n = Some (pending_txs st @ [h])"
    by (simp add: tick_fields fields n [unfolded fields])
  ultimately show ?thesis
    using res by (simp add: place_tx_def place_receipt_def tx_receipt_json_def)
qed

text \<open>C23.  A refused transaction empties the node's database: the database is taken out of the state before
  the EVM runs and put back only when it returns a result, so that after an error of the EVM (a wrong
  nonce, say) the node goes on with the default database, whatever accounts it had.\<close>

theorem refused_tx_empties_database:
  fixes nh :: "'db node_host"
  assumes "decode_raw_tx nh raw = Returned decoded" and "dt_chain_id decoded \<in> {None, Some (chain_id st)}"
    and "pending_nonce_address_hint st = Some c" and "address_from_hex (base_host nh) c = Some caller"
  defines "n \<equiv> sat_add (current_height st) 1"
  assumes "fst (execute_evm_transaction nh st caller decoded True n (slot_time st n)) = Inl e"
  shows "\<exists>msg. send_raw_transaction nh st raw = Some (Inl (-32000, msg), st\<lparr>evm_db := db_default nh\<rparr>)"
proof -
  obtain st' where exec: "execute_evm_transaction nh st caller decoded True n (slot_time st n) = (Inl e, st')"
    using assms(6) by (metis prod.collapse)
  have "submit_decoded nh st raw decoded = (Inl (-32000, ''transaction rejected: '' @ e), st')"
    using assms(2-4) exec by (auto simp: submit_decoded_def Let_def n_def [symmetric])
  with assms(1) execute_error [OF exec] show ?thesis by (simp add: send_raw_transaction_def)
qed

section \<open>Instances\<close>

lemma plain_hex_zeros: "plain_hex (replicate n 0) = replicate (2 * n) (CHR ''0'')"
  by (induction n) (simp_all add: plain_hex_def encode_hex_bytes_def hex_char_def)

lemma zero_canonical: "canonical_address (zeros_hex 40) = Some (zeros_hex 40)"
proof -
  have "trim (zeros_hex 40) = zeros_hex 40"
    unfolding zeros_hex_def by (intro trim_plain) (simp add: is_ascii_whitespace_def list_all_iff)
  moreover have "strip_prefix ''0x'' (zeros_hex 40) = Some (replicate 40 (CHR ''0''))"
    "strip_prefix ''0x'' (replicate 40 (CHR ''0'')) = None"
    by (simp_all add: zeros_hex_def strip_prefix_def numeral_2_eq_2)
  then have "drop_prefixes ''0x'' (zeros_hex 40) = replicate 40 (CHR ''0'')"
    by (simp add: drop_prefixes.simps [of _ "zeros_hex 40"] drop_prefixes.simps [of _ "replicate 40 (CHR ''0'')"])
  ultimately show ?thesis
    by (simp add: canonical_address_def to_ascii_lowercase_def map_replicate_const list_all_iff is_ascii_hexdigit_def
        Let_def zeros_hex_def)
qed

lemma zero_caller: "address_from_hex (base_host node) (zeros_hex 40) = Some 0"
proof -
  have hex: "zeros_hex 40 = bytes_to_hex (base_host node) (replicate 20 0)"
    by (simp add: zeros_hex_def bytes_to_hex_def node_def plain_hex_zeros host.defs)
  have "parse_hex_bytes (base_host node) (zeros_hex 40) = Some (replicate 20 0)"
    unfolding hex by (rule parse_hex_bytes_encode [OF node_hex])
  moreover have "of_be (replicate n 0) = 0" for n by (induction n) (simp_all add: of_be_Cons)
  ultimately show ?thesis by (simp add: address_from_hex_def zero_canonical word_of_be_def)
qed

definition sample_config :: Config where
  "sample_config = \<lparr>cfg_node_id = 0, cfg_nodes = 4, cfg_rpc_port = 9545, cfg_p2p_port = 30303\<rparr>"

definition sample_figures :: Figures where
  "sample_figures = \<lparr>fig_ingress = 0, fig_execution = 0, fig_oob = 0, fig_bridge_replay_safe = True\<rparr>"

definition fresh_node :: "accounts DaemonState" where
  "fresh_node = (start_state node sample_config sample_figures JNull 0)\<lparr>pending_nonce_address_hint := Some (zeros_hex 40)\<rparr>"

lemma fresh_fields [simp]:
  "pending_nonce_address_hint fresh_node = Some (zeros_hex 40)" "current_height fresh_node = 0"
  "evm_db fresh_node = []" "pending_txs fresh_node = []"
  by (simp_all add: fresh_node_def start_state_def node_def)

lemma sample_tx_fields: "dt_chain_id sample_tx = None" "dt_nonce sample_tx = 0"
  by (simp_all add: sample_tx_def)

lemma node_evm:
  "evm_transact node = sample_transact" "db_basic node db a = (map_of db a, db)"
  "account_info_default node = sample_account" "db_insert_account_info node db a info = hm_insert a info db"
  "db_default node = []"
  by (simp_all add: node_def)

lemma sample_accepted: "\<exists>res st'. send_raw_transaction node fresh_node sample_raw = Some (Inr res, st')"
proof -
  have "\<exists>out st'. execute_evm_transaction node fresh_node 0 sample_tx True n ts = (Inr out, st')" for n ts
    by (simp add: execute_evm_transaction_def node_evm sample_transact_def tx_env_def sample_tx_fields
        sample_account_def Let_def)
  then obtain out st' where "execute_evm_transaction node fresh_node 0 sample_tx True
      (sat_add 0 1) (slot_time fresh_node (sat_add 0 1)) = (Inr out, st')" by blast
  then show ?thesis
    by (simp add: send_raw_transaction_def sample_decodes submit_decoded_def sample_tx_fields zero_caller Let_def)
qed

theorem accepted_tx_is_mined_witness:
  "\<exists>res st' hs. send_raw_transaction node fresh_node sample_raw = Some (Inr res, st') \<and>
     map_of (block_txs (tick 12 st')) 1 = Some hs \<and> raw_tx_hash node sample_raw \<in> set hs"
proof -
  obtain res st' where "send_raw_transaction node fresh_node sample_raw = Some (Inr res, st')"
    using sample_accepted by blast
  with accepted_tx_is_mined [OF this, of 12] show ?thesis by (auto simp: word_less_nat_alt unat_minus_one_word_max)
qed

text \<open>A node with two accounts, one of which has sent a transaction before.\<close>

definition busy_node :: "accounts DaemonState" where
  "busy_node = fresh_node\<lparr>evm_db := [(0, sample_account\<lparr>ai_nonce := 1\<rparr>), (1, sample_account\<lparr>ai_balance := 100\<rparr>)]\<rparr>"

theorem refused_tx_empties_database_witness:
  "\<exists>msg st'. send_raw_transaction node busy_node sample_raw = Some (Inl (-32000, msg), st') \<and>
     fst (account_balance_from_db (base_host node) (evm_db busy_node) 1) = 100 \<and>
     fst (account_balance_from_db (base_host node) (evm_db st') 1) = 0"
proof -
  have "fst (execute_evm_transaction node busy_node 0 sample_tx True n ts) =
      Inl ''evm transaction failed: nonce''" for n ts
    by (simp add: busy_node_def execute_evm_transaction_def node_evm sample_transact_def tx_env_def
        sample_tx_fields sample_account_def Let_def)
  moreover have "pending_nonce_address_hint busy_node = Some (zeros_hex 40)" by (simp add: busy_node_def)
  ultimately obtain msg where "send_raw_transaction node busy_node sample_raw =
      Some (Inl (-32000, msg), busy_node\<lparr>evm_db := []\<rparr>)"
    using refused_tx_empties_database [OF sample_decodes _ _ zero_caller, of busy_node]
    by (auto simp: sample_tx_fields node_evm)
  moreover have "db_basic (base_host node) db a = (map_of db a, db)" for db a by (simp add: host.defs node_evm)
  ultimately show ?thesis
    by (simp add: account_balance_from_db_def busy_node_def sample_account_def)
qed

definition two_receipts :: "accounts DaemonState" where
  "two_receipts = (let tx = new_tx_record node ''a'' ''s'' sample_tx
      \<lparr>eo_gas_used = 5, eo_status = True, eo_output = [], eo_contract_address = None, eo_logs = []\<rparr>;
      r = new_receipt node tx sample_tx
      \<lparr>eo_gas_used = 5, eo_status = True, eo_output = [], eo_contract_address = None, eo_logs = []\<rparr> in
    fresh_node\<lparr>pending_txs := [''a'', ''b''], txs := [(''a'', tx), (''b'', tx)], tx_receipts := [(''a'', r), (''b'', r)]\<rparr>)"

theorem tick_includes_pending_witness:
  "finalized_height (tick 12 two_receipts) = 0 \<and>
   (\<exists>r'. map_of (tx_receipts (tick 12 two_receipts)) ''b'' = Some r' \<and> unat (rc_cumulative_gas_used r') = 10)"
proof -
  have fields: "pending_txs two_receipts = [''a'', ''b'']" "current_height two_receipts = 0"
    and receipts: "\<exists>r. map_of (tx_receipts two_receipts) ''b'' = Some r"
    and gas: "gas_of (tx_receipts two_receipts) ''a'' = 5" "gas_of (tx_receipts two_receipts) ''b'' = 5"
    by (simp_all add: two_receipts_def Let_def gas_of_def new_receipt_def tx_logs_from_revm_def)
  obtain r where r: "map_of (tx_receipts two_receipts) ''b'' = Some r" using receipts by blast
  have "current_height two_receipts < - 1" "distinct (pending_txs two_receipts)"
    by (simp_all add: fields word_less_nat_alt unat_minus_one_word_max)
  note spec = tick_includes_pending [OF this, of 12]
  have "finalized_height (tick 12 two_receipts) = 0"
    using spec by (simp add: fields word_unat_eq_iff)
  moreover have "\<exists>r'. map_of (tx_receipts (tick 12 two_receipts)) ''b'' = Some r' \<and>
      unat (rc_cumulative_gas_used r') = 10"
    using spec [THEN conjunct2, THEN conjunct2, THEN conjunct2, THEN conjunct2, rule_format, of 1] r
    by (auto simp: fields gas)
  ultimately show ?thesis by blast
qed

end
