(* ===== verification/Market.thy ===== *)
theory Market
  imports Tx_Index
begin

text \<open>
  The market place of the daemon: the methods \<open>eth2077_market*\<close> of \<open>handle_jsonrpc\<close>, with the JSON of
  tokens and receipts.  A method answers with a result or with an error code and message, and
  leaves the state of the node.  The theorems say who can change the owner of a token, that tokens
  and receipts are stored under their own keys, and what a purchase does not check.
\<close>

section \<open>Tokens and receipts\<close>

definition market_nft_to_json :: "MarketNft \<Rightarrow> json" where
  "market_nft_to_json nft =
     JObject
       [(''tokenId'', jhex (nft_token_id nft)),
        (''name'', JString (nft_name nft)),
        (''description'', JString (nft_description nft)),
        (''image'', JString (nft_image nft)),
        (''owner'', JString (nft_owner nft)),
        (''listed'', JBool (nft_listed nft)),
        (''priceWei'', jhex128 (nft_price_wei nft)),
        (''createdAtUnixS'', jnum (nft_created_at_unix_s nft)),
        (''lastTxHash'', jopt JString (nft_last_tx_hash nft))]"

definition market_receipt_signature :: "'db node_host \<Rightarrow> MarketReceipt \<Rightarrow> string" where
  "market_receipt_signature nh receipt =
     pseudo_tx_hash nh
       (''eth2077:market:receipt:v1:'' @
        join '':''
          [decimal (unat (mr_chain_id receipt)), mr_tx_hash receipt, decimal (unat (mr_token_id receipt)),
           mr_buyer receipt, mr_seller receipt, decimal (unat (mr_price_wei receipt)),
           decimal (unat (mr_block_number_hint receipt)), decimal (unat (mr_timestamp_unix_s receipt))])
       (sat_add (sat_add (sat_add (mr_chain_id receipt) (mr_token_id receipt)) (mr_block_number_hint receipt))
         (mr_timestamp_unix_s receipt))"

definition market_receipt_to_json :: "MarketReceipt \<Rightarrow> json" where
  "market_receipt_to_json receipt =
     JObject
       [(''txHash'', JString (mr_tx_hash receipt)),
        (''tokenId'', jhex (mr_token_id receipt)),
        (''buyer'', JString (mr_buyer receipt)),
        (''seller'', JString (mr_seller receipt)),
        (''priceWei'', jhex128 (mr_price_wei receipt)),
        (''chainId'', jhex (mr_chain_id receipt)),
        (''blockNumberHint'', jhex (mr_block_number_hint receipt)),
        (''timestampUnixS'', jnum (mr_timestamp_unix_s receipt)),
        (''signature'', JString (mr_signature receipt)),
        (''scheme'', JString ''ETH2077-MARKET-RECEIPT-V1'')]"

text \<open>\<open>values()\<close> comes in the order of the hash map; \<open>sort_by_key\<close> is a stable sort.\<close>

definition market_nft_list_json :: "'db node_host \<Rightarrow> 'db DaemonState \<Rightarrow> json" where
  "market_nft_list_json nh st =
     JArray (map market_nft_to_json (sort_key nft_token_id (map snd (nft_order nh (market_nfts st)))))"

section \<open>Parameters\<close>

definition str_param :: "nat \<Rightarrow> json \<Rightarrow> string option" where
  "str_param i req = Option.bind (param i req) as_str"

definition address_param :: "nat \<Rightarrow> json \<Rightarrow> string option" where
  "address_param i req = Option.bind (str_param i req) canonical_address"

definition token_param :: "json \<Rightarrow> u64 option" where
  "token_param req = Option.bind (str_param 0 req) parse_hex_u64"

definition nonempty :: "string option \<Rightarrow> string option" where
  "nonempty s = (case s of Some (c # cs) \<Rightarrow> Some (c # cs) | _ \<Rightarrow> None)"

definition text_param :: "nat \<Rightarrow> json \<Rightarrow> string option" where
  "text_param i req = nonempty (map_option trim (str_param i req))"

definition hash_param :: "nat \<Rightarrow> json \<Rightarrow> string option" where
  "hash_param i req = nonempty (map_option to_ascii_lowercase (str_param i req))"

section \<open>Methods\<close>

definition market_by_owner :: "'db node_host \<Rightarrow> 'db DaemonState \<Rightarrow> json \<Rightarrow> answer" where
  "market_by_owner nh st req =
     (case address_param 0 req of
        Some owner_addr \<Rightarrow>
          Inr (JArray (map market_nft_to_json (sort_key nft_token_id
            (filter (\<lambda>n. nft_owner n = owner_addr) (map snd (nft_order nh (market_nfts st)))))))
      | None \<Rightarrow> Inl (-32602, ''invalid params: expected [ownerAddress]''))"

definition mint_record :: "string \<Rightarrow> string \<Rightarrow> u64 \<Rightarrow> u64 \<Rightarrow> TxRecord" where
  "mint_record tx_hash owner_addr nonce token_id =
     \<lparr>tr_hash = tx_hash, tr_from = owner_addr, tr_to = Some MARKET_MERCHANT_ADDRESS, tr_nonce = nonce,
      tr_gas = 120000, tr_gas_price = 1000000000, tr_max_priority_fee_per_gas = Some 0,
      tr_max_fee_per_blob_gas = None, tr_blob_versioned_hashes = [], tr_authorization_list_len = 0,
      tr_value = ''0x0'', tr_input = ''0x6d696e74'' @ hex_pad 16 (unat token_id), tr_type = ''0x2'',
      tr_contract_address = None, tr_block_number = None, tr_block_hash = None, tr_transaction_index = None\<rparr>"

definition mint_nft :: "json \<Rightarrow> u64 \<Rightarrow> string \<Rightarrow> u64 \<Rightarrow> string \<Rightarrow> MarketNft" where
  "mint_nft req token_id owner_addr now tx_hash =
     \<lparr>nft_token_id = token_id,
      nft_name = unwrap_or (text_param 1 req) (''ETH2077 NFT #'' @ decimal (unat token_id)),
      nft_description = unwrap_or (text_param 2 req) ''Minted on ETH2077 devnet marketplace'',
      nft_image = unwrap_or (text_param 3 req)
        (''https://picsum.photos/seed/eth2077-'' @ decimal (unat token_id) @ ''/640/640''),
      nft_owner = owner_addr, nft_listed = True,
      nft_price_wei = unwrap_or (Option.bind (str_param 4 req) parse_hex_u128) 1000000000000000,
      nft_created_at_unix_s = now, nft_last_tx_hash = Some tx_hash\<rparr>"

definition mint_hash :: "'db node_host \<Rightarrow> 'db DaemonState \<Rightarrow> string \<Rightarrow> u64 \<Rightarrow> string" where
  "mint_hash nh st owner_addr now =
     pseudo_tx_hash nh
       (''market-mint:'' @ owner_addr @ '':'' @ decimal (unat (next_market_token_id st)) @ '':'' @ decimal (unat now))
       (tx_counter st + now)"

definition market_mint :: "'db node_host \<Rightarrow> u64 \<Rightarrow> 'db DaemonState \<Rightarrow> json \<Rightarrow> answer \<times> 'db DaemonState" where
  "market_mint nh now st req =
     (case address_param 0 req of
        Some owner_addr \<Rightarrow>
          (let token_id = next_market_token_id st;
               tx_hash = mint_hash nh st owner_addr now;
               nonce = unwrap_or (map_of (nonce_by_address st) owner_addr) 0;
               nft = mint_nft req token_id owner_addr now tx_hash in
           (Inr (market_nft_to_json nft),
            st\<lparr>next_market_token_id := sat_add token_id 1, tx_counter := sat_add (tx_counter st) 1,
               nonce_by_address := hm_insert owner_addr (sat_add nonce 1) (nonce_by_address st),
               pending_txs := pending_txs st @ [tx_hash],
               txs := hm_insert tx_hash (mint_record tx_hash owner_addr nonce token_id) (txs st),
               market_nfts := hm_insert token_id nft (market_nfts st)\<rparr>))
      | None \<Rightarrow>
          (Inl (-32602, ''invalid params: expected [ownerAddress, name?, description?, imageUrl?, priceWeiHex?]''), st))"

text \<open>A transaction named in a request must be known and sent by the given address.\<close>

definition check_tx_hash :: "'db DaemonState \<Rightarrow> string option \<Rightarrow> string \<Rightarrow> string \<Rightarrow> string \<Rightarrow> string option" where
  "check_tx_hash st h sender not_sender unknown =
     (case h of
        None \<Rightarrow> None
      | Some h \<Rightarrow>
          (case map_of (txs st) h of
             Some tx \<Rightarrow> if tr_from tx = sender then None else Some not_sender
           | None \<Rightarrow> Some unknown))"

definition buy_hash :: "'db node_host \<Rightarrow> 'db DaemonState \<Rightarrow> string option \<Rightarrow> u64 \<Rightarrow> string \<Rightarrow> u64 \<Rightarrow> string" where
  "buy_hash nh st h token_id buyer now =
     unwrap_or h
       (pseudo_tx_hash nh (''market-buy:'' @ decimal (unat token_id) @ '':'' @ buyer @ '':'' @ decimal (unat now))
         (sat_add (tx_counter st) now))"

definition buy_receipt :: "'db node_host \<Rightarrow> 'db DaemonState \<Rightarrow> string \<Rightarrow> u64 \<Rightarrow> string \<Rightarrow> MarketNft \<Rightarrow> u64 \<Rightarrow> MarketReceipt" where
  "buy_receipt nh st tx_hash token_id buyer nft now =
     (let receipt =
        \<lparr>mr_tx_hash = tx_hash, mr_token_id = token_id, mr_buyer = buyer, mr_seller = nft_owner nft,
         mr_price_wei = nft_price_wei nft, mr_chain_id = chain_id st,
         mr_block_number_hint = sat_add (current_height st) 1, mr_timestamp_unix_s = now, mr_signature = []\<rparr> in
      receipt\<lparr>mr_signature := market_receipt_signature nh receipt\<rparr>)"

definition sell_to :: "'db node_host \<Rightarrow> u64 \<Rightarrow> 'db DaemonState \<Rightarrow> u64 \<Rightarrow> string \<Rightarrow> string option \<Rightarrow> MarketNft \<Rightarrow>
    answer \<times> 'db DaemonState" where
  "sell_to nh now st token_id buyer h nft =
     (if \<not> nft_listed nft then (Inl (-32000, ''nft is not listed''), st)
      else if nft_owner nft = buyer then (Inl (-32000, ''buyer already owns this nft''), st)
      else
        let effective = buy_hash nh st h token_id buyer now;
            nft' = nft\<lparr>nft_owner := buyer, nft_listed := False, nft_last_tx_hash := Some effective\<rparr>;
            receipt = buy_receipt nh st effective token_id buyer nft now in
        (Inr (JObject [(''nft'', market_nft_to_json nft'), (''receipt'', market_receipt_to_json receipt)]),
         st\<lparr>market_nfts := hm_insert token_id nft' (market_nfts st),
            market_receipts := hm_insert effective receipt (market_receipts st)\<rparr>))"

definition market_buy :: "'db node_host \<Rightarrow> u64 \<Rightarrow> 'db DaemonState \<Rightarrow> json \<Rightarrow> answer \<times> 'db DaemonState" where
  "market_buy nh now st req =
     (case (token_param req, address_param 1 req) of
        (Some token_id, Some buyer) \<Rightarrow>
          (case check_tx_hash st (hash_param 2 req) buyer ''tx sender does not match buyer''
                  ''unknown tx hash for market buy'' of
             Some err \<Rightarrow> (Inl (-32000, err), st)
           | None \<Rightarrow>
               (case map_of (market_nfts st) token_id of
                  Some nft \<Rightarrow> sell_to nh now st token_id buyer (hash_param 2 req) nft
                | None \<Rightarrow> (Inl (-32000, ''unknown nft token id''), st)))
      | _ \<Rightarrow> (Inl (-32602, ''invalid params: expected [tokenIdHex, buyerAddress, txHash?]''), st))"

definition market_transfer :: "'db DaemonState \<Rightarrow> json \<Rightarrow> answer \<times> 'db DaemonState" where
  "market_transfer st req =
     (case (token_param req, address_param 1 req, address_param 2 req) of
        (Some token_id, Some from_addr, Some to_addr) \<Rightarrow>
          (case check_tx_hash st (hash_param 3 req) from_addr ''tx sender does not match transfer source''
                  ''unknown tx hash for market transfer'' of
             Some err \<Rightarrow> (Inl (-32000, err), st)
           | None \<Rightarrow>
               (case map_of (market_nfts st) token_id of
                  Some nft \<Rightarrow>
                    if nft_owner nft \<noteq> from_addr then (Inl (-32000, ''only current owner can transfer nft''), st)
                    else
                      let nft' = nft\<lparr>nft_owner := to_addr, nft_listed := False,
                                     nft_last_tx_hash := hash_param 3 req\<rparr> in
                      (Inr (market_nft_to_json nft'), st\<lparr>market_nfts := hm_insert token_id nft' (market_nfts st)\<rparr>)
                | None \<Rightarrow> (Inl (-32000, ''unknown nft token id''), st)))
      | _ \<Rightarrow> (Inl (-32602, ''invalid params: expected [tokenIdHex, fromAddress, toAddress, txHash?]''), st))"

definition market_relist :: "'db DaemonState \<Rightarrow> json \<Rightarrow> answer \<times> 'db DaemonState" where
  "market_relist st req =
     (case (token_param req, address_param 1 req, Option.bind (str_param 2 req) parse_hex_u128) of
        (Some token_id, Some owner_addr, Some new_price) \<Rightarrow>
          (case map_of (market_nfts st) token_id of
             Some nft \<Rightarrow>
               if nft_owner nft \<noteq> owner_addr then (Inl (-32000, ''only owner can relist nft''), st)
               else
                 let nft' = nft\<lparr>nft_listed := True, nft_price_wei := new_price\<rparr> in
                 (Inr (market_nft_to_json nft'), st\<lparr>market_nfts := hm_insert token_id nft' (market_nfts st)\<rparr>)
           | None \<Rightarrow> (Inl (-32000, ''unknown nft token id''), st))
      | _ \<Rightarrow> (Inl (-32602, ''invalid params: expected [tokenIdHex, ownerAddress, priceWeiHex]''), st))"

definition market_receipt :: "'db DaemonState \<Rightarrow> json \<Rightarrow> answer" where
  "market_receipt st req =
     (case map_option to_ascii_lowercase (str_param 0 req) of
        Some h \<Rightarrow>
          Inr (case map_of (market_receipts st) h of Some r \<Rightarrow> market_receipt_to_json r | None \<Rightarrow> JNull)
      | None \<Rightarrow> Inl (-32602, ''invalid params: expected [txHash]''))"

definition market_mode :: json where
  "market_mode =
     JObject
       [(''mode'', JString ''devnet-native''),
        (''erc721Ready'', JBool False),
        (''plannedContract'',
          JObject
            [(''name'', JString ''ETH2077Market721''),
             (''symbol'', JString ''E77NFT''),
             (''address'', JNull),
             (''standard'', JString ''ERC-721'')]),
        (''migrationNotes'',
          jstrings
            [''When full EVM lane is enabled, list/mint/buy/relist/transfer flows map to ERC-721 + market contract calls.'',
             ''UI already isolates market RPC calls through marketRpc(), so the backend mode can switch without breaking UX.''])]"

text \<open>The arms of \<open>handle_jsonrpc\<close> for the market place; \<open>None\<close> for any other method.\<close>

definition market_dispatch ::
    "'db node_host \<Rightarrow> u64 \<Rightarrow> 'db DaemonState \<Rightarrow> string \<Rightarrow> json \<Rightarrow> (answer \<times> 'db DaemonState) option" where
  "market_dispatch nh now st meth req =
     (if meth = ''eth2077_marketList'' then Some (Inr (market_nft_list_json nh st), st)
      else if meth = ''eth2077_marketByOwner'' then Some (market_by_owner nh st req, st)
      else if meth = ''eth2077_marketMint'' then Some (market_mint nh now st req)
      else if meth = ''eth2077_marketBuy'' then Some (market_buy nh now st req)
      else if meth = ''eth2077_marketTransfer'' then Some (market_transfer st req)
      else if meth = ''eth2077_marketRelist'' then Some (market_relist st req)
      else if meth = ''eth2077_marketReceipt'' then Some (market_receipt st req, st)
      else if meth = ''eth2077_marketMode'' then Some (Inr market_mode, st)
      else None)"

section \<open>What a method can do\<close>

definition sold :: "string \<Rightarrow> string \<Rightarrow> MarketNft \<Rightarrow> MarketNft" where
  "sold buyer h nft = nft\<lparr>nft_owner := buyer, nft_listed := False, nft_last_tx_hash := Some h\<rparr>"

text \<open>The four changes the methods make, with what holds when they are made.\<close>

inductive market_effect :: "'db node_host \<Rightarrow> 'db DaemonState \<Rightarrow> string \<Rightarrow> json \<Rightarrow> 'db DaemonState \<Rightarrow> bool"
  for nh :: "'db node_host" and st :: "'db DaemonState" where
  nothing: "market_effect nh st meth req st"
| minted: "address_param 0 req = Some owner_addr \<Longrightarrow> market_effect nh st ''eth2077_marketMint'' req
    (snd (market_mint nh now st req))"
| bought: "token_param req = Some token_id \<Longrightarrow> address_param 1 req = Some buyer \<Longrightarrow>
    map_of (market_nfts st) token_id = Some nft \<Longrightarrow> nft_listed nft \<Longrightarrow> nft_owner nft \<noteq> buyer \<Longrightarrow>
    h = buy_hash nh st (hash_param 2 req) token_id buyer now \<Longrightarrow>
    market_effect nh st ''eth2077_marketBuy'' req
      (st\<lparr>market_nfts := hm_insert token_id (sold buyer h nft) (market_nfts st),
          market_receipts := hm_insert h (buy_receipt nh st h token_id buyer nft now) (market_receipts st)\<rparr>)"
| transferred: "token_param req = Some token_id \<Longrightarrow> address_param 1 req = Some (nft_owner nft) \<Longrightarrow>
    address_param 2 req = Some to_addr \<Longrightarrow> map_of (market_nfts st) token_id = Some nft \<Longrightarrow>
    market_effect nh st ''eth2077_marketTransfer'' req
      (st\<lparr>market_nfts := hm_insert token_id
        (nft\<lparr>nft_owner := to_addr, nft_listed := False, nft_last_tx_hash := hash_param 3 req\<rparr>) (market_nfts st)\<rparr>)"
| relisted: "token_param req = Some token_id \<Longrightarrow> address_param 1 req = Some (nft_owner nft) \<Longrightarrow>
    map_of (market_nfts st) token_id = Some nft \<Longrightarrow>
    market_effect nh st ''eth2077_marketRelist'' req
      (st\<lparr>market_nfts := hm_insert token_id (nft\<lparr>nft_listed := True, nft_price_wei := price\<rparr>) (market_nfts st)\<rparr>)"

lemma mint_effect: "market_effect nh st ''eth2077_marketMint'' req (snd (market_mint nh now st req))"
proof (cases "address_param 0 req")
  case None
  then show ?thesis by (simp add: market_mint_def market_effect.nothing)
qed (rule market_effect.minted)

lemma buy_effect:
  assumes "market_buy nh now st req = (answer, st')"
  shows "(case answer of Inl _ \<Rightarrow> st' = st | Inr _ \<Rightarrow>
    \<exists>token_id buyer nft. token_param req = Some token_id \<and> address_param 1 req = Some buyer \<and>
      map_of (market_nfts st) token_id = Some nft \<and> nft_listed nft \<and> nft_owner nft \<noteq> buyer \<and>
      st' = (let h = buy_hash nh st (hash_param 2 req) token_id buyer now in
        st\<lparr>market_nfts := hm_insert token_id (sold buyer h nft) (market_nfts st),
          market_receipts := hm_insert h (buy_receipt nh st h token_id buyer nft now) (market_receipts st)\<rparr>))"
  using assms
  by (auto simp: market_buy_def sell_to_def sold_def Let_def split: option.splits if_splits)

lemma transfer_effect: "market_effect nh st ''eth2077_marketTransfer'' req (snd (market_transfer st req))"
  by (auto simp: market_transfer_def Let_def intro: market_effect.nothing market_effect.transferred
      split: option.split)

lemma relist_effect: "market_effect nh st ''eth2077_marketRelist'' req (snd (market_relist st req))"
  by (auto simp: market_relist_def Let_def intro: market_effect.nothing market_effect.relisted split: option.split)

lemma buy_is_effect: "market_effect nh st ''eth2077_marketBuy'' req (snd (market_buy nh now st req))"
proof (cases "market_buy nh now st req")
  case (Pair answer st')
  with buy_effect [OF Pair] show ?thesis
    by (auto simp: Let_def market_effect.nothing intro: market_effect.bought split: sum.splits)
qed

lemma market_dispatch_effect:
  assumes "market_dispatch nh now st meth req = Some (answer, st')"
  shows "market_effect nh st meth req st'"
  using assms mint_effect [of nh st req now] buy_is_effect [of nh st req now] transfer_effect [of nh st req]
    relist_effect [of nh st req]
  by (auto simp: market_dispatch_def market_effect.nothing split: if_splits)

section \<open>The invariant of the market\<close>

text \<open>
  Tokens and receipts are stored under their own keys, token numbers not yet given are free (until the
  numbers run out), and a receipt names two parties and carries its signature.
\<close>

definition market_ok :: "'db node_host \<Rightarrow> 'db DaemonState \<Rightarrow> bool" where
  "market_ok nh st \<longleftrightarrow>
     (\<forall>k nft. map_of (market_nfts st) k = Some nft \<longrightarrow>
        nft_token_id nft = k \<and> (k < next_market_token_id st \<or> next_market_token_id st = - 1)) \<and>
     (\<forall>h r. map_of (market_receipts st) h = Some r \<longrightarrow>
        mr_tx_hash r = h \<and> mr_buyer r \<noteq> mr_seller r \<and>
        mr_signature r = market_receipt_signature nh (r\<lparr>mr_signature := []\<rparr>))"

lemma market_ok_start: "market_ok nh (start_state nh cfg fig chain_spec now)"
  by (simp add: market_ok_def start_state_def seed_market_nfts_eq market_seed_def seed_nft_def
      word_less_nat_alt)

lemma sat_add_next:
  fixes k n :: u64
  assumes "k < n \<or> n = - 1 \<or> k = n"
  shows "k < sat_add n 1 \<or> sat_add n 1 = - 1"
proof (cases "unat n + 1 < 2 ^ 64 - 1")
  case True
  then have "n \<noteq> - 1" "unat (sat_add n 1) = unat n + 1"
    using unat_minus_one_word_max [where 'a = 64] by (auto simp: sat_simps)
  with assms show ?thesis by (auto simp: word_less_nat_alt)
next
  case False
  then have "unat (sat_add n 1) = unat (- 1 :: u64)" by (simp add: sat_simps unat_minus_one_word_max)
  then have "sat_add n 1 = - 1" by (simp only: unsigned_word_eqI)
  then show ?thesis ..
qed

lemma market_effect_ok:
  assumes "market_effect nh st meth req st'" and "market_ok nh st"
  shows "market_ok nh st'"
  using assms
proof cases
  case (minted owner_addr now)
  then show ?thesis
    using assms(2) sat_add_next [of _ "next_market_token_id st"]
    by (auto simp: market_ok_def market_mint_def mint_nft_def Let_def)
next
  case (bought token_id buyer nft h now)
  then show ?thesis
    using assms(2) by (auto simp: market_ok_def sold_def buy_receipt_def Let_def)
qed (auto simp: market_ok_def)

text \<open>C21.  Only an authorised call changes the owner of a token.  Whatever market method is called: an
  existing token stays; it gets a new owner only when it was listed and the caller buys it, or by a
  transfer whose source is its owner, and it is off the market afterwards; and it comes on the market
  or changes its price only by a relisting in the name of its owner.\<close>

theorem market_ownership:
  assumes "market_dispatch nh now st meth req = Some (answer, st')" and "market_ok nh st"
    and "next_market_token_id st \<noteq> - 1" and "map_of (market_nfts st) k = Some nft"
  shows "\<exists>nft'. map_of (market_nfts st') k = Some nft' \<and>
    (nft_owner nft' \<noteq> nft_owner nft \<longrightarrow>
       \<not> nft_listed nft' \<and> token_param req = Some k \<and>
       (meth = ''eth2077_marketBuy'' \<and> nft_listed nft \<and> address_param 1 req = Some (nft_owner nft') \<or>
        meth = ''eth2077_marketTransfer'' \<and> address_param 1 req = Some (nft_owner nft) \<and>
          address_param 2 req = Some (nft_owner nft'))) \<and>
    (\<not> nft_listed nft \<and> nft_listed nft' \<or> nft_price_wei nft' \<noteq> nft_price_wei nft \<longrightarrow>
       meth = ''eth2077_marketRelist'' \<and> token_param req = Some k \<and> address_param 1 req = Some (nft_owner nft))"
  using market_dispatch_effect [OF assms(1)]
proof cases
  case (minted owner_addr now)
  moreover have "k \<noteq> next_market_token_id st" using assms(2-4) by (auto simp: market_ok_def)
  ultimately show ?thesis using assms(4) by (simp add: market_mint_def Let_def)
next
  case (bought token_id buyer nft0 h now)
  then show ?thesis using assms(4) by (cases "token_id = k") (auto simp: sold_def)
next
  case (transferred token_id nft0 to_addr)
  then show ?thesis using assms(4) by (cases "token_id = k") auto
next
  case (relisted token_id nft0 price)
  then show ?thesis using assms(4) by (cases "token_id = k") auto
qed (use assms(4) in auto)

text \<open>A token is sold once: a purchase that succeeds pays the listed price to the owner of the
  moment, as the receipt says, which is served for its transaction hash; and until the new owner lists it
  again every further purchase of the token fails.\<close>

theorem market_sale:
  assumes "market_buy nh now st req = (Inr res, st')" and "token_param req = Some k"
  shows "\<exists>nft nft' r h. map_of (market_nfts st) k = Some nft \<and> map_of (market_nfts st') k = Some nft' \<and>
    nft_last_tx_hash nft' = Some h \<and> map_of (market_receipts st') h = Some r \<and>
    mr_token_id r = k \<and> mr_seller r = nft_owner nft \<and> mr_price_wei r = nft_price_wei nft \<and>
    mr_buyer r = nft_owner nft' \<and> address_param 1 req = Some (mr_buyer r) \<and>
    (\<forall>now2 req2. token_param req2 = Some k \<longrightarrow>
       (\<exists>err. market_buy nh now2 st' req2 = (Inl err, st')))"
proof -
  from buy_effect [OF assms(1)] assms(2) obtain buyer nft h where
    sale: "address_param 1 req = Some buyer" "map_of (market_nfts st) k = Some nft"
      "st' = st\<lparr>market_nfts := hm_insert k (sold buyer h nft) (market_nfts st),
        market_receipts := hm_insert h (buy_receipt nh st h k buyer nft now) (market_receipts st)\<rparr>"
    by (auto simp: Let_def)
  have again: "\<exists>err. market_buy nh now2 st' req2 = (Inl err, st')" if "token_param req2 = Some k" for now2 req2
    using that by (simp add: market_buy_def sale(3) sell_to_def sold_def split: option.split)
  define nft' r where "nft' = sold buyer h nft" and "r = buy_receipt nh st h k buyer nft now"
  have "map_of (market_nfts st') k = Some nft'" "map_of (market_receipts st') h = Some r"
    by (simp_all add: sale nft'_def r_def)
  moreover have "nft_last_tx_hash nft' = Some h" "mr_token_id r = k" "mr_seller r = nft_owner nft"
    "mr_price_wei r = nft_price_wei nft" "mr_buyer r = nft_owner nft'" "address_param 1 req = Some (mr_buyer r)"
    using sale(1) by (simp_all add: nft'_def r_def sold_def buy_receipt_def Let_def)
  ultimately show ?thesis using sale(2) again by blast
qed

text \<open>
  One transaction pays for any number of tokens: a purchase checks only that the transaction it names was sent
  by the buyer, neither its value nor its recipient nor whether it has paid for something before.
  Since receipts are kept by transaction hash, the second purchase also overwrites the receipt of the
  first.
\<close>

theorem payment_reused:
  assumes "token_param req1 = Some a" "token_param req2 = Some b" and "a \<noteq> b"
    and "address_param 1 req1 = Some buyer" "address_param 1 req2 = Some buyer"
    and "hash_param 2 req1 = Some h" "hash_param 2 req2 = Some h"
    and "map_of (txs st) h = Some tx" "tr_from tx = buyer"
    and "map_of (market_nfts st) a = Some nft1" "nft_listed nft1" "nft_owner nft1 \<noteq> buyer"
    and "map_of (market_nfts st) b = Some nft2" "nft_listed nft2" "nft_owner nft2 \<noteq> buyer"
  shows "\<exists>res1 st1 res2 st2 r. market_buy nh now st req1 = (Inr res1, st1) \<and>
    market_buy nh now st1 req2 = (Inr res2, st2) \<and>
    map_option nft_owner (map_of (market_nfts st2) a) = Some buyer \<and>
    map_option nft_owner (map_of (market_nfts st2) b) = Some buyer \<and>
    map_of (market_receipts st2) h = Some r \<and> mr_token_id r = b"
proof -
  have known: "check_tx_hash st' (Some h) buyer e1 e2 = None" if "txs st' = txs st" for st' :: "'a DaemonState" and e1 e2
    using assms(8,9) that by (simp add: check_tx_hash_def)
  define st1 where "st1 = snd (market_buy nh now st req1)"
  have "\<exists>res1. market_buy nh now st req1 = (Inr res1, st1)"
    and st1: "txs st1 = txs st" "map_of (market_nfts st1) b = Some nft2"
      "map_option nft_owner (map_of (market_nfts st1) a) = Some buyer"
    using assms by (simp_all add: st1_def market_buy_def known sell_to_def buy_hash_def Let_def)
  moreover define st2 where "st2 = snd (market_buy nh now st1 req2)"
  have "\<exists>res2. market_buy nh now st1 req2 = (Inr res2, st2)"
    and "map_option nft_owner (map_of (market_nfts st2) a) = Some buyer"
      "map_option nft_owner (map_of (market_nfts st2) b) = Some buyer"
      "\<exists>r. map_of (market_receipts st2) h = Some r \<and> mr_token_id r = b"
    using assms st1 by (simp_all add: st2_def market_buy_def known sell_to_def buy_hash_def buy_receipt_def Let_def)
  ultimately show ?thesis by blast
qed

section \<open>The index\<close>

text \<open>
  A mint records a transaction, so it is in the next block, but no receipt: none is ever
  served for it.
\<close>

lemma mint_no_receipt: "tx_receipts (snd (market_mint nh now st req)) = tx_receipts st"
  by (simp add: market_mint_def Let_def split: option.split)

lemma market_effect_index:
  assumes "market_effect nh st meth req st'" and "index_ok st"
  shows "index_ok st'"
  using assms
proof cases
  case (minted owner_addr now)
  let ?h = "mint_hash nh st owner_addr now"
  show ?thesis
    unfolding minted(2)
    by (rule index_ok_record [OF assms(2), where h = ?h and tx = "mint_record ?h owner_addr
          (unwrap_or (map_of (nonce_by_address st) owner_addr) 0) (next_market_token_id st)"])
      (simp_all add: market_mint_def minted(3) mint_record_def Let_def)
next
  case bought
  then show ?thesis using assms(2) by (auto simp: same_index_def intro: same_index_ok)
next
  case transferred
  then show ?thesis using assms(2) by (auto simp: same_index_def intro: same_index_ok)
next
  case relisted
  then show ?thesis using assms(2) by (auto simp: same_index_def intro: same_index_ok)
qed simp

lemma market_effect_engine: "market_effect nh st meth req st' \<Longrightarrow> engine_part st' = engine_part st"
  by (erule market_effect.cases) (simp_all add: market_mint_def Let_def NodeState.defs split: option.split)

section \<open>Instances\<close>

definition buy_request :: json where
  "buy_request = JObject [(''params'', JArray [JString ''0x1'', JString (zeros_hex 40)])]"

lemma buy_request_params:
  "token_param buy_request = Some 1" "address_param 1 buy_request = Some (zeros_hex 40)"
  "hash_param 2 buy_request = None"
  by (simp_all add: buy_request_def token_param_def address_param_def hash_param_def str_param_def param_def
      slice_get_def zero_canonical nonempty_def parse_hex_u64_def drop_prefix_def strip_prefix_def
      from_str_radix16_def decode_hex_nibble_def)

lemma merchant_not_zero: "MARKET_MERCHANT_ADDRESS \<noteq> zeros_hex 40"
  by (simp add: MARKET_MERCHANT_ADDRESS_def zeros_hex_def)

lemma fresh_token: "\<exists>nft. map_of (market_nfts fresh_node) 1 = Some nft \<and> nft_listed nft \<and>
    nft_owner nft = MARKET_MERCHANT_ADDRESS"
  by (simp add: fresh_node_def start_state_def seed_market_nfts_eq market_seed_def seed_nft_def)

lemma fresh_buy: "\<exists>res st'. market_buy node 7 fresh_node buy_request = (Inr res, st')"
  using fresh_token merchant_not_zero
  by (auto simp: market_buy_def buy_request_params [unfolded One_nat_def] check_tx_hash_def sell_to_def Let_def)

theorem market_sale_witness:
  "\<exists>res st' nft'. market_buy node 7 fresh_node buy_request = (Inr res, st') \<and>
     map_of (market_nfts st') 1 = Some nft' \<and> nft_owner nft' = zeros_hex 40 \<and>
     (\<exists>err. market_buy node 8 st' buy_request = (Inl err, st'))"
proof -
  obtain res st' where "market_buy node 7 fresh_node buy_request = (Inr res, st')" using fresh_buy by blast
  with market_sale [OF this buy_request_params(1)] buy_request_params show ?thesis by auto
qed

theorem market_ownership_witness:
  "\<exists>answer st' nft'. market_dispatch node 7 fresh_node ''eth2077_marketBuy'' buy_request = Some (answer, st') \<and>
     map_of (market_nfts st') 1 = Some nft'"
proof -
  have ok: "market_ok node fresh_node" and next_id: "next_market_token_id fresh_node \<noteq> - 1"
    using market_ok_start [of node sample_config sample_figures JNull 0]
    by (simp_all add: market_ok_def fresh_node_def start_state_def)
  obtain nft where nft: "map_of (market_nfts fresh_node) 1 = Some nft" using fresh_token by blast
  obtain answer st' where "market_dispatch node 7 fresh_node ''eth2077_marketBuy'' buy_request = Some (answer, st')"
    by (cases "market_buy node 7 fresh_node buy_request") (simp add: market_dispatch_def)
  with market_ownership [OF this ok next_id nft] show ?thesis by blast
qed

end
