(* ===== verification/Node_Rpc.thy ===== *)
theory Node_Rpc
  imports Market
begin

text \<open>
  The JSON-RPC interface of the daemon: the \<open>eth\<close>, \<open>net\<close> and development methods, the status page, the
  dispatch \<open>handle_jsonrpc\<close> over all methods, and \<open>handle_jsonrpc_payload\<close>, which answers single requests
  and batches.  Where a method can panic the result is an option, and \<open>None\<close> is the panic.
  The clock is read up to three times in a call, so a call takes three times.
\<close>

section \<open>Reading methods\<close>

definition tag_param :: "json \<Rightarrow> string" where
  "tag_param req = unwrap_or (str_param 0 req) ''latest''"

definition full_param :: "json \<Rightarrow> bool" where
  "full_param req = unwrap_or (Option.bind (param 1 req) as_bool) False"

definition eth_getBlockByNumber :: "'db DaemonState \<Rightarrow> json \<Rightarrow> json" where
  "eth_getBlockByNumber st req =
     (case block_by_tag st (tag_param req) of
        Some n \<Rightarrow> build_block_response st n (full_param req)
      | None \<Rightarrow> JNull)"

definition eth_getBlockByHash :: "'db DaemonState \<Rightarrow> json \<Rightarrow> json" where
  "eth_getBlockByHash st req =
     (case block_number_from_hash (unwrap_or (str_param 0 req) []) of
        Some n \<Rightarrow> if n \<le> current_height st then build_block_response st n (full_param req) else JNull
      | None \<Rightarrow> JNull)"

text \<open>The filter of \<open>eth_getLogs\<close>.\<close>

fun all_some :: "('a \<Rightarrow> 'b option) \<Rightarrow> 'a list \<Rightarrow> 'b list option" where
  "all_some f [] = Some []"
| "all_some f (x # xs) = do { y \<leftarrow> f x; ys \<leftarrow> all_some f xs; Some (y # ys) }"

fun address_filter_of :: "json \<Rightarrow> string list option" where
  "address_filter_of (JString one) = map_option (\<lambda>a. [a]) (canonical_address one)"
| "address_filter_of (JArray many) = all_some (\<lambda>e. Option.bind (as_str e) canonical_address) many"
| "address_filter_of _ = None"

fun topic_options :: "json \<Rightarrow> string list option" where
  "topic_options JNull = Some []"
| "topic_options (JString one) = Some [to_ascii_lowercase one]"
| "topic_options (JArray any) = all_some (\<lambda>t. map_option to_ascii_lowercase (as_str t)) any"
| "topic_options _ = None"

definition topic_filters_of :: "json option \<Rightarrow> string + string list list" where
  "topic_filters_of v =
     (case v of
        None \<Rightarrow> Inr []
      | Some (JArray arr) \<Rightarrow>
          (case all_some topic_options arr of
             Some parsed \<Rightarrow> Inr parsed
           | None \<Rightarrow> Inl ''invalid topics filter entry'')
      | Some _ \<Rightarrow> Inl ''invalid topics filter'')"

definition topic_matches :: "TxLogRecord \<Rightarrow> nat \<times> string list \<Rightarrow> bool" where
  "topic_matches log = (\<lambda>(idx, options).
     options = [] \<or>
     (case slice_get (tl_topics log) idx of
        None \<Rightarrow> False
      | Some topic \<Rightarrow> to_ascii_lowercase topic \<in> set options))"

definition log_matches :: "string list option \<Rightarrow> string list list \<Rightarrow> TxLogRecord \<Rightarrow> bool" where
  "log_matches addrs topics log \<longleftrightarrow>
     (case addrs of None \<Rightarrow> True | Some as \<Rightarrow> tl_address log \<in> set as) \<and>
     list_all (topic_matches log) (enumerate 0 topics)"

definition block_range :: "u64 \<Rightarrow> u64 \<Rightarrow> u64 list" where
  "block_range a b = map of_nat [unat a..<Suc (unat b)]"

definition logs_of_tx :: "'db DaemonState \<Rightarrow> string \<Rightarrow> TxLogRecord list" where
  "logs_of_tx st h = (case map_of (tx_receipts st) h of None \<Rightarrow> [] | Some r \<Rightarrow> rc_logs r)"

definition logs_of_block :: "'db DaemonState \<Rightarrow> u64 \<Rightarrow> TxLogRecord list" where
  "logs_of_block st n = concat (map (logs_of_tx st) (unwrap_or (map_of (block_txs st) n) []))"

definition log_range :: "'db DaemonState \<Rightarrow> json \<Rightarrow> u64 \<times> u64" where
  "log_range st flt =
     (let tag = \<lambda>k. Option.bind (Option.bind (jget k flt) as_str) (block_by_tag st);
          from_block = unwrap_or (tag ''fromBlock'') 0;
          to_block = unwrap_or (tag ''toBlock'') (current_height st) in
      case Option.bind (Option.bind (jget ''blockHash'' flt) as_str) block_number_from_hash of
        Some n \<Rightarrow> (n, n)
      | None \<Rightarrow> (min from_block to_block, max from_block to_block))"

definition eth_getLogs :: "'db DaemonState \<Rightarrow> json \<Rightarrow> answer" where
  "eth_getLogs st req =
     (case param 0 req of
        Some (JObject entries) \<Rightarrow>
          (let flt = JObject entries;
               addrs = Option.bind (jget ''address'' flt) address_filter_of in
           if jget ''address'' flt \<noteq> None \<and> addrs = None then Inl (-32602, ''invalid address filter'')
           else case topic_filters_of (jget ''topics'' flt) of
             Inl e \<Rightarrow> Inl (-32602, e)
           | Inr topics \<Rightarrow>
               (case log_range st flt of (a, b) \<Rightarrow>
                  Inr (JArray (map tx_log_to_json
                    (filter (log_matches addrs topics) (concat (map (logs_of_block st) (block_range a b))))))))
      | _ \<Rightarrow> Inl (-32602, ''invalid params: expected filter object''))"

definition eth_getTransactionByHash :: "'db DaemonState \<Rightarrow> json \<Rightarrow> json" where
  "eth_getTransactionByHash st req =
     (case Option.bind (map_option to_ascii_lowercase (str_param 0 req)) (map_of (txs st)) of
        Some tx \<Rightarrow> tx_to_json tx (chain_id st)
      | None \<Rightarrow> JNull)"

definition eth_getTransactionReceipt :: "'db DaemonState \<Rightarrow> json \<Rightarrow> json" where
  "eth_getTransactionReceipt st req =
     unwrap_or (Option.bind (Option.bind (map_option to_ascii_lowercase (str_param 0 req)) (map_of (tx_receipts st)))
       tx_receipt_json) JNull"

definition tx_count :: "'db DaemonState \<Rightarrow> u64 option \<Rightarrow> json" where
  "tx_count st n = jhex (unwrap_or (map_option (\<lambda>hs. of_nat (length hs)) (Option.bind n (map_of (block_txs st)))) 0)"

definition eth_getBlockReceipts :: "'db DaemonState \<Rightarrow> json \<Rightarrow> json" where
  "eth_getBlockReceipts st req =
     (let tag = tag_param req;
          number = or_else (block_number_from_hash tag) (block_by_tag st tag) in
      JArray (case Option.bind number (map_of (block_txs st)) of
        Some hs \<Rightarrow> List.map_filter tx_receipt_json (List.map_filter (map_of (tx_receipts st)) hs)
      | None \<Rightarrow> []))"

definition blob_base_fee_per_gas :: "'db node_host \<Rightarrow> u128" where
  "blob_base_fee_per_gas nh = calc_blob_gasprice nh 0"

definition eth_feeHistory :: "'db node_host \<Rightarrow> 'db DaemonState \<Rightarrow> json" where
  "eth_feeHistory nh st =
     JObject
       [(''oldestBlock'', jhex (sat_sub (current_height st) 9)),
        (''baseFeePerGas'', JArray (replicate 11 (JString ''0x3b9aca00''))),
        (''baseFeePerBlobGas'', JArray (replicate 11 (jhex128 (blob_base_fee_per_gas nh)))),
        (''gasUsedRatio'', JArray (replicate 10 (JNumber (Float 0)))),
        (''blobGasUsedRatio'', JArray (replicate 10 (JNumber (Float 0)))),
        (''reward'', JArray [])]"

section \<open>The status page\<close>

definition block_tx_count :: "'db DaemonState \<Rightarrow> u64 \<Rightarrow> u64" where
  "block_tx_count st n = unwrap_or (map_option (\<lambda>hs. of_nat (length hs)) (map_of (block_txs st) n)) 0"

definition window_start :: "'db DaemonState \<Rightarrow> u64" where
  "window_start st = sat_sub (current_height st) (sat_sub 60 1)"

definition window_counts :: "'db DaemonState \<Rightarrow> u64 \<times> u64" where
  "window_counts st =
     fold (\<lambda>n (window_txs, non_empty).
       let k = block_tx_count st n in
       (sat_add window_txs k, if 0 < k then sat_add non_empty 1 else non_empty))
       (block_range (window_start st) (current_height st)) (0, 0)"

definition eth2077_status_json :: "'db node_host \<Rightarrow> 'db DaemonState \<Rightarrow> u64 \<Rightarrow> json" where
  "eth2077_status_json nh st now =
     (let head = current_height st;
          finalized = finalized_height st;
          lag = sat_sub head finalized;
          window_block_count = sat_add (sat_sub head (window_start st)) 1;
          span = max (sat_mul window_block_count 12) 1;
          (window_txs, non_empty) = window_counts st in
      JObject
        [(''schema'', JString ''eth2077/status-v1''),
         (''timestampUnixS'', jnum now),
         (''nodeId'', jnum (of_nat (node_id st))),
         (''nodes'', jnum (of_nat (nodes st))),
         (''chainId'', jhex (chain_id st)),
         (''headBlock'', jhex head),
         (''finalizedBlock'', jhex finalized),
         (''finalityLagBlocks'', jhex lag),
         (''finalityLagMsEstimate'', jnum (sat_mul lag 12000)),
         (''latestBlockTimestamp'', jnum (unwrap_or (map_of (block_timestamps st) head) (started_at_unix_s st))),
         (''uptimeSeconds'', jnum (sat_sub now (started_at_unix_s st))),
         (''peersConnected'', jnum (of_nat (peers_connected st))),
         (''peersTarget'', jnum (of_nat (peers_target st))),
         (''txPoolPending'', jnum (of_nat (length (pending_txs st)))),
         (''knownTransactions'', jnum (of_nat (length (txs st)))),
         (''window'',
           JObject
             [(''startBlock'', jhex (window_start st)),
              (''endBlock'', jhex head),
              (''blockCount'', jnum window_block_count),
              (''spanSeconds'', jnum span),
              (''txs'', jnum window_txs),
              (''nonEmptyBlocks'', jnum non_empty),
              (''avgTpsApprox'', JNumber (Float (f64_quotient nh window_txs span)))]),
         (''latestBlockTxs'', jnum (block_tx_count st head)),
         (''finalizedBlockTxs'', jnum (block_tx_count st finalized)),
         (''capacity'',
           JObject
             [(''ingressTps'', JNumber (Float (ingress_capacity_tps st))),
              (''executionTps'', JNumber (Float (execution_capacity_tps st))),
              (''oobTps'', JNumber (Float (oob_capacity_tps st))),
              (''bridgeReplaySafe'', JBool (bridge_replay_safe st))]),
         (''app'',
           JObject
             [(''marketNfts'', jnum (of_nat (length (market_nfts st)))),
              (''marketReceipts'', jnum (of_nat (length (market_receipts st))))])])"

section \<open>Methods on the accounts\<close>

definition address_arg :: "'db node_host \<Rightarrow> json \<Rightarrow> Address option" where
  "address_arg nh req = Option.bind (str_param 0 req) (address_from_hex (base_host nh))"

definition eth_getBalance :: "'db node_host \<Rightarrow> 'db DaemonState \<Rightarrow> json \<Rightarrow> json \<times> 'db DaemonState" where
  "eth_getBalance nh st req =
     (case address_arg nh req of
        Some addr \<Rightarrow>
          (case account_balance_from_db (base_host nh) (evm_db st) addr of
             (balance, db) \<Rightarrow> (JString (u256_to_hex (base_host nh) balance), st\<lparr>evm_db := db\<rparr>))
      | None \<Rightarrow> (JString (u256_to_hex (base_host nh) 0), st))"

definition eth_getTransactionCount :: "'db node_host \<Rightarrow> 'db DaemonState \<Rightarrow> json \<Rightarrow> json \<times> 'db DaemonState" where
  "eth_getTransactionCount nh st req =
     (let hint = Option.bind (str_param 0 req) canonical_address in
      case address_arg nh req of
        Some addr \<Rightarrow>
          (case account_nonce_from_db (base_host nh) (evm_db st) addr of
             (nonce, db) \<Rightarrow> (jhex nonce, st\<lparr>evm_db := db, pending_nonce_address_hint := hint\<rparr>))
      | None \<Rightarrow> (jhex 0, st\<lparr>pending_nonce_address_hint := hint\<rparr>))"

definition eth_getCode :: "'db node_host \<Rightarrow> 'db DaemonState \<Rightarrow> json \<Rightarrow> json \<times> 'db DaemonState" where
  "eth_getCode nh st req =
     (case address_arg nh req of
        Some addr \<Rightarrow>
          (case code_hex_from_db nh (evm_db st) addr of (code, db) \<Rightarrow> (JString code, st\<lparr>evm_db := db\<rparr>))
      | None \<Rightarrow> (JString ''0x'', st))"

text \<open>\<open>and_then(parse_hex_u256)\<close> on an optional string, where reading the number can panic.\<close>

definition u256_arg :: "'db node_host \<Rightarrow> string option \<Rightarrow> U256 option option" where
  "u256_arg nh s = (case s of None \<Rightarrow> Some None | Some s \<Rightarrow> parse_hex_u256 (base_host nh) s)"

definition eth_getStorageAt :: "'db node_host \<Rightarrow> 'db DaemonState \<Rightarrow> json \<Rightarrow> (json \<times> 'db DaemonState) option" where
  "eth_getStorageAt nh st req =
     do {
       slot \<leftarrow> u256_arg nh (str_param 1 req);
       Some (case address_arg nh req of
         Some addr \<Rightarrow>
           (case storage_hex_from_db nh (evm_db st) addr (unwrap_or slot 0) of
              (out, db) \<Rightarrow> (JString out, st\<lparr>evm_db := db\<rparr>))
       | None \<Rightarrow> (JString (zeros_hex 64), st))
     }"

definition set_balance :: "'db node_host \<Rightarrow> 'db DaemonState \<Rightarrow> json \<Rightarrow> (answer \<times> 'db DaemonState) option" where
  "set_balance nh st req =
     do {
       amount \<leftarrow> u256_arg nh (str_param 1 req);
       Some (case (address_arg nh req, amount) of
         (Some addr, Some wei) \<Rightarrow>
           (Inr (JBool True), st\<lparr>evm_db := set_account_balance_in_db nh (evm_db st) addr wei\<rparr>)
       | _ \<Rightarrow> (Inl (-32602, ''invalid params: expected [address, amountWeiHex]''), st))
     }"

text \<open>The transaction that \<open>eth_call\<close> and \<open>eth_estimateGas\<close> build from a call object.\<close>

definition call_str :: "json \<Rightarrow> string \<Rightarrow> string option" where
  "call_str call k = Option.bind (jget k call) as_str"

definition call_caller :: "'db node_host \<Rightarrow> 'db DaemonState \<Rightarrow> json \<Rightarrow> Address" where
  "call_caller nh st call =
     unwrap_or
       (or_else (Option.bind (call_str call ''from'') (address_from_hex (base_host nh)))
         (Option.bind (pending_nonce_address_hint st) (address_from_hex (base_host nh)))) 0"

definition call_tx :: "'db node_host \<Rightarrow> 'db DaemonState \<Rightarrow> json \<Rightarrow> U256 \<Rightarrow> u64 \<Rightarrow> DecodedRawTx" where
  "call_tx nh st call value nonce =
     \<lparr>dt_tx_type = 2, dt_chain_id = Some (chain_id st), dt_nonce = nonce,
      dt_gas_limit = unwrap_or (Option.bind (call_str call ''gas'') parse_hex_u64) 30000000,
      dt_gas_price = unwrap_or (Option.bind (call_str call ''gasPrice'') parse_hex_u128) 0,
      dt_max_priority_fee_per_gas = Some 0, dt_max_fee_per_blob_gas = None, dt_blob_hashes = [],
      dt_authorizations = [], dt_to = Option.bind (call_str call ''to'') (address_from_hex (base_host nh)),
      dt_value = value,
      dt_data = unwrap_or (Option.bind (Option.bind (jget_any [''data'', ''input''] call) as_str)
        (parse_hex_bytes (base_host nh))) []\<rparr>"

definition run_call :: "'db node_host \<Rightarrow> 'db DaemonState \<Rightarrow> json \<Rightarrow> u64 \<Rightarrow>
    ((string + EvmExecOutcome) \<times> 'db DaemonState) option" where
  "run_call nh st call block_number =
     do {
       value \<leftarrow> u256_arg nh (call_str call ''value'');
       let caller = call_caller nh st call;
           (nonce, db) = account_nonce_from_db (base_host nh) (evm_db st) caller;
           st1 = st\<lparr>evm_db := db\<rparr> in
       Some (execute_evm_transaction nh st1 caller (call_tx nh st1 call (unwrap_or value 0) nonce) False
         block_number (slot_time st1 block_number))
     }"

definition eth_estimateGas :: "'db node_host \<Rightarrow> 'db DaemonState \<Rightarrow> json \<Rightarrow> (answer \<times> 'db DaemonState) option" where
  "eth_estimateGas nh st req =
     (case param 0 req of
        Some (JObject entries) \<Rightarrow>
          do {
            (r, st') \<leftarrow> run_call nh st (JObject entries) (current_height st);
            Some (case r of
              Inr out \<Rightarrow> Inr (jhex (max (eo_gas_used out) 21000))
            | Inl err \<Rightarrow> Inl (-32000, ''estimation failed: '' @ err), st')
          }
      | _ \<Rightarrow> Some (Inl (-32602, ''invalid params: expected call object as first parameter''), st))"

definition eth_call :: "'db node_host \<Rightarrow> 'db DaemonState \<Rightarrow> json \<Rightarrow> (answer \<times> 'db DaemonState) option" where
  "eth_call nh st req =
     (case param 0 req of
        Some (JObject entries) \<Rightarrow>
          do {
            (r, st') \<leftarrow> run_call nh st (JObject entries)
              (unwrap_or (block_by_tag st (unwrap_or (str_param 1 req) ''latest'')) (current_height st));
            Some (case r of
              Inr out \<Rightarrow> Inr (JString (bytes_to_hex (base_host nh) (eo_output out)))
            | Inl err \<Rightarrow> Inl (-32000, ''eth_call failed: '' @ err), st')
          }
      | _ \<Rightarrow> Some (Inl (-32602, ''invalid params: expected call object as first parameter''), st))"

section \<open>Dispatch\<close>

definition rpc_modules :: json where
  "rpc_modules =
     JObject (map (\<lambda>m. (m, JString ''1.0''))
       [''eth'', ''net'', ''web3'', ''debug'', ''trace'', ''eth2077'', ''hardhat'', ''anvil''])"

text \<open>Methods that only read; \<open>None\<close> for any other method.\<close>

definition read_dispatch :: "'db node_host \<Rightarrow> u64 \<Rightarrow> 'db DaemonState \<Rightarrow> string \<Rightarrow> json \<Rightarrow> answer option" where
  "read_dispatch nh now st meth req =
     (if meth = ''web3_clientVersion'' then Some (Inr (JString ''ETH2077/devnetd/0.1''))
      else if meth = ''net_version'' then Some (Inr (JString (decimal (unat (chain_id st)))))
      else if meth = ''net_listening'' then Some (Inr (JBool True))
      else if meth = ''eth_chainId'' then Some (Inr (jhex (chain_id st)))
      else if meth = ''eth_mining'' then Some (Inr (JBool True))
      else if meth = ''eth_syncing'' then Some (Inr (JBool False))
      else if meth = ''eth_blockNumber'' then Some (Inr (jhex (current_height st)))
      else if meth = ''eth_getBlockByNumber'' then Some (Inr (eth_getBlockByNumber st req))
      else if meth = ''eth_getBlockByHash'' then Some (Inr (eth_getBlockByHash st req))
      else if meth = ''eth_getLogs'' then Some (eth_getLogs st req)
      else if meth = ''trace_block'' \<or> meth = ''trace_filter'' \<or> meth = ''eth_accounts'' then Some (Inr (JArray []))
      else if meth = ''trace_transaction'' \<or> meth = ''debug_traceTransaction'' then
        Some (Inr (JObject [(''gas'', JString ''0x0''), (''returnValue'', JString ''0x''), (''structLogs'', JArray [])]))
      else if meth = ''eth_gasPrice'' then Some (Inr (JString ''0x3b9aca00''))
      else if meth = ''eth_maxPriorityFeePerGas'' then Some (Inr (JString ''0x59682f00''))
      else if meth = ''eth_blobBaseFee'' then Some (Inr (jhex128 (blob_base_fee_per_gas nh)))
      else if meth = ''eth_getTransactionByHash'' then Some (Inr (eth_getTransactionByHash st req))
      else if meth = ''eth_getTransactionReceipt'' then Some (Inr (eth_getTransactionReceipt st req))
      else if meth = ''eth_getBlockTransactionCountByNumber'' then
        Some (Inr (tx_count st (block_by_tag st (tag_param req))))
      else if meth = ''eth_getBlockTransactionCountByHash'' then
        Some (Inr (tx_count st (Option.bind (str_param 0 req) block_number_from_hash)))
      else if meth = ''eth_getUncleCountByBlockNumber'' \<or> meth = ''eth_getUncleCountByBlockHash'' then
        Some (Inr (JString ''0x0''))
      else if meth = ''eth_getBlockReceipts'' then Some (Inr (eth_getBlockReceipts st req))
      else if meth = ''net_peerCount'' then Some (Inr (jhex (of_nat (peers_connected st))))
      else if meth = ''txpool_content'' then Some (Inr (JObject [(''pending'', JObject []), (''queued'', JObject [])]))
      else if meth = ''eth_feeHistory'' then Some (Inr (eth_feeHistory nh st))
      else if meth = ''eth2077_status'' then Some (Inr (eth2077_status_json nh st now))
      else if meth = ''rpc_modules'' then Some (Inr rpc_modules)
      else None)"

text \<open>Methods that touch the accounts, by way of the cache of the database if no other.\<close>

definition account_dispatch ::
    "'db node_host \<Rightarrow> 'db DaemonState \<Rightarrow> string \<Rightarrow> json \<Rightarrow> (answer \<times> 'db DaemonState) option option" where
  "account_dispatch nh st meth req =
     (if meth = ''eth_estimateGas'' then Some (eth_estimateGas nh st req)
      else if meth = ''eth_call'' then Some (eth_call nh st req)
      else if meth = ''eth_getBalance'' then Some (Some (apfst Inr (eth_getBalance nh st req)))
      else if meth = ''eth_getTransactionCount'' then Some (Some (apfst Inr (eth_getTransactionCount nh st req)))
      else if meth = ''eth_getCode'' then Some (Some (apfst Inr (eth_getCode nh st req)))
      else if meth = ''eth_getStorageAt'' then Some (map_option (apfst Inr) (eth_getStorageAt nh st req))
      else if meth = ''eth_sendRawTransaction'' then
        Some (send_raw_transaction nh st (unwrap_or (str_param 0 req) ''0x''))
      else if meth = ''hardhat_setBalance'' \<or> meth = ''anvil_setBalance'' \<or> meth = ''eth2077_setBalance'' then
        Some (set_balance nh st req)
      else None)"

text \<open>The engine methods, on their part of the state.\<close>

definition engine_call ::
    "'db node_host \<Rightarrow> u64 \<Rightarrow> u64 \<Rightarrow> 'db DaemonState \<Rightarrow> string \<Rightarrow> json \<Rightarrow> (answer \<times> 'db DaemonState) option option" where
  "engine_call nh now1 now2 st meth req =
     map_option (map_option (\<lambda>(res, e). (Inr res, with_engine e st)))
       (engine_dispatch (base_host nh) now1 now2 (engine_part st) meth req)"

type_synonym clock = "u64 \<times> u64 \<times> u64"

definition rpc_dispatch ::
    "'db node_host \<Rightarrow> clock \<Rightarrow> 'db DaemonState \<Rightarrow> string \<Rightarrow> json \<Rightarrow> (answer \<times> 'db DaemonState) option" where
  "rpc_dispatch nh = (\<lambda>(now, now1, now2) st meth req.
     case read_dispatch nh now st meth req of
       Some answer \<Rightarrow> Some (answer, st)
     | None \<Rightarrow>
         (case account_dispatch nh st meth req of
            Some r \<Rightarrow> r
          | None \<Rightarrow>
              (case engine_call nh now1 now2 st meth req of
                 Some r \<Rightarrow> r
               | None \<Rightarrow>
                   (case market_dispatch nh now st meth req of
                      Some r \<Rightarrow> Some r
                    | None \<Rightarrow> Some (Inl (-32601, ''method not found: '' @ meth), st)))))"

definition request_id :: "json \<Rightarrow> json" where
  "request_id req = unwrap_or (jget ''id'' req) JNull"

text \<open>
  Every arm of the dispatch ends in \<open>jsonrpc_response(&id, ..)\<close> or \<open>jsonrpc_error(&id, ..)\<close> with the identifier of the
  request.  In the model an arm returns the result, or the code and the message, and this call is made once.
\<close>

definition respond :: "json \<Rightarrow> answer \<Rightarrow> json" where
  "respond id_value answer =
     (case answer of
        Inr res \<Rightarrow> jsonrpc_response id_value res
      | Inl (code, msg) \<Rightarrow> jsonrpc_error id_value code msg)"

definition handle_jsonrpc ::
    "'db node_host \<Rightarrow> clock \<Rightarrow> 'db DaemonState \<Rightarrow> json \<Rightarrow> (json \<times> 'db DaemonState) option" where
  "handle_jsonrpc nh clock st req =
     map_option (apfst (respond (request_id req)))
       (rpc_dispatch nh clock st (unwrap_or (Option.bind (jget ''method'' req) as_str) []) req)"

section \<open>Payloads\<close>

definition invalid_request :: json where
  "invalid_request = jsonrpc_error JNull (-32600) ''invalid request''"

definition has_id :: "json \<Rightarrow> bool" where
  "has_id req \<longleftrightarrow> jget ''id'' req \<noteq> None"

text \<open>The loop over a batch; the clock is that of each request.\<close>

fun handle_batch ::
    "'db node_host \<Rightarrow> (nat \<Rightarrow> clock) \<Rightarrow> nat \<Rightarrow> 'db DaemonState \<Rightarrow> json list \<Rightarrow> (json list \<times> 'db DaemonState) option" where
  "handle_batch nh clocks i st [] = Some ([], st)"
| "handle_batch nh clocks i st (req # reqs) =
     (if \<not> is_object req then
        map_option (apfst (Cons invalid_request)) (handle_batch nh clocks (Suc i) st reqs)
      else
        do {
          (resp, st') \<leftarrow> handle_jsonrpc nh (clocks i) st req;
          map_option (apfst (\<lambda>rs. if has_id req then resp # rs else rs)) (handle_batch nh clocks (Suc i) st' reqs)
        })"

definition handle_jsonrpc_payload ::
    "'db node_host \<Rightarrow> (nat \<Rightarrow> clock) \<Rightarrow> 'db DaemonState \<Rightarrow> json \<Rightarrow> (json option \<times> 'db DaemonState) option" where
  "handle_jsonrpc_payload nh clocks st payload =
     (case payload of
        JArray batch \<Rightarrow>
          if batch = [] then Some (Some invalid_request, st)
          else map_option (apfst (\<lambda>rs. if rs = [] then None else Some (JArray rs)))
            (handle_batch nh clocks 0 st batch)
      | JObject _ \<Rightarrow>
          map_option (apfst (\<lambda>resp. if has_id payload then Some resp else None))
            (handle_jsonrpc nh (clocks 0) st payload)
      | _ \<Rightarrow> Some (Some invalid_request, st))"

section \<open>Batches\<close>

text \<open>The requests of a batch that are answered.\<close>

definition answered :: "json \<Rightarrow> bool" where
  "answered req \<longleftrightarrow> \<not> is_object req \<or> has_id req"

text \<open>
  What happens to an entry of a batch: a request is handled in the state left by the entries before it, and
  anything else is refused and changes nothing.
\<close>

definition batch_entry ::
    "'db node_host \<Rightarrow> clock \<Rightarrow> 'db DaemonState \<Rightarrow> json \<Rightarrow> json \<Rightarrow> 'db DaemonState \<Rightarrow> bool" where
  "batch_entry nh clock st req resp st' \<longleftrightarrow>
     (if is_object req
      then handle_jsonrpc nh clock st req = Some (resp, st') \<and> jget ''id'' resp = Some (request_id req)
      else resp = jsonrpc_error JNull (-32600) ''invalid request'' \<and> st' = st)"

lemma response_id: "handle_jsonrpc nh clock st req = Some (resp, st') \<Longrightarrow> jget ''id'' resp = Some (request_id req)"
  by (auto simp: handle_jsonrpc_def respond_def jsonrpc_response_def jsonrpc_error_def split: sum.split)

definition batch_trace ::
    "'db node_host \<Rightarrow> (nat \<Rightarrow> clock) \<Rightarrow> nat \<Rightarrow> 'db DaemonState list \<Rightarrow> json list \<Rightarrow> json list \<Rightarrow> bool" where
  "batch_trace nh clocks k sts reqs resps \<longleftrightarrow>
     length sts = Suc (length reqs) \<and> length resps = length reqs \<and>
     (\<forall>i < length reqs. batch_entry nh (clocks (k + i)) (sts ! i) (reqs ! i) (resps ! i) (sts ! Suc i))"

lemma batch_trace_Cons:
  assumes "batch_entry nh (clocks k) st req resp (sts ! 0)" and "batch_trace nh clocks (Suc k) sts reqs resps"
  shows "batch_trace nh clocks k (st # sts) (req # reqs) (resp # resps)"
  using assms by (auto simp: batch_trace_def less_Suc_eq_0_disj)

definition sent :: "json list \<Rightarrow> json list \<Rightarrow> json list" where
  "sent reqs resps = map snd (filter (\<lambda>(req, _). answered req) (zip reqs resps))"

lemma handle_batch_trace:
  assumes "handle_batch nh clocks k st reqs = Some (rs, st')"
  shows "\<exists>sts resps. batch_trace nh clocks k sts reqs resps \<and> sts ! 0 = st \<and> sts ! length reqs = st' \<and>
    rs = sent reqs resps"
  using assms
proof (induction nh clocks k st reqs arbitrary: rs st' rule: handle_batch.induct)
  case (1 nh clocks k st)
  then show ?case by (intro exI [of _ "[st]"] exI [of _ "[]"]) (simp add: batch_trace_def sent_def)
next
  case (2 nh clocks k st req reqs)
  obtain resp st1 rs1 where entry: "batch_entry nh (clocks k) st req resp st1"
    and rs: "rs = (if answered req then resp # rs1 else rs1)"
    and "\<exists>sts resps. batch_trace nh clocks (Suc k) sts reqs resps \<and> sts ! 0 = st1 \<and> sts ! length reqs = st' \<and>
      rs1 = sent reqs resps"
  proof (cases "is_object req")
    case True
    with 2(3) obtain resp st1 rs1 where first: "handle_jsonrpc nh (clocks k) st req = Some (resp, st1)"
      and rest: "handle_batch nh clocks (Suc k) st1 reqs = Some (rs1, st')"
      and "rs = (if has_id req then resp # rs1 else rs1)"
      by (auto simp: bind_eq_Some_conv)
    with that [of resp st1 rs1] 2(2) [OF _ first refl rest] True response_id [OF first] show ?thesis
      by (simp add: batch_entry_def answered_def)
  next
    case False
    with 2(3) obtain rs1 where rest: "handle_batch nh clocks (Suc k) st reqs = Some (rs1, st')"
      and "rs = invalid_request # rs1" by auto
    with that [of invalid_request st rs1] 2(1) [OF False rest] False show ?thesis
      by (simp add: batch_entry_def answered_def invalid_request_def)
  qed
  then obtain sts resps where "batch_trace nh clocks (Suc k) sts reqs resps" "sts ! 0 = st1"
    "sts ! length reqs = st'" "rs1 = sent reqs resps" by blast
  with entry rs batch_trace_Cons [of nh clocks k st req resp sts reqs resps] show ?case
    by (intro exI [of _ "st # sts"] exI [of _ "resp # resps"]) (simp add: sent_def)
qed

text \<open>C22.  A batch whose calls return is handled entry by entry and in order.  Each request is handled in the state
  the entries before it left, and its response is what \<open>handle_jsonrpc\<close> returns there and carries its
  identifier; each entry that is no request gets the error \<open>-32600\<close> with a null identifier and changes nothing.
  What is sent are the responses to the requests that have an identifier and to the entries that are no
  request, in the order of the batch, and none for a notification.  An empty batch is that error alone, and a
  batch of notifications gets no response at all.\<close>

theorem batch_responses:
  assumes "handle_jsonrpc_payload nh clocks st (JArray batch) = Some (response, st')"
  shows "\<exists>sts resps. length sts = Suc (length batch) \<and> sts ! 0 = st \<and> sts ! length batch = st' \<and>
    length resps = length batch \<and>
    (\<forall>i < length batch.
       if is_object (batch ! i)
       then handle_jsonrpc nh (clocks i) (sts ! i) (batch ! i) = Some (resps ! i, sts ! Suc i) \<and>
         jget ''id'' (resps ! i) = Some (request_id (batch ! i))
       else resps ! i = jsonrpc_error JNull (-32600) ''invalid request'' \<and> sts ! Suc i = sts ! i) \<and>
    response =
      (let answers = map snd (filter (\<lambda>(req, _). \<not> is_object req \<or> has_id req) (zip batch resps)) in
       if batch = [] then Some (jsonrpc_error JNull (-32600) ''invalid request'')
       else if answers = [] then None else Some (JArray answers))"
proof (cases "batch = []")
  case True
  with assms show ?thesis
    by (intro exI [of _ "[st]"] exI [of _ "[]"]) (simp add: handle_jsonrpc_payload_def invalid_request_def)
next
  case False
  with assms obtain rs where batch: "handle_batch nh clocks 0 st batch = Some (rs, st')"
    and response: "response = (if rs = [] then None else Some (JArray rs))"
    by (auto simp: handle_jsonrpc_payload_def)
  from handle_batch_trace [OF batch] obtain sts resps where trace: "batch_trace nh clocks 0 sts batch resps"
    and ends: "sts ! 0 = st" "sts ! length batch = st'" and rs: "rs = sent batch resps" by blast
  with response False show ?thesis
    by (intro exI [of _ sts] exI [of _ resps])
      (simp add: batch_trace_def batch_entry_def sent_def answered_def Let_def)
qed

section \<open>Blocks by number and by hash\<close>

lemma parse_rpc_hex: "parse_hex_u64 (rpc_hex_u64 n) = Some n"
  by (simp add: parse_hex_u64_def rpc_hex_u64_def drop_prefix_def strip_prefix_def from_str_radix16_digits)

lemma block_by_hex: "block_by_tag st (rpc_hex_u64 n) = Some n"
  using parse_rpc_hex [of n] by (simp add: block_by_tag_def) (simp add: rpc_hex_u64_def)

text \<open>A block that exists is served alike by number and by its hash.  Above the head the two
  differ: by hash there is no such block, while by number an empty block is made up, with a
  hash, for every number there is.\<close>

theorem block_lookup:
  assumes "str_param 0 req1 = Some (rpc_hex_u64 n)" and "str_param 0 req2 = Some (block_hash n)"
    and "full_param req1 = full_param req2" and "n < - 1"
  shows "if n \<le> current_height st
    then eth_getBlockByNumber st req1 = eth_getBlockByHash st req2
    else eth_getBlockByHash st req2 = JNull \<and>
      jget ''hash'' (eth_getBlockByNumber st req1) = Some (JString (block_hash n))"
proof -
  have "eth_getBlockByNumber st req1 = build_block_response st n (full_param req2)"
    by (simp add: eth_getBlockByNumber_def tag_param_def assms(1,3) block_by_hex)
  moreover have "eth_getBlockByHash st req2 =
      (if n \<le> current_height st then build_block_response st n (full_param req2) else JNull)"
    by (simp add: eth_getBlockByHash_def assms(2) block_number_of_hash [OF assms(4)])
  moreover have "jget ''hash'' (build_block_response st n f) = Some (JString (block_hash n))" for f
    by (simp add: build_block_response_def empty_block_template_def Let_def)
  ultimately show ?thesis by simp
qed

text \<open>A call that fails empties the database too, though it is meant to read only.\<close>

theorem failed_call_empties_database:
  assumes "run_call nh st call n = Some (Inl e, st')"
  shows "evm_db st' = db_default nh"
  using assms by (auto simp: run_call_def bind_eq_Some_conv Let_def case_prod_unfold dest: execute_error)

section \<open>Instances\<close>

definition ping :: "(string \<times> json) list \<Rightarrow> json" where
  "ping fs = JObject ((''method'', JString ''eth_mining'') # fs)"

lemma ping_handled:
  "jget ''method'' (ping fs) = Some (JString ''eth_mining'')"
  "handle_jsonrpc nh clock st (ping fs) = Some (respond (request_id (ping fs)) (Inr (JBool True)), st)"
  by (simp_all add: handle_jsonrpc_def rpc_dispatch_def read_dispatch_def ping_def case_prod_unfold)

theorem batch_responses_witness:
  "\<exists>r. handle_jsonrpc_payload node (\<lambda>_. (0, 0, 0)) fresh_node
      (JArray [ping [(''id'', jnum 7)], ping [], JNull]) =
        Some (Some (JArray [r, jsonrpc_error JNull (-32600) ''invalid request'']), fresh_node) \<and>
     jget ''id'' r = Some (jnum 7)"
proof -
  let ?batch = "[ping [(''id'', jnum 7)], ping [], JNull]"
  have objects: "is_object (ping fs)" for fs by (simp add: ping_def)
  have ids: "has_id (ping [(''id'', jnum 7)])" "\<not> has_id (ping [])" by (simp_all add: has_id_def ping_def)
  obtain response where run: "handle_jsonrpc_payload node (\<lambda>_. (0, 0, 0)) fresh_node (JArray ?batch) =
      Some (response, fresh_node)"
    by (simp add: handle_jsonrpc_payload_def ping_handled objects ids)
  from batch_responses [OF run] obtain sts resps where "length resps = length ?batch"
    and entries: "\<forall>i < length ?batch. if is_object (?batch ! i)
      then handle_jsonrpc node (0, 0, 0) (sts ! i) (?batch ! i) = Some (resps ! i, sts ! Suc i) \<and>
        jget ''id'' (resps ! i) = Some (request_id (?batch ! i))
      else resps ! i = jsonrpc_error JNull (-32600) ''invalid request'' \<and> sts ! Suc i = sts ! i"
    and response: "response =
      (let answers = map snd (filter (\<lambda>(req, _). \<not> is_object req \<or> has_id req) (zip ?batch resps)) in
       if ?batch = [] then Some (jsonrpc_error JNull (-32600) ''invalid request'')
       else if answers = [] then None else Some (JArray answers))"
    by blast
  then obtain a b c where resps: "resps = [a, b, c]" by (auto simp: length_Suc_conv)
  have "jget ''id'' a = Some (jnum 7)" "c = jsonrpc_error JNull (-32600) ''invalid request''"
    using entries [rule_format, of 0] entries [rule_format, of 2]
    by (simp_all add: resps objects) (simp add: request_id_def ping_def)
  moreover have "response = Some (JArray [a, c])" using response by (simp add: resps objects ids)
  ultimately show ?thesis using run by blast
qed

definition lookup_request :: "string \<Rightarrow> json" where
  "lookup_request s = JObject [(''params'', JArray [JString s])]"

theorem block_lookup_witness:
  "eth_getBlockByHash fresh_node (lookup_request (block_hash 5)) = JNull \<and>
   jget ''hash'' (eth_getBlockByNumber fresh_node (lookup_request (rpc_hex_u64 5))) = Some (JString (block_hash 5))"
proof -
  have "str_param 0 (lookup_request s) = Some s" "full_param (lookup_request s) = False" for s
    by (simp_all add: lookup_request_def str_param_def full_param_def param_def slice_get_def)
  then show ?thesis
    using block_lookup [of "lookup_request (rpc_hex_u64 5)" 5 "lookup_request (block_hash 5)" fresh_node]
    by (simp add: word_less_nat_alt word_le_nat_alt unat_minus_one_word_max)
qed

end
