(* ===== verification/Http_Server.thy ===== *)
theory Http_Server
  imports Node_Rpc "HOL-Library.Sublist"
begin

text \<open>
  The HTTP side of the daemon: \<open>find_subslice\<close>, \<open>request_body_from_http\<close> and the accept loop of \<open>main\<close>,
  which reads a request from however many reads it takes and routes it; and the daemon as a whole,
  whose steps are served connections and ticks of the block timer.  \<open>usize\<close> arithmetic wraps as in a
  release build; where it wraps here, a debug build panics.
\<close>

section \<open>Text\<close>

text \<open>
  \<open>String::from_utf8_lossy\<close>: what the first sequence of the input becomes, and how many bytes it takes.
  An ill-formed sequence becomes the replacement character, up to where it went wrong.
\<close>

definition is_cont :: "u8 \<Rightarrow> bool" where
  "is_cont b \<longleftrightarrow> 0x80 \<le> b \<and> b \<le> 0xbf"

definition replacement :: bytes where
  "replacement = [0xef, 0xbf, 0xbd]"

text \<open>The number of bytes a lead byte announces and the range of the byte after it.\<close>

definition utf8_lead :: "u8 \<Rightarrow> (nat \<times> u8 \<times> u8) option" where
  "utf8_lead b =
     (if 0xc2 \<le> b \<and> b \<le> 0xdf then Some (2, 0x80, 0xbf)
      else if b = 0xe0 then Some (3, 0xa0, 0xbf)
      else if b = 0xed then Some (3, 0x80, 0x9f)
      else if 0xe1 \<le> b \<and> b \<le> 0xef then Some (3, 0x80, 0xbf)
      else if b = 0xf0 then Some (4, 0x90, 0xbf)
      else if 0xf1 \<le> b \<and> b \<le> 0xf3 then Some (4, 0x80, 0xbf)
      else if b = 0xf4 then Some (4, 0x80, 0x8f)
      else None)"

definition utf8_step :: "u8 \<Rightarrow> bytes \<Rightarrow> bytes \<times> nat" where
  "utf8_step b bs =
     (if b < 0x80 then ([b], 1)
      else case utf8_lead b of
        None \<Rightarrow> (replacement, 1)
      | Some (w, lo, hi) \<Rightarrow>
          (case bs of
             c # cs \<Rightarrow>
               if lo \<le> c \<and> c \<le> hi then
                 (let good = takeWhile is_cont (take (w - 2) cs) in
                  if length good = w - 2 then (b # c # good, w) else (replacement, 2 + length good))
               else (replacement, 1)
           | [] \<Rightarrow> (replacement, 1)))"

function utf8_lossy :: "bytes \<Rightarrow> bytes" where
  "utf8_lossy [] = []"
| "utf8_lossy (b # bs) =
     (let (out, n) = utf8_step b bs in out @ utf8_lossy (drop (n - 1) bs))"
  by pat_completeness auto

termination utf8_lossy
  by (relation "measure length") auto

definition text_of :: "bytes \<Rightarrow> string" where
  "text_of bs = map (\<lambda>b. char_of (unat b)) (utf8_lossy bs)"

text \<open>\<open>str::lines\<close>: lines end in a line feed, and a carriage return before it is dropped.\<close>

definition strip_cr :: "string \<Rightarrow> string" where
  "strip_cr s = (if s \<noteq> [] \<and> last s = CHR 0x0D then butlast s else s)"

function text_lines :: "string \<Rightarrow> string list" where
  "text_lines s =
     (if s = [] then []
      else
        let line = takeWhile (\<lambda>c. c \<noteq> CHR 0x0A) s;
            rest = dropWhile (\<lambda>c. c \<noteq> CHR 0x0A) s in
        if rest = [] then [line] else strip_cr line # text_lines (tl rest))"
  by pat_completeness auto

lemma dropWhile_shorter: "s \<noteq> [] \<Longrightarrow> length (dropWhile P s) - Suc 0 < length s"
  using length_dropWhile_le [of P s] by (cases s) auto

termination text_lines
  by (relation "measure length") (simp_all add: dropWhile_shorter)

declare text_lines.simps [simp del]

section \<open>Reading a request\<close>

definition find_subslice :: "bytes \<Rightarrow> bytes \<Rightarrow> nat option" where
  "find_subslice haystack needle =
     (if needle = [] \<or> length haystack < length needle then None
      else find (\<lambda>i. take (length needle) (drop i haystack) = needle) [0..<Suc (length haystack - length needle)])"

definition header_mark :: bytes where
  "header_mark = [13, 10, 13, 10]"

text \<open>\<open>line.split_once(':')\<close>, trimmed and parsed.\<close>

definition length_value :: "string \<Rightarrow> u64 option" where
  "length_value line =
     (case dropWhile (\<lambda>c. c \<noteq> CHR '':'') line of
        [] \<Rightarrow> None
      | _ # rhs \<Rightarrow> parse_unsigned (trim rhs))"

fun find_length :: "string list \<Rightarrow> u64 option" where
  "find_length [] = None"
| "find_length (line # lines) =
     (if strip_prefix ''content-length:'' (to_ascii_lowercase line) \<noteq> None then length_value line
      else find_length lines)"

definition content_length_of :: "bytes \<Rightarrow> u64 option" where
  "content_length_of header = find_length (text_lines (text_of header))"

text \<open>
  The state of the read loop: the bytes read, the end of the header and the content length once known.
\<close>

type_synonym partial = "bytes \<times> nat option \<times> u64 option"

definition absorb :: "partial \<Rightarrow> bytes \<Rightarrow> partial" where
  "absorb = (\<lambda>(req, hdr, len) chunk.
     let req' = req @ chunk in
     case hdr of
       Some _ \<Rightarrow> (req', hdr, len)
     | None \<Rightarrow>
         (case find_subslice req' header_mark of
            None \<Rightarrow> (req', None, len)
          | Some i \<Rightarrow> (req', Some (i + 4), content_length_of (take (i + 4) req'))))"

definition expected_end :: "nat \<Rightarrow> u64 option \<Rightarrow> nat" where
  "expected_end h_end len = unat (of_nat h_end + unwrap_or len 0 :: u64)"

definition read_done :: "partial \<Rightarrow> bool" where
  "read_done = (\<lambda>(req, hdr, len).
     (case hdr of Some h_end \<Rightarrow> expected_end h_end len \<le> length req | None \<Rightarrow> False) \<or>
     2 * 1024 * 1024 < length req)"

text \<open>
  The loop over what the reads of a connection return.  A read of no bytes is the end of the stream or an
  error, and ends the loop.  \<open>None\<close>: all these reads have returned and the loop waits for the next one,
  which on an open connection need never come.
\<close>

fun read_loop :: "partial \<Rightarrow> bytes list \<Rightarrow> partial option" where
  "read_loop p [] = None"
| "read_loop p (chunk # chunks) =
     (if chunk = [] then Some p
      else let p' = absorb p chunk in if read_done p' then Some p' else read_loop p' chunks)"

definition read_request :: "bytes list \<Rightarrow> partial option" where
  "read_request chunks = read_loop ([], None, None) chunks"

text \<open>\<open>None\<close> is the panic of a slice whose start is after its end.\<close>

definition request_body_from_http :: "bytes \<Rightarrow> nat option \<Rightarrow> u64 option \<Rightarrow> bytes option" where
  "request_body_from_http req_bytes header_end len =
     (case header_end of
        None \<Rightarrow> Some []
      | Some h_end \<Rightarrow>
          let body_end = expected_end h_end len in
          if body_end \<le> length req_bytes then
            (if body_end < h_end then None else Some (take (body_end - h_end) (drop h_end req_bytes)))
          else if h_end \<le> length req_bytes then Some (drop h_end req_bytes)
          else Some [])"

section \<open>Routing\<close>

definition crlf :: string where
  "crlf = [CHR 0x0D, CHR 0x0A]"

definition cors_headers :: string where
  "cors_headers =
     ''Access-Control-Allow-Origin: *'' @ crlf @
     ''Access-Control-Allow-Methods: GET, POST, OPTIONS'' @ crlf @
     ''Access-Control-Allow-Headers: Content-Type'' @ crlf @ crlf"

definition no_content :: string where
  "no_content =
     ''HTTP/1.1 204 No Content'' @ crlf @ ''Connection: close'' @ crlf @ ''Content-Length: 0'' @ crlf @ cors_headers"

text \<open>\<open>expect\<close> panics when the body cannot be serialised.\<close>

definition json_response :: "'db node_host \<Rightarrow> string \<Rightarrow> json \<Rightarrow> string option" where
  "json_response nh status body =
     map_option (\<lambda>payload.
       ''HTTP/1.1 '' @ status @ crlf @ ''Content-Type: application/json'' @ crlf @
       ''Content-Length: '' @ decimal (length payload) @ crlf @ ''Connection: close'' @ crlf @ cors_headers @ payload)
       (json_to_string nh body)"

text \<open>The fields of the state that are serialised.\<close>

definition state_json :: "'db DaemonState \<Rightarrow> json" where
  "state_json st =
     JObject
       [(''node_id'', jnum (of_nat (node_id st))),
        (''nodes'', jnum (of_nat (nodes st))),
        (''rpc_port'', jnum (ucast (rpc_port st))),
        (''p2p_port'', jnum (ucast (p2p_port st))),
        (''chain_id'', jnum (chain_id st)),
        (''network'', JString (network st)),
        (''started_at_unix_s'', jnum (started_at_unix_s st)),
        (''current_height'', jnum (current_height st)),
        (''finalized_height'', jnum (finalized_height st)),
        (''peers_target'', jnum (of_nat (peers_target st))),
        (''peers_connected'', jnum (of_nat (peers_connected st))),
        (''ingress_capacity_tps'', JNumber (Float (ingress_capacity_tps st))),
        (''execution_capacity_tps'', JNumber (Float (execution_capacity_tps st))),
        (''oob_capacity_tps'', JNumber (Float (oob_capacity_tps st))),
        (''bridge_replay_safe'', JBool (bridge_replay_safe st))]"

definition engine_routes :: "string list" where
  "engine_routes =
     [''getInclusionListV1'', ''newPayloadV3'', ''forkchoiceUpdatedV3'', ''registerExecutionPayloadHeaderV1'',
      ''registerExecutionPayloadEnvelopeV1'', ''getPayloadTimelinessV1'', ''getPayloadTimelinessByRangeV1'',
      ''getPayloadPenaltyV1'', ''getPayloadPenaltiesByRangeV1'', ''getExecutionPayloadHeaderV1'',
      ''getExecutionPayloadHeadersBySlotV1'', ''getExecutionPayloadHeadersByRangeV1'',
      ''getExecutionPayloadEnvelopeV1'', ''getExecutionPayloadEnvelopesBySlotV1'',
      ''getExecutionPayloadEnvelopesByRangeV1'']"

definition capabilities :: json where
  "capabilities =
     JObject [(''capabilities'', jstrings (map (\<lambda>m. ''engine_'' @ m)
       [''newPayloadV3'', ''forkchoiceUpdatedV3'', ''getPayloadV3'', ''getInclusionListV1'',
        ''registerExecutionPayloadHeaderV1'', ''registerExecutionPayloadEnvelopeV1'',
        ''getPayloadTimelinessV1'', ''getPayloadTimelinessByRangeV1'', ''getPayloadPenaltyV1'',
        ''getPayloadPenaltiesByRangeV1'', ''getExecutionPayloadHeaderV1'',
        ''getExecutionPayloadHeadersBySlotV1'', ''getExecutionPayloadHeadersByRangeV1'',
        ''getExecutionPayloadEnvelopeV1'', ''getExecutionPayloadEnvelopesBySlotV1'',
        ''getExecutionPayloadEnvelopesByRangeV1'']))]"

definition starts_with :: "string \<Rightarrow> string \<Rightarrow> bool" where
  "starts_with p s \<longleftrightarrow> take (length p) s = p"

definition engine_route :: "string \<Rightarrow> string option" where
  "engine_route line = find (\<lambda>m. starts_with (''POST /engine/v1/'' @ m @ '' '') line) engine_routes"

text \<open>A POST to the root: a JSON-RPC request or batch.\<close>

definition serve_rpc ::
    "'db node_host \<Rightarrow> (nat \<Rightarrow> clock) \<Rightarrow> 'db DaemonState \<Rightarrow> string \<Rightarrow> (string \<times> 'db DaemonState) option" where
  "serve_rpc nh clocks st body =
     (case json_from_str nh body of
        None \<Rightarrow>
          map_option (\<lambda>s. (s, st)) (json_response nh ''200 OK'' (jsonrpc_error JNull (-32700) ''parse error''))
      | Some req \<Rightarrow>
          if is_object req \<or> as_array req \<noteq> None then
            do {
              (response, st') \<leftarrow> handle_jsonrpc_payload nh clocks st req;
              case response of
                Some resp \<Rightarrow> map_option (\<lambda>s. (s, st')) (json_response nh ''200 OK'' resp)
              | None \<Rightarrow> Some (no_content, st')
            }
          else map_option (\<lambda>s. (s, st)) (json_response nh ''200 OK'' invalid_request))"

text \<open>A POST to an engine path: the method is called without the envelope of JSON-RPC.\<close>

definition serve_engine ::
    "'db node_host \<Rightarrow> clock \<Rightarrow> 'db DaemonState \<Rightarrow> string \<Rightarrow> string \<Rightarrow> (string \<times> 'db DaemonState) option" where
  "serve_engine nh = (\<lambda>(_, now1, now2) st meth body.
     do {
       (res, e) \<leftarrow> the (engine_dispatch (base_host nh) now1 now2 (engine_part st) (''engine_'' @ meth)
         (unwrap_or (json_from_str nh body) JNull));
       map_option (\<lambda>s. (s, with_engine e st)) (json_response nh ''200 OK'' res)
     })"

text \<open>What is answered to the bytes read; \<open>None\<close> is a panic.\<close>

definition route ::
    "'db node_host \<Rightarrow> (nat \<Rightarrow> clock) \<Rightarrow> 'db DaemonState \<Rightarrow> partial \<Rightarrow> (string \<times> 'db DaemonState) option" where
  "route nh clocks st request =
     (case request of (req_bytes, header_end, len) \<Rightarrow>
        let line = (case text_lines (text_of req_bytes) of [] \<Rightarrow> [] | l # _ \<Rightarrow> l);
            with_body = (\<lambda>f. Option.bind (request_body_from_http req_bytes header_end len) (\<lambda>body. f (text_of body)));
            fixed = (\<lambda>status body. map_option (\<lambda>s. (s, st)) (json_response nh status body)) in
        if starts_with ''OPTIONS / '' line then Some (no_content, st)
        else if starts_with ''GET /healthz '' line then fixed ''200 OK'' (JObject [(''ok'', JBool True)])
        else if starts_with ''GET /status '' line then fixed ''200 OK'' (state_json st)
        else if starts_with ''POST / '' line then with_body (serve_rpc nh clocks st)
        else if starts_with ''GET /engine/v1/capabilities '' line then fixed ''200 OK'' capabilities
        else case engine_route line of
          Some meth \<Rightarrow> with_body (serve_engine nh (clocks 0) st meth)
        | None \<Rightarrow> fixed ''404 Not Found'' (JObject [(''error'', JString ''not found''), (''path'', JString line)]))"

text \<open>
  One connection of the accept loop, given by what its reads return: it still waits for a read, it panics,
  or it is answered.
\<close>

datatype 'a served = Waiting | Crashed | Answered 'a

definition serve ::
    "'db node_host \<Rightarrow> (nat \<Rightarrow> clock) \<Rightarrow> 'db DaemonState \<Rightarrow> bytes list \<Rightarrow> (string \<times> 'db DaemonState) served" where
  "serve nh clocks st chunks =
     (case read_request chunks of
        None \<Rightarrow> Waiting
      | Some request \<Rightarrow>
          (case route nh clocks st request of None \<Rightarrow> Crashed | Some answer \<Rightarrow> Answered answer))"

section \<open>Fragmentation\<close>

lemma find_subslice_Some:
  assumes "needle \<noteq> []"
  shows "find_subslice hay needle = Some i \<longleftrightarrow>
    i + length needle \<le> length hay \<and> take (length needle) (drop i hay) = needle \<and>
    (\<forall>j < i. take (length needle) (drop j hay) \<noteq> needle)"
proof (cases "length hay < length needle")
  case True
  then show ?thesis by (simp add: find_subslice_def)
next
  case False
  have "find P [0..<n] = Some i \<longleftrightarrow> i < n \<and> P i \<and> (\<forall>j < i. \<not> P j)" for P n
    by (auto simp: find_Some_iff)
  with False assms show ?thesis by (auto simp: find_subslice_def less_Suc_eq_le simp del: upt_Suc)
qed

lemma find_subslice_append:
  assumes "needle \<noteq> []" and "find_subslice hay needle = Some i"
  shows "find_subslice (hay @ rest) needle = Some i"
proof -
  from assms have i: "i + length needle \<le> length hay" "take (length needle) (drop i hay) = needle"
    "\<forall>j < i. take (length needle) (drop j hay) \<noteq> needle" by (simp_all add: find_subslice_Some)
  then have "take (length needle) (drop j (hay @ rest)) = take (length needle) (drop j hay)" if "j \<le> i" for j
    using that by simp
  with i assms(1) show ?thesis by (simp add: find_subslice_Some)
qed

lemma header_mark_nonempty [simp]: "header_mark \<noteq> []" "length header_mark = 4"
  by (simp_all add: header_mark_def)

definition is_header :: "bytes \<Rightarrow> bool" where
  "is_header header \<longleftrightarrow> find_subslice header header_mark = Some (length header - 4)"

lemma is_header_long: "is_header header \<Longrightarrow> 4 \<le> length header"
  using find_subslice_Some [of header_mark header "length header - 4"] by (auto simp: is_header_def find_subslice_def split: if_splits)

text \<open>What the loop knows after the bytes \<open>req\<close> of a request with the given header.\<close>

definition known :: "bytes \<Rightarrow> bytes \<Rightarrow> partial" where
  "known header req =
     (if length header \<le> length req then (req, Some (length header), content_length_of header) else (req, None, None))"

lemma prefix_no_mark:
  assumes "is_header header" and "prefix req header" and "req \<noteq> header"
  shows "find_subslice req header_mark = None"
proof (rule ccontr)
  assume "find_subslice req header_mark \<noteq> None"
  then obtain i where i: "find_subslice req header_mark = Some i" by blast
  from assms(2) obtain rest where header: "header = req @ rest" by (auto simp: prefix_def)
  from find_subslice_append [OF header_mark_nonempty(1) i, of rest] assms(1)
  have "i = length header - 4" by (simp add: is_header_def header)
  moreover from i have "i + 4 \<le> length req" by (simp add: find_subslice_Some)
  ultimately have "length header \<le> length req" using is_header_long [OF assms(1)] by simp
  with header assms(3) show False by simp
qed

lemma absorb_known:
  assumes "is_header header" and "prefix (req @ chunk) (header @ body)"
  shows "absorb (known header req) chunk = known header (req @ chunk)"
proof (cases "length header \<le> length (req @ chunk)")
  case True
  then obtain rest where req: "req @ chunk = header @ rest"
    using assms(2) by (metis prefix_append prefix_def prefix_length_prefix append_Nil2 le_refl prefix_order.dual_order.refl)
  have "find_subslice (header @ rest) header_mark = Some (length header - 4)"
    using find_subslice_append assms(1) by (simp add: is_header_def)
  then show ?thesis
    using True is_header_long [OF assms(1)] by (simp add: absorb_def known_def req Let_def)
next
  case False
  then have "prefix (req @ chunk) header" "req @ chunk \<noteq> header"
    using assms(2) by (auto intro: prefix_length_prefix [of _ "header @ body"])
  then have "find_subslice (req @ chunk) header_mark = None" using prefix_no_mark [OF assms(1)] by blast
  with False show ?thesis by (simp add: absorb_def known_def Let_def)
qed

lemma read_done_known:
  assumes "is_header header" and "unwrap_or (content_length_of header) 0 = of_nat (length body)"
    and "length (header @ body) \<le> 2 * 1024 * 1024" and "prefix req (header @ body)"
  shows "read_done (known header req) \<longleftrightarrow> req = header @ body"
proof -
  have "length header + length body < 2 ^ 64" using assms(3) by simp
  then have "expected_end (length header) (content_length_of header) = length (header @ body)"
    using assms(2) by (simp add: expected_end_def of_nat_add [symmetric] unsigned_of_nat take_bit_nat_eq_self del: of_nat_add)
  moreover have "length req \<le> length (header @ body)" using assms(4) by (rule prefix_length_le)
  ultimately have "read_done (known header req) \<longleftrightarrow> length (header @ body) \<le> length req"
    using assms(3) by (auto simp: read_done_def known_def)
  also have "\<dots> \<longleftrightarrow> req = header @ body"
    using assms(4) by (metis leD order_refl prefix_length_less strict_prefixI)
  finally show ?thesis .
qed

lemma read_loop_known:
  assumes "is_header header" and "unwrap_or (content_length_of header) 0 = of_nat (length body)"
    and "length (header @ body) \<le> 2 * 1024 * 1024"
    and "req @ concat chunks = header @ body" and "[] \<notin> set chunks"
    and "chunks \<noteq> []"
  shows "read_loop (known header req) (chunks @ later) = Some (known header (header @ body))"
  using assms(4-6)
proof (induction chunks arbitrary: req)
  case (Cons chunk chunks)
  have prefix: "prefix (req @ chunk) (header @ body)" 
    using Cons.prems(1) by (intro prefixI [of _ _ "concat chunks"]) simp
  show ?case
  proof (cases "req @ chunk = header @ body")
    case True
    then show ?thesis
      using Cons.prems(2) absorb_known [OF assms(1) prefix] read_done_known [OF assms(1-3) prefix] by (auto simp: Let_def)
  next
    case False
    with Cons.prems(1) have "chunks \<noteq> []" by auto
    with False Cons.IH [of "req @ chunk"] Cons.prems show ?thesis
      using absorb_known [OF assms(1) prefix] read_done_known [OF assms(1-3) prefix] by (auto simp: Let_def)
  qed
qed simp

text \<open>Before the last byte the loop waits.\<close>

lemma read_loop_waits:
  assumes "is_header header" and "unwrap_or (content_length_of header) 0 = of_nat (length body)"
    and "length (header @ body) \<le> 2 * 1024 * 1024"
    and "strict_prefix (req @ concat chunks) (header @ body)" and "[] \<notin> set chunks"
  shows "read_loop (known header req) chunks = None"
  using assms(4,5)
proof (induction chunks arbitrary: req)
  case (Cons chunk chunks)
  have "strict_prefix (req @ chunk) (header @ body)"
    using Cons.prems(1) by (metis append.assoc concat.simps(2) prefix_order.le_less_trans prefixI)
  then have "prefix (req @ chunk) (header @ body)" "req @ chunk \<noteq> header @ body" by auto
  with Cons.IH [of "req @ chunk"] Cons.prems show ?case
    using absorb_known [OF assms(1)] read_done_known [OF assms(1-3)] by (auto simp: Let_def)
qed simp

text \<open>C14.  A request is read correctly however it is split into reads: if its header ends in the empty line
  and announces the length of the body, and the request has at most two mebibytes, then the loop stops with
  exactly the request as soon as its last byte is read, without another read and so without the client
  closing the connection; it does not stop before; and the body that is parsed is the body that was sent.\<close>

theorem http_any_fragmentation:
  assumes "is_header header" and "unwrap_or (content_length_of header) 0 = of_nat (length body)"
    and "length (header @ body) \<le> 2 * 1024 * 1024"
    and "concat chunks = header @ body" and "[] \<notin> set chunks"
  shows "\<exists>hdr len. read_request chunks = Some (header @ body, hdr, len) \<and>
    (\<forall>later. read_request (chunks @ later) = Some (header @ body, hdr, len)) \<and>
    (\<forall>k < length chunks. read_request (take k chunks) = None) \<and>
    request_body_from_http (header @ body) hdr len = Some body"
proof -
  have "header \<noteq> []" using is_header_long [OF assms(1)] by auto
  then have start: "known header [] = ([], None, None)" and "chunks \<noteq> []"
    using assms(4) by (auto simp: known_def)
  then have "read_request (chunks @ later) = Some (known header (header @ body))" for later
    using read_loop_known [OF assms(1-3), of "[]" chunks later] assms(4,5) by (simp add: read_request_def)
  moreover from this [of "[]"] have "read_request chunks = Some (known header (header @ body))" by simp
  moreover have "read_request (take k chunks) = None" if "k < length chunks" for k
  proof -
    have "concat (take k chunks) @ concat (drop k chunks) = header @ body"
      using assms(4) by (metis append_take_drop_id concat_append)
    moreover have "concat (drop k chunks) \<noteq> []"
    proof -
      have "hd (drop k chunks) \<in> set (drop k chunks)" using that by (intro hd_in_set) simp
      moreover from this assms(5) have "hd (drop k chunks) \<noteq> []" by (metis in_set_dropD)
      ultimately show ?thesis by (meson concat_eq_Nil_conv)
    qed
    ultimately have "strict_prefix ([] @ concat (take k chunks)) (header @ body)"
      by (metis append_Nil append_self_conv prefixI strict_prefixI)
    moreover have "[] \<notin> set (take k chunks)" using assms(5) by (metis in_set_takeD)
    ultimately show ?thesis
      using read_loop_waits [OF assms(1-3), of "[]" "take k chunks"] by (simp add: read_request_def start)
  qed
  moreover have "length header + length body < 2 ^ 64" using assms(3) by simp
  then have "expected_end (length header) (content_length_of header) = length (header @ body)"
    using assms(2) by (simp add: expected_end_def of_nat_add [symmetric] unsigned_of_nat take_bit_nat_eq_self del: of_nat_add)
  ultimately show ?thesis by (auto simp: known_def request_body_from_http_def)
qed

text \<open>One request stops the daemon: a content length so large that adding it to the length of the header
  overflows makes the slice of the body start after its end (or the addition itself panics), and the panic
  is in the accept loop.\<close>

theorem huge_content_length_panics:
  assumes "read_request chunks = Some (req, Some h_end, Some len)" and "h_end \<le> length req" and "length req < 2 ^ 64"
    and "2 ^ 64 \<le> h_end + unat len"
    and "text_lines (text_of req) = line # lines" and "starts_with ''POST / '' line"
  shows "serve nh clocks st chunks = Crashed"
proof -
  have "h_end < 2 ^ 64" using assms(2,3) by simp
  then have "expected_end h_end (Some len) = (h_end + unat len) mod 2 ^ 64"
    by (simp add: expected_end_def unat_word_ariths unsigned_of_nat take_bit_nat_eq_self)
  also have "\<dots> < h_end" using assms(4) \<open>h_end < 2 ^ 64\<close> unsigned_less [of len, where 'a = nat]
    by (simp add: mod_if) arith
  finally have "request_body_from_http req (Some h_end) (Some len) = None"
    using assms(2) by (simp add: request_body_from_http_def Let_def)
  moreover have "\<not> starts_with ''OPTIONS / '' line" "\<not> starts_with ''GET /healthz '' line"
    "\<not> starts_with ''GET /status '' line"
    using assms(6) by (cases line; simp add: starts_with_def)+
  ultimately show ?thesis using assms(1,5,6) by (simp add: serve_def route_def Let_def)
qed

section \<open>The daemon\<close>

text \<open>
  The states the daemon can be in after a number of ticks, with connections served in between in any
  number and order.  A panic of the accept loop ends the process, so only connections that are
  answered lead on.
\<close>

inductive daemon_reach :: "'db node_host \<Rightarrow> 'db DaemonState \<Rightarrow> nat \<Rightarrow> 'db DaemonState \<Rightarrow> bool"
  for nh :: "'db node_host" and st0 :: "'db DaemonState" where
  started: "daemon_reach nh st0 0 st0"
| ticked: "daemon_reach nh st0 k st \<Longrightarrow> daemon_reach nh st0 (Suc k) (tick now st)"
| served: "daemon_reach nh st0 k st \<Longrightarrow> serve nh clocks st chunks = Answered (response, st') \<Longrightarrow>
    daemon_reach nh st0 k st'"

text \<open>What a call, and so a connection, can do to the state.\<close>

inductive call_effect :: "'db node_host \<Rightarrow> 'db DaemonState \<Rightarrow> 'db DaemonState \<Rightarrow> bool"
  for nh :: "'db node_host" and st :: "'db DaemonState" where
  accounts: "call_effect nh st (st\<lparr>evm_db := db, pending_nonce_address_hint := hint\<rparr>)"
| submitted: "send_raw_transaction nh st raw = Some (answer, st') \<Longrightarrow> call_effect nh st st'"
| engine: "engine_dispatch (base_host nh) now1 now2 (engine_part st) meth req = Some (Some (res, e)) \<Longrightarrow>
    call_effect nh st (with_engine e st)"
| market: "market_effect nh st meth req st' \<Longrightarrow> call_effect nh st st'"

lemma call_effect_refl: "call_effect nh st st"
  using call_effect.accounts [of nh st "pending_nonce_address_hint st" "evm_db st"] by simp

lemma accounts_only_db: "call_effect nh st (st\<lparr>evm_db := db\<rparr>)"
  using call_effect.accounts [of nh st "pending_nonce_address_hint st" db] by simp

lemma accounts_only_hint: "call_effect nh st (st\<lparr>pending_nonce_address_hint := hint\<rparr>)"
  using call_effect.accounts [of nh st hint "evm_db st"] by simp

lemma run_call_effect: "run_call nh st call n = Some (r, st') \<Longrightarrow> call_effect nh st st'"
proof -
  assume "run_call nh st call n = Some (r, st')"
  then obtain db caller tx ts where "execute_evm_transaction nh (st\<lparr>evm_db := db\<rparr>) caller tx False n ts = (r, st')"
    by (auto simp: run_call_def bind_eq_Some_conv Let_def case_prod_unfold)
  with execute_state obtain db' where "st' = st\<lparr>evm_db := db\<rparr>\<lparr>evm_db := db'\<rparr>" by (metis snd_conv)
  then show ?thesis by (simp add: accounts_only_db)
qed

lemma account_effect:
  assumes "account_dispatch nh st meth req = Some (Some (answer, st'))"
  shows "call_effect nh st st'"
proof -
  have "call_effect nh st (snd (eth_getBalance nh st req))" "call_effect nh st (snd (eth_getCode nh st req))"
    "call_effect nh st (snd (eth_getTransactionCount nh st req))"
    by (auto simp: eth_getBalance_def eth_getCode_def eth_getTransactionCount_def Let_def call_effect_refl
        accounts_only_db accounts_only_hint call_effect.accounts case_prod_unfold split: option.split)
  moreover have "call_effect nh st st1" if "eth_getStorageAt nh st req = Some (res, st1)" for res st1
    using that by (auto simp: eth_getStorageAt_def bind_eq_Some_conv call_effect_refl accounts_only_db case_prod_unfold
        split: option.splits)
  moreover have "call_effect nh st st1" if "set_balance nh st req = Some (res, st1)" for res st1
  proof -
    from that obtain amount where "(case (address_arg nh req, amount) of
        (Some addr, Some wei) \<Rightarrow> (Inr (JBool True), st\<lparr>evm_db := set_account_balance_in_db nh (evm_db st) addr wei\<rparr>)
      | _ \<Rightarrow> (Inl (-32602, ''invalid params: expected [address, amountWeiHex]''), st)) = (res, st1)"
      by (auto simp: set_balance_def bind_eq_Some_conv)
    then show ?thesis
      by (cases "address_arg nh req"; cases amount) (auto simp: call_effect_refl accounts_only_db)
  qed
  moreover have "call_effect nh st st1" if "eth_call nh st req = Some (res, st1)" for res st1
    using that by (auto simp: eth_call_def bind_eq_Some_conv call_effect_refl intro: run_call_effect
        split: option.splits json.splits)
  moreover have "call_effect nh st st1" if "eth_estimateGas nh st req = Some (res, st1)" for res st1
    using that by (auto simp: eth_estimateGas_def bind_eq_Some_conv call_effect_refl intro: run_call_effect
        split: option.splits json.splits)
  ultimately show ?thesis
    using assms by (auto simp: account_dispatch_def apfst_def map_prod_def case_prod_unfold
        intro: call_effect.submitted split: if_splits)
qed

lemma dispatch_call_effect:
  assumes "rpc_dispatch nh clock st meth req = Some (answer, st')"
  shows "call_effect nh st st'"
proof -
  obtain now now1 now2 where clock: "clock = (now, now1, now2)" by (cases clock) auto
  consider "st' = st" | "account_dispatch nh st meth req = Some (Some (answer, st'))"
    | "engine_call nh now1 now2 st meth req = Some (Some (answer, st'))"
    | "market_dispatch nh now st meth req = Some (answer, st')"
    using assms by (auto simp: rpc_dispatch_def clock split: option.splits)
  then show ?thesis
  proof cases
    case 3
    then obtain res e where "engine_dispatch (base_host nh) now1 now2 (engine_part st) meth req = Some (Some (res, e))"
      and "st' = with_engine e st" by (auto simp: engine_call_def)
    then show ?thesis using call_effect.engine by blast
  next
    case 4
    from market_dispatch_effect [OF this] show ?thesis by (rule call_effect.market)
  qed (simp_all add: call_effect_refl account_effect)
qed

abbreviation call_effects :: "'db node_host \<Rightarrow> 'db DaemonState \<Rightarrow> 'db DaemonState \<Rightarrow> bool" where
  "call_effects nh \<equiv> (call_effect nh)\<^sup>*\<^sup>*"

lemma handle_effect: "handle_jsonrpc nh clock st req = Some (resp, st') \<Longrightarrow> call_effects nh st st'"
  using dispatch_call_effect by (fastforce simp: handle_jsonrpc_def)

lemma batch_effect: "handle_batch nh clocks i st reqs = Some (rs, st') \<Longrightarrow> call_effects nh st st'"
proof (induction nh clocks i st reqs arbitrary: rs st' rule: handle_batch.induct)
  case (2 nh clocks i st req reqs)
  show ?case
  proof (cases "is_object req")
    case True
    with 2(3) obtain resp st1 rs1 where "handle_jsonrpc nh (clocks i) st req = Some (resp, st1)"
      and "handle_batch nh clocks (Suc i) st1 reqs = Some (rs1, st')"
      by (auto simp: bind_eq_Some_conv)
    with 2(2) [OF _ this(1) refl] True show ?thesis using handle_effect by (meson rtranclp_trans)
  qed (use 2 in auto)
qed simp

lemma payload_effect: "handle_jsonrpc_payload nh clocks st payload = Some (r, st') \<Longrightarrow> call_effects nh st st'"
  by (auto simp: handle_jsonrpc_payload_def dest: batch_effect handle_effect split: json.splits if_splits)

lemma serve_rpc_effect: "serve_rpc nh clocks st body = Some (s, st') \<Longrightarrow> call_effects nh st st'"
  by (auto simp: serve_rpc_def bind_eq_Some_conv dest: payload_effect split: option.splits if_splits)

lemma engine_routes_known:
  "engine_route line = Some meth \<Longrightarrow> \<exists>r. engine_dispatch host now1 now2 e (''engine_'' @ meth) req = Some r"
  by (auto simp: engine_route_def engine_routes_def engine_dispatch_def split: if_splits)

lemma serve_engine_effect:
  assumes "serve_engine nh clock st meth body = Some (s, st')" and "engine_route line = Some meth"
  shows "call_effects nh st st'"
proof -
  obtain now now1 now2 where clock: "clock = (now, now1, now2)" by (cases clock) auto
  let ?req = "unwrap_or (json_from_str nh body) JNull"
  obtain r where "engine_dispatch (base_host nh) now1 now2 (engine_part st) (''engine_'' @ meth) ?req = Some r"
    using engine_routes_known [OF assms(2)] by blast
  with assms(1) obtain res e where "engine_dispatch (base_host nh) now1 now2 (engine_part st) (''engine_'' @ meth) ?req =
      Some (Some (res, e))" and "st' = with_engine e st"
    by (auto simp: serve_engine_def clock bind_eq_Some_conv)
  then show ?thesis using call_effect.engine by blast
qed

lemma serve_effect:
  assumes "serve nh clocks st chunks = Answered (s, st')"
  shows "call_effects nh st st'"
  using assms
  by (auto simp: serve_def route_def Let_def case_prod_unfold bind_eq_Some_conv
      dest: serve_rpc_effect serve_engine_effect split: if_splits option.splits)

section \<open>What holds of the daemon\<close>

lemma engine_db_step: "engine_steps host e (e\<lparr>evm_db := db\<rparr>)"
proof -
  have "engine_step host None e (e\<lparr>current_height := current_height e, evm_db := db\<rparr>)" by (rule engine_step.other)
  then show ?thesis by (intro r_into_rtranclp exI [of _ None]) simp
qed

lemma send_effect:
  assumes "send_raw_transaction nh st raw = Some (answer, st')"
  shows "st' = st \<or> (\<exists>db. st' = st\<lparr>evm_db := db\<rparr>) \<or>
    (\<exists>db h caller decoded out. st' = record_tx nh (st\<lparr>evm_db := db\<rparr>) h caller decoded out)"
proof -
  have "st1 = st \<or> (\<exists>db. st1 = st\<lparr>evm_db := db\<rparr>) \<or>
      (\<exists>db h caller decoded out. st1 = record_tx nh (st\<lparr>evm_db := db\<rparr>) h caller decoded out)"
    if "submit_decoded nh st raw decoded = (answer, st1)" for decoded st1
    using that by (cases answer) (blast dest: submit_rejected submit_accepted)+
  with assms show ?thesis by (auto simp: send_raw_transaction_def split: outcome.splits)
qed

lemma call_effect_engine:
  assumes "call_effect nh st st'"
  shows "engine_steps (base_host nh) (engine_part st) (engine_part st')"
  using assms
proof cases
  case (accounts hint db)
  then have "engine_part st' = (engine_part st)\<lparr>evm_db := db\<rparr>" by (simp add: NodeState.defs)
  then show ?thesis by (simp add: engine_db_step)
next
  case (submitted raw answer)
  from send_effect [OF this] obtain db where "engine_part st' = (engine_part st)\<lparr>evm_db := db\<rparr>"
    by (auto simp: record_tx_def Let_def NodeState.defs)
  then show ?thesis by (simp add: engine_db_step)
next
  case (engine now1 now2 meth req res e)
  from engine_step.call [OF engine(2)] show ?thesis using engine(1) by (auto intro!: r_into_rtranclp)
next
  case (market meth req)
  then show ?thesis by (simp add: market_effect_engine)
qed

lemma effect_height: "engine_effect host e l e' \<Longrightarrow> current_height e' = current_height e"
  by (erule engine_effect.cases)
    (auto simp: freeze_view_def apply_update_def unfreeze_def Let_def
      elim!: header_registered.cases envelope_registered.cases)

text \<open>The three invariants together.\<close>

definition daemon_inv :: "'db node_host \<Rightarrow> 'db DaemonState \<Rightarrow> bool" where
  "daemon_inv nh st \<longleftrightarrow> engine_inv (base_host nh) (engine_part st) \<and> index_ok st \<and> market_ok nh st"

lemma market_ok_cong:
  "market_nfts st' = market_nfts st \<Longrightarrow> market_receipts st' = market_receipts st \<Longrightarrow>
     next_market_token_id st' = next_market_token_id st \<Longrightarrow> market_ok nh st' = market_ok nh st"
  by (simp add: market_ok_def)

lemma call_effect_inv:
  assumes "call_effect nh st st'" and "daemon_inv nh st"
  shows "daemon_inv nh st'" and "current_height st' = current_height st"
proof -
  have inv: "engine_inv (base_host nh) (engine_part st)" "index_ok st" "market_ok nh st"
    using assms(2) by (simp_all add: daemon_inv_def)
  have engine': "engine_inv (base_host nh) (engine_part st')"
    using engine_steps_inv [OF call_effect_engine [OF assms(1)] inv(1)] .
  from assms(1) have "index_ok st' \<and> market_ok nh st' \<and> current_height st' = current_height st"
  proof cases
    case (accounts hint db)
    then have "same_index st st'" by (simp add: same_index_def)
    moreover have "market_ok nh st'" using accounts inv(3) by (simp add: market_ok_def)
    ultimately show ?thesis using same_index_ok inv(2) by (auto simp: same_index_def)
  next
    case (submitted raw answer)
    from send_effect [OF this] have "market_ok nh st'" "current_height st' = current_height st"
      using inv(3) by (auto simp: record_tx_def Let_def market_ok_def)
    with index_ok_send [OF submitted inv(2)] show ?thesis by simp
  next
    case (engine now1 now2 meth req res e)
    have "current_height e = current_height st"
      using effect_height [OF dispatch_effect [OF _ engine(2)]] inv(1) by (simp add: engine_inv_def tables_ok_def)
    then have "same_index st st'" using engine(1) by (simp add: same_index_def)
    moreover have "market_ok nh st'" using engine(1) inv(3) by (simp add: market_ok_def)
    ultimately show ?thesis using same_index_ok inv(2) by (auto simp: same_index_def)
  next
    case (market meth req)
    moreover have "current_height st' = current_height st"
      using market_effect_engine [OF market] engine_part_fields(1) by metis
    ultimately show ?thesis using market_effect_index market_effect_ok inv(2,3) by blast
  qed
  with engine' show "daemon_inv nh st'" and "current_height st' = current_height st" by (simp_all add: daemon_inv_def)
qed

lemma call_effects_inv:
  "call_effects nh st st' \<Longrightarrow> daemon_inv nh st \<Longrightarrow> daemon_inv nh st' \<and> current_height st' = current_height st"
  by (induction rule: rtranclp_induct) (auto simp: call_effect_inv)

lemma tick_inv:
  assumes "daemon_inv nh st" and "current_height st < - 1"
  shows "daemon_inv nh (tick now st)"
proof -
  have "engine_step (base_host nh) None (engine_part st)
      ((engine_part st)\<lparr>current_height := sat_add (current_height st) 1, evm_db := evm_db (engine_part st)\<rparr>)"
    by (rule engine_step.other)
  moreover have "e\<lparr>current_height := h, evm_db := evm_db e\<rparr> = e\<lparr>current_height := h\<rparr>" for h and e :: "'a NodeState"
    by (cases e) simp
  ultimately have "engine_step (base_host nh) None (engine_part st) (engine_part (tick now st))"
    by (simp only: tick_frame)
  with assms engine_step_inv index_ok_tick show ?thesis
    unfolding daemon_inv_def by (auto simp: tick_frame cong: market_ok_cong) (simp add: market_ok_def tick_frame)
qed

lemma start_inv: "daemon_inv nh (start_state nh cfg fig chain_spec now)"
  by (simp add: daemon_inv_def engine_inv_start index_ok_start market_ok_start)

text \<open>C5.  In every state the daemon reaches from start-up, whatever connections it serves (batches and
  requests in error included) and however the block timer falls between them: the height is the number
  of ticks and the finalised height two less; every transaction and receipt is stored under its
  hash and is pending or at the position of the block that it names; blocks list only known
  transactions and none lies above the head; tokens and market receipts are under their own keys; and the
  tables of the engine methods are consistent.\<close>

theorem daemon_invariant:
  assumes "daemon_reach nh (start_state nh cfg fig chain_spec now) k st" and "k < 2 ^ 64"
  shows "unat (current_height st) = k \<and> finalized_height st = sat_sub (current_height st) 2 \<and>
    txs_ok st \<and> receipts_ok st \<and> blocks_ok st \<and> market_ok nh st \<and>
    headers_ok (engine_part st) \<and> envelopes_ok (engine_part st) \<and> penalties_ok (engine_part st) \<and>
    focil_ok (base_host nh) (engine_part st)"
proof -
  have "unat (current_height st) = k \<and> daemon_inv nh st"
    using assms
  proof (induction rule: daemon_reach.induct)
    case started
    then show ?case using start_inv by (simp add: start_state_def)
  next
    case (ticked k st now)
    then have "unat (current_height st) = k" "daemon_inv nh st" by simp_all
    moreover from this(1) ticked.prems have "current_height st < - 1"
      by (simp add: word_less_nat_alt unat_minus_one_word_max)
    ultimately show ?case using tick_inv ticked.prems by (simp add: tick_fields sat_simps)
  next
    case (served k st clocks chunks response st')
    then show ?case using call_effects_inv [OF serve_effect] by metis
  qed
  then show ?thesis
    by (simp add: daemon_inv_def index_ok_def engine_inv_def tables_ok_def blocks_ok_def)
qed

section \<open>Instances\<close>

theorem daemon_invariant_witness:
  "daemon_reach node (start_state node sample_config sample_figures JNull 0) 1
     (tick 12 (start_state node sample_config sample_figures JNull 0)) \<and>
   unat (current_height (tick 12 (start_state node sample_config sample_figures JNull 0))) = 1"
proof -
  have "daemon_reach node (start_state node sample_config sample_figures JNull 0) (Suc 0)
      (tick 12 (start_state node sample_config sample_figures JNull 0))"
    by (intro daemon_reach.intros)
  with daemon_invariant [OF this] show ?thesis by simp
qed

lemma ascii_lossy: "\<forall>b \<in> set bs. b < 0x80 \<Longrightarrow> utf8_lossy bs = bs"
  by (induction bs) (simp_all add: utf8_step_def)

lemma text_of_ascii:
  assumes "list_all (\<lambda>c. (of_char c :: nat) < 128) s"
  shows "text_of (ascii s) = s"
proof -
  have "unat (of_char c :: u8) < 128" if "c \<in> set s" for c
    using assms that unat_of_char [of c] by (simp add: list_all_iff)
  then have "\<forall>b \<in> set (ascii s). b < 0x80" by (auto simp: ascii_def word_less_nat_alt)
  then show ?thesis by (simp add: text_of_def ascii_lossy) (simp add: ascii_def comp_def unat_of_char)
qed

definition short_header :: bytes where
  "short_header = ascii (''content-length:2'' @ crlf @ crlf)"

lemma short_header_ok: "is_header short_header"
  by (simp add: is_header_def find_subslice_def short_header_def header_mark_def ascii_def crlf_def upt_rec)

lemma short_header_length: "content_length_of short_header = Some 2"
proof -
  have "text_of short_header = ''content-length:2'' @ crlf @ crlf"
    unfolding short_header_def by (rule text_of_ascii) (simp add: crlf_def)
  then show ?thesis
    by (simp add: content_length_of_def crlf_def text_lines.simps strip_cr_def strip_prefix_def
        to_ascii_lowercase_def length_value_def parse_unsigned_def trim_def is_ascii_whitespace_def Let_def)
qed

theorem http_any_fragmentation_witness:
  "\<exists>hdr len. read_request [take 3 short_header, drop 3 short_header @ [123], [125]] =
       Some (short_header @ [123, 125], hdr, len) \<and>
     request_body_from_http (short_header @ [123, 125]) hdr len = Some [123, 125]"
proof -
  let ?chunks = "[take 3 short_header, drop 3 short_header @ [123], [125]]"
  have "unwrap_or (content_length_of short_header) 0 = of_nat (length [123, 125 :: u8])"
    and "length (short_header @ [123, 125]) \<le> 2 * 1024 * 1024"
    and "concat ?chunks = short_header @ [123, 125]" and "[] \<notin> set ?chunks"
    by (simp_all add: short_header_length) (simp_all add: short_header_def ascii_def crlf_def)
  from http_any_fragmentation [OF short_header_ok this] show ?thesis by blast
qed

definition evil_request :: bytes where
  "evil_request = ascii (''POST / '' @ crlf @ ''content-length:18446744073709551615'' @ crlf @ crlf)"

lemma evil_text: "text_of evil_request = ''POST / '' @ crlf @ ''content-length:18446744073709551615'' @ crlf @ crlf"
  unfolding evil_request_def by (rule text_of_ascii) (simp add: crlf_def)

lemma evil_lines: "text_lines (text_of evil_request) = [''POST / '', ''content-length:18446744073709551615'', []]"
  by (simp add: evil_text crlf_def text_lines.simps strip_cr_def)

lemma evil_read: "read_request [evil_request] = Some (evil_request, Some (length evil_request), Some (- 1))"
proof -
  have "is_header evil_request"
    by (simp add: is_header_def find_subslice_def evil_request_def header_mark_def ascii_def crlf_def upt_rec)
  moreover have "content_length_of evil_request = Some (- 1)"
    by (simp add: content_length_of_def evil_lines strip_prefix_def to_ascii_lowercase_def length_value_def
        parse_unsigned_def trim_def is_ascii_whitespace_def Let_def)
  moreover have "evil_request \<noteq> []" by (simp add: evil_request_def ascii_def)
  moreover have "expected_end (length evil_request) (Some (- 1)) \<le> length evil_request"
    by (simp add: expected_end_def evil_request_def ascii_def crlf_def)
  ultimately show ?thesis
    using absorb_known [of evil_request "[]" evil_request "[]"]
    by (auto simp: read_request_def known_def read_done_def Let_def)
qed

theorem huge_content_length_panics_witness:
  "serve node (\<lambda>_. (0, 0, 0)) (start_state node sample_config sample_figures JNull 0) [evil_request] = Crashed"
proof (rule huge_content_length_panics [OF evil_read _ _ _ evil_lines])
  show "2 ^ 64 \<le> length evil_request + unat (- 1 :: u64)"
    by (simp add: unat_minus_one_word_max evil_request_def ascii_def crlf_def)
  show "length evil_request < 2 ^ 64" by (simp add: evil_request_def ascii_def crlf_def)
  show "starts_with ''POST / '' ''POST / ''" by (simp add: starts_with_def)
qed simp

end
