(* ===== verification/Multidim_Fees.thy ===== *)
theory Multidim_Fees
  imports Validation
begin

text \<open>
  Fees in several resource dimensions (EIP-7999), \<open>crates/eth2077-types/src/eip7999.rs\<close>: the base
  cost of a transaction, the division of its fee over the dimensions, the update of the base
  fees after a block, and the validator.  \<open>expect\<close> in the division is a panic, \<open>None\<close> here.
\<close>

section \<open>Data\<close>

datatype ResourceDimension = Computation | Calldata | BlobData | Storage

record DimensionParams =
  dp_dimension :: ResourceDimension
  dp_base_fee :: u128
  dp_target_usage :: u64
  dp_max_usage :: u64
  dp_elasticity_multiplier :: u64

record MultidimTransaction =
  mt_max_fee :: u128
  mt_resource_usage :: "(ResourceDimension \<times> u64) list"
  mt_priority_fee :: u128

record FeeAllocation =
  fa_dimension :: ResourceDimension
  fa_base_cost :: u128
  fa_allocated_fee :: u128
  fa_usage :: u64

record MultidimFeeResult =
  fr_total_base_cost :: u128
  fr_total_fee :: u128
  fr_priority_fee_paid :: u128
  fr_allocations :: "FeeAllocation list"
  fr_is_sufficient :: bool

datatype MultidimFeeError =
    InsufficientFee u128 u128
  | ExceedsMaxUsage ResourceDimension u64 u64
  | ZeroBaseFee ResourceDimension
  | DuplicateDimension ResourceDimension
  | NoResourceUsage

section \<open>Base cost\<close>

definition find_params :: "DimensionParams list \<Rightarrow> ResourceDimension \<Rightarrow> DimensionParams option" where
  "find_params params dimension = find (\<lambda>candidate. dp_dimension candidate = dimension) params"

text \<open>\<open>dimension_params.base_fee.saturating_mul(u128::from(usage))\<close>.\<close>

definition usage_cost :: "DimensionParams \<Rightarrow> u64 \<Rightarrow> u128" where
  "usage_cost p usage = sat_mul (dp_base_fee p) (ucast usage)"

fun base_cost_loop ::
    "DimensionParams list \<Rightarrow> ResourceDimension set \<Rightarrow> u128 \<Rightarrow> (ResourceDimension \<times> u64) list \<Rightarrow>
       MultidimFeeError + u128" where
  "base_cost_loop params seen total_cost [] = Inr total_cost"
| "base_cost_loop params seen total_cost ((dimension, usage) # rest) =
     (if dimension \<in> seen then Inl (DuplicateDimension dimension)
      else case find_params params dimension of
        None \<Rightarrow> Inl (ZeroBaseFee dimension)
      | Some p \<Rightarrow>
          if dp_base_fee p = 0 then Inl (ZeroBaseFee dimension)
          else if dp_max_usage p < usage then Inl (ExceedsMaxUsage dimension usage (dp_max_usage p))
          else base_cost_loop params (insert dimension seen) (sat_add total_cost (usage_cost p usage)) rest)"

definition compute_base_cost :: "DimensionParams list \<Rightarrow> MultidimTransaction \<Rightarrow> MultidimFeeError + u128" where
  "compute_base_cost params tx =
     (if mt_resource_usage tx = [] then Inl NoResourceUsage
      else base_cost_loop params {} 0 (mt_resource_usage tx))"

section \<open>Division of the fee\<close>

definition new_allocation ::
    "DimensionParams list \<Rightarrow> ResourceDimension \<times> u64 \<Rightarrow> FeeAllocation option" where
  "new_allocation params entry =
     (case entry of (dimension, usage) \<Rightarrow>
        map_option (\<lambda>p. \<lparr>fa_dimension = dimension, fa_base_cost = usage_cost p usage,
            fa_allocated_fee = usage_cost p usage, fa_usage = usage\<rparr>)
          (find_params params dimension))"

definition add_fee :: "u128 \<Rightarrow> FeeAllocation \<Rightarrow> FeeAllocation" where
  "add_fee fee a = a\<lparr>fa_allocated_fee := sat_add (fa_allocated_fee a) fee\<rparr>"

text \<open>\<open>priority.saturating_mul(base_cost).checked_div(total_base_cost).unwrap_or(0)\<close>.\<close>

definition priority_share :: "u128 \<Rightarrow> u128 \<Rightarrow> FeeAllocation \<Rightarrow> u128" where
  "priority_share priority total_cost a =
     (if total_cost = 0 then 0 else sat_mul priority (fa_base_cost a) div total_cost)"

fun distribute ::
    "u128 \<Rightarrow> u128 \<Rightarrow> u128 \<Rightarrow> FeeAllocation list \<Rightarrow> FeeAllocation list \<times> u128" where
  "distribute priority total_cost distributed [] = ([], distributed)"
| "distribute priority total_cost distributed (a # rest) =
     (let share = priority_share priority total_cost a;
          (rest', distributed') = distribute priority total_cost (sat_add distributed share) rest
      in (add_fee share a # rest', distributed'))"

definition add_fee_to_first :: "u128 \<Rightarrow> FeeAllocation list \<Rightarrow> FeeAllocation list" where
  "add_fee_to_first fee allocations =
     (case allocations of [] \<Rightarrow> [] | a # rest \<Rightarrow> add_fee fee a # rest)"

definition pay_priority :: "u128 \<Rightarrow> u128 \<Rightarrow> FeeAllocation list \<Rightarrow> FeeAllocation list" where
  "pay_priority priority total_cost allocations =
     (if 0 < priority \<and> allocations \<noteq> [] then
        if 0 < total_cost then
          (case distribute priority total_cost 0 allocations of (allocations', distributed) \<Rightarrow>
             add_fee_to_first (sat_sub priority distributed) allocations')
        else add_fee_to_first priority allocations
      else allocations)"

definition compute_fee_allocation ::
    "DimensionParams list \<Rightarrow> MultidimTransaction \<Rightarrow> (MultidimFeeError + MultidimFeeResult) option" where
  "compute_fee_allocation params tx =
     (case compute_base_cost params tx of
        Inl e \<Rightarrow> Some (Inl e)
      | Inr total_cost \<Rightarrow>
          if \<not> total_cost \<le> mt_max_fee tx then Some (Inl (InsufficientFee total_cost (mt_max_fee tx)))
          else
            let remaining = sat_sub (mt_max_fee tx) total_cost;
                priority = min (mt_priority_fee tx) remaining
            in map_option (\<lambda>allocations. Inr
                 \<lparr>fr_total_base_cost = total_cost, fr_total_fee = sat_add total_cost priority,
                  fr_priority_fee_paid = priority,
                  fr_allocations = pay_priority priority total_cost allocations, fr_is_sufficient = True\<rparr>)
               (those (map (new_allocation params) (mt_resource_usage tx))))"

section \<open>Base fee update\<close>

definition actual_usage_of :: "(ResourceDimension \<times> u64) list \<Rightarrow> ResourceDimension \<Rightarrow> u64" where
  "actual_usage_of actual_usage dimension =
     (case find (\<lambda>entry. fst entry = dimension) actual_usage of Some entry \<Rightarrow> snd entry | None \<Rightarrow> 0)"

definition update_base_fee :: "(ResourceDimension \<times> u64) list \<Rightarrow> DimensionParams \<Rightarrow> DimensionParams" where
  "update_base_fee actual_usage p =
     (let usage = actual_usage_of actual_usage (dp_dimension p);
          adjustment = dp_base_fee p div 8;
          fee = (if dp_target_usage p < usage then sat_add (dp_base_fee p) adjustment
                 else if usage < dp_target_usage p then sat_sub (dp_base_fee p) adjustment
                 else dp_base_fee p)
      in p\<lparr>dp_base_fee := if fee = 0 then 1 else fee\<rparr>)"

definition update_base_fees ::
    "DimensionParams list \<Rightarrow> (ResourceDimension \<times> u64) list \<Rightarrow> DimensionParams list" where
  "update_base_fees params actual_usage = map (update_base_fee actual_usage) params"

section \<open>Validation\<close>

definition check_usage ::
    "DimensionParams list \<Rightarrow> ResourceDimension set \<times> ResourceDimension set \<times> u128 \<Rightarrow>
       ResourceDimension \<times> u64 \<Rightarrow>
       MultidimFeeError list \<times> (ResourceDimension set \<times> ResourceDimension set \<times> u128)" where
  "check_usage params s entry =
     (case (s, entry) of ((seen, duplicate_reported, required), (dimension, usage)) \<Rightarrow>
        let again = dimension \<in> seen;
            reported = (if again then insert dimension duplicate_reported else duplicate_reported)
        in (err_if (again \<and> dimension \<notin> duplicate_reported) (DuplicateDimension dimension) @
            (case find_params params dimension of
               Some p \<Rightarrow> err_if (dp_max_usage p < usage) (ExceedsMaxUsage dimension usage (dp_max_usage p))
             | None \<Rightarrow> []),
            insert dimension seen, reported,
            (case find_params params dimension of
               Some p \<Rightarrow> sat_add required (usage_cost p usage)
             | None \<Rightarrow> required)))"

definition validate_multidim_transaction ::
    "DimensionParams list \<Rightarrow> MultidimTransaction \<Rightarrow> MultidimFeeError list + unit" where
  "validate_multidim_transaction params tx =
     (case scan (check_usage params) ({}, {}, 0) (mt_resource_usage tx) of
        (errors, _, _, required) \<Rightarrow>
          finish (err_if (mt_resource_usage tx = []) NoResourceUsage @ errors @
            err_if (mt_max_fee tx < required) (InsufficientFee required (mt_max_fee tx))))"

section \<open>Base cost: when it is computed, and what it is\<close>

definition cost_of :: "DimensionParams list \<Rightarrow> ResourceDimension \<times> u64 \<Rightarrow> nat" where
  "cost_of params entry =
     (case find_params params (fst entry) of Some p \<Rightarrow> unat (usage_cost p (snd entry)) | None \<Rightarrow> 0)"

definition usage_ok :: "DimensionParams list \<Rightarrow> ResourceDimension \<times> u64 \<Rightarrow> bool" where
  "usage_ok params entry =
     (case find_params params (fst entry) of
        Some p \<Rightarrow> dp_base_fee p \<noteq> 0 \<and> snd entry \<le> dp_max_usage p | None \<Rightarrow> False)"

lemma base_cost_loop_iff:
  "base_cost_loop params seen acc us = Inr t \<longleftrightarrow>
     (\<forall>e \<in> set us. usage_ok params e) \<and> distinct (map fst us) \<and> fst ` set us \<inter> seen = {} \<and>
     unat t = min (unat acc + sum_list (map (cost_of params) us)) (2 ^ 128 - 1)"
proof (induction us arbitrary: seen acc)
  case Nil
  show ?case using unat_le_max [of acc] by (auto simp: word_unat_eq_iff min_def)
next
  case (Cons e us)
  obtain d u where e: "e = (d, u)" by (cases e)
  show ?case
    by (cases "find_params params d")
      (auto simp: e Cons.IH usage_ok_def cost_of_def sat_simps not_less min_def)
qed

corollary compute_base_cost_iff:
  "compute_base_cost params tx = Inr t \<longleftrightarrow>
     mt_resource_usage tx \<noteq> [] \<and> (\<forall>e \<in> set (mt_resource_usage tx). usage_ok params e) \<and>
     distinct (map fst (mt_resource_usage tx)) \<and>
     unat t = min (sum_list (map (cost_of params) (mt_resource_usage tx))) (2 ^ 128 - 1)"
  by (auto simp: compute_base_cost_def base_cost_loop_iff)

section \<open>Division of the fee: nothing is lost\<close>

lemma those_map_Some: "\<forall>x \<in> set xs. f x = Some (g x) \<Longrightarrow> those (map f xs) = Some (map g xs)"
  by (induction xs) simp_all

lemma new_allocation_ok:
  assumes "usage_ok params e"
  obtains a where "new_allocation params e = Some a" and "fa_dimension a = fst e"
    and "fa_allocated_fee a = fa_base_cost a" and "unat (fa_base_cost a) = cost_of params e"
  using assms by (cases e) (auto simp: usage_ok_def new_allocation_def cost_of_def split: option.splits)

lemma allocations_exist:
  assumes "\<forall>e \<in> set us. usage_ok params e"
  obtains as where "those (map (new_allocation params) us) = Some as" and "map fa_dimension as = map fst us"
    and "\<forall>a \<in> set as. fa_allocated_fee a = fa_base_cost a"
    and "map (unat \<circ> fa_base_cost) as = map (cost_of params) us"
proof -
  let ?g = "\<lambda>e. the (new_allocation params e)"
  have *: "new_allocation params e = Some (?g e) \<and> fa_dimension (?g e) = fst e \<and>
      fa_allocated_fee (?g e) = fa_base_cost (?g e) \<and> unat (fa_base_cost (?g e)) = cost_of params e"
    if "e \<in> set us" for e
    using assms that by (metis new_allocation_ok option.sel)
  show thesis
    by (rule that [of "map ?g us"]) (use * in \<open>auto intro: those_map_Some\<close>)
qed

lemma distribute_eq:
  "distribute p t d as = (map (\<lambda>a. add_fee (priority_share p t a) a) as, snd (distribute p t d as))"
  by (induction as arbitrary: d) (simp_all add: Let_def case_prod_unfold, metis fst_conv)

lemma distributed_sum:
  "unat (snd (distribute p t d as)) =
     min (unat d + sum_list (map (unat \<circ> priority_share p t) as)) (2 ^ 128 - 1)"
proof (induction as arbitrary: d)
  case Nil
  show ?case using unat_le_max [of d] by simp
next
  case (Cons a as)
  then show ?case by (simp add: Let_def case_prod_unfold sat_simps)
qed

lemma shares_bounded:
  assumes "t \<noteq> 0" and "sum_list (map (unat \<circ> fa_base_cost) as) \<le> unat t"
  shows "sum_list (map (unat \<circ> priority_share p t) as) \<le> unat p"
proof -
  have "unat (priority_share p t a) * unat t \<le> unat p * unat (fa_base_cost a)" for a
    using assms(1)
    by (simp add: priority_share_def unat_div sat_simps) (meson div_times_less_eq_dividend le_trans min.cobounded1)
  then have "sum_list (map (unat \<circ> priority_share p t) as) * unat t \<le>
      unat p * sum_list (map (unat \<circ> fa_base_cost) as)"
    by (induction as) (auto simp: algebra_simps intro: add_mono)
  also have "\<dots> \<le> unat p * unat t" using assms(2) by simp
  finally show ?thesis using assms(1) by (auto simp: unat_eq_0)
qed

text \<open>Adding what fits adds exactly.\<close>

abbreviation (input) allocated :: "FeeAllocation list \<Rightarrow> nat" where
  "allocated as \<equiv> sum_list (map (unat \<circ> fa_allocated_fee) as)"

lemma allocated_add_fees:
  assumes "allocated as + sum_list (map (unat \<circ> f) as) < 2 ^ 128"
  shows "allocated (map (\<lambda>a. add_fee (f a) a) as) = allocated as + sum_list (map (unat \<circ> f) as)"
  using assms by (induction as) (simp_all add: add_fee_def sat_simps)

lemma allocated_add_first:
  assumes "as \<noteq> []" and "allocated as + unat fee < 2 ^ 128"
  shows "allocated (add_fee_to_first fee as) = allocated as + unat fee"
  using assms by (cases as) (simp_all add: add_fee_to_first_def add_fee_def sat_simps)

lemma pay_priority_eq:
  "pay_priority p t as =
     (if p = 0 \<or> as = [] then as
      else if t = 0 then add_fee_to_first p as
      else add_fee_to_first (sat_sub p (snd (distribute p t 0 as)))
        (map (\<lambda>a. add_fee (priority_share p t a) a) as))"
proof -
  have "fst (distribute p t 0 as) = map (\<lambda>a. add_fee (priority_share p t a) a) as"
    by (subst distribute_eq) simp
  then show ?thesis by (simp add: pay_priority_def case_prod_unfold word_gt_0)
qed

lemma pay_priority_exact:
  assumes "as \<noteq> []" and "\<forall>a \<in> set as. fa_allocated_fee a = fa_base_cost a"
    and "sum_list (map (unat \<circ> fa_base_cost) as) = unat t" and "unat t + unat p < 2 ^ 128"
  shows "allocated (pay_priority p t as) = unat t + unat p"
proof -
  have base: "allocated as = unat t"
    using assms(2) by (simp flip: assms(3) cong: map_cong)
  show ?thesis
  proof (cases "p = 0 \<or> t = 0")
    case False
    let ?s = "sum_list (map (unat \<circ> priority_share p t) as)"
    have s: "?s \<le> unat p" using shares_bounded [of t as p] assms(3) False by simp
    have "allocated (map (\<lambda>a. add_fee (priority_share p t a) a) as) = unat t + ?s"
      using allocated_add_fees [of as "priority_share p t"] base s assms(4) by simp
    moreover have "unat (snd (distribute p t 0 as)) = ?s"
      using distributed_sum [of p t 0 as] s unat_le_max [of p] by simp
    ultimately show ?thesis
      using False assms(1,4) s by (simp add: pay_priority_eq allocated_add_first sat_simps)
  next
    case True
    then show ?thesis
      using assms(1,4) base by (auto simp: pay_priority_eq allocated_add_first)
  qed
qed

lemma pay_priority_keeps:
  "map fa_dimension (pay_priority p t as) = map fa_dimension as"
  "map fa_base_cost (pay_priority p t as) = map fa_base_cost as"
  by (auto simp: pay_priority_eq add_fee_to_first_def add_fee_def split: list.split)

lemma pay_priority_covers:
  assumes "\<forall>a \<in> set as. fa_base_cost a \<le> fa_allocated_fee a"
  shows "\<forall>a \<in> set (pay_priority p t as). fa_base_cost a \<le> fa_allocated_fee a"
proof -
  have step: "fa_base_cost a \<le> fa_allocated_fee a \<Longrightarrow> fa_base_cost (add_fee f a) \<le> fa_allocated_fee (add_fee f a)" for a f
    using sat_add_ge [of "fa_allocated_fee a" f] by (simp add: add_fee_def)
  show ?thesis
    using assms by (auto simp: pay_priority_eq add_fee_to_first_def step split: list.split)
qed

lemma fee_allocation_cases:
  assumes "compute_base_cost params tx = Inr t" and "t \<le> mt_max_fee tx"
  defines "p \<equiv> min (mt_priority_fee tx) (mt_max_fee tx - t)"
  obtains as where "compute_fee_allocation params tx = Some (Inr
      \<lparr>fr_total_base_cost = t, fr_total_fee = t + p, fr_priority_fee_paid = p,
       fr_allocations = pay_priority p t as, fr_is_sufficient = True\<rparr>)"
    and "unat (t + p) = unat t + unat p" and "t + p \<le> mt_max_fee tx"
    and "map fa_dimension as = map fst (mt_resource_usage tx)"
    and "\<forall>a \<in> set as. fa_allocated_fee a = fa_base_cost a"
    and "map (unat \<circ> fa_base_cost) as = map (cost_of params) (mt_resource_usage tx)"
proof -
  from assms(1) have "\<forall>e \<in> set (mt_resource_usage tx). usage_ok params e"
    by (simp add: compute_base_cost_iff)
  then obtain as where as: "those (map (new_allocation params) (mt_resource_usage tx)) = Some as"
      "map fa_dimension as = map fst (mt_resource_usage tx)"
      "\<forall>a \<in> set as. fa_allocated_fee a = fa_base_cost a"
      "map (unat \<circ> fa_base_cost) as = map (cost_of params) (mt_resource_usage tx)"
    by (rule allocations_exist)
  have sub: "sat_sub (mt_max_fee tx) t = mt_max_fee tx - t"
    using assms(2) by (simp add: sat_sub_def)
  have "p \<le> mt_max_fee tx - t" by (simp add: p_def)
  then have le: "unat t + unat p \<le> unat (mt_max_fee tx)"
    using assms(2) by (simp add: word_le_nat_alt unat_sub)
  then have lt: "unat t + unat p < 2 ^ 128" using unat_le_max [of "mt_max_fee tx"] by simp
  then have exact: "unat (t + p) = unat t + unat p" by (simp add: unat_add_lem [THEN iffD1])
  show thesis
  proof (rule that [OF _ exact])
    show "compute_fee_allocation params tx = Some (Inr
      \<lparr>fr_total_base_cost = t, fr_total_fee = t + p, fr_priority_fee_paid = p,
       fr_allocations = pay_priority p t as, fr_is_sufficient = True\<rparr>)"
      using assms(1,2) lt as(1) by (simp add: compute_fee_allocation_def sub p_def Let_def sat_add_def)
    show "t + p \<le> mt_max_fee tx" using le exact by (simp add: word_le_nat_alt)
  qed (fact as)+
qed

lemma fee_allocation_ok:
  "compute_fee_allocation params tx = Some (Inr r) \<Longrightarrow>
     \<exists>t. compute_base_cost params tx = Inr t \<and> t \<le> mt_max_fee tx"
  by (auto simp: compute_fee_allocation_def split: sum.splits if_splits)

text \<open>The \<open>expect\<close> cannot fail.\<close>

lemma fee_allocation_no_panic: "compute_fee_allocation params tx \<noteq> None"
proof (cases "compute_base_cost params tx")
  case (Inl e)
  then show ?thesis by (simp add: compute_fee_allocation_def)
next
  case (Inr t)
  show ?thesis
  proof (cases "t \<le> mt_max_fee tx")
    case True
    with Inr show ?thesis by (auto elim: fee_allocation_cases)
  next
    case False
    with Inr show ?thesis by (simp add: compute_fee_allocation_def)
  qed
qed

text \<open>C17.  The division of a fee conserves it.  When a transaction is accepted, its allocations name
  exactly the dimensions it uses, each covers the base cost of its dimension, and together they are the total
  fee, the base cost plus the priority fee paid, which is within the maximum the transaction offers; no
  unit is lost to the rounding of the shares or to a product that saturates.  The one exception is a
  base cost that reaches the largest 128-bit number.\<close>

theorem fee_allocation_conserves:
  assumes "compute_fee_allocation params tx = Some (Inr r)" and "fr_total_base_cost r \<noteq> - 1"
  shows "sum_list (map (unat \<circ> fa_allocated_fee) (fr_allocations r)) = unat (fr_total_fee r) \<and>
    unat (fr_total_fee r) = unat (fr_total_base_cost r) + unat (fr_priority_fee_paid r) \<and>
    fr_total_fee r \<le> mt_max_fee tx \<and> fr_priority_fee_paid r \<le> mt_priority_fee tx \<and>
    map fa_dimension (fr_allocations r) = map fst (mt_resource_usage tx) \<and>
    (\<forall>a \<in> set (fr_allocations r). fa_base_cost a \<le> fa_allocated_fee a)"
proof -
  obtain t where t: "compute_base_cost params tx = Inr t" "t \<le> mt_max_fee tx"
    using fee_allocation_ok [OF assms(1)] by blast
  let ?p = "min (mt_priority_fee tx) (mt_max_fee tx - t)"
  from t obtain as where as: "compute_fee_allocation params tx = Some (Inr
      \<lparr>fr_total_base_cost = t, fr_total_fee = t + ?p, fr_priority_fee_paid = ?p,
       fr_allocations = pay_priority ?p t as, fr_is_sufficient = True\<rparr>)"
    "unat (t + ?p) = unat t + unat ?p" "t + ?p \<le> mt_max_fee tx"
    "map fa_dimension as = map fst (mt_resource_usage tx)"
    "\<forall>a \<in> set as. fa_allocated_fee a = fa_base_cost a"
    "map (unat \<circ> fa_base_cost) as = map (cost_of params) (mt_resource_usage tx)"
    by (rule fee_allocation_cases)
  from as(1) assms(1) have r: "r = \<lparr>fr_total_base_cost = t, fr_total_fee = t + ?p, fr_priority_fee_paid = ?p,
       fr_allocations = pay_priority ?p t as, fr_is_sufficient = True\<rparr>" by simp
  have "unat t \<noteq> 2 ^ 128 - 1"
    using assms(2) unat_minus_one_word_max [where 'a=128] by (simp add: r word_unat_eq_iff)
  moreover from t(1) have "unat t = min (sum_list (map (cost_of params) (mt_resource_usage tx))) (2 ^ 128 - 1)"
    and ne: "mt_resource_usage tx \<noteq> []"
    unfolding compute_base_cost_iff by blast+
  ultimately have sum: "sum_list (map (unat \<circ> fa_base_cost) as) = unat t" unfolding as(6) by linarith
  have "as \<noteq> []" using as(4) ne by auto
  moreover have "unat t + unat ?p < 2 ^ 128" using as(2) unat_le_max [of "t + ?p"] by simp
  ultimately have "sum_list (map (unat \<circ> fa_allocated_fee) (pay_priority ?p t as)) = unat t + unat ?p"
    using pay_priority_exact [OF _ as(5) sum] by blast
  then show ?thesis
    using as(2,3,4) pay_priority_covers [of as ?p t] as(5) by (simp add: r pay_priority_keeps(1))
qed

definition example_params :: "DimensionParams list" where
  "example_params =
     [\<lparr>dp_dimension = Computation, dp_base_fee = 10, dp_target_usage = 50, dp_max_usage = 100,
       dp_elasticity_multiplier = 2\<rparr>,
      \<lparr>dp_dimension = Storage, dp_base_fee = 20, dp_target_usage = 5, dp_max_usage = 10,
       dp_elasticity_multiplier = 2\<rparr>]"

definition example_multidim :: MultidimTransaction where
  "example_multidim =
     \<lparr>mt_max_fee = 100, mt_resource_usage = [(Computation, 3), (Storage, 2)], mt_priority_fee = 8\<rparr>"

lemma example_fee_allocation:
  "compute_fee_allocation example_params example_multidim = Some (Inr
     \<lparr>fr_total_base_cost = 70, fr_total_fee = 78, fr_priority_fee_paid = 8,
      fr_allocations =
       [\<lparr>fa_dimension = Computation, fa_base_cost = 30, fa_allocated_fee = 34, fa_usage = 3\<rparr>,
        \<lparr>fa_dimension = Storage, fa_base_cost = 40, fa_allocated_fee = 44, fa_usage = 2\<rparr>],
      fr_is_sufficient = True\<rparr>)"
  by (simp add: example_params_def example_multidim_def compute_fee_allocation_def compute_base_cost_def
      find_params_def usage_cost_def sat_mul_def sat_add_def sat_sub_def new_allocation_def pay_priority_def
      add_fee_to_first_def add_fee_def priority_share_def word_less_def word_le_def Let_def min_def)

theorem fee_allocation_conserves_witness:
  "sum_list (map (unat \<circ> fa_allocated_fee) (fr_allocations
     (case compute_fee_allocation example_params example_multidim of Some (Inr r) \<Rightarrow> r))) = 78"
  using fee_allocation_conserves [OF example_fee_allocation] by (simp add: example_fee_allocation)

section \<open>The validator and the division\<close>

lemma scan_check_usage:
  "fst (scan (check_usage params) (seen, {}, acc) us) = [] \<longleftrightarrow>
     (\<forall>e \<in> set us. \<forall>p. find_params params (fst e) = Some p \<longrightarrow> snd e \<le> dp_max_usage p) \<and>
     distinct (map fst us) \<and> fst ` set us \<inter> seen = {}"
  by (induction us arbitrary: seen acc)
    (auto simp: case_prod_unfold check_usage_def Let_def not_less split: option.splits if_splits)

lemma scan_required:
  "unat (snd (snd (snd (scan (check_usage params) (seen, reported, acc) us)))) =
     min (unat acc + sum_list (map (cost_of params) us)) (2 ^ 128 - 1)"
proof (induction us arbitrary: seen reported acc)
  case Nil
  show ?case using unat_le_max [of acc] by simp
next
  case (Cons e us)
  then show ?case
    by (cases e) (auto simp: case_prod_unfold check_usage_def cost_of_def Let_def sat_simps split: option.splits)
qed

lemma validate_multidim_iff:
  "validate_multidim_transaction params tx = Inr () \<longleftrightarrow>
     mt_resource_usage tx \<noteq> [] \<and> distinct (map fst (mt_resource_usage tx)) \<and>
     (\<forall>e \<in> set (mt_resource_usage tx). \<forall>p. find_params params (fst e) = Some p \<longrightarrow> snd e \<le> dp_max_usage p) \<and>
     min (sum_list (map (cost_of params) (mt_resource_usage tx))) (2 ^ 128 - 1) \<le> unat (mt_max_fee tx)"
  using scan_check_usage [of params "{}" 0 "mt_resource_usage tx"]
    scan_required [of params "{}" "{}" 0 "mt_resource_usage tx"]
  by (auto simp: validate_multidim_transaction_def case_prod_unfold not_less word_le_nat_alt)

text \<open>The validator and the division agree, except on dimensions without parameters: a transaction is
  divided exactly when the validator passes it and every dimension it uses has parameters with a base
  fee above zero.  The validator itself passes a transaction that uses unknown dimensions, at no cost.\<close>

theorem fee_allocation_accepts_iff:
  "(\<exists>r. compute_fee_allocation params tx = Some (Inr r)) \<longleftrightarrow>
     validate_multidim_transaction params tx = Inr () \<and>
     (\<forall>(dimension, _) \<in> set (mt_resource_usage tx).
        \<exists>p. find_params params dimension = Some p \<and> dp_base_fee p \<noteq> 0)"
proof -
  have "(\<exists>r. compute_fee_allocation params tx = Some (Inr r)) \<longleftrightarrow>
      (\<exists>t. compute_base_cost params tx = Inr t \<and> t \<le> mt_max_fee tx)"
    by (metis fee_allocation_ok fee_allocation_cases)
  also have "\<dots> \<longleftrightarrow> mt_resource_usage tx \<noteq> [] \<and> (\<forall>e \<in> set (mt_resource_usage tx). usage_ok params e) \<and>
      distinct (map fst (mt_resource_usage tx)) \<and>
      min (sum_list (map (cost_of params) (mt_resource_usage tx))) (2 ^ 128 - 1) \<le> unat (mt_max_fee tx)"
    (is "_ \<longleftrightarrow> ?rhs")
  proof
    assume ?rhs
    let ?m = "min (sum_list (map (cost_of params) (mt_resource_usage tx))) (2 ^ 128 - 1)"
    have "?m < 2 ^ 128" by simp
    then have "unat (of_nat ?m :: u128) = ?m" by (simp add: unsigned_of_nat take_bit_eq_mod del: min_less_iff_conj)
    with \<open>?rhs\<close> have "compute_base_cost params tx = Inr (of_nat ?m)" and "(of_nat ?m :: u128) \<le> mt_max_fee tx"
      unfolding compute_base_cost_iff word_le_nat_alt by auto
    then show "\<exists>t. compute_base_cost params tx = Inr t \<and> t \<le> mt_max_fee tx" by blast
  qed (auto simp: compute_base_cost_iff word_le_nat_alt)
  also have "\<dots> \<longleftrightarrow> validate_multidim_transaction params tx = Inr () \<and>
     (\<forall>(dimension, _) \<in> set (mt_resource_usage tx).
        \<exists>p. find_params params dimension = Some p \<and> dp_base_fee p \<noteq> 0)"
    unfolding validate_multidim_iff usage_ok_def by (fastforce split: option.splits)
  finally show ?thesis .
qed

lemma unknown_dimension_validates:
  "validate_multidim_transaction [] \<lparr>mt_max_fee = 0, mt_resource_usage = [(BlobData, 5)], mt_priority_fee = 0\<rparr> = Inr () \<and>
   compute_fee_allocation [] \<lparr>mt_max_fee = 0, mt_resource_usage = [(BlobData, 5)], mt_priority_fee = 0\<rparr> =
     Some (Inl (ZeroBaseFee BlobData))"
  by (simp add: validate_multidim_iff cost_of_def find_params_def compute_fee_allocation_def compute_base_cost_def)

section \<open>Base fees\<close>

text \<open>A base fee moves by at most an eighth, towards the usage, and stays positive.\<close>

lemma base_fee_moves:
  fixes usage :: "(ResourceDimension \<times> u64) list" and p :: DimensionParams
  assumes "dp_base_fee p \<noteq> 0"
  defines "u \<equiv> actual_usage_of usage (dp_dimension p)" and "fee \<equiv> unat (dp_base_fee p)"
  shows "unat (dp_base_fee (update_base_fee usage p)) =
    (if dp_target_usage p < u then min (fee + fee div 8) (2 ^ 128 - 1)
     else if u < dp_target_usage p then fee - fee div 8 else fee)"
proof -
  have pos: "0 < fee" using assms(1) by (simp add: fee_def unat_gt_0)
  let ?new = "if dp_target_usage p < u then sat_add (dp_base_fee p) (dp_base_fee p div 8)
     else if u < dp_target_usage p then sat_sub (dp_base_fee p) (dp_base_fee p div 8) else dp_base_fee p"
  have new: "unat ?new = (if dp_target_usage p < u then min (fee + fee div 8) (2 ^ 128 - 1)
     else if u < dp_target_usage p then fee - fee div 8 else fee)"
    by (simp add: sat_simps unat_div fee_def)
  have "fee div 8 < fee" using pos by simp
  with pos have "0 < unat ?new" by (subst new) simp
  then have "?new \<noteq> 0" by (rule contrapos_pn) (simp only: unat_0)
  then have "dp_base_fee (update_base_fee usage p) = ?new"
    unfolding update_base_fee_def Let_def u_def by (cases p) (simp only: DimensionParams.simps DimensionParams.update_convs if_False)
  with new show ?thesis by (simp only:)
qed

lemma base_fee_positive: "dp_base_fee (update_base_fee usage p) \<noteq> 0"
  by (simp add: update_base_fee_def Let_def)

text \<open>Below eight the fee does not move, however full the blocks are.\<close>

lemma small_base_fee_stuck:
  assumes "0 < dp_base_fee p" and "dp_base_fee p < 8"
  shows "update_base_fee usage p = p"
proof -
  have "unat (dp_base_fee p) < 8" using assms(2) by (simp add: word_less_nat_alt)
  then have "unat (dp_base_fee p div 8) = 0" by (simp add: unat_div)
  then have "dp_base_fee p div 8 = 0" by (simp add: unat_eq_0)
  with assms(1) show ?thesis by (auto simp: update_base_fee_def Let_def sat_sub_def)
qed

theorem fee_allocation_accepts_iff_witness:
  "validate_multidim_transaction example_params example_multidim = Inr () \<and>
   (\<exists>r. compute_fee_allocation example_params example_multidim = Some (Inr r))"
  using fee_allocation_accepts_iff [of example_params example_multidim] by (simp add: example_fee_allocation)

end
