(* ===== verification/Frame_Tx.thy ===== *)
theory Frame_Tx
  imports Validation Encoding
begin

text \<open>
  Frame transactions (EIP-8141), \<open>crates/eth2077-types/src/eip8141.rs\<close>: a transaction is a list of
  frames, each in a phase.  The validator, the hash, the statistics and the cost.  SHA-256 is the parameter
  \<open>sha\<close>.
\<close>

section \<open>Data\<close>

datatype FramePhase = Validation | Authorization | Sponsorship | Deployment | Execution

record Frame =
  fr_phase :: FramePhase
  fr_target :: Address
  fr_calldata :: bytes
  fr_gas_limit :: u64
  fr_value :: u128

record FrameTransaction =
  ft_sender :: Address
  ft_nonce :: u64
  ft_max_fee_per_gas :: u128
  ft_max_priority_fee_per_gas :: u128
  ft_frames :: "Frame list"
  ft_signature :: bytes

datatype FrameTxError =
    EmptyFrames
  | MissingPhase FramePhase
  | DuplicatePhase FramePhase
  | InvalidPhaseOrder FramePhase FramePhase
  | ZeroGasLimit nat
  | ExcessiveTotalGas u64 u64
  | EmptySignature

record FrameTxStats =
  fs_frame_count :: nat
  fs_total_gas_limit :: u64
  fs_total_value :: u128
  fs_phases_present :: "FramePhase list"
  fs_total_calldata_bytes :: nat

definition MAX_TOTAL_GAS :: u64 where
  "MAX_TOTAL_GAS = 30000000"

definition REQUIRED_PHASE_ORDER :: "FramePhase list" where
  "REQUIRED_PHASE_ORDER = [Validation, Authorization, Sponsorship, Deployment, Execution]"

fun phase_discriminant :: "FramePhase \<Rightarrow> u8" where
  "phase_discriminant Validation = 0"
| "phase_discriminant Authorization = 1"
| "phase_discriminant Sponsorship = 2"
| "phase_discriminant Deployment = 3"
| "phase_discriminant Execution = 4"

definition phase_index :: "FramePhase \<Rightarrow> nat" where
  "phase_index phase = unat (phase_discriminant phase)"

section \<open>Validation\<close>

text \<open>The loop remembers the phases seen, the gas so far and the phase before.\<close>

type_synonym frame_memory = "FramePhase set \<times> u128 \<times> nat option"

definition check_frame :: "frame_memory \<Rightarrow> nat \<times> Frame \<Rightarrow> FrameTxError list \<times> frame_memory" where
  "check_frame s entry =
     (case (s, entry) of ((seen_phases, total_gas, previous_phase_index), (frame_index, frame)) \<Rightarrow>
        let current_index = phase_index (fr_phase frame) in
        (err_if (fr_gas_limit frame = 0) (ZeroGasLimit frame_index) @
         err_if (fr_phase frame \<in> seen_phases) (DuplicatePhase (fr_phase frame)) @
         (case previous_phase_index of
            Some prev_index \<Rightarrow> err_if (current_index < prev_index)
              (InvalidPhaseOrder (REQUIRED_PHASE_ORDER ! prev_index) (fr_phase frame))
          | None \<Rightarrow> []),
         insert (fr_phase frame) seen_phases, sat_add total_gas (ucast (fr_gas_limit frame)),
         Some current_index))"

definition validate_frame_transaction :: "FrameTransaction \<Rightarrow> FrameTxError list + unit" where
  "validate_frame_transaction tx =
     (case scan check_frame ({}, 0, None) (enumerate 0 (ft_frames tx)) of
        (errors, seen_phases, total_gas, _) \<Rightarrow>
          finish (err_if (ft_frames tx = []) EmptyFrames @
            err_if (ft_signature tx = []) EmptySignature @
            errors @
            err_if (Validation \<notin> seen_phases) (MissingPhase Validation) @
            err_if (Execution \<notin> seen_phases) (MissingPhase Execution) @
            err_if (ucast MAX_TOTAL_GAS < total_gas)
              (ExcessiveTotalGas (ucast (min total_gas (ucast (- 1 :: u64)))) MAX_TOTAL_GAS)))"

section \<open>Hash, statistics and cost\<close>

definition frame_bytes :: "Frame \<Rightarrow> bytes" where
  "frame_bytes frame =
     [phase_discriminant (fr_phase frame)] @ be_bytes (fr_target frame) @
     be_bytes (fr_gas_limit frame) @ be_bytes (fr_value frame) @ fr_calldata frame"

definition frame_tx_preimage :: "FrameTransaction \<Rightarrow> bytes" where
  "frame_tx_preimage tx =
     be_bytes (ft_sender tx) @ be_bytes (ft_nonce tx) @ be_bytes (ft_max_fee_per_gas tx) @
     concat (map frame_bytes (ft_frames tx))"

definition compute_frame_tx_hash :: "(bytes \<Rightarrow> B256) \<Rightarrow> FrameTransaction \<Rightarrow> B256" where
  "compute_frame_tx_hash sha tx = sha (frame_tx_preimage tx)"

text \<open>\<open>usize::saturating_add\<close> on lengths that fit.\<close>

definition frame_stats_step :: "Frame \<Rightarrow> FrameTxStats \<Rightarrow> FrameTxStats" where
  "frame_stats_step frame s =
     s\<lparr>fs_total_gas_limit := sat_add (fs_total_gas_limit s) (fr_gas_limit frame),
       fs_total_value := sat_add (fs_total_value s) (fr_value frame),
       fs_total_calldata_bytes :=
         min (fs_total_calldata_bytes s + length (fr_calldata frame)) (2 ^ 64 - 1),
       fs_phases_present :=
         (if fr_phase frame \<in> set (fs_phases_present s) then fs_phases_present s
          else fs_phases_present s @ [fr_phase frame])\<rparr>"

definition compute_frame_tx_stats :: "FrameTransaction \<Rightarrow> FrameTxStats" where
  "compute_frame_tx_stats tx =
     fold frame_stats_step (ft_frames tx)
       \<lparr>fs_frame_count = length (ft_frames tx), fs_total_gas_limit = 0, fs_total_value = 0,
        fs_phases_present = [], fs_total_calldata_bytes = 0\<rparr>"

definition estimate_frame_tx_cost :: "FrameTransaction \<Rightarrow> u128 \<Rightarrow> u128" where
  "estimate_frame_tx_cost tx base_fee =
     foldl (\<lambda>total_cost frame.
         sat_add (sat_add total_cost (sat_mul (ucast (fr_gas_limit frame)) base_fee)) (fr_value frame))
       0 (ft_frames tx)"

definition extract_sponsorship_target :: "FrameTransaction \<Rightarrow> Address option" where
  "extract_sponsorship_target tx =
     map_option fr_target (find (\<lambda>frame. fr_phase frame = Sponsorship) (ft_frames tx))"

section \<open>Phases\<close>

lemma phase_index_simps [simp]:
  "phase_index Validation = 0" "phase_index Authorization = 1" "phase_index Sponsorship = 2"
  "phase_index Deployment = 3" "phase_index Execution = 4"
  by (simp_all add: phase_index_def)

lemma phase_index_inj [simp]: "phase_index p = phase_index q \<longleftrightarrow> p = q"
  by (cases p; cases q) simp_all

lemma phase_index_bound: "phase_index p \<le> 4"
  by (cases p) simp_all

text \<open>The index into \<open>REQUIRED_PHASE_ORDER\<close> is in range, and names the phase.\<close>

lemma required_phase_order: "REQUIRED_PHASE_ORDER ! phase_index p = p"
  by (cases p) (simp_all add: REQUIRED_PHASE_ORDER_def numeral_eq_Suc)

text \<open>Strictly increasing phases.\<close>

abbreviation phase_indices :: "Frame list \<Rightarrow> nat list" where
  "phase_indices frames \<equiv> map (\<lambda>f. phase_index (fr_phase f)) frames"

lemma scan_frames:
  assumes "case prev of None \<Rightarrow> seen = {} | Some i \<Rightarrow> (\<exists>p \<in> seen. phase_index p = i) \<and> (\<forall>p \<in> seen. phase_index p \<le> i)"
  shows "fst (scan check_frame (seen, g, prev) (enumerate n frames)) = [] \<longleftrightarrow>
    (\<forall>f \<in> set frames. fr_gas_limit f \<noteq> 0) \<and> sorted_wrt (<) (phase_indices frames) \<and>
    (\<forall>f \<in> set frames. \<forall>p \<in> seen. phase_index p < phase_index (fr_phase f))"
  using assms
proof (induction frames arbitrary: seen g prev n)
  case Nil
  then show ?case by simp
next
  case (Cons f frames)
  let ?i = "phase_index (fr_phase f)"
  let ?step = "fr_phase f \<notin> seen \<and> (case prev of None \<Rightarrow> True | Some i \<Rightarrow> i \<le> ?i)"
  have step: "?step \<longleftrightarrow> (\<forall>p \<in> seen. phase_index p < ?i)"
    using Cons.prems by (cases prev) (auto simp: order.strict_iff_order)
  have body: "fst (check_frame (seen, g, prev) (n, f)) = [] \<longleftrightarrow> fr_gas_limit f \<noteq> 0 \<and> ?step"
    by (auto simp: check_frame_def Let_def not_less split: option.splits)
  have next_state: "snd (check_frame (seen, g, prev) (n, f)) =
      (insert (fr_phase f) seen, sat_add g (ucast (fr_gas_limit f)), Some ?i)"
    by (simp add: check_frame_def Let_def)
  show ?case
  proof (cases "?step")
    case True
    then have "\<forall>p \<in> insert (fr_phase f) seen. phase_index p \<le> ?i"
      using step by (auto intro: less_imp_le)
    then have "case Some ?i of None \<Rightarrow> insert (fr_phase f) seen = {}
       | Some i \<Rightarrow> (\<exists>p \<in> insert (fr_phase f) seen. phase_index p = i) \<and> (\<forall>p \<in> insert (fr_phase f) seen. phase_index p \<le> i)"
      by simp
    from Cons.IH [OF this] show ?thesis
      using True body step by (auto simp: case_prod_unfold next_state)
  next
    case False
    then show ?thesis using body step by (auto simp: case_prod_unfold)
  qed
qed

lemma scan_frame_memory:
  "snd (scan check_frame (seen, g, prev) (enumerate n frames)) =
     (seen \<union> fr_phase ` set frames, fold (\<lambda>f g. sat_add g (ucast (fr_gas_limit f))) frames g,
      if frames = [] then prev else Some (phase_index (fr_phase (last frames))))"
  by (induction frames arbitrary: seen g prev n) (auto simp: case_prod_unfold check_frame_def Let_def)

text \<open>A strictly increasing list of phases with the first and the last phase starts and ends with them.\<close>

lemma first_and_last_phase:
  assumes "sorted_wrt (<) (phase_indices frames)"
  shows "Validation \<in> fr_phase ` set frames \<longleftrightarrow> frames \<noteq> [] \<and> fr_phase (hd frames) = Validation"
    and "Execution \<in> fr_phase ` set frames \<longleftrightarrow> frames \<noteq> [] \<and> fr_phase (last frames) = Execution"
proof -
  show "Validation \<in> fr_phase ` set frames \<longleftrightarrow> frames \<noteq> [] \<and> fr_phase (hd frames) = Validation"
  proof (cases frames)
    case (Cons f fs)
    with assms have "\<forall>g \<in> set fs. phase_index (fr_phase f) < phase_index (fr_phase g)" by simp
    then have "fr_phase g \<noteq> Validation" if "g \<in> set fs" for g
      using that by (metis less_zeroE phase_index_simps(1))
    then have "Validation \<notin> fr_phase ` set fs" by (metis imageE)
    with Cons show ?thesis by auto
  qed simp
  have "fr_phase f = Execution \<Longrightarrow> f \<in> set frames \<Longrightarrow> fr_phase (last frames) = Execution" for f
    using assms
  proof (cases frames rule: rev_cases)
    case (snoc fs l)
    assume f: "fr_phase f = Execution" "f \<in> set frames"
    have "phase_index Execution < phase_index (fr_phase l)" if "f \<in> set fs"
      using assms f(1) that by (auto simp: snoc sorted_wrt_append)
    with phase_index_bound [of "fr_phase l"] have "f \<notin> set fs" by auto
    with f show ?thesis by (auto simp: snoc)
  qed simp
  then show "Execution \<in> fr_phase ` set frames \<longleftrightarrow> frames \<noteq> [] \<and> fr_phase (last frames) = Execution"
    by (metis empty_iff imageE image_eqI last_in_set list.set(1))
qed

lemma frame_valid_iff:
  "validate_frame_transaction tx = Inr () \<longleftrightarrow>
     ft_signature tx \<noteq> [] \<and> ft_frames tx \<noteq> [] \<and> (\<forall>f \<in> set (ft_frames tx). fr_gas_limit f \<noteq> 0) \<and>
     sorted_wrt (<) (phase_indices (ft_frames tx)) \<and>
     fr_phase (hd (ft_frames tx)) = Validation \<and> fr_phase (last (ft_frames tx)) = Execution \<and>
     sum_list (map (unat \<circ> fr_gas_limit) (ft_frames tx)) \<le> 30000000"
proof -
  let ?fs = "ft_frames tx"
  let ?g = "fold (\<lambda>f g. sat_add g (ucast (fr_gas_limit f))) ?fs 0 :: u128"
  have "unat ?g = min (sum_list (map (unat \<circ> fr_gas_limit) ?fs)) (2 ^ 128 - 1)"
    by (subst unat_fold_sat_add) (simp add: comp_def)
  then have gas: "\<not> ucast MAX_TOTAL_GAS < ?g \<longleftrightarrow> sum_list (map (unat \<circ> fr_gas_limit) ?fs) \<le> 30000000"
    by (simp add: MAX_TOTAL_GAS_def word_less_nat_alt not_less)
  have "validate_frame_transaction tx = Inr () \<longleftrightarrow>
     ?fs \<noteq> [] \<and> ft_signature tx \<noteq> [] \<and> fst (scan check_frame ({}, 0, None) (enumerate 0 ?fs)) = [] \<and>
     Validation \<in> fr_phase ` set ?fs \<and> Execution \<in> fr_phase ` set ?fs \<and> \<not> ucast MAX_TOTAL_GAS < ?g"
    by (simp add: validate_frame_transaction_def case_prod_unfold scan_frame_memory)
  then show ?thesis
    unfolding gas using scan_frames [of "{}" None 0 0 ?fs] first_and_last_phase [of ?fs] by auto
qed

definition example_frame :: "FramePhase \<Rightarrow> u64 \<Rightarrow> bytes \<Rightarrow> Frame" where
  "example_frame phase gas calldata =
     \<lparr>fr_phase = phase, fr_target = 7, fr_calldata = calldata, fr_gas_limit = gas, fr_value = 0\<rparr>"

definition example_frame_tx :: "Frame list \<Rightarrow> FrameTransaction" where
  "example_frame_tx frames =
     \<lparr>ft_sender = 1, ft_nonce = 0, ft_max_fee_per_gas = 100, ft_max_priority_fee_per_gas = 1,
      ft_frames = frames, ft_signature = [1]\<rparr>"

text \<open>There are at most five frames in an accepted transaction.\<close>

lemma valid_frame_count:
  assumes "validate_frame_transaction tx = Inr ()"
  shows "length (ft_frames tx) \<le> 5"
proof -
  have "sorted_wrt (<) (phase_indices (ft_frames tx))"
    using assms by (simp add: frame_valid_iff)
  then have "distinct (phase_indices (ft_frames tx))" by (simp add: strict_sorted_iff)
  moreover have "set (phase_indices (ft_frames tx)) \<subseteq> {0..4}" using phase_index_bound by auto
  ultimately have "length (phase_indices (ft_frames tx)) \<le> card {0..4 :: nat}"
    by (metis card_mono distinct_card finite_atLeastAtMost)
  then show ?thesis by simp
qed

text \<open>A frame transaction is accepted exactly when it is signed, every frame has gas, the phases
  strictly increase from \<open>Validation\<close> to \<open>Execution\<close> (so that no phase occurs twice and there are two
  to five frames), and the gas of all frames together is within the limit, with no wrap-around.\<close>

theorem frame_transaction_valid_iff:
  "(validate_frame_transaction tx = Inr () \<longleftrightarrow>
     ft_signature tx \<noteq> [] \<and> ft_frames tx \<noteq> [] \<and> (\<forall>f \<in> set (ft_frames tx). fr_gas_limit f \<noteq> 0) \<and>
     sorted_wrt (<) (phase_indices (ft_frames tx)) \<and>
     fr_phase (hd (ft_frames tx)) = Validation \<and> fr_phase (last (ft_frames tx)) = Execution \<and>
     sum_list (map (unat \<circ> fr_gas_limit) (ft_frames tx)) \<le> 30000000) \<and>
   (validate_frame_transaction tx = Inr () \<longrightarrow> length (ft_frames tx) \<in> {2..5})"
proof (intro conjI impI)
  assume valid: "validate_frame_transaction tx = Inr ()"
  then have ne: "ft_frames tx \<noteq> []" and ends: "fr_phase (hd (ft_frames tx)) = Validation"
      "fr_phase (last (ft_frames tx)) = Execution"
    by (simp_all add: frame_valid_iff)
  have "length (ft_frames tx) \<noteq> Suc 0"
    using ends by (cases "ft_frames tx") auto
  with ne valid_frame_count [OF valid] show "length (ft_frames tx) \<in> {2..5}"
    by (cases "length (ft_frames tx)") (simp_all add: Suc_le_eq)
qed (rule frame_valid_iff)

theorem frame_transaction_valid_iff_witness:
  "validate_frame_transaction (example_frame_tx
     [example_frame Validation 50000 [], example_frame Sponsorship 60000 [1],
      example_frame Execution 70000 [2, 3]]) = Inr () \<and>
   validate_frame_transaction (example_frame_tx
     [example_frame Validation 50000 [], example_frame Execution 29960000 []]) \<noteq> Inr ()"
  using frame_transaction_valid_iff [of "example_frame_tx
     [example_frame Validation 50000 [], example_frame Sponsorship 60000 [1],
      example_frame Execution 70000 [2, 3]]"]
    frame_transaction_valid_iff [of "example_frame_tx
     [example_frame Validation 50000 [], example_frame Execution 29960000 []]"]
  by (simp add: example_frame_tx_def example_frame_def)

section \<open>Statistics and cost\<close>

lemma frame_stats_fold:
  "fs_frame_count (fold frame_stats_step fs s) = fs_frame_count s"
  "set (fs_phases_present (fold frame_stats_step fs s)) = set (fs_phases_present s) \<union> fr_phase ` set fs"
  "distinct (fs_phases_present s) \<Longrightarrow> distinct (fs_phases_present (fold frame_stats_step fs s))"
  "fs_total_gas_limit (fold frame_stats_step fs s) =
     fold (\<lambda>f g. sat_add g (fr_gas_limit f)) fs (fs_total_gas_limit s)"
  "fs_total_value (fold frame_stats_step fs s) =
     fold (\<lambda>f g. sat_add g (fr_value f)) fs (fs_total_value s)"
  by (induction fs arbitrary: s) (auto simp: frame_stats_step_def)

lemma frame_tx_stats:
  "fs_frame_count (compute_frame_tx_stats tx) = length (ft_frames tx)"
  "set (fs_phases_present (compute_frame_tx_stats tx)) = fr_phase ` set (ft_frames tx)"
  "distinct (fs_phases_present (compute_frame_tx_stats tx))"
  "unat (fs_total_gas_limit (compute_frame_tx_stats tx)) =
     min (sum_list (map (unat \<circ> fr_gas_limit) (ft_frames tx))) (2 ^ 64 - 1)"
  "unat (fs_total_value (compute_frame_tx_stats tx)) =
     min (sum_list (map (unat \<circ> fr_value) (ft_frames tx))) (2 ^ 128 - 1)"
  by (simp_all add: compute_frame_tx_stats_def frame_stats_fold unat_fold_sat_add)

lemma frame_tx_cost:
  "unat (estimate_frame_tx_cost tx base_fee) =
     min (sum_list (map (\<lambda>f. unat (fr_gas_limit f) * unat base_fee + unat (fr_value f)) (ft_frames tx))) (2 ^ 128 - 1)"
proof -
  have "unat (foldl (\<lambda>t f. sat_add (sat_add t (sat_mul (ucast (fr_gas_limit f)) base_fee)) (fr_value f)) c fs) =
      min (unat c + sum_list (map (\<lambda>f. unat (fr_gas_limit f) * unat base_fee + unat (fr_value f)) fs)) (2 ^ 128 - 1)"
    for c :: u128 and fs
  proof (induction fs arbitrary: c)
    case Nil
    show ?case using unat_le_max [of c] by simp
  next
    case (Cons f fs)
    then show ?case by (simp add: sat_simps)
  qed
  from this [of 0] show ?thesis by (simp add: estimate_frame_tx_cost_def)
qed

section \<open>What the hash binds\<close>

text \<open>The hash takes the frames one after the other, and a frame ends with its call data, whose length is
  not hashed.  Two transactions with call data of the same lengths have the same preimage only when
  sender, nonce, maximum fee and frames agree.\<close>

lemma frame_bytes_split:
  assumes "length (fr_calldata f) = length (fr_calldata f')" and "frame_bytes f @ us = frame_bytes f' @ vs"
  shows "f = f' \<and> us = vs"
proof -
  have "phase_discriminant p = phase_discriminant q \<Longrightarrow> p = q" for p q
    using phase_index_inj [of p q] by (simp add: phase_index_def)
  with assms show ?thesis by (auto simp: frame_bytes_def)
qed

lemma frame_preimage_binds:
  assumes "map (length \<circ> fr_calldata) (ft_frames tx) = map (length \<circ> fr_calldata) (ft_frames tx')"
    and "frame_tx_preimage tx = frame_tx_preimage tx'"
  shows "ft_sender tx = ft_sender tx' \<and> ft_nonce tx = ft_nonce tx' \<and>
    ft_max_fee_per_gas tx = ft_max_fee_per_gas tx' \<and> ft_frames tx = ft_frames tx'"
proof -
  have frames: "concat (map frame_bytes fs) = concat (map frame_bytes fs') \<Longrightarrow> fs = fs'"
    if "map (length \<circ> fr_calldata) fs = map (length \<circ> fr_calldata) fs'" for fs fs'
    using that
  proof (induction fs arbitrary: fs')
    case (Cons f fs)
    then obtain f' rest where fs': "fs' = f' # rest" by (cases fs') auto
    with Cons.prems have "length (fr_calldata f) = length (fr_calldata f')"
      and "frame_bytes f @ concat (map frame_bytes fs) = frame_bytes f' @ concat (map frame_bytes rest)" by simp_all
    from frame_bytes_split [OF this] Cons fs' show ?case by auto
  qed simp
  from assms(2) have "ft_sender tx = ft_sender tx' \<and> ft_nonce tx = ft_nonce tx' \<and>
      ft_max_fee_per_gas tx = ft_max_fee_per_gas tx' \<and>
      concat (map frame_bytes (ft_frames tx)) = concat (map frame_bytes (ft_frames tx'))"
    by (simp add: frame_tx_preimage_def)
  with frames [OF assms(1)] show ?thesis by blast
qed

text \<open>The hash of a frame transaction does not determine the transaction.  Whatever the hash function,
  a frame can be moved into the call data of the frame before it without changing the hash: for every
  accepted transaction of three or more frames there is a different accepted one, with one frame less
  to execute, that has the same hash.\<close>

theorem frame_hash_collision:
  assumes "validate_frame_transaction tx = Inr ()" and "ft_frames tx = f # g # rest" and "rest \<noteq> []"
  defines "tx' \<equiv> tx\<lparr>ft_frames := f\<lparr>fr_calldata := fr_calldata f @ frame_bytes g\<rparr> # rest\<rparr>"
  shows "compute_frame_tx_hash sha tx' = compute_frame_tx_hash sha tx \<and>
    validate_frame_transaction tx' = Inr () \<and> ft_frames tx' \<noteq> ft_frames tx"
proof (intro conjI)
  show "compute_frame_tx_hash sha tx' = compute_frame_tx_hash sha tx"
    using assms(2) by (simp add: compute_frame_tx_hash_def frame_tx_preimage_def tx'_def frame_bytes_def)
  show "validate_frame_transaction tx' = Inr ()"
    using assms(1-3) unfolding frame_valid_iff tx'_def by auto
  show "ft_frames tx' \<noteq> ft_frames tx"
    using arg_cong [of "ft_frames tx'" "ft_frames tx" length] assms(2) by (auto simp: tx'_def)
qed

theorem frame_hash_collision_witness:
  "compute_frame_tx_hash word_of_be (example_frame_tx
     [example_frame Validation 50000 (frame_bytes (example_frame Sponsorship 60000 [1])),
      example_frame Execution 70000 [2, 3]]) =
   compute_frame_tx_hash word_of_be (example_frame_tx
     [example_frame Validation 50000 [], example_frame Sponsorship 60000 [1],
      example_frame Execution 70000 [2, 3]])"
proof -
  let ?tx = "example_frame_tx [example_frame Validation 50000 [], example_frame Sponsorship 60000 [1],
      example_frame Execution 70000 [2, 3]]"
  have "validate_frame_transaction ?tx = Inr ()"
    by (simp add: frame_valid_iff example_frame_tx_def example_frame_def)
  from frame_hash_collision [OF this, where sha = word_of_be] show ?thesis
    by (simp add: example_frame_tx_def example_frame_def)
qed

end
