(* ===== verification/Proof_Attestation.thy ===== *)
theory Proof_Attestation
  imports Validation Encoding
begin

text \<open>
  Execution proofs of several clients (EIP-8025), \<open>crates/eth2077-types/src/eip8025.rs\<close>: an attestation
  of a block carries one proof per client, and needs enough different ones.  SHA-256 is the
  parameter \<open>sha\<close>.
\<close>

section \<open>Data\<close>

datatype ClientImplementation = Geth | Nethermind | Besu | Erigon | Reth

record ExecutionProof =
  ep_block_number :: u64
  ep_block_hash :: B256
  ep_state_root_before :: B256
  ep_state_root_after :: B256
  ep_proof_data :: bytes
  ep_prover_client :: ClientImplementation

record ProofAttestation =
  pa_block_number :: u64
  pa_block_hash :: B256
  pa_proofs :: "ExecutionProof list"
  pa_attester_id :: B256

datatype ProofValidationError =
    InsufficientClientDiversity nat nat
  | BlockHashMismatch nat
  | EmptyProofs
  | DuplicateClient ClientImplementation
  | StateRootMismatch nat
  | ProofDataEmpty nat

record ProofConsensusConfig =
  required_client_diversity :: nat
  total_known_clients :: nat

record ProofAttestationStats =
  as_block_number :: u64
  as_unique_clients :: nat
  as_total_proof_bytes :: nat
  as_meets_diversity_threshold :: bool
  as_state_roots_consistent :: bool

definition default_proof_config :: ProofConsensusConfig where
  "default_proof_config = \<lparr>required_client_diversity = 3, total_known_clients = 5\<rparr>"

fun client_discriminant :: "ClientImplementation \<Rightarrow> u8" where
  "client_discriminant Geth = 0"
| "client_discriminant Nethermind = 1"
| "client_discriminant Besu = 2"
| "client_discriminant Erigon = 3"
| "client_discriminant Reth = 4"

section \<open>Operations\<close>

definition check_proof ::
    "B256 \<Rightarrow> B256 option \<Rightarrow> ClientImplementation set \<Rightarrow> nat \<times> ExecutionProof \<Rightarrow>
       ProofValidationError list \<times> ClientImplementation set" where
  "check_proof block_hash expected_state_root_after unique_clients entry =
     (case entry of (proof_index, p) \<Rightarrow>
        (err_if (ep_block_hash p \<noteq> block_hash) (BlockHashMismatch proof_index) @
         err_if (ep_prover_client p \<in> unique_clients) (DuplicateClient (ep_prover_client p)) @
         err_if (ep_proof_data p = []) (ProofDataEmpty proof_index) @
         (case expected_state_root_after of
            Some expected \<Rightarrow> err_if (ep_state_root_after p \<noteq> expected) (StateRootMismatch proof_index)
          | None \<Rightarrow> []),
         insert (ep_prover_client p) unique_clients))"

definition first_state_root :: "ExecutionProof list \<Rightarrow> B256 option" where
  "first_state_root proofs = (case proofs of [] \<Rightarrow> None | p # _ \<Rightarrow> Some (ep_state_root_after p))"

definition validate_proof_attestation ::
    "ProofAttestation \<Rightarrow> ProofConsensusConfig \<Rightarrow> ProofValidationError list + unit" where
  "validate_proof_attestation attestation config =
     (case scan (check_proof (pa_block_hash attestation) (first_state_root (pa_proofs attestation))) {}
         (enumerate 0 (pa_proofs attestation)) of
        (errors, unique_clients) \<Rightarrow>
          finish (err_if (pa_proofs attestation = []) EmptyProofs @ errors @
            err_if (card unique_clients < required_client_diversity config)
              (InsufficientClientDiversity (card unique_clients) (required_client_diversity config))))"

definition check_client_diversity :: "ExecutionProof list \<Rightarrow> nat \<Rightarrow> bool" where
  "check_client_diversity proofs required \<longleftrightarrow>
     required \<le> card (fold (\<lambda>p clients. insert (ep_prover_client p) clients) proofs {})"

definition compute_attestation_stats ::
    "ProofAttestation \<Rightarrow> ProofConsensusConfig \<Rightarrow> ProofAttestationStats" where
  "compute_attestation_stats attestation config =
     (case fold (\<lambda>p (clients, n). (insert (ep_prover_client p) clients,
           min (n + length (ep_proof_data p)) (2 ^ 64 - 1))) (pa_proofs attestation) ({}, 0) of
        (unique_clients, total_proof_bytes) \<Rightarrow>
          \<lparr>as_block_number = pa_block_number attestation,
           as_unique_clients = card unique_clients,
           as_total_proof_bytes = total_proof_bytes,
           as_meets_diversity_threshold = (required_client_diversity config \<le> card unique_clients),
           as_state_roots_consistent =
             (case pa_proofs attestation of [] \<Rightarrow> True
              | p # _ \<Rightarrow> list_all (\<lambda>q. ep_state_root_after q = ep_state_root_after p) (pa_proofs attestation))\<rparr>)"

definition proof_preimage :: "ExecutionProof \<Rightarrow> bytes" where
  "proof_preimage p =
     be_bytes (ep_block_number p) @ be_bytes (ep_block_hash p) @ be_bytes (ep_state_root_before p) @
     be_bytes (ep_state_root_after p) @ ep_proof_data p @ [client_discriminant (ep_prover_client p)]"

definition compute_proof_commitment :: "(bytes \<Rightarrow> B256) \<Rightarrow> ExecutionProof \<Rightarrow> B256" where
  "compute_proof_commitment sha p = sha (proof_preimage p)"

section \<open>Properties\<close>

definition proof_ok :: "B256 \<Rightarrow> B256 option \<Rightarrow> ExecutionProof \<Rightarrow> bool" where
  "proof_ok block_hash expected p \<longleftrightarrow> ep_block_hash p = block_hash \<and> ep_proof_data p \<noteq> [] \<and>
     (expected = None \<or> expected = Some (ep_state_root_after p))"

interpretation proofs: key_scan "check_proof block_hash expected" "ep_prover_client \<circ> snd"
    "\<lambda>e. proof_ok block_hash expected (snd e)" for block_hash expected
  by unfold_locales (auto simp: check_proof_def proof_ok_def split: option.splits)

lemma unique_clients_fold: "fold (\<lambda>p clients. insert (ep_prover_client p) clients) ps s = s \<union> ep_prover_client ` set ps"
  by (induction ps arbitrary: s) auto

lemma unique_clients_fold2:
  "fst (fold (\<lambda>p s. (insert (ep_prover_client p) (fst s), f p s)) ps s) = fst s \<union> ep_prover_client ` set ps"
  by (induction ps arbitrary: s) auto

lemma attestation_stats:
  "as_unique_clients (compute_attestation_stats a c) = card (ep_prover_client ` set (pa_proofs a))"
  "as_meets_diversity_threshold (compute_attestation_stats a c) \<longleftrightarrow>
     required_client_diversity c \<le> card (ep_prover_client ` set (pa_proofs a))"
  "as_state_roots_consistent (compute_attestation_stats a c) \<longleftrightarrow>
     (\<forall>p \<in> set (pa_proofs a). ep_state_root_after p = ep_state_root_after (hd (pa_proofs a)))"
  by (simp_all add: compute_attestation_stats_def case_prod_unfold unique_clients_fold2 list_all_iff split: list.split)

lemma attestation_valid:
  "validate_proof_attestation a c = Inr () \<longleftrightarrow>
     pa_proofs a \<noteq> [] \<and> distinct (map ep_prover_client (pa_proofs a)) \<and>
     (\<forall>p \<in> set (pa_proofs a). ep_block_hash p = pa_block_hash a \<and> ep_proof_data p \<noteq> [] \<and>
        ep_state_root_after p = ep_state_root_after (hd (pa_proofs a))) \<and>
     required_client_diversity c \<le> length (pa_proofs a)"
proof -
  let ?ps = "pa_proofs a"
  let ?scan = "scan (check_proof (pa_block_hash a) (first_state_root ?ps)) {} (enumerate 0 ?ps)"
  have clients: "snd ?scan = ep_prover_client ` set ?ps"
    unfolding proofs.scan_seen by (metis (no_types) Un_empty_left image_comp list.set_map map_snd_enumerate)
  have errors: "fst ?scan = [] \<longleftrightarrow> (\<forall>p \<in> set ?ps. proof_ok (pa_block_hash a) (first_state_root ?ps) p) \<and>
      distinct (map ep_prover_client ?ps)"
    unfolding proofs.scan_all by (simp add: enumerate_elements enumerate_keys comp_def)
  have root: "first_state_root ?ps = None \<or> first_state_root ?ps = Some r \<longleftrightarrow> ?ps = [] \<or> r = ep_state_root_after (hd ?ps)" for r
    by (auto simp: first_state_root_def split: list.split)
  have card: "distinct (map ep_prover_client ?ps) \<Longrightarrow> card (ep_prover_client ` set ?ps) = length ?ps"
    by (metis distinct_card length_map list.set_map)
  show ?thesis
    unfolding validate_proof_attestation_def case_prod_unfold finish_ok clients append_is_Nil_conv err_if_Nil errors
      proof_ok_def root
    using card by (auto simp: not_less)
qed

text \<open>An attestation is accepted exactly when it carries at least as many proofs as clients are required,
  each of a different client, all of them for the attested block, with data, and all with one state root; the
  statistics and the separate diversity check then agree with the validator.\<close>

theorem attestation_valid_iff:
  "(validate_proof_attestation a c = Inr () \<longleftrightarrow>
     pa_proofs a \<noteq> [] \<and> distinct (map ep_prover_client (pa_proofs a)) \<and>
     (\<forall>p \<in> set (pa_proofs a). ep_block_hash p = pa_block_hash a \<and> ep_proof_data p \<noteq> [] \<and>
        ep_state_root_after p = ep_state_root_after (hd (pa_proofs a))) \<and>
     required_client_diversity c \<le> length (pa_proofs a)) \<and>
   (validate_proof_attestation a c = Inr () \<longrightarrow>
     as_meets_diversity_threshold (compute_attestation_stats a c) \<and>
     as_state_roots_consistent (compute_attestation_stats a c) \<and>
     as_unique_clients (compute_attestation_stats a c) = length (pa_proofs a) \<and>
     check_client_diversity (pa_proofs a) (required_client_diversity c))"
proof (intro conjI impI attestation_valid)
  assume "validate_proof_attestation a c = Inr ()"
  then have v: "distinct (map ep_prover_client (pa_proofs a))" "required_client_diversity c \<le> length (pa_proofs a)"
    "\<forall>p \<in> set (pa_proofs a). ep_state_root_after p = ep_state_root_after (hd (pa_proofs a))"
    unfolding attestation_valid by blast+
  have card: "card (ep_prover_client ` set (pa_proofs a)) = length (pa_proofs a)"
    using v(1) by (metis distinct_card length_map list.set_map)
  show "as_meets_diversity_threshold (compute_attestation_stats a c)"
    and "as_unique_clients (compute_attestation_stats a c) = length (pa_proofs a)"
    using v(2) card by (simp_all add: attestation_stats)
  show "as_state_roots_consistent (compute_attestation_stats a c)"
    unfolding attestation_stats by (rule v(3))
  show "check_client_diversity (pa_proofs a) (required_client_diversity c)"
    using v(2) card by (simp add: check_client_diversity_def unique_clients_fold)
qed

text \<open>There are five clients: a larger requirement can never be met.\<close>

lemma diversity_bound:
  assumes "5 < required_client_diversity c"
  shows "validate_proof_attestation a c \<noteq> Inr ()"
proof
  assume "validate_proof_attestation a c = Inr ()"
  then have "distinct (map ep_prover_client (pa_proofs a))" and "required_client_diversity c \<le> length (pa_proofs a)"
    by (simp_all add: attestation_valid)
  moreover have "set (map ep_prover_client (pa_proofs a)) \<subseteq> {Geth, Nethermind, Besu, Erigon, Reth}"
    using ClientImplementation.exhaust by blast
  then have "card (set (map ep_prover_client (pa_proofs a))) \<le> card {Geth, Nethermind, Besu, Erigon, Reth}"
    by (intro card_mono) auto
  ultimately show False using assms by (simp add: distinct_card del: set_map)
qed

text \<open>The commitment binds every field of a proof.\<close>

lemma proof_preimage_inj: "proof_preimage p = proof_preimage q \<Longrightarrow> p = q"
proof -
  have "client_discriminant c = client_discriminant d \<Longrightarrow> c = d" for c d
    by (cases c; cases d) simp_all
  then show "proof_preimage p = proof_preimage q \<Longrightarrow> p = q" by (auto simp: proof_preimage_def)
qed

definition example_proof :: "ClientImplementation \<Rightarrow> ExecutionProof" where
  "example_proof client =
     \<lparr>ep_block_number = 1, ep_block_hash = 5, ep_state_root_before = 6, ep_state_root_after = 7,
      ep_proof_data = [1, 2], ep_prover_client = client\<rparr>"

definition example_attestation :: "ClientImplementation list \<Rightarrow> ProofAttestation" where
  "example_attestation clients =
     \<lparr>pa_block_number = 1, pa_block_hash = 5, pa_proofs = map example_proof clients, pa_attester_id = 9\<rparr>"

theorem attestation_valid_iff_witness:
  "validate_proof_attestation (example_attestation [Geth, Reth, Besu]) default_proof_config = Inr () \<and>
   validate_proof_attestation (example_attestation [Geth, Reth, Geth]) default_proof_config \<noteq> Inr ()"
  using attestation_valid_iff [of "example_attestation [Geth, Reth, Besu]" default_proof_config]
    attestation_valid_iff [of "example_attestation [Geth, Reth, Geth]" default_proof_config]
  by (simp add: example_attestation_def example_proof_def default_proof_config_def)

end
