(* ===== verification/Witness_Sync.thy ===== *)
theory Witness_Sync
  imports Prelude
begin

text \<open>
  Witnesses and their identifiers, \<open>crates/eth2077-types/src/witness.rs\<close>, and the fingerprints peers
  compare to find out whether they hold the same witnesses, \<open>crates/eth2077-types/src/spore_sync.rs\<close>.
  The loops over the 32 bytes are kept: a hash is a list of bytes here, of length 32.  The
  JSON text of a payload, which \<open>serde_json\<close> writes, is the parameter \<open>json\<close>.
\<close>

section \<open>Witnesses\<close>

record WitnessCid =
  cid_hash :: bytes
  cid_codec :: u8
  cid_version :: u8

record WitnessPayload =
  wp_block_hash :: B256
  wp_block_number :: u64
  wp_state_root :: B256
  wp_receipts_root :: B256
  wp_proof_data :: bytes
  wp_timestamp :: u64

record WitnessCommitment =
  wc_cid :: WitnessCid
  wc_block_hash :: B256
  wc_block_number :: u64
  wc_proposer_signature :: bytes

datatype WitnessVerifyResult =
  Valid | InvalidCid | MismatchedStateRoot | MissingProofData | SignatureInvalid

definition xor_into :: "nat \<times> u8 \<Rightarrow> bytes \<Rightarrow> bytes" where
  "xor_into entry hash = (case entry of (index, byte) \<Rightarrow> hash[index mod 32 := xor (hash ! (index mod 32)) byte])"

definition from_payload :: "(WitnessPayload \<Rightarrow> bytes) \<Rightarrow> WitnessPayload \<Rightarrow> WitnessCid" where
  "from_payload json payload =
     \<lparr>cid_hash = fold xor_into (enumerate 0 (json payload)) (replicate 32 0), cid_codec = 1, cid_version = 1\<rparr>"

definition witness_is_valid :: "WitnessPayload \<Rightarrow> bool" where
  "witness_is_valid payload \<longleftrightarrow> wp_proof_data payload \<noteq> [] \<and> 0 < wp_block_number payload"

definition verify_binding ::
    "(WitnessPayload \<Rightarrow> bytes) \<Rightarrow> WitnessCommitment \<Rightarrow> WitnessPayload \<Rightarrow> WitnessVerifyResult" where
  "verify_binding json commitment payload =
     (if wp_proof_data payload = [] then MissingProofData
      else if from_payload json payload \<noteq> wc_cid commitment then InvalidCid
      else if wc_proposer_signature commitment = [] \<or>
          list_all (\<lambda>byte. byte = 0) (wc_proposer_signature commitment) then SignatureInvalid
      else if wc_block_hash commitment \<noteq> wp_block_hash payload then MismatchedStateRoot
      else Valid)"

section \<open>Fingerprints\<close>

record SporeFingerprint =
  xor_accumulator :: bytes
  fp_count :: nat

definition SporeFingerprint_new :: SporeFingerprint where
  "SporeFingerprint_new = \<lparr>xor_accumulator = replicate 32 0, fp_count = 0\<rparr>"

definition spore_insert :: "bytes \<Rightarrow> SporeFingerprint \<Rightarrow> SporeFingerprint" where
  "spore_insert cid fp =
     \<lparr>xor_accumulator = map2 xor (xor_accumulator fp) cid, fp_count = fp_count fp + 1\<rparr>"

definition spore_remove :: "bytes \<Rightarrow> SporeFingerprint \<Rightarrow> SporeFingerprint" where
  "spore_remove cid fp =
     \<lparr>xor_accumulator = map2 xor (xor_accumulator fp) cid, fp_count = fp_count fp - 1\<rparr>"

definition is_synced_with :: "SporeFingerprint \<Rightarrow> SporeFingerprint \<Rightarrow> bool" where
  "is_synced_with fp other \<longleftrightarrow> fp = other"

definition spore_difference :: "SporeFingerprint \<Rightarrow> SporeFingerprint \<Rightarrow> bytes" where
  "spore_difference fp other =
     map (\<lambda>((out, lhs), rhs). xor lhs rhs)
       (zip (zip (replicate 32 0) (xor_accumulator fp)) (xor_accumulator other) :: ((u8 \<times> u8) \<times> u8) list)"

record SporeSyncRequest =
  sr_local_fingerprint :: SporeFingerprint
  sr_peer_id :: B256
  sr_requested_range :: "u64 \<times> u64"

record SporeSyncResponse =
  sp_missing_cid_hashes :: "bytes list"
  sp_peer_fingerprint :: SporeFingerprint

datatype SporeSyncError = EmptySet | PeerUnreachable | FingerprintMismatch | RangeOutOfBounds

section \<open>Bytewise exclusive or\<close>

text \<open>The contract of an accumulator in which every element is its own inverse, and what it gives for
  the accumulated value of a list: the order does not matter, and common elements cancel.\<close>

locale involutive_group =
  fixes carrier :: "'a set" and f :: "'a \<Rightarrow> 'a \<Rightarrow> 'a" and e :: 'a
  assumes closed: "a \<in> carrier \<Longrightarrow> b \<in> carrier \<Longrightarrow> f a b \<in> carrier"
    and commute: "f a b = f b a"
    and assoc: "f (f a b) c = f a (f b c)"
    and unit_closed: "e \<in> carrier"
    and unit: "a \<in> carrier \<Longrightarrow> f a e = a"
    and self_inverse: "a \<in> carrier \<Longrightarrow> f a a = e"
begin

lemma left_commute: "f a (f b c) = f b (f a c)"
  by (metis assoc commute)

lemma cancel: "a \<in> carrier \<Longrightarrow> b \<in> carrier \<Longrightarrow> f (f a b) b = a"
  by (simp add: assoc self_inverse unit)

lemma fold_closed: "set xs \<subseteq> carrier \<Longrightarrow> a \<in> carrier \<Longrightarrow> fold f xs a \<in> carrier"
  by (induction xs arbitrary: a) (auto simp: closed)

lemma fold_pull: "fold f xs (f a b) = f a (fold f xs b)"
  by (induction xs arbitrary: b) (simp_all, metis left_commute)

lemma fold_append_unit:
  assumes "set xs \<subseteq> carrier" and "set ys \<subseteq> carrier"
  shows "fold f (xs @ ys) e = f (fold f xs e) (fold f ys e)"
  using fold_pull [of ys "fold f xs e" e] fold_closed [OF assms(1) unit_closed] by (simp add: unit)

lemma fold_mset: "mset xs = mset ys \<Longrightarrow> fold f xs a = fold f ys a"
  by (rule fun_cong [OF fold_multiset_equiv]) (auto simp: fun_eq_iff left_commute)

lemma fold_partition:
  assumes "set xs \<subseteq> carrier"
  shows "fold f xs e = f (fold f (filter P xs) e) (fold f (filter (\<lambda>x. \<not> P x) xs) e)"
proof -
  have "mset xs = mset (filter P xs @ filter (\<lambda>x. \<not> P x) xs)"
    using multiset_partition [of "mset xs" P] by simp
  then have "fold f xs e = fold f (filter P xs @ filter (\<lambda>x. \<not> P x) xs) e" by (rule fold_mset)
  also have "\<dots> = f (fold f (filter P xs) e) (fold f (filter (\<lambda>x. \<not> P x) xs) e)"
    using assms by (intro fold_append_unit) auto
  finally show ?thesis .
qed

lemma symmetric_difference:
  assumes "distinct xs" and "distinct ys" and "set xs \<subseteq> carrier" and "set ys \<subseteq> carrier"
  shows "f (fold f xs e) (fold f ys e) =
    fold f (filter (\<lambda>x. x \<notin> set ys) xs @ filter (\<lambda>y. y \<notin> set xs) ys) e"
proof -
  let ?both = "fold f (filter (\<lambda>x. x \<in> set ys) xs) e"
  let ?left = "fold f (filter (\<lambda>x. x \<notin> set ys) xs) e"
  let ?right = "fold f (filter (\<lambda>y. y \<notin> set xs) ys) e"
  have "mset (filter (\<lambda>y. y \<in> set xs) ys) = mset (filter (\<lambda>x. x \<in> set ys) xs)"
    using assms(1,2) by (intro set_eq_iff_mset_eq_distinct [THEN iffD1]) auto
  then have both: "fold f (filter (\<lambda>y. y \<in> set xs) ys) e = ?both" by (rule fold_mset)
  have in_carrier: "?both \<in> carrier" "?left \<in> carrier"
    using assms(3) by (auto intro!: fold_closed unit_closed)
  have "f (fold f xs e) (fold f ys e) = f (f ?both ?left) (f ?both ?right)"
    using fold_partition [OF assms(3), of "\<lambda>x. x \<in> set ys"] fold_partition [OF assms(4), of "\<lambda>y. y \<in> set xs"] both
    by simp
  also have "\<dots> = f (f (f ?left ?both) ?both) ?right" by (simp only: assoc commute [of ?both ?left])
  also have "\<dots> = f ?left ?right" using cancel in_carrier by simp
  also have "\<dots> = fold f (filter (\<lambda>x. x \<notin> set ys) xs @ filter (\<lambda>y. y \<notin> set xs) ys) e"
    using assms(3,4) by (intro fold_append_unit [symmetric]) auto
  finally show ?thesis .
qed

end

lemma map2_xor_commute: "map2 xor a b = map2 xor b (a :: bytes)"
  by (rule nth_equalityI) (simp_all add: xor.commute)

interpretation hash_xor: involutive_group "{bs :: bytes. length bs = 32}" "map2 xor" "replicate 32 0"
proof unfold_locales
  fix a b c :: bytes
  show "map2 xor a b = map2 xor b a" by (rule map2_xor_commute)
  show "map2 xor (map2 xor a b) c = map2 xor a (map2 xor b c)"
    by (rule nth_equalityI) (simp_all add: xor.assoc)
  show "a \<in> {bs. length bs = 32} \<Longrightarrow> map2 xor a (replicate 32 0) = a"
    by (rule nth_equalityI) simp_all
  show "a \<in> {bs. length bs = 32} \<Longrightarrow> map2 xor a a = replicate 32 0"
    by (rule nth_equalityI) simp_all
qed simp_all

lemma singleton_list: "set zs = {z} \<Longrightarrow> distinct zs \<Longrightarrow> zs = [z]"
  by (cases zs; cases "tl zs") auto

section \<open>What fingerprints tell\<close>

definition fingerprint :: "bytes list \<Rightarrow> SporeFingerprint" where
  "fingerprint cids = fold spore_insert cids SporeFingerprint_new"

lemma fingerprint_fields:
  "fold spore_insert cids fp =
     \<lparr>xor_accumulator = fold (map2 xor) cids (xor_accumulator fp), fp_count = fp_count fp + length cids\<rparr>"
  by (induction cids arbitrary: fp) (simp_all add: spore_insert_def map2_xor_commute)

lemma fingerprint_eq:
  "fingerprint cids = \<lparr>xor_accumulator = fold (map2 xor) cids (replicate 32 0), fp_count = length cids\<rparr>"
  by (simp add: fingerprint_def fingerprint_fields SporeFingerprint_new_def)

lemma fingerprint_singleton: "xor_accumulator (fingerprint [cid]) = map2 xor cid (replicate 32 0)"
  by (simp only: fingerprint_eq fold.simps SporeFingerprint.simps comp_apply id_apply)

lemma length_fingerprint: "\<forall>cid \<in> set cids. length cid = 32 \<Longrightarrow> length (xor_accumulator (fingerprint cids)) = 32"
  using hash_xor.fold_closed [of cids, OF _ hash_xor.unit_closed] by (auto simp: fingerprint_eq)

lemma remove_insert:
  "length (xor_accumulator fp) = 32 \<Longrightarrow> length cid = 32 \<Longrightarrow> spore_remove cid (spore_insert cid fp) = fp"
  using hash_xor.cancel [of "xor_accumulator fp" cid] by (simp add: spore_remove_def spore_insert_def)

lemma spore_difference_xor:
  "length (xor_accumulator fp) = 32 \<Longrightarrow> spore_difference fp other = map2 xor (xor_accumulator fp) (xor_accumulator other)"
  by (rule nth_equalityI) (simp_all add: spore_difference_def)

text \<open>Fingerprints summarise sets.  Two peers that hold the same CIDs are found in sync whatever the order
  of insertion, and otherwise the difference of their fingerprints is the fingerprint of the CIDs
  that only one of them holds: what both hold cancels.  When one peer lacks a single CID, the
  difference is that CID.\<close>

theorem spore_difference_spec:
  assumes "distinct xs" and "distinct ys" and "\<forall>cid \<in> set xs \<union> set ys. length cid = 32"
  shows "(set xs = set ys \<longrightarrow> is_synced_with (fingerprint xs) (fingerprint ys)) \<and>
    spore_difference (fingerprint xs) (fingerprint ys) =
      xor_accumulator (fingerprint (filter (\<lambda>x. x \<notin> set ys) xs @ filter (\<lambda>y. y \<notin> set xs) ys)) \<and>
    (\<forall>cid. set xs = insert cid (set ys) \<and> cid \<notin> set ys \<longrightarrow>
       spore_difference (fingerprint xs) (fingerprint ys) = cid)"
proof -
  have c: "set xs \<subseteq> {bs. length bs = 32}" "set ys \<subseteq> {bs. length bs = 32}" using assms(3) by auto
  have len: "length (xor_accumulator (fingerprint xs)) = 32" using assms(3) by (intro length_fingerprint) blast
  have diff: "spore_difference (fingerprint xs) (fingerprint ys) =
      xor_accumulator (fingerprint (filter (\<lambda>x. x \<notin> set ys) xs @ filter (\<lambda>y. y \<notin> set xs) ys))"
    unfolding spore_difference_xor [OF len] unfolding fingerprint_eq SporeFingerprint.simps
    by (rule hash_xor.symmetric_difference [OF assms(1,2) c])
  have "is_synced_with (fingerprint xs) (fingerprint ys)" if "set xs = set ys"
  proof -
    from that have "mset xs = mset ys" using assms(1,2) set_eq_iff_mset_eq_distinct by blast
    then show ?thesis
      by (simp only: is_synced_with_def fingerprint_eq hash_xor.fold_mset [of xs ys] mset_eq_length [of xs ys])
  qed
  moreover have "spore_difference (fingerprint xs) (fingerprint ys) = cid"
    if "set xs = insert cid (set ys)" "cid \<notin> set ys" for cid
  proof -
    have "set (filter (\<lambda>x. x \<notin> set ys) xs) = {cid}" using that by auto
    moreover have "distinct (filter (\<lambda>x. x \<notin> set ys) xs)" using assms(1) by simp
    ultimately have "filter (\<lambda>x. x \<notin> set ys) xs = [cid]" by (rule singleton_list)
    moreover have "filter (\<lambda>y. y \<notin> set xs) ys = []" using that by (auto simp: filter_empty_conv)
    moreover have "length cid = 32" using that(1) assms(3) by blast
    ultimately show ?thesis
      unfolding diff using hash_xor.unit [of cid] by (simp only: append_Nil2 fingerprint_singleton mem_Collect_eq)
  qed
  ultimately show ?thesis using diff by blast
qed

definition example_cid :: "u8 \<Rightarrow> bytes" where
  "example_cid b = replicate 31 0 @ [b]"

theorem spore_difference_spec_witness:
  "spore_difference (fingerprint [example_cid 1, example_cid 2, example_cid 3])
     (fingerprint [example_cid 3, example_cid 1]) = example_cid 2"
proof -
  have "distinct [example_cid 1, example_cid 2, example_cid 3]" and "distinct [example_cid 3, example_cid 1]"
    and "\<forall>cid \<in> set [example_cid 1, example_cid 2, example_cid 3] \<union> set [example_cid 3, example_cid 1]. length cid = 32"
    by (auto simp: example_cid_def)
  from spore_difference_spec [OF this] have "set [example_cid 1, example_cid 2, example_cid 3] =
      insert (example_cid 2) (set [example_cid 3, example_cid 1]) \<and> example_cid 2 \<notin> set [example_cid 3, example_cid 1] \<longrightarrow>
    spore_difference (fingerprint [example_cid 1, example_cid 2, example_cid 3])
      (fingerprint [example_cid 3, example_cid 1]) = example_cid 2"
    by blast
  then show ?thesis by (auto simp: example_cid_def)
qed

text \<open>Equal fingerprints do not mean equal sets, and removing a CID that is not there leaves its trace.\<close>

lemma spore_false_sync:
  "is_synced_with (fingerprint [example_cid 1, example_cid 2]) (fingerprint [example_cid 4, example_cid 7])"
  by (simp add: is_synced_with_def fingerprint_eq example_cid_def numeral_eq_Suc)

lemma remove_absent: "spore_remove (example_cid 1) SporeFingerprint_new = \<lparr>xor_accumulator = example_cid 1, fp_count = 0\<rparr>"
  by (simp add: spore_remove_def SporeFingerprint_new_def example_cid_def numeral_eq_Suc)

section \<open>What an identifier binds\<close>

lemma xor_into_commute: "xor_into x (xor_into y hash) = xor_into y (xor_into x hash)"
proof -
  obtain i a j b where xy: "x = (i, a)" "y = (j, b)" by (cases x; cases y)
  show ?thesis
  proof (cases "i mod 32 = j mod 32")
    case True
    then show ?thesis
      by (cases "j mod 32 < length hash") (simp_all add: xy xor_into_def xor.assoc xor.commute [of a b] list_update_beyond)
  next
    case False
    then show ?thesis by (simp add: xy xor_into_def list_update_swap)
  qed
qed

text \<open>The identifier depends only on which bytes stand in which column of 32.\<close>

lemma cid_by_columns:
  assumes "mset (map (\<lambda>(i, b). (i mod 32, b)) (enumerate 0 (json p))) =
    mset (map (\<lambda>(i, b). (i mod 32, b)) (enumerate 0 (json q)))"
  shows "from_payload json p = from_payload json q"
proof -
  have col: "xor_into (case e of (i, b) \<Rightarrow> (i mod 32, b)) = xor_into e" for e
    by (rule ext) (simp add: xor_into_def case_prod_unfold)
  have "fold xor_into (enumerate 0 bs) h = fold xor_into (map (\<lambda>(i, b). (i mod 32, b)) (enumerate 0 bs)) h" for bs h
    by (simp add: fold_map comp_def col)
  moreover from assms have "fold xor_into (map (\<lambda>(i, b). (i mod 32, b)) (enumerate 0 (json p))) =
      fold xor_into (map (\<lambda>(i, b). (i mod 32, b)) (enumerate 0 (json q)))"
    by (rule fold_multiset_equiv [rotated]) (auto simp: fun_eq_iff xor_into_commute)
  ultimately show ?thesis by (simp add: from_payload_def)
qed

text \<open>What binding to a commitment means: the payload has proof data, its identifier is the committed one, the
  signature is not all zeros, and the block hash is the committed one.  This is weaker than it should
  be.  The identifier is no hash: two payloads whose texts differ by exchanging two bytes that stand a
  multiple of 32 apart have the same identifier, so that for the same block each is accepted for the other;
  and the block number of the commitment is never looked at.\<close>

theorem verify_binding_spec:
  "(verify_binding json commitment p = Valid \<longleftrightarrow>
     wp_proof_data p \<noteq> [] \<and> wc_cid commitment = from_payload json p \<and>
     (\<exists>byte \<in> set (wc_proposer_signature commitment). byte \<noteq> 0) \<and> wc_block_hash commitment = wp_block_hash p) \<and>
   (json p = u @ a # m @ b # v \<and> json q = u @ b # m @ a # v \<and> length m mod 32 = 31 \<and>
    wp_proof_data p \<noteq> [] \<and> wp_proof_data q \<noteq> [] \<and> wp_block_hash p = wp_block_hash q \<longrightarrow>
    verify_binding json commitment q = verify_binding json commitment p) \<and>
   verify_binding json (commitment\<lparr>wc_block_number := n\<rparr>) p = verify_binding json commitment p"
proof -
  have "verify_binding json commitment q = verify_binding json commitment p"
    if "json p = u @ a # m @ b # v" "json q = u @ b # m @ a # v" "length m mod 32 = 31"
      "wp_proof_data p \<noteq> []" "wp_proof_data q \<noteq> []" "wp_block_hash p = wp_block_hash q"
  proof -
    have "Suc (length u + length m) mod 32 = (length u + Suc (length m)) mod 32" by simp
    also have "\<dots> = (length u mod 32 + Suc (length m) mod 32) mod 32" by (simp only: mod_simps)
    also have "Suc (length m) mod 32 = 0" using that(3) by presburger
    finally have "Suc (length u + length m) mod 32 = length u mod 32" by simp
    then have "from_payload json q = from_payload json p"
      using that(1,2) by (intro cid_by_columns) (simp add: enumerate_append_eq add_mset_commute)
    with that(4-6) show ?thesis by (simp add: verify_binding_def)
  qed
  then show ?thesis by (auto simp: verify_binding_def list_all_iff)
qed

definition example_payload :: "bytes \<Rightarrow> WitnessPayload" where
  "example_payload data =
     \<lparr>wp_block_hash = 5, wp_block_number = 1, wp_state_root = 6, wp_receipts_root = 7,
      wp_proof_data = data, wp_timestamp = 8\<rparr>"

definition example_commitment :: WitnessCommitment where
  "example_commitment =
     \<lparr>wc_cid = from_payload wp_proof_data (example_payload (1 # replicate 31 0 @ [2])), wc_block_hash = 5,
      wc_block_number = 1, wc_proposer_signature = [9]\<rparr>"

theorem verify_binding_spec_witness:
  "verify_binding wp_proof_data example_commitment (example_payload (2 # replicate 31 0 @ [1])) = Valid"
proof -
  let ?p = "example_payload (1 # replicate 31 0 @ [2])" and ?q = "example_payload (2 # replicate 31 0 @ [1])"
  note spec = verify_binding_spec [where json = wp_proof_data and commitment = example_commitment and p = ?p
      and q = ?q and u = "[]" and a = 1 and m = "replicate 31 0" and b = 2 and v = "[]"]
  have p: "wp_proof_data ?p = [] @ 1 # replicate 31 0 @ 2 # []"
    and q: "wp_proof_data ?q = [] @ 2 # replicate 31 0 @ 1 # []"
    and ne: "wp_proof_data ?p \<noteq> []" "wp_proof_data ?q \<noteq> []"
    and h: "wp_block_hash ?p = wp_block_hash ?q" and m: "length (replicate 31 (0::u8)) mod 32 = 31"
    by (simp_all add: example_payload_def)
  have "verify_binding wp_proof_data example_commitment ?q = verify_binding wp_proof_data example_commitment ?p"
    using spec [THEN conjunct2, THEN conjunct1] p q h m ne by blast
  moreover have "verify_binding wp_proof_data example_commitment ?p = Valid"
    using p by (simp add: verify_binding_def example_commitment_def example_payload_def)
  ultimately show ?thesis by simp
qed

end
