(* ===== verification/Citadel_Port.thy ===== *)
theory Citadel_Port
  imports Validation Json
begin

text \<open>
  The port of the Citadel modules, \<open>crates/eth2077-types/src/citadel_port.rs\<close>: a plan of migrations
  that depend on each other, its validator, and the search for a dependency cycle.  The search is a
  depth-first traversal with colours; an index out of range would be a panic, \<open>None\<close> here.
  The ratios of the statistics are floating-point numbers and are left out.
\<close>

section \<open>Data\<close>

datatype CitadelModule =
    VoteAccumulator | ForkChoice | Finalization | SlashingDetector | AttestationPool
  | CommitteeShuffler | BlockProduction | StateTransition | EpochProcessing | SyncProtocol

datatype PlaceholderKind =
    PkAxiom | PkSorry | PkTodo | PkUnimplemented | PkStub | PkMockReturn | PkHardcodedValue | PkSkippedValidation

datatype ProofStatus =
    NotStarted | Sketched | PartialProof | FullProofDraft | FullProofReviewed | MachineChecked | Rejected

datatype MigrationPhase =
    Analysis | InterfaceDesign | CorePort | TestMigration | PlaceholderElimination
  | ProofCompletion | IntegrationTest | ProductionReady

record PlaceholderEntry =
  ph_location :: string
  ph_kind :: PlaceholderKind
  ph_description :: string
  ph_blocking_proofs :: "string list"
  ph_severity :: u8

record ModuleMigration =
  mm_module :: CitadelModule
  mm_phase :: MigrationPhase
  mm_placeholders :: "PlaceholderEntry list"
  mm_proof_status :: ProofStatus
  mm_lines_ported :: nat
  mm_lines_remaining :: nat
  mm_dependencies :: "CitadelModule list"

record CitadelPortConfig =
  cp_target_module :: CitadelModule
  cp_migrations :: "ModuleMigration list"
  cp_max_allowed_placeholders :: nat
  cp_require_machine_checked :: bool
  cp_max_severity_allowed :: u8

datatype CitadelPortValidationError =
    EmptyMigrations
  | TooManyPlaceholders nat nat
  | HighSeverityPlaceholder string u8
  | CyclicDependency "string list"
  | ProofIncomplete string

text \<open>\<open>format!("{:?}", module)\<close>.\<close>

fun citadel_module_name :: "CitadelModule \<Rightarrow> string" where
  "citadel_module_name VoteAccumulator = ''VoteAccumulator''"
| "citadel_module_name ForkChoice = ''ForkChoice''"
| "citadel_module_name Finalization = ''Finalization''"
| "citadel_module_name SlashingDetector = ''SlashingDetector''"
| "citadel_module_name AttestationPool = ''AttestationPool''"
| "citadel_module_name CommitteeShuffler = ''CommitteeShuffler''"
| "citadel_module_name BlockProduction = ''BlockProduction''"
| "citadel_module_name StateTransition = ''StateTransition''"
| "citadel_module_name EpochProcessing = ''EpochProcessing''"
| "citadel_module_name SyncProtocol = ''SyncProtocol''"

section \<open>Dependency cycles\<close>

text \<open>\<open>Iterator::position\<close>.\<close>

fun position :: "('a \<Rightarrow> bool) \<Rightarrow> 'a list \<Rightarrow> nat option" where
  "position P [] = None"
| "position P (x # xs) = (if P x then Some 0 else map_option Suc (position P xs))"

definition dependency_indices :: "ModuleMigration list \<Rightarrow> ModuleMigration \<Rightarrow> nat list" where
  "dependency_indices migrations migration =
     List.map_filter (\<lambda>dependency. position (\<lambda>candidate. mm_module candidate = dependency) migrations)
       (mm_dependencies migration)"

definition adjacency_of :: "ModuleMigration list \<Rightarrow> nat list list" where
  "adjacency_of migrations = map (dependency_indices migrations) migrations"

text \<open>\<open>stack[start..]\<close> and the node again, from where the node is on the stack.\<close>

definition cycle_from :: "nat list \<Rightarrow> nat \<Rightarrow> nat list" where
  "cycle_from stack node =
     drop (case position (\<lambda>entry. entry = node) stack of Some start \<Rightarrow> start | None \<Rightarrow> 0) stack @ [node]"

definition whites :: "u8 list \<Rightarrow> nat" where
  "whites state = length (filter (\<lambda>colour. colour \<noteq> 1 \<and> colour \<noteq> 2) state)"

type_synonym dfs_result = "(nat list option \<times> u8 list \<times> nat list) option"

text \<open>\<open>dfs\<close>, and its loop over the successors of a node.\<close>

function dfs :: "nat list list \<Rightarrow> nat \<Rightarrow> u8 list \<Rightarrow> nat list \<Rightarrow> dfs_result"
  and dfs_successors :: "nat list list \<Rightarrow> nat list \<Rightarrow> u8 list \<Rightarrow> nat list \<Rightarrow> dfs_result" where
  "dfs adjacency node state stack =
     (if length state \<le> node then None
      else if state ! node = 1 then Some (Some (cycle_from stack node), state, stack)
      else if state ! node = 2 then Some (None, state, stack)
      else if length adjacency \<le> node then None
      else case dfs_successors adjacency (adjacency ! node) (state[node := 1]) (stack @ [node]) of
          None \<Rightarrow> None
        | Some (Some cycle, state', stack') \<Rightarrow> Some (Some cycle, state', stack')
        | Some (None, state', stack') \<Rightarrow> Some (None, state'[node := 2], butlast stack'))"
| "dfs_successors adjacency [] state stack = Some (None, state, stack)"
| "dfs_successors adjacency (successor # rest) state stack =
     (case dfs adjacency successor state stack of
        None \<Rightarrow> None
      | Some (Some cycle, state', stack') \<Rightarrow> Some (Some cycle, state', stack')
      | Some (None, state', stack') \<Rightarrow> dfs_successors adjacency rest state' stack')"
  by pat_completeness auto

lemma whites_update_le: "c = 1 \<or> c = 2 \<Longrightarrow> whites (state[i := c]) \<le> whites state"
  by (induction state arbitrary: i) (auto simp: whites_def split: nat.splits)

lemma whites_update_less:
  "i < length state \<Longrightarrow> state ! i \<noteq> 1 \<Longrightarrow> state ! i \<noteq> 2 \<Longrightarrow> c = 1 \<or> c = 2 \<Longrightarrow>
     whites (state[i := c]) < whites state"
proof (induction state arbitrary: i)
  case (Cons a state)
  then show ?case by (cases i) (auto simp: whites_def)
qed simp

text \<open>A traversal colours nodes and never makes one white again.\<close>

lemma dfs_whites:
  "dfs_dfs_successors_dom (Inl (adjacency, node, state, stack)) \<Longrightarrow>
     dfs adjacency node state stack = Some (c, state', stack') \<Longrightarrow> whites state' \<le> whites state"
  "dfs_dfs_successors_dom (Inr (adjacency, nodes, state, stack)) \<Longrightarrow>
     dfs_successors adjacency nodes state stack = Some (c, state', stack') \<Longrightarrow> whites state' \<le> whites state"
proof (induction adjacency node state stack and adjacency nodes state stack
    arbitrary: c state' stack' and c state' stack' rule: dfs_dfs_successors.pinduct)
  case (1 adjacency node state stack)
  have less: "whites (state[node := 1]) \<le> whites state" by (rule whites_update_le) simp
  show ?case
    using 1 less
    by (auto simp: dfs.psimps split: if_splits option.splits)
      (meson le_trans whites_update_le)+
next
  case (3 adjacency successor rest state stack)
  then show ?case
    by (auto simp: dfs_successors.psimps split: option.splits) (meson le_trans)+
qed (auto simp: dfs_successors.psimps)

termination dfs
  by (relation "measures [\<lambda>x. case x of Inl (_, _, state, _) \<Rightarrow> whites state | Inr (_, _, state, _) \<Rightarrow> whites state,
      \<lambda>x. case x of Inl _ \<Rightarrow> 0 | Inr (_, nodes, _, _) \<Rightarrow> Suc (length nodes)]")
    (auto intro: whites_update_less dest: dfs_whites(1) simp: le_less)

text \<open>The loop over all nodes, \<open>for index in 0..migrations.len()\<close>.\<close>

fun search_cycle :: "nat list list \<Rightarrow> nat list \<Rightarrow> u8 list \<Rightarrow> nat list \<Rightarrow> nat list option option" where
  "search_cycle adjacency [] state stack = Some None"
| "search_cycle adjacency (index # rest) state stack =
     (if length state \<le> index then None
      else if state ! index = 0 then
        (case dfs adjacency index state stack of
           None \<Rightarrow> None
         | Some (Some cycle, _, _) \<Rightarrow> Some (Some cycle)
         | Some (None, state', stack') \<Rightarrow> search_cycle adjacency rest state' stack')
      else search_cycle adjacency rest state stack)"

definition find_dependency_cycle :: "ModuleMigration list \<Rightarrow> string list option option" where
  "find_dependency_cycle migrations =
     (case search_cycle (adjacency_of migrations) [0..<length migrations] (replicate (length migrations) 0) [] of
        None \<Rightarrow> None
      | Some None \<Rightarrow> Some None
      | Some (Some cycle) \<Rightarrow>
          if list_all (\<lambda>entry. entry < length migrations) cycle then
            Some (Some (map (\<lambda>entry. citadel_module_name (mm_module (migrations ! entry))) cycle))
          else None)"

section \<open>Validator and report\<close>

definition total_placeholders :: "ModuleMigration list \<Rightarrow> nat" where
  "total_placeholders migrations = sum_list (map (\<lambda>migration. length (mm_placeholders migration)) migrations)"

definition validate_citadel_port :: "CitadelPortConfig \<Rightarrow> (CitadelPortValidationError list + unit) option" where
  "validate_citadel_port config =
     (case find_dependency_cycle (cp_migrations config) of
        None \<Rightarrow> None
      | Some found \<Rightarrow> Some (finish (
          err_if (cp_migrations config = []) EmptyMigrations @
          err_if (cp_max_allowed_placeholders config < total_placeholders (cp_migrations config))
            (TooManyPlaceholders (total_placeholders (cp_migrations config)) (cp_max_allowed_placeholders config)) @
          concat (map (\<lambda>migration. concat (map (\<lambda>placeholder.
              err_if (cp_max_severity_allowed config < ph_severity placeholder)
                (HighSeverityPlaceholder (ph_location placeholder) (ph_severity placeholder)))
            (mm_placeholders migration))) (cp_migrations config)) @
          (case found of Some cycle \<Rightarrow> [CyclicDependency cycle] | None \<Rightarrow> []) @
          (if cp_require_machine_checked config then
             concat (map (\<lambda>migration. err_if (mm_proof_status migration \<noteq> MachineChecked)
               (ProofIncomplete (citadel_module_name (mm_module migration)))) (cp_migrations config))
           else []))))"

text \<open>The exact part of \<open>compute_citadel_port_stats\<close>.\<close>

definition modules_complete :: "ModuleMigration list \<Rightarrow> nat" where
  "modules_complete migrations =
     length (filter (\<lambda>migration. mm_phase migration = ProductionReady \<and> mm_placeholders migration = [] \<and>
       mm_proof_status migration = MachineChecked) migrations)"

definition critical_placeholders :: "ModuleMigration list \<Rightarrow> nat" where
  "critical_placeholders migrations =
     length (filter (\<lambda>placeholder. 4 \<le> ph_severity placeholder) (concat (map mm_placeholders migrations)))"

definition migration_issues :: "ModuleMigration \<Rightarrow> string list" where
  "migration_issues migration =
     err_if (mm_proof_status migration = Rejected)
       (''Rejected proof status for module '' @ citadel_module_name (mm_module migration)) @
     err_if (mm_phase migration = ProductionReady \<and> 0 < mm_lines_remaining migration)
       (''Module '' @ citadel_module_name (mm_module migration) @ '' marked ProductionReady with '' @
         decimal (mm_lines_remaining migration) @ '' lines remaining'') @
     concat (map (\<lambda>placeholder. err_if (4 \<le> ph_severity placeholder)
         (''High-severity placeholder ('' @ decimal (unat (ph_severity placeholder)) @ ''): '' @
           ph_location placeholder)) (mm_placeholders migration))"

definition blocking_issues :: "ModuleMigration list \<Rightarrow> string list option" where
  "blocking_issues migrations =
     (case find_dependency_cycle migrations of
        None \<Rightarrow> None
      | Some found \<Rightarrow> Some (concat (map migration_issues migrations) @
          (case found of
             Some cycle \<Rightarrow> [''Cyclic dependency detected: '' @ join '' -> '' cycle]
           | None \<Rightarrow> [])))"

section \<open>The search is right\<close>

definition edge :: "nat list list \<Rightarrow> nat \<Rightarrow> nat \<Rightarrow> bool" where
  "edge adjacency i j \<longleftrightarrow> i < length adjacency \<and> j \<in> set (adjacency ! i)"

definition wf_adjacency :: "nat list list \<Rightarrow> bool" where
  "wf_adjacency adjacency \<longleftrightarrow> (\<forall>i j. edge adjacency i j \<longrightarrow> j < length adjacency)"

definition is_cycle :: "nat list list \<Rightarrow> nat list \<Rightarrow> bool" where
  "is_cycle adjacency c \<longleftrightarrow> 2 \<le> length c \<and> hd c = last c \<and> successively (edge adjacency) c"

definition black_edges :: "nat list list \<Rightarrow> u8 list \<Rightarrow> (nat \<times> nat) set" where
  "black_edges adjacency state = {(i, j). edge adjacency i j \<and> state ! i = 2}"

text \<open>Between two steps of the traversal: the grey nodes are the stack, a path; what is black points to
  black nodes only, and there is no cycle among them.\<close>

definition traversal_inv :: "nat list list \<Rightarrow> u8 list \<Rightarrow> nat list \<Rightarrow> bool" where
  "traversal_inv adjacency state stack \<longleftrightarrow>
     length state = length adjacency \<and> (\<forall>i < length adjacency. state ! i \<in> {0, 1, 2}) \<and>
     distinct stack \<and> set stack \<subseteq> {..<length adjacency} \<and>
     (\<forall>i < length adjacency. state ! i = 1 \<longleftrightarrow> i \<in> set stack) \<and> successively (edge adjacency) stack \<and>
     (\<forall>(i, j) \<in> black_edges adjacency state. state ! j = 2) \<and> acyclic (black_edges adjacency state)"

lemma acyclic_add_source:
  assumes "acyclic A" and "\<forall>(i, j) \<in> A \<union> B. j \<noteq> node" and "\<forall>(i, j) \<in> B. i = node"
  shows "acyclic (A \<union> B)"
proof (rule acyclicI, rule allI, rule notI)
  fix x assume cycle: "(x, x) \<in> (A \<union> B)\<^sup>+"
  have "(x, y) \<in> A\<^sup>+" if "(x, y) \<in> (A \<union> B)\<^sup>+" "x \<noteq> node" for x y
    using that
  proof (induction rule: trancl_induct)
    case (base y)
    with assms(3) show ?case by blast
  next
    case (step y z)
    from step.hyps(1) have "y \<noteq> node" using assms(2) by (blast elim: tranclE)
    with step.hyps(2) assms(3) have "(y, z) \<in> A" by blast
    with step show ?case by (meson trancl.trancl_into_trancl)
  qed
  moreover have "x \<noteq> node" using cycle assms(2) by (blast elim: tranclE)
  ultimately have "(x, x) \<in> A\<^sup>+" using cycle by blast
  with assms(1) show False by (simp add: acyclic_def)
qed

lemma position_eq: "node \<in> set stack \<Longrightarrow> \<exists>i. position (\<lambda>x. x = node) stack = Some i \<and> i < length stack \<and> stack ! i = node"
  by (induction stack) auto

lemma successively_drop: "successively P xs \<Longrightarrow> successively P (drop i xs)"
  by (metis append_take_drop_id successively_append_iff)

text \<open>A grey successor closes a cycle.\<close>

lemma cycle_from_stack:
  assumes "traversal_inv adjacency state stack" and "node \<in> set stack" and "edge adjacency (last stack) node"
  shows "is_cycle adjacency (cycle_from stack node)"
proof -
  obtain i where i: "position (\<lambda>x. x = node) stack = Some i" "i < length stack" "stack ! i = node"
    using position_eq [OF assms(2)] by blast
  have "successively (edge adjacency) (drop i stack @ [node])"
    using assms(1,3) i(2) by (simp add: traversal_inv_def successively_append_iff successively_drop)
  then show ?thesis
    using i by (simp add: is_cycle_def cycle_from_def hd_append hd_drop_conv_nth)
qed

text \<open>Entering a white node, and leaving it when its successors are black.\<close>

lemma traversal_push:
  assumes inv: "traversal_inv adjacency state stack" and node: "node < length adjacency"
    and white: "state ! node \<noteq> 1" "state ! node \<noteq> 2" and reach: "stack = [] \<or> edge adjacency (last stack) node"
  shows "traversal_inv adjacency (state[node := 1]) (stack @ [node])"
proof -
  have len: "length state = length adjacency" using inv by (simp add: traversal_inv_def)
  have black: "(state[node := 1]) ! i = 2 \<longleftrightarrow> state ! i = 2" for i
    using white by (cases "i = node") (simp_all add: nth_list_update node len)
  then have same: "black_edges adjacency (state[node := 1]) = black_edges adjacency state"
    by (simp add: black_edges_def)
  have "node \<notin> set stack" using inv node white(1) by (auto simp: traversal_inv_def)
  moreover have "successively (edge adjacency) (stack @ [node])"
    using inv reach by (auto simp: traversal_inv_def successively_append_iff)
  moreover have "\<forall>(i, j) \<in> black_edges adjacency state. (state[node := 1]) ! j = 2"
    using inv unfolding black by (simp add: traversal_inv_def)
  ultimately show ?thesis
    using inv node unfolding traversal_inv_def same by (auto simp: nth_list_update)
qed

lemma traversal_pop:
  assumes inv: "traversal_inv adjacency state (stack @ [node])"
    and finished: "\<forall>j \<in> set (adjacency ! node). state ! j = 2"
  shows "traversal_inv adjacency (state[node := 2]) stack"
proof -
  have node: "node < length adjacency" "state ! node = 1" "node \<notin> set stack" and len: "length state = length adjacency"
    using inv by (auto simp: traversal_inv_def)
  have black: "(state[node := 2]) ! i = 2 \<longleftrightarrow> i = node \<or> state ! i = 2" if "i < length adjacency" for i
    using that node(1) by (simp add: nth_list_update len)
  let ?new = "{(i, j). i = node \<and> j \<in> set (adjacency ! node)}"
  have edges: "black_edges adjacency (state[node := 2]) = black_edges adjacency state \<union> ?new"
    using node(1) by (auto simp: black_edges_def edge_def black)
  have old: "\<forall>(i, j) \<in> black_edges adjacency state. state ! j = 2" and ac: "acyclic (black_edges adjacency state)"
    using inv by (auto simp: traversal_inv_def)
  have targets: "state ! j = 2" if "(i, j) \<in> black_edges adjacency state \<union> ?new" for i j
    using that old finished by auto
  have "acyclic (black_edges adjacency state \<union> ?new)"
    by (rule acyclic_add_source [OF ac, of _ node]) (use targets node(2) in fastforce)+
  moreover have "(state[node := 2]) ! j = 2" if "(i, j) \<in> black_edges adjacency state \<union> ?new" for i j
    using targets [OF that] by (cases "j = node") (simp_all add: node len)
  moreover have "\<forall>i < length adjacency. (state[node := 2]) ! i \<in> {0, 1, 2}"
    using inv by (auto simp: traversal_inv_def nth_list_update)
  moreover have "\<forall>i < length adjacency. (state[node := 2]) ! i = 1 \<longleftrightarrow> i \<in> set stack"
    using inv node by (auto simp: traversal_inv_def nth_list_update)
  ultimately show ?thesis
    using inv unfolding traversal_inv_def edges by (auto simp: successively_append_iff)
qed

text \<open>What a traversal returns: a cycle, or the same stack with the given nodes black.\<close>

definition traversal_post :: "nat list list \<Rightarrow> nat list \<Rightarrow> u8 list \<Rightarrow> nat list \<Rightarrow> dfs_result \<Rightarrow> bool" where
  "traversal_post adjacency nodes state stack r \<longleftrightarrow>
     (case r of
        None \<Rightarrow> False
      | Some (Some c, _, _) \<Rightarrow> is_cycle adjacency c
      | Some (None, state', stack') \<Rightarrow> stack' = stack \<and> traversal_inv adjacency state' stack \<and>
          (\<forall>j \<in> set nodes. state' ! j = 2) \<and>
          (\<forall>i < length adjacency. state ! i = 2 \<longrightarrow> state' ! i = 2))"

lemma traversal_post_elim:
  assumes "traversal_post adjacency nodes state stack r"
  obtains (found) c state' stack' where "r = Some (Some c, state', stack')" and "is_cycle adjacency c"
  | (finished) state' where "r = Some (None, state', stack)" and "traversal_inv adjacency state' stack"
      and "\<forall>j \<in> set nodes. state' ! j = 2" and "\<forall>i < length adjacency. state ! i = 2 \<longrightarrow> state' ! i = 2"
  using assms unfolding traversal_post_def by (cases r; cases "fst (the r)") auto

lemma dfs_step:
  assumes inv: "traversal_inv adjacency state stack" and node: "node < length adjacency"
    and reach: "stack = [] \<or> edge adjacency (last stack) node"
    and IH: "state ! node \<noteq> 1 \<Longrightarrow> state ! node \<noteq> 2 \<Longrightarrow>
      traversal_post adjacency (adjacency ! node) (state[node := 1]) (stack @ [node])
        (dfs_successors adjacency (adjacency ! node) (state[node := 1]) (stack @ [node]))"
  shows "traversal_post adjacency [node] state stack (dfs adjacency node state stack)"
proof -
  have len: "length state = length adjacency" and grey: "state ! node = 1 \<longleftrightarrow> node \<in> set stack"
    using inv node by (auto simp: traversal_inv_def)
  consider (grey) "state ! node = 1" | (black) "state ! node = 2"
    | (white) "state ! node \<noteq> 1" "state ! node \<noteq> 2" by blast
  then show ?thesis
  proof cases
    case white
    from IH [OF this] show ?thesis
    proof (cases rule: traversal_post_elim)
      case (found c state' stack')
      with white len node show ?thesis by (simp add: traversal_post_def)
    next
      case (finished state')
      have "length state' = length adjacency" using finished(2) by (simp add: traversal_inv_def)
      moreover have "state ! i = 2 \<Longrightarrow> i < length adjacency \<Longrightarrow> state' ! i = 2" for i
        using finished(4) white(2) by (metis len nth_list_update_neq)
      ultimately show ?thesis
        using white len node finished(1) traversal_pop [OF finished(2,3)]
        by (auto simp: traversal_post_def nth_list_update)
    qed
  next
    case grey
    with \<open>state ! node = 1 \<longleftrightarrow> node \<in> set stack\<close> reach
    have "node \<in> set stack" and "edge adjacency (last stack) node" by auto
    from cycle_from_stack [OF inv this] grey len node show ?thesis by (simp add: traversal_post_def)
  next
    case black
    with inv len node show ?thesis by (simp add: traversal_post_def)
  qed
qed

lemma successors_step:
  assumes "traversal_post adjacency [successor] state stack (dfs adjacency successor state stack)"
    and "successor < length adjacency"
    and IH: "\<And>state'. dfs adjacency successor state stack = Some (None, state', stack) \<Longrightarrow>
      traversal_inv adjacency state' stack \<Longrightarrow>
      traversal_post adjacency rest state' stack (dfs_successors adjacency rest state' stack)"
  shows "traversal_post adjacency (successor # rest) state stack
    (dfs_successors adjacency (successor # rest) state stack)"
  using assms(1)
proof (cases rule: traversal_post_elim)
  case (found c state' stack')
  then show ?thesis by (simp add: traversal_post_def)
next
  case (finished state')
  from IH [OF finished(1,2)] show ?thesis
  proof (cases rule: traversal_post_elim)
    case (found c state'' stack'')
    with finished(1) show ?thesis by (simp add: traversal_post_def)
  next
    case (finished state'')
    with \<open>dfs adjacency successor state stack = Some (None, state', stack)\<close>
      \<open>\<forall>j \<in> set [successor]. state' ! j = 2\<close> \<open>\<forall>i < length adjacency. state ! i = 2 \<longrightarrow> state' ! i = 2\<close> assms(2)
    show ?thesis by (simp add: traversal_post_def)
  qed
qed

lemma dfs_correct:
  "wf_adjacency adjacency \<Longrightarrow> traversal_inv adjacency state stack \<Longrightarrow> node < length adjacency \<Longrightarrow>
     stack = [] \<or> edge adjacency (last stack) node \<Longrightarrow>
     traversal_post adjacency [node] state stack (dfs adjacency node state stack)"
  "wf_adjacency adjacency \<Longrightarrow> traversal_inv adjacency state stack \<Longrightarrow> stack \<noteq> [] \<Longrightarrow>
     \<forall>j \<in> set nodes. edge adjacency (last stack) j \<Longrightarrow>
     traversal_post adjacency nodes state stack (dfs_successors adjacency nodes state stack)"
proof (induction adjacency node state stack and adjacency nodes state stack rule: dfs_dfs_successors.induct)
  case (1 adjacency node state stack)
  show ?case
  proof (rule dfs_step [OF 1(3-5)])
    assume white: "state ! node \<noteq> 1" "state ! node \<noteq> 2"
    have "length state = length adjacency" using 1(3) by (simp add: traversal_inv_def)
    then show "traversal_post adjacency (adjacency ! node) (state[node := 1]) (stack @ [node])
        (dfs_successors adjacency (adjacency ! node) (state[node := 1]) (stack @ [node]))"
      using 1(1) [OF _ white] 1(2,4) traversal_push [OF 1(3,4) white 1(5)] by (simp add: edge_def)
  qed
next
  case (3 adjacency successor rest state stack)
  have succ: "edge adjacency (last stack) successor" "successor < length adjacency"
    using 3(3,6) by (auto simp: wf_adjacency_def)
  show ?case
  proof (rule successors_step [OF _ succ(2)])
    show "traversal_post adjacency [successor] state stack (dfs adjacency successor state stack)"
      using 3(1,3,4) succ by simp
    fix state' assume "dfs adjacency successor state stack = Some (None, state', stack)"
      and "traversal_inv adjacency state' stack"
    then show "traversal_post adjacency rest state' stack (dfs_successors adjacency rest state' stack)"
      using 3(2) 3(3,5,6) by simp
  qed
qed (simp add: traversal_post_def)

lemma search_correct:
  assumes "wf_adjacency adjacency" and "traversal_inv adjacency state []" and "\<forall>i \<in> set indices. i < length adjacency"
  shows "(\<exists>c. search_cycle adjacency indices state [] = Some (Some c) \<and> is_cycle adjacency c) \<or>
    (search_cycle adjacency indices state [] = Some None \<and> (\<exists>state'. traversal_inv adjacency state' [] \<and>
      (\<forall>i \<in> set indices. state' ! i = 2) \<and> (\<forall>i < length adjacency. state ! i = 2 \<longrightarrow> state' ! i = 2)))"
  using assms(2,3)
proof (induction indices arbitrary: state)
  case Nil
  then show ?case by auto
next
  case (Cons index rest)
  have len: "length state = length adjacency" and index: "index < length adjacency"
    and colour: "state ! index = 0 \<or> state ! index = 2"
    using Cons.prems by (auto simp: traversal_inv_def)
  show ?case
  proof (cases "state ! index = 0")
    case True
    from dfs_correct(1) [OF assms(1) Cons.prems(1) index disjI1 [OF refl]] show ?thesis
    proof (cases rule: traversal_post_elim)
      case (found c state' stack')
      with True len index show ?thesis by simp
    next
      case (finished state')
      with Cons.IH [of state'] Cons.prems(2) True len index show ?thesis by auto
    qed
  next
    case False
    with Cons.IH [of state] Cons.prems colour len index show ?thesis by auto
  qed
qed

text \<open>Which migration depends on which: a dependency is the first migration of the module it names.\<close>

definition depends :: "ModuleMigration list \<Rightarrow> nat \<Rightarrow> nat \<Rightarrow> bool" where
  "depends migrations i j \<longleftrightarrow> i < length migrations \<and> j < length migrations \<and>
     mm_module (migrations ! j) \<in> set (mm_dependencies (migrations ! i)) \<and>
     (\<forall>k < j. mm_module (migrations ! k) \<noteq> mm_module (migrations ! j))"

lemma position_Some: "position P xs = Some j \<longleftrightarrow> j < length xs \<and> P (xs ! j) \<and> (\<forall>k < j. \<not> P (xs ! k))"
proof (induction xs arbitrary: j)
  case (Cons x xs)
  then show ?case by (cases j) (auto simp: less_Suc_eq_0_disj)
qed simp

lemma set_map_filter: "set (List.map_filter f xs) = {y. \<exists>x \<in> set xs. f x = Some y}"
  by (induction xs) (auto simp: List.map_filter_simps split: option.splits)

lemma edge_depends: "edge (adjacency_of migrations) i j \<longleftrightarrow> depends migrations i j"
  by (auto simp: edge_def adjacency_of_def dependency_indices_def set_map_filter position_Some depends_def)

lemma adjacency_wf: "wf_adjacency (adjacency_of migrations)"
  by (auto simp: wf_adjacency_def edge_depends) (simp add: depends_def adjacency_of_def)

lemma traversal_start: "traversal_inv adjacency (replicate (length adjacency) 0) []"
proof -
  have "black_edges adjacency (replicate (length adjacency) 0) = {}" by (auto simp: black_edges_def edge_def)
  then show ?thesis by (simp add: traversal_inv_def acyclic_def)
qed

lemma closed_walk_trancl:
  "successively (\<lambda>i j. (i, j) \<in> R) (x # y # xs) \<Longrightarrow> (x, last (y # xs)) \<in> R\<^sup>+"
proof (induction xs arbitrary: x y)
  case (Cons z xs)
  then have "(y, last (z # xs)) \<in> R\<^sup>+" and "(x, y) \<in> R" by auto
  then show ?case by (simp add: trancl_into_trancl2)
qed auto

lemma cycle_not_acyclic: "is_cycle adjacency c \<Longrightarrow> \<not> acyclic {(i, j). edge adjacency i j}"
proof -
  assume c: "is_cycle adjacency c"
  then obtain x y xs where xs: "c = x # y # xs" by (cases c rule: remdups_adj.cases) (auto simp: is_cycle_def)
  have "successively (edge adjacency) (x # y # xs)" using c by (simp only: is_cycle_def xs)
  then have "successively (\<lambda>i j. (i, j) \<in> {(i, j). edge adjacency i j}) (x # y # xs)" by simp
  then have "(x, last (y # xs)) \<in> {(i, j). edge adjacency i j}\<^sup>+" by (rule closed_walk_trancl)
  moreover have "last (y # xs) = x" using c by (simp add: is_cycle_def xs)
  ultimately show ?thesis by (auto simp: acyclic_def)
qed

lemma cycle_in_range: "wf_adjacency adjacency \<Longrightarrow> is_cycle adjacency c \<Longrightarrow> \<forall>i \<in> set c. i < length adjacency"
proof -
  assume "wf_adjacency adjacency" and c: "is_cycle adjacency c"
  have "successively (edge adjacency) (x # xs) \<Longrightarrow> xs \<noteq> [] \<Longrightarrow> \<forall>i \<in> set (x # xs). i < length adjacency" for x xs
  proof (induction xs arbitrary: x)
    case (Cons y ys)
    from Cons.prems(1) have "edge adjacency x y" by simp
    with \<open>wf_adjacency adjacency\<close> have "x < length adjacency" and "y < length adjacency"
      unfolding wf_adjacency_def edge_def by blast+
    moreover have "\<forall>i \<in> set (y # ys). i < length adjacency" if "ys \<noteq> []"
      using Cons.IH [of y, OF _ that] Cons.prems(1) by (cases ys) simp_all
    ultimately show ?case by (cases "ys = []") simp_all
  qed simp
  moreover obtain x xs where "c = x # xs" and "xs \<noteq> []"
    using c by (cases c) (force simp: is_cycle_def)+
  ultimately show ?thesis using c by (simp only: is_cycle_def) blast
qed

text \<open>The search either finds no cycle in an acyclic plan, or a closed walk.\<close>

lemma find_cycle_cases:
  "(find_dependency_cycle migrations = Some None \<and> acyclic {(i, j). depends migrations i j}) \<or>
   (\<exists>c. find_dependency_cycle migrations =
       Some (Some (map (\<lambda>i. citadel_module_name (mm_module (migrations ! i))) c)) \<and>
     2 \<le> length c \<and> hd c = last c \<and> successively (depends migrations) c \<and>
     \<not> acyclic {(i, j). depends migrations i j})"
proof -
  let ?adj = "adjacency_of migrations"
  have len: "length ?adj = length migrations" by (simp add: adjacency_of_def)
  have edges: "edge ?adj = depends migrations" by (simp add: edge_depends fun_eq_iff)
  note start = traversal_start [of ?adj, unfolded len]
  have "\<forall>i \<in> set [0..<length migrations]. i < length ?adj" by (simp add: len)
  from search_correct [OF adjacency_wf start this] show ?thesis
  proof (elim disjE exE conjE)
    fix c assume found: "search_cycle ?adj [0..<length migrations] (replicate (length migrations) 0) [] = Some (Some c)"
      and c: "is_cycle ?adj c"
    then have "\<forall>i \<in> set c. i < length migrations" using cycle_in_range [OF adjacency_wf c] len by simp
    then show ?thesis
      using found c cycle_not_acyclic [OF c]
      by (auto simp: find_dependency_cycle_def list_all_iff is_cycle_def edges)
  next
    fix state' assume none: "search_cycle ?adj [0..<length migrations] (replicate (length migrations) 0) [] = Some None"
      and inv: "traversal_inv ?adj state' []" and all: "\<forall>i \<in> set [0..<length migrations]. state' ! i = 2"
    have "black_edges ?adj state' = {(i, j). depends migrations i j}"
      using all by (auto simp: black_edges_def edges) (simp add: depends_def)
    with inv none show ?thesis by (simp add: traversal_inv_def find_dependency_cycle_def)
  qed
qed

lemma find_cycle_None: "find_dependency_cycle migrations = Some None \<longleftrightarrow> acyclic {(i, j). depends migrations i j}"
  and find_cycle_total: "find_dependency_cycle migrations \<noteq> None"
  using find_cycle_cases [of migrations] by auto

text \<open>C11.  The search for a dependency cycle is correct and complete, it ends, and no index is out of range:
  it reports no cycle exactly when the dependencies are acyclic, and what it reports otherwise are the modules of
  a closed walk along the dependencies.  A plan is therefore accepted exactly when it has migrations,
  its placeholders are within the allowed number and severity, its dependencies are acyclic, and,
  where that is required, every proof is machine checked.\<close>

theorem citadel_port_spec:
  "find_dependency_cycle (cp_migrations config) \<noteq> None \<and>
   (find_dependency_cycle (cp_migrations config) = Some None \<longleftrightarrow> acyclic {(i, j). depends (cp_migrations config) i j}) \<and>
   (\<forall>names. find_dependency_cycle (cp_migrations config) = Some (Some names) \<longrightarrow>
     (\<exists>c. names = map (\<lambda>i. citadel_module_name (mm_module (cp_migrations config ! i))) c \<and>
        2 \<le> length c \<and> hd c = last c \<and> successively (depends (cp_migrations config)) c)) \<and>
   (validate_citadel_port config = Some (Inr ()) \<longleftrightarrow>
     cp_migrations config \<noteq> [] \<and> total_placeholders (cp_migrations config) \<le> cp_max_allowed_placeholders config \<and>
     (\<forall>m \<in> set (cp_migrations config). \<forall>ph \<in> set (mm_placeholders m). ph_severity ph \<le> cp_max_severity_allowed config) \<and>
     acyclic {(i, j). depends (cp_migrations config) i j} \<and>
     (cp_require_machine_checked config \<longrightarrow>
       (\<forall>m \<in> set (cp_migrations config). mm_proof_status m = MachineChecked)))"
proof (intro conjI allI impI)
  fix names assume "find_dependency_cycle (cp_migrations config) = Some (Some names)"
  then show "\<exists>c. names = map (\<lambda>i. citadel_module_name (mm_module (cp_migrations config ! i))) c \<and>
      2 \<le> length c \<and> hd c = last c \<and> successively (depends (cp_migrations config)) c"
    using find_cycle_cases [of "cp_migrations config"] by auto
next
  obtain found where found: "find_dependency_cycle (cp_migrations config) = Some found"
    using find_cycle_total by blast
  then have none: "found = None \<longleftrightarrow> acyclic {(i, j). depends (cp_migrations config) i j}"
    using find_cycle_None [of "cp_migrations config"] by simp
  show "validate_citadel_port config = Some (Inr ()) \<longleftrightarrow>
     cp_migrations config \<noteq> [] \<and> total_placeholders (cp_migrations config) \<le> cp_max_allowed_placeholders config \<and>
     (\<forall>m \<in> set (cp_migrations config). \<forall>ph \<in> set (mm_placeholders m). ph_severity ph \<le> cp_max_severity_allowed config) \<and>
     acyclic {(i, j). depends (cp_migrations config) i j} \<and>
     (cp_require_machine_checked config \<longrightarrow>
       (\<forall>m \<in> set (cp_migrations config). mm_proof_status m = MachineChecked))"
    unfolding none [symmetric] by (auto simp: validate_citadel_port_def found not_less split: option.splits)
qed (rule find_cycle_total find_cycle_None)+

definition example_migration :: "CitadelModule \<Rightarrow> CitadelModule list \<Rightarrow> ModuleMigration" where
  "example_migration m deps =
     \<lparr>mm_module = m, mm_phase = CorePort, mm_placeholders = [], mm_proof_status = Sketched,
      mm_lines_ported = 10, mm_lines_remaining = 5, mm_dependencies = deps\<rparr>"

definition example_plan :: "CitadelModule list \<Rightarrow> CitadelPortConfig" where
  "example_plan deps =
     \<lparr>cp_target_module = VoteAccumulator,
      cp_migrations = [example_migration VoteAccumulator deps, example_migration ForkChoice [VoteAccumulator],
        example_migration Finalization [VoteAccumulator, ForkChoice]],
      cp_max_allowed_placeholders = 8, cp_require_machine_checked = False, cp_max_severity_allowed = 4\<rparr>"

theorem citadel_port_spec_witness:
  "acyclic {(i, j). depends (cp_migrations (example_plan [])) i j} \<and>
   \<not> acyclic {(i, j). depends (cp_migrations (example_plan [Finalization])) i j}"
proof -
  have "find_dependency_cycle (cp_migrations (example_plan [])) = Some None"
    by (simp add: example_plan_def example_migration_def find_dependency_cycle_def adjacency_of_def
        dependency_indices_def List.map_filter_simps numeral_eq_Suc)
  moreover have "find_dependency_cycle (cp_migrations (example_plan [Finalization])) \<noteq> Some None"
    by (simp add: example_plan_def example_migration_def find_dependency_cycle_def adjacency_of_def
        dependency_indices_def List.map_filter_simps cycle_from_def numeral_eq_Suc)
  ultimately show ?thesis
    using citadel_port_spec [of "example_plan []"] citadel_port_spec [of "example_plan [Finalization]"] by blast
qed

section \<open>The plan in force\<close>

definition default_citadel_port_config :: CitadelPortConfig where
  "default_citadel_port_config =
     \<lparr>cp_target_module = VoteAccumulator,
      cp_migrations =
        [\<lparr>mm_module = VoteAccumulator, mm_phase = PlaceholderElimination,
          mm_placeholders =
            [\<lparr>ph_location = ''citadel/vote_accumulator.rs:142'', ph_kind = PkTodo,
              ph_description = ''Finalize tie-break logic for equal-weight votes'',
              ph_blocking_proofs = [''vote_accumulator_safety''], ph_severity = 3\<rparr>,
             \<lparr>ph_location = ''citadel/vote_accumulator.rs:219'', ph_kind = PkSkippedValidation,
              ph_description = ''Temporary bypass for malformed quorum witness edge cases'',
              ph_blocking_proofs = [''quorum_witness_soundness'', ''fork_choice_monotonicity''], ph_severity = 4\<rparr>],
          mm_proof_status = FullProofReviewed, mm_lines_ported = 980, mm_lines_remaining = 160,
          mm_dependencies = []\<rparr>,
         \<lparr>mm_module = ForkChoice, mm_phase = CorePort,
          mm_placeholders =
            [\<lparr>ph_location = ''citadel/fork_choice.rs:87'', ph_kind = PkStub,
              ph_description = ''Temporary stub for delayed attestations scoring'',
              ph_blocking_proofs = [''fork_choice_liveness''], ph_severity = 2\<rparr>],
          mm_proof_status = PartialProof, mm_lines_ported = 530, mm_lines_remaining = 420,
          mm_dependencies = [VoteAccumulator]\<rparr>,
         \<lparr>mm_module = Finalization, mm_phase = ProductionReady, mm_placeholders = [],
          mm_proof_status = MachineChecked, mm_lines_ported = 1250, mm_lines_remaining = 0,
          mm_dependencies = [VoteAccumulator, ForkChoice]\<rparr>,
         \<lparr>mm_module = SlashingDetector, mm_phase = TestMigration,
          mm_placeholders =
            [\<lparr>ph_location = ''citadel/slashing_detector.rs:301'', ph_kind = PkHardcodedValue,
              ph_description = ''Hardcoded replay window pending benchmark calibration'',
              ph_blocking_proofs = [''slashing_completeness''], ph_severity = 4\<rparr>],
          mm_proof_status = Sketched, mm_lines_ported = 360, mm_lines_remaining = 560,
          mm_dependencies = [VoteAccumulator]\<rparr>],
      cp_max_allowed_placeholders = 8, cp_require_machine_checked = False, cp_max_severity_allowed = 4\<rparr>"

text \<open>The plan the module ships is accepted.\<close>

lemma default_plan_valid: "validate_citadel_port default_citadel_port_config = Some (Inr ())"
proof -
  have "find_dependency_cycle (cp_migrations default_citadel_port_config) = Some None"
    by (simp add: default_citadel_port_config_def find_dependency_cycle_def adjacency_of_def
        dependency_indices_def List.map_filter_simps numeral_eq_Suc)
  then show ?thesis
    by (simp add: validate_citadel_port_def)
      (simp add: default_citadel_port_config_def total_placeholders_def)
qed

end
