(* ===== verification/Registries.thy ===== *)
theory Registries
  imports Validation Json "HOL-Library.Signed_Division" "HOL-Library.Char_ord" "HOL-Library.List_Lexorder"
begin

text \<open>
  The registries of theorems and assumptions, \<open>crates/eth2077-types/src/theorem_registry.rs\<close> and
  \<open>assumption_checker.rs\<close>: validation, lookups, overdue reviews with their calendar, and the check
  that every assumption is used and every used one known.  Reading and writing the files is left out.
  Years, months and days are integers: a date is only read from text, where the year is not
  negative, and then no step leaves the range of \<open>i32\<close>; \<open>/\<close> is the division that truncates.
  Strings are compared byte by byte, the lexicographic order of the library.
\<close>

section \<open>Theorems\<close>

datatype TheoremTier = Tier1 | Tier2 | Tier3

datatype TheoremStatus = Proposed | ProofInProgress | ProofComplete | Verified | TheoremRejected

record TheoremEntry =
  te_id :: string
  te_name :: string
  te_description :: string
  te_tier :: TheoremTier
  te_status :: TheoremStatus
  te_dependencies :: "string list"
  te_proof_artifact_path :: "string option"
  te_tags :: "string list"

record TheoremRegistry =
  tr_version :: string
  tr_entries :: "TheoremEntry list"

datatype TheoremRegistryValidationError = DuplicateId string | MissingDependency string string

definition check_id :: "string set \<Rightarrow> TheoremEntry \<Rightarrow> TheoremRegistryValidationError list \<times> string set" where
  "check_id ids entry = (err_if (te_id entry \<in> ids) (DuplicateId (te_id entry)), insert (te_id entry) ids)"

definition check_dependencies :: "string set \<Rightarrow> TheoremEntry \<Rightarrow> TheoremRegistryValidationError list" where
  "check_dependencies ids entry =
     concat (map (\<lambda>dependency. err_if (dependency \<notin> ids) (MissingDependency (te_id entry) dependency))
       (te_dependencies entry))"

definition validate_theorem_registry :: "TheoremRegistry \<Rightarrow> TheoremRegistryValidationError list + unit" where
  "validate_theorem_registry registry =
     (case scan check_id {} (tr_entries registry) of
        (errors, ids) \<Rightarrow> finish (errors @ concat (map (check_dependencies ids) (tr_entries registry))))"

definition get_by_tier :: "TheoremRegistry \<Rightarrow> TheoremTier \<Rightarrow> TheoremEntry list" where
  "get_by_tier registry tier = filter (\<lambda>entry. te_tier entry = tier) (tr_entries registry)"

definition theorem_by_id :: "TheoremRegistry \<Rightarrow> string \<Rightarrow> TheoremEntry option" where
  "theorem_by_id registry i = find (\<lambda>entry. te_id entry = i) (tr_entries registry)"

section \<open>Assumptions\<close>

datatype ValidationMethod =
    FormalProof | UnitTest | IntegrationTest | ManualReview | ExternalAudit | MonitoringAlert | NoValidation

datatype AssumptionStatus = AssumptionActive | UnderReview | Deprecated | Violated

record Assumption =
  ass_id :: string
  ass_name :: string
  ass_description :: string
  ass_threat_model_anchor :: "string option"
  ass_referenced_by :: "string list"
  ass_owner :: string
  ass_validation_method :: ValidationMethod
  ass_revisit_cadence_days :: u32
  ass_last_reviewed :: "string option"
  ass_status :: AssumptionStatus
  ass_mitigations :: "string list"

type_synonym AssumptionRegistry = "Assumption list"

subsection \<open>Dates\<close>

definition is_leap_year :: "int \<Rightarrow> bool" where
  "is_leap_year year \<longleftrightarrow> (year mod 4 = 0 \<and> year mod 100 \<noteq> 0) \<or> year mod 400 = 0"

definition max_day :: "int \<Rightarrow> int \<Rightarrow> int option" where
  "max_day year month =
     (if month \<in> {1, 3, 5, 7, 8, 10, 12} then Some 31
      else if month \<in> {4, 6, 9, 11} then Some 30
      else if month = 2 \<and> is_leap_year year then Some 29
      else if month = 2 then Some 28
      else None)"

definition is_valid_ymd :: "int \<Rightarrow> int \<Rightarrow> int \<Rightarrow> bool" where
  "is_valid_ymd year month day =
     (if \<not> (1 \<le> month \<and> month \<le> 12) \<or> day \<le> 0 then False
      else case max_day year month of Some m \<Rightarrow> day \<le> m | None \<Rightarrow> False)"

definition days_from_civil :: "int \<Rightarrow> int \<Rightarrow> int \<Rightarrow> int" where
  "days_from_civil year month day =
     (let adjusted_year = year - (if month \<le> 2 then 1 else 0);
          era = (if 0 \<le> adjusted_year then adjusted_year sdiv 400 else (adjusted_year - 399) sdiv 400);
          year_of_era = adjusted_year - era * 400;
          day_of_year = (153 * (month + (if 2 < month then - 3 else 9)) + 2) sdiv 5 + day - 1;
          day_of_era = year_of_era * 365 + year_of_era sdiv 4 - year_of_era sdiv 100 + day_of_year
      in era * 146097 + day_of_era - 719468)"

text \<open>\<open>parse::<i32>\<close>, \<open>parse::<u32>\<close> and \<open>split('-')\<close>.\<close>

definition parse_i32 :: "string \<Rightarrow> int option" where
  "parse_i32 s =
     (let negative = (s \<noteq> [] \<and> hd s = CHR ''-'');
          digits = (if s \<noteq> [] \<and> (hd s = CHR ''-'' \<or> hd s = CHR ''+'') then tl s else s)
      in if digits = [] then None
         else case parse_decimal 0 digits of
           None \<Rightarrow> None
         | Some v \<Rightarrow>
             let n = (if negative then - int v else int v)
             in if - (2 ^ 31) \<le> n \<and> n < 2 ^ 31 then Some n else None)"

definition parse_u32 :: "string \<Rightarrow> int option" where
  "parse_u32 s = map_option uint (parse_unsigned s :: u32 option)"

fun split_on :: "char \<Rightarrow> string \<Rightarrow> string list" where
  "split_on c [] = [[]]"
| "split_on c (x # xs) =
     (if x = c then [] # split_on c xs else case split_on c xs of p # ps \<Rightarrow> (x # p) # ps | [] \<Rightarrow> [[x]])"

definition parse_yyyy_mm_dd_to_days :: "string \<Rightarrow> int option" where
  "parse_yyyy_mm_dd_to_days value =
     (case split_on (CHR ''-'') value of
        y # m # d # rest \<Rightarrow>
          (case parse_i32 y of
             None \<Rightarrow> None
           | Some year \<Rightarrow>
               (case parse_u32 m of
                  None \<Rightarrow> None
                | Some month \<Rightarrow>
                    (case parse_u32 d of
                       None \<Rightarrow> None
                     | Some day \<Rightarrow>
                         if rest \<noteq> [] \<or> \<not> is_valid_ymd year month day then None
                         else Some (days_from_civil year month day))))
      | _ \<Rightarrow> None)"

subsection \<open>Queries\<close>

definition assumption_by_id :: "AssumptionRegistry \<Rightarrow> string \<Rightarrow> Assumption option" where
  "assumption_by_id assumptions i = find (\<lambda>a. ass_id a = i) assumptions"

definition is_overdue :: "int \<Rightarrow> Assumption \<Rightarrow> bool" where
  "is_overdue today_days a =
     (case ass_last_reviewed a of
        None \<Rightarrow> True
      | Some last_reviewed \<Rightarrow>
          (case parse_yyyy_mm_dd_to_days last_reviewed of
             None \<Rightarrow> True
           | Some last_reviewed_days \<Rightarrow> last_reviewed_days + uint (ass_revisit_cadence_days a) < today_days))"

definition get_overdue_reviews :: "AssumptionRegistry \<Rightarrow> string \<Rightarrow> Assumption list" where
  "get_overdue_reviews assumptions today =
     (case parse_yyyy_mm_dd_to_days today of
        None \<Rightarrow> filter (\<lambda>a. ass_last_reviewed a = None) assumptions
      | Some today_days \<Rightarrow> filter (is_overdue today_days) assumptions)"

definition get_by_owner :: "AssumptionRegistry \<Rightarrow> string \<Rightarrow> Assumption list" where
  "get_by_owner assumptions owner = filter (\<lambda>a. ass_owner a = owner) assumptions"

definition get_violated :: "AssumptionRegistry \<Rightarrow> Assumption list" where
  "get_violated assumptions = filter (\<lambda>a. ass_status a = Violated) assumptions"

subsection \<open>Coverage\<close>

datatype AssumptionCheckResult =
    CheckOk
  | MissingAssumptions "string list"
  | OrphanedAssumptions "string list"
  | BrokenAnchors "string list"

definition assumption_tag :: "string \<Rightarrow> string option" where
  "assumption_tag tag = map_option trim (strip_prefix ''assumption:'' tag)"

definition note_tag :: "string set \<Rightarrow> string \<Rightarrow> string set \<times> string set \<Rightarrow> string set \<times> string set" where
  "note_tag known tag s =
     (case s of (referenced, missing) \<Rightarrow>
        (case assumption_tag tag of
           None \<Rightarrow> (referenced, missing)
         | Some i \<Rightarrow>
             if i = [] \<or> i \<notin> known then (referenced, insert i missing)
             else (insert i referenced, missing)))"

definition check_assumption_coverage :: "TheoremRegistry \<Rightarrow> AssumptionRegistry \<Rightarrow> AssumptionCheckResult list" where
  "check_assumption_coverage theorems assumptions =
     (let known = ass_id ` set assumptions;
          (referenced, missing) =
            fold (\<lambda>entry. fold (note_tag known) (te_tags entry)) (tr_entries theorems) ({}, {});
          orphaned = sort (map ass_id (filter (\<lambda>a. ass_id a \<notin> referenced) assumptions));
          broken = sort (map ass_id (filter (\<lambda>a.
            case ass_threat_model_anchor a of Some anchor \<Rightarrow> trim anchor = [] | None \<Rightarrow> False) assumptions));
          missing' = sorted_list_of_set missing;
          results = err_if (missing' \<noteq> []) (MissingAssumptions missing') @
            err_if (orphaned \<noteq> []) (OrphanedAssumptions orphaned) @
            err_if (broken \<noteq> []) (BrokenAnchors broken)
      in if results = [] then [CheckOk] else results)"

section \<open>The calendar\<close>

text \<open>Days before a year that begins in March.\<close>

definition year_start :: "int \<Rightarrow> int" where
  "year_start a = 365 * a + a div 4 - a div 100 + a div 400"

lemma sdiv_floor:
  "0 \<le> a \<Longrightarrow> 0 < b \<Longrightarrow> a sdiv b = a div b" for a b :: int
  by (cases "a = 0") (simp_all add: signed_divide_int_def)

lemma era_floor: "(if 0 \<le> a then a sdiv 400 else (a - 399) sdiv 400) = a div 400" for a :: int
proof (cases "0 \<le> a")
  case False
  then have "(a - 399) sdiv 400 = - ((399 - a) div 400)"
    by (simp add: signed_divide_int_def sgn_if abs_if)
  also have "399 - a = (399 - a mod 400) + 400 * - (a div 400)"
    using mult_div_mod_eq [of 400 a] by linarith
  also have "\<dots> div 400 = (399 - a mod 400) div 400 - a div 400"
    by (subst div_mult_self2) simp_all
  also have "(399 - a mod 400) div 400 = 0"
    using pos_mod_bound [of 400 a] pos_mod_sign [of 400 a] by (intro div_pos_pos_trivial) simp_all
  finally show ?thesis using False by simp
qed (simp add: sdiv_floor)

lemma era_year_start:
  fixes a :: int
  defines "y \<equiv> a - a div 400 * 400"
  shows "a div 400 * 146097 + (y * 365 + y sdiv 4 - y sdiv 100) = year_start a"
proof -
  have "0 \<le> y" unfolding y_def by (simp add: minus_div_mult_eq_mod)
  then have "y sdiv 4 = a div 4 - a div 400 * 100" and "y sdiv 100 = a div 100 - a div 400 * 4"
    by (simp_all add: sdiv_floor y_def)
  then show ?thesis by (simp add: year_start_def y_def)
qed

lemma div_pred: "(y - 1) div k = y div k - (if y mod k = 0 then 1 else 0)" if "0 < k" for y k :: int
proof -
  have y: "y - 1 = (y mod k - 1) + k * (y div k)" using mult_div_mod_eq [of k y] by linarith
  have "(y - 1) div k = (y mod k - 1) div k + y div k"
    using that by (subst y, subst div_mult_self2) simp_all
  moreover have "(y mod k - 1) div k = (if y mod k = 0 then - 1 else 0)"
  proof (cases "y mod k = 0")
    case False
    then have "0 \<le> y mod k - 1" and "y mod k - 1 < k"
      using that pos_mod_bound [of k y] pos_mod_sign [of k y] by linarith+
    with False show ?thesis by (simp add: div_pos_pos_trivial)
  qed (use that in \<open>simp add: div_eq_minus1\<close>)
  ultimately show ?thesis by simp
qed

lemma year_length: "year_start y = year_start (y - 1) + 365 + (if is_leap_year y then 1 else 0)"
proof -
  have "400 dvd y \<Longrightarrow> 100 dvd y" and "100 dvd y \<Longrightarrow> 4 dvd y"
    using dvd_trans [of 100 400 y] dvd_trans [of 4 100 y] by simp_all
  moreover have "(y - 1) div 4 = y div 4 - (if 4 dvd y then 1 else 0)"
      "(y - 1) div 100 = y div 100 - (if 100 dvd y then 1 else 0)"
      "(y - 1) div 400 = y div 400 - (if 400 dvd y then 1 else 0)"
    using div_pred [of 4 y] div_pred [of 100 y] div_pred [of 400 y] by (simp_all only: mod_eq_0_iff_dvd)
  ultimately show ?thesis
    unfolding year_start_def is_leap_year_def mod_eq_0_iff_dvd
    by (cases "4 dvd y"; cases "100 dvd y"; cases "400 dvd y") simp_all
qed

lemma days_eq:
  assumes "1 \<le> month"
  shows "days_from_civil year month day =
    year_start (year - (if month \<le> 2 then 1 else 0)) +
    (153 * (month + (if 2 < month then - 3 else 9)) + 2) div 5 + day - 1 - 719468"
proof -
  have "(153 * (month + (if 2 < month then - 3 else 9)) + 2) sdiv 5 =
      (153 * (month + (if 2 < month then - 3 else 9)) + 2) div 5"
    using assms by (intro sdiv_floor) simp_all
  then show ?thesis
    using era_year_start [of "year - (if month \<le> 2 then 1 else 0)"]
    by (simp only: days_from_civil_def Let_def era_floor)
qed

text \<open>The reference: months with their lengths, from the first of January.\<close>

definition month_lengths :: "int \<Rightarrow> int list" where
  "month_lengths y = [31, if is_leap_year y then 29 else 28, 31, 30, 31, 30, 31, 31, 30, 31, 30, 31]"

definition month_start :: "int \<Rightarrow> int \<Rightarrow> int" where
  "month_start y m = sum_list (take (nat (m - 1)) (month_lengths y))"

definition month_length :: "int \<Rightarrow> int \<Rightarrow> int" where
  "month_length y m = month_lengths y ! nat (m - 1)"

definition january_first :: "int \<Rightarrow> int" where
  "january_first y = year_start (y - 1) + 306 - 719468"

fun next_date :: "int \<times> int \<times> int \<Rightarrow> int \<times> int \<times> int" where
  "next_date (y, m, d) =
     (if d < month_length y m then (y, m, d + 1) else if m < 12 then (y, m + 1, 1) else (y + 1, 1, 1))"

lemma months: "1 \<le> m \<Longrightarrow> m \<le> 12 \<Longrightarrow>
    m = 1 \<or> m = 2 \<or> m = 3 \<or> m = 4 \<or> m = 5 \<or> m = 6 \<or> m = 7 \<or> m = 8 \<or> m = 9 \<or> m = 10 \<or> m = 11 \<or> m = 12"
  for m :: int
  by arith

lemma valid_iff: "is_valid_ymd y m d \<longleftrightarrow> 1 \<le> m \<and> m \<le> 12 \<and> 1 \<le> d \<and> d \<le> month_length y m"
proof (cases "1 \<le> m \<and> m \<le> 12")
  case True
  then have "1 \<le> m" and "m \<le> 12" by simp_all
  from months [OF this] have "max_day y m = Some (month_length y m)"
    by (elim disjE) (simp_all add: max_day_def month_length_def month_lengths_def numeral_eq_Suc nat_eq_iff)
  with True show ?thesis by (auto simp: is_valid_ymd_def)
qed (auto simp: is_valid_ymd_def)

lemma day_of_year:
  assumes "1 \<le> m" and "m \<le> 12"
  shows "days_from_civil y m d = january_first y + month_start y m + d - 1"
  using months [OF assms] year_length [of y]
  by (elim disjE) (simp_all add: days_eq january_first_def month_start_def month_lengths_def numeral_eq_Suc)

lemma month_start_step:
  assumes "1 \<le> m" and "m \<le> 12"
  shows "month_start y m + month_length y m =
    (if m = 12 then 365 + (if is_leap_year y then 1 else 0) else month_start y (m + 1))"
  using months [OF assms]
  by (elim disjE) (simp_all add: month_start_def month_length_def month_lengths_def numeral_eq_Suc)

lemma month_length_pos: "1 \<le> m \<Longrightarrow> m \<le> 12 \<Longrightarrow> 1 \<le> month_length y m"
  by (drule (1) months) (elim disjE; simp add: month_length_def month_lengths_def numeral_eq_Suc)

lemma january_step: "january_first (y + 1) = january_first y + 365 + (if is_leap_year y then 1 else 0)"
  using year_length [of y] by (simp add: january_first_def)

lemma next_date_valid:
  assumes "is_valid_ymd y m d"
  shows "case next_date (y, m, d) of (y', m', d') \<Rightarrow>
    is_valid_ymd y' m' d' \<and> days_from_civil y' m' d' = days_from_civil y m d + 1"
proof -
  have v: "1 \<le> m" "m \<le> 12" "1 \<le> d" "d \<le> month_length y m" using assms by (simp_all add: valid_iff)
  show ?thesis
    using v month_start_step [OF v(1,2), of y] month_length_pos [of "m + 1" y] month_length_pos [of 1 "y + 1"]
      january_step [of y] month_start_def [of "y + 1" 1]
    by (cases "m = 12") (auto simp: valid_iff day_of_year)
qed

lemma january_mono: "y \<le> y' \<Longrightarrow> january_first y \<le> january_first y'"
proof (induction rule: int_ge_induct)
  case (step y')
  then show ?case using january_step [of y'] by simp
qed simp

lemma month_start_mono: "m < m' \<Longrightarrow> 1 \<le> m \<Longrightarrow> m' \<le> 12 \<Longrightarrow> month_start y m + month_length y m \<le> month_start y m'"
proof (induction rule: int_gr_induct)
  case base
  then show ?case using month_start_step [of m y] by simp
next
  case (step i)
  then show ?case using month_start_step [of i y] month_length_pos [of i y] by simp
qed

lemma within_year:
  assumes "is_valid_ymd y m d"
  shows "january_first y \<le> days_from_civil y m d" and "days_from_civil y m d < january_first (y + 1)"
proof -
  have v: "1 \<le> m" "m \<le> 12" "1 \<le> d" "d \<le> month_length y m" using assms by (simp_all add: valid_iff)
  have "0 \<le> month_start y m"
    using month_start_mono [of 1 m y] month_length_pos [of 1 y] v month_start_def [of y 1] by (cases "m = 1") auto
  then show "january_first y \<le> days_from_civil y m d" using v by (simp add: day_of_year)
  have "month_start y m + month_length y m \<le> month_start y 12 + month_length y 12"
    using month_start_mono [of m 12 y] month_length_pos [of 12 y] v by (cases "m = 12") auto
  then show "days_from_civil y m d < january_first (y + 1)"
    using v month_start_step [of 12 y] january_step [of y] by (simp add: day_of_year)
qed

text \<open>Order of dates: year, month, day.\<close>

definition earlier :: "int \<times> int \<times> int \<Rightarrow> int \<times> int \<times> int \<Rightarrow> bool" where
  "earlier a b =
     (case (a, b) of ((y, m, d), (y', m', d')) \<Rightarrow> y < y' \<or> y = y' \<and> (m < m' \<or> m = m' \<and> d < d'))"

lemma date_order:
  assumes "is_valid_ymd y m d" and "is_valid_ymd y' m' d'" and "earlier (y, m, d) (y', m', d')"
  shows "days_from_civil y m d < days_from_civil y' m' d'"
proof -
  have v: "1 \<le> m" "m \<le> 12" "d \<le> month_length y m" "1 \<le> m'" "m' \<le> 12" "1 \<le> d'"
    using assms(1,2) by (simp_all add: valid_iff)
  consider "y + 1 \<le> y'" | "y = y'" "m < m'" | "y = y'" "m = m'" "d < d'"
    using assms(3) by (auto simp: earlier_def)
  then show ?thesis
  proof cases
    case 1
    from january_mono [OF this] show ?thesis
      using within_year [OF assms(1)] within_year [OF assms(2)] by linarith
  next
    case 2
    with month_start_mono [of m m' y] v show ?thesis by (simp add: day_of_year)
  next
    case 3
    with v show ?thesis by (simp add: day_of_year)
  qed
qed

text \<open>C18.  The day numbers that decide which reviews are overdue count days: the first of January 1970 is
  day zero, the day after a valid date (with the months and leap years of the Gregorian calendar) is valid and
  has the next number, across months, leap days and centuries, and later dates have larger numbers,
  before 1970 and before the year zero too.\<close>

theorem calendar_spec:
  "days_from_civil 1970 1 1 = 0 \<and>
   (is_valid_ymd y m d \<longrightarrow> (case next_date (y, m, d) of (y', m', d') \<Rightarrow>
      is_valid_ymd y' m' d' \<and> days_from_civil y' m' d' = days_from_civil y m d + 1)) \<and>
   (is_valid_ymd y m d \<and> is_valid_ymd y' m' d' \<longrightarrow>
      (days_from_civil y m d < days_from_civil y' m' d' \<longleftrightarrow> earlier (y, m, d) (y', m', d')))"
proof (intro conjI impI)
  show "days_from_civil 1970 1 1 = 0" by (simp add: days_eq year_start_def)
next
  assume "is_valid_ymd y m d"
  then show "case next_date (y, m, d) of (y', m', d') \<Rightarrow>
      is_valid_ymd y' m' d' \<and> days_from_civil y' m' d' = days_from_civil y m d + 1"
    by (rule next_date_valid)
next
  assume v: "is_valid_ymd y m d \<and> is_valid_ymd y' m' d'"
  have "earlier (y, m, d) (y', m', d') \<or> (y, m, d) = (y', m', d') \<or> earlier (y', m', d') (y, m, d)"
    by (auto simp: earlier_def)
  with v show "days_from_civil y m d < days_from_civil y' m' d' \<longleftrightarrow> earlier (y, m, d) (y', m', d')"
    using date_order [of y m d y' m' d'] date_order [of y' m' d' y m d] by auto
qed

theorem calendar_spec_witness:
  "days_from_civil 2000 3 1 = days_from_civil 2000 2 29 + 1 \<and> days_from_civil 1900 3 1 = days_from_civil 1900 2 28 + 1"
  using calendar_spec [of 2000 2 29 0 0 0] calendar_spec [of 1900 2 28 0 0 0]
  by (simp add: is_valid_ymd_def max_day_def is_leap_year_def month_length_def month_lengths_def)

section \<open>Registries\<close>

interpretation ids: key_scan check_id te_id "\<lambda>_. True"
  by unfold_locales (simp_all add: check_id_def)

text \<open>A registry is valid when its identifiers are distinct and every dependency is one of them; then a
  lookup finds the entry of an identifier, and every dependency can be looked up.\<close>

lemma theorem_registry_valid:
  "validate_theorem_registry r = Inr () \<longleftrightarrow> distinct (map te_id (tr_entries r)) \<and>
     (\<forall>t \<in> set (tr_entries r). set (te_dependencies t) \<subseteq> te_id ` set (tr_entries r))"
  using ids.scan_all [of "tr_entries r"] ids.scan_seen [of "{}" "tr_entries r"]
  by (auto simp: validate_theorem_registry_def case_prod_unfold check_dependencies_def)

lemma theorem_lookup:
  assumes "validate_theorem_registry r = Inr ()"
  shows "t \<in> set (tr_entries r) \<Longrightarrow> theorem_by_id r (te_id t) = Some t"
    and "t \<in> set (tr_entries r) \<Longrightarrow> i \<in> set (te_dependencies t) \<Longrightarrow> theorem_by_id r i \<noteq> None"
proof -
  have d: "distinct (map te_id (tr_entries r))"
    and deps: "\<forall>t \<in> set (tr_entries r). set (te_dependencies t) \<subseteq> te_id ` set (tr_entries r)"
    using assms by (simp_all add: theorem_registry_valid)
  have "distinct (map te_id es) \<Longrightarrow> t \<in> set es \<Longrightarrow> find (\<lambda>entry. te_id entry = te_id t) es = Some t" for es
    by (induction es) auto
  then show "t \<in> set (tr_entries r) \<Longrightarrow> theorem_by_id r (te_id t) = Some t"
    using d by (simp add: theorem_by_id_def)
  show "t \<in> set (tr_entries r) \<Longrightarrow> i \<in> set (te_dependencies t) \<Longrightarrow> theorem_by_id r i \<noteq> None"
    using deps unfolding theorem_by_id_def find_None_iff by blast
qed

lemma noted_tags:
  "fold (note_tag known) tags (referenced, missing) =
     (referenced \<union> {i. \<exists>tag \<in> set tags. assumption_tag tag = Some i \<and> i \<noteq> [] \<and> i \<in> known},
      missing \<union> {i. \<exists>tag \<in> set tags. assumption_tag tag = Some i \<and> (i = [] \<or> i \<notin> known)})"
  by (induction tags arbitrary: referenced missing) (auto simp: note_tag_def split: option.split)

lemma noted_entries:
  "fold (\<lambda>entry. fold (note_tag known) (te_tags entry)) es (referenced, missing) =
     (referenced \<union> {i. \<exists>e \<in> set es. \<exists>tag \<in> set (te_tags e). assumption_tag tag = Some i \<and> i \<noteq> [] \<and> i \<in> known},
      missing \<union> {i. \<exists>e \<in> set es. \<exists>tag \<in> set (te_tags e). assumption_tag tag = Some i \<and> (i = [] \<or> i \<notin> known)})"
proof (induction es arbitrary: referenced missing)
  case (Cons e es)
  show ?case unfolding fold_simps noted_tags Cons.IH by auto
qed simp

definition tagged :: "TheoremRegistry \<Rightarrow> string set" where
  "tagged r = {i. \<exists>e \<in> set (tr_entries r). \<exists>tag \<in> set (te_tags e). assumption_tag tag = Some i}"

lemma finite_tagged: "finite (tagged r)"
proof -
  have "tagged r \<subseteq> (\<lambda>tag. the (assumption_tag tag)) ` (\<Union>e \<in> set (tr_entries r). set (te_tags e))"
    by (force simp: tagged_def image_iff)
  then show ?thesis by (rule finite_subset) simp
qed

text \<open>The coverage check passes exactly when the theorems name exactly the registered assumptions and no
  anchor is blank.\<close>

lemma coverage_ok:
  "check_assumption_coverage r as = [CheckOk] \<longleftrightarrow>
     tagged r = ass_id ` set as \<and> [] \<notin> tagged r \<and> (\<forall>a \<in> set as. map_option trim (ass_threat_model_anchor a) \<noteq> Some [])"
proof -
  let ?known = "ass_id ` set as"
  let ?ref = "{i \<in> tagged r. i \<noteq> [] \<and> i \<in> ?known}" and ?mis = "{i \<in> tagged r. i = [] \<or> i \<notin> ?known}"
  have sets: "fold (\<lambda>entry. fold (note_tag ?known) (te_tags entry)) (tr_entries r) ({}, {}) = (?ref, ?mis)"
    by (auto simp: noted_entries tagged_def)
  have "finite ?mis" using finite_tagged by simp
  then have mis: "sorted_list_of_set ?mis = [] \<longleftrightarrow> ?mis = {}" by (rule sorted_list_of_set_eq_Nil_iff [THEN trans]) auto
  have nil: "sort xs = [] \<longleftrightarrow> xs = []" for xs :: "string list" by (metis length_0_conv length_sort)
  have "check_assumption_coverage r as = [CheckOk] \<longleftrightarrow> ?mis = {} \<and>
      (\<forall>a \<in> set as. ass_id a \<in> ?ref) \<and> (\<forall>a \<in> set as. map_option trim (ass_threat_model_anchor a) \<noteq> Some [])"
    unfolding check_assumption_coverage_def sets Let_def
    by (auto simp: mis nil err_if_def filter_empty_conv split: option.splits)
  also have "\<dots> \<longleftrightarrow> tagged r = ?known \<and> [] \<notin> tagged r \<and> (\<forall>a \<in> set as. map_option trim (ass_threat_model_anchor a) \<noteq> Some [])"
    by (auto simp: image_iff) (metis image_eqI)+
  finally show ?thesis .
qed

end
