(* ===== verification/Tx_Announce.thy ===== *)
theory Tx_Announce
  imports Validation
begin

text \<open>
  Announcements of transactions with sender and nonce (EIP-8077),
  \<open>crates/eth2077-types/src/eip8077.rs\<close>: the validator of a batch, the search for nonce gaps, statistics,
  the order in which announced transactions are fetched, and merging.  The nonces of the senders are collected in a
  hash map, whose iteration order is the parameter \<open>it\<close>; \<open>srt\<close> is the unstable sort of the fetch order.
\<close>

section \<open>Data\<close>

record EnhancedTxAnnouncement =
  an_tx_hash :: B256
  an_tx_type :: u8
  an_tx_size :: u32
  an_sender :: Address
  an_nonce :: u64

record TxAnnouncementBatch =
  ab_announcements :: "EnhancedTxAnnouncement list"
  ab_peer_id :: B256

datatype TxAnnouncementError =
    EmptyBatch
  | DuplicateTxHash B256
  | InvalidTxType u8
  | ZeroSize B256
  | NonceGapDetected Address u64 u64

record NonceSummary =
  ns_sender :: Address
  ns_min_nonce :: u64
  ns_max_nonce :: u64
  ns_count :: nat
  ns_has_gaps :: bool

record AnnouncementBatchStats =
  bs_total_announcements :: nat
  bs_unique_senders :: nat
  bs_total_tx_bytes :: u64
  bs_nonce_summaries :: "NonceSummary list"

section \<open>Operations\<close>

definition check_announcement ::
    "B256 set \<Rightarrow> EnhancedTxAnnouncement \<Rightarrow> TxAnnouncementError list \<times> B256 set" where
  "check_announcement seen a =
     (err_if (an_tx_hash a \<in> seen) (DuplicateTxHash (an_tx_hash a)) @
      err_if (3 < an_tx_type a) (InvalidTxType (an_tx_type a)) @
      err_if (an_tx_size a = 0) (ZeroSize (an_tx_hash a)),
      insert (an_tx_hash a) seen)"

definition validate_announcement_batch :: "TxAnnouncementBatch \<Rightarrow> TxAnnouncementError list + unit" where
  "validate_announcement_batch batch =
     finish (err_if (ab_announcements batch = []) EmptyBatch @
       fst (scan check_announcement {} (ab_announcements batch)))"

text \<open>\<open>by_sender.entry(sender).or_default().push(nonce)\<close>.\<close>

definition push_nonce ::
    "EnhancedTxAnnouncement \<Rightarrow> (Address, u64 list) hashmap \<Rightarrow> (Address, u64 list) hashmap" where
  "push_nonce a by_sender =
     hm_insert (an_sender a)
       ((case map_of by_sender (an_sender a) of Some nonces \<Rightarrow> nonces | None \<Rightarrow> []) @ [an_nonce a]) by_sender"

definition nonces_by_sender :: "EnhancedTxAnnouncement list \<Rightarrow> (Address, u64 list) hashmap" where
  "nonces_by_sender announcements = fold push_nonce announcements []"

text \<open>\<open>windows(2)\<close>.\<close>

fun windows2 :: "'a list \<Rightarrow> ('a \<times> 'a) list" where
  "windows2 (x # y # rest) = (x, y) # windows2 (y # rest)"
| "windows2 _ = []"

definition sender_gaps :: "Address \<times> u64 list \<Rightarrow> TxAnnouncementError list" where
  "sender_gaps entry =
     (case entry of (sender, nonces) \<Rightarrow>
        concat (map (\<lambda>(previous, actual).
            err_if (actual \<noteq> sat_add previous 1) (NonceGapDetected sender (sat_add previous 1) actual))
          (windows2 (sort nonces))))"

definition detect_nonce_gaps ::
    "((Address, u64 list) hashmap \<Rightarrow> (Address, u64 list) hashmap) \<Rightarrow> TxAnnouncementBatch \<Rightarrow>
       TxAnnouncementError list" where
  "detect_nonce_gaps it batch =
     concat (map sender_gaps (it (nonces_by_sender (ab_announcements batch))))"

definition nonce_summary :: "Address \<times> u64 list \<Rightarrow> NonceSummary" where
  "nonce_summary entry =
     (case entry of (sender, nonces) \<Rightarrow>
        let sorted_nonces = sort nonces in
        \<lparr>ns_sender = sender,
         ns_min_nonce = (case sorted_nonces of [] \<Rightarrow> 0 | n # _ \<Rightarrow> n),
         ns_max_nonce = (if sorted_nonces = [] then 0 else last sorted_nonces),
         ns_count = length nonces,
         ns_has_gaps = list_ex (\<lambda>(previous, actual). actual \<noteq> sat_add previous 1) (windows2 sorted_nonces)\<rparr>)"

definition compute_announcement_stats ::
    "((Address, u64 list) hashmap \<Rightarrow> (Address, u64 list) hashmap) \<Rightarrow> TxAnnouncementBatch \<Rightarrow>
       AnnouncementBatchStats" where
  "compute_announcement_stats it batch =
     \<lparr>bs_total_announcements = length (ab_announcements batch),
      bs_unique_senders = card (an_sender ` set (ab_announcements batch)),
      bs_total_tx_bytes = fold (\<lambda>a n. sat_add n (ucast (an_tx_size a))) (ab_announcements batch) 0,
      bs_nonce_summaries =
        sort_key ns_sender (map nonce_summary (it (nonces_by_sender (ab_announcements batch))))\<rparr>"

definition known_nonce :: "(Address, u64) hashmap \<Rightarrow> Address \<Rightarrow> u64" where
  "known_nonce known_nonces sender = (case map_of known_nonces sender of Some n \<Rightarrow> n | None \<Rightarrow> 0)"

definition executable_now :: "(Address, u64) hashmap \<Rightarrow> EnhancedTxAnnouncement \<Rightarrow> bool" where
  "executable_now known_nonces a \<longleftrightarrow> an_nonce a = known_nonce known_nonces (an_sender a)"

text \<open>\<open>b_exec.cmp(&a_exec).then nonce .then sender .then tx_hash\<close>, not greater.\<close>

definition fetch_before ::
    "(Address, u64) hashmap \<Rightarrow> EnhancedTxAnnouncement \<Rightarrow> EnhancedTxAnnouncement \<Rightarrow> bool" where
  "fetch_before known_nonces a b =
     (if executable_now known_nonces a \<noteq> executable_now known_nonces b then executable_now known_nonces a
      else if an_nonce a \<noteq> an_nonce b then an_nonce a < an_nonce b
      else if an_sender a \<noteq> an_sender b then an_sender a < an_sender b
      else an_tx_hash a \<le> an_tx_hash b)"

definition prioritize_announcements ::
    "(EnhancedTxAnnouncement list \<Rightarrow> EnhancedTxAnnouncement list) \<Rightarrow> TxAnnouncementBatch \<Rightarrow>
       (Address, u64) hashmap \<Rightarrow> EnhancedTxAnnouncement list" where
  "prioritize_announcements srt batch known_nonces =
     srt (filter (\<lambda>a. known_nonce known_nonces (an_sender a) \<le> an_nonce a) (ab_announcements batch))"

definition merge_step ::
    "EnhancedTxAnnouncement \<Rightarrow> B256 set \<times> EnhancedTxAnnouncement list \<Rightarrow> B256 set \<times> EnhancedTxAnnouncement list" where
  "merge_step a s =
     (case s of (seen, announcements) \<Rightarrow>
        if an_tx_hash a \<in> seen then (seen, announcements)
        else (insert (an_tx_hash a) seen, announcements @ [a]))"

definition merge_announcement_batches :: "TxAnnouncementBatch list \<Rightarrow> TxAnnouncementBatch" where
  "merge_announcement_batches batches =
     \<lparr>ab_announcements = snd (fold (\<lambda>batch. fold merge_step (ab_announcements batch)) batches ({}, [])),
      ab_peer_id = 0\<rparr>"

section \<open>Batches\<close>

interpretation announcements: key_scan check_announcement an_tx_hash "\<lambda>a. an_tx_type a \<le> 3 \<and> an_tx_size a \<noteq> 0"
  by unfold_locales (auto simp: check_announcement_def not_less)

lemma batch_valid:
  "validate_announcement_batch b = Inr () \<longleftrightarrow> ab_announcements b \<noteq> [] \<and>
     distinct (map an_tx_hash (ab_announcements b)) \<and>
     (\<forall>a \<in> set (ab_announcements b). an_tx_type a \<le> 3 \<and> an_tx_size a \<noteq> 0)"
  by (auto simp: validate_announcement_batch_def announcements.scan_all)

section \<open>Nonces of a sender\<close>

definition nonces_of :: "EnhancedTxAnnouncement list \<Rightarrow> Address \<Rightarrow> u64 list" where
  "nonces_of as s = map an_nonce (filter (\<lambda>a. an_sender a = s) as)"

lemma nonces_of_Cons: "nonces_of (a # as) s = (if an_sender a = s then [an_nonce a] else []) @ nonces_of as s"
  by (simp add: nonces_of_def)

lemma nonces_of_absent: "s \<notin> an_sender ` set as \<Longrightarrow> nonces_of as s = []"
  by (auto simp: nonces_of_def filter_empty_conv image_iff)

lemma fold_push_nonce:
  "hm_inv m \<Longrightarrow> hm_inv (fold push_nonce as m) \<and>
     map_of (fold push_nonce as m) s =
       (if s \<in> an_sender ` set as then Some ((case map_of m s of Some ns \<Rightarrow> ns | None \<Rightarrow> []) @ nonces_of as s)
        else map_of m s)"
proof (induction as arbitrary: m)
  case (Cons a as)
  have "hm_inv (push_nonce a m)" using Cons.prems by (simp add: push_nonce_def)
  from Cons.IH [OF this] show ?case
    using nonces_of_absent [of s as] by (auto simp: push_nonce_def nonces_of_Cons split: option.splits)
qed simp

lemma nonces_by_sender_map:
  "hm_inv (nonces_by_sender as)"
  "map_of (nonces_by_sender as) s = (if s \<in> an_sender ` set as then Some (nonces_of as s) else None)"
  using fold_push_nonce [of "[]" as s] by (simp_all add: nonces_by_sender_def)

lemma nonces_by_sender_entries:
  "set (nonces_by_sender as) = {(s, nonces_of as s) | s. s \<in> an_sender ` set as}"
  using hm_mem_iff [OF nonces_by_sender_map(1)] nonces_by_sender_map(2) [of as]
  by (auto split: if_splits)

text \<open>A sender has no gap when its nonces, in order, are consecutive.\<close>

fun consecutive :: "u64 list \<Rightarrow> bool" where
  "consecutive (x # y # rest) \<longleftrightarrow> y = sat_add x 1 \<and> consecutive (y # rest)"
| "consecutive _ \<longleftrightarrow> True"

lemma no_gaps_windows: "sender_gaps (s, ns) = [] \<longleftrightarrow> consecutive (sort ns)"
  and has_gaps_windows: "ns_has_gaps (nonce_summary (s, ns)) \<longleftrightarrow> \<not> consecutive (sort ns)"
proof -
  have "concat (map (\<lambda>(previous, actual).
            err_if (actual \<noteq> sat_add previous 1) (NonceGapDetected s (sat_add previous 1) actual)) (windows2 xs)) = []
      \<longleftrightarrow> consecutive xs" for xs
    by (induction xs rule: consecutive.induct) simp_all
  then show "sender_gaps (s, ns) = [] \<longleftrightarrow> consecutive (sort ns)" by (simp add: sender_gaps_def)
  have "list_ex (\<lambda>(previous, actual). actual \<noteq> sat_add previous 1) (windows2 xs) \<longleftrightarrow> \<not> consecutive xs" for xs :: "u64 list"
    by (induction xs rule: consecutive.induct) simp_all
  then show "ns_has_gaps (nonce_summary (s, ns)) \<longleftrightarrow> \<not> consecutive (sort ns)"
    by (simp add: nonce_summary_def Let_def)
qed

text \<open>Below the largest nonce, consecutive means a range without repetition.\<close>

lemma consecutive_range:
  assumes "\<forall>n \<in> set ns. n \<noteq> - 1"
  shows "consecutive ns \<longleftrightarrow> (ns = [] \<or> map unat ns = [unat (hd ns)..<unat (hd ns) + length ns])"
  using assms
proof (induction ns rule: consecutive.induct)
  case (1 x y rest)
  have "x \<noteq> - 1" using 1 by simp
  then have "unat x \<noteq> unat (- 1 :: u64)" by (simp only: word_unat_eq_iff not_False_eq_True)
  then have "unat x \<noteq> 2 ^ 64 - 1" by (simp add: unat_minus_one_word_max)
  then have "unat (sat_add x 1) = unat x + 1" using unat_le_max [of x] by (simp add: sat_simps)
  then have step: "y = sat_add x 1 \<longleftrightarrow> unat y = unat x + 1" by (auto simp: word_unat_eq_iff)
  have upt: "[unat x..<unat x + length (x # y # rest)] = unat x # [unat x + 1..<unat x + 1 + length (y # rest)]"
    by (subst upt_conv_Cons) simp_all
  have IH: "consecutive (y # rest) \<longleftrightarrow> map unat (y # rest) = [unat y..<unat y + length (y # rest)]"
    using 1 by (simp del: upt_Suc)
  have "unat y = unat x + 1" if "map unat (y # rest) = [unat x + 1..<unat x + 1 + length (y # rest)]"
  proof -
    have "hd [unat x + 1..<unat x + 1 + length (y # rest)] = unat x + 1" by (rule hd_upt) simp
    with arg_cong [OF that, of hd] show ?thesis by (simp del: upt_Suc)
  qed
  then have "consecutive (x # y # rest) \<longleftrightarrow> map unat (y # rest) = [unat x + 1..<unat x + 1 + length (y # rest)]"
    unfolding consecutive.simps step IH by metis
  also have "\<dots> \<longleftrightarrow> map unat (x # y # rest) = [unat x..<unat x + length (x # y # rest)]"
    unfolding upt by (simp del: upt_Suc)
  finally show ?case by (simp del: upt_Suc)
qed simp_all

lemma consecutive_iff_range:
  assumes "\<forall>n \<in> set ns. n \<noteq> - 1"
  shows "consecutive ns \<longleftrightarrow> (\<exists>first k. map unat ns = [first..<first + k])"
proof (cases ns)
  case (Cons n rest)
  show ?thesis
  proof
    assume "\<exists>first k. map unat ns = [first..<first + k]"
    then obtain first k where eq: "map unat ns = [first..<first + k]" by blast
    then have k: "length ns = k" by (metis diff_add_inverse length_map length_upt)
    then have "first < first + k" using Cons by auto
    then have "hd [first..<first + k] = first" by (rule hd_upt)
    with eq have "unat (hd ns) = first" using Cons by (metis hd_map list.distinct(1))
    with eq k show "consecutive ns" unfolding consecutive_range [OF assms] by simp
  qed (use consecutive_range [OF assms] Cons in blast)
next
  case Nil
  then have "map unat ns = [0..<0 + 0]" by simp
  with Nil show ?thesis by (metis consecutive.simps(2))
qed

lemma gaps_of_sender:
  assumes entries: "set (it (nonces_by_sender as)) = {(s, nonces_of as s) | s. s \<in> an_sender ` set as}"
    and "as = ab_announcements b" and s: "s \<in> an_sender ` set as"
  shows "(\<exists>x y. NonceGapDetected s x y \<in> set (detect_nonce_gaps it b)) \<longleftrightarrow> sender_gaps (s, nonces_of as s) \<noteq> []"
proof -
  have named: "e \<in> set (sender_gaps (s', ns)) \<Longrightarrow> \<exists>x y. e = NonceGapDetected s' x y" for e s' ns
    by (auto simp: sender_gaps_def)
  show ?thesis
  proof
    assume "\<exists>x y. NonceGapDetected s x y \<in> set (detect_nonce_gaps it b)"
    then obtain x y s' where "NonceGapDetected s x y \<in> set (sender_gaps (s', nonces_of as s'))"
      using entries assms(2) by (auto simp: detect_nonce_gaps_def)
    moreover from named [OF this] have "s' = s" by auto
    ultimately show "sender_gaps (s, nonces_of as s) \<noteq> []" by auto
  next
    assume "sender_gaps (s, nonces_of as s) \<noteq> []"
    then obtain e where e: "e \<in> set (sender_gaps (s, nonces_of as s))" by (meson last_in_set)
    moreover have "(s, nonces_of as s) \<in> set (it (nonces_by_sender as))" using entries s by blast
    ultimately have "e \<in> set (detect_nonce_gaps it b)" using assms(2) by (auto simp: detect_nonce_gaps_def)
    with named [OF e] show "\<exists>x y. NonceGapDetected s x y \<in> set (detect_nonce_gaps it b)" by auto
  qed
qed

lemma summary_senders:
  assumes "hash_order it"
  shows "map ns_sender (bs_nonce_summaries (compute_announcement_stats it b)) =
    sorted_list_of_set (an_sender ` set (ab_announcements b))"
proof -
  let ?as = "ab_announcements b"
  let ?m = "map ns_sender (bs_nonce_summaries (compute_announcement_stats it b))"
  have names: "ns_sender \<circ> nonce_summary = fst" by (auto simp: nonce_summary_def Let_def)
  have "mset ?m = mset (map fst (it (nonces_by_sender ?as)))"
    by (simp add: compute_announcement_stats_def multiset.map_comp names)
  moreover have "distinct (map fst (it (nonces_by_sender ?as)))"
    using hash_order_hm(1) [OF assms nonces_by_sender_map(1)] by (simp add: hm_inv_def)
  moreover have "set (map fst (it (nonces_by_sender ?as))) = an_sender ` set ?as"
    by (auto simp: hash_order_set [OF assms] nonces_by_sender_entries image_iff)
  ultimately have "distinct ?m" "set ?m = an_sender ` set ?as"
    by (metis mset_eq_imp_distinct_iff, metis mset_eq_setD)
  moreover have "sorted ?m" by (simp add: compute_announcement_stats_def)
  ultimately show ?thesis by (metis sorted_list_of_set.idem_if_sorted_distinct)
qed

text \<open>C30.  Nonce gaps are found whatever the order of the hash map.  The report names exactly the senders whose
  announced nonces are not a range without gap or repetition, and is empty when there is none.  The statistics
  hold one summary for every sender that announces anything, in the order of the addresses, count its
  announcements, and flag exactly the senders the report names.  (At the largest nonce the successor saturates;
  it is excluded.)\<close>

theorem nonce_gaps_spec:
  fixes b :: TxAnnouncementBatch
  assumes "hash_order it" and "\<forall>a \<in> set (ab_announcements b). an_nonce a \<noteq> - 1"
  defines "named \<equiv> {s. \<exists>expected actual. NonceGapDetected s expected actual \<in> set (detect_nonce_gaps it b)}"
    and "summaries \<equiv> bs_nonce_summaries (compute_announcement_stats it b)"
  shows "(detect_nonce_gaps it b = [] \<longleftrightarrow> named = {}) \<and>
    named = {s \<in> an_sender ` set (ab_announcements b).
      \<not> (\<exists>first k. map unat (sort (nonces_of (ab_announcements b) s)) = [first..<first + k])} \<and>
    map ns_sender summaries = sorted_list_of_set (an_sender ` set (ab_announcements b)) \<and>
    (\<forall>summary \<in> set summaries. ns_count summary = length (nonces_of (ab_announcements b) (ns_sender summary))) \<and>
    ns_sender ` {summary \<in> set summaries. ns_has_gaps summary} = named"
proof -
  let ?as = "ab_announcements b"
  have entries: "set (it (nonces_by_sender ?as)) = {(s, nonces_of ?as s) | s. s \<in> an_sender ` set ?as}"
    by (simp add: hash_order_set [OF assms(1)] nonces_by_sender_entries)
  have range: "consecutive (sort (nonces_of ?as s)) \<longleftrightarrow>
      (\<exists>first k. map unat (sort (nonces_of ?as s)) = [first..<first + k])" for s
    using assms(2) by (intro consecutive_iff_range) (auto simp: nonces_of_def)
  have reported: "e \<in> set (detect_nonce_gaps it b) \<Longrightarrow>
      \<exists>s \<in> an_sender ` set ?as. \<exists>x y. e = NonceGapDetected s x y" for e
    by (fastforce simp: detect_nonce_gaps_def entries sender_gaps_def)
  have named: "s \<in> named \<longleftrightarrow> s \<in> an_sender ` set ?as \<and> \<not> consecutive (sort (nonces_of ?as s))" for s
    using gaps_of_sender [of it ?as b s, OF entries refl] reported
    by (auto simp: named_def no_gaps_windows)
  have "detect_nonce_gaps it b = [] \<longleftrightarrow> named = {}"
  proof
    assume "named = {}"
    then have "e \<notin> set (detect_nonce_gaps it b)" for e using reported [of e] by (auto simp: named_def)
    then show "detect_nonce_gaps it b = []" by (meson last_in_set)
  qed (simp add: named_def)
  moreover have summaries: "set summaries = (\<lambda>s. nonce_summary (s, nonces_of ?as s)) ` an_sender ` set ?as"
    by (auto simp: summaries_def compute_announcement_stats_def entries)
  moreover have fields: "ns_sender (nonce_summary (s, ns)) = s" "ns_count (nonce_summary (s, ns)) = length ns" for s ns
    by (simp_all add: nonce_summary_def Let_def)
  moreover have "ns_sender ` {summary \<in> set summaries. ns_has_gaps summary} = named"
  proof -
    have "{summary \<in> set summaries. ns_has_gaps summary} = (\<lambda>s. nonce_summary (s, nonces_of ?as s)) ` named"
      unfolding summaries using named has_gaps_windows by blast
    then show ?thesis by (simp add: image_image fields)
  qed
  moreover have "named = {s \<in> an_sender ` set ?as. \<not> consecutive (sort (nonces_of ?as s))}" using named by blast
  ultimately show ?thesis
    using summary_senders [OF assms(1), of b] unfolding range summaries_def by auto
qed

definition example_announcement :: "B256 \<Rightarrow> Address \<Rightarrow> u64 \<Rightarrow> EnhancedTxAnnouncement" where
  "example_announcement h s n =
     \<lparr>an_tx_hash = h, an_tx_type = 2, an_tx_size = 100, an_sender = s, an_nonce = n\<rparr>"

definition example_batch :: "EnhancedTxAnnouncement list \<Rightarrow> TxAnnouncementBatch" where
  "example_batch as = \<lparr>ab_announcements = as, ab_peer_id = 1\<rparr>"

theorem nonce_gaps_spec_witness:
  "detect_nonce_gaps (\<lambda>m. m) (example_batch [example_announcement 1 7 5, example_announcement 2 8 3,
     example_announcement 3 7 4]) = []"
proof -
  let ?b = "example_batch [example_announcement 1 7 5, example_announcement 2 8 3, example_announcement 3 7 4]"
  have "\<forall>a \<in> set (ab_announcements ?b). an_nonce a \<noteq> - 1"
    by (simp add: example_batch_def example_announcement_def)
  note spec = nonce_gaps_spec [OF hash_order_id this]
  have "map unat (sort (nonces_of (ab_announcements ?b) 7)) = [4..<4 + 2]"
    and "map unat (sort (nonces_of (ab_announcements ?b) 8)) = [3..<3 + 1]"
    by (simp_all add: example_batch_def example_announcement_def nonces_of_def word_le_def upt_rec)
  then have "\<exists>first k. map unat (sort (nonces_of (ab_announcements ?b) s)) = [first..<first + k]" if "s \<in> {7, 8}" for s
    using that by blast
  moreover have "an_sender ` set (ab_announcements ?b) = {7, 8}"
    by (auto simp: example_batch_def example_announcement_def)
  ultimately have "{s \<in> an_sender ` set (ab_announcements ?b).
      \<not> (\<exists>first k. map unat (sort (nonces_of (ab_announcements ?b) s)) = [first..<first + k])} = {}" by blast
  with spec show ?thesis by presburger
qed

section \<open>Fetching\<close>

lemma fetch_before_total: "fetch_before k a b \<or> fetch_before k b a"
  by (auto simp: fetch_before_def)

lemma fetch_before_trans: "fetch_before k a b \<Longrightarrow> fetch_before k b c \<Longrightarrow> fetch_before k a c"
  by (auto simp: fetch_before_def split: if_splits)

text \<open>The contract of the sort can be met.\<close>

lemma fetch_sort: "unstable_sort (fetch_before k) (sort_by (fetch_before k))"
  by (rule unstable_sort_sort_by) (fact fetch_before_total, rule fetch_before_trans)

text \<open>The fetch order keeps exactly what is not stale, executable transactions first, and then by nonce.\<close>

lemma prioritize_spec:
  assumes "unstable_sort (fetch_before k) srt"
  shows "mset (prioritize_announcements srt b k) =
      mset (filter (\<lambda>a. known_nonce k (an_sender a) \<le> an_nonce a) (ab_announcements b))"
    and "sorted_wrt (\<lambda>a c. (executable_now k c \<longrightarrow> executable_now k a) \<and>
      (executable_now k a = executable_now k c \<longrightarrow> an_nonce a \<le> an_nonce c)) (prioritize_announcements srt b k)"
proof -
  show "mset (prioritize_announcements srt b k) =
      mset (filter (\<lambda>a. known_nonce k (an_sender a) \<le> an_nonce a) (ab_announcements b))"
    unfolding prioritize_announcements_def by (rule unstable_sort_mset [OF assms])
  have "sorted_wrt (fetch_before k) (prioritize_announcements srt b k)"
    unfolding prioritize_announcements_def by (rule unstable_sort_sorted [OF assms])
  then show "sorted_wrt (\<lambda>a c. (executable_now k c \<longrightarrow> executable_now k a) \<and>
      (executable_now k a = executable_now k c \<longrightarrow> an_nonce a \<le> an_nonce c)) (prioritize_announcements srt b k)"
    by (rule sorted_wrt_mono_rel [rotated]) (auto simp: fetch_before_def split: if_splits)
qed

section \<open>Merging\<close>

lemma fold_merge_step:
  assumes "seen = an_tx_hash ` set acc" and "distinct (map an_tx_hash acc)"
  shows "case fold merge_step as (seen, acc) of (seen', acc') \<Rightarrow>
    seen' = an_tx_hash ` set acc' \<and> distinct (map an_tx_hash acc') \<and>
    an_tx_hash ` set acc' = seen \<union> an_tx_hash ` set as \<and> set acc' \<subseteq> set acc \<union> set as"
  using assms
proof (induction as arbitrary: seen acc)
  case (Cons a as)
  show ?case
  proof (cases "an_tx_hash a \<in> seen")
    case True
    with Cons.IH [OF Cons.prems] show ?thesis by (simp add: merge_step_def case_prod_unfold insert_absorb) blast
  next
    case False
    with Cons.prems have "insert (an_tx_hash a) seen = an_tx_hash ` set (acc @ [a])" "distinct (map an_tx_hash (acc @ [a]))"
      by auto
    from Cons.IH [OF this] False show ?thesis by (auto simp: merge_step_def)
  qed
qed simp

text \<open>A merged batch announces every hash of the batches once, and nothing else.\<close>

lemma merge_batches_spec:
  "distinct (map an_tx_hash (ab_announcements (merge_announcement_batches bs)))"
  "an_tx_hash ` set (ab_announcements (merge_announcement_batches bs)) = (\<Union>b \<in> set bs. an_tx_hash ` set (ab_announcements b))"
  "set (ab_announcements (merge_announcement_batches bs)) \<subseteq> (\<Union>b \<in> set bs. set (ab_announcements b))"
proof -
  have fold: "fold (\<lambda>batch. fold merge_step (ab_announcements batch)) bs s =
      fold merge_step (concat (map ab_announcements bs)) s" for s
    by (induction bs arbitrary: s) simp_all
  have "case fold merge_step (concat (map ab_announcements bs)) ({}, []) of (seen', acc') \<Rightarrow>
      seen' = an_tx_hash ` set acc' \<and> distinct (map an_tx_hash acc') \<and>
      an_tx_hash ` set acc' = {} \<union> an_tx_hash ` set (concat (map ab_announcements bs)) \<and>
      set acc' \<subseteq> set [] \<union> set (concat (map ab_announcements bs))"
    by (rule fold_merge_step) simp_all
  then show "distinct (map an_tx_hash (ab_announcements (merge_announcement_batches bs)))"
    "an_tx_hash ` set (ab_announcements (merge_announcement_batches bs)) = (\<Union>b \<in> set bs. an_tx_hash ` set (ab_announcements b))"
    "set (ab_announcements (merge_announcement_batches bs)) \<subseteq> (\<Union>b \<in> set bs. set (ab_announcements b))"
    by (auto simp: merge_announcement_batches_def fold case_prod_unfold)
qed

end
