(* ===== verification/Focil_Types.thy ===== *)
theory Focil_Types
  imports Validation Json
begin

text \<open>
  The types crate's own rules for inclusion lists (FOCIL, \<open>crates/eth2077-types/src/focil.rs\<close>) and for payloads
  revealed apart from their headers (ePBS, \<open>crates/eth2077-types/src/epbs.rs\<close>).  The daemon has its own versions
  of both, in theories \<open>Inclusion_Lists\<close> and \<open>Payload_Timeliness\<close>.
\<close>

section \<open>Inclusion lists\<close>

record FocilEntry =
  ie_validator_index :: u64
  ie_tx_hash :: B256
  ie_gas_limit :: u64
  ie_max_fee_per_gas :: u128
  ie_inclusion_deadline_slot :: u64

record FocilList =
  il_slot :: u64
  il_entries :: "FocilEntry list"
  il_aggregate_signature :: "bytes option"

datatype InclusionListValidationError =
    EmptyList
  | DuplicateTxHashes B256
  | ExpiredDeadline B256 u64 u64
  | GasLimitExceeded u128 u64
  | TooManyEntries nat nat

record FocilStats =
  is_slot :: u64
  is_entry_count :: nat
  is_unique_validator_count :: nat
  is_unique_tx_count :: nat
  is_total_gas_limit :: u128
  is_min_deadline_slot :: "u64 option"
  is_max_deadline_slot :: "u64 option"
  is_average_max_fee_per_gas :: u128
  is_has_aggregate_signature :: bool

definition check_focil_entry ::
    "u64 \<Rightarrow> B256 set \<times> B256 set \<Rightarrow> FocilEntry \<Rightarrow> InclusionListValidationError list \<times> (B256 set \<times> B256 set)" where
  "check_focil_entry current_slot s entry =
     (case s of (seen_hashes, duplicate_reported) \<Rightarrow>
        let again = ie_tx_hash entry \<in> seen_hashes in
        (err_if (again \<and> ie_tx_hash entry \<notin> duplicate_reported) (DuplicateTxHashes (ie_tx_hash entry)) @
         err_if (ie_inclusion_deadline_slot entry < current_slot)
           (ExpiredDeadline (ie_tx_hash entry) (ie_inclusion_deadline_slot entry) current_slot),
         insert (ie_tx_hash entry) seen_hashes,
         if again then insert (ie_tx_hash entry) duplicate_reported else duplicate_reported))"

definition requested_gas :: "FocilEntry list \<Rightarrow> u128" where
  "requested_gas entries = fold (\<lambda>entry gas. sat_add gas (ucast (ie_gas_limit entry))) entries 0"

definition validate_inclusion_list ::
    "FocilList \<Rightarrow> u64 \<Rightarrow> nat \<Rightarrow> u64 \<Rightarrow> InclusionListValidationError list + unit" where
  "validate_inclusion_list l current_slot max_entries block_gas_limit =
     (let entry_count = length (il_entries l);
          total_requested_gas = requested_gas (il_entries l)
      in finish (err_if (entry_count = 0) EmptyList @
           err_if (max_entries < entry_count) (TooManyEntries entry_count max_entries) @
           fst (scan (check_focil_entry current_slot) ({}, {}) (il_entries l)) @
           err_if (ucast block_gas_limit < total_requested_gas)
             (GasLimitExceeded total_requested_gas block_gas_limit)))"

definition check_required :: "B256 set \<Rightarrow> FocilEntry \<Rightarrow> B256 set \<times> B256 list \<Rightarrow> B256 set \<times> B256 list" where
  "check_required included entry s =
     (case s of (seen_required, missing) \<Rightarrow>
        (insert (ie_tx_hash entry) seen_required,
         if ie_tx_hash entry \<notin> seen_required \<and> ie_tx_hash entry \<notin> included then missing @ [ie_tx_hash entry]
         else missing))"

definition check_block_satisfies_inclusion_list :: "B256 list \<Rightarrow> FocilList \<Rightarrow> B256 list" where
  "check_block_satisfies_inclusion_list included_tx_hashes required =
     snd (fold (check_required (set included_tx_hashes)) (il_entries required) ({}, []))"

definition compute_inclusion_stats :: "FocilList \<Rightarrow> FocilStats" where
  "compute_inclusion_stats l =
     (let entries = il_entries l;
          total_max_fee_per_gas = fold (\<lambda>entry fee. sat_add fee (ie_max_fee_per_gas entry)) entries 0;
          deadlines = map ie_inclusion_deadline_slot entries
      in \<lparr>is_slot = il_slot l, is_entry_count = length entries,
          is_unique_validator_count = card (ie_validator_index ` set entries),
          is_unique_tx_count = card (ie_tx_hash ` set entries),
          is_total_gas_limit = requested_gas entries,
          is_min_deadline_slot = (if entries = [] then None else Some (Min (set deadlines))),
          is_max_deadline_slot = (if entries = [] then None else Some (Max (set deadlines))),
          is_average_max_fee_per_gas =
            (if length entries = 0 then 0 else total_max_fee_per_gas div of_nat (length entries)),
          is_has_aggregate_signature = (il_aggregate_signature l \<noteq> None)\<rparr>)"

section \<open>Payload headers and envelopes\<close>

datatype EpbsTimeliness =
    Unknown | HeaderOnly | PartialReveal | Revealed | LateReveal | Withheld | PartialWithhold | OrphanEnvelope

datatype PenaltyState = PenaltyActive | PenaltyRecovered

record EpbsHeader =
  eh_slot :: u64
  eh_payload_header_root :: string
  eh_parent_beacon_block_root :: "string option"
  eh_execution_block_hash :: "string option"
  eh_proposer :: "string option"
  eh_bid_value_wei :: u128
  eh_view_id :: "u64 option"
  eh_received_at_unix_s :: u64

record EpbsEnvelope =
  ee_slot :: u64
  ee_payload_header_root :: string
  ee_execution_block_hash :: "string option"
  ee_payload_body_hash :: "string option"
  ee_signer :: "string option"
  ee_data_available :: bool
  ee_revealed_at_unix_s :: u64

record PenaltyRecord =
  pr_slot :: u64
  pr_state :: PenaltyState
  pr_reason :: string
  pr_last_status :: EpbsTimeliness
  pr_activated_at_unix_s :: u64
  pr_recovered_at_unix_s :: "u64 option"

datatype EpbsValidationError =
    HeaderSlotMismatch u64 u64
  | EnvelopeSlotMismatch u64 u64
  | EnvelopeHeaderRootMismatch string string
  | DuplicateHeaderRegistration u64 string
  | ConflictingHeaderRegistration u64 string
  | StaleSlot u64 u64
  | PenaltyAlreadyActive u64
  | PenaltyNotActive u64
  | RevealAfterDeadline u64 u64 u64

definition validate_envelope_against_header :: "EpbsHeader \<Rightarrow> EpbsEnvelope \<Rightarrow> EpbsValidationError + unit" where
  "validate_envelope_against_header header envelope =
     (if ee_slot envelope \<noteq> eh_slot header then Inl (EnvelopeSlotMismatch (ee_slot envelope) (eh_slot header))
      else if ee_payload_header_root envelope \<noteq> eh_payload_header_root header then
        Inl (EnvelopeHeaderRootMismatch (ee_payload_header_root envelope) (eh_payload_header_root header))
      else Inr ())"

definition determine_timeliness :: "EpbsHeader option \<Rightarrow> EpbsEnvelope option \<Rightarrow> u64 \<Rightarrow> EpbsTimeliness" where
  "determine_timeliness header envelope slot_deadline_unix_s =
     (case (header, envelope) of
        (None, None) \<Rightarrow> Unknown
      | (Some _, None) \<Rightarrow> HeaderOnly
      | (None, Some _) \<Rightarrow> OrphanEnvelope
      | (Some _, Some e) \<Rightarrow>
          let is_late = slot_deadline_unix_s < ee_revealed_at_unix_s e in
          if ee_data_available e then (if is_late then LateReveal else Revealed)
          else if is_late then Withheld else PartialReveal)"

definition check_header_conflict :: "EpbsHeader \<Rightarrow> EpbsHeader \<Rightarrow> EpbsValidationError + unit" where
  "check_header_conflict existing incoming =
     (if eh_slot incoming \<noteq> eh_slot existing then Inl (HeaderSlotMismatch (eh_slot incoming) (eh_slot existing))
      else if eh_payload_header_root incoming = eh_payload_header_root existing then Inr ()
      else Inl (ConflictingHeaderRegistration (eh_slot incoming) (eh_payload_header_root incoming)))"

definition validate_slot_range :: "u64 \<Rightarrow> u64 \<Rightarrow> u64 \<Rightarrow> string + unit" where
  "validate_slot_range start end_slot max_window =
     (if end_slot < start then
        Inl (''invalid slot range: end ('' @ decimal (unat end_slot) @ '') is less than start ('' @
          decimal (unat start) @ '')'')
      else
        let window = end_slot - start in
        if max_window < window then
          Inl (''slot range window '' @ decimal (unat window) @ '' exceeds maximum allowed '' @
            decimal (unat max_window))
        else Inr ())"

section \<open>Properties of inclusion lists\<close>

lemma scan_focil_entries:
  "fst (scan (check_focil_entry slot) (seen, {}) es) = [] \<longleftrightarrow>
     (\<forall>e \<in> set es. slot \<le> ie_inclusion_deadline_slot e) \<and> distinct (map ie_tx_hash es) \<and>
     ie_tx_hash ` set es \<inter> seen = {}"
  by (induction es arbitrary: seen) (auto simp: case_prod_unfold check_focil_entry_def Let_def not_less split: if_splits)

lemma inclusion_list_valid:
  "validate_inclusion_list l slot max_entries limit = Inr () \<longleftrightarrow>
     il_entries l \<noteq> [] \<and> length (il_entries l) \<le> max_entries \<and> distinct (map ie_tx_hash (il_entries l)) \<and>
     (\<forall>e \<in> set (il_entries l). slot \<le> ie_inclusion_deadline_slot e) \<and>
     sum_list (map (unat \<circ> ie_gas_limit) (il_entries l)) \<le> unat limit"
proof -
  let ?es = "il_entries l"
  have "unat (requested_gas ?es) = min (sum_list (map (unat \<circ> ie_gas_limit) ?es)) (2 ^ 128 - 1)"
    by (simp add: requested_gas_def unat_fold_sat_add comp_def)
  moreover have "unat limit < 2 ^ 128 - 1" using unat_le_max [of limit] by simp
  ultimately have gas: "\<not> ucast limit < requested_gas ?es \<longleftrightarrow> sum_list (map (unat \<circ> ie_gas_limit) ?es) \<le> unat limit"
    by (simp add: word_less_nat_alt not_less min_def)
  show ?thesis
    unfolding validate_inclusion_list_def Let_def finish_ok append_is_Nil_conv err_if_Nil gas
    using scan_focil_entries [of slot "{}" ?es] by (auto simp: not_less)
qed

lemma fold_required:
  "distinct missing \<Longrightarrow> set missing \<subseteq> seen \<Longrightarrow>
     case fold (check_required included) es (seen, missing) of (seen', missing') \<Rightarrow>
       seen' = seen \<union> ie_tx_hash ` set es \<and> distinct missing' \<and>
       set missing' = set missing \<union> (ie_tx_hash ` set es - seen - included)"
proof (induction es arbitrary: seen missing)
  case (Cons e es)
  let ?m = "snd (check_required included e (seen, missing))"
  have "distinct ?m" and "set ?m \<subseteq> insert (ie_tx_hash e) seen"
    using Cons.prems by (auto simp: check_required_def)
  from Cons.IH [OF this] show ?case by (auto simp: check_required_def case_prod_unfold split: if_splits)
qed simp

text \<open>Inclusion lists mean what they say.  A list is accepted exactly when it is not empty or too long, names
  no transaction twice, no deadline has passed, and the gas of all entries fits the block, computed
  without wrap-around; and the report of a block against a list names, each once, exactly the
  required transactions the block lacks, so that it is empty exactly when all are included.\<close>

theorem inclusion_list_spec:
  "(validate_inclusion_list l slot max_entries limit = Inr () \<longleftrightarrow>
     il_entries l \<noteq> [] \<and> length (il_entries l) \<le> max_entries \<and> distinct (map ie_tx_hash (il_entries l)) \<and>
     (\<forall>e \<in> set (il_entries l). slot \<le> ie_inclusion_deadline_slot e) \<and>
     sum_list (map (unat \<circ> ie_gas_limit) (il_entries l)) \<le> unat limit) \<and>
   distinct (check_block_satisfies_inclusion_list block l) \<and>
   set (check_block_satisfies_inclusion_list block l) = ie_tx_hash ` set (il_entries l) - set block \<and>
   (check_block_satisfies_inclusion_list block l = [] \<longleftrightarrow> ie_tx_hash ` set (il_entries l) \<subseteq> set block)"
proof -
  have *: "distinct (check_block_satisfies_inclusion_list block l) \<and>
      set (check_block_satisfies_inclusion_list block l) = ie_tx_hash ` set (il_entries l) - set block"
    using fold_required [of "[]" "{}" "il_entries l" "set block"]
    by (simp add: check_block_satisfies_inclusion_list_def case_prod_unfold)
  then have "check_block_satisfies_inclusion_list block l = [] \<longleftrightarrow> ie_tx_hash ` set (il_entries l) \<subseteq> set block"
    by (metis Diff_eq_empty_iff set_empty)
  with * inclusion_list_valid [of l slot max_entries limit] show ?thesis by blast
qed

definition example_list :: "B256 list \<Rightarrow> FocilList" where
  "example_list hashes =
     \<lparr>il_slot = 10, il_entries = map (\<lambda>h. \<lparr>ie_validator_index = 1, ie_tx_hash = h, ie_gas_limit = 21000,
        ie_max_fee_per_gas = 5, ie_inclusion_deadline_slot = 12\<rparr>) hashes, il_aggregate_signature = None\<rparr>"

theorem inclusion_list_spec_witness:
  "validate_inclusion_list (example_list [1, 2]) 11 8 42000 = Inr () \<and>
   validate_inclusion_list (example_list [1, 2]) 13 8 42000 \<noteq> Inr () \<and>
   set (check_block_satisfies_inclusion_list [2, 3] (example_list [1, 2])) = {1}"
proof (intro conjI)
  note at11 = inclusion_list_spec [of "example_list [1, 2]" 11 8 42000 "[2, 3]"]
  show "validate_inclusion_list (example_list [1, 2]) 11 8 42000 = Inr ()"
    by (subst at11 [THEN conjunct1]) (simp add: example_list_def)
  show "validate_inclusion_list (example_list [1, 2]) 13 8 42000 \<noteq> Inr ()"
    by (subst inclusion_list_spec [THEN conjunct1]) (simp add: example_list_def)
  have "ie_tx_hash ` set (il_entries (example_list [1, 2])) = {1, 2}" by (simp add: example_list_def)
  then show "set (check_block_satisfies_inclusion_list [2, 3] (example_list [1, 2])) = {1}"
    unfolding at11 [THEN conjunct2, THEN conjunct2, THEN conjunct1] by (simp add: insert_Diff_if)
qed

section \<open>Properties of payloads\<close>

text \<open>A slot range is accepted exactly when it is not reversed and within the window; nothing wraps.\<close>

lemma slot_range_valid:
  "validate_slot_range start end_slot max_window = Inr () \<longleftrightarrow>
     start \<le> end_slot \<and> unat end_slot - unat start \<le> unat max_window"
  by (auto simp: validate_slot_range_def Let_def not_less word_le_nat_alt word_less_nat_alt unat_sub)

text \<open>The status of a payload separates what was registered, what was revealed, and when.\<close>

lemma timeliness_cases:
  "determine_timeliness header envelope deadline = Revealed \<longleftrightarrow>
     header \<noteq> None \<and> (\<exists>e. envelope = Some e \<and> ee_data_available e \<and> ee_revealed_at_unix_s e \<le> deadline)"
  "determine_timeliness header envelope deadline \<in> {LateReveal, Withheld} \<longleftrightarrow>
     header \<noteq> None \<and> (\<exists>e. envelope = Some e \<and> deadline < ee_revealed_at_unix_s e)"
  by (auto simp: determine_timeliness_def Let_def not_less split: option.split if_splits)

text \<open>The status \<open>PartialWithhold\<close> is never given.\<close>

lemma never_partial_withhold: "determine_timeliness header envelope deadline \<noteq> PartialWithhold"
  by (auto simp: determine_timeliness_def Let_def split: option.split)

end
