(* ===== verification/String_Maps.thy ===== *)
theory String_Maps
  imports Validation Encoding Json "HOL-Library.Char_ord" "HOL-Library.List_Lexorder"
begin

text \<open>
  What the configuration modules of \<open>crates/eth2077-types\<close> share: metadata, a \<open>HashMap<String, String>\<close> that is
  sorted by key before it is hashed or printed; length-prefixed strings; hexadecimal digests; and errors that
  name a field and a reason (each module declares the same struct).  Strings are ASCII, and their order is the
  lexicographic order of their bytes.
\<close>

type_synonym metadata = "(string, string) hashmap"

record FieldError =
  err_field :: string
  err_reason :: string

definition reject_field :: "string \<Rightarrow> string \<Rightarrow> FieldError" where
  "reject_field field reason = \<lparr>err_field = field, err_reason = reason\<rparr>"

definition to_ascii_uppercase :: "string \<Rightarrow> string" where
  "to_ascii_uppercase =
     map (\<lambda>c. let n = of_char c :: nat in if 97 \<le> n \<and> n \<le> 122 then char_of (n - 32) else c)"

definition lower_hex :: "bytes \<Rightarrow> string" where
  "lower_hex bs = concat (map (\<lambda>b. [hex_char (unat b div 16), hex_char (unat b mod 16)]) bs)"

text \<open>Two digits per byte: the printed bytes can be read back.\<close>

lemma lower_hex_inj: "lower_hex as = lower_hex bs \<longleftrightarrow> as = bs"
proof
  have digits: "unat b div 16 < 16" "unat b mod 16 < 16" for b :: u8
    using unsigned_less [of b, where 'a = nat] by (simp_all add: less_mult_imp_div_less)
  have hex_char_inj: "hex_char m = hex_char n \<Longrightarrow> m = n" if "m < 16" "n < 16" for m n
    using that by (metis decode_hex_char option.inject)
  show "lower_hex as = lower_hex bs \<Longrightarrow> as = bs"
  proof (induction as arbitrary: bs)
    case Nil
    then show ?case by (cases bs) (simp_all add: lower_hex_def)
  next
    case (Cons a as)
    then obtain b bs' where bs: "bs = b # bs'" by (cases bs) (simp_all add: lower_hex_def)
    have "hex_char (unat a div 16) = hex_char (unat b div 16)" "hex_char (unat a mod 16) = hex_char (unat b mod 16)"
      and rest: "lower_hex as = lower_hex bs'"
      using Cons.prems by (simp_all add: bs lower_hex_def)
    then have "unat a div 16 = unat b div 16" "unat a mod 16 = unat b mod 16"
      using hex_char_inj digits by blast+
    then have "unat a = unat b" by (metis div_mult_mod_eq)
    then have "a = b" by (simp only: word_unat_eq_iff)
    then show ?case using Cons.IH [OF rest] by (simp only: bs)
  qed
qed simp

section \<open>Sorted metadata\<close>

definition sorted_pairs :: "metadata \<Rightarrow> (string \<times> string) list" where
  "sorted_pairs m = sort_key fst m"

lemma sorted_pairs_set [simp]: "set (sorted_pairs m) = set m"
  by (simp add: sorted_pairs_def)

lemma length_sorted_pairs [simp]: "length (sorted_pairs m) = length m"
  by (simp add: sorted_pairs_def)

text \<open>The order in which a hash map is iterated does not matter once it is sorted, and the sorted pairs
  determine the map.\<close>

lemma sorted_pairs_distinct: "hm_inv m \<Longrightarrow> distinct (map fst (sorted_pairs m))"
  by (simp add: hm_inv_def sorted_pairs_def distinct_map)

lemma sorted_pairs_unique:
  assumes "hm_inv m" and "hm_inv m'"
  shows "sorted_pairs m = sorted_pairs m' \<longleftrightarrow> map_of m = map_of m'"
proof
  assume "sorted_pairs m = sorted_pairs m'"
  then have "set m = set m'" by (metis sorted_pairs_set)
  then have "map_of m k = Some v \<longleftrightarrow> map_of m' k = Some v" for k v
    using hm_mem_iff [OF assms(1)] hm_mem_iff [OF assms(2)] by blast
  then show "map_of m = map_of m'" by (metis ext not_None_eq)
next
  assume eq: "map_of m = map_of m'"
  then have set: "set m = set m'"
    using hm_mem_iff [OF assms(1)] hm_mem_iff [OF assms(2)] by auto
  show "sorted_pairs m = sorted_pairs m'"
  proof (rule map_sorted_distinct_set_unique [where f = fst])
    show "inj_on fst (set (sorted_pairs m) \<union> set (sorted_pairs m'))"
      using assms(1) set by (simp add: hm_inv_def distinct_map)
  qed (use assms set in \<open>simp_all add: sorted_pairs_distinct, simp_all add: sorted_pairs_def\<close>)
qed

lemma sorted_pairs_order:
  assumes "hash_order it" and "hm_inv m"
  shows "sorted_pairs (it m) = sorted_pairs m"
  using assms by (subst sorted_pairs_unique) (simp_all add: hash_order_hm)

section \<open>Length prefixes\<close>

definition len_prefixed :: "string \<Rightarrow> bytes" where
  "len_prefixed s = be_len (length s) @ ascii s"

definition pair_bytes :: "string \<times> string \<Rightarrow> bytes" where
  "pair_bytes p = len_prefixed (fst p) @ len_prefixed (snd p)"

abbreviation string_fits :: "string \<Rightarrow> bool" where
  "string_fits s \<equiv> length s < 2 ^ 64"

abbreviation metadata_fits :: "metadata \<Rightarrow> bool" where
  "metadata_fits m \<equiv> length m < 2 ^ 64 \<and> (\<forall>p \<in> set m. string_fits (fst p) \<and> string_fits (snd p))"

interpretation prefixed_string: prefix_code len_prefixed string_fits
proof
  fix x y us vs assume "string_fits x" "string_fits y" and eq: "len_prefixed x @ us = len_prefixed y @ vs"
  from eq have "be_len (length x) = be_len (length y)" by (simp add: len_prefixed_def)
  with \<open>string_fits x\<close> \<open>string_fits y\<close> have "length x = length y" by (blast intro: be_len_inj)
  with eq show "x = y \<and> us = vs" by (simp add: len_prefixed_def ascii_def flip: ascii_eq_iff)
qed

interpretation prefixed_pair: prefix_code pair_bytes "\<lambda>p. string_fits (fst p) \<and> string_fits (snd p)"
proof
  fix x y us vs
  assume "string_fits (fst x) \<and> string_fits (snd x)" "string_fits (fst y) \<and> string_fits (snd y)"
    and "pair_bytes x @ us = pair_bytes y @ vs"
  then show "x = y \<and> us = vs"
    using prefixed_string.split [of "fst x" "fst y" "len_prefixed (snd x) @ us" "len_prefixed (snd y) @ vs"]
      prefixed_string.split [of "snd x" "snd y" us vs]
    by (auto simp: pair_bytes_def prod_eq_iff)
qed

definition metadata_bytes :: "metadata \<Rightarrow> bytes" where
  "metadata_bytes m = counted pair_bytes (sorted_pairs m)"

lemma metadata_bytes_split:
  assumes "hm_inv m" "hm_inv m'" "metadata_fits m" "metadata_fits m'"
    and "metadata_bytes m @ us = metadata_bytes m' @ vs"
  shows "map_of m = map_of m' \<and> us = vs"
proof -
  have "sorted_pairs m = sorted_pairs m' \<and> us = vs"
    using assms(3-5) by (intro prefixed_pair.counted_split) (auto simp: metadata_bytes_def)
  then show ?thesis using sorted_pairs_unique [OF assms(1,2)] by simp
qed

lemma metadata_bytes_cong: "hm_inv m \<Longrightarrow> hm_inv m' \<Longrightarrow> map_of m = map_of m' \<Longrightarrow> metadata_bytes m = metadata_bytes m'"
  using sorted_pairs_unique [of m m'] by (simp add: metadata_bytes_def)

section \<open>Delimiters\<close>

text \<open>A delimiter separates where it cannot occur.\<close>

lemma delimited_split:
  "z \<notin> set xs \<Longrightarrow> z \<notin> set ys \<Longrightarrow> xs @ z # us = ys @ z # vs \<longleftrightarrow> xs = ys \<and> us = vs"
proof (induction xs arbitrary: ys)
  case Nil
  then show ?case by (cases ys) auto
next
  case (Cons x xs)
  then show ?case by (cases ys) auto
qed

lemma ascii_zero: "(0 :: u8) \<in> set (ascii s) \<longleftrightarrow> CHR 0x00 \<in> set s"
proof -
  have "(of_char c :: u8) = 0 \<longleftrightarrow> c = CHR 0x00" for c
  proof -
    have "(of_char c :: u8) = 0 \<longleftrightarrow> (of_char c :: nat) = of_char (CHR 0x00)"
      by (simp add: unat_of_char flip: unat_eq_0)
    then show ?thesis by (simp only: of_char_eq_iff)
  qed
  then show ?thesis unfolding ascii_def by (auto simp: image_iff)
qed

definition ascii_only :: "string \<Rightarrow> bool" where
  "ascii_only s \<longleftrightarrow> list_all (\<lambda>c. (of_char c :: nat) < 128) s"

lemma ascii_255: "ascii_only s \<Longrightarrow> (255 :: u8) \<notin> set (ascii s)"
proof -
  have "(of_char c :: u8) \<noteq> 255" if "(of_char c :: nat) < 128" for c
  proof
    assume "(of_char c :: u8) = 255"
    then have "unat (of_char c :: u8) = 255" by simp
    then show False using that by (simp add: unat_of_char)
  qed
  moreover assume "ascii_only s"
  ultimately show ?thesis unfolding ascii_def ascii_only_def list_all_iff by auto
qed

end
