(* ===== verification/Genesis_Builder.thy ===== *)
theory Genesis_Builder
  imports String_Maps
begin

text \<open>
  The genesis builder, \<open>crates/eth2077-types/src/genesis_builder.rs\<close>: configuration and its validator, statistics over
  the allocations, and the two hashes that identify a configuration and an artifact.  SHA-256 is the
  parameter \<open>sha\<close>, and the order of the errors about metadata is the iteration order \<open>it\<close> of its map.
\<close>

section \<open>Data\<close>

datatype AllocationKind = ValidatorDeposit | Faucet | Treasury | Bridge | PreMine | Contract

datatype SigningScheme = Bls12381 | Ed25519 | Secp256k1 | MultiSig | Threshold | Aggregate

datatype GenesisPhase = Configure | Allocate | Sign | Verify | Seal | Distribute

datatype ArtifactFormat = Ssz | FormatJson | Rlp | Binary | HexEncoded | CompressedSsz

record GenesisAllocation =
  ga_address :: string
  ga_kind :: AllocationKind
  ga_amount_gwei :: u64
  ga_is_validator :: bool
  ga_metadata :: metadata

record GenesisBuilderConfig =
  gb_chain_id :: u64
  gb_genesis_time :: u64
  gb_validator_count :: nat
  gb_signing_scheme :: SigningScheme
  gb_artifact_format :: ArtifactFormat
  gb_deterministic_seed :: string
  gb_min_deposit_gwei :: u64
  gb_metadata :: metadata

record GenesisBuilderStats =
  gs_total_allocations :: nat
  gs_validator_deposits :: nat
  gs_total_gwei :: u64
  gs_unique_addresses :: nat
  gs_signing_complete :: bool
  gs_artifact_hash :: string

definition CONFIG_DOMAIN :: bytes where
  "CONFIG_DOMAIN = ascii ''eth2077-genesis-builder-config-v1''"

definition ARTIFACT_DOMAIN :: bytes where
  "ARTIFACT_DOMAIN = ascii ''eth2077-genesis-builder-artifact-v1''"

definition MIN_SEED_LEN :: nat where
  "MIN_SEED_LEN = 8"

definition default_genesis_builder_config :: GenesisBuilderConfig where
  "default_genesis_builder_config =
     \<lparr>gb_chain_id = 2077, gb_genesis_time = 1893456000, gb_validator_count = 64,
      gb_signing_scheme = Aggregate, gb_artifact_format = Ssz,
      gb_deterministic_seed = ''eth2077-default-seed'', gb_min_deposit_gwei = 32000000000,
      gb_metadata = [(''phase'', ''Configure''), (''release_channel'', ''testnet''),
        (''artifact_version'', ''v1''), (''aggregate.domain'', ''eth2077-genesis'')]\<rparr>"

section \<open>Validation\<close>

definition parse_required_usize :: "metadata \<Rightarrow> string \<Rightarrow> string \<Rightarrow> FieldError list \<times> nat option" where
  "parse_required_usize metadata key missing_reason =
     (case map_of metadata key of
        None \<Rightarrow> ([reject_field (''metadata.'' @ key) missing_reason], None)
      | Some v \<Rightarrow>
          (case (parse_unsigned v :: u64 option) of
             Some parsed \<Rightarrow> ([], Some (unat parsed))
           | None \<Rightarrow> ([reject_field (''metadata.'' @ key) ''must be an unsigned integer''], None)))"

definition require_metadata_key :: "metadata \<Rightarrow> string \<Rightarrow> string \<Rightarrow> FieldError list" where
  "require_metadata_key metadata key reason =
     err_if (map_of metadata key = None) (reject_field (''metadata.'' @ key) reason)"

definition validate_multisig_metadata :: "metadata \<Rightarrow> FieldError list" where
  "validate_multisig_metadata metadata =
     (case parse_required_usize metadata ''multisig.participants'' ''must be present for MultiSig'' of
        (e1, participants) \<Rightarrow>
          (case parse_required_usize metadata ''multisig.threshold'' ''must be present for MultiSig'' of
             (e2, threshold) \<Rightarrow>
               e1 @ e2 @
               (case (participants, threshold) of
                  (Some p, Some t) \<Rightarrow>
                    err_if (p = 0) (reject_field ''metadata.multisig.participants'' ''must be greater than zero'') @
                    err_if (t = 0) (reject_field ''metadata.multisig.threshold'' ''must be greater than zero'') @
                    err_if (p < t) (reject_field ''metadata.multisig.threshold''
                      ''must be less than or equal to multisig.participants'')
                | _ \<Rightarrow> [])))"

definition validate_threshold_metadata :: "metadata \<Rightarrow> FieldError list" where
  "validate_threshold_metadata metadata =
     (case parse_required_usize metadata ''threshold.total_shares'' ''must be present for Threshold'' of
        (e1, shares) \<Rightarrow>
          (case parse_required_usize metadata ''threshold.quorum'' ''must be present for Threshold'' of
             (e2, quorum) \<Rightarrow>
               e1 @ e2 @
               (case (shares, quorum) of
                  (Some s, Some q) \<Rightarrow>
                    err_if (s = 0) (reject_field ''metadata.threshold.total_shares'' ''must be greater than zero'') @
                    err_if (q = 0) (reject_field ''metadata.threshold.quorum'' ''must be greater than zero'') @
                    err_if (s < q) (reject_field ''metadata.threshold.quorum''
                      ''must be less than or equal to threshold.total_shares'')
                | _ \<Rightarrow> [])))"

definition validate_signing_metadata :: "GenesisBuilderConfig \<Rightarrow> FieldError list" where
  "validate_signing_metadata config =
     (case gb_signing_scheme config of
        MultiSig \<Rightarrow> validate_multisig_metadata (gb_metadata config)
      | Threshold \<Rightarrow> validate_threshold_metadata (gb_metadata config)
      | Aggregate \<Rightarrow> require_metadata_key (gb_metadata config) ''aggregate.domain'' ''must be present for Aggregate''
      | _ \<Rightarrow> [])"

definition validate_artifact_metadata :: "GenesisBuilderConfig \<Rightarrow> FieldError list" where
  "validate_artifact_metadata config =
     (case gb_artifact_format config of
        CompressedSsz \<Rightarrow> require_metadata_key (gb_metadata config) ''compression.codec''
          ''must be present when artifact_format is CompressedSsz''
      | HexEncoded \<Rightarrow> require_metadata_key (gb_metadata config) ''hex.case''
          ''must be present when artifact_format is HexEncoded''
      | _ \<Rightarrow> [])"

definition blank_metadata :: "string \<times> string \<Rightarrow> FieldError list" where
  "blank_metadata entry =
     err_if (trim (fst entry) = []) (reject_field ''metadata'' ''contains an empty key'') @
     err_if (trim (snd entry) = []) (reject_field ''metadata'' ''contains an empty value'')"

definition validate_genesis_builder_config ::
    "(metadata \<Rightarrow> metadata) \<Rightarrow> GenesisBuilderConfig \<Rightarrow> FieldError list + unit" where
  "validate_genesis_builder_config it config =
     finish (
       err_if (gb_chain_id config = 0) (reject_field ''chain_id'' ''must be greater than zero'') @
       err_if (gb_genesis_time config = 0) (reject_field ''genesis_time'' ''must be greater than zero'') @
       err_if (gb_validator_count config = 0) (reject_field ''validator_count'' ''must be greater than zero'') @
       (if trim (gb_deterministic_seed config) = [] then
          [reject_field ''deterministic_seed'' ''must not be empty or whitespace'']
        else err_if (length (gb_deterministic_seed config) < MIN_SEED_LEN)
          (reject_field ''deterministic_seed'' ''must contain at least 8 characters'')) @
       (if gb_min_deposit_gwei config = 0 then [reject_field ''min_deposit_gwei'' ''must be greater than zero'']
        else err_if (gb_min_deposit_gwei config < 1000000000)
          (reject_field ''min_deposit_gwei'' ''must be at least 1_000_000_000 gwei'')) @
       concat (map blank_metadata (it (gb_metadata config))) @
       validate_signing_metadata config @
       validate_artifact_metadata config)"

section \<open>Hashes and statistics\<close>

fun signing_scheme_discriminant :: "SigningScheme \<Rightarrow> u8" where
  "signing_scheme_discriminant Bls12381 = 1"
| "signing_scheme_discriminant Ed25519 = 2"
| "signing_scheme_discriminant Secp256k1 = 3"
| "signing_scheme_discriminant MultiSig = 4"
| "signing_scheme_discriminant Threshold = 5"
| "signing_scheme_discriminant Aggregate = 6"

fun artifact_format_discriminant :: "ArtifactFormat \<Rightarrow> u8" where
  "artifact_format_discriminant Ssz = 1"
| "artifact_format_discriminant FormatJson = 2"
| "artifact_format_discriminant Rlp = 3"
| "artifact_format_discriminant Binary = 4"
| "artifact_format_discriminant HexEncoded = 5"
| "artifact_format_discriminant CompressedSsz = 6"

fun allocation_kind_name :: "AllocationKind \<Rightarrow> string" where
  "allocation_kind_name ValidatorDeposit = ''validator_deposit''"
| "allocation_kind_name Faucet = ''faucet''"
| "allocation_kind_name Treasury = ''treasury''"
| "allocation_kind_name Bridge = ''bridge''"
| "allocation_kind_name PreMine = ''premine''"
| "allocation_kind_name Contract = ''contract''"

definition genesis_config_preimage :: "(metadata \<Rightarrow> metadata) \<Rightarrow> GenesisBuilderConfig \<Rightarrow> bytes" where
  "genesis_config_preimage it config =
     CONFIG_DOMAIN @ be_bytes (gb_chain_id config) @ be_bytes (gb_genesis_time config) @
     be_len (gb_validator_count config) @
     [signing_scheme_discriminant (gb_signing_scheme config)] @
     [artifact_format_discriminant (gb_artifact_format config)] @
     len_prefixed (gb_deterministic_seed config) @
     be_bytes (gb_min_deposit_gwei config) @
     metadata_bytes (it (gb_metadata config))"

definition compute_genesis_builder_commitment ::
    "(bytes \<Rightarrow> B256) \<Rightarrow> (metadata \<Rightarrow> metadata) \<Rightarrow> GenesisBuilderConfig \<Rightarrow> string" where
  "compute_genesis_builder_commitment sha it config =
     lower_hex (be_bytes (sha (genesis_config_preimage it config)))"

definition is_validator_deposit :: "GenesisAllocation \<Rightarrow> bool" where
  "is_validator_deposit allocation \<longleftrightarrow> ga_is_validator allocation \<or> ga_kind allocation = ValidatorDeposit"

definition normalize_address :: "string \<Rightarrow> string" where
  "normalize_address address = to_ascii_lowercase (trim address)"

definition canonical_metadata_fragment :: "metadata \<Rightarrow> string" where
  "canonical_metadata_fragment metadata =
     join '';'' (map (\<lambda>(key, v). key @ ''='' @ v) (sorted_pairs metadata))"

definition canonical_allocation_record :: "(metadata \<Rightarrow> metadata) \<Rightarrow> GenesisAllocation \<Rightarrow> string" where
  "canonical_allocation_record it allocation =
     normalize_address (ga_address allocation) @ ''|'' @ allocation_kind_name (ga_kind allocation) @ ''|'' @
     decimal (unat (ga_amount_gwei allocation)) @ ''|'' @
     (if ga_is_validator allocation then ''1'' else ''0'') @ ''|'' @
     canonical_metadata_fragment (it (ga_metadata allocation))"

definition compute_artifact_hash ::
    "(bytes \<Rightarrow> B256) \<Rightarrow> (metadata \<Rightarrow> metadata) \<Rightarrow> GenesisBuilderConfig \<Rightarrow> string list \<Rightarrow> string" where
  "compute_artifact_hash sha it config canonical_records =
     lower_hex (be_bytes (sha (ARTIFACT_DOMAIN @
       ascii (compute_genesis_builder_commitment sha it config) @ counted len_prefixed canonical_records)))"

definition compute_genesis_builder_stats ::
    "(bytes \<Rightarrow> B256) \<Rightarrow> (metadata \<Rightarrow> metadata) \<Rightarrow> GenesisAllocation list \<Rightarrow> GenesisBuilderConfig \<Rightarrow>
       GenesisBuilderStats" where
  "compute_genesis_builder_stats sha it allocations config =
     (let deposits = filter is_validator_deposit allocations;
          validators_meet_minimum = list_all (\<lambda>a. \<not> ga_amount_gwei a < gb_min_deposit_gwei config) deposits;
          canonical_records = sort (map (canonical_allocation_record it) allocations)
      in \<lparr>gs_total_allocations = length allocations,
          gs_validator_deposits = length deposits,
          gs_total_gwei = fold (\<lambda>a total_gwei. sat_add total_gwei (ga_amount_gwei a)) allocations 0,
          gs_unique_addresses = card ((\<lambda>a. normalize_address (ga_address a)) ` set allocations),
          gs_signing_complete =
            (validate_genesis_builder_config it config = Inr () \<and>
             gb_validator_count config \<le> length deposits \<and> validators_meet_minimum),
          gs_artifact_hash = compute_artifact_hash sha it config canonical_records\<rparr>)"

section \<open>The commitment is canonical\<close>

lemma discriminants_inj:
  "signing_scheme_discriminant s = signing_scheme_discriminant s' \<longleftrightarrow> s = s'"
  "artifact_format_discriminant f = artifact_format_discriminant f' \<longleftrightarrow> f = f'"
  by (cases s; cases s'; simp) (cases f; cases f'; simp)

definition config_fits :: "GenesisBuilderConfig \<Rightarrow> bool" where
  "config_fits c \<longleftrightarrow> hm_inv (gb_metadata c) \<and> metadata_fits (gb_metadata c) \<and>
     string_fits (gb_deterministic_seed c) \<and> gb_validator_count c < 2 ^ 64"

lemma metadata_order:
  assumes "hash_order it" and "hm_inv m"
  shows "hm_inv (it m)" and "map_of (it m) = map_of m" and "metadata_fits (it m) \<longleftrightarrow> metadata_fits m"
    and "metadata_bytes (it m) = metadata_bytes m"
  using hash_order_hm [OF assms] hash_order_set [OF assms(1), of m] assms(1) sorted_pairs_order [OF assms]
  by (simp_all add: metadata_bytes_def hash_order_def) (metis size_mset)

text \<open>C34.  The commitment to a configuration is canonical: whatever the iteration order of the metadata map on
  either side, two configurations have the same hashed bytes exactly when all their fields agree and their
  metadata are equal as maps.  The printed commitments are equal exactly then, or when the hash function
  collides on the two different byte strings.\<close>

theorem genesis_commitment_canonical:
  assumes "hash_order it" and "hash_order it'" and "config_fits c" and "config_fits c'"
  defines "same \<equiv> c' = c\<lparr>gb_metadata := gb_metadata c'\<rparr> \<and> map_of (gb_metadata c) = map_of (gb_metadata c')"
  shows "(genesis_config_preimage it c = genesis_config_preimage it' c' \<longleftrightarrow> same) \<and>
    (compute_genesis_builder_commitment sha it c = compute_genesis_builder_commitment sha it' c' \<longleftrightarrow>
      same \<or> genesis_config_preimage it c \<noteq> genesis_config_preimage it' c' \<and>
        sha (genesis_config_preimage it c) = sha (genesis_config_preimage it' c'))"
proof -
  have inv: "hm_inv (gb_metadata c)" "hm_inv (gb_metadata c')" and fits: "metadata_fits (gb_metadata c)" "metadata_fits (gb_metadata c')"
    and seed: "string_fits (gb_deterministic_seed c)" "string_fits (gb_deterministic_seed c')"
    and count: "gb_validator_count c < 2 ^ 64" "gb_validator_count c' < 2 ^ 64"
    using assms(3,4) by (auto simp: config_fits_def)
  note order = metadata_order(4) [OF assms(1) inv(1)] metadata_order(4) [OF assms(2) inv(2)]
  let ?rest = "\<lambda>c. be_bytes (gb_min_deposit_gwei c) @ metadata_bytes (gb_metadata c)"
  have "genesis_config_preimage it c = genesis_config_preimage it' c' \<longleftrightarrow>
      gb_chain_id c = gb_chain_id c' \<and> gb_genesis_time c = gb_genesis_time c' \<and>
      gb_validator_count c = gb_validator_count c' \<and> gb_signing_scheme c = gb_signing_scheme c' \<and>
      gb_artifact_format c = gb_artifact_format c' \<and>
      len_prefixed (gb_deterministic_seed c) @ ?rest c = len_prefixed (gb_deterministic_seed c') @ ?rest c'"
    using be_len_inj [OF _ count] by (auto simp: genesis_config_preimage_def order discriminants_inj)
  moreover have "len_prefixed (gb_deterministic_seed c) @ ?rest c = len_prefixed (gb_deterministic_seed c') @ ?rest c' \<longleftrightarrow>
      gb_deterministic_seed c = gb_deterministic_seed c' \<and> gb_min_deposit_gwei c = gb_min_deposit_gwei c' \<and>
      metadata_bytes (gb_metadata c) = metadata_bytes (gb_metadata c')"
    using prefixed_string.split [OF seed, of "?rest c" "?rest c'"] by auto
  moreover have "metadata_bytes (gb_metadata c) = metadata_bytes (gb_metadata c') \<longleftrightarrow>
      map_of (gb_metadata c) = map_of (gb_metadata c')"
    using metadata_bytes_split [OF inv fits, of "[]" "[]"] metadata_bytes_cong [OF inv] by auto
  moreover have "c' = c\<lparr>gb_metadata := gb_metadata c'\<rparr> \<longleftrightarrow>
      gb_chain_id c = gb_chain_id c' \<and> gb_genesis_time c = gb_genesis_time c' \<and>
      gb_validator_count c = gb_validator_count c' \<and> gb_signing_scheme c = gb_signing_scheme c' \<and>
      gb_artifact_format c = gb_artifact_format c' \<and> gb_deterministic_seed c = gb_deterministic_seed c' \<and>
      gb_min_deposit_gwei c = gb_min_deposit_gwei c'"
    by (cases c; cases c') auto
  ultimately have bytes: "genesis_config_preimage it c = genesis_config_preimage it' c' \<longleftrightarrow> same"
    unfolding same_def by blast
  have "compute_genesis_builder_commitment sha it c = compute_genesis_builder_commitment sha it' c' \<longleftrightarrow>
      sha (genesis_config_preimage it c) = sha (genesis_config_preimage it' c')"
    by (simp add: compute_genesis_builder_commitment_def lower_hex_inj)
  with bytes show ?thesis by metis
qed

lemma default_config_fits: "config_fits default_genesis_builder_config"
  by (simp add: config_fits_def default_genesis_builder_config_def hm_inv_def)

theorem genesis_commitment_canonical_witness:
  "compute_genesis_builder_commitment word_of_be (\<lambda>m. m) default_genesis_builder_config =
     compute_genesis_builder_commitment word_of_be rev default_genesis_builder_config \<and>
   genesis_config_preimage (\<lambda>m. m) default_genesis_builder_config \<noteq>
     genesis_config_preimage rev (default_genesis_builder_config\<lparr>gb_chain_id := 1\<rparr>)"
proof -
  let ?c = "default_genesis_builder_config"
  have rev: "hash_order rev" by (simp add: hash_order_def)
  have fits: "config_fits (?c\<lparr>gb_chain_id := 1\<rparr>)" using default_config_fits by (simp add: config_fits_def)
  have ne: "?c\<lparr>gb_chain_id := 1\<rparr> \<noteq> ?c" by (simp add: default_genesis_builder_config_def)
  show ?thesis
    using genesis_commitment_canonical [OF hash_order_id rev default_config_fits default_config_fits, of word_of_be]
      genesis_commitment_canonical [OF hash_order_id rev default_config_fits fits] ne by simp
qed

section \<open>Validation and statistics\<close>

lemma blank_metadata_none:
  "hash_order it \<Longrightarrow> concat (map blank_metadata (it m)) = [] \<longleftrightarrow>
     (\<forall>(k, v) \<in> set m. trim k \<noteq> [] \<and> trim v \<noteq> [])"
  by (auto simp: blank_metadata_def hash_order_set)

text \<open>The verdict of the validator does not depend on the iteration order.\<close>

lemma genesis_valid_order:
  assumes "hash_order it" and "hash_order it'"
  shows "validate_genesis_builder_config it c = Inr () \<longleftrightarrow> validate_genesis_builder_config it' c = Inr ()"
  unfolding validate_genesis_builder_config_def finish_ok append_is_Nil_conv
    blank_metadata_none [OF assms(1)] blank_metadata_none [OF assms(2)] by simp

text \<open>A threshold scheme is accepted only with a quorum between one and the number of shares.\<close>

lemma threshold_quorum:
  assumes "validate_genesis_builder_config it c = Inr ()" and "gb_signing_scheme c = Threshold"
  shows "\<exists>s q. \<exists>shares quorum :: u64. map_of (gb_metadata c) ''threshold.total_shares'' = Some s \<and>
    map_of (gb_metadata c) ''threshold.quorum'' = Some q \<and> parse_unsigned s = Some shares \<and>
    parse_unsigned q = Some quorum \<and> 0 < quorum \<and> quorum \<le> shares"
proof -
  have "validate_threshold_metadata (gb_metadata c) = []"
    using assms by (auto simp: validate_genesis_builder_config_def validate_signing_metadata_def)
  then show ?thesis
    by (auto simp: validate_threshold_metadata_def parse_required_usize_def word_le_nat_alt word_gt_0 unat_eq_0 not_less
      split: option.splits)
qed

text \<open>Neither the order of the allocations nor that of their metadata changes the artifact.\<close>

lemma stats_order:
  assumes "mset as = mset as'"
  shows "gs_artifact_hash (compute_genesis_builder_stats sha it as c) = gs_artifact_hash (compute_genesis_builder_stats sha it as' c)"
    and "gs_signing_complete (compute_genesis_builder_stats sha it as c) = gs_signing_complete (compute_genesis_builder_stats sha it as' c)"
proof -
  have "mset (map (canonical_allocation_record it) as) = mset (map (canonical_allocation_record it) as')"
    using assms by simp
  then have "sort (map (canonical_allocation_record it) as) = sort (map (canonical_allocation_record it) as')"
    by (metis sorted_list_of_multiset_mset)
  then show "gs_artifact_hash (compute_genesis_builder_stats sha it as c) = gs_artifact_hash (compute_genesis_builder_stats sha it as' c)"
    by (simp add: compute_genesis_builder_stats_def Let_def)
  have "mset (filter is_validator_deposit as) = mset (filter is_validator_deposit as')" using assms by simp
  then have "set (filter is_validator_deposit as) = set (filter is_validator_deposit as')"
    and "length (filter is_validator_deposit as) = length (filter is_validator_deposit as')"
    by (metis set_mset_mset, metis size_mset)
  then show "gs_signing_complete (compute_genesis_builder_stats sha it as c) = gs_signing_complete (compute_genesis_builder_stats sha it as' c)"
    by (simp add: compute_genesis_builder_stats_def Let_def list_all_iff del: set_filter)
qed

lemma allocation_record_order:
  "hash_order it \<Longrightarrow> hm_inv (ga_metadata a) \<Longrightarrow> canonical_allocation_record it a = canonical_allocation_record (\<lambda>m. m) a"
  by (simp add: canonical_allocation_record_def canonical_metadata_fragment_def sorted_pairs_order)

section \<open>The artifact hash is not canonical\<close>

text \<open>Unlike the configuration, an allocation is printed with separators that its fields may contain.  Two sets of
  allocations that differ in their metadata have one artifact hash, whatever the hash function.\<close>

lemma artifact_hash_collision:
  fixes a :: GenesisAllocation
  defines "a1 \<equiv> a\<lparr>ga_metadata := [(''a'', ''1;b=2'')]\<rparr>" and "a2 \<equiv> a\<lparr>ga_metadata := [(''a'', ''1''), (''b'', ''2'')]\<rparr>"
  shows "gs_artifact_hash (compute_genesis_builder_stats sha (\<lambda>m. m) [a1] c) =
      gs_artifact_hash (compute_genesis_builder_stats sha (\<lambda>m. m) [a2] c)"
    and "map_of (ga_metadata a1) \<noteq> map_of (ga_metadata a2)"
proof -
  have "canonical_allocation_record (\<lambda>m. m) a1 = canonical_allocation_record (\<lambda>m. m) a2"
    by (simp add: a1_def a2_def canonical_allocation_record_def canonical_metadata_fragment_def sorted_pairs_def
        less_list_code less_char_def)
  then show "gs_artifact_hash (compute_genesis_builder_stats sha (\<lambda>m. m) [a1] c) =
      gs_artifact_hash (compute_genesis_builder_stats sha (\<lambda>m. m) [a2] c)"
    by (simp add: compute_genesis_builder_stats_def Let_def)
  show "map_of (ga_metadata a1) \<noteq> map_of (ga_metadata a2)"
    by (auto simp: a1_def a2_def fun_eq_iff)
qed

text \<open>Deposits are counted per record: one address can stand for all validators.\<close>

lemma one_address_signs:
  assumes "validate_genesis_builder_config it c = Inr ()" and "is_validator_deposit a"
    and "gb_min_deposit_gwei c \<le> ga_amount_gwei a"
  shows "gs_signing_complete (compute_genesis_builder_stats sha it (replicate (gb_validator_count c) a) c)"
    and "0 < gb_validator_count c \<Longrightarrow>
      gs_unique_addresses (compute_genesis_builder_stats sha it (replicate (gb_validator_count c) a) c) = 1"
  using assms by (auto simp: compute_genesis_builder_stats_def Let_def list_all_iff)

end
