(* ===== verification/Chain_Spec.thy ===== *)
theory Chain_Spec
  imports String_Maps
begin

text \<open>
  Chain specifications, \<open>crates/eth2077-types/src/chain_spec.rs\<close>: the fork schedule and its validator, statistics, and the
  text that is hashed to commit to a specification.  SHA-256 is the parameter \<open>sha\<close>; \<open>it\<close> is the
  iteration order of the metadata maps.
\<close>

section \<open>Data\<close>

datatype NetworkKind = Mainnet | Testnet | NetDevnet | Shadow | Local | Custom

datatype ForkPhase = Scheduled | Activated | PhaseDeprecated | Cancelled | Pending | PhaseEmergency

datatype ConsensusType = ProofOfStake | CitadelOob | Hybrid | ProofOfAuthority | Delegated | Experimental

datatype SpecStatus = Draft | Frozen | Released | Superseded | Revoked | Archived

record ForkEntry =
  fe_name :: string
  fe_phase :: ForkPhase
  fe_activation_epoch :: u64
  fe_eips :: "string list"
  fe_consensus_change :: bool
  fe_metadata :: metadata

record ChainSpecConfig =
  cs_chain_id :: u64
  cs_network :: NetworkKind
  cs_consensus :: ConsensusType
  cs_status :: SpecStatus
  cs_genesis_time :: u64
  cs_slots_per_epoch :: u64
  cs_seconds_per_slot :: u64
  cs_forks :: "ForkEntry list"
  cs_metadata :: metadata

record ChainSpecStats =
  ct_total_forks :: nat
  ct_active_forks :: nat
  ct_pending_forks :: nat
  ct_eip_count :: nat
  ct_has_consensus_changes :: bool
  ct_spec_version :: string

definition default_chain_spec_config :: ChainSpecConfig where
  "default_chain_spec_config =
     \<lparr>cs_chain_id = 20770001, cs_network = Testnet, cs_consensus = ProofOfStake, cs_status = Draft,
      cs_genesis_time = 1766000000, cs_slots_per_epoch = 32, cs_seconds_per_slot = 12,
      cs_forks =
        [\<lparr>fe_name = ''genesis-bootstrap'', fe_phase = Activated, fe_activation_epoch = 0,
          fe_eips = [''EIP-1559'', ''EIP-4895''], fe_consensus_change = False,
          fe_metadata = [(''ticket'', ''ETH2077-BOOT''), (''rollout'', ''genesis'')]\<rparr>,
         \<lparr>fe_name = ''citadel-oob-alpha'', fe_phase = Scheduled, fe_activation_epoch = 12000,
          fe_eips = [''EIP-7002'', ''EIP-7251''], fe_consensus_change = True,
          fe_metadata = [(''ticket'', ''ETH2077-CITADEL-01''), (''rollout'', ''canary'')]\<rparr>,
         \<lparr>fe_name = ''throughput-balance-v1'', fe_phase = Pending, fe_activation_epoch = 24000,
          fe_eips = [''EIP-7623''], fe_consensus_change = False,
          fe_metadata = [(''ticket'', ''ETH2077-THR-02''), (''rollout'', ''stage-1'')]\<rparr>],
      cs_metadata = [(''spec_version'', ''2026.1-testnet''), (''owner'', ''eth2077-core''),
        (''profile'', ''freeze-candidate'')]\<rparr>"

section \<open>Labels\<close>

fun network_label :: "NetworkKind \<Rightarrow> string" where
  "network_label Mainnet = ''mainnet''"
| "network_label Testnet = ''testnet''"
| "network_label NetDevnet = ''devnet''"
| "network_label Shadow = ''shadow''"
| "network_label Local = ''local''"
| "network_label Custom = ''custom''"

fun fork_phase_label :: "ForkPhase \<Rightarrow> string" where
  "fork_phase_label Scheduled = ''scheduled''"
| "fork_phase_label Activated = ''activated''"
| "fork_phase_label PhaseDeprecated = ''deprecated''"
| "fork_phase_label Cancelled = ''cancelled''"
| "fork_phase_label Pending = ''pending''"
| "fork_phase_label PhaseEmergency = ''emergency''"

fun consensus_label :: "ConsensusType \<Rightarrow> string" where
  "consensus_label ProofOfStake = ''proof_of_stake''"
| "consensus_label CitadelOob = ''citadel_oob''"
| "consensus_label Hybrid = ''hybrid''"
| "consensus_label ProofOfAuthority = ''proof_of_authority''"
| "consensus_label Delegated = ''delegated''"
| "consensus_label Experimental = ''experimental''"

fun status_label :: "SpecStatus \<Rightarrow> string" where
  "status_label Draft = ''draft''"
| "status_label Frozen = ''frozen''"
| "status_label Released = ''released''"
| "status_label Superseded = ''superseded''"
| "status_label Revoked = ''revoked''"
| "status_label Archived = ''archived''"

text \<open>\<open>format!("{:?}", phase)\<close> for the phases an error can name.\<close>

fun fork_phase_debug :: "ForkPhase \<Rightarrow> string" where
  "fork_phase_debug Scheduled = ''Scheduled''"
| "fork_phase_debug Activated = ''Activated''"
| "fork_phase_debug PhaseDeprecated = ''Deprecated''"
| "fork_phase_debug Cancelled = ''Cancelled''"
| "fork_phase_debug Pending = ''Pending''"
| "fork_phase_debug PhaseEmergency = ''Emergency''"

section \<open>Validation\<close>

text \<open>\<open>metadata.get(key).map(trim).unwrap_or("")\<close>.\<close>

definition trimmed_metadata :: "metadata \<Rightarrow> string \<Rightarrow> string" where
  "trimmed_metadata m key = (case map_of m key of Some v \<Rightarrow> trim v | None \<Rightarrow> [])"

definition blank_key :: "metadata \<Rightarrow> bool" where
  "blank_key m \<longleftrightarrow> list_ex (\<lambda>entry. trim (fst entry) = []) m"

definition quoted :: "string \<Rightarrow> string" where
  "quoted s = [CHR 0x27] @ s @ [CHR 0x27]"

definition check_eip :: "string \<Rightarrow> string set \<Rightarrow> string \<Rightarrow> FieldError list \<times> string set" where
  "check_eip name seen_eips eip =
     (let token = trim eip in
      if token = [] then
        ([reject_field ''forks.eips'' (''fork '' @ quoted name @ '' contains an empty EIP entry'')], seen_eips)
      else
        let normalized = to_ascii_uppercase token in
        if normalized \<notin> seen_eips then ([], insert normalized seen_eips)
        else ([reject_field ''forks.eips''
          (''fork '' @ quoted name @ '' contains duplicate EIP '' @ quoted token)], seen_eips))"

definition check_fork ::
    "(string, nat) hashmap \<times> u64 option \<Rightarrow> nat \<times> ForkEntry \<Rightarrow>
       FieldError list \<times> ((string, nat) hashmap \<times> u64 option)" where
  "check_fork s entry =
     (case (s, entry) of ((seen_names, previous_epoch), (index, fork)) \<Rightarrow>
        let name = trim (fe_name fork);
            normalized_name = to_ascii_lowercase name
        in (err_if (name = []) (reject_field ''forks.name'' ''fork names must not be empty'') @
            (case map_of seen_names normalized_name of
               Some prior_index \<Rightarrow> [reject_field ''forks.name'' (''fork name '' @ quoted name @
                 '' is duplicated at indices '' @ decimal prior_index @ '' and '' @ decimal index)]
             | None \<Rightarrow> []) @
            err_if (fe_phase fork \<in> {Scheduled, Pending} \<and> fe_activation_epoch fork = 0)
              (reject_field ''forks.activation_epoch'' (''fork '' @ quoted name @ '' in phase '' @
                fork_phase_debug (fe_phase fork) @ '' must have activation_epoch > 0'')) @
            (case previous_epoch of
               Some prior \<Rightarrow> err_if (fe_activation_epoch fork < prior)
                 (reject_field ''forks.activation_epoch'' (''fork '' @ quoted name @
                   '' has non-monotonic activation epoch '' @ decimal (unat (fe_activation_epoch fork)) @
                   '' (previous '' @ decimal (unat prior) @ '')''))
             | None \<Rightarrow> []) @
            fst (scan (check_eip name) {} (fe_eips fork)) @
            err_if (blank_key (fe_metadata fork))
              (reject_field ''forks.metadata'' (''fork '' @ quoted name @ '' contains an empty metadata key'')),
            (case map_of seen_names normalized_name of
               Some _ \<Rightarrow> seen_names | None \<Rightarrow> hm_insert normalized_name index seen_names),
            Some (fe_activation_epoch fork)))"

definition validate_chain_spec_config :: "ChainSpecConfig \<Rightarrow> FieldError list + unit" where
  "validate_chain_spec_config config =
     finish (
       err_if (cs_chain_id config = 0) (reject_field ''chain_id'' ''must be greater than zero'') @
       err_if (cs_genesis_time config = 0) (reject_field ''genesis_time'' ''must be greater than zero'') @
       err_if (cs_slots_per_epoch config = 0) (reject_field ''slots_per_epoch'' ''must be greater than zero'') @
       err_if (cs_seconds_per_slot config = 0) (reject_field ''seconds_per_slot'' ''must be greater than zero'') @
       err_if (cs_forks config = []) (reject_field ''forks'' ''must include at least one fork entry'') @
       err_if (trimmed_metadata (cs_metadata config) ''spec_version'' = [])
         (reject_field ''metadata.spec_version'' ''must be present and non-empty'') @
       err_if (blank_key (cs_metadata config)) (reject_field ''metadata'' ''metadata keys must not be empty'') @
       err_if (cs_network config = Custom \<and> trimmed_metadata (cs_metadata config) ''network_name'' = [])
         (reject_field ''metadata.network_name'' ''is required when network is Custom'') @
       fst (scan check_fork ([], None) (enumerate 0 (cs_forks config))))"

section \<open>Statistics and commitment\<close>

definition resolve_spec_version :: "ChainSpecConfig \<Rightarrow> string" where
  "resolve_spec_version config =
     (let trimmed = trimmed_metadata (cs_metadata config) ''spec_version'' in
      if trimmed \<noteq> [] then trimmed
      else status_label (cs_status config) @ ''-'' @ decimal (unat (cs_chain_id config)) @ ''-'' @
        decimal (length (cs_forks config)))"

definition normalized_eips :: "ForkEntry \<Rightarrow> string list" where
  "normalized_eips fork = filter (\<lambda>e. e \<noteq> []) (map (\<lambda>eip. to_ascii_uppercase (trim eip)) (fe_eips fork))"

definition compute_chain_spec_stats :: "ChainSpecConfig \<Rightarrow> ChainSpecStats" where
  "compute_chain_spec_stats config =
     \<lparr>ct_total_forks = length (cs_forks config),
      ct_active_forks = length (filter (\<lambda>fork. fe_phase fork = Activated) (cs_forks config)),
      ct_pending_forks = length (filter (\<lambda>fork. fe_phase fork \<in> {Pending, Scheduled}) (cs_forks config)),
      ct_eip_count = card (set (concat (map normalized_eips (cs_forks config)))),
      ct_has_consensus_changes = list_ex fe_consensus_change (cs_forks config),
      ct_spec_version = resolve_spec_version config\<rparr>"

definition line :: "string \<Rightarrow> string \<Rightarrow> string" where
  "line key v = key @ ''='' @ v @ [CHR 0x0A]"

definition metadata_lines :: "string \<Rightarrow> metadata \<Rightarrow> string" where
  "metadata_lines prefix m = concat (map (\<lambda>(key, v). line (prefix @ key) v) (sorted_pairs m))"

definition fork_lines :: "(metadata \<Rightarrow> metadata) \<Rightarrow> nat \<times> ForkEntry \<Rightarrow> string" where
  "fork_lines it entry =
     (case entry of (fork_index, fork) \<Rightarrow>
        let prefix = ''fork['' @ decimal fork_index @ '']'' in
        line (prefix @ ''.name'') (fe_name fork) @
        line (prefix @ ''.phase'') (fork_phase_label (fe_phase fork)) @
        line (prefix @ ''.activation_epoch'') (decimal (unat (fe_activation_epoch fork))) @
        line (prefix @ ''.consensus_change'') (if fe_consensus_change fork then ''true'' else ''false'') @
        concat (map (\<lambda>(eip_index, eip). line (prefix @ ''.eip['' @ decimal eip_index @ '']'') eip)
          (enumerate 0 (fe_eips fork))) @
        metadata_lines (prefix @ ''.metadata.'') (it (fe_metadata fork)))"

definition chain_spec_text :: "(metadata \<Rightarrow> metadata) \<Rightarrow> ChainSpecConfig \<Rightarrow> string" where
  "chain_spec_text it config =
     line ''chain_id'' (decimal (unat (cs_chain_id config))) @
     line ''network'' (network_label (cs_network config)) @
     line ''consensus'' (consensus_label (cs_consensus config)) @
     line ''status'' (status_label (cs_status config)) @
     line ''genesis_time'' (decimal (unat (cs_genesis_time config))) @
     line ''slots_per_epoch'' (decimal (unat (cs_slots_per_epoch config))) @
     line ''seconds_per_slot'' (decimal (unat (cs_seconds_per_slot config))) @
     line ''spec_version'' (resolve_spec_version config) @
     metadata_lines ''metadata.'' (it (cs_metadata config)) @
     concat (map (fork_lines it) (enumerate 0 (cs_forks config)))"

definition compute_chain_spec_commitment :: "(bytes \<Rightarrow> B256) \<Rightarrow> (metadata \<Rightarrow> metadata) \<Rightarrow> ChainSpecConfig \<Rightarrow> string" where
  "compute_chain_spec_commitment sha it config = lower_hex (be_bytes (sha (ascii (chain_spec_text it config))))"

section \<open>What the validator accepts\<close>

abbreviation fork_key :: "ForkEntry \<Rightarrow> string" where
  "fork_key fork \<equiv> to_ascii_lowercase (trim (fe_name fork))"

abbreviation eip_key :: "string \<Rightarrow> string" where
  "eip_key eip \<equiv> to_ascii_uppercase (trim eip)"

lemma case_Nil [simp]: "to_ascii_uppercase s = [] \<longleftrightarrow> s = []" "to_ascii_lowercase s = [] \<longleftrightarrow> s = []"
  by (simp_all add: to_ascii_uppercase_def to_ascii_lowercase_def)

interpretation eips: lazy_key_scan "check_eip name" eip_key "\<lambda>eip. trim eip \<noteq> []" for name
  by unfold_locales (auto simp: check_eip_def Let_def)

lemma scan_eips:
  "fst (scan (check_eip name) seen eips) = [] \<longleftrightarrow> (\<forall>e \<in> set eips. trim e \<noteq> []) \<and>
     distinct (map eip_key eips) \<and> eip_key ` set eips \<inter> seen = {}"
  by (rule eips.scan_passes)

definition fork_ok :: "ForkEntry \<Rightarrow> bool" where
  "fork_ok fork \<longleftrightarrow> trim (fe_name fork) \<noteq> [] \<and>
     (fe_phase fork \<in> {Scheduled, Pending} \<longrightarrow> 0 < fe_activation_epoch fork) \<and>
     (\<forall>eip \<in> set (fe_eips fork). trim eip \<noteq> []) \<and> distinct (map eip_key (fe_eips fork)) \<and>
     (\<forall>(key, _) \<in> set (fe_metadata fork). trim key \<noteq> [])"

lemma blank_key_iff: "\<not> blank_key m \<longleftrightarrow> (\<forall>(key, _) \<in> set m. trim key \<noteq> [])"
  by (auto simp: blank_key_def list_ex_iff)

lemma option_errors:
  "(case x of Some y \<Rightarrow> [f y] | None \<Rightarrow> []) = [] \<longleftrightarrow> x = None"
  "(case x of Some y \<Rightarrow> err_if (P y) (f y) | None \<Rightarrow> []) = [] \<longleftrightarrow> (\<forall>y. x = Some y \<longrightarrow> \<not> P y)"
  by (auto split: option.split)

lemma check_fork_passes:
  "fst (check_fork (seen, prev) (i, fork)) = [] \<longleftrightarrow>
     fork_ok fork \<and> fork_key fork \<notin> fst ` set seen \<and> (\<forall>p. prev = Some p \<longrightarrow> p \<le> fe_activation_epoch fork)"
  unfolding check_fork_def Let_def prod.case fst_conv append_is_Nil_conv err_if_Nil option_errors
    map_of_eq_None_iff blank_key_iff scan_eips fork_ok_def not_less word_gt_0 Int_empty_right de_Morgan_conj
    imp_conv_disj [of "fe_phase fork \<in> _"]
  by (simp only: simp_thms conj_ac eq_commute [of 0 "fe_activation_epoch fork"])

lemma check_fork_memory:
  "fork_key fork \<notin> fst ` set seen \<Longrightarrow>
     snd (check_fork (seen, prev) (i, fork)) = (hm_insert (fork_key fork) i seen, Some (fe_activation_epoch fork))"
proof -
  assume "fork_key fork \<notin> fst ` set seen"
  then have "map_of seen (fork_key fork) = None" by (simp only: map_of_eq_None_iff not_False_eq_True)
  then show ?thesis unfolding check_fork_def Let_def prod.case snd_conv by (simp only: option.case)
qed

lemma keys_hm_insert: "fst ` set (hm_insert k v m) = insert k (fst ` set m)"
proof -
  have "fst ` set (hm_insert k v m) = dom (map_of (hm_insert k v m))" by (simp only: dom_map_of_conv_image_fst)
  then show ?thesis by (simp add: dom_map_of_conv_image_fst)
qed

lemma sorted_epochs:
  "sorted_wrt (\<le>) (map fe_activation_epoch (fork # forks)) \<longleftrightarrow> sorted_wrt (\<le>) (map fe_activation_epoch forks) \<and>
     (\<forall>p. Some (fe_activation_epoch fork) = Some p \<and> forks \<noteq> [] \<longrightarrow> p \<le> fe_activation_epoch (hd forks))"
  by (cases forks) (auto dest: order_trans)

lemma scan_forks:
  "fst (scan check_fork (seen, prev) (enumerate n forks)) = [] \<longleftrightarrow>
     (\<forall>fork \<in> set forks. fork_ok fork) \<and> distinct (map fork_key forks) \<and>
     fork_key ` set forks \<inter> fst ` set seen = {} \<and>
     sorted_wrt (\<le>) (map fe_activation_epoch forks) \<and>
     (\<forall>p. prev = Some p \<and> forks \<noteq> [] \<longrightarrow> p \<le> fe_activation_epoch (hd forks))"
proof (induction forks arbitrary: seen prev n)
  case (Cons fork forks)
  show ?case
  proof (cases "fork_key fork \<in> fst ` set seen")
    case True
    then have "fst (check_fork (seen, prev) (n, fork)) \<noteq> []" by (simp add: check_fork_passes)
    with True show ?thesis by (simp add: case_prod_unfold)
  next
    case False
    have "fst (scan check_fork (seen, prev) (enumerate n (fork # forks))) = [] \<longleftrightarrow>
        (fork_ok fork \<and> (\<forall>p. prev = Some p \<longrightarrow> p \<le> fe_activation_epoch fork)) \<and>
        fst (scan check_fork (hm_insert (fork_key fork) n seen, Some (fe_activation_epoch fork)) (enumerate (Suc n) forks)) = []"
      using False by (simp add: case_prod_unfold check_fork_passes check_fork_memory)
    also have "\<dots> \<longleftrightarrow> (fork_ok fork \<and> (\<forall>p. prev = Some p \<longrightarrow> p \<le> fe_activation_epoch fork)) \<and>
        (\<forall>fork \<in> set forks. fork_ok fork) \<and> distinct (map fork_key forks) \<and>
        fork_key ` set forks \<inter> insert (fork_key fork) (fst ` set seen) = {} \<and>
        sorted_wrt (\<le>) (map fe_activation_epoch (fork # forks))"
      unfolding Cons.IH keys_hm_insert sorted_epochs [of fork forks] by (simp only: conj_assoc)
    finally show ?thesis using False by auto
  qed
qed simp

lemma chain_spec_valid:
  "validate_chain_spec_config c = Inr () \<longleftrightarrow>
     cs_chain_id c \<noteq> 0 \<and> cs_genesis_time c \<noteq> 0 \<and> cs_slots_per_epoch c \<noteq> 0 \<and> cs_seconds_per_slot c \<noteq> 0 \<and>
     cs_forks c \<noteq> [] \<and> trimmed_metadata (cs_metadata c) ''spec_version'' \<noteq> [] \<and>
     (\<forall>(key, _) \<in> set (cs_metadata c). trim key \<noteq> []) \<and>
     (cs_network c = Custom \<longrightarrow> trimmed_metadata (cs_metadata c) ''network_name'' \<noteq> []) \<and>
     (\<forall>fork \<in> set (cs_forks c). fork_ok fork) \<and> distinct (map fork_key (cs_forks c)) \<and>
     sorted_wrt (\<le>) (map fe_activation_epoch (cs_forks c))"
  unfolding validate_chain_spec_config_def finish_ok append_is_Nil_conv err_if_Nil blank_key_iff scan_forks
  by auto

text \<open>The specification the module ships is accepted.\<close>

lemma default_chain_spec_valid: "validate_chain_spec_config default_chain_spec_config = Inr ()"
  by (simp add: chain_spec_valid default_chain_spec_config_def trimmed_metadata_def trim_def is_ascii_whitespace_def
      fork_ok_def to_ascii_lowercase_def to_ascii_uppercase_def)

text \<open>The version in the statistics of an accepted specification is the one its metadata names.\<close>

lemma spec_version_of_valid:
  "validate_chain_spec_config c = Inr () \<Longrightarrow>
     ct_spec_version (compute_chain_spec_stats c) = trimmed_metadata (cs_metadata c) ''spec_version''"
  by (simp add: chain_spec_valid compute_chain_spec_stats_def resolve_spec_version_def Let_def)

text \<open>The iteration order of the maps does not enter the commitment.\<close>

lemma chain_spec_text_order:
  assumes "hash_order it" and "hm_inv (cs_metadata c)" and "\<forall>fork \<in> set (cs_forks c). hm_inv (fe_metadata fork)"
  shows "chain_spec_text it c = chain_spec_text (\<lambda>m. m) c"
proof -
  have "fork_lines it e = fork_lines (\<lambda>m. m) e" if "e \<in> set (enumerate 0 (cs_forks c))" for e
  proof -
    have "snd e \<in> set (cs_forks c)" using that by (metis image_eqI list.set_map map_snd_enumerate)
    with assms(1,3) show ?thesis
      by (simp add: fork_lines_def case_prod_unfold Let_def metadata_lines_def sorted_pairs_order)
  qed
  then have "map (fork_lines it) (enumerate 0 (cs_forks c)) = map (fork_lines (\<lambda>m. m)) (enumerate 0 (cs_forks c))"
    by (rule map_cong [OF refl])
  then show ?thesis
    unfolding chain_spec_text_def metadata_lines_def sorted_pairs_order [OF assms(1,2)] by (simp only:)
qed

definition forged_metadata :: metadata where
  "forged_metadata =
     [(''a'', ''1'' @ [CHR 0x0A] @ ''metadata.b=2''), (''network_name'', ''n''), (''spec_version'', ''v'')]"

definition plain_metadata :: metadata where
  "plain_metadata = [(''a'', ''1''), (''b'', ''2''), (''network_name'', ''n''), (''spec_version'', ''v'')]"

lemma forged_inv: "hm_inv forged_metadata" "hm_inv plain_metadata" "map_of forged_metadata \<noteq> map_of plain_metadata"
proof -
  have "map_of forged_metadata ''b'' \<noteq> map_of plain_metadata ''b''" by (simp add: forged_metadata_def plain_metadata_def)
  then show "map_of forged_metadata \<noteq> map_of plain_metadata" by auto
qed (simp_all add: forged_metadata_def plain_metadata_def hm_inv_def)

lemma forged_lines: "metadata_lines ''metadata.'' forged_metadata = metadata_lines ''metadata.'' plain_metadata"
  by (simp add: metadata_lines_def forged_metadata_def plain_metadata_def sorted_pairs_def line_def less_list_code less_char_def)

lemma forged_text:
  assumes "hash_order it"
  shows "chain_spec_text it (c\<lparr>cs_metadata := forged_metadata\<rparr>) = chain_spec_text it (c\<lparr>cs_metadata := plain_metadata\<rparr>)"
proof -
  have "metadata_lines ''metadata.'' (it forged_metadata) = metadata_lines ''metadata.'' (it plain_metadata)"
    using forged_lines by (simp add: metadata_lines_def sorted_pairs_order [OF assms] forged_inv)
  moreover have "trimmed_metadata forged_metadata ''spec_version'' = trimmed_metadata plain_metadata ''spec_version''"
    by (simp add: trimmed_metadata_def forged_metadata_def plain_metadata_def)
  ultimately show ?thesis by (simp add: chain_spec_text_def resolve_spec_version_def Let_def)
qed

lemma forged_valid:
  assumes "validate_chain_spec_config c = Inr ()" and "m = forged_metadata \<or> m = plain_metadata"
  shows "validate_chain_spec_config (c\<lparr>cs_metadata := m\<rparr>) = Inr ()"
proof -
  have "trimmed_metadata m ''spec_version'' \<noteq> []" and "trimmed_metadata m ''network_name'' \<noteq> []"
    and "\<forall>(key, _) \<in> set m. trim key \<noteq> []"
    using assms(2) by (auto simp: trimmed_metadata_def forged_metadata_def plain_metadata_def trim_def is_ascii_whitespace_def)
  with assms(1) show ?thesis by (simp add: chain_spec_valid)
qed

text \<open>C35.  The validator enforces its rules.  A specification (of ASCII strings, on which the Unicode case conversion and
  trimming of the source are the ASCII ones) is accepted exactly when its scalars are positive, it names
  a version (and, for a custom network, the network), no metadata key is blank, there is at least one fork, and its forks have
  non-blank names, pairwise different up to case and surrounding white space, activation epochs that never decrease and
  are positive while scheduled or pending, and lists of non-blank EIPs, different up to case and white space, and no blank
  metadata key.  But the commitment to a specification does not determine it:
  values are printed unescaped, one per line, and for every accepted specification, of any network, there are two
  accepted ones which differ from it only in their metadata, have different metadata, and one commitment, whatever
  the hash function.\<close>

theorem chain_spec_spec:
  assumes "hash_order it"
  shows "(validate_chain_spec_config c = Inr () \<longleftrightarrow>
     cs_chain_id c \<noteq> 0 \<and> cs_genesis_time c \<noteq> 0 \<and> cs_slots_per_epoch c \<noteq> 0 \<and> cs_seconds_per_slot c \<noteq> 0 \<and>
     cs_forks c \<noteq> [] \<and> trimmed_metadata (cs_metadata c) ''spec_version'' \<noteq> [] \<and>
     (\<forall>(key, _) \<in> set (cs_metadata c). trim key \<noteq> []) \<and>
     (cs_network c = Custom \<longrightarrow> trimmed_metadata (cs_metadata c) ''network_name'' \<noteq> []) \<and>
     (\<forall>fork \<in> set (cs_forks c). fork_ok fork) \<and> distinct (map fork_key (cs_forks c)) \<and>
     sorted_wrt (\<le>) (map fe_activation_epoch (cs_forks c))) \<and>
   (validate_chain_spec_config c = Inr () \<longrightarrow>
     (\<exists>m1 m2. validate_chain_spec_config (c\<lparr>cs_metadata := m1\<rparr>) = Inr () \<and>
        validate_chain_spec_config (c\<lparr>cs_metadata := m2\<rparr>) = Inr () \<and>
        hm_inv m1 \<and> hm_inv m2 \<and> map_of m1 \<noteq> map_of m2 \<and>
        compute_chain_spec_commitment sha it (c\<lparr>cs_metadata := m1\<rparr>) =
          compute_chain_spec_commitment sha it (c\<lparr>cs_metadata := m2\<rparr>)))"
proof (intro conjI impI chain_spec_valid)
  assume "validate_chain_spec_config c = Inr ()"
  then have "validate_chain_spec_config (c\<lparr>cs_metadata := forged_metadata\<rparr>) = Inr ()"
    and "validate_chain_spec_config (c\<lparr>cs_metadata := plain_metadata\<rparr>) = Inr ()"
    using forged_valid by blast+
  moreover have "compute_chain_spec_commitment sha it (c\<lparr>cs_metadata := forged_metadata\<rparr>) =
      compute_chain_spec_commitment sha it (c\<lparr>cs_metadata := plain_metadata\<rparr>)"
    by (simp add: compute_chain_spec_commitment_def forged_text [OF assms])
  ultimately show "\<exists>m1 m2. validate_chain_spec_config (c\<lparr>cs_metadata := m1\<rparr>) = Inr () \<and>
        validate_chain_spec_config (c\<lparr>cs_metadata := m2\<rparr>) = Inr () \<and>
        hm_inv m1 \<and> hm_inv m2 \<and> map_of m1 \<noteq> map_of m2 \<and>
        compute_chain_spec_commitment sha it (c\<lparr>cs_metadata := m1\<rparr>) =
          compute_chain_spec_commitment sha it (c\<lparr>cs_metadata := m2\<rparr>)"
    using forged_inv by blast
qed

theorem chain_spec_spec_witness:
  "\<exists>m1 m2. map_of m1 \<noteq> map_of m2 \<and>
     compute_chain_spec_commitment word_of_be rev (default_chain_spec_config\<lparr>cs_metadata := m1\<rparr>) =
     compute_chain_spec_commitment word_of_be rev (default_chain_spec_config\<lparr>cs_metadata := m2\<rparr>)"
proof -
  have "hash_order rev" by (simp add: hash_order_def)
  then show ?thesis
    using chain_spec_spec [where it = rev and sha = word_of_be and c = default_chain_spec_config]
      default_chain_spec_valid by blast
qed

end
