(* ===== verification/Formal_Gate.thy ===== *)
theory Formal_Gate
  imports String_Maps
begin

text \<open>
  The gate on proof debt in CI, \<open>crates/eth2077-types/src/ci_formal_gate.rs\<close>: which unproven placeholders let a build
  pass.  Validation of a policy, the verdict and the modules that explain it, and the text hashed to
  commit to a policy.  SHA-256 is the parameter \<open>sha\<close>, and \<open>it\<close> the iteration order of the metadata map.
\<close>

section \<open>Data\<close>

datatype GateMode = Advisory | Warning | Blocking | Strict | ReleaseCandidate | Emergency

datatype PlaceholderDebtKind = DebtAxiom | DebtSorry | DebtAdmit | DebtStub | TodoProof | DeferredLemma

datatype CriticalPathTier =
    Tier1Safety | Tier2Liveness | Tier3Performance | Tier4Convenience | Tier5Optional | Tier6Deprecated

datatype GateVerdict = Pass | ConditionalPass | SoftFail | HardFail | VerdictError | Exempted

record PlaceholderDebt =
  pd_id :: string
  pd_kind :: PlaceholderDebtKind
  pd_module_path :: string
  pd_tier :: CriticalPathTier
  pd_introduced_commit :: string
  pd_age_days :: u64
  pd_metadata :: metadata

record CiFormalGateConfig =
  fg_mode :: GateMode
  fg_max_tier1_debt :: nat
  fg_max_tier2_debt :: nat
  fg_max_total_debt :: nat
  fg_strict_on_release_branch :: bool
  fg_exemption_list :: "string list"
  fg_metadata :: metadata

record CiFormalGateStats =
  fs_total_debt :: nat
  fs_tier1_count :: nat
  fs_tier2_count :: nat
  fs_tier3_count :: nat
  fs_verdict :: GateVerdict
  fs_oldest_debt_days :: u64
  fs_blocked_modules :: "string list"

definition default_ci_formal_gate_config :: CiFormalGateConfig where
  "default_ci_formal_gate_config =
     \<lparr>fg_mode = Blocking, fg_max_tier1_debt = 0, fg_max_tier2_debt = 2, fg_max_total_debt = 6,
      fg_strict_on_release_branch = True, fg_exemption_list = [],
      fg_metadata = [(''policy_profile'', ''eth2077-formal-gate-v1''), (''owner'', ''eth2077-core'')]\<rparr>"

section \<open>Validation\<close>

text \<open>An exemption is counted in \<open>seen_exemptions\<close> when it is not blank.\<close>

definition check_exemption :: "string set \<Rightarrow> string \<Rightarrow> FieldError list \<times> string set" where
  "check_exemption seen exemption =
     (let normalized = trim exemption in
      if normalized = [] then
        ([reject_field ''exemption_list'' ''entries must not be empty or whitespace''], seen)
      else (err_if (normalized \<in> seen) (reject_field ''exemption_list''
          (''duplicate exemption id `'' @ normalized @ ''`'')), insert normalized seen))"

definition check_gate_metadata :: "string \<times> string \<Rightarrow> FieldError list" where
  "check_gate_metadata entry =
     err_if (trim (fst entry) = []) (reject_field ''metadata'' ''metadata keys must not be empty or whitespace'') @
     err_if (trim (snd entry) = []) (reject_field ''metadata''
       (''metadata value for key `'' @ fst entry @ ''` must not be empty''))"

definition validate_ci_formal_gate_config ::
    "(metadata \<Rightarrow> metadata) \<Rightarrow> CiFormalGateConfig \<Rightarrow> FieldError list + unit" where
  "validate_ci_formal_gate_config it config =
     finish (
       err_if (fg_max_total_debt config < fg_max_tier1_debt config)
         (reject_field ''max_total_debt'' ''must be greater than or equal to max_tier1_debt'') @
       err_if (fg_max_total_debt config < fg_max_tier2_debt config)
         (reject_field ''max_total_debt'' ''must be greater than or equal to max_tier2_debt'') @
       (if fg_mode config \<in> {Strict, ReleaseCandidate} then
          err_if (fg_max_tier1_debt config \<noteq> 0)
            (reject_field ''max_tier1_debt'' ''must be zero in strict or release-candidate mode'') @
          err_if (fg_max_tier2_debt config \<noteq> 0)
            (reject_field ''max_tier2_debt'' ''must be zero in strict or release-candidate mode'') @
          err_if (fg_max_total_debt config \<noteq> 0)
            (reject_field ''max_total_debt'' ''must be zero in strict or release-candidate mode'') @
          err_if (fg_exemption_list config \<noteq> [])
            (reject_field ''exemption_list'' ''must be empty in strict or release-candidate mode'')
        else []) @
       err_if (fg_mode config = ReleaseCandidate \<and> \<not> fg_strict_on_release_branch config)
         (reject_field ''strict_on_release_branch'' ''must be true when mode is ReleaseCandidate'') @
       err_if (fg_mode config = Emergency \<and> fg_strict_on_release_branch config)
         (reject_field ''strict_on_release_branch'' ''must be false in Emergency mode'') @
       fst (scan check_exemption {} (fg_exemption_list config)) @
       concat (map check_gate_metadata (it (fg_metadata config))))"

section \<open>Verdict\<close>

definition normalized_exemptions :: "string list \<Rightarrow> string list" where
  "normalized_exemptions exemptions = filter (\<lambda>e. e \<noteq> []) (map trim exemptions)"

definition build_exemption_lookup :: "string list \<Rightarrow> string set" where
  "build_exemption_lookup exemptions = set (normalized_exemptions exemptions)"

definition is_exempt :: "string \<Rightarrow> string set \<Rightarrow> bool" where
  "is_exempt i exemptions \<longleftrightarrow> trim i \<in> exemptions"

definition push_unique :: "string \<Rightarrow> string list \<Rightarrow> string list" where
  "push_unique v values = (if v \<in> set values then values else values @ [v])"

definition strict_enforced :: "CiFormalGateConfig \<Rightarrow> bool" where
  "strict_enforced config \<longleftrightarrow>
     fg_mode config = Strict \<or> fg_mode config = ReleaseCandidate \<and> fg_strict_on_release_branch config"

definition compute_verdict :: "CiFormalGateConfig \<Rightarrow> nat \<Rightarrow> nat \<Rightarrow> nat \<Rightarrow> bool \<Rightarrow> GateVerdict" where
  "compute_verdict config total_debt tier1_count tier2_count config_invalid =
     (if config_invalid then VerdictError
      else if fg_mode config = Emergency then Exempted
      else if total_debt = 0 then Pass
      else if strict_enforced config then HardFail
      else
        let exceeds = fg_max_tier1_debt config < tier1_count \<or> fg_max_tier2_debt config < tier2_count \<or>
              fg_max_total_debt config < total_debt
        in (case fg_mode config of
              Advisory \<Rightarrow> ConditionalPass
            | Warning \<Rightarrow> (if exceeds then SoftFail else ConditionalPass)
            | Blocking \<Rightarrow> (if exceeds then HardFail else ConditionalPass)
            | ReleaseCandidate \<Rightarrow> (if exceeds then HardFail else ConditionalPass)
            | Strict \<Rightarrow> HardFail
            | Emergency \<Rightarrow> Exempted))"

definition compute_blocked_modules ::
    "CiFormalGateConfig \<Rightarrow> GateVerdict \<Rightarrow> nat \<Rightarrow> nat \<Rightarrow> nat \<Rightarrow> string list \<Rightarrow> string list \<Rightarrow> string list \<Rightarrow>
       string list" where
  "compute_blocked_modules config verdict total_debt tier1_count tier2_count all_modules tier1_modules tier2_modules =
     (if verdict \<notin> {SoftFail, HardFail} then []
      else if strict_enforced config then remdups_adj (sort all_modules)
      else
        let blocked1 = (if fg_max_tier1_debt config < tier1_count then fold push_unique tier1_modules [] else []);
            blocked2 = (if fg_max_tier2_debt config < tier2_count then fold push_unique tier2_modules blocked1
              else blocked1);
            blocked3 = (if fg_max_total_debt config < total_debt then fold push_unique all_modules blocked2
              else blocked2)
        in sort blocked3)"

definition modules_of :: "PlaceholderDebt list \<Rightarrow> string list" where
  "modules_of debts = fold (\<lambda>debt. push_unique (pd_module_path debt)) debts []"

definition compute_ci_formal_gate_stats ::
    "(metadata \<Rightarrow> metadata) \<Rightarrow> PlaceholderDebt list \<Rightarrow> CiFormalGateConfig \<Rightarrow> CiFormalGateStats" where
  "compute_ci_formal_gate_stats it debts config =
     (let exemptions = build_exemption_lookup (fg_exemption_list config);
          counted_debts = filter (\<lambda>debt. \<not> is_exempt (pd_id debt) exemptions) debts;
          tier1 = filter (\<lambda>debt. pd_tier debt = Tier1Safety) counted_debts;
          tier2 = filter (\<lambda>debt. pd_tier debt = Tier2Liveness) counted_debts;
          config_invalid = (validate_ci_formal_gate_config it config \<noteq> Inr ());
          verdict = compute_verdict config (length counted_debts) (length tier1) (length tier2) config_invalid
      in \<lparr>fs_total_debt = length counted_debts,
          fs_tier1_count = length tier1,
          fs_tier2_count = length tier2,
          fs_tier3_count = length (filter (\<lambda>debt. pd_tier debt = Tier3Performance) counted_debts),
          fs_verdict = verdict,
          fs_oldest_debt_days = fold (\<lambda>debt oldest. max oldest (pd_age_days debt)) counted_debts 0,
          fs_blocked_modules = compute_blocked_modules config verdict (length counted_debts) (length tier1)
            (length tier2) (modules_of counted_debts) (modules_of tier1) (modules_of tier2)\<rparr>)"

section \<open>Commitment\<close>

fun gate_mode_label :: "GateMode \<Rightarrow> string" where
  "gate_mode_label Advisory = ''advisory''"
| "gate_mode_label Warning = ''warning''"
| "gate_mode_label Blocking = ''blocking''"
| "gate_mode_label Strict = ''strict''"
| "gate_mode_label ReleaseCandidate = ''release_candidate''"
| "gate_mode_label Emergency = ''emergency''"

definition gate_line :: "string \<Rightarrow> string \<Rightarrow> string" where
  "gate_line key v = key @ ''='' @ v @ [CHR 0x0A]"

definition formal_gate_text :: "(metadata \<Rightarrow> metadata) \<Rightarrow> CiFormalGateConfig \<Rightarrow> string" where
  "formal_gate_text it config =
     ''ci_formal_gate_config:v1'' @ [CHR 0x0A] @
     gate_line ''mode'' (gate_mode_label (fg_mode config)) @
     gate_line ''max_tier1_debt'' (decimal (fg_max_tier1_debt config)) @
     gate_line ''max_tier2_debt'' (decimal (fg_max_tier2_debt config)) @
     gate_line ''max_total_debt'' (decimal (fg_max_total_debt config)) @
     gate_line ''strict_on_release_branch'' (if fg_strict_on_release_branch config then ''true'' else ''false'') @
     concat (map (gate_line ''exemption'') (remdups_adj (sort (normalized_exemptions (fg_exemption_list config))))) @
     concat (map (\<lambda>(key, v). gate_line (''metadata:'' @ key) v) (sorted_pairs (it (fg_metadata config))))"

definition compute_ci_formal_gate_commitment :: "(bytes \<Rightarrow> B256) \<Rightarrow> (metadata \<Rightarrow> metadata) \<Rightarrow> CiFormalGateConfig \<Rightarrow> string" where
  "compute_ci_formal_gate_commitment sha it config =
     lower_hex (be_bytes (sha (ascii (formal_gate_text it config))))"

section \<open>Properties\<close>

lemma fold_push_unique: "set (fold push_unique xs acc) = set acc \<union> set xs" "distinct acc \<Longrightarrow> distinct (fold push_unique xs acc)"
  by (induction xs arbitrary: acc) (auto simp: push_unique_def)

lemma fold_push_unique_Nil: "fold push_unique xs acc = [] \<longleftrightarrow> xs = [] \<and> acc = []"
  using fold_push_unique(1) [of xs acc] by (metis Un_empty set_empty)

lemma modules_of_eq: "modules_of ds = fold push_unique (map pd_module_path ds) []"
  by (simp add: modules_of_def fold_map comp_def)

lemma set_modules_of: "set (modules_of ds) = pd_module_path ` set ds" "distinct (modules_of ds)"
  by (simp_all add: modules_of_eq fold_push_unique)

lemma sorted_distinct_dedup: "distinct xs \<Longrightarrow> remdups_adj (sort xs) = sort xs" for xs :: "string list"
  by (rule remdups_adj_distinct) simp

text \<open>In the strict modes a valid policy has no budget and no exemption.\<close>

lemma strict_policy:
  assumes "validate_ci_formal_gate_config it c = Inr ()" and "fg_mode c \<in> {Strict, ReleaseCandidate}"
  shows "strict_enforced c" and "fg_exemption_list c = []"
  using assms by (auto simp: validate_ci_formal_gate_config_def strict_enforced_def)

definition non_exempt :: "CiFormalGateConfig \<Rightarrow> PlaceholderDebt list \<Rightarrow> PlaceholderDebt list" where
  "non_exempt c ds = filter (\<lambda>d. trim (pd_id d) = [] \<or> trim (pd_id d) \<notin> trim ` set (fg_exemption_list c)) ds"

lemma counted_debts: "filter (\<lambda>d. \<not> is_exempt (pd_id d) (build_exemption_lookup (fg_exemption_list c))) ds = non_exempt c ds"
  unfolding non_exempt_def
  by (rule filter_cong) (auto simp: is_exempt_def build_exemption_lookup_def normalized_exemptions_def)

definition over_budget :: "CiFormalGateConfig \<Rightarrow> PlaceholderDebt list \<Rightarrow> bool" where
  "over_budget c ds \<longleftrightarrow>
     fg_max_tier1_debt c < length (filter (\<lambda>d. pd_tier d = Tier1Safety) (non_exempt c ds)) \<or>
     fg_max_tier2_debt c < length (filter (\<lambda>d. pd_tier d = Tier2Liveness) (non_exempt c ds)) \<or>
     fg_max_total_debt c < length (non_exempt c ds)"

lemma gate_stats:
  "fs_verdict (compute_ci_formal_gate_stats it ds c) =
     compute_verdict c (length (non_exempt c ds)) (length (filter (\<lambda>d. pd_tier d = Tier1Safety) (non_exempt c ds)))
       (length (filter (\<lambda>d. pd_tier d = Tier2Liveness) (non_exempt c ds)))
       (validate_ci_formal_gate_config it c \<noteq> Inr ())"
  "fs_blocked_modules (compute_ci_formal_gate_stats it ds c) =
     compute_blocked_modules c (fs_verdict (compute_ci_formal_gate_stats it ds c)) (length (non_exempt c ds))
       (length (filter (\<lambda>d. pd_tier d = Tier1Safety) (non_exempt c ds)))
       (length (filter (\<lambda>d. pd_tier d = Tier2Liveness) (non_exempt c ds)))
       (modules_of (non_exempt c ds)) (modules_of (filter (\<lambda>d. pd_tier d = Tier1Safety) (non_exempt c ds)))
       (modules_of (filter (\<lambda>d. pd_tier d = Tier2Liveness) (non_exempt c ds)))"
  by (simp_all only: compute_ci_formal_gate_stats_def Let_def counted_debts CiFormalGateStats.simps)

lemma strict_counts_all:
  "validate_ci_formal_gate_config it c = Inr () \<Longrightarrow> fg_mode c \<in> {Strict, ReleaseCandidate} \<Longrightarrow> non_exempt c ds = ds"
  using strict_policy(2) [of it c] by (simp add: non_exempt_def)

lemma over_budget_debt: "over_budget c ds \<Longrightarrow> non_exempt c ds \<noteq> []"
  by (auto simp: over_budget_def)

lemma gate_verdict:
  assumes "validate_ci_formal_gate_config it c = Inr ()"
  shows "fs_verdict (compute_ci_formal_gate_stats it ds c) =
    (if fg_mode c = Emergency then Exempted
     else if non_exempt c ds = [] then Pass
     else if fg_mode c \<in> {Strict, ReleaseCandidate} then HardFail
     else if fg_mode c = Advisory \<or> \<not> over_budget c ds then ConditionalPass
     else if fg_mode c = Warning then SoftFail else HardFail)"
  using assms strict_policy(1) [OF assms]
  by (cases "fg_mode c") (auto simp: gate_stats compute_verdict_def strict_enforced_def over_budget_def Let_def)

lemma blocked_modules:
  fixes c :: CiFormalGateConfig and n n1 n2 :: nat
  assumes "verdict \<in> {SoftFail, HardFail}" and "distinct m" and "set m1 \<subseteq> set m" and "set m2 \<subseteq> set m"
  defines "b \<equiv> compute_blocked_modules c verdict n n1 n2 m m1 m2"
  shows "sorted b" and "distinct b"
    and "set b = (if strict_enforced c \<or> fg_max_total_debt c < n then set m
      else (if fg_max_tier1_debt c < n1 then set m1 else {}) \<union> (if fg_max_tier2_debt c < n2 then set m2 else {}))"
proof -
  define b1 where "b1 = (if fg_max_tier1_debt c < n1 then fold push_unique m1 [] else [])"
  define b2 where "b2 = (if fg_max_tier2_debt c < n2 then fold push_unique m2 b1 else b1)"
  define b3 where "b3 = (if strict_enforced c then m
    else if fg_max_total_debt c < n then fold push_unique m b2 else b2)"
  have b: "b = sort b3"
    using assms(1,2) by (simp add: b_def compute_blocked_modules_def b1_def b2_def b3_def Let_def sorted_distinct_dedup)
  have "distinct b3" using assms(2) by (simp add: b1_def b2_def b3_def fold_push_unique)
  then show "sorted b" and "distinct b" by (simp_all add: b)
  show "set b = (if strict_enforced c \<or> fg_max_total_debt c < n then set m
      else (if fg_max_tier1_debt c < n1 then set m1 else {}) \<union> (if fg_max_tier2_debt c < n2 then set m2 else {}))"
    using assms(3,4) by (auto simp: b b1_def b2_def b3_def fold_push_unique)
qed

text \<open>A debt breaks the policy when a strict mode sees it, when the debts exceed the total budget, or when
  those of its own tier exceed the budget of that tier.\<close>

definition breaks_policy :: "CiFormalGateConfig \<Rightarrow> PlaceholderDebt list \<Rightarrow> PlaceholderDebt \<Rightarrow> bool" where
  "breaks_policy c ds d \<longleftrightarrow>
     fg_mode c \<in> {Strict, ReleaseCandidate} \<or> fg_max_total_debt c < length (non_exempt c ds) \<or>
     (pd_tier d = Tier1Safety \<and>
        fg_max_tier1_debt c < length (filter (\<lambda>d. pd_tier d = Tier1Safety) (non_exempt c ds))) \<or>
     (pd_tier d = Tier2Liveness \<and>
        fg_max_tier2_debt c < length (filter (\<lambda>d. pd_tier d = Tier2Liveness) (non_exempt c ds)))"

lemma breaks_policy_some:
  assumes "fg_mode c \<in> {Strict, ReleaseCandidate} \<and> non_exempt c ds \<noteq> [] \<or> over_budget c ds"
  shows "\<exists>d \<in> set (non_exempt c ds). breaks_policy c ds d"
proof -
  have some: "\<exists>d \<in> set (non_exempt c ds). pd_tier d = t" if "k < length (filter (\<lambda>d. pd_tier d = t) (non_exempt c ds))" for k t
    using that by (metis (mono_tags, lifting) filter_False list.size(3) not_less_zero)
  consider "fg_mode c \<in> {Strict, ReleaseCandidate} \<or> fg_max_total_debt c < length (non_exempt c ds)"
    | "fg_max_tier1_debt c < length (filter (\<lambda>d. pd_tier d = Tier1Safety) (non_exempt c ds))"
    | "fg_max_tier2_debt c < length (filter (\<lambda>d. pd_tier d = Tier2Liveness) (non_exempt c ds))"
    using assms by (auto simp: over_budget_def)
  then show ?thesis
  proof cases
    case 1
    have "hd (non_exempt c ds) \<in> set (non_exempt c ds)" using assms over_budget_debt [of c ds] by (intro hd_in_set) blast
    with 1 show ?thesis by (auto simp: breaks_policy_def)
  next
    case 2
    with some [OF 2] show ?thesis by (auto simp: breaks_policy_def)
  next
    case 3
    with some [OF 3] show ?thesis by (auto simp: breaks_policy_def)
  qed
qed

lemma gate_blocked:
  assumes valid: "validate_ci_formal_gate_config it c = Inr ()"
    and fail: "fs_verdict (compute_ci_formal_gate_stats it ds c) \<in> {SoftFail, HardFail}"
  shows "fs_blocked_modules (compute_ci_formal_gate_stats it ds c) =
    sorted_list_of_set (pd_module_path ` {d \<in> set (non_exempt c ds). breaks_policy c ds d})"
proof -
  let ?n = "non_exempt c ds"
  let ?n1 = "filter (\<lambda>d. pd_tier d = Tier1Safety) ?n" and ?n2 = "filter (\<lambda>d. pd_tier d = Tier2Liveness) ?n"
  let ?b = "fs_blocked_modules (compute_ci_formal_gate_stats it ds c)"
  have sub: "set (modules_of ?n1) \<subseteq> set (modules_of ?n)" "set (modules_of ?n2) \<subseteq> set (modules_of ?n)"
    by (auto simp: set_modules_of)
  have strict: "strict_enforced c \<longleftrightarrow> fg_mode c \<in> {Strict, ReleaseCandidate}"
    using strict_policy(1) [OF valid] by (auto simp: strict_enforced_def)
  have sd: "sorted ?b" "distinct ?b"
    and set: "set ?b = (if strict_enforced c \<or> fg_max_total_debt c < length ?n then set (modules_of ?n)
      else (if fg_max_tier1_debt c < length ?n1 then set (modules_of ?n1) else {}) \<union>
        (if fg_max_tier2_debt c < length ?n2 then set (modules_of ?n2) else {}))"
    unfolding gate_stats(2) using blocked_modules [OF fail set_modules_of(2) sub] by blast+
  have "?b = sorted_list_of_set (set ?b)" using sorted_list_of_set.idem_if_sorted_distinct [OF sd] by (rule sym)
  moreover have "set ?b = pd_module_path ` {d \<in> set ?n. breaks_policy c ds d}"
    unfolding set set_modules_of strict breaks_policy_def by auto
  ultimately show ?thesis by simp
qed

text \<open>C36.  What the gate decides under a valid policy.  A build is blocked exactly when a strict mode sees any debt, or
  the blocking mode sees more than a budget allows; it is flagged softly exactly when the warning mode does; in
  the strict modes no exemption helps.  The modules named for a failed build are, sorted and each once, exactly
  those of the debts that are not exempt and break the policy: all of them in a strict mode or over the total
  budget, otherwise those of a tier over its own budget.  There is at least one; for any other verdict none is
  named.\<close>

theorem gate_verdict_spec:
  fixes debts :: "PlaceholderDebt list"
  assumes valid: "validate_ci_formal_gate_config it c = Inr ()"
  defines "stats \<equiv> compute_ci_formal_gate_stats it debts c"
  shows "(fs_verdict stats = HardFail \<longleftrightarrow>
      fg_mode c \<in> {Strict, ReleaseCandidate} \<and> debts \<noteq> [] \<or> fg_mode c = Blocking \<and> over_budget c debts) \<and>
    (fs_verdict stats = SoftFail \<longleftrightarrow> fg_mode c = Warning \<and> over_budget c debts) \<and>
    (fs_verdict stats = Pass \<longleftrightarrow> fg_mode c \<noteq> Emergency \<and> non_exempt c debts = []) \<and>
    fs_blocked_modules stats =
      (if fs_verdict stats \<in> {SoftFail, HardFail}
       then sorted_list_of_set (pd_module_path ` {d \<in> set (non_exempt c debts). breaks_policy c debts d})
       else []) \<and>
    (fs_blocked_modules stats \<noteq> [] \<longleftrightarrow> fs_verdict stats \<in> {SoftFail, HardFail})"
proof -
  let ?n = "non_exempt c debts"
  have all: "fg_mode c \<in> {Strict, ReleaseCandidate} \<Longrightarrow> ?n = debts" using strict_counts_all [OF valid] by blast
  have verdict: "fs_verdict stats = HardFail \<longleftrightarrow>
      fg_mode c \<in> {Strict, ReleaseCandidate} \<and> debts \<noteq> [] \<or> fg_mode c = Blocking \<and> over_budget c debts"
    "fs_verdict stats = SoftFail \<longleftrightarrow> fg_mode c = Warning \<and> over_budget c debts"
    "fs_verdict stats = Pass \<longleftrightarrow> fg_mode c \<noteq> Emergency \<and> ?n = []"
    unfolding stats_def gate_verdict [OF valid] using all over_budget_debt [of c debts]
    by (cases "fg_mode c"; auto)+
  have blocked: "fs_blocked_modules stats = (if fs_verdict stats \<in> {SoftFail, HardFail}
       then sorted_list_of_set (pd_module_path ` {d \<in> set ?n. breaks_policy c debts d}) else [])"
    using gate_blocked [OF valid, of debts] by (auto simp: stats_def gate_stats(2) compute_blocked_modules_def)
  have "{d \<in> set ?n. breaks_policy c debts d} \<noteq> {}" if "fs_verdict stats \<in> {SoftFail, HardFail}"
    using that verdict(1,2) all breaks_policy_some [of c debts] by auto
  then have "fs_blocked_modules stats \<noteq> [] \<longleftrightarrow> fs_verdict stats \<in> {SoftFail, HardFail}"
    unfolding blocked by simp
  with verdict blocked show ?thesis by blast
qed

definition example_debt :: "string \<Rightarrow> CriticalPathTier \<Rightarrow> PlaceholderDebt" where
  "example_debt i tier =
     \<lparr>pd_id = i, pd_kind = DebtAxiom, pd_module_path = ''citadel.safety'', pd_tier = tier,
      pd_introduced_commit = ''c0ffee'', pd_age_days = 3, pd_metadata = []\<rparr>"

lemma default_gate_valid: "validate_ci_formal_gate_config (\<lambda>m. m) default_ci_formal_gate_config = Inr ()"
  by (simp add: validate_ci_formal_gate_config_def default_ci_formal_gate_config_def check_gate_metadata_def
      trim_def is_ascii_whitespace_def)

theorem gate_verdict_spec_witness:
  "fs_verdict (compute_ci_formal_gate_stats (\<lambda>m. m) [example_debt ''d1'' Tier1Safety] default_ci_formal_gate_config) = HardFail"
  using gate_verdict_spec [OF default_gate_valid, of "[example_debt ''d1'' Tier1Safety]"]
  by (simp add: over_budget_def non_exempt_def default_ci_formal_gate_config_def example_debt_def)

text \<open>Two policies whose metadata differ can print the same text, as for chain specifications.\<close>

lemma gate_text_collision:
  "formal_gate_text (\<lambda>m. m) (c\<lparr>fg_metadata := [(''a'', ''1'' @ [CHR 0x0A] @ ''metadata:b=2'')]\<rparr>) =
   formal_gate_text (\<lambda>m. m) (c\<lparr>fg_metadata := [(''a'', ''1''), (''b'', ''2'')]\<rparr>)"
  by (simp add: formal_gate_text_def sorted_pairs_def gate_line_def less_list_code less_char_def)

end
