(* ===== verification/Key_Ceremony.thy ===== *)
theory Key_Ceremony
  imports String_Maps
begin

text \<open>
  The validator key ceremony, \<open>crates/eth2077-types/src/validator_ceremony.rs\<close>: its configuration and validator, the
  statistics over keys, and the commitment to a configuration.  SHA-256 is the parameter \<open>sha\<close>; the mean
  age of the keys, a floating-point number, is what the parameter \<open>mean_days\<close> makes of their ages in seconds.
\<close>

section \<open>Data\<close>

datatype CeremonyPhase = Setup | KeyGeneration | Distribution | Verification | Activation | Rotation

datatype SignerProtocol = Local | RemoteGrpc | RemoteHttp | Hsm | ThresholdBls | Distributed

datatype KeyStatus = Generated | KeyDistributed | Verified | Active | Revoked | Expired

datatype SecurityLevel = Standard | Enhanced | AirGapped | MultiParty | FormallyVerified | PostQuantum

record ValidatorKey =
  vk_id :: string
  vk_pubkey :: string
  vk_status :: KeyStatus
  vk_signer :: SignerProtocol
  vk_security :: SecurityLevel
  vk_generated_at :: u64
  vk_metadata :: metadata

record ValidatorCeremonyConfig =
  vc_validator_count :: nat
  vc_threshold :: nat
  vc_protocol :: SignerProtocol
  vc_security :: SecurityLevel
  vc_rotation_period_days :: u64
  vc_require_air_gap :: bool
  vc_metadata :: metadata

record 'f ValidatorCeremonyStats =
  cs_total_keys :: nat
  cs_active_keys :: nat
  cs_revoked_keys :: nat
  cs_avg_key_age_days :: 'f
  cs_protocol_distribution :: "(string, nat) hashmap"
  cs_ceremony_complete :: bool

definition default_validator_ceremony_config :: ValidatorCeremonyConfig where
  "default_validator_ceremony_config =
     \<lparr>vc_validator_count = 128, vc_threshold = 86, vc_protocol = ThresholdBls, vc_security = MultiParty,
      vc_rotation_period_days = 90, vc_require_air_gap = True,
      vc_metadata = [(''profile'', ''eth2077-testnet-default''), (''verification_policy'', ''dual-operator-check'')]\<rparr>"

fun protocol_label :: "SignerProtocol \<Rightarrow> string" where
  "protocol_label Local = ''Local''"
| "protocol_label RemoteGrpc = ''RemoteGrpc''"
| "protocol_label RemoteHttp = ''RemoteHttp''"
| "protocol_label Hsm = ''Hsm''"
| "protocol_label ThresholdBls = ''ThresholdBls''"
| "protocol_label Distributed = ''Distributed''"

fun security_label :: "SecurityLevel \<Rightarrow> string" where
  "security_label Standard = ''Standard''"
| "security_label Enhanced = ''Enhanced''"
| "security_label AirGapped = ''AirGapped''"
| "security_label MultiParty = ''MultiParty''"
| "security_label FormallyVerified = ''FormallyVerified''"
| "security_label PostQuantum = ''PostQuantum''"

definition security_meets_air_gap_requirement :: "SecurityLevel \<Rightarrow> bool" where
  "security_meets_air_gap_requirement security \<longleftrightarrow>
     (case security of AirGapped \<Rightarrow> True | MultiParty \<Rightarrow> True | FormallyVerified \<Rightarrow> True | PostQuantum \<Rightarrow> True
      | _ \<Rightarrow> False)"

definition is_terminal_key_status :: "KeyStatus \<Rightarrow> bool" where
  "is_terminal_key_status status \<longleftrightarrow>
     (case status of Active \<Rightarrow> True | Revoked \<Rightarrow> True | Expired \<Rightarrow> True | _ \<Rightarrow> False)"

section \<open>Operations\<close>

definition validate_validator_ceremony_config :: "ValidatorCeremonyConfig \<Rightarrow> FieldError list + unit" where
  "validate_validator_ceremony_config config =
     finish (
       err_if (vc_validator_count config = 0)
         (reject_field ''validator_count'' ''validator_count must be greater than zero'') @
       err_if (vc_threshold config = 0) (reject_field ''threshold'' ''threshold must be greater than zero'') @
       err_if (vc_validator_count config < vc_threshold config)
         (reject_field ''threshold'' ''threshold cannot exceed validator_count'') @
       err_if (vc_rotation_period_days config = 0)
         (reject_field ''rotation_period_days'' ''rotation_period_days must be at least 1'') @
       err_if (3650 < vc_rotation_period_days config)
         (reject_field ''rotation_period_days'' ''rotation_period_days must not exceed 3650'') @
       err_if (vc_require_air_gap config \<and> \<not> security_meets_air_gap_requirement (vc_security config))
         (reject_field ''security''
           ''require_air_gap=true requires AirGapped, MultiParty, FormallyVerified, or PostQuantum security'') @
       err_if (vc_security config = AirGapped \<and> vc_protocol config = RemoteHttp)
         (reject_field ''protocol'' ''RemoteHttp is incompatible with AirGapped security'') @
       err_if ((vc_protocol config = ThresholdBls \<or> vc_protocol config = Distributed) \<and> vc_threshold config < 2)
         (reject_field ''threshold'' ''threshold must be at least 2 for ThresholdBls or Distributed protocols'') @
       err_if (vc_security config = PostQuantum \<and> 180 < vc_rotation_period_days config)
         (reject_field ''rotation_period_days'' ''PostQuantum profile requires rotation_period_days <= 180''))"

text \<open>\<open>*protocol_distribution.entry(protocol_name).or_insert(0) += 1\<close>.\<close>

definition count_protocol :: "ValidatorKey \<Rightarrow> (string, nat) hashmap \<Rightarrow> (string, nat) hashmap" where
  "count_protocol key distribution =
     (let protocol_name = protocol_label (vk_signer key) in
      hm_insert protocol_name (unwrap_or (map_of distribution protocol_name) 0 + 1) distribution)"

definition key_ages :: "ValidatorKey list \<Rightarrow> u64 list" where
  "key_ages keys =
     (let newest_timestamp = foldr max (map vk_generated_at keys) 0 in
      map (\<lambda>key. sat_sub newest_timestamp (vk_generated_at key)) keys)"

definition compute_validator_ceremony_stats :: "(u64 list \<Rightarrow> 'f) \<Rightarrow> ValidatorKey list \<Rightarrow> 'f ValidatorCeremonyStats" where
  "compute_validator_ceremony_stats mean_days keys =
     (let active_keys = length (filter (\<lambda>key. vk_status key = Active) keys)
      in \<lparr>cs_total_keys = length keys,
          cs_active_keys = active_keys,
          cs_revoked_keys = length (filter (\<lambda>key. vk_status key = Revoked) keys),
          cs_avg_key_age_days = mean_days (key_ages keys),
          cs_protocol_distribution = fold count_protocol keys [],
          cs_ceremony_complete =
            (0 < length keys \<and> list_all (\<lambda>key. is_terminal_key_status (vk_status key)) keys \<and> 0 < active_keys)\<rparr>)"

definition le_len :: "nat \<Rightarrow> bytes" where
  "le_len n = le_bytes (of_nat n :: u64)"

definition entry_bytes :: "string \<times> string \<Rightarrow> bytes" where
  "entry_bytes entry = ascii (fst entry) @ [0] @ ascii (snd entry) @ [255]"

definition ceremony_preimage :: "(metadata \<Rightarrow> metadata) \<Rightarrow> ValidatorCeremonyConfig \<Rightarrow> bytes" where
  "ceremony_preimage it config =
     le_len (vc_validator_count config) @ le_len (vc_threshold config) @
     ascii (protocol_label (vc_protocol config)) @ [0] @
     ascii (security_label (vc_security config)) @ [0] @
     le_bytes (vc_rotation_period_days config) @ [if vc_require_air_gap config then 1 else 0] @
     concat (map entry_bytes (sorted_pairs (it (vc_metadata config))))"

definition compute_validator_ceremony_commitment ::
    "(bytes \<Rightarrow> B256) \<Rightarrow> (metadata \<Rightarrow> metadata) \<Rightarrow> ValidatorCeremonyConfig \<Rightarrow> string" where
  "compute_validator_ceremony_commitment sha it config = lower_hex (be_bytes (sha (ceremony_preimage it config)))"

section \<open>The commitment\<close>

lemma labels_inj [simp]:
  "protocol_label p = protocol_label p' \<longleftrightarrow> p = p'"
  "security_label s = security_label s' \<longleftrightarrow> s = s'"
  by (cases p; cases p'; simp) (cases s; cases s'; simp)

lemma labels_no_zero [simp]:
  "0 \<notin> set (ascii (protocol_label p))" "0 \<notin> set (ascii (security_label s))"
  by (cases p; simp add: ascii_zero) (cases s; simp add: ascii_zero)

lemma le_bytes_u64_inj [simp]: "le_bytes (v :: u64) = le_bytes w \<longleftrightarrow> v = w"
  by (simp add: le_bytes_def)

lemma length_le_len [simp]: "length (le_len n) = 8"
  by (simp add: le_len_def)

lemma le_len_inj: "le_len m = le_len n \<Longrightarrow> m < 2 ^ 64 \<Longrightarrow> n < 2 ^ 64 \<Longrightarrow> m = n"
  by (rule be_len_inj) (simp_all add: le_len_def be_len_def)

definition plain_entry :: "string \<times> string \<Rightarrow> bool" where
  "plain_entry entry \<longleftrightarrow> CHR 0x00 \<notin> set (fst entry) \<and> ascii_only (snd entry)"

interpretation ceremony_entry: prefix_code entry_bytes plain_entry
proof
  fix x y us vs
  assume fits: "plain_entry x" "plain_entry y" and eq: "entry_bytes x @ us = entry_bytes y @ vs"
  have "ascii (fst x) @ 0 # (ascii (snd x) @ 255 # us) = ascii (fst y) @ 0 # (ascii (snd y) @ 255 # vs)"
    using eq by (simp add: entry_bytes_def)
  then have "fst x = fst y" and "ascii (snd x) @ 255 # us = ascii (snd y) @ 255 # vs"
    using fits by (simp_all add: delimited_split ascii_zero plain_entry_def)
  then show "x = y \<and> us = vs"
    using fits by (simp add: delimited_split ascii_255 plain_entry_def prod_eq_iff)
qed

definition ceremony_fits :: "ValidatorCeremonyConfig \<Rightarrow> bool" where
  "ceremony_fits c \<longleftrightarrow> hm_inv (vc_metadata c) \<and> list_all plain_entry (vc_metadata c) \<and>
     vc_validator_count c < 2 ^ 64 \<and> vc_threshold c < 2 ^ 64"

lemma ceremony_metadata_bytes:
  assumes "hm_inv m" "hm_inv m'" "list_all plain_entry m" "list_all plain_entry m'"
  shows "concat (map entry_bytes (sorted_pairs m)) = concat (map entry_bytes (sorted_pairs m')) \<longleftrightarrow> map_of m = map_of m'"
proof -
  have "\<forall>x \<in> set (sorted_pairs m) \<union> set (sorted_pairs m'). plain_entry x \<and> entry_bytes x \<noteq> []"
    using assms(3,4) by (simp add: list_all_iff entry_bytes_def ball_Un)
  from ceremony_entry.stream_inj [OF this] show ?thesis
    using sorted_pairs_unique [OF assms(1,2)] by auto
qed

text \<open>The commitment to a ceremony is canonical, for strings in ASCII whose metadata keys hold no zero character: whatever
  the iteration order of the metadata map on either side, two configurations have the same hashed bytes exactly
  when all their fields agree and their metadata are equal as maps.  The numbers and the labels need no such
  condition, and a zero in a value does no harm.\<close>

theorem ceremony_commitment_canonical:
  assumes "hash_order it" and "hash_order it'" and "ceremony_fits c" and "ceremony_fits c'"
  shows "ceremony_preimage it c = ceremony_preimage it' c' \<longleftrightarrow>
    c' = c\<lparr>vc_metadata := vc_metadata c'\<rparr> \<and> map_of (vc_metadata c) = map_of (vc_metadata c')"
proof -
  have inv: "hm_inv (vc_metadata c)" "hm_inv (vc_metadata c')"
    and plain: "list_all plain_entry (vc_metadata c)" "list_all plain_entry (vc_metadata c')"
    and count: "vc_validator_count c < 2 ^ 64" "vc_validator_count c' < 2 ^ 64"
    and threshold: "vc_threshold c < 2 ^ 64" "vc_threshold c' < 2 ^ 64"
    using assms(3,4) by (auto simp: ceremony_fits_def)
  have "ceremony_preimage it c = ceremony_preimage it' c' \<longleftrightarrow>
      vc_validator_count c = vc_validator_count c' \<and> vc_threshold c = vc_threshold c' \<and>
      vc_protocol c = vc_protocol c' \<and> vc_security c = vc_security c' \<and>
      vc_rotation_period_days c = vc_rotation_period_days c' \<and> vc_require_air_gap c = vc_require_air_gap c' \<and>
      map_of (vc_metadata c) = map_of (vc_metadata c')"
    using le_len_inj [OF _ count] le_len_inj [OF _ threshold] ceremony_metadata_bytes [OF inv plain]
    by (auto simp: ceremony_preimage_def delimited_split sorted_pairs_order [OF assms(1) inv(1)]
        sorted_pairs_order [OF assms(2) inv(2)])
  moreover have "c' = c\<lparr>vc_metadata := vc_metadata c'\<rparr> \<longleftrightarrow>
      vc_validator_count c = vc_validator_count c' \<and> vc_threshold c = vc_threshold c' \<and>
      vc_protocol c = vc_protocol c' \<and> vc_security c = vc_security c' \<and>
      vc_rotation_period_days c = vc_rotation_period_days c' \<and> vc_require_air_gap c = vc_require_air_gap c'"
    by (cases c; cases c') auto
  ultimately show ?thesis by blast
qed

lemma default_ceremony_fits: "ceremony_fits default_validator_ceremony_config"
  by (simp add: ceremony_fits_def default_validator_ceremony_config_def hm_inv_def plain_entry_def ascii_only_def)

theorem ceremony_commitment_canonical_witness:
  "ceremony_preimage (\<lambda>m. m) default_validator_ceremony_config = ceremony_preimage rev default_validator_ceremony_config \<and>
   ceremony_preimage (\<lambda>m. m) default_validator_ceremony_config \<noteq>
     ceremony_preimage rev (default_validator_ceremony_config\<lparr>vc_threshold := 85\<rparr>)"
proof -
  let ?c = "default_validator_ceremony_config"
  have rev: "hash_order rev" by (simp add: hash_order_def)
  have fits: "ceremony_fits (?c\<lparr>vc_threshold := 85\<rparr>)" using default_ceremony_fits by (simp add: ceremony_fits_def)
  have ne: "?c\<lparr>vc_threshold := 85\<rparr> \<noteq> ?c" by (simp add: default_validator_ceremony_config_def)
  show ?thesis
    using ceremony_commitment_canonical [OF hash_order_id rev default_ceremony_fits default_ceremony_fits]
      ceremony_commitment_canonical [OF hash_order_id rev default_ceremony_fits fits] ne by simp
qed

text \<open>A zero character in a key moves the border between key and value: the delimiters do not keep these two
  configurations apart.\<close>

lemma ceremony_commitment_collision:
  "compute_validator_ceremony_commitment sha (\<lambda>m. m) (c\<lparr>vc_metadata := [(''a'' @ [CHR 0x00] @ ''b'', ''c'')]\<rparr>) =
   compute_validator_ceremony_commitment sha (\<lambda>m. m) (c\<lparr>vc_metadata := [(''a'', ''b'' @ [CHR 0x00] @ ''c'')]\<rparr>)"
  by (simp add: compute_validator_ceremony_commitment_def ceremony_preimage_def sorted_pairs_def entry_bytes_def ascii_def)

section \<open>Validation and statistics\<close>

lemma ceremony_valid:
  "validate_validator_ceremony_config c = Inr () \<longleftrightarrow>
     vc_threshold c \<in> {1..vc_validator_count c} \<and> vc_rotation_period_days c \<in> {1..3650} \<and>
     (vc_require_air_gap c \<longrightarrow> vc_security c \<notin> {Standard, Enhanced}) \<and>
     (vc_security c, vc_protocol c) \<noteq> (AirGapped, RemoteHttp) \<and>
     (vc_protocol c \<in> {ThresholdBls, Distributed} \<longrightarrow> 2 \<le> vc_threshold c) \<and>
     (vc_security c = PostQuantum \<longrightarrow> vc_rotation_period_days c \<le> 180)"
proof -
  have air: "security_meets_air_gap_requirement s \<longleftrightarrow> s \<notin> {Standard, Enhanced}" for s
    by (cases s) (simp_all add: security_meets_air_gap_requirement_def)
  have rotation: "d \<in> {1..3650} \<longleftrightarrow> d \<noteq> 0 \<and> \<not> 3650 < d" for d :: u64
    by (auto simp: not_less word_le_nat_alt) (metis One_nat_def Suc_leI unat_gt_0)
  show ?thesis
    unfolding validate_validator_ceremony_config_def finish_ok append_is_Nil_conv err_if_Nil air rotation by auto
qed

lemma default_ceremony_valid: "validate_validator_ceremony_config default_validator_ceremony_config = Inr ()"
  by (simp add: ceremony_valid default_validator_ceremony_config_def word_le_nat_alt)

text \<open>Every key is counted under the label of its signer, and under no other.\<close>

lemma protocol_counts:
  "map_of (fold count_protocol keys m) (protocol_label p) =
     (let n = length (filter (\<lambda>key. vk_signer key = p) keys) in
      if n = 0 then map_of m (protocol_label p) else Some (unwrap_or (map_of m (protocol_label p)) 0 + n))"
  by (induction keys arbitrary: m) (auto simp: count_protocol_def Let_def)

lemma ceremony_distribution:
  "map_of (cs_protocol_distribution (compute_validator_ceremony_stats mean_days keys)) (protocol_label p) =
     (let n = length (filter (\<lambda>key. vk_signer key = p) keys) in if n = 0 then None else Some n)"
  by (simp add: compute_validator_ceremony_stats_def protocol_counts Let_def)

text \<open>A ceremony is complete when some key is active and none is on its way.\<close>

lemma ceremony_complete_iff:
  "cs_ceremony_complete (compute_validator_ceremony_stats mean_days keys) \<longleftrightarrow>
     (\<exists>key \<in> set keys. vk_status key = Active) \<and>
     (\<forall>key \<in> set keys. vk_status key \<notin> {Generated, KeyDistributed, Verified})"
proof -
  have "is_terminal_key_status s \<longleftrightarrow> s \<notin> {Generated, KeyDistributed, Verified}" for s
    by (cases s) (simp_all add: is_terminal_key_status_def)
  then show ?thesis
    by (auto simp: compute_validator_ceremony_stats_def Let_def list_all_iff filter_empty_conv)
qed

text \<open>No age underflows: the newest key has age zero.\<close>

lemma newest_key: "key \<in> set keys \<Longrightarrow> vk_generated_at key \<le> foldr max (map vk_generated_at keys) 0"
  by (induction keys) (auto simp: le_max_iff_disj)

lemma key_ages_exact:
  "key_ages keys = map (\<lambda>key. foldr max (map vk_generated_at keys) 0 - vk_generated_at key) keys"
  using newest_key by (fastforce simp: key_ages_def Let_def sat_sub_def)

end
