(* ===== verification/Rpc_Gateway.thy ===== *)
theory Rpc_Gateway
  imports String_Maps "HOL-Library.Product_Lexorder" "HOL-Library.Option_ord"
begin

text \<open>
  The RPC gateway, \<open>crates/eth2077-types/src/rpc_gateway.rs\<close>: configuration and its validator, access of clients to
  namespaces, and statistics with a commitment.  A 32-byte array is a 256-bit word, whose order is the
  lexicographic order of the bytes.  SHA-256 is the parameter \<open>sha\<close>, \<open>serde_json::to_vec\<close> is \<open>to_json\<close>, and \<open>ratio\<close> is the
  floating-point quotient of two integers.
\<close>

section \<open>Data\<close>

definition RPC_GATEWAY_HASH_DOMAIN :: string where
  "RPC_GATEWAY_HASH_DOMAIN = ''ETH2077-RPC-GATEWAY-STATS-V1''"

definition MAX_REASONABLE_TIMEOUT_MS :: u64 where
  "MAX_REASONABLE_TIMEOUT_MS = 10 * 60 * 1000"

definition MAX_REASONABLE_RATE_LIMIT_RPS :: u64 where
  "MAX_REASONABLE_RATE_LIMIT_RPS = 10000000"

definition MAX_REASONABLE_BATCH_SIZE :: nat where
  "MAX_REASONABLE_BATCH_SIZE = 10000"

datatype AuthMethod = ApiKey | JwtBearer | MutualTls | NoAuth

datatype RateLimitAlgorithm = TokenBucket | SlidingWindow | FixedWindow | LeakyBucket

datatype RpcNamespace = Eth | Net | Web3 | Debug | Admin | Engine | Custom

datatype GatewayHealth = Healthy | Degraded | Overloaded | Unavailable

record RpcEndpoint =
  ep_path :: string
  ep_namespace :: RpcNamespace
  ep_auth_required :: bool
  ep_rate_limit_rps :: u64
  ep_timeout_ms :: u64
  ep_cache_ttl_seconds :: "u64 option"
  ep_enabled :: bool

record RateLimitRule =
  rl_name :: string
  rl_algorithm :: RateLimitAlgorithm
  rl_requests_per_second :: u64
  rl_burst_size :: u64
  rl_per_ip :: bool
  rl_per_api_key :: bool
  rl_penalty_seconds :: u64

record GatewayClient =
  gc_id :: string
  gc_api_key_hash :: B256
  gc_auth_method :: AuthMethod
  gc_allowed_namespaces :: "RpcNamespace list"
  gc_rate_limit_override :: "u64 option"
  gc_created_at_unix :: u64
  gc_last_request_unix :: "u64 option"
  gc_total_requests :: u64
  gc_blocked :: bool

record RpcGatewayConfig =
  gw_listen_address :: string
  gw_listen_port :: "16 word"
  gw_default_auth_method :: AuthMethod
  gw_default_rate_limit_rps :: u64
  gw_rate_limit_algorithm :: RateLimitAlgorithm
  gw_max_connections :: nat
  gw_request_timeout_ms :: u64
  gw_cors_origins :: "string list"
  gw_tls_enabled :: bool
  gw_max_batch_size :: nat

record 'f RpcGatewayStats =
  gws_total_endpoints :: nat
  gws_total_clients :: nat
  gws_blocked_clients :: nat
  gws_total_requests :: u64
  gws_avg_requests_per_client :: 'f
  gws_namespaces_enabled :: nat
  gws_commitment :: B256

definition RpcGatewayConfig_default :: RpcGatewayConfig where
  "RpcGatewayConfig_default =
     \<lparr>gw_listen_address = ''0.0.0.0'', gw_listen_port = 8545, gw_default_auth_method = ApiKey,
      gw_default_rate_limit_rps = 100, gw_rate_limit_algorithm = TokenBucket, gw_max_connections = 1000,
      gw_request_timeout_ms = 30000, gw_cors_origins = [], gw_tls_enabled = True, gw_max_batch_size = 100\<rparr>"

section \<open>Validation and access\<close>

definition is_valid_cors_origin :: "string \<Rightarrow> bool" where
  "is_valid_cors_origin origin \<longleftrightarrow>
     (if origin = ''*'' then True
      else if list_ex is_ascii_whitespace origin then False
      else strip_prefix ''http://'' origin \<noteq> None \<or> strip_prefix ''https://'' origin \<noteq> None)"

definition origin_field :: "nat \<Rightarrow> string" where
  "origin_field index = ''cors_origins['' @ decimal index @ '']''"

definition check_origin :: "string set \<Rightarrow> nat \<times> string \<Rightarrow> FieldError list \<times> string set" where
  "check_origin seen_origins entry =
     (case entry of (index, origin) \<Rightarrow>
        let trimmed = trim origin in
        if trimmed = [] then ([reject_field (origin_field index) ''CORS origin must be non-empty''], seen_origins)
        else
          (let dedupe_key = to_ascii_lowercase trimmed in
           (err_if (\<not> is_valid_cors_origin trimmed) (reject_field (origin_field index)
              (''CORS origin must be '' @ [CHR 0x27] @ ''*'' @ [CHR 0x27] @ '' or start with http:// or https://'')) @
            err_if (dedupe_key \<in> seen_origins) (reject_field (origin_field index) ''duplicate CORS origin''),
            insert dedupe_key seen_origins)))"

definition validate_gateway :: "RpcGatewayConfig \<Rightarrow> FieldError list" where
  "validate_gateway config =
     err_if (trim (gw_listen_address config) = []) (reject_field ''listen_address'' ''listen_address must be non-empty'') @
     err_if (gw_listen_port config = 0) (reject_field ''listen_port'' ''listen_port must be greater than zero'') @
     err_if (gw_default_rate_limit_rps config = 0)
       (reject_field ''default_rate_limit_rps'' ''default_rate_limit_rps must be greater than zero'') @
     err_if (MAX_REASONABLE_RATE_LIMIT_RPS < gw_default_rate_limit_rps config)
       (reject_field ''default_rate_limit_rps'' ''default_rate_limit_rps exceeds conservative upper bound'') @
     err_if (gw_max_connections config = 0)
       (reject_field ''max_connections'' ''max_connections must be greater than zero'') @
     err_if (gw_request_timeout_ms config = 0)
       (reject_field ''request_timeout_ms'' ''request_timeout_ms must be greater than zero'') @
     err_if (MAX_REASONABLE_TIMEOUT_MS < gw_request_timeout_ms config)
       (reject_field ''request_timeout_ms'' ''request_timeout_ms exceeds conservative upper bound'') @
     err_if (gw_max_batch_size config = 0)
       (reject_field ''max_batch_size'' ''max_batch_size must be greater than zero'') @
     err_if (MAX_REASONABLE_BATCH_SIZE < gw_max_batch_size config)
       (reject_field ''max_batch_size'' ''max_batch_size exceeds conservative upper bound'') @
     err_if (gw_default_auth_method config = MutualTls \<and> \<not> gw_tls_enabled config)
       (reject_field ''default_auth_method'' ''MutualTls requires tls_enabled=true'') @
     fst (scan check_origin {} (enumerate 0 (gw_cors_origins config)))"

definition is_allowed :: "GatewayClient \<Rightarrow> RpcNamespace \<Rightarrow> bool" where
  "is_allowed client namespace \<longleftrightarrow>
     (if gc_blocked client then False else namespace \<in> set (gc_allowed_namespaces client))"

section \<open>Statistics and commitment\<close>

fun auth_method_rank :: "AuthMethod \<Rightarrow> u8" where
  "auth_method_rank ApiKey = 0"
| "auth_method_rank JwtBearer = 1"
| "auth_method_rank MutualTls = 2"
| "auth_method_rank NoAuth = 3"

fun namespace_rank :: "RpcNamespace \<Rightarrow> u8" where
  "namespace_rank Eth = 0"
| "namespace_rank Net = 1"
| "namespace_rank Web3 = 2"
| "namespace_rank Debug = 3"
| "namespace_rank Admin = 4"
| "namespace_rank Engine = 5"
| "namespace_rank Custom = 6"

text \<open>\<open>sort_unstable\<close> and \<open>dedup\<close> of the ranks.\<close>

definition sorted_namespace_ranks :: "RpcNamespace list \<Rightarrow> u8 list" where
  "sorted_namespace_ranks namespaces = remdups_adj (sort (map namespace_rank namespaces))"

record CommitmentEndpoint =
  ce_path :: string
  ce_namespace :: u8
  ce_auth_required :: bool
  ce_rate_limit_rps :: u64
  ce_timeout_ms :: u64
  ce_cache_ttl_seconds :: "u64 option"
  ce_enabled :: bool

record CommitmentClient =
  cc_id :: string
  cc_api_key_hash :: B256
  cc_auth_method :: u8
  cc_allowed_namespaces :: "u8 list"
  cc_rate_limit_override :: "u64 option"
  cc_created_at_unix :: u64
  cc_last_request_unix :: "u64 option"
  cc_total_requests :: u64
  cc_blocked :: bool

record CommitmentPayload =
  cp_domain :: string
  cp_total_endpoints :: nat
  cp_total_clients :: nat
  cp_blocked_clients :: nat
  cp_total_requests :: u64
  cp_namespaces_enabled :: nat
  cp_endpoints :: "CommitmentEndpoint list"
  cp_clients :: "CommitmentClient list"

definition endpoint_row :: "RpcEndpoint \<Rightarrow> CommitmentEndpoint" where
  "endpoint_row e =
     \<lparr>ce_path = ep_path e, ce_namespace = namespace_rank (ep_namespace e), ce_auth_required = ep_auth_required e,
      ce_rate_limit_rps = ep_rate_limit_rps e, ce_timeout_ms = ep_timeout_ms e,
      ce_cache_ttl_seconds = ep_cache_ttl_seconds e, ce_enabled = ep_enabled e\<rparr>"

text \<open>The chains of comparisons of the two sorts, as lexicographic orders of tuples.\<close>

definition endpoint_key :: "CommitmentEndpoint \<Rightarrow> string \<times> u8 \<times> bool \<times> u64 \<times> u64 \<times> u64 option \<times> bool" where
  "endpoint_key r =
     (ce_path r, ce_namespace r, ce_auth_required r, ce_rate_limit_rps r, ce_timeout_ms r, ce_cache_ttl_seconds r, ce_enabled r)"

definition client_row :: "GatewayClient \<Rightarrow> CommitmentClient" where
  "client_row c =
     \<lparr>cc_id = gc_id c, cc_api_key_hash = gc_api_key_hash c, cc_auth_method = auth_method_rank (gc_auth_method c),
      cc_allowed_namespaces = sorted_namespace_ranks (gc_allowed_namespaces c),
      cc_rate_limit_override = gc_rate_limit_override c, cc_created_at_unix = gc_created_at_unix c,
      cc_last_request_unix = gc_last_request_unix c, cc_total_requests = gc_total_requests c,
      cc_blocked = gc_blocked c\<rparr>"

definition client_key ::
    "CommitmentClient \<Rightarrow> string \<times> B256 \<times> u8 \<times> u8 list \<times> u64 option \<times> u64 \<times> u64 option \<times> u64 \<times> bool" where
  "client_key r =
     (cc_id r, cc_api_key_hash r, cc_auth_method r, cc_allowed_namespaces r, cc_rate_limit_override r,
      cc_created_at_unix r, cc_last_request_unix r, cc_total_requests r, cc_blocked r)"

definition blocked_count :: "GatewayClient list \<Rightarrow> nat" where
  "blocked_count clients = length (filter gc_blocked clients)"

definition request_total :: "GatewayClient list \<Rightarrow> u64" where
  "request_total clients = fold (\<lambda>client acc. sat_add acc (gc_total_requests client)) clients 0"

definition enabled_namespaces :: "RpcEndpoint list \<Rightarrow> nat" where
  "enabled_namespaces endpoints = card ((\<lambda>e. namespace_rank (ep_namespace e)) ` set (filter ep_enabled endpoints))"

definition commitment_payload :: "RpcEndpoint list \<Rightarrow> GatewayClient list \<Rightarrow> CommitmentPayload" where
  "commitment_payload endpoints clients =
     \<lparr>cp_domain = RPC_GATEWAY_HASH_DOMAIN, cp_total_endpoints = length endpoints, cp_total_clients = length clients,
      cp_blocked_clients = blocked_count clients, cp_total_requests = request_total clients,
      cp_namespaces_enabled = enabled_namespaces endpoints,
      cp_endpoints = sort_key endpoint_key (map endpoint_row endpoints),
      cp_clients = sort_key client_key (map client_row clients)\<rparr>"

definition gateway_compute_stats ::
    "(CommitmentPayload \<Rightarrow> bytes) \<Rightarrow> (bytes \<Rightarrow> B256) \<Rightarrow> (u64 \<Rightarrow> nat \<Rightarrow> 'f::zero) \<Rightarrow>
       RpcEndpoint list \<Rightarrow> GatewayClient list \<Rightarrow> 'f RpcGatewayStats" where
  "gateway_compute_stats to_json sha ratio endpoints clients =
     \<lparr>gws_total_endpoints = length endpoints, gws_total_clients = length clients,
      gws_blocked_clients = blocked_count clients, gws_total_requests = request_total clients,
      gws_avg_requests_per_client = (if clients = [] then 0 else ratio (request_total clients) (length clients)),
      gws_namespaces_enabled = enabled_namespaces endpoints,
      gws_commitment = sha (to_json (commitment_payload endpoints clients))\<rparr>"

section \<open>What the validator accepts\<close>

interpretation origins: lazy_key_scan check_origin "\<lambda>entry. to_ascii_lowercase (trim (snd entry))"
  "\<lambda>entry. trim (snd entry) \<noteq> [] \<and> is_valid_cors_origin (trim (snd entry))"
  by unfold_locales (auto simp: check_origin_def Let_def split: prod.splits)

lemma scan_origins:
  "fst (scan check_origin {} (enumerate n origins)) = [] \<longleftrightarrow>
     (\<forall>origin \<in> set origins. trim origin \<noteq> [] \<and> is_valid_cors_origin (trim origin)) \<and>
     distinct (map (\<lambda>origin. to_ascii_lowercase (trim origin)) origins)"
  unfolding origins.scan_all enumerate_elements [where P = "\<lambda>origin. trim origin \<noteq> [] \<and> is_valid_cors_origin (trim origin)"]
    enumerate_keys [where f = "\<lambda>origin. to_ascii_lowercase (trim origin)"] by (rule refl)

text \<open>A CORS origin of an accepted configuration is the wildcard or an address without white space.\<close>

lemma gateway_valid:
  "validate_gateway c = [] \<longleftrightarrow>
     trim (gw_listen_address c) \<noteq> [] \<and> gw_listen_port c \<noteq> 0 \<and> gw_max_connections c \<noteq> 0 \<and>
     gw_default_rate_limit_rps c \<noteq> 0 \<and> gw_default_rate_limit_rps c \<le> 10000000 \<and>
     gw_request_timeout_ms c \<noteq> 0 \<and> gw_request_timeout_ms c \<le> 600000 \<and> gw_max_batch_size c \<in> {1..10000} \<and>
     (gw_default_auth_method c = MutualTls \<longrightarrow> gw_tls_enabled c) \<and>
     (\<forall>origin \<in> set (gw_cors_origins c). trim origin \<noteq> [] \<and> is_valid_cors_origin (trim origin)) \<and>
     distinct (map (\<lambda>origin. to_ascii_lowercase (trim origin)) (gw_cors_origins c))"
  unfolding validate_gateway_def append_is_Nil_conv err_if_Nil scan_origins MAX_REASONABLE_RATE_LIMIT_RPS_def
    MAX_REASONABLE_TIMEOUT_MS_def MAX_REASONABLE_BATCH_SIZE_def
  by (auto simp: not_less)

lemma default_gateway_valid: "validate_gateway RpcGatewayConfig_default = []"
  by (simp add: gateway_valid RpcGatewayConfig_default_def trim_def is_ascii_whitespace_def word_le_nat_alt)

section \<open>The commitment is canonical\<close>

lemma ranks_inj [simp]:
  "namespace_rank n = namespace_rank n' \<longleftrightarrow> n = n'" "auth_method_rank a = auth_method_rank a' \<longleftrightarrow> a = a'"
  by (cases n; cases n'; simp) (cases a; cases a'; simp)

lemma dedup_sorted: "sorted xs \<Longrightarrow> sorted (remdups_adj xs) \<and> distinct (remdups_adj xs)" for xs :: "'a::linorder list"
proof (induction xs rule: remdups_adj.induct)
  case (3 x y xs)
  then show ?case by (cases "x = y") auto
qed simp_all

lemma namespace_ranks_eq:
  "sorted_namespace_ranks xs = sorted_namespace_ranks ys \<longleftrightarrow> set xs = set ys"
proof
  assume "sorted_namespace_ranks xs = sorted_namespace_ranks ys"
  then have "set (sorted_namespace_ranks xs) = set (sorted_namespace_ranks ys)" by simp
  then have "namespace_rank ` set xs = namespace_rank ` set ys" by (simp add: sorted_namespace_ranks_def)
  then show "set xs = set ys" by (simp add: inj_image_eq_iff inj_def)
next
  assume "set xs = set ys"
  then show "sorted_namespace_ranks xs = sorted_namespace_ranks ys"
    unfolding sorted_namespace_ranks_def
    by (intro sorted_distinct_set_unique) (simp_all add: dedup_sorted)
qed

lemma endpoint_row_inj: "endpoint_row e = endpoint_row e' \<longleftrightarrow> e = e'"
  by (cases e; cases e') (simp add: endpoint_row_def)

lemma row_keys_inj: "inj endpoint_key" "inj client_key"
  by (auto intro!: injI simp: endpoint_key_def client_key_def CommitmentEndpoint.equality CommitmentClient.equality)

lemma sort_rows: "inj key \<Longrightarrow> sort_key key xs = sort_key key ys \<longleftrightarrow> mset xs = mset ys"
proof
  assume "inj key" and "mset xs = mset ys"
  then show "sort_key key xs = sort_key key ys"
    by (intro sort_key_inj_key_eq) (auto intro: inj_on_subset)
qed (metis mset_sort)

lemma image_mset_kernel:
  assumes "\<And>x y. f x = f y \<longleftrightarrow> g x = g y"
  shows "image_mset f M = image_mset f N \<longleftrightarrow> image_mset g M = image_mset g N"
proof -
  have factor: "\<exists>h. \<forall>x. v x = h (u x)" if "\<And>x y. u x = u y \<Longrightarrow> v x = v y" for u :: "'x \<Rightarrow> 'y" and v :: "'x \<Rightarrow> 'z"
    by (rule exI [where x = "\<lambda>y. v (inv u y)"]) (metis f_inv_into_f rangeI that)
  obtain h k where "\<And>x. g x = h (f x)" and "\<And>x. f x = k (g x)"
    using factor [of f g] factor [of g f] assms by metis
  then have "g = h \<circ> f" and "f = k \<circ> g" by (simp_all add: fun_eq_iff)
  then have "image_mset g M = image_mset h (image_mset f M)" and "image_mset f M = image_mset k (image_mset g M)" for M
    by (metis multiset.map_comp)+
  then show ?thesis by metis
qed

text \<open>What counts of a client: its fields, with the list of namespaces as a set.\<close>

definition client_view :: "GatewayClient \<Rightarrow> GatewayClient \<times> RpcNamespace set" where
  "client_view c = (c\<lparr>gc_allowed_namespaces := []\<rparr>, set (gc_allowed_namespaces c))"

lemma client_row_view: "client_row c = client_row c' \<longleftrightarrow> client_view c = client_view c'"
  by (cases c; cases c') (auto simp: client_row_def client_view_def namespace_ranks_eq)

text \<open>The totals do not depend on the order either.\<close>

lemma request_total_sum: "unat (request_total cs) = min (sum_list (map (\<lambda>c. unat (gc_total_requests c)) cs)) (2 ^ 64 - 1)"
  unfolding request_total_def by (subst unat_fold_sat_add) (simp add: comp_def)

lemma client_totals:
  assumes "image_mset client_view (mset cs) = image_mset client_view (mset cs')"
  shows "length cs = length cs'" and "blocked_count cs = blocked_count cs'" and "request_total cs = request_total cs'"
proof -
  have through: "image_mset (\<lambda>c. f (fst (client_view c))) (mset cs) = image_mset (\<lambda>c. f (fst (client_view c))) (mset cs')"
    for f :: "GatewayClient \<Rightarrow> 'x"
    using arg_cong [OF assms, of "image_mset (\<lambda>v. f (fst v))"] by (simp add: multiset.map_comp comp_def)
  show "length cs = length cs'" using arg_cong [OF assms, of size] by simp
  have "mset (map gc_blocked cs) = mset (map gc_blocked cs')"
    using through [of gc_blocked] by (simp add: client_view_def)
  then have "length (filter id (map gc_blocked cs)) = length (filter id (map gc_blocked cs'))"
    by (metis mset_filter size_mset)
  then show "blocked_count cs = blocked_count cs'" by (simp add: blocked_count_def filter_map comp_def)
  have "mset (map (\<lambda>c. unat (gc_total_requests c)) cs) = mset (map (\<lambda>c. unat (gc_total_requests c)) cs')"
    using through [of "\<lambda>c. unat (gc_total_requests c)"] by (simp add: client_view_def)
  then have "sum_list (map (\<lambda>c. unat (gc_total_requests c)) cs) = sum_list (map (\<lambda>c. unat (gc_total_requests c)) cs')"
    by (metis sum_mset_sum_list)
  then show "request_total cs = request_total cs'"
    using request_total_sum [of cs] request_total_sum [of cs'] by (metis unsigned_word_eqI)
qed

lemma endpoint_rows:
  "sort_key endpoint_key (map endpoint_row es) = sort_key endpoint_key (map endpoint_row es') \<longleftrightarrow> mset es = mset es'"
  using image_mset_kernel [of endpoint_row "\<lambda>e. e" "mset es" "mset es'"]
  by (simp add: sort_rows row_keys_inj endpoint_row_inj)

lemma client_rows:
  "sort_key client_key (map client_row cs) = sort_key client_key (map client_row cs') \<longleftrightarrow>
     image_mset client_view (mset cs) = image_mset client_view (mset cs')"
  using image_mset_kernel [of client_row client_view "mset cs" "mset cs'"]
  by (simp add: sort_rows row_keys_inj client_row_view)

lemma endpoint_totals:
  "mset es = mset es' \<Longrightarrow> length es = length es' \<and> enabled_namespaces es = enabled_namespaces es'"
  by (metis enabled_namespaces_def mset_filter set_mset_mset size_mset)

text \<open>C38.  The commitment is stable, as its documentation promises, and it binds: two snapshots have the same
  payload exactly when they hold the same endpoints and the same clients, each as often, in any order, where the
  namespaces of a client count as a set.  Totals, saturation included, add nothing.\<close>

theorem gateway_payload_canonical:
  "commitment_payload endpoints clients = commitment_payload endpoints' clients' \<longleftrightarrow>
     mset endpoints = mset endpoints' \<and> image_mset client_view (mset clients) = image_mset client_view (mset clients')"
  using endpoint_totals [of endpoints endpoints'] client_totals [of clients clients']
  by (auto simp: commitment_payload_def endpoint_rows client_rows)

lemma gateway_stats_order:
  assumes "mset endpoints = mset endpoints'" and "mset clients = mset clients'"
  shows "gateway_compute_stats to_json sha ratio endpoints clients =
    gateway_compute_stats to_json sha ratio endpoints' clients'"
proof -
  have "image_mset client_view (mset clients) = image_mset client_view (mset clients')" using assms(2) by simp
  then have "length clients = length clients'" "blocked_count clients = blocked_count clients'"
    "request_total clients = request_total clients'"
    and rows: "sort_key client_key (map client_row clients) = sort_key client_key (map client_row clients')"
      "sort_key endpoint_key (map endpoint_row endpoints) = sort_key endpoint_key (map endpoint_row endpoints')"
    using assms(1) client_totals [of clients clients'] by (simp_all add: client_rows endpoint_rows)
  moreover from this have "clients = [] \<longleftrightarrow> clients' = []" by (metis length_0_conv)
  ultimately show ?thesis
    using endpoint_totals [OF assms(1)] unfolding gateway_compute_stats_def commitment_payload_def rows by simp
qed

end
