(* ===== verification/Launch_Gate.thy ===== *)
theory Launch_Gate
  imports String_Maps
begin

text \<open>
  The go/no-go gate, \<open>crates/eth2077-types/src/go_nogo_gate.rs\<close>: the launch checklist, the policy and its validator, the
  decision \<open>is_launch_ready\<close>, and statistics with a commitment.  SHA-256 is the parameter \<open>sha\<close>, \<open>serde_json::to_vec\<close> is
  \<open>to_json\<close>, and \<open>ratio\<close> is the floating-point quotient of two integers.
\<close>

section \<open>Data\<close>

datatype LaunchVerdict = Go | NoGo | ConditionalGo | Deferred

datatype ChecklistCategory = Security | Performance | Consensus | Infrastructure | Governance | Testing

datatype SignoffStatus = Pending | Approved | Rejected | Waived

datatype RiskLevel = Critical | High | Medium | Low | Negligible

record ChecklistItem =
  ci_id :: string
  ci_category :: ChecklistCategory
  ci_description :: string
  ci_status :: SignoffStatus
  ci_assignee :: string
  ci_risk_if_skipped :: RiskLevel
  ci_evidence_url :: "string option"
  ci_signed_off_at_unix :: "u64 option"
  ci_notes :: "string option"

record GateDecision =
  gd_gate_name :: string
  gd_verdict :: LaunchVerdict
  gd_decided_at_unix :: u64
  gd_decided_by :: string
  gd_blocking_items :: "string list"
  gd_conditions :: "string list"
  gd_next_review_unix :: "u64 option"

record LaunchChecklist =
  lc_id :: string
  lc_name :: string
  lc_target_network :: string
  lc_items :: "ChecklistItem list"
  lc_gates :: "GateDecision list"
  lc_created_at_unix :: u64
  lc_target_launch_unix :: "u64 option"
  lc_final_verdict :: "LaunchVerdict option"

record GoNogoGateConfig =
  gn_required_go_gates :: nat
  gn_max_conditional_gates :: nat
  gn_required_categories :: "ChecklistCategory list"
  gn_min_signoff_count :: nat
  gn_max_critical_risks_open :: nat
  gn_review_cadence_hours :: u64
  gn_auto_nogo_on_security_fail :: bool

record 'f GoNogoDerivedStats =
  ds_total_items :: nat
  ds_approved_items :: nat
  ds_rejected_items :: nat
  ds_pending_items :: nat
  ds_go_gates :: nat
  ds_nogo_gates :: nat
  ds_critical_risks_open :: nat
  ds_approval_rate :: 'f

record 'f GoNogoGateStats = "'f GoNogoDerivedStats" +
  ds_commitment :: B256

record 'f LaunchPayload =
  lp_checklist_id :: string
  lp_checklist_name :: string
  lp_target_network :: string
  lp_created_at_unix :: u64
  lp_target_launch_unix :: "u64 option"
  lp_final_verdict :: "string option"
  lp_stats :: "'f GoNogoDerivedStats"
  lp_item_signatures :: "string list"
  lp_gate_signatures :: "string list"

definition GoNogoGateConfig_default :: GoNogoGateConfig where
  "GoNogoGateConfig_default =
     \<lparr>gn_required_go_gates = 5, gn_max_conditional_gates = 2,
      gn_required_categories = [Security, Performance, Consensus, Infrastructure, Testing],
      gn_min_signoff_count = 3, gn_max_critical_risks_open = 0, gn_review_cadence_hours = 24,
      gn_auto_nogo_on_security_fail = True\<rparr>"

text \<open>The four \<open>as_str\<close>.\<close>

fun verdict_str :: "LaunchVerdict \<Rightarrow> string" where
  "verdict_str Go = ''go''"
| "verdict_str NoGo = ''nogo''"
| "verdict_str ConditionalGo = ''conditional-go''"
| "verdict_str Deferred = ''deferred''"

fun category_str :: "ChecklistCategory \<Rightarrow> string" where
  "category_str Security = ''security''"
| "category_str Performance = ''performance''"
| "category_str Consensus = ''consensus''"
| "category_str Infrastructure = ''infrastructure''"
| "category_str Governance = ''governance''"
| "category_str Testing = ''testing''"

fun signoff_str :: "SignoffStatus \<Rightarrow> string" where
  "signoff_str Pending = ''pending''"
| "signoff_str Approved = ''approved''"
| "signoff_str Rejected = ''rejected''"
| "signoff_str Waived = ''waived''"

fun risk_str :: "RiskLevel \<Rightarrow> string" where
  "risk_str Critical = ''critical''"
| "risk_str High = ''high''"
| "risk_str Medium = ''medium''"
| "risk_str Low = ''low''"
| "risk_str Negligible = ''negligible''"

definition is_open :: "SignoffStatus \<Rightarrow> bool" where
  "is_open status \<longleftrightarrow> (case status of Pending \<Rightarrow> True | Rejected \<Rightarrow> True | _ \<Rightarrow> False)"

section \<open>The policy\<close>

definition validate_required_go_gates :: "GoNogoGateConfig \<Rightarrow> FieldError list" where
  "validate_required_go_gates config =
     err_if (gn_required_go_gates config = 0)
       (reject_field ''required_go_gates'' ''required_go_gates must be greater than zero'')"

definition validate_conditional_gate_budget :: "GoNogoGateConfig \<Rightarrow> FieldError list" where
  "validate_conditional_gate_budget config =
     err_if (gn_required_go_gates config < gn_max_conditional_gates config)
       (reject_field ''max_conditional_gates''
         ''max_conditional_gates must be less than or equal to required_go_gates'')"

text \<open>The loop that stops at the first category seen before.\<close>

fun has_duplicates :: "ChecklistCategory set \<Rightarrow> ChecklistCategory list \<Rightarrow> bool" where
  "has_duplicates seen [] = False"
| "has_duplicates seen (category # rest) =
     (if category \<in> seen then True else has_duplicates (insert category seen) rest)"

definition validate_required_categories :: "GoNogoGateConfig \<Rightarrow> FieldError list" where
  "validate_required_categories config =
     (if gn_required_categories config = [] then
        [reject_field ''required_categories'' ''required_categories must include at least one category'']
      else err_if (has_duplicates {} (gn_required_categories config))
        (reject_field ''required_categories'' ''required_categories contains duplicate categories''))"

definition validate_signoff_threshold :: "GoNogoGateConfig \<Rightarrow> FieldError list" where
  "validate_signoff_threshold config =
     err_if (gn_min_signoff_count config = 0)
       (reject_field ''min_signoff_count'' ''min_signoff_count must be greater than zero'')"

definition validate_review_cadence :: "GoNogoGateConfig \<Rightarrow> FieldError list" where
  "validate_review_cadence config =
     err_if (gn_review_cadence_hours config = 0)
       (reject_field ''review_cadence_hours'' ''review_cadence_hours must be greater than zero'') @
     err_if (24 * 30 < gn_review_cadence_hours config)
       (reject_field ''review_cadence_hours'' ''review_cadence_hours must be <= 720 hours (30 days)'')"

definition validate_security_policy :: "GoNogoGateConfig \<Rightarrow> FieldError list" where
  "validate_security_policy config =
     err_if (gn_auto_nogo_on_security_fail config \<and> Security \<notin> set (gn_required_categories config))
       (reject_field ''required_categories''
         ''required_categories must include Security when auto_nogo_on_security_fail is true'')"

definition validate_launch_policy :: "GoNogoGateConfig \<Rightarrow> FieldError list" where
  "validate_launch_policy config =
     validate_required_go_gates config @ validate_conditional_gate_budget config @
     validate_required_categories config @ validate_signoff_threshold config @
     validate_review_cadence config @ validate_security_policy config"

section \<open>Statistics and commitment\<close>

definition option_u64_to_string :: "u64 option \<Rightarrow> string" where
  "option_u64_to_string v = (case v of Some n \<Rightarrow> decimal (unat n) | None \<Rightarrow> [])"

definition normalized_item_signature :: "ChecklistItem \<Rightarrow> string" where
  "normalized_item_signature item =
     join ''|'' [ci_id item, category_str (ci_category item), ci_description item, signoff_str (ci_status item),
       ci_assignee item, risk_str (ci_risk_if_skipped item), unwrap_or (ci_evidence_url item) [],
       option_u64_to_string (ci_signed_off_at_unix item), unwrap_or (ci_notes item) []]"

definition normalized_gate_signature :: "GateDecision \<Rightarrow> string" where
  "normalized_gate_signature gate =
     join ''|'' [gd_gate_name gate, verdict_str (gd_verdict gate), decimal (unat (gd_decided_at_unix gate)),
       gd_decided_by gate, join '','' (sort (gd_blocking_items gate)), join '','' (sort (gd_conditions gate)),
       option_u64_to_string (gd_next_review_unix gate)]"

definition derived_stats :: "(nat \<Rightarrow> nat \<Rightarrow> 'f::zero) \<Rightarrow> LaunchChecklist \<Rightarrow> 'f GoNogoDerivedStats" where
  "derived_stats ratio checklist =
     (let items = lc_items checklist; gates = lc_gates checklist;
          approved = length (filter (\<lambda>item. ci_status item = Approved) items)
      in \<lparr>ds_total_items = length items,
          ds_approved_items = approved,
          ds_rejected_items = length (filter (\<lambda>item. ci_status item = Rejected) items),
          ds_pending_items = length (filter (\<lambda>item. ci_status item = Pending) items),
          ds_go_gates = length (filter (\<lambda>gate. gd_verdict gate = Go) gates),
          ds_nogo_gates = length (filter (\<lambda>gate. gd_verdict gate = NoGo) gates),
          ds_critical_risks_open =
            length (filter (\<lambda>item. ci_risk_if_skipped item = Critical \<and> is_open (ci_status item)) items),
          ds_approval_rate = (if items = [] then 0 else ratio approved (length items))\<rparr>)"

definition launch_payload :: "LaunchChecklist \<Rightarrow> 'f GoNogoDerivedStats \<Rightarrow> 'f LaunchPayload" where
  "launch_payload checklist stats =
     \<lparr>lp_checklist_id = lc_id checklist, lp_checklist_name = lc_name checklist,
      lp_target_network = lc_target_network checklist, lp_created_at_unix = lc_created_at_unix checklist,
      lp_target_launch_unix = lc_target_launch_unix checklist,
      lp_final_verdict = map_option verdict_str (lc_final_verdict checklist), lp_stats = stats,
      lp_item_signatures = sort (map normalized_item_signature (lc_items checklist)),
      lp_gate_signatures = sort (map normalized_gate_signature (lc_gates checklist))\<rparr>"

definition launch_commitment ::
    "('f LaunchPayload \<Rightarrow> bytes) \<Rightarrow> (bytes \<Rightarrow> B256) \<Rightarrow> LaunchChecklist \<Rightarrow> 'f GoNogoDerivedStats \<Rightarrow> B256" where
  "launch_commitment to_json sha checklist stats = sha (to_json (launch_payload checklist stats))"

definition launch_compute_stats ::
    "('f LaunchPayload \<Rightarrow> bytes) \<Rightarrow> (bytes \<Rightarrow> B256) \<Rightarrow> (nat \<Rightarrow> nat \<Rightarrow> 'f::zero) \<Rightarrow>
       LaunchChecklist \<Rightarrow> 'f GoNogoGateStats" where
  "launch_compute_stats to_json sha ratio checklist =
     (let derived = derived_stats ratio checklist in
      GoNogoDerivedStats.extend derived \<lparr>ds_commitment = launch_commitment to_json sha checklist derived\<rparr>)"

section \<open>The decision\<close>

definition count_verdict :: "nat \<times> nat \<times> nat \<times> nat \<Rightarrow> GateDecision \<Rightarrow> nat \<times> nat \<times> nat \<times> nat" where
  "count_verdict counts gate =
     (case counts of (go, nogo, conditional, deferred) \<Rightarrow>
        (case gd_verdict gate of
           Go \<Rightarrow> (go + 1, nogo, conditional, deferred)
         | NoGo \<Rightarrow> (go, nogo + 1, conditional, deferred)
         | ConditionalGo \<Rightarrow> (go, nogo, conditional + 1, deferred)
         | Deferred \<Rightarrow> (go, nogo, conditional, deferred + 1)))"

definition gate_verdict_counts :: "LaunchChecklist \<Rightarrow> nat \<times> nat \<times> nat \<times> nat" where
  "gate_verdict_counts checklist = foldl count_verdict (0, 0, 0, 0) (lc_gates checklist)"

definition add_signer :: "ChecklistItem \<Rightarrow> string set \<Rightarrow> string set" where
  "add_signer item signers =
     (if ci_status item \<noteq> Approved then signers
      else let signer = trim (ci_assignee item) in if signer = [] then signers else insert signer signers)"

definition approved_signoff_count :: "LaunchChecklist \<Rightarrow> nat" where
  "approved_signoff_count checklist = card (fold add_signer (lc_items checklist) {})"

definition has_all_required_categories_approved :: "LaunchChecklist \<Rightarrow> ChecklistCategory list \<Rightarrow> bool" where
  "has_all_required_categories_approved checklist required_categories \<longleftrightarrow>
     (let approved_categories = ci_category ` set (filter (\<lambda>item. ci_status item = Approved) (lc_items checklist))
      in list_all (\<lambda>category. category \<in> approved_categories) required_categories)"

definition has_rejected_security_item :: "LaunchChecklist \<Rightarrow> bool" where
  "has_rejected_security_item checklist \<longleftrightarrow>
     list_ex (\<lambda>item. ci_category item = Security \<and> ci_status item = Rejected) (lc_items checklist)"

definition final_verdict_allows_launch :: "LaunchVerdict option \<Rightarrow> bool" where
  "final_verdict_allows_launch verdict \<longleftrightarrow>
     \<not> (case verdict of Some NoGo \<Rightarrow> True | Some Deferred \<Rightarrow> True | _ \<Rightarrow> False)"

definition is_launch_ready ::
    "('f LaunchPayload \<Rightarrow> bytes) \<Rightarrow> (bytes \<Rightarrow> B256) \<Rightarrow> (nat \<Rightarrow> nat \<Rightarrow> 'f::zero) \<Rightarrow>
       LaunchChecklist \<Rightarrow> GoNogoGateConfig \<Rightarrow> bool" where
  "is_launch_ready to_json sha ratio checklist config =
     (if validate_launch_policy config \<noteq> [] then False
      else if lc_items checklist = [] \<or> lc_gates checklist = [] then False
      else if \<not> final_verdict_allows_launch (lc_final_verdict checklist) then False
      else
        (let stats = launch_compute_stats to_json sha ratio checklist in
         case gate_verdict_counts checklist of (go_count, nogo_count, conditional_count, deferred_count) \<Rightarrow>
           if go_count < gn_required_go_gates config then False
           else if gn_max_conditional_gates config < conditional_count then False
           else if 0 < nogo_count \<or> 0 < ds_nogo_gates stats then False
           else if 0 < deferred_count then False
           else if gn_max_critical_risks_open config < ds_critical_risks_open stats then False
           else if approved_signoff_count checklist < gn_min_signoff_count config then False
           else if \<not> has_all_required_categories_approved checklist (gn_required_categories config) then False
           else if gn_auto_nogo_on_security_fail config \<and> has_rejected_security_item checklist then False
           else True))"

section \<open>What a launch needs\<close>

lemma has_duplicates_iff: "has_duplicates seen xs \<longleftrightarrow> \<not> (distinct xs \<and> set xs \<inter> seen = {})"
  by (induction xs arbitrary: seen) auto

lemma launch_policy_valid:
  "validate_launch_policy c = [] \<longleftrightarrow>
     0 < gn_required_go_gates c \<and> gn_max_conditional_gates c \<le> gn_required_go_gates c \<and>
     gn_required_categories c \<noteq> [] \<and> distinct (gn_required_categories c) \<and> 0 < gn_min_signoff_count c \<and>
     gn_review_cadence_hours c \<noteq> 0 \<and> gn_review_cadence_hours c \<le> 720 \<and>
     (gn_auto_nogo_on_security_fail c \<longrightarrow> Security \<in> set (gn_required_categories c))"
  by (auto simp: validate_launch_policy_def validate_required_go_gates_def validate_conditional_gate_budget_def
      validate_required_categories_def validate_signoff_threshold_def validate_review_cadence_def
      validate_security_policy_def has_duplicates_iff not_less)

lemma default_policy_valid: "validate_launch_policy GoNogoGateConfig_default = []"
  by (simp add: launch_policy_valid GoNogoGateConfig_default_def word_le_nat_alt)

abbreviation gates_with :: "LaunchVerdict \<Rightarrow> LaunchChecklist \<Rightarrow> nat" where
  "gates_with v c \<equiv> length (filter (\<lambda>gate. gd_verdict gate = v) (lc_gates c))"

lemma fold_verdicts:
  "foldl count_verdict (a, b, c, d) gates =
     (a + length (filter (\<lambda>g. gd_verdict g = Go) gates), b + length (filter (\<lambda>g. gd_verdict g = NoGo) gates),
      c + length (filter (\<lambda>g. gd_verdict g = ConditionalGo) gates), d + length (filter (\<lambda>g. gd_verdict g = Deferred) gates))"
  by (induction gates arbitrary: a b c d) (auto simp: count_verdict_def split: LaunchVerdict.splits)

lemma verdict_counts:
  "gate_verdict_counts c = (gates_with Go c, gates_with NoGo c, gates_with ConditionalGo c, gates_with Deferred c)"
  by (simp add: gate_verdict_counts_def fold_verdicts)

text \<open>The people who approved something.\<close>

definition signers :: "LaunchChecklist \<Rightarrow> string set" where
  "signers c = (\<lambda>item. trim (ci_assignee item)) ` set (filter (\<lambda>item. ci_status item = Approved) (lc_items c)) - {[]}"

lemma fold_signers:
  "fold add_signer items s = s \<union> ((\<lambda>item. trim (ci_assignee item)) ` set (filter (\<lambda>item. ci_status item = Approved) items) - {[]})"
  by (induction items arbitrary: s) (auto simp: add_signer_def Let_def)

lemma signoff_count: "approved_signoff_count c = card (signers c)"
  by (simp add: approved_signoff_count_def fold_signers signers_def)

lemma stats_of_checklist:
  "ds_nogo_gates (launch_compute_stats to_json sha ratio c) = gates_with NoGo c"
  "ds_critical_risks_open (launch_compute_stats to_json sha ratio c) =
     length (filter (\<lambda>item. ci_risk_if_skipped item = Critical \<and> is_open (ci_status item)) (lc_items c))"
  by (simp_all add: launch_compute_stats_def derived_stats_def Let_def GoNogoDerivedStats.defs)

lemma open_iff: "is_open s \<longleftrightarrow> s \<in> {Pending, Rejected}"
  by (cases s) (simp_all add: is_open_def)

lemma final_verdict_iff: "final_verdict_allows_launch v \<longleftrightarrow> v \<notin> {Some NoGo, Some Deferred}"
  by (auto simp: final_verdict_allows_launch_def split: option.splits LaunchVerdict.splits)

lemma no_such_gate: "gates_with v c = 0 \<longleftrightarrow> (\<forall>gate \<in> set (lc_gates c). gd_verdict gate \<noteq> v)"
  by (simp add: filter_empty_conv)

lemma only_go:
  "(\<forall>gate \<in> set gs. gd_verdict gate \<in> {Go, ConditionalGo}) \<longleftrightarrow>
     (\<forall>gate \<in> set gs. gd_verdict gate \<noteq> NoGo) \<and> (\<forall>gate \<in> set gs. gd_verdict gate \<noteq> Deferred)"
proof -
  have "v \<in> {Go, ConditionalGo} \<longleftrightarrow> v \<noteq> NoGo \<and> v \<noteq> Deferred" for v by (cases v) simp_all
  then show ?thesis by blast
qed

lemma guard_conj: "(if a then False else b) \<longleftrightarrow> \<not> a \<and> b"
  by simp

definition ready_spec :: "LaunchChecklist \<Rightarrow> GoNogoGateConfig \<Rightarrow> bool" where
  "ready_spec c policy \<longleftrightarrow>
     lc_items c \<noteq> [] \<and> (\<forall>gate \<in> set (lc_gates c). gd_verdict gate \<in> {Go, ConditionalGo}) \<and>
     gn_required_go_gates policy \<le> gates_with Go c \<and> gates_with ConditionalGo c \<le> gn_max_conditional_gates policy \<and>
     lc_final_verdict c \<notin> {Some NoGo, Some Deferred} \<and>
     length (filter (\<lambda>item. ci_risk_if_skipped item = Critical \<and> ci_status item \<in> {Pending, Rejected}) (lc_items c))
       \<le> gn_max_critical_risks_open policy \<and>
     gn_min_signoff_count policy \<le> card (signers c) \<and>
     (\<forall>category \<in> set (gn_required_categories policy).
        \<exists>item \<in> set (lc_items c). ci_category item = category \<and> ci_status item = Approved) \<and>
     (gn_auto_nogo_on_security_fail policy \<longrightarrow>
        (\<forall>item \<in> set (lc_items c). ci_category item = Security \<longrightarrow> ci_status item \<noteq> Rejected))"

lemma ready_iff:
  "is_launch_ready to_json sha ratio c policy \<longleftrightarrow> validate_launch_policy policy = [] \<and> ready_spec c policy"
proof -
  have gates: "lc_gates c \<noteq> []" if "validate_launch_policy policy = []" "gn_required_go_gates policy \<le> gates_with Go c"
    using that by (auto simp: launch_policy_valid)
  have categories: "has_all_required_categories_approved c cats \<longleftrightarrow>
      (\<forall>category \<in> set cats. \<exists>item \<in> set (lc_items c). ci_category item = category \<and> ci_status item = Approved)" for cats
    by (auto simp: has_all_required_categories_approved_def Let_def list_all_iff)
  have security: "has_rejected_security_item c \<longleftrightarrow>
      \<not> (\<forall>item \<in> set (lc_items c). ci_category item = Security \<longrightarrow> ci_status item \<noteq> Rejected)"
    by (auto simp: has_rejected_security_item_def list_ex_iff)
  show ?thesis
    unfolding is_launch_ready_def ready_spec_def Let_def verdict_counts prod.case stats_of_checklist signoff_count open_iff
      final_verdict_iff categories security only_go no_such_gate [symmetric] guard_conj not_less not_gr_zero de_Morgan_disj
    using gates by blast
qed

text \<open>Approving items.\<close>

definition approve :: "(ChecklistItem \<Rightarrow> bool) \<Rightarrow> LaunchChecklist \<Rightarrow> LaunchChecklist" where
  "approve P c = c\<lparr>lc_items := map (\<lambda>item. if P item then item\<lparr>ci_status := Approved\<rparr> else item) (lc_items c)\<rparr>"

lemma length_filter_map_le:
  "(\<And>x. Q (f x) \<Longrightarrow> Q x) \<Longrightarrow> length (filter Q (map f xs)) \<le> length (filter Q xs)"
  by (induction xs) (auto intro: le_SucI)

lemma approved_signers: "card (signers c) \<le> card (signers (approve P c))"
proof (rule card_mono)
  show "finite (signers (approve P c))" by (simp add: signers_def)
  show "signers c \<subseteq> signers (approve P c)"
    by (force simp: signers_def approve_def)
qed

lemma approve_keeps_ready:
  assumes "ready_spec c policy"
  shows "ready_spec (approve P c) policy"
proof -
  let ?f = "\<lambda>item. if P item then item\<lparr>ci_status := Approved\<rparr> else item"
  let ?open = "\<lambda>item. ci_risk_if_skipped item = Critical \<and> ci_status item \<in> {Pending, Rejected}"
  have "length (filter ?open (map ?f (lc_items c))) \<le> length (filter ?open (lc_items c))"
    by (rule length_filter_map_le) (auto split: if_splits)
  then have critical: "length (filter ?open (map ?f (lc_items c))) \<le> gn_max_critical_risks_open policy"
    using assms unfolding ready_spec_def by linarith
  have categories: "\<forall>category \<in> set (gn_required_categories policy).
      \<exists>item \<in> set (map ?f (lc_items c)). ci_category item = category \<and> ci_status item = Approved"
  proof
    fix category assume "category \<in> set (gn_required_categories policy)"
    then obtain item where "item \<in> set (lc_items c)" "ci_category item = category" "ci_status item = Approved"
      using assms unfolding ready_spec_def by blast
    then show "\<exists>item \<in> set (map ?f (lc_items c)). ci_category item = category \<and> ci_status item = Approved"
      by (intro bexI [of _ "?f item"]) simp_all
  qed
  have security: "\<forall>item \<in> set (map ?f (lc_items c)). ci_category item = Security \<longrightarrow> ci_status item \<noteq> Rejected"
    if "gn_auto_nogo_on_security_fail policy"
    using assms that unfolding ready_spec_def by auto
  have signed: "gn_min_signoff_count policy \<le> card (signers (approve P c))"
    using assms approved_signers [of c P] unfolding ready_spec_def by linarith
  have "lc_items (approve P c) = map ?f (lc_items c)" and "lc_gates (approve P c) = lc_gates c"
    and "lc_final_verdict (approve P c) = lc_final_verdict c"
    by (simp_all add: approve_def)
  then show ?thesis
    using assms critical categories security signed unfolding ready_spec_def by (simp only: map_is_Nil_conv) blast
qed

text \<open>C29.  The decision is what the policy says, and it is monotone.  A checklist is ready exactly when the policy itself
  is valid, no gate is closed or deferred, enough gates are open without condition and not too many with one, no
  final verdict forbids the launch, few enough critical items are open, enough different people have approved
  something, every required category has an approved item, and, if the policy asks for it, no security item was
  rejected (\<open>ready_spec\<close>).  Approving more items never makes a ready checklist unready.\<close>

theorem launch_ready_spec:
  "(is_launch_ready to_json sha ratio c policy \<longleftrightarrow> validate_launch_policy policy = [] \<and> ready_spec c policy) \<and>
   (is_launch_ready to_json sha ratio c policy \<longrightarrow> is_launch_ready to_json sha ratio (approve P c) policy)"
  using approve_keeps_ready by (simp add: ready_iff)

definition example_item :: ChecklistItem where
  "example_item =
     \<lparr>ci_id = ''s1'', ci_category = Security, ci_description = ''audit'', ci_status = Approved, ci_assignee = ''ann'',
      ci_risk_if_skipped = Critical, ci_evidence_url = None, ci_signed_off_at_unix = Some 5, ci_notes = None\<rparr>"

definition example_checklist :: LaunchChecklist where
  "example_checklist =
     \<lparr>lc_id = ''c1'', lc_name = ''launch'', lc_target_network = ''testnet'',
      lc_items = [example_item, example_item\<lparr>ci_category := Testing, ci_status := Pending, ci_risk_if_skipped := Low\<rparr>],
      lc_gates = [\<lparr>gd_gate_name = ''g1'', gd_verdict = Go, gd_decided_at_unix = 7, gd_decided_by = ''ann'',
        gd_blocking_items = [], gd_conditions = [], gd_next_review_unix = None\<rparr>],
      lc_created_at_unix = 1, lc_target_launch_unix = None, lc_final_verdict = None\<rparr>"

definition example_policy :: GoNogoGateConfig where
  "example_policy = \<lparr>gn_required_go_gates = 1, gn_max_conditional_gates = 0, gn_required_categories = [Security],
      gn_min_signoff_count = 1, gn_max_critical_risks_open = 0, gn_review_cadence_hours = 24,
      gn_auto_nogo_on_security_fail = True\<rparr>"

lemma example_signers: "signers example_checklist = {''ann''}"
  by (auto simp: signers_def example_checklist_def example_item_def trim_def is_ascii_whitespace_def)

theorem launch_ready_spec_witness:
  "is_launch_ready (\<lambda>_. []) (\<lambda>_. 0) (\<lambda>_ _. 0 :: nat) example_checklist example_policy \<and>
   is_launch_ready (\<lambda>_. []) (\<lambda>_. 0) (\<lambda>_ _. 0 :: nat) (approve (\<lambda>_. True) example_checklist) example_policy"
proof -
  have "validate_launch_policy example_policy = []"
    by (simp add: launch_policy_valid example_policy_def word_le_nat_alt)
  moreover have "ready_spec example_checklist example_policy"
    by (simp add: ready_spec_def example_signers) (simp add: example_policy_def example_checklist_def example_item_def)
  ultimately show ?thesis
    using launch_ready_spec [of "\<lambda>_. []" "\<lambda>_. 0" "\<lambda>_ _. 0 :: nat" example_checklist example_policy "\<lambda>_. True"] by blast
qed

section \<open>The commitment\<close>

text \<open>The commitment does not depend on the order of items and gates; but the separators of a signature are not
  escaped, so that two different items can have one signature.\<close>

lemma sort_maps: "mset xs = mset ys \<Longrightarrow> sort (map f xs) = sort (map f ys)"
  by (metis mset_map mset_sort properties_for_sort sorted_sort)

lemma launch_payload_order:
  assumes "mset (lc_items c) = mset items" and "mset (lc_gates c) = mset gates"
  shows "launch_payload (c\<lparr>lc_items := items, lc_gates := gates\<rparr>) stats = launch_payload c stats"
proof -
  have "sort (map normalized_item_signature (lc_items c)) = sort (map normalized_item_signature items)"
    and "sort (map normalized_gate_signature (lc_gates c)) = sort (map normalized_gate_signature gates)"
    using assms sort_maps by blast+
  then show ?thesis by (simp add: launch_payload_def)
qed

lemma item_signature_collision:
  "normalized_item_signature (item\<lparr>ci_evidence_url := Some ''u|'', ci_signed_off_at_unix := None, ci_notes := Some ''n''\<rparr>) =
   normalized_item_signature (item\<lparr>ci_evidence_url := Some ''u'', ci_signed_off_at_unix := None, ci_notes := Some ''|n''\<rparr>)"
  by (simp add: normalized_item_signature_def option_u64_to_string_def)

end
