(* ===== verification/Claim_Integrity.thy ===== *)
theory Claim_Integrity
  imports String_Maps
begin

text \<open>
  Performance claims and their evidence, \<open>crates/eth2077-types/src/claim_integrity.rs\<close>: milestones, signed artifacts,
  the status a milestone has reached, and the commitment to a set of artifacts.  Throughput figures are floating
  point: they are of an arbitrary type, compared by the parameter \<open>at_least\<close>, with \<open>zero_tps\<close> for \<open>0.0\<close>.  The coverage of a
  milestone is a quotient of two small integers that is compared with \<open>0.0\<close> and \<open>1.0\<close> only, for which
  floating-point division is exact; here the integers are compared.  The clock is the argument \<open>now_unix\<close>.
\<close>

section \<open>Data\<close>

definition MAX_ARTIFACT_AGE_HOURS :: u64 where
  "MAX_ARTIFACT_AGE_HOURS = 24 * 30"

datatype ArtifactKind =
  BenchmarkResult | FormalProof | TestVectorPass | HiveConformance | ShadowForkResult | CrossClientReplay

datatype GateStatus = NotStarted | Draft | Partial | SpecComplete | InteropPassed | ProductionReady

datatype SignatureScheme = Ed25519 | Secp256k1 | BLS12_381 | Multisig

fun artifact_kind_discriminant :: "ArtifactKind \<Rightarrow> u8" where
  "artifact_kind_discriminant BenchmarkResult = 0"
| "artifact_kind_discriminant FormalProof = 1"
| "artifact_kind_discriminant TestVectorPass = 2"
| "artifact_kind_discriminant HiveConformance = 3"
| "artifact_kind_discriminant ShadowForkResult = 4"
| "artifact_kind_discriminant CrossClientReplay = 5"

fun signature_scheme_discriminant :: "SignatureScheme \<Rightarrow> u8" where
  "signature_scheme_discriminant Ed25519 = 0"
| "signature_scheme_discriminant Secp256k1 = 1"
| "signature_scheme_discriminant BLS12_381 = 2"
| "signature_scheme_discriminant Multisig = 3"

fun gate_status_discriminant :: "GateStatus \<Rightarrow> u8" where
  "gate_status_discriminant NotStarted = 0"
| "gate_status_discriminant Draft = 1"
| "gate_status_discriminant Partial = 2"
| "gate_status_discriminant SpecComplete = 3"
| "gate_status_discriminant InteropPassed = 4"
| "gate_status_discriminant ProductionReady = 5"

lemma claim_discriminants_inj [simp]:
  "artifact_kind_discriminant k = artifact_kind_discriminant k' \<longleftrightarrow> k = k'"
  "signature_scheme_discriminant s = signature_scheme_discriminant s' \<longleftrightarrow> s = s'"
  "gate_status_discriminant g = gate_status_discriminant g' \<longleftrightarrow> g = g'"
  subgoal by (cases k; cases k'; simp)
  subgoal by (cases s; cases s'; simp)
  subgoal by (cases g; cases g'; simp)
  done

text \<open>The derived order of a status is the order of its declaration.\<close>

instantiation GateStatus :: linorder
begin

definition less_eq_GateStatus :: "GateStatus \<Rightarrow> GateStatus \<Rightarrow> bool" where
  "less_eq_GateStatus a b \<longleftrightarrow> gate_status_discriminant a \<le> gate_status_discriminant b"

definition less_GateStatus :: "GateStatus \<Rightarrow> GateStatus \<Rightarrow> bool" where
  "less_GateStatus a b \<longleftrightarrow> gate_status_discriminant a < gate_status_discriminant b"

instance
proof
  fix x y z :: GateStatus
  show "x < y \<longleftrightarrow> x \<le> y \<and> \<not> y \<le> x"
    unfolding less_eq_GateStatus_def less_GateStatus_def by (rule less_le_not_le)
  show "x \<le> x" by (simp add: less_eq_GateStatus_def)
  show "x \<le> y \<Longrightarrow> y \<le> z \<Longrightarrow> x \<le> z" by (simp add: less_eq_GateStatus_def)
  show "x \<le> y \<Longrightarrow> y \<le> x \<Longrightarrow> x = y" by (metis claim_discriminants_inj(3) less_eq_GateStatus_def order.antisym)
  show "x \<le> y \<or> y \<le> x" unfolding less_eq_GateStatus_def by (rule linear)
qed

end

record SignedArtifact =
  sa_kind :: ArtifactKind
  sa_payload_hash :: B256
  sa_signature_scheme :: SignatureScheme
  sa_signer_id :: string
  sa_timestamp_unix :: u64
  sa_metadata :: string
  sa_gate_status :: GateStatus

record 'f MilestoneGate =
  mg_milestone_name :: string
  mg_required_artifacts :: "ArtifactKind list"
  mg_achieved_artifacts :: "SignedArtifact list"
  mg_target_tps :: 'f
  mg_measured_tps :: "'f option"
  mg_gate_status :: GateStatus

record 'f ClaimIntegrityConfig =
  ci_milestones :: "'f MilestoneGate list"
  ci_require_all_gates :: bool
  ci_min_signers :: nat
  ci_allowed_schemes :: "SignatureScheme list"

datatype ClaimValidationError = EmptyMilestones | NoSigners | DuplicateArtifact | InvalidSignatureScheme
  | MissingRequiredArtifact ArtifactKind string
  | StaleArtifact u64 u64

record 'f ClaimIntegrityStats =
  cis_total_milestones :: nat
  cis_gates_passed :: nat
  cis_gates_failed :: nat
  cis_coverage_ratio :: 'f
  cis_strongest_gate :: string
  cis_weakest_gate :: string
  cis_overall_status :: GateStatus

text \<open>The default takes the two targets, \<open>50_000.0\<close> and \<open>100_000.0\<close>, as arguments.\<close>

definition default_claim_integrity_config :: "'f \<Rightarrow> 'f \<Rightarrow> 'f ClaimIntegrityConfig" where
  "default_claim_integrity_config tps_50k tps_100k =
     \<lparr>ci_milestones =
        [\<lparr>mg_milestone_name = ''TPS 50k qualification'',
          mg_required_artifacts = [BenchmarkResult, FormalProof, TestVectorPass], mg_achieved_artifacts = [],
          mg_target_tps = tps_50k, mg_measured_tps = None, mg_gate_status = NotStarted\<rparr>,
         \<lparr>mg_milestone_name = ''TPS 100k interop'',
          mg_required_artifacts = [BenchmarkResult, HiveConformance, CrossClientReplay, ShadowForkResult],
          mg_achieved_artifacts = [], mg_target_tps = tps_100k, mg_measured_tps = None, mg_gate_status = NotStarted\<rparr>],
      ci_require_all_gates = True, ci_min_signers = 2,
      ci_allowed_schemes = [Ed25519, Secp256k1, BLS12_381, Multisig]\<rparr>"

section \<open>Validation\<close>

type_synonym artifact_identity = "ArtifactKind \<times> B256 \<times> string"

definition check_artifact ::
    "u64 \<Rightarrow> SignatureScheme set \<Rightarrow> artifact_identity set \<Rightarrow> SignedArtifact \<Rightarrow>
       ClaimValidationError list \<times> artifact_identity set" where
  "check_artifact now_unix allowed seen artifact =
     (let identity = (sa_kind artifact, sa_payload_hash artifact, sa_signer_id artifact);
          age_hours = (now_unix - sa_timestamp_unix artifact) div 3600
      in (err_if (sa_signature_scheme artifact \<notin> allowed) InvalidSignatureScheme @
          err_if (identity \<in> seen) DuplicateArtifact @
          err_if (sa_timestamp_unix artifact < now_unix \<and> MAX_ARTIFACT_AGE_HOURS < age_hours)
            (StaleArtifact age_hours MAX_ARTIFACT_AGE_HOURS),
          insert identity seen))"

text \<open>\<open>required\<close> is a hash set, iterated in the order \<open>it\<close>.\<close>

definition check_milestone ::
    "(ArtifactKind list \<Rightarrow> ArtifactKind list) \<Rightarrow> u64 \<Rightarrow> SignatureScheme set \<Rightarrow> 'f MilestoneGate \<Rightarrow>
       ClaimValidationError list" where
  "check_milestone it now_unix allowed gate =
     (let achieved_kinds = sa_kind ` set (mg_achieved_artifacts gate) in
      fst (scan (check_artifact now_unix allowed) {} (mg_achieved_artifacts gate)) @
      (if SpecComplete \<le> mg_gate_status gate then
         concat (map (\<lambda>kind. err_if (kind \<notin> achieved_kinds) (MissingRequiredArtifact kind (mg_milestone_name gate)))
           (it (remdups (mg_required_artifacts gate))))
       else []))"

definition validate_claim_config ::
    "(ArtifactKind list \<Rightarrow> ArtifactKind list) \<Rightarrow> u64 \<Rightarrow> 'f ClaimIntegrityConfig \<Rightarrow> ClaimValidationError list + unit" where
  "validate_claim_config it now_unix config =
     finish (
       err_if (ci_milestones config = []) EmptyMilestones @
       err_if (ci_min_signers config = 0) NoSigners @
       concat (map (check_milestone it now_unix (set (ci_allowed_schemes config))) (ci_milestones config)))"

section \<open>The status of a milestone\<close>

definition evaluate_milestone_gate ::
    "('f \<Rightarrow> 'f \<Rightarrow> bool) \<Rightarrow> 'f \<Rightarrow> 'f MilestoneGate \<Rightarrow> SignatureScheme list \<Rightarrow> nat \<Rightarrow> GateStatus" where
  "evaluate_milestone_gate at_least zero_tps gate allowed_schemes min_signers =
     (let allowed = set allowed_schemes;
          required = set (mg_required_artifacts gate);
          achieved_allowed = filter (\<lambda>artifact. sa_signature_scheme artifact \<in> allowed) (mg_achieved_artifacts gate);
          covered_required = {kind \<in> sa_kind ` set achieved_allowed. kind \<in> required};
          signers = sa_signer_id ` set achieved_allowed
      in if achieved_allowed = [] then NotStarted
         else if required \<noteq> {} \<and> card covered_required = 0 then Draft
         else if required \<noteq> {} \<and> card covered_required < card required then Partial
         else if card signers < min_signers then SpecComplete
         else if \<not> at_least (unwrap_or (mg_measured_tps gate) zero_tps) (mg_target_tps gate) then SpecComplete
         else if list_all (\<lambda>artifact. ProductionReady \<le> sa_gate_status artifact)
              (filter (\<lambda>artifact. sa_kind artifact \<in> required) achieved_allowed) \<and>
            min (min_signers * 2) (2 ^ 64 - 1) \<le> card signers then ProductionReady
         else InteropPassed)"

text \<open>The loop for the strongest and the weakest gate: names and statuses so far.\<close>

definition track_extremes ::
    "(string \<times> string \<times> GateStatus \<times> GateStatus) \<Rightarrow> nat \<times> string \<times> GateStatus \<Rightarrow>
       string \<times> string \<times> GateStatus \<times> GateStatus" where
  "track_extremes s entry =
     (case (s, entry) of ((strongest_gate, weakest_gate, strongest_status, weakest_status), (idx, name, status)) \<Rightarrow>
        let (strongest_gate', strongest_status') =
              (if idx = 0 \<or> strongest_status < status then (name, status) else (strongest_gate, strongest_status));
            (weakest_gate', weakest_status') =
              (if idx = 0 \<or> status < weakest_status then (name, status) else (weakest_gate, weakest_status))
        in (strongest_gate', weakest_gate', strongest_status', weakest_status'))"

definition compute_claim_integrity_stats ::
    "('f \<Rightarrow> 'f \<Rightarrow> bool) \<Rightarrow> (nat \<Rightarrow> nat \<Rightarrow> 'f) \<Rightarrow> 'f \<Rightarrow> 'f ClaimIntegrityConfig \<Rightarrow> 'f ClaimIntegrityStats" where
  "compute_claim_integrity_stats at_least ratio zero_tps config =
     (let statuses = map (\<lambda>gate. evaluate_milestone_gate at_least zero_tps gate (ci_allowed_schemes config)
            (ci_min_signers config)) (ci_milestones config);
          gates_passed = length (filter (\<lambda>status. InteropPassed \<le> status) statuses);
          (strongest_gate, weakest_gate, _, _) =
            foldl track_extremes ([], [], NotStarted, ProductionReady)
              (enumerate 0 (zip (map mg_milestone_name (ci_milestones config)) statuses))
      in \<lparr>cis_total_milestones = length statuses,
          cis_gates_passed = gates_passed,
          cis_gates_failed = length statuses - gates_passed,
          cis_coverage_ratio = (if statuses = [] then zero_tps else ratio gates_passed (length statuses)),
          cis_strongest_gate = strongest_gate,
          cis_weakest_gate = weakest_gate,
          cis_overall_status =
            (if statuses = [] then NotStarted
             else if ci_require_all_gates config then Min (set statuses) else Max (set statuses))\<rparr>)"

section \<open>The commitment\<close>

definition artifact_preimage :: "SignedArtifact \<Rightarrow> bytes" where
  "artifact_preimage artifact =
     [artifact_kind_discriminant (sa_kind artifact)] @ be_bytes (sa_payload_hash artifact) @
     [signature_scheme_discriminant (sa_signature_scheme artifact)] @
     len_prefixed (sa_signer_id artifact) @ be_bytes (sa_timestamp_unix artifact) @
     len_prefixed (sa_metadata artifact) @ [gate_status_discriminant (sa_gate_status artifact)]"

definition claim_preimage :: "(bytes \<Rightarrow> B256) \<Rightarrow> SignedArtifact list \<Rightarrow> bytes" where
  "claim_preimage sha artifacts =
     ascii ''eth2077-claim-integrity-v1'' @
     counted be_bytes (sort (map (\<lambda>artifact. sha (artifact_preimage artifact)) artifacts))"

definition compute_claim_commitment :: "(bytes \<Rightarrow> B256) \<Rightarrow> SignedArtifact list \<Rightarrow> B256" where
  "compute_claim_commitment sha artifacts = sha (claim_preimage sha artifacts)"

section \<open>What a passed gate means\<close>

text \<open>The artifacts that count, and what a gate needs from them.\<close>

definition counted_artifacts :: "'f MilestoneGate \<Rightarrow> SignatureScheme list \<Rightarrow> SignedArtifact set" where
  "counted_artifacts gate schemes = {a \<in> set (mg_achieved_artifacts gate). sa_signature_scheme a \<in> set schemes}"

definition gate_passed :: "('f \<Rightarrow> 'f \<Rightarrow> bool) \<Rightarrow> 'f \<Rightarrow> 'f MilestoneGate \<Rightarrow> SignatureScheme list \<Rightarrow> nat \<Rightarrow> bool" where
  "gate_passed at_least zero_tps gate schemes min_signers \<longleftrightarrow>
     counted_artifacts gate schemes \<noteq> {} \<and>
     set (mg_required_artifacts gate) \<subseteq> sa_kind ` counted_artifacts gate schemes \<and>
     min_signers \<le> card (sa_signer_id ` counted_artifacts gate schemes) \<and>
     at_least (unwrap_or (mg_measured_tps gate) zero_tps) (mg_target_tps gate)"

lemma status_order [simp]:
  "InteropPassed \<le> status \<longleftrightarrow> status \<in> {InteropPassed, ProductionReady}"
  by (cases status) (simp_all add: less_eq_GateStatus_def word_le_nat_alt)

lemma covered_all:
  assumes "finite R"
  shows "\<not> (R \<noteq> {} \<and> card {k \<in> K. k \<in> R} = 0) \<and> \<not> (R \<noteq> {} \<and> card {k \<in> K. k \<in> R} < card R) \<longleftrightarrow> R \<subseteq> K"
proof -
  have sub: "{k \<in> K. k \<in> R} \<subseteq> R" by blast
  then have "card {k \<in> K. k \<in> R} < card R \<longleftrightarrow> {k \<in> K. k \<in> R} \<noteq> R"
    using assms by (metis card_subset_eq card_mono le_neq_implies_less less_irrefl)
  moreover have "{k \<in> K. k \<in> R} = R \<longleftrightarrow> R \<subseteq> K" by blast
  moreover have "R \<noteq> {} \<Longrightarrow> 0 < card R" using assms by (simp add: card_gt_0_iff)
  ultimately show ?thesis by (cases "R = {}") auto
qed

lemma passed_iff:
  "InteropPassed \<le> evaluate_milestone_gate at_least zero_tps gate schemes min_signers \<longleftrightarrow>
     gate_passed at_least zero_tps gate schemes min_signers"
proof -
  let ?achieved = "filter (\<lambda>a. sa_signature_scheme a \<in> set schemes) (mg_achieved_artifacts gate)"
  let ?R = "set (mg_required_artifacts gate)" and ?C = "{kind \<in> sa_kind ` set ?achieved. kind \<in> set (mg_required_artifacts gate)}"
  have set: "set ?achieved = counted_artifacts gate schemes" by (simp add: counted_artifacts_def)
  then have empty: "?achieved = [] \<longleftrightarrow> counted_artifacts gate schemes = {}" by (metis set_empty)
  have "InteropPassed \<le> evaluate_milestone_gate at_least zero_tps gate schemes min_signers \<longleftrightarrow>
      ?achieved \<noteq> [] \<and> (\<not> (?R \<noteq> {} \<and> card ?C = 0) \<and> \<not> (?R \<noteq> {} \<and> card ?C < card ?R)) \<and>
      \<not> card (sa_signer_id ` set ?achieved) < min_signers \<and>
      at_least (unwrap_or (mg_measured_tps gate) zero_tps) (mg_target_tps gate)"
    unfolding evaluate_milestone_gate_def Let_def status_order by (simp only: split: if_splits) simp
  then show ?thesis
    unfolding covered_all [OF finite_set] gate_passed_def empty set not_less by blast
qed

lemma passed_mono:
  assumes "gate_passed at_least zero_tps gate schemes min_signers"
    and "set (mg_achieved_artifacts gate) \<subseteq> set artifacts" and "set schemes \<subseteq> set schemes'"
  shows "gate_passed at_least zero_tps (gate\<lparr>mg_achieved_artifacts := artifacts\<rparr>) schemes' min_signers"
proof -
  let ?gate = "gate\<lparr>mg_achieved_artifacts := artifacts\<rparr>"
  have sub: "counted_artifacts gate schemes \<subseteq> counted_artifacts ?gate schemes'"
    using assms(2,3) by (auto simp: counted_artifacts_def)
  have "card (sa_signer_id ` counted_artifacts gate schemes) \<le> card (sa_signer_id ` counted_artifacts ?gate schemes')"
    using sub by (intro card_mono image_mono) (simp_all add: counted_artifacts_def)
  then have "min_signers \<le> card (sa_signer_id ` counted_artifacts ?gate schemes')"
    using assms(1) unfolding gate_passed_def by linarith
  moreover have "counted_artifacts ?gate schemes' \<noteq> {}" using assms(1) sub unfolding gate_passed_def by blast
  moreover have "set (mg_required_artifacts gate) \<subseteq> sa_kind ` counted_artifacts ?gate schemes'"
    using assms(1) image_mono [OF sub, of sa_kind] unfolding gate_passed_def by blast
  ultimately show ?thesis using assms(1) by (simp add: gate_passed_def)
qed

text \<open>C37.  A claim passes exactly with its evidence.  A milestone reaches at least \<open>InteropPassed\<close> exactly when some artifact
  is signed with an allowed scheme, every required kind is among those artifacts, enough different signers stand behind them,
  and the measured throughput reaches the target (\<open>gate_passed\<close>).  More artifacts or more allowed schemes never
  make a passed milestone fail.\<close>

theorem claim_gate_spec:
  "(InteropPassed \<le> evaluate_milestone_gate at_least zero_tps gate schemes min_signers \<longleftrightarrow>
      gate_passed at_least zero_tps gate schemes min_signers) \<and>
   (InteropPassed \<le> evaluate_milestone_gate at_least zero_tps gate schemes min_signers \<and>
      set (mg_achieved_artifacts gate) \<subseteq> set artifacts \<and> set schemes \<subseteq> set schemes' \<longrightarrow>
      InteropPassed \<le> evaluate_milestone_gate at_least zero_tps (gate\<lparr>mg_achieved_artifacts := artifacts\<rparr>) schemes' min_signers)"
  unfolding passed_iff using passed_mono [of at_least zero_tps gate schemes min_signers artifacts schemes'] by simp

definition example_artifact :: SignedArtifact where
  "example_artifact =
     \<lparr>sa_kind = FormalProof, sa_payload_hash = 1, sa_signature_scheme = Ed25519, sa_signer_id = ''ann'',
      sa_timestamp_unix = 10, sa_metadata = [], sa_gate_status = Draft\<rparr>"

definition example_gate :: "nat MilestoneGate" where
  "example_gate =
     \<lparr>mg_milestone_name = ''m'', mg_required_artifacts = [FormalProof], mg_achieved_artifacts = [example_artifact],
      mg_target_tps = 5, mg_measured_tps = Some 6, mg_gate_status = NotStarted\<rparr>"

theorem claim_gate_spec_witness:
  "InteropPassed \<le> evaluate_milestone_gate (\<ge>) 0 example_gate [Ed25519] 1 \<and>
   InteropPassed \<le> evaluate_milestone_gate (\<ge>) 0
     (example_gate\<lparr>mg_achieved_artifacts := [example_artifact, example_artifact\<lparr>sa_signer_id := ''bob''\<rparr>]\<rparr>)
     [Ed25519, Multisig] 1"
proof -
  have "counted_artifacts example_gate [Ed25519] = {example_artifact}"
    by (auto simp: counted_artifacts_def example_gate_def example_artifact_def)
  then have "gate_passed (\<ge>) 0 example_gate [Ed25519] 1"
    by (simp add: gate_passed_def) (simp add: example_gate_def example_artifact_def)
  moreover have "set (mg_achieved_artifacts example_gate) \<subseteq> set [example_artifact, example_artifact\<lparr>sa_signer_id := ''bob''\<rparr>]"
    by (simp add: example_gate_def)
  moreover have "set [Ed25519] \<subseteq> set [Ed25519, Multisig]" by simp
  ultimately show ?thesis
    using claim_gate_spec [of "(\<ge>)" 0 example_gate "[Ed25519]" 1
        "[example_artifact, example_artifact\<lparr>sa_signer_id := ''bob''\<rparr>]" "[Ed25519, Multisig]"]
    by blast
qed

text \<open>When all gates are required the whole claim passes exactly when no gate failed.\<close>

lemma overall_passed:
  assumes "ci_milestones config \<noteq> []" and "ci_require_all_gates config"
  shows "InteropPassed \<le> cis_overall_status (compute_claim_integrity_stats at_least ratio zero_tps config) \<longleftrightarrow>
    cis_gates_failed (compute_claim_integrity_stats at_least ratio zero_tps config) = 0"
proof -
  define statuses where "statuses = map (\<lambda>gate. evaluate_milestone_gate at_least zero_tps gate (ci_allowed_schemes config)
      (ci_min_signers config)) (ci_milestones config)"
  have "length statuses - length (filter (\<lambda>s. InteropPassed \<le> s) statuses) = 0 \<longleftrightarrow> (\<forall>s \<in> set statuses. InteropPassed \<le> s)"
    by (metis diff_is_0_eq dual_order.eq_iff filter_id_conv filter_True length_filter_le length_filter_less less_le_not_le)
  moreover have "InteropPassed \<le> Min (set statuses) \<longleftrightarrow> (\<forall>s \<in> set statuses. InteropPassed \<le> s)"
    using assms(1) by (intro Min_ge_iff) (simp_all add: statuses_def)
  ultimately show ?thesis
    using assms by (simp add: compute_claim_integrity_stats_def Let_def case_prod_unfold flip: statuses_def) (simp add: statuses_def)
qed

section \<open>Validation and commitment\<close>

interpretation artifacts: key_scan "check_artifact now_unix allowed"
  "\<lambda>a. (sa_kind a, sa_payload_hash a, sa_signer_id a)"
  "\<lambda>a. sa_signature_scheme a \<in> allowed \<and>
     (sa_timestamp_unix a < now_unix \<longrightarrow> (now_unix - sa_timestamp_unix a) div 3600 \<le> MAX_ARTIFACT_AGE_HOURS)"
  for now_unix allowed
  by unfold_locales (auto simp: check_artifact_def Let_def not_less)

lemma milestone_valid:
  assumes "hash_order it"
  shows "check_milestone it now allowed gate = [] \<longleftrightarrow>
    (\<forall>a \<in> set (mg_achieved_artifacts gate). sa_signature_scheme a \<in> allowed \<and>
       (sa_timestamp_unix a < now \<longrightarrow> (now - sa_timestamp_unix a) div 3600 \<le> MAX_ARTIFACT_AGE_HOURS)) \<and>
    distinct (map (\<lambda>a. (sa_kind a, sa_payload_hash a, sa_signer_id a)) (mg_achieved_artifacts gate)) \<and>
    (SpecComplete \<le> mg_gate_status gate \<longrightarrow>
       set (mg_required_artifacts gate) \<subseteq> sa_kind ` set (mg_achieved_artifacts gate))"
  using hash_order_set [OF assms] by (auto simp: check_milestone_def Let_def artifacts.scan_all)

text \<open>The hash of an artifact covers all of it, and the commitment the hashes of all artifacts, in any order.\<close>

lemma artifact_preimage_inj:
  assumes "string_fits (sa_signer_id a)" "string_fits (sa_signer_id b)" "string_fits (sa_metadata a)" "string_fits (sa_metadata b)"
    and eq: "artifact_preimage a = artifact_preimage b"
  shows "a = b"
proof -
  let ?rest = "\<lambda>a. be_bytes (sa_timestamp_unix a) @ len_prefixed (sa_metadata a) @ [gate_status_discriminant (sa_gate_status a)]"
  have head: "sa_kind a = sa_kind b" "sa_payload_hash a = sa_payload_hash b" "sa_signature_scheme a = sa_signature_scheme b"
    and "len_prefixed (sa_signer_id a) @ ?rest a = len_prefixed (sa_signer_id b) @ ?rest b"
    using eq by (simp_all add: artifact_preimage_def)
  from prefixed_string.split [OF assms(1,2) this(4)]
  have "sa_signer_id a = sa_signer_id b" "sa_timestamp_unix a = sa_timestamp_unix b"
    and "len_prefixed (sa_metadata a) @ [gate_status_discriminant (sa_gate_status a)] =
      len_prefixed (sa_metadata b) @ [gate_status_discriminant (sa_gate_status b)]" by simp_all
  with prefixed_string.split [OF assms(3,4) this(3)] head show ?thesis by (cases a; cases b) simp
qed

lemma sort_eq_iff: "sort xs = sort ys \<longleftrightarrow> mset xs = mset ys"
  by (metis mset_sort properties_for_sort sorted_sort)

lemma claim_preimage_canonical:
  assumes "length as < 2 ^ 64" and "length bs < 2 ^ 64"
  shows "claim_preimage sha as = claim_preimage sha bs \<longleftrightarrow>
    image_mset (sha \<circ> artifact_preimage) (mset as) = image_mset (sha \<circ> artifact_preimage) (mset bs)"
proof -
  let ?hashes = "\<lambda>xs. sort (map (\<lambda>a. sha (artifact_preimage a)) xs)"
  have "claim_preimage sha as = claim_preimage sha bs \<longleftrightarrow>
      counted be_bytes (?hashes as) = counted be_bytes (?hashes bs)"
    unfolding claim_preimage_def same_append_eq by (rule refl)
  also have "\<dots> \<longleftrightarrow> ?hashes as = ?hashes bs"
  proof
    assume "counted be_bytes (?hashes as) = counted be_bytes (?hashes bs)"
    with b256.counted_split [of "?hashes as" "?hashes bs" "[]" "[]"] assms show "?hashes as = ?hashes bs" by simp
  next
    assume "?hashes as = ?hashes bs"
    then show "counted be_bytes (?hashes as) = counted be_bytes (?hashes bs)" by (rule arg_cong)
  qed
  also have "\<dots> \<longleftrightarrow> mset (map (\<lambda>a. sha (artifact_preimage a)) as) = mset (map (\<lambda>a. sha (artifact_preimage a)) bs)"
    by (rule sort_eq_iff)
  finally show ?thesis by (simp add: comp_def)
qed

end
