(* ===== verification/Spec2Isabelle.thy ===== *)
theory Spec2Isabelle
  imports Consensus_Agreement Devnet Mempool Engine_Api Authorization Blobs Rollup_Gas Access_Lists Lanes
    Http_Server Multidim_Fees Frame_Tx Proof_Attestation Witness_Sync Citadel_Port Registries Tx_Announce
    Focil_Types Genesis_Builder Chain_Spec Formal_Gate Key_Ceremony Rpc_Gateway Launch_Gate Claim_Integrity
begin

text \<open>
  A verification library for ETH2077, an execution and consensus client written in Rust
  (\<open>src/crates\<close>).

  \<^bold>\<open>The program.\<close>  A node executes transactions against an in-memory state, builds blocks out
  of them, agrees with the other validators on a block per height, gossips blocks and
  votes, and serves the chain over JSON-RPC.  \<open>devnet.rs\<close> ties the parts together: a timer
  makes the leader build a block (\<open>block_builder.rs\<close>, which runs \<open>executor.rs\<close> over
  \<open>state.rs\<close>) and propose it to its consensus engine (\<open>consensus.rs\<close>, with the fast path
  of \<open>fast_path.rs\<close> and the quorums of \<open>validator.rs\<close>); the engine answers with events, which
  the loop turns into votes on the network (\<open>node.rs\<close> over \<open>codec.rs\<close>, \<open>gossip.rs\<close>, \<open>peer.rs\<close>
  and \<open>sync_protocol.rs\<close>), into messages back to the engine, and, for a final block, into
  an entry of the chain store that \<open>eth_rpc.rs\<close> reads.

  \<^bold>\<open>How code is modelled.\<close>  A struct is a record and an enum a datatype, with the names of
  the source; a method on \<open>&mut self\<close> returns the new state beside its result; a \<open>Result\<close> is a
  sum with the error on the left; a panic or a loop that does not end would be \<open>None\<close>.
  Fixed-width integers are words, with the saturating operations of the source where it
  saturates; \<open>usize\<close> is \<open>nat\<close>, which is exact below \<open>2 ^ 64\<close>, a bound on lengths that is stated where it
  matters.  \<open>HashMap\<close> is an association list with distinct keys, and each place that iterates over
  one takes the order as an argument that may be any permutation; \<open>BTreeMap\<close> is a sorted
  association list.  An unstable sort is any function that sorts.  Code outside the repository is
  an argument: \<open>ext\<close> (Keccak, RLP and bloom filters of alloy), \<open>evm\<close> (revm), \<open>sha\<close>
  (SHA-256), \<open>wire_json\<close> and \<open>node_json\<close> (serde_json), \<open>alloy_fmt\<close> (hex printing and parsing of
  alloy types), \<open>host\<close> (what the daemon calls), \<open>to_json\<close> (serde_json, for a commitment).  Hypotheses on them are \<open>evm_reports_code\<close> (the code revm reports for an
  account has the reported hash), \<open>evm_returns_maps\<close> (what revm reports are maps: no account and no slot twice) and
  \<open>wire_json_ok\<close> (what is serialised parses back).  Strings are ASCII: on them the Unicode trimming and case
  conversion of the standard library are the ASCII ones.

  \<^bold>\<open>Foundations.\<close>
  \<^item> \<open>Prelude\<close>: word arithmetic, byte views of integers, the two map types behind the
    contract \<open>map_contract\<close> (interpreted for both), iteration orders, unstable sorts.
  \<^item> \<open>Encoding\<close>: hashed byte strings; the contract \<open>prefix_code\<close> makes an encoding of a list or an
    option injective when the encoding of its elements is.
  \<^item> \<open>Validation\<close>: loops that collect errors; the contracts \<open>lazy_key_scan\<close> and
    \<open>key_scan\<close> give for each such loop when it reports nothing.

  \<^bold>\<open>Execution\<close> (\<open>crates/eth2077-execution\<close>, \<open>crates/eth2077-types/src/canonical.rs\<close>).
  \<^item> \<open>Canonical\<close>: headers, transactions, blocks, receipts and their hashes.
  \<^item> \<open>State_DB\<close>: \<open>InMemoryStateDB\<close>, with the contract \<open>account_store\<close>.
  \<^item> \<open>Executor\<close>: the revm adapter and \<open>BlockExecutor\<close>; committing what revm reports
    refines a pointwise update of the accounts.  \<open>exec_orders\<close> are the orders in which the three hash maps of an
    execution are visited: the accounts, the changes revm reports, and the slots of a change.
  \<^item> \<open>Block_Builder\<close>: \<open>block_builder.rs\<close>, \<open>block_validator.rs\<close>, \<open>genesis.rs\<close>.  Builder and
    validator run one contract, \<open>tx_replay\<close>; a built block validates, the state root is
    a canonical encoding of the accounts, genesis is right.
  \<^item> \<open>Mempool\<close>: \<open>ingress.rs\<close>; the invariant of reachable pools, what insertion does on every
    branch, that draining takes the best.
  \<^item> \<open>Authorization\<close>, \<open>Blobs\<close>, \<open>Rollup_Gas\<close>, \<open>Access_Lists\<close>, \<open>Lanes\<close>: the modules of the proposals
    7702 and 7864, 4844 and 8070, 8079 and 8007, 7928, 8142.  The validators accept exactly what
    they should, the access-list hash is canonical, accepted lanes are independent, the gas table
    agrees with the lookup.

  \<^bold>\<open>Consensus\<close> (\<open>crates/eth2077-oob-consensus\<close>).
  \<^item> \<open>Validator_Set\<close>: weights, the quorum threshold, its intersection property, leaders.
  \<^item> \<open>Oob\<close>: the mock finality backend and the mock execution bridge.
  \<^item> \<open>Fast_Path\<close>: the attestation accumulator; reachable accumulators only finalise what
    enough different attesters signed.
  \<^item> \<open>Consensus_Engine\<close>: the engine and its handlers.  Prevotes and precommits are
    counted through one contract, \<open>vote_counting\<close>; \<open>message_effect\<close> is what a message can do to
    an engine.
  \<^item> \<open>Event_Loop\<close>: what the node's loop does with the engine for each event.
  \<^item> \<open>Consensus_Agreement\<close>: a network of honest nodes and an adversary as a step relation,
    agreement for it when votes are authenticated, and a run without authentication that breaks it.

  \<^bold>\<open>Network\<close> (\<open>crates/eth2077-p2p\<close>).
  \<^item> \<open>Wire_Codec\<close>: framing, under any fragmentation of the stream.
  \<^item> \<open>Gossip\<close>: the relay caches, three interpretations of one contract \<open>relay_cache\<close>.
  \<^item> \<open>Peers_Sync\<close>: the peer table and the sync state machine.
  \<^item> \<open>P2P_Node\<close>: the dispatch loop, the broadcasts and the connection task.

  \<^bold>\<open>Bridge and node\<close> (\<open>crates/eth2077-bridge\<close>, \<open>crates/eth2077-node\<close>).
  \<^item> \<open>Payload_Converter\<close>, \<open>Engine_Api\<close>, \<open>Eth_Rpc\<close>: the engine API payloads, the fork-choice
    manager and the RPC methods.
  \<^item> \<open>Devnet\<close>: \<open>devnet.rs\<close>, start-up and every arm of its main loop.  The loop terminates, its
    consensus part is exactly what the agreement theorem is about, and a node on its own builds
    a linked, valid chain.
  \<^bold>\<open>The daemon\<close> (\<open>crates/eth2077-node/src/bin/eth2077-devnetd.rs\<close>).
  \<^item> \<open>Json\<close>: JSON values, options and strings of the standard library.
  \<^item> \<open>Node_State\<close>: the part of \<open>NodeState\<close> the engine methods use, and reading requests.
    \<open>Daemon_State\<close>: the rest of it, as a record extension, and start-up.
  \<^item> \<open>Payload_Timeliness\<close>: EIP-7732 headers, envelopes, the status of a slot, penalties, range
    queries.  The status of a slot is what the registered headers and envelopes imply, the penalty of
    a slot tells its history, ranges are bounded.
  \<^item> \<open>Inclusion_Lists\<close>: fork-choice updates, frozen views, new payloads, the dispatch of the
    engine methods, and the invariant of all states they reach.  Every method has one of the
    effects \<open>engine_effect\<close>; the transactions of a frozen list do not change, though their metadata may;
    registrations are permanent; a payload answered valid honours the list.
  \<^item> \<open>Raw_Tx\<close>: the decoder of raw transactions, the inverse of the encoding the Ethereum documents
    prescribe.
  \<^item> \<open>Tx_Index\<close>: submission and execution of transactions, the index of transactions and receipts, the block
    ticker.  An accepted transaction is in the next block, with its receipt.
  \<^item> \<open>Market\<close>: the token market; who can change the owner of a token.
  \<^item> \<open>Node_Rpc\<close>: the other methods of \<open>handle_jsonrpc\<close>, the dispatch over all of them, and batches.
  \<^item> \<open>Http_Server\<close>: reading requests under any fragmentation, routes, and the daemon as a whole.  A connection is given
    by what its reads return so far; the read loop stops or still waits for the next one.  Every call has
    one of the effects \<open>call_effect\<close>; \<open>daemon_reach\<close> are the states connections and ticks lead to, and all
    invariants of the daemon hold in them.

  \<^bold>\<open>Protocol and configuration modules\<close> (\<open>crates/eth2077-types\<close>).
  \<^item> \<open>Multidim_Fees\<close> (\<open>eip7999.rs\<close>): what a transaction pays in each dimension adds up to its fee, saturation included.
  \<^item> \<open>Frame_Tx\<close> (\<open>eip8141.rs\<close>), \<open>Proof_Attestation\<close> (\<open>eip8025.rs\<close>), \<open>Tx_Announce\<close> (\<open>eip8077.rs\<close>), \<open>Focil_Types\<close>
    (\<open>focil.rs\<close>, \<open>epbs.rs\<close>): validators against what they should accept, which hashes bind what they cover,
    gaps of nonces, priorities, missing transactions, timeliness.
  \<^item> \<open>Witness_Sync\<close> (\<open>witness.rs\<close>, \<open>spore_sync.rs\<close>): identifiers and XOR fingerprints, over the
    contract \<open>involutive_group\<close>.
  \<^item> \<open>Citadel_Port\<close> (\<open>citadel_port.rs\<close>): the depth-first search for a dependency cycle terminates, and it is sound and complete.
  \<^item> \<open>Registries\<close> (\<open>theorem_registry.rs\<close>, \<open>assumption_checker.rs\<close>): references resolve; the day number of a
    date counts days, and the review schedule follows it.
  \<^item> \<open>String_Maps\<close>: metadata and length-prefixed strings, which are prefix codes.  \<open>Genesis_Builder\<close>
    (\<open>genesis_builder.rs\<close>), \<open>Chain_Spec\<close> (\<open>chain_spec.rs\<close>), \<open>Formal_Gate\<close> (\<open>ci_formal_gate.rs\<close>): validators,
    verdicts, and commitments, which are canonical where the lengths are hashed and collide where they are not.
  \<^item> \<open>Key_Ceremony\<close> (\<open>validator_ceremony.rs\<close>), \<open>Rpc_Gateway\<close> (\<open>rpc_gateway.rs\<close>), \<open>Launch_Gate\<close> (\<open>go_nogo_gate.rs\<close>),
    \<open>Claim_Integrity\<close> (\<open>claim_integrity.rs\<close>): a commitment that needs no lengths because its delimiters cannot occur,
    one that is independent of the order of its parts, and two decisions that more evidence never reverses.
    Floating-point figures are of an arbitrary type there, with the operations the code applies as parameters.

  \<^bold>\<open>Loops and termination.\<close>  The event loop pops the last event and pushes the events that
  follow; \<open>run_events\<close> and \<open>process_consensus_events\<close> are total functions with the measure
  \<open>queue_rank\<close>, which a vote lowers because the engine answers a vote only with later ones.
  The eviction loops of the caches are written in the source without a bound and are
  a \<open>partial_function\<close>; that they return is proved (\<open>relay_cache\<close>).  The depth-first search of
  \<open>Citadel_Port\<close> terminates by the number of nodes not visited yet.  No fuel is used.

  \<^bold>\<open>What the theorems found.\<close>  The quorum threshold is too low when the total weight is a
  multiple of three; the fast path counts votes of strangers, and votes under a name that is not the
  sender's break agreement, since no signature is checked; the devnet accepts blocks of
  peers unchecked and its nodes never serve blocks; a stale disconnect drops a live peer; merging
  access lists forgets the first pre-value; an envelope registered before its header escapes the slot
  check; the metadata of a frozen inclusion list can be replaced; a transaction the EVM refuses empties the accounts of the daemon, whose raw
  transactions are never checked for a signature; a content length near the largest number stops
  it; the hashes of frame transactions, genesis allocations and chain specifications do not separate
  their parts, and a witness identifier is no hash.  Each is a theorem here.

  \<^bold>\<open>Not modelled.\<close>  Sockets, timers, task spawning, locks and servers (\<open>transport.rs\<close> and
  the outer part of \<open>node.rs\<close>, \<open>engine_api.rs\<close>, \<open>eth_rpc.rs\<close>, \<open>devnet.rs\<close>), since they only move
  data between the operations above.  Functions whose results are floating-point ratios (statistics of
  lanes, blobs, repricing and rollups, capacity plans): a model over the reals would not be
  the code.  Benchmarks, the load generator and the test-net driver.  The report and planning modules of
  \<open>crates/eth2077-types\<close>, most of which hold configuration checks for documents.
  Of the daemon, sockets, the lock, threads and the status file are left out, and revm, the RLP and JSON readers,
  the default hasher and one floating-point division are parameters.  In \<open>crates/eth2077-types\<close> the modules
  whose inputs or results are floating point (\<open>eip7938.rs\<close>, \<open>lucid_mempool.rs\<close>, \<open>one_round_finality.rs\<close>,
  \<open>quick_slots.rs\<close>, \<open>vops.rs\<close> and the report modules) are left out.
\<close>

end
